(* ===== verification/Prelude.thy ===== *)
theory Prelude
  imports Main "HOL-Library.Word"
begin

text \<open>
  Shared vocabulary of the development: sequences as the code's \<open>std::vector\<close> and
  \<open>std::deque\<close> use them, the ordered associative container \<open>std::map\<close> as a strictly
  sorted association list together with the contract its clients rely on, and the small
  state-and-error machinery that the handlers of the managers are written in.
\<close>

named_theorems map_laws \<open>what a lookup returns after an update, for the container models\<close>
named_theorems preserve_intros \<open>rules that lift an invariant through the handler combinators\<close>

type_synonym byte = "8 word"
type_synonym bytes = "byte list"

section \<open>Sequences\<close>

text \<open>Change or erase the first element that satisfies a predicate: \<open>std::find_if\<close>
  followed by a mutation or an \<open>erase\<close> of the iterator found.\<close>

fun update_first :: "('a \<Rightarrow> bool) \<Rightarrow> ('a \<Rightarrow> 'a) \<Rightarrow> 'a list \<Rightarrow> 'a list" where
  "update_first P f [] = []"
| "update_first P f (x # xs) = (if P x then f x # xs else x # update_first P f xs)"

fun remove_first :: "('a \<Rightarrow> bool) \<Rightarrow> 'a list \<Rightarrow> 'a list" where
  "remove_first P [] = []"
| "remove_first P (x # xs) = (if P x then xs else x # remove_first P xs)"

text \<open>The position of the element that \<open>std::find_if\<close> finds.\<close>

definition position :: "('a \<Rightarrow> bool) \<Rightarrow> 'a list \<Rightarrow> nat option" where
  "position p xs = (case takeWhile (\<lambda>x. \<not> p x) xs of ys \<Rightarrow> if length ys < length xs then Some (length ys) else None)"

lemma find_None_iff_filter: "List.find P xs = None \<longleftrightarrow> filter P xs = []"
  by (induction xs) auto

lemma find_Some_split:
  "List.find P xs = Some x \<Longrightarrow>
     \<exists>ys zs. xs = ys @ x # zs \<and> P x \<and> (\<forall>y\<in>set ys. \<not> P y)"
proof (induction xs)
  case (Cons a xs)
  show ?case
  proof (cases "P a")
    case True
    with Cons.prems have "a = x" by simp
    with True have "a # xs = [] @ x # xs \<and> P x \<and> (\<forall>y\<in>set []. \<not> P y)" by simp
    then show ?thesis by blast
  next
    case False
    with Cons.prems obtain ys zs where "xs = ys @ x # zs" "P x" "\<forall>y\<in>set ys. \<not> P y"
      using Cons.IH by auto
    with False have "a # xs = (a # ys) @ x # zs \<and> P x \<and> (\<forall>y\<in>set (a # ys). \<not> P y)" by simp
    then show ?thesis by blast
  qed
qed simp

lemma find_Some_in: "List.find P xs = Some x \<Longrightarrow> x \<in> set xs \<and> P x"
  using find_Some_split [of P xs x] by auto

lemma update_first_split:
  "\<forall>y\<in>set ys. \<not> P y \<Longrightarrow> P x \<Longrightarrow> update_first P f (ys @ x # zs) = ys @ f x # zs"
  by (induction ys) auto

lemma remove_first_split:
  "\<forall>y\<in>set ys. \<not> P y \<Longrightarrow> P x \<Longrightarrow> remove_first P (ys @ x # zs) = ys @ zs"
  by (induction ys) auto

lemma update_first_none: "\<forall>y\<in>set ys. \<not> P y \<Longrightarrow> update_first P f ys = ys"
  by (induction ys) auto

lemma remove_first_none: "\<forall>y\<in>set ys. \<not> P y \<Longrightarrow> remove_first P ys = ys"
  by (induction ys) auto

lemma length_update_first [simp]: "length (update_first P f xs) = length xs"
  by (induction xs) auto

lemma map_update_first: "(\<And>x. P x \<Longrightarrow> g (f x) = g x) \<Longrightarrow> map g (update_first P f xs) = map g xs"
  by (induction xs) auto

lemma set_update_first: "x \<in> set (update_first P f xs) \<Longrightarrow> x \<in> set xs \<or> (\<exists>y\<in>set xs. P y \<and> x = f y)"
  by (induction xs) (auto split: if_splits)

lemma set_remove_first: "set (remove_first P xs) \<subseteq> set xs"
  by (induction xs) auto

lemma distinct_remove_first: "distinct (map f xs) \<Longrightarrow> distinct (map f (remove_first P xs))"
  by (induction xs) (auto dest: set_remove_first [THEN subsetD])

lemma list_all_update_first:
  "list_all Q xs \<Longrightarrow> (\<And>x. P x \<Longrightarrow> Q x \<Longrightarrow> Q (f x)) \<Longrightarrow> list_all Q (update_first P f xs)"
  by (induction xs) auto

lemma list_all_remove_first: "list_all Q xs \<Longrightarrow> list_all Q (remove_first P xs)"
  by (induction xs) auto

text \<open>Erase the element at an index: \<open>v.erase( v.begin() + i)\<close>.\<close>

definition erase_at :: "nat \<Rightarrow> 'a list \<Rightarrow> 'a list" where
  "erase_at i xs = take i xs @ drop (Suc i) xs"

lemma erase_at_split [simp]: "erase_at (length xs) (xs @ x # ys) = xs @ ys"
  by (simp add: erase_at_def)

section \<open>C integers\<close>

text \<open>Integer division of C truncates towards zero, unlike \<open>div\<close>.\<close>

definition cdiv :: "int \<Rightarrow> int \<Rightarrow> int" where
  "cdiv a b = sgn a * sgn b * (\<bar>a\<bar> div \<bar>b\<bar>)"

text \<open>A \<open>long\<close> stored in an \<open>int\<close> keeps its low 32 bits.\<close>

definition narrow_int :: "int \<Rightarrow> int" where
  "narrow_int v = sint (word_of_int v :: 32 word)"

lemma cdiv_bounds:
  "0 < b \<Longrightarrow> cdiv a b = q \<Longrightarrow> 0 < q \<Longrightarrow> q * b \<le> a \<and> a < (q + 1) * b"
proof -
  assume b: "0 < b" and q: "cdiv a b = q" "0 < q"
  have a: "0 < a"
  proof (rule ccontr)
    assume "\<not> 0 < a"
    then have "cdiv a b \<le> 0" using b
      by (cases "a = 0") (auto simp: cdiv_def sgn_if pos_imp_zdiv_nonneg_iff)
    with q show False by simp
  qed
  then have "a div b = q" using b q by (simp add: cdiv_def)
  then have "a = b * q + a mod b" by (metis mult_div_mod_eq)
  moreover have "0 \<le> a mod b" "a mod b < b" using b by simp_all
  ultimately show ?thesis by (simp add: algebra_simps)
qed

section \<open>Ordered associative containers\<close>

text \<open>\<open>std::map\<close>: the entries in ascending order of the key, no key twice.\<close>

type_synonym ('k, 'v) omap = "('k \<times> 'v) list"

definition omap_ok :: "('k::linorder, 'v) omap \<Rightarrow> bool" where
  "omap_ok m \<longleftrightarrow> sorted_wrt (<) (map fst m)"

fun omap_put :: "'k::linorder \<Rightarrow> 'v \<Rightarrow> ('k, 'v) omap \<Rightarrow> ('k, 'v) omap" where
  "omap_put k v [] = [(k, v)]"
| "omap_put k v ((a, b) # m) =
     (if k < a then (k, v) # (a, b) # m
      else if k = a then (k, v) # m
      else (a, b) # omap_put k v m)"

definition omap_erase :: "'k \<Rightarrow> ('k, 'v) omap \<Rightarrow> ('k, 'v) omap" where
  "omap_erase k m = filter (\<lambda>(a, _). a \<noteq> k) m"

text \<open>The first entry after a key: \<open>std::next( m.find( k))\<close> for a key that is present.\<close>

definition omap_next :: "'k::linorder \<Rightarrow> ('k, 'v) omap \<Rightarrow> ('k \<times> 'v) option" where
  "omap_next k m = List.find (\<lambda>(a, _). k < a) m"

definition omap_map :: "('v \<Rightarrow> 'w) \<Rightarrow> ('k, 'v) omap \<Rightarrow> ('k, 'w) omap" where
  "omap_map f m = map (\<lambda>(a, b). (a, f b)) m"

lemma omap_ok_Nil [simp]: "omap_ok []"
  by (simp add: omap_ok_def)

lemma omap_ok_Cons [simp]:
  "omap_ok ((a, b) # m) \<longleftrightarrow> (\<forall>k\<in>fst ` set m. a < k) \<and> omap_ok m"
  by (auto simp: omap_ok_def)

lemma fst_omap_put [simp]: "fst ` set (omap_put k v m) = insert k (fst ` set m)"
  by (induction k v m rule: omap_put.induct) auto

lemma omap_ok_put [simp]: "omap_ok m \<Longrightarrow> omap_ok (omap_put k v m)"
  by (induction k v m rule: omap_put.induct) auto

lemma map_of_above: "\<forall>k\<in>fst ` set m. a < k \<Longrightarrow> (b::'k::linorder) \<le> a \<Longrightarrow> map_of m b = None"
  by (meson leD map_of_eq_None_iff)

lemma map_of_omap_put [map_laws]:
  "omap_ok m \<Longrightarrow> map_of (omap_put k v m) = (map_of m)(k \<mapsto> v)"
  by (induction k v m rule: omap_put.induct) (auto simp: fun_eq_iff)

lemma omap_ok_erase [simp]: "omap_ok m \<Longrightarrow> omap_ok (omap_erase k m)"
  by (induction m) (auto simp: omap_erase_def)

lemma map_of_omap_erase [map_laws]: "map_of (omap_erase k m) = (map_of m)(k := None)"
  by (induction m) (auto simp: omap_erase_def fun_eq_iff)

lemma omap_ok_map [simp]: "omap_ok (omap_map f m) = omap_ok m"
  by (simp add: omap_ok_def omap_map_def comp_def case_prod_unfold)

lemma map_of_omap_map [map_laws]: "map_of (omap_map f m) k = map_option f (map_of m k)"
  by (induction m) (auto simp: omap_map_def)

text \<open>Two containers with the same lookups are the same container.\<close>

lemma map_of_head: "omap_ok ((a, b) # m) \<Longrightarrow> k \<le> a \<Longrightarrow>
  map_of ((a, b) # m) k = (if k = a then Some b else None)"
  by (auto simp: map_of_above)

lemma omap_ext:
  "omap_ok m \<Longrightarrow> omap_ok n \<Longrightarrow> map_of m = map_of n \<Longrightarrow> m = n"
proof (induction m arbitrary: n)
  case Nil
  then show ?case by (metis map_of_eq_empty_iff map_of.simps(1))
next
  case (Cons p m)
  obtain a b where p: "p = (a, b)" by force
  have "map_of n a = Some b" using Cons.prems(3) p by (metis map_of_Cons_code(2))
  then obtain a' b' n' where n: "n = (a', b') # n'" by (cases n) auto
  have eq: "map_of ((a, b) # m) k = map_of ((a', b') # n') k" for k
    using Cons.prems(3) unfolding p n by (simp only:)
  have hm: "map_of ((a, b) # m) k = (if k = a then Some b else None)" if "k \<le> a" for k
    by (rule map_of_head [OF _ that]) (use Cons.prems(1) p in simp)
  have hn: "map_of ((a', b') # n') k = (if k = a' then Some b' else None)" if "k \<le> a'" for k
    by (rule map_of_head [OF _ that]) (use Cons.prems(2) n in simp)
  have "a = a'"
  proof (rule linorder_cases [of a a'])
    assume "a < a'"
    then show ?thesis using eq [of a] hm [of a] hn [of a] by (metis less_imp_le option.distinct(1) order_refl)
  next
    assume "a' < a"
    then show ?thesis using eq [of a'] hm [of a'] hn [of a'] by (metis less_imp_le option.distinct(1) order_refl)
  qed
  moreover have "b = b'"
    using eq [of a] \<open>a = a'\<close> by simp
  moreover have "map_of m = map_of n'"
  proof
    fix k
    show "map_of m k = map_of n' k"
    proof (cases "k = a")
      case True
      have "map_of m a = None" and "map_of n' a = None"
        using Cons.prems(1,2) p n \<open>a = a'\<close> by (auto intro!: map_of_above)
      with True show ?thesis by simp
    next
      case False
      with eq [of k] \<open>a = a'\<close> show ?thesis by simp
    qed
  qed
  ultimately show ?case using Cons p n by auto
qed

text \<open>
  The contract of an associative container, as far as its clients use it: a lookup sees
  the last update. The clients' facts are proved from the contract alone.
\<close>

locale assoc_container =
  fixes lookup :: "'m \<Rightarrow> 'k \<Rightarrow> 'v option"
    and put :: "'k \<Rightarrow> 'v \<Rightarrow> 'm \<Rightarrow> 'm"
    and erase :: "'k \<Rightarrow> 'm \<Rightarrow> 'm"
    and invar :: "'m \<Rightarrow> bool"
  assumes lookup_put: "invar m \<Longrightarrow> lookup (put k v m) = (lookup m)(k \<mapsto> v)"
    and lookup_erase: "invar m \<Longrightarrow> lookup (erase k m) = (lookup m)(k := None)"
    and invar_put: "invar m \<Longrightarrow> invar (put k v m)"
    and invar_erase: "invar m \<Longrightarrow> invar (erase k m)"
begin

lemma dom_put: "invar m \<Longrightarrow> dom (lookup (put k v m)) = insert k (dom (lookup m))"
  by (simp add: lookup_put)

lemma dom_erase: "invar m \<Longrightarrow> dom (lookup (erase k m)) = dom (lookup m) - {k}"
  by (simp add: lookup_erase)

lemma put_put: "invar m \<Longrightarrow> lookup (put k v (put k w m)) = lookup (put k v m)"
  by (simp add: lookup_put invar_put)

lemma erase_put: "invar m \<Longrightarrow> lookup m k = None \<Longrightarrow> lookup (erase k (put k v m)) = lookup m"
  by (auto simp: lookup_put lookup_erase invar_put)

end

interpretation omap: assoc_container map_of omap_put omap_erase omap_ok
  by unfold_locales (simp_all add: map_laws)

text \<open>\<open>emplace\<close> keeps the value that is already stored and reports whether it inserted.\<close>

definition emplace :: "'k \<Rightarrow> 'v \<Rightarrow> ('k \<rightharpoonup> 'v) \<Rightarrow> ('k \<rightharpoonup> 'v) \<times> bool" where
  "emplace k v m = (case m k of None \<Rightarrow> (m(k \<mapsto> v), True) | Some _ \<Rightarrow> (m, False))"

end
