(* ===== verification/ByteOrder.thy ===== *)
theory ByteOrder
  imports Prelude
begin

text \<open>
  \<open>common/network/byteorder.{h,cpp}\<close>: the conversion of the built-in types to network
  byte order on a little-endian host. \<open>encode\<close> returns an unsigned integer whose bytes in
  host memory are the big-endian bytes of the value; the buffers then copy those bytes.
  \<open>float\<close> and \<open>double\<close> are carried by their 32 and 64 bit patterns, as the code does.
  The C integers are mathematical integers with the wrap-around of the conversion to the
  fixed width written out.
\<close>

section \<open>The host's memory layout\<close>

text \<open>The bytes of a word in memory, least significant first, and back.\<close>

definition host_bytes :: "nat \<Rightarrow> 'a::len word \<Rightarrow> bytes" where
  "host_bytes n w = map (\<lambda>i. ucast (drop_bit (8 * i) w)) [0..<n]"

fun host_word :: "bytes \<Rightarrow> 'a::len word" where
  "host_word [] = 0"
| "host_word (b # bs) = or (ucast b) (push_bit 8 (host_word bs))"

lemma length_host_bytes [simp]: "length (host_bytes n w) = n"
  by (simp add: host_bytes_def)

lemma bit_host_word:
  "bit (host_word bs :: 'a::len word) k \<longleftrightarrow>
     k < LENGTH('a) \<and> k div 8 < length bs \<and> bit (bs ! (k div 8)) (k mod 8)"
proof (induction bs arbitrary: k)
  case Nil
  then show ?case by simp
next
  case (Cons b bs)
  show ?case
  proof (cases "k < 8")
    case True
    then show ?thesis by (auto simp: bit_simps)
  next
    case False
    then obtain j where k: "k = j + 8" by (metis le_add_diff_inverse2 not_less)
    have div: "(j + 8) div 8 = Suc (j div 8)" and mod: "(j + 8) mod 8 = j mod 8" by simp_all
    have nb: "\<not> bit b (j + 8)"
      using bit_imp_le_length [of b "j + 8"] by auto
    show ?thesis unfolding k
      using Cons.IH [of j] nb by (auto simp: bit_simps div mod)
  qed
qed

lemma host_word_host_bytes:
  "LENGTH('a::len) = 8 * n \<Longrightarrow> host_word (host_bytes n (w :: 'a word)) = w"
  by (rule bit_word_eqI)
    (auto simp: bit_host_word host_bytes_def bit_simps less_mult_imp_div_less mult.commute)

lemma host_bytes_host_word:
  assumes "LENGTH('a::len) = 8 * n" and "length bs = n"
  shows "host_bytes n (host_word bs :: 'a word) = bs"
proof (rule nth_equalityI)
  fix i assume i: "i < length (host_bytes n (host_word bs :: 'a word))"
  show "host_bytes n (host_word bs :: 'a word) ! i = bs ! i"
  proof (rule bit_word_eqI)
    fix k assume "k < LENGTH(8)"
    then have k: "k < 8" by simp
    then have "(8 * i + k) div 8 = i" "(8 * i + k) mod 8 = k" by simp_all
    with i k assms show "bit (host_bytes n (host_word bs :: 'a word) ! i) k = bit (bs ! i) k"
      by (auto simp: host_bytes_def bit_simps bit_host_word)
  qed
qed (use assms in simp)

section \<open>Host to network order\<close>

text \<open>The macros \<open>HTOBE16\<close> to \<open>BE64TOH\<close> of a little-endian host: swap the bytes.\<close>

definition bswap :: "nat \<Rightarrow> 'a::len word \<Rightarrow> 'a word" where
  "bswap n w = host_word (rev (host_bytes n w))"

definition htobe16 :: "16 word \<Rightarrow> 16 word" where "htobe16 = bswap 2"
definition htobe32 :: "32 word \<Rightarrow> 32 word" where "htobe32 = bswap 4"
definition htobe64 :: "64 word \<Rightarrow> 64 word" where "htobe64 = bswap 8"
definition be16toh :: "16 word \<Rightarrow> 16 word" where "be16toh = bswap 2"
definition be32toh :: "32 word \<Rightarrow> 32 word" where "be32toh = bswap 4"
definition be64toh :: "64 word \<Rightarrow> 64 word" where "be64toh = bswap 8"

lemma host_bytes_bswap:
  "LENGTH('a::len) = 8 * n \<Longrightarrow> host_bytes n (bswap n (w :: 'a word)) = rev (host_bytes n w)"
  by (simp add: bswap_def host_bytes_host_word)

lemma bswap_bswap: "LENGTH('a::len) = 8 * n \<Longrightarrow> bswap n (bswap n (w :: 'a word)) = w"
  by (simp add: bswap_def host_bytes_host_word host_word_host_bytes)

section \<open>The transcoders\<close>

definition encode_bool :: "bool \<Rightarrow> 8 word" where "encode_bool v = of_bool v"
definition decode_bool :: "8 word \<Rightarrow> bool" where "decode_bool w \<longleftrightarrow> w \<noteq> 0"

definition encode_char :: "byte \<Rightarrow> 8 word" where "encode_char v = v"
definition decode_char :: "8 word \<Rightarrow> byte" where "decode_char w = w"

definition encode_short :: "int \<Rightarrow> 16 word" where "encode_short v = htobe16 (word_of_int v)"
definition decode_short :: "16 word \<Rightarrow> int" where "decode_short w = sint (be16toh w)"

definition encode_int :: "int \<Rightarrow> 32 word" where "encode_int v = htobe32 (word_of_int v)"
definition decode_int :: "32 word \<Rightarrow> int" where "decode_int w = sint (be32toh w)"

definition encode_long :: "int \<Rightarrow> 64 word" where "encode_long v = htobe64 (word_of_int v)"
definition decode_long :: "64 word \<Rightarrow> int" where "decode_long w = sint (be64toh w)"

definition encode_float :: "32 word \<Rightarrow> 32 word" where "encode_float v = htobe32 v"
definition decode_float :: "32 word \<Rightarrow> 32 word" where "decode_float w = be32toh w"

definition encode_double :: "64 word \<Rightarrow> 64 word" where "encode_double v = htobe64 v"
definition decode_double :: "64 word \<Rightarrow> 64 word" where "decode_double w = be64toh w"

text \<open>The values a C \<open>short\<close>, \<open>int\<close> and \<open>long\<close> can hold.\<close>

definition is_short :: "int \<Rightarrow> bool" where "is_short v \<longleftrightarrow> - (2 ^ 15) \<le> v \<and> v < 2 ^ 15"
definition is_int :: "int \<Rightarrow> bool" where "is_int v \<longleftrightarrow> - (2 ^ 31) \<le> v \<and> v < 2 ^ 31"
definition is_long :: "int \<Rightarrow> bool" where "is_long v \<longleftrightarrow> - (2 ^ 63) \<le> v \<and> v < 2 ^ 63"

lemma sint_word_of_int_fits:
  "is_short v \<Longrightarrow> sint (word_of_int v :: 16 word) = v"
  "is_int v \<Longrightarrow> sint (word_of_int v :: 32 word) = v"
  "is_long v \<Longrightarrow> sint (word_of_int v :: 64 word) = v"
  by (simp_all add: is_short_def is_int_def is_long_def signed_of_int signed_take_bit_int_eq_self)

section \<open>What the buffers put in memory and read back\<close>

definition put_bool :: "bool \<Rightarrow> bytes" where "put_bool v = host_bytes 1 (encode_bool v)"
definition put_char :: "byte \<Rightarrow> bytes" where "put_char v = host_bytes 1 (encode_char v)"
definition put_short :: "int \<Rightarrow> bytes" where "put_short v = host_bytes 2 (encode_short v)"
definition put_int :: "int \<Rightarrow> bytes" where "put_int v = host_bytes 4 (encode_int v)"
definition put_long :: "int \<Rightarrow> bytes" where "put_long v = host_bytes 8 (encode_long v)"
definition put_float :: "32 word \<Rightarrow> bytes" where "put_float v = host_bytes 4 (encode_float v)"
definition put_double :: "64 word \<Rightarrow> bytes" where "put_double v = host_bytes 8 (encode_double v)"

definition get_bool :: "bytes \<Rightarrow> bool" where "get_bool m = decode_bool (host_word (take 1 m))"
definition get_char :: "bytes \<Rightarrow> byte" where "get_char m = decode_char (host_word (take 1 m))"
definition get_short :: "bytes \<Rightarrow> int" where "get_short m = decode_short (host_word (take 2 m))"
definition get_int :: "bytes \<Rightarrow> int" where "get_int m = decode_int (host_word (take 4 m))"
definition get_long :: "bytes \<Rightarrow> int" where "get_long m = decode_long (host_word (take 8 m))"
definition get_float :: "bytes \<Rightarrow> 32 word" where
  "get_float m = decode_float (host_word (take 4 m))"
definition get_double :: "bytes \<Rightarrow> 64 word" where
  "get_double m = decode_double (host_word (take 8 m))"

text \<open>
  The contract the buffers rely on: a type occupies a fixed number of bytes, and reading
  where a representable value was put gives the value back, whatever follows it.
\<close>

locale transcoder =
  fixes put :: "'v \<Rightarrow> bytes"
    and get :: "bytes \<Rightarrow> 'v"
    and width :: nat
    and fits :: "'v \<Rightarrow> bool"
  assumes length_put: "length (put v) = width"
    and get_put: "fits v \<Longrightarrow> get (put v @ rest) = v"
begin

lemma get_put_end: "fits v \<Longrightarrow> get (put v) = v"
  using get_put [of v "[]"] by simp

lemma get_at: "fits v \<Longrightarrow> n = length pre \<Longrightarrow> get (drop n (pre @ put v @ post)) = v"
  by (simp add: get_put)

lemma put_inject: "fits v \<Longrightarrow> fits w \<Longrightarrow> put v = put w \<Longrightarrow> v = w"
  by (metis get_put_end)

lemma put_prefix: "fits v \<Longrightarrow> fits w \<Longrightarrow> put v @ xs = put w @ ys \<Longrightarrow> v = w \<and> xs = ys"
  by (metis append_eq_append_conv get_put length_put)

end

lemmas put_defs = put_bool_def put_char_def put_short_def put_int_def put_long_def
  put_float_def put_double_def encode_bool_def encode_char_def encode_short_def
  encode_int_def encode_long_def encode_float_def encode_double_def
  htobe16_def htobe32_def htobe64_def

lemmas get_defs = get_bool_def get_char_def get_short_def get_int_def get_long_def
  get_float_def get_double_def decode_bool_def decode_char_def decode_short_def
  decode_int_def decode_long_def decode_float_def decode_double_def
  be16toh_def be32toh_def be64toh_def

interpretation t_bool: transcoder put_bool get_bool 1 "\<lambda>_. True"
  by unfold_locales (simp_all add: put_defs get_defs host_word_host_bytes del: host_word.simps)

interpretation t_char: transcoder put_char get_char 1 "\<lambda>_. True"
  by unfold_locales (simp_all add: put_defs get_defs host_word_host_bytes del: host_word.simps)

interpretation t_short: transcoder put_short get_short 2 is_short
  by unfold_locales
    (simp_all add: put_defs get_defs host_word_host_bytes bswap_bswap sint_word_of_int_fits
      del: host_word.simps)

interpretation t_int: transcoder put_int get_int 4 is_int
  by unfold_locales
    (simp_all add: put_defs get_defs host_word_host_bytes bswap_bswap sint_word_of_int_fits
      del: host_word.simps)

interpretation t_long: transcoder put_long get_long 8 is_long
  by unfold_locales
    (simp_all add: put_defs get_defs host_word_host_bytes bswap_bswap sint_word_of_int_fits
      del: host_word.simps)

interpretation t_float: transcoder put_float get_float 4 "\<lambda>_. True"
  by unfold_locales
    (simp_all add: put_defs get_defs host_word_host_bytes bswap_bswap del: host_word.simps)

interpretation t_double: transcoder put_double get_double 8 "\<lambda>_. True"
  by unfold_locales
    (simp_all add: put_defs get_defs host_word_host_bytes bswap_bswap del: host_word.simps)

declare t_bool.length_put [simp] t_char.length_put [simp] t_short.length_put [simp]
  t_int.length_put [simp] t_long.length_put [simp] t_float.length_put [simp]
  t_double.length_put [simp]

text \<open>On the wire the most significant byte comes first.\<close>

lemma put_long_big_endian: "put_long v = rev (host_bytes 8 (word_of_int v :: 64 word))"
  by (simp add: put_defs host_bytes_bswap)

lemma put_short_big_endian: "put_short v = rev (host_bytes 2 (word_of_int v :: 16 word))"
  by (simp add: put_defs host_bytes_bswap)

lemma get_long_is_long: "is_long (get_long m)"
  using sint_range_size [of "be64toh (host_word (take 8 m))"]
  by (simp add: get_long_def decode_long_def is_long_def word_size)

end
