(* ===== verification/BufferPool.thy ===== *)
theory BufferPool
  imports ByteOrder
begin

text \<open>
  \<open>common/buffer/pool.h\<close> and \<open>common/buffer/type.{h,cpp}\<close>: payloads, and the template
  \<open>basic_pool\<close> that owns the buffers of one kind and finds them by the address the user
  holds. A \<open>std::vector< char>\<close> is its block (address and capacity) and its content;
  addresses come from a counter that only grows, so a block never overlaps a live one.
  The null pointer is the address 0, which \<open>data()\<close> returns for capacity 0.
\<close>

section \<open>Exceptions of the buffer code\<close>

datatype exn =
    Xatmi_argument        \<comment> \<open>\<open>common::code::xatmi::argument\<close>\<close>
  | Std_out_of_range      \<comment> \<open>\<open>std::out_of_range\<close>, from \<open>at()\<close>\<close>
  | Std_invalid_argument  \<comment> \<open>\<open>std::invalid_argument\<close>\<close>
  | Std_bad_alloc         \<comment> \<open>\<open>std::bad_alloc\<close>\<close>
  | Std_length_error      \<comment> \<open>\<open>std::length_error\<close>, a size no vector can have\<close>
  | Undefined_behaviour   \<comment> \<open>a read or a dereference outside of the object\<close>

section \<open>The memory of a payload\<close>

record vec =
  vbase :: nat
  vcap :: nat
  vmem :: bytes

definition vec_ok :: "nat \<Rightarrow> vec \<Rightarrow> bool" where
  "vec_ok next v \<longleftrightarrow> length (vmem v) \<le> vcap v \<and> vbase v + vcap v \<le> next
     \<and> (vbase v = 0 \<longleftrightarrow> vcap v = 0) \<and> 0 < next"

definition vec_block :: "nat \<Rightarrow> nat \<Rightarrow> vec \<Rightarrow> vec \<times> nat" where
  "vec_block next n v =
     (if n = 0 then (v\<lparr>vbase := 0, vcap := 0\<rparr>, next)
      else (v\<lparr>vbase := next, vcap := n\<rparr>, next + n))"

definition vec_of :: "nat \<Rightarrow> bytes \<Rightarrow> vec \<times> nat" where
  "vec_of next m = vec_block next (length m) \<lparr>vbase = 0, vcap = 0, vmem = m\<rparr>"

definition vec_reserve :: "nat \<Rightarrow> nat \<Rightarrow> vec \<Rightarrow> vec \<times> nat" where
  "vec_reserve next n v = (if n \<le> vcap v then (v, next) else vec_block next n v)"

definition vec_shrink :: "nat \<Rightarrow> vec \<Rightarrow> vec \<times> nat" where
  "vec_shrink next v =
     (if length (vmem v) = vcap v then (v, next) else vec_block next (length (vmem v)) v)"

text \<open>Put new content in the block, or in a larger one: the standard library grows to the
  old size plus the larger of the old size and the number of new bytes.\<close>

definition vec_store :: "nat \<Rightarrow> bytes \<Rightarrow> vec \<Rightarrow> vec \<times> nat" where
  "vec_store next m v =
     (if length m \<le> vcap v then (v\<lparr>vmem := m\<rparr>, next)
      else vec_block next (length (vmem v) + max (length (vmem v)) (length m - length (vmem v)))
             (v\<lparr>vmem := m\<rparr>))"

definition vec_append :: "nat \<Rightarrow> bytes \<Rightarrow> vec \<Rightarrow> vec \<times> nat" where
  "vec_append next bs v = vec_store next (vmem v @ bs) v"

definition vec_erase :: "nat \<Rightarrow> nat \<Rightarrow> vec \<Rightarrow> vec" where
  "vec_erase i j v = v\<lparr>vmem := take i (vmem v) @ drop j (vmem v)\<rparr>"

definition vec_insert :: "nat \<Rightarrow> nat \<Rightarrow> bytes \<Rightarrow> vec \<Rightarrow> vec \<times> nat" where
  "vec_insert next i bs v = vec_store next (take i (vmem v) @ bs @ drop i (vmem v)) v"

definition vec_resize :: "nat \<Rightarrow> nat \<Rightarrow> vec \<Rightarrow> vec \<times> nat" where
  "vec_resize next n v =
     vec_store next (take n (vmem v) @ replicate (n - length (vmem v)) 0) v"

text \<open>Copy assignment keeps the block when the content fits.\<close>

definition vec_assign :: "nat \<Rightarrow> bytes \<Rightarrow> vec \<Rightarrow> vec \<times> nat" where
  "vec_assign next m v =
     (if length m \<le> vcap v then (v\<lparr>vmem := m\<rparr>, next) else vec_of next m)"

lemmas vec_ops = vec_block_def vec_of_def vec_reserve_def vec_shrink_def vec_store_def
  vec_append_def vec_erase_def vec_insert_def vec_resize_def vec_assign_def

lemma vmem_vec_block [simp]: "vmem (fst (vec_block next n v)) = vmem v"
  by (simp add: vec_block_def)

lemma vmem_vec_store [simp]: "vmem (fst (vec_store next m v)) = m"
  by (simp add: vec_store_def)

lemma vmem_vec_append [simp]: "vmem (fst (vec_append next bs v)) = vmem v @ bs"
  by (simp add: vec_append_def)

lemma vmem_vec_reserve [simp]: "vmem (fst (vec_reserve next n v)) = vmem v"
  by (simp add: vec_reserve_def)

lemma vmem_vec_shrink [simp]: "vmem (fst (vec_shrink next v)) = vmem v"
  by (simp add: vec_shrink_def)

lemma vmem_vec_of [simp]: "vmem (fst (vec_of next m)) = m"
  by (simp add: vec_of_def)

lemma vmem_vec_assign [simp]: "vmem (fst (vec_assign next m v)) = m"
  by (simp add: vec_assign_def)

lemma vmem_vec_insert [simp]:
  "vmem (fst (vec_insert next i bs v)) = take i (vmem v) @ bs @ drop i (vmem v)"
  by (simp add: vec_insert_def)

section \<open>Payloads and buffers\<close>

record buffer =
  btype :: string
  bvec :: vec

text \<open>\<open>buffer::type::combine\<close>: the type and the subtype, a slash between.\<close>

definition combine :: "string \<Rightarrow> string option \<Rightarrow> string" where
  "combine type subtype =
     (case subtype of
        None \<Rightarrow> type @ ''/''
      | Some s \<Rightarrow> if s = [] then type @ ''/'' else type @ ''/'' @ s)"

text \<open>\<open>buffer::type::dismantle\<close>: split at the first slash, which belongs to neither part.\<close>

definition dismantle :: "string \<Rightarrow> string \<times> string" where
  "dismantle type = (takeWhile (\<lambda>c. c \<noteq> CHR ''/'') type, tl (dropWhile (\<lambda>c. c \<noteq> CHR ''/'') type))"

text \<open>\<open>Payload( type, size)\<close>: zeroed memory, and a block even when the size is 0.\<close>

definition payload_vec :: "nat \<Rightarrow> nat \<Rightarrow> vec \<times> nat" where
  "payload_vec next sz =
     (let (v, next') = vec_of next (replicate sz 0)
      in if vbase v = 0 then vec_reserve next' 1 v else (v, next'))"

definition payload_null :: "buffer \<Rightarrow> bool" where
  "payload_null b \<longleftrightarrow> btype b = ''NULL''"

text \<open>\<open>Buffer::transport\<close> of the plain buffer: the user's size, if the memory has it.\<close>

definition plain_transport :: "int \<Rightarrow> 'a buffer_scheme \<Rightarrow> exn + int" where
  "plain_transport user_size b =
     (if user_size > int (length (vmem (bvec b))) then Inl Xatmi_argument else Inr user_size)"

lemma dismantle_combine:
  "CHR ''/'' \<notin> set type \<Longrightarrow>
     dismantle (combine type subtype) = (type, case subtype of None \<Rightarrow> [] | Some s \<Rightarrow> s)"
  by (auto simp: dismantle_def combine_def takeWhile_append dropWhile_append split: option.splits)

section \<open>The pool\<close>

record 'b pool =
  pbufs :: "'b list"
  pnext :: nat

definition handle_of :: "'a buffer_scheme \<Rightarrow> nat" where
  "handle_of b = vbase (bvec b)"

definition pool_find :: "nat \<Rightarrow> 'a buffer_scheme pool \<Rightarrow> 'a buffer_scheme option" where
  "pool_find h p = List.find (\<lambda>b. handle_of b = h) (pbufs p)"

definition pool_manage :: "nat \<Rightarrow> 'a buffer_scheme pool \<Rightarrow> bool" where
  "pool_manage h p \<longleftrightarrow> pool_find h p \<noteq> None"

definition pool_get :: "nat \<Rightarrow> 'a buffer_scheme pool \<Rightarrow> exn + 'a buffer_scheme" where
  "pool_get h p = (case pool_find h p of Some b \<Rightarrow> Inr b | None \<Rightarrow> Inl Xatmi_argument)"

definition pool_deallocate :: "nat \<Rightarrow> 'a buffer_scheme pool \<Rightarrow> 'a buffer_scheme pool" where
  "pool_deallocate h p = p\<lparr>pbufs := remove_first (\<lambda>b. handle_of b = h) (pbufs p)\<rparr>"

definition pool_release ::
    "nat \<Rightarrow> 'a buffer_scheme pool \<Rightarrow> (exn + 'a buffer_scheme) \<times> 'a buffer_scheme pool" where
  "pool_release h p =
     (case pool_find h p of
        Some b \<Rightarrow> (Inr b, pool_deallocate h p)
      | None \<Rightarrow> (Inl Xatmi_argument, p))"

text \<open>Append a buffer that was constructed elsewhere: \<open>m_pool.emplace_back\<close>.\<close>

definition pool_emplace ::
    "'a buffer_scheme \<Rightarrow> nat \<Rightarrow> 'a buffer_scheme pool \<Rightarrow> nat \<times> 'a buffer_scheme pool" where
  "pool_emplace b next p = (handle_of b, p\<lparr>pbufs := pbufs p @ [b], pnext := next\<rparr>)"

text \<open>\<open>basic_pool::insert\<close>: take the payload over, and make sure there is a block.\<close>

definition pool_insert ::
    "(buffer \<Rightarrow> 'a buffer_scheme) \<Rightarrow> string \<Rightarrow> bytes \<Rightarrow> 'a buffer_scheme pool
       \<Rightarrow> nat \<times> 'a buffer_scheme pool" where
  "pool_insert mk type m p =
     (let (v, next) = vec_of (pnext p) m;
          (v', next') = (if vbase v = 0 then vec_reserve next 1 v else (v, next))
      in pool_emplace (mk \<lparr>btype = type, bvec = v'\<rparr>) next' p)"

text \<open>Change the memory of the buffer that has the handle, where it stands in the pool.\<close>

definition pool_update ::
    "nat \<Rightarrow> 'a buffer_scheme \<Rightarrow> nat \<Rightarrow> 'a buffer_scheme pool \<Rightarrow> 'a buffer_scheme pool" where
  "pool_update h b next p =
     p\<lparr>pbufs := update_first (\<lambda>x. handle_of x = h) (\<lambda>_. b) (pbufs p), pnext := next\<rparr>"

text \<open>The plain pool's own \<open>allocate\<close> and \<open>reallocate\<close>.\<close>

definition plain_allocate :: "string \<Rightarrow> nat \<Rightarrow> buffer pool \<Rightarrow> nat \<times> buffer pool" where
  "plain_allocate type sz p =
     (let (v, next) = payload_vec (pnext p) sz
      in pool_emplace \<lparr>btype = type, bvec = v\<rparr> next p)"

definition plain_reallocate :: "nat \<Rightarrow> nat \<Rightarrow> buffer pool \<Rightarrow> nat \<times> buffer pool" where
  "plain_reallocate h sz p =
     (case pool_find h p of
        None \<Rightarrow> (0, p)
      | Some b \<Rightarrow>
          let (v, next) = vec_resize (pnext p) sz (bvec b);
              (v', next') = (if vbase v = 0 then vec_reserve next 1 v else (v, next));
              b' = b\<lparr>bvec := v'\<rparr>
          in (handle_of b', pool_update h b' next' p))"

section \<open>Well-formed pools\<close>

text \<open>Every live buffer has its own block below the counter, so handles are unique.\<close>

definition pool_ok :: "'a buffer_scheme pool \<Rightarrow> bool" where
  "pool_ok p \<longleftrightarrow> distinct (map handle_of (pbufs p))
     \<and> (\<forall>b\<in>set (pbufs p). vec_ok (pnext p) (bvec b) \<and> handle_of b \<noteq> 0)"

text \<open>A block taken from the counter is as good as new; one that is kept stays as it was.\<close>

definition vec_step :: "nat \<Rightarrow> vec \<Rightarrow> vec \<times> nat \<Rightarrow> bool" where
  "vec_step next v r \<longleftrightarrow> next \<le> snd r \<and> vec_ok (snd r) (fst r)
     \<and> (vbase (fst r) = vbase v \<or> vbase (fst r) = 0 \<or> next \<le> vbase (fst r))"

lemma vec_ok_mono: "vec_ok n v \<Longrightarrow> n \<le> m \<Longrightarrow> vec_ok m v"
  by (auto simp: vec_ok_def)

lemma vec_step_store: "vec_ok next v \<Longrightarrow> vec_step next v (vec_store next m v)"
  by (auto simp: vec_step_def vec_ok_def vec_store_def vec_block_def)

lemma vec_step_reserve: "vec_ok next v \<Longrightarrow> vec_step next v (vec_reserve next n v)"
  by (auto simp: vec_step_def vec_ok_def vec_reserve_def vec_block_def)

lemma vec_step_shrink: "vec_ok next v \<Longrightarrow> vec_step next v (vec_shrink next v)"
  by (auto simp: vec_step_def vec_ok_def vec_shrink_def vec_block_def)

lemma vec_step_assign: "vec_ok next v \<Longrightarrow> vec_step next v (vec_assign next m v)"
  by (auto simp: vec_step_def vec_ok_def vec_assign_def vec_of_def vec_block_def)

lemma vec_step_of: "0 < next \<Longrightarrow> vec_step next v (vec_of next m)"
  by (auto simp: vec_step_def vec_ok_def vec_of_def vec_block_def)

lemma vec_step_erase: "vec_ok next v \<Longrightarrow> i \<le> j \<Longrightarrow> vec_ok next (vec_erase i j v)"
  by (auto simp: vec_ok_def vec_erase_def)

lemma vec_store_nonnull:
  "vec_ok next v \<Longrightarrow> vbase v \<noteq> 0 \<Longrightarrow> vbase (fst (vec_store next m v)) \<noteq> 0"
  by (auto simp: vec_ok_def vec_store_def vec_block_def)

lemma pool_find_Some: "pool_find h p = Some b \<Longrightarrow> b \<in> set (pbufs p) \<and> handle_of b = h"
  unfolding pool_find_def by (rule find_Some_in)

lemma pool_find_unique:
  "distinct (map handle_of bs) \<Longrightarrow> b \<in> set bs \<Longrightarrow>
     List.find (\<lambda>x. handle_of x = handle_of b) bs = Some b"
  by (induction bs) auto

lemma find_handle_None:
  "h \<notin> handle_of ` set bs \<Longrightarrow> List.find (\<lambda>x. handle_of x = h) bs = None"
  by (induction bs) auto

lemma find_snoc:
  "List.find P (xs @ [x]) =
     (case List.find P xs of Some y \<Rightarrow> Some y | None \<Rightarrow> if P x then Some x else None)"
  by (induction xs) auto

lemma pool_find_update_first:
  "distinct (map handle_of bs) \<Longrightarrow> List.find (\<lambda>x. handle_of x = h) bs = Some b \<Longrightarrow>
   handle_of b' = h \<or> handle_of b' \<notin> handle_of ` set bs \<Longrightarrow>
     List.find (\<lambda>x. handle_of x = g) (update_first (\<lambda>x. handle_of x = h) (\<lambda>_. b') bs) =
     (if g = handle_of b' then Some b'
      else if g = h then None else List.find (\<lambda>x. handle_of x = g) bs)"
proof (induction bs)
  case (Cons x bs)
  show ?case
  proof (cases "handle_of x = h")
    case True
    with Cons.prems(1) have "List.find (\<lambda>x. handle_of x = h) bs = None"
      by (intro find_handle_None) simp
    with True show ?thesis by simp
  next
    case False
    with Cons.prems have "handle_of b' \<noteq> handle_of x" by auto
    with False Cons show ?thesis by (cases "g = handle_of x") auto
  qed
qed simp

lemma distinct_update_first:
  "distinct (map handle_of bs) \<Longrightarrow> handle_of b' = h \<or> handle_of b' \<notin> handle_of ` set bs \<Longrightarrow>
     distinct (map handle_of (update_first (\<lambda>x. handle_of x = h) (\<lambda>_. b') bs))"
  by (induction bs) (auto dest!: set_update_first simp: image_iff)

text \<open>Storing a buffer back after its memory took a step keeps the pool well formed, moves
  only that buffer's handle and leaves every other buffer alone.\<close>

lemma pool_update_step:
  assumes ok: "pool_ok p" and found: "pool_find h p = Some b"
    and step: "vec_step (pnext p) (bvec b) (bvec b', next')" and nz: "vbase (bvec b') \<noteq> 0"
  shows "pool_ok (pool_update h b' next' p)"
    and "pool_find g (pool_update h b' next' p) =
           (if g = handle_of b' then Some b' else if g = h then None else pool_find g p)"
    and "handle_of b' = h \<or> \<not> pool_manage (handle_of b') p"
proof -
  from found have b: "b \<in> set (pbufs p)" "handle_of b = h" using pool_find_Some by blast+
  have fresh: "handle_of b' = h \<or> handle_of b' \<notin> handle_of ` set (pbufs p)"
  proof (cases "handle_of b' = h")
    case False
    then have "pnext p \<le> handle_of b'"
      using step b(2) nz by (auto simp: vec_step_def handle_of_def)
    moreover have "handle_of x < pnext p" if "x \<in> set (pbufs p)" for x
      using ok that by (fastforce simp: pool_ok_def vec_ok_def handle_of_def)
    ultimately show ?thesis by (auto simp: image_iff dest: leD)
  qed simp
  show "pool_find g (pool_update h b' next' p) =
          (if g = handle_of b' then Some b' else if g = h then None else pool_find g p)"
    using ok found fresh
    by (simp add: pool_find_def pool_update_def pool_ok_def pool_find_update_first)
  show "handle_of b' = h \<or> \<not> pool_manage (handle_of b') p"
    using fresh by (simp add: pool_manage_def pool_find_def) (metis find_handle_None)
  have mono: "pnext p \<le> next'" and b': "vec_ok next' (bvec b')"
    using step by (auto simp: vec_step_def)
  show "pool_ok (pool_update h b' next' p)"
    unfolding pool_ok_def
  proof (intro conjI ballI)
    show "distinct (map handle_of (pbufs (pool_update h b' next' p)))"
      using ok fresh by (simp add: pool_update_def pool_ok_def distinct_update_first)
    fix x assume "x \<in> set (pbufs (pool_update h b' next' p))"
    then have "x \<in> set (pbufs p) \<or> x = b'"
      by (auto simp: pool_update_def dest: set_update_first)
    then show "vec_ok (pnext (pool_update h b' next' p)) (bvec x)" and "handle_of x \<noteq> 0"
      using ok mono b' nz
      by (auto simp: pool_ok_def pool_update_def handle_of_def intro: vec_ok_mono)
  qed
qed

lemma pool_emplace_ok:
  assumes ok: "pool_ok p" and new: "pnext p \<le> handle_of b" and v: "vec_ok next' (bvec b)"
    and mono: "pnext p \<le> next'" and pos: "0 < pnext p"
  shows "pool_ok (snd (pool_emplace b next' p))"
    and "pool_find g (snd (pool_emplace b next' p)) =
           (if g = handle_of b then Some b else pool_find g p)"
proof -
  have lt: "handle_of x < pnext p" if "x \<in> set (pbufs p)" for x
    using ok that by (fastforce simp: pool_ok_def vec_ok_def handle_of_def)
  have notin: "handle_of b \<notin> handle_of ` set (pbufs p)"
    using lt new by (auto simp: image_iff dest: leD)
  show "pool_ok (snd (pool_emplace b next' p))"
    using ok new v mono pos notin by (auto simp: pool_ok_def pool_emplace_def intro: vec_ok_mono)
  show "pool_find g (snd (pool_emplace b next' p)) =
          (if g = handle_of b then Some b else pool_find g p)"
    using find_handle_None [OF notin]
    by (auto simp: pool_find_def pool_emplace_def find_snoc split: option.splits)
qed

lemma pool_deallocate_ok: "pool_ok p \<Longrightarrow> pool_ok (pool_deallocate h p)"
  by (auto simp: pool_ok_def pool_deallocate_def distinct_remove_first dest: set_remove_first [THEN subsetD])

lemma pool_deallocate_find:
  assumes "pool_ok p"
  shows "pool_find g (pool_deallocate h p) = (if g = h then None else pool_find g p)"
proof -
  have "distinct (map handle_of bs) \<Longrightarrow>
      List.find (\<lambda>x. handle_of x = g) (remove_first (\<lambda>x. handle_of x = h) bs) =
      (if g = h then None else List.find (\<lambda>x. handle_of x = g) bs)" for bs :: "'a buffer_scheme list"
  proof (induction bs)
    case (Cons b bs)
    then show ?case
      using find_handle_None [of "handle_of b" bs] by auto
  qed simp
  with assms show ?thesis by (simp add: pool_find_def pool_deallocate_def pool_ok_def)
qed

text \<open>The handle may move, but only to an address nobody holds; all other buffers stay.\<close>

definition only_moves :: "'a buffer_scheme pool \<Rightarrow> nat \<Rightarrow> 'a buffer_scheme pool \<Rightarrow> nat \<Rightarrow> bool" where
  "only_moves p h p' h' \<longleftrightarrow>
     (h' \<noteq> h \<longrightarrow> pool_find h' p = None \<and> pool_find h p' = None)
     \<and> (\<forall>g. g \<noteq> h \<and> g \<noteq> h' \<longrightarrow> pool_find g p' = pool_find g p)"

lemma only_moves_refl [simp]: "only_moves p h p h"
  by (simp add: only_moves_def)

lemma only_moves_trans:
  "only_moves p h p1 h1 \<Longrightarrow> only_moves p1 h1 p2 h2 \<Longrightarrow> only_moves p h p2 h2"
  unfolding only_moves_def by metis

lemma pool_ok_found: "pool_ok p \<Longrightarrow> pool_find h p = Some b \<Longrightarrow>
    vec_ok (pnext p) (bvec b) \<and> vbase (bvec b) = h \<and> h \<noteq> 0"
  using pool_find_Some [of h p b] by (auto simp: pool_ok_def handle_of_def)

lemma vec_step_trans:
  "vec_step n v (v1, n1) \<Longrightarrow> vec_step n1 v1 (v2, n2) \<Longrightarrow> vec_step n v (v2, n2)"
  by (auto simp: vec_step_def)

lemma vec_step_content: "vec_ok n v \<Longrightarrow> length m \<le> vcap v \<Longrightarrow> vec_step n v (v\<lparr>vmem := m\<rparr>, n)"
  by (auto simp: vec_step_def vec_ok_def)

lemma vec_step_append:
  assumes "vec_ok n v" and "vbase v \<noteq> 0" and "vec_append n x v = (v', n')"
  shows "vec_step n v (v', n') \<and> vbase v' \<noteq> 0 \<and> vec_ok n' v'"
proof -
  have s: "vec_store n (vmem v @ x) v = (v', n')" using assms(3) by (simp add: vec_append_def)
  show ?thesis
    using vec_step_store [OF assms(1), of "vmem v @ x"] vec_store_nonnull [OF assms(1,2), of "vmem v @ x"]
    unfolding s by (simp add: vec_step_def)
qed

lemma vec_store_step:
  assumes "vec_ok n v" and "vbase v \<noteq> 0" and "vec_store n m v = (v', n')"
  shows "vec_step n v (v', n') \<and> vbase v' \<noteq> 0 \<and> vec_ok n' v' \<and> vmem v' = m"
  using vec_step_store [OF assms(1), of m] vec_store_nonnull [OF assms(1,2), of m]
    vmem_vec_store [of n m v] unfolding assms(3) by (simp add: vec_step_def)

lemma vec_shrink_step:
  assumes "vec_ok n v" and "vmem v \<noteq> []" and "vbase v \<noteq> 0" and "vec_shrink n v = (v', n')"
  shows "vec_step n v (v', n') \<and> vbase v' \<noteq> 0 \<and> vec_ok n' v' \<and> vmem v' = vmem v"
  using vec_step_shrink [OF assms(1)] vmem_vec_shrink [of n v] assms
  by (auto simp: vec_step_def vec_shrink_def vec_block_def vec_ok_def split: if_splits)

lemma vec_reserve_step:
  assumes "vec_ok n v" and "vbase v \<noteq> 0" and "vec_reserve n k v = (v', n')"
  shows "vec_step n v (v', n') \<and> vbase v' \<noteq> 0 \<and> vec_ok n' v' \<and> vmem v' = vmem v"
  using vec_step_reserve [OF assms(1), of k] vmem_vec_reserve [of n k v] assms
  by (auto simp: vec_step_def vec_reserve_def vec_block_def vec_ok_def split: if_splits)

lemma length_resized: "length (take n m @ replicate (n - length m) x) = n"
  by (simp add: min_def)

text \<open>One step of a buffer's memory is one step of the pool.\<close>

lemma pool_step:
  assumes "pool_ok p" and "pool_find h p = Some b"
    and "vec_step (pnext p) (bvec b) (bvec b', next')" and "vbase (bvec b') \<noteq> 0"
  shows "pool_ok (pool_update h b' next' p)
    \<and> pool_find (handle_of b') (pool_update h b' next' p) = Some b'
    \<and> only_moves p h (pool_update h b' next' p) (handle_of b')"
  using pool_update_step [OF assms] by (auto simp: only_moves_def pool_manage_def)

text \<open>A new buffer in a block of its own.\<close>

lemma pool_fresh:
  assumes ok: "pool_ok p" and new: "pnext p \<le> h" and pos: "0 < pnext p"
  shows "pool_find h p = None"
proof (rule ccontr)
  assume "pool_find h p \<noteq> None"
  then obtain x where x: "pool_find h p = Some x" by blast
  then have "vbase (bvec x) < pnext p" "vbase (bvec x) = h"
    using pool_ok_found [OF ok x] pos by (auto simp: vec_ok_def)
  with new show False by simp
qed


end
