(* ===== verification/FieldBuffer.thy ===== *)
theory FieldBuffer
  imports BufferPool
begin

text \<open>
  \<open>buffer/source/field.cpp\<close>, the buffer itself: a fielded buffer is one block of memory
  that holds the fields one after the other (id, size, data, all in network byte order)
  and an index from each id to the offsets of its occurrences. The operations change the
  two side by side. The specification is a list of (id, data) pairs; the refinement lemmas
  say that each operation does to memory and index what the corresponding list operation
  does to the list.
\<close>

section \<open>State\<close>

record field_buffer = buffer +
  findex :: "(int, int list) omap"

text \<open>Where the parts of a field start, relative to the field.\<close>

definition item_offset :: int where [simp]: "item_offset = 0"
definition size_offset :: int where [simp]: "size_offset = 8"
definition data_offset :: int where [simp]: "data_offset = 16"

text \<open>\<open>decode< long>( where)\<close> at a position of the memory.\<close>

definition decode_at :: "bytes \<Rightarrow> int \<Rightarrow> int" where
  "decode_at mem pos = get_long (drop (nat pos) mem)"

text \<open>\<open>index[ id].push_back( offset)\<close>: \<open>operator[]\<close> starts a missing id with no offsets.\<close>

definition index_push :: "int \<Rightarrow> int \<Rightarrow> (int, int list) omap \<Rightarrow> (int, int list) omap" where
  "index_push k pos idx =
     omap_put k ((case map_of idx k of None \<Rightarrow> [] | Some os \<Rightarrow> os) @ [pos]) idx"

section \<open>Operations\<close>

text \<open>
  The constructor's loop over received memory. The size of a field is whatever the sender
  wrote, so the cursor need not move forwards, and nothing bounds the loop: the value
  \<open>None\<close> is a loop that never returns. The cursor is an integer without bound; in the code the
  addition overflows for a size near 2^63.
\<close>

partial_function (option) index_loop ::
    "bytes \<Rightarrow> int \<Rightarrow> (int, int list) omap \<Rightarrow> (exn + (int, int list) omap) option" where
  "index_loop mem cursor idx =
     (if cursor < int (length mem) then
        (if cursor < 0 \<or> int (length mem) < cursor + data_offset then Some (Inl Undefined_behaviour)
         else index_loop mem (cursor + (data_offset + decode_at mem (cursor + size_offset)))
                (index_push (decode_at mem (cursor + item_offset)) cursor idx))
      else if int (length mem) < cursor then Some (Inl Xatmi_argument)
      else Some (Inr idx))"

definition field_index :: "bytes \<Rightarrow> (exn + (int, int list) omap) option" where
  "field_index mem = index_loop mem 0 []"

text \<open>\<open>add::append\<close>: id, size and data at the end of the memory, then the offset in the
  index. The allocator does not fail in the model, so there is nothing to roll back.\<close>

definition field_append :: "nat \<Rightarrow> int \<Rightarrow> bytes \<Rightarrow> field_buffer \<Rightarrow> field_buffer \<times> nat" where
  "field_append next key data b =
     (let used = int (length (vmem (bvec b)));
          (v1, next1) = vec_append next (put_long key) (bvec b);
          (v2, next2) = vec_append next1 (put_long (int (length data))) v1;
          (v3, next3) = vec_append next2 data v2
      in (b\<lparr>bvec := v3, findex := index_push key used (findex b)\<rparr>, next3))"

text \<open>\<open>get::offset\<close>: \<open>index.at( id).at( occurrence)\<close>; a negative occurrence is a huge
  unsigned one.\<close>

definition field_offset :: "(int, int list) omap \<Rightarrow> int \<Rightarrow> int \<Rightarrow> exn + int" where
  "field_offset idx key occurrence =
     (case map_of idx key of
        None \<Rightarrow> Inl Std_out_of_range
      | Some os \<Rightarrow>
          if 0 \<le> occurrence \<and> occurrence < int (length os) then Inr (os ! nat occurrence)
          else Inl Std_out_of_range)"

text \<open>The three \<open>get::select\<close>: pointer and size, pointer alone, or a decoded value. The
  pointer is an offset into the memory.\<close>

definition field_select_data :: "field_buffer \<Rightarrow> int \<Rightarrow> int \<Rightarrow> exn + int \<times> int" where
  "field_select_data b key occurrence =
     (case field_offset (findex b) key occurrence of
        Inl e \<Rightarrow> Inl e
      | Inr off \<Rightarrow> Inr (off + data_offset, decode_at (vmem (bvec b)) (off + size_offset)))"

definition field_select_pointer :: "field_buffer \<Rightarrow> int \<Rightarrow> int \<Rightarrow> exn + int" where
  "field_select_pointer b key occurrence =
     (case field_offset (findex b) key occurrence of
        Inl e \<Rightarrow> Inl e
      | Inr off \<Rightarrow> Inr (off + data_offset))"

definition field_select_value :: "(bytes \<Rightarrow> 'v) \<Rightarrow> field_buffer \<Rightarrow> int \<Rightarrow> int \<Rightarrow> exn + 'v" where
  "field_select_value get b key occurrence =
     (case field_offset (findex b) key occurrence of
        Inl e \<Rightarrow> Inl e
      | Inr off \<Rightarrow> Inr (get (drop (nat (off + data_offset)) (vmem (bvec b)))))"

text \<open>Offsets beyond a position move; the index is walked as a whole.\<close>

definition shift_index :: "int \<Rightarrow> int \<Rightarrow> (int, int list) omap \<Rightarrow> (int, int list) omap" where
  "shift_index off d idx = omap_map (map (\<lambda>o'. if off < o' then o' + d else o')) idx"

text \<open>\<open>cut::remove\<close>.\<close>

definition field_remove :: "int \<Rightarrow> int \<Rightarrow> field_buffer \<Rightarrow> exn + field_buffer" where
  "field_remove key occurrence b =
     (case map_of (findex b) key of
        None \<Rightarrow> Inl Std_out_of_range
      | Some os \<Rightarrow>
          if \<not> (0 \<le> occurrence \<and> occurrence < int (length os)) then Inl Std_out_of_range
          else
            let off = os ! nat occurrence;
                sz = decode_at (vmem (bvec b)) (off + size_offset);
                os' = erase_at (nat occurrence) os;
                idx = (if os' = [] then omap_erase key (findex b) else omap_put key os' (findex b))
            in if sz < 0 \<or> int (length (vmem (bvec b))) < off + data_offset + sz
               then Inl Undefined_behaviour
               else Inr (b\<lparr>bvec := vec_erase (nat off) (nat (off + data_offset + sz)) (bvec b),
                           findex := shift_index off (0 - data_offset - sz) idx\<rparr>))"

text \<open>\<open>set::update\<close>: replace the data, then the size, then move the offsets behind.\<close>

definition overwrite :: "nat \<Rightarrow> bytes \<Rightarrow> bytes \<Rightarrow> bytes" where
  "overwrite pos bs mem = take pos mem @ bs @ drop (pos + length bs) mem"

definition field_update ::
    "nat \<Rightarrow> int \<Rightarrow> int \<Rightarrow> bytes \<Rightarrow> field_buffer \<Rightarrow> exn + field_buffer \<times> nat" where
  "field_update next key occurrence data b =
     (case field_offset (findex b) key occurrence of
        Inl e \<Rightarrow> Inl e
      | Inr off \<Rightarrow>
          let current = decode_at (vmem (bvec b)) (off + size_offset);
              start = off + data_offset
          in if current < 0 \<or> int (length (vmem (bvec b))) < start + current
             then Inl Undefined_behaviour
             else
               let v1 = vec_erase (nat start) (nat (start + current)) (bvec b);
                   (v2, next') = vec_insert next (nat start) data v1;
                   v3 = v2\<lparr>vmem := overwrite (nat (off + size_offset))
                                  (put_long (int (length data))) (vmem v2)\<rparr>
               in Inr (b\<lparr>bvec := v3,
                         findex := shift_index off (int (length data) - current) (findex b)\<rparr>,
                       next'))"

definition field_clear :: "field_buffer \<Rightarrow> field_buffer" where
  "field_clear b = b\<lparr>bvec := (bvec b)\<lparr>vmem := []\<rparr>, findex := []\<rparr>"

text \<open>\<open>explore::count\<close>: the occurrences of an id, and of all ids.\<close>

definition field_count :: "int \<Rightarrow> field_buffer \<Rightarrow> int" where
  "field_count key b = (case map_of (findex b) key of None \<Rightarrow> 0 | Some os \<Rightarrow> int (length os))"

definition field_count_all :: "field_buffer \<Rightarrow> int" where
  "field_count_all b = fold (\<lambda>(_, os) n. n + int (length os)) (findex b) 0"

section \<open>Specification: a list of fields\<close>

type_synonym fields = "(int \<times> bytes) list"

fun flatten :: "fields \<Rightarrow> bytes" where
  "flatten [] = []"
| "flatten ((k, d) # fs) = put_long k @ put_long (int (length d)) @ d @ flatten fs"

fun occ_from :: "int \<Rightarrow> int \<Rightarrow> fields \<Rightarrow> int list" where
  "occ_from pos k [] = []"
| "occ_from pos k ((i, d) # fs) =
     (if i = k then [pos] else []) @ occ_from (pos + 16 + int (length d)) k fs"

definition occs :: "int \<Rightarrow> fields \<Rightarrow> bytes list" where
  "occs k fs = map snd (filter (\<lambda>(i, _). i = k) fs)"

fun remove_nth :: "int \<Rightarrow> nat \<Rightarrow> fields \<Rightarrow> fields" where
  "remove_nth k n [] = []"
| "remove_nth k n ((i, d) # fs) =
     (if i = k then (case n of 0 \<Rightarrow> fs | Suc m \<Rightarrow> (i, d) # remove_nth k m fs)
      else (i, d) # remove_nth k n fs)"

fun update_nth :: "int \<Rightarrow> nat \<Rightarrow> bytes \<Rightarrow> fields \<Rightarrow> fields" where
  "update_nth k n e [] = []"
| "update_nth k n e ((i, d) # fs) =
     (if i = k then (case n of 0 \<Rightarrow> (i, e) # fs | Suc m \<Rightarrow> (i, d) # update_nth k m e fs)
      else (i, d) # update_nth k n e fs)"

text \<open>Ids and sizes are C \<open>long\<close>s.\<close>

definition fields_fit :: "fields \<Rightarrow> bool" where
  "fields_fit fs \<longleftrightarrow> (\<forall>(k, d)\<in>set fs. is_long k \<and> is_long (int (length d)))"

definition index_matches :: "(int, int list) omap \<Rightarrow> fields \<Rightarrow> bool" where
  "index_matches idx fs \<longleftrightarrow> omap_ok idx \<and>
     (\<forall>k. map_of idx k = (if occ_from 0 k fs = [] then None else Some (occ_from 0 k fs)))"

definition field_rel :: "field_buffer \<Rightarrow> fields \<Rightarrow> bool" where
  "field_rel b fs \<longleftrightarrow>
     vmem (bvec b) = flatten fs \<and> fields_fit fs \<and> index_matches (findex b) fs"

definition field_ok :: "field_buffer \<Rightarrow> bool" where
  "field_ok b \<longleftrightarrow> (\<exists>fs. field_rel b fs)"

section \<open>The specification's own laws\<close>

abbreviation flen :: "fields \<Rightarrow> int" where
  "flen fs \<equiv> int (length (flatten fs))"

lemma flatten_append [simp]: "flatten (fs @ gs) = flatten fs @ flatten gs"
  by (induction fs rule: flatten.induct) auto

lemma occ_from_append [simp]:
  "occ_from pos k (fs @ gs) = occ_from pos k fs @ occ_from (pos + flen fs) k gs"
  by (induction pos k fs rule: occ_from.induct) (auto simp: algebra_simps)

lemma occ_from_shift: "occ_from (pos + d) k fs = map (\<lambda>x. x + d) (occ_from pos k fs)"
proof (induction pos k fs rule: occ_from.induct)
  case (2 pos k i d' fs)
  then show ?case by (simp add: add.assoc add.commute add.left_commute)
qed simp

lemma occ_from_bounds: "x \<in> set (occ_from pos k fs) \<Longrightarrow> pos \<le> x \<and> x + 16 \<le> pos + flen fs"
  by (induction pos k fs rule: occ_from.induct) (force split: if_splits)+

lemma length_occ_from [simp]: "length (occ_from pos k fs) = length (occs k fs)"
  by (induction pos k fs rule: occ_from.induct) (auto simp: occs_def)

lemma occ_from_Nil_iff: "occ_from pos k fs = [] \<longleftrightarrow> occs k fs = []"
  by (metis length_0_conv length_occ_from)

lemma occs_append [simp]: "occs k (fs @ gs) = occs k fs @ occs k gs"
  by (simp add: occs_def)

lemma occs_Cons [simp]: "occs k ((i, d) # fs) = (if i = k then [d] else []) @ occs k fs"
  by (simp add: occs_def)

lemma occs_Nil [simp]: "occs k [] = []"
  by (simp add: occs_def)

lemma fields_fit_append [simp]: "fields_fit (fs @ gs) \<longleftrightarrow> fields_fit fs \<and> fields_fit gs"
  by (auto simp: fields_fit_def)

lemma fields_fit_Cons [simp]:
  "fields_fit ((k, d) # fs) \<longleftrightarrow> is_long k \<and> is_long (int (length d)) \<and> fields_fit fs"
  by (auto simp: fields_fit_def)

lemma fields_fit_Nil [simp]: "fields_fit []"
  by (simp add: fields_fit_def)

text \<open>Every occurrence splits the list: what is before, the field, what is behind.\<close>

lemma occ_split:
  "n < length (occs k fs) \<Longrightarrow>
     \<exists>pre d post. fs = pre @ (k, d) # post \<and> length (occs k pre) = n
       \<and> remove_nth k n fs = pre @ post \<and> (\<forall>e. update_nth k n e fs = pre @ (k, e) # post)"
proof (induction fs arbitrary: n)
  case (Cons f fs)
  obtain i d where f: "f = (i, d)" by force
  show ?case
  proof (cases "i = k \<and> n = 0")
    case True
    with f have "f # fs = [] @ (k, d) # fs \<and> length (occs k []) = n
       \<and> remove_nth k n (f # fs) = [] @ fs \<and> (\<forall>e. update_nth k n e (f # fs) = [] @ (k, e) # fs)"
      by simp
    then show ?thesis by blast
  next
    case False
    define m where "m = (if i = k then n - 1 else n)"
    have "m < length (occs k fs)" using Cons.prems False f by (auto simp: m_def split: if_splits)
    then obtain pre e post where IH: "fs = pre @ (k, e) # post" "length (occs k pre) = m"
      "remove_nth k m fs = pre @ post" "\<forall>e. update_nth k m e fs = pre @ (k, e) # post"
      using Cons.IH by blast
    then have "f # fs = (f # pre) @ (k, e) # post \<and> length (occs k (f # pre)) = n
       \<and> remove_nth k n (f # fs) = (f # pre) @ post
       \<and> (\<forall>e. update_nth k n e (f # fs) = (f # pre) @ (k, e) # post)"
      using False f by (cases n) (auto simp: m_def)
    then show ?thesis by blast
  qed
qed simp

lemma nth_occ_from_split:
  "length (occs k pre) = n \<Longrightarrow> occ_from 0 k (pre @ (k, d) # post) ! n = flen pre"
  by (simp add: nth_append)

lemma nth_occs_split: "length (occs k pre) = n \<Longrightarrow> occs k (pre @ (k, d) # post) ! n = d"
  by (simp add: nth_append)

text \<open>Fields before a position keep their offset, fields behind it move by the change.\<close>

lemma shift_before: "map (\<lambda>o'. if flen fs < o' then o' + d else o') (occ_from 0 k fs) = occ_from 0 k fs"
  by (rule map_idI) (use occ_from_bounds [of _ 0 k fs] in force)

lemma shift_behind:
  "pos < q \<Longrightarrow> map (\<lambda>o'. if pos < o' then o' + d else o') (occ_from q k fs) = occ_from (q + d) k fs"
  unfolding occ_from_shift by (rule map_cong [OF refl]) (use occ_from_bounds [of _ q k fs] in force)

section \<open>Refinement\<close>

text \<open>A field in memory: what stands at the offsets of its parts.\<close>

lemma decode_at_put:
  "is_long v \<Longrightarrow> nat pos = length xs \<Longrightarrow> decode_at (xs @ put_long v @ ys) pos = v"
  by (simp add: decode_at_def t_long.get_put)

lemma decode_item: "is_long k \<Longrightarrow> decode_at (flatten pre @ put_long k @ ys) (flen pre) = k"
  by (rule decode_at_put) simp_all

lemma decode_size:
  "is_long v \<Longrightarrow> decode_at (flatten pre @ put_long k @ put_long v @ ys) (flen pre + 8) = v"
  using decode_at_put [of v "flen pre + 8" "flatten pre @ put_long k" ys]
  by (simp add: nat_add_distrib)

lemma nat_flen_add [simp]: "nat (flen fs + numeral n) = length (flatten fs) + numeral n"
  by (simp add: nat_add_distrib)

lemma nat_flen_add3 [simp]:
  "nat (flen fs + numeral n + int m) = length (flatten fs) + numeral n + m"
  by (simp add: nat_add_distrib)

lemma omap_ok_index_push: "omap_ok idx \<Longrightarrow> omap_ok (index_push k pos idx)"
  by (simp add: index_push_def)

lemma index_matches_push:
  assumes "index_matches idx fs"
  shows "index_matches (index_push k (flen fs) idx) (fs @ [(k, d)])"
  using assms by (auto simp: index_matches_def index_push_def omap.lookup_put)

lemma index_matches_Nil: "index_matches [] []"
  by (simp add: index_matches_def)

text \<open>The index of a memory is unique: it is the one the constructor would compute.\<close>

lemma index_matches_unique: "index_matches idx fs \<Longrightarrow> index_matches idx' fs \<Longrightarrow> idx = idx'"
  by (rule omap_ext) (auto simp: index_matches_def)

lemma field_append_rel:
  assumes "field_rel b fs" and "is_long k" and "is_long (int (length d))"
  shows "field_rel (fst (field_append next k d b)) (fs @ [(k, d)])"
  using assms index_matches_push [of "findex b" fs k d]
  by (simp add: field_rel_def field_append_def case_prod_unfold Let_def)

lemma index_loop_flatten:
  assumes "fields_fit fs" and "index_matches idx pre"
  shows "\<exists>idx'. index_loop (flatten (pre @ fs)) (flen pre) idx = Some (Inr idx')
           \<and> index_matches idx' (pre @ fs)"
  using assms
proof (induction fs arbitrary: pre idx)
  case Nil
  then show ?case by (simp add: index_loop.simps)
next
  case (Cons f fs)
  obtain k d where f: "f = (k, d)" by force
  let ?mem = "flatten (pre @ f # fs)"
  have item: "decode_at ?mem (flen pre) = k" and sz: "decode_at ?mem (flen pre + 8) = int (length d)"
    using Cons.prems(1) f decode_item decode_size by simp_all
  have "index_loop ?mem (flen pre) idx
      = index_loop ?mem (flen (pre @ [f])) (index_push k (flen pre) idx)"
    using item sz f by (subst index_loop.simps) (simp add: algebra_simps)
  moreover have "index_matches (index_push k (flen pre) idx) (pre @ [f])"
    using Cons.prems(2) f by (simp add: index_matches_push)
  ultimately show ?case
    using Cons.IH [of "index_push k (flen pre) idx" "pre @ [f]"] Cons.prems(1) f by simp
qed

lemma field_index_flatten:
  assumes "fields_fit fs" and "index_matches idx fs"
  shows "field_index (flatten fs) = Some (Inr idx)"
proof -
  obtain idx' where "index_loop (flatten ([] @ fs)) (flen []) [] = Some (Inr idx')"
    and m: "index_matches idx' ([] @ fs)"
    using index_loop_flatten [OF assms(1) index_matches_Nil] by blast
  moreover have "idx = idx'"
    using index_matches_unique [OF assms(2)] m by simp
  ultimately show ?thesis by (simp add: field_index_def)
qed

lemma index_matches_exists: "fields_fit fs \<Longrightarrow> \<exists>idx. index_matches idx fs"
  using index_loop_flatten [of fs "[]" "[]"] by (auto simp: index_matches_Nil)

lemma field_offset_rel:
  assumes "field_rel b fs"
  shows "field_offset (findex b) k n =
           (if 0 \<le> n \<and> n < int (length (occs k fs)) then Inr (occ_from 0 k fs ! nat n)
            else Inl Std_out_of_range)"
proof (cases "occs k fs = []")
  case True
  with assms show ?thesis
    by (simp add: field_offset_def field_rel_def index_matches_def occ_from_Nil_iff)
next
  case False
  with assms show ?thesis
    by (simp add: field_offset_def field_rel_def index_matches_def occ_from_Nil_iff)
qed

text \<open>What a valid occurrence looks like: the split of the list and the field in memory.\<close>

lemma occurrence_split:
  assumes rel: "field_rel b fs" and n: "0 \<le> n" "n < int (length (occs k fs))"
  obtains pre d post where
    "fs = pre @ (k, d) # post" "length (occs k pre) = nat n" "occs k fs ! nat n = d"
    "remove_nth k (nat n) fs = pre @ post" "\<And>e. update_nth k (nat n) e fs = pre @ (k, e) # post"
    "field_offset (findex b) k n = Inr (flen pre)"
    "vmem (bvec b) = flatten pre @ put_long k @ put_long (int (length d)) @ d @ flatten post"
    "decode_at (vmem (bvec b)) (flen pre + 8) = int (length d)"
    "is_long k" "is_long (int (length d))" "fields_fit pre" "fields_fit post"
proof -
  have "nat n < length (occs k fs)" using n by simp
  then obtain pre d post where sp: "fs = pre @ (k, d) # post" "length (occs k pre) = nat n"
    "remove_nth k (nat n) fs = pre @ post" "\<forall>e. update_nth k (nat n) e fs = pre @ (k, e) # post"
    using occ_split by blast
  have "field_offset (findex b) k n = Inr (flen pre)"
    using n nth_occ_from_split [OF sp(2)] sp(1) by (simp add: field_offset_rel [OF rel])
  moreover have "vmem (bvec b) = flatten pre @ put_long k @ put_long (int (length d)) @ d @ flatten post"
    and "is_long k" and "is_long (int (length d))" and "fields_fit pre" and "fields_fit post"
    using rel sp(1) by (simp_all add: field_rel_def)
  moreover have "occs k fs ! nat n = d" using nth_occs_split [OF sp(2)] sp(1) by simp
  ultimately show ?thesis using that sp decode_size by metis
qed

lemma field_select_rel:
  assumes "field_rel b fs" and "0 \<le> n" and "n < int (length (occs k fs))"
  shows "\<exists>pos. field_select_data b k n = Inr (pos, int (length (occs k fs ! nat n)))
           \<and> field_select_pointer b k n = Inr pos
           \<and> (\<forall>get. field_select_value get b k n = Inr (get (drop (nat pos) (vmem (bvec b)))))
           \<and> take (length (occs k fs ! nat n)) (drop (nat pos) (vmem (bvec b))) = occs k fs ! nat n
           \<and> 0 \<le> pos \<and> pos + int (length (occs k fs ! nat n)) \<le> int (length (vmem (bvec b)))"
proof -
  obtain pre d post where sp: "occs k fs ! nat n = d" "field_offset (findex b) k n = Inr (flen pre)"
    "vmem (bvec b) = flatten pre @ put_long k @ put_long (int (length d)) @ d @ flatten post"
    "decode_at (vmem (bvec b)) (flen pre + 8) = int (length d)"
    using occurrence_split [OF assms] by metis
  show ?thesis
    by (rule exI [of _ "flen pre + 16"])
      (use sp in \<open>simp add: field_select_data_def field_select_pointer_def field_select_value_def\<close>)
qed

lemma index_matches_cut:
  assumes "index_matches idx (pre @ (k, d) # post)"
  defines "os \<equiv> occ_from 0 k (pre @ (k, d) # post)"
    and "n \<equiv> length (occs k pre)"
  shows "index_matches (shift_index (flen pre) (- 16 - int (length d))
           (if erase_at n os = [] then omap_erase k idx else omap_put k (erase_at n os) idx))
           (pre @ post)"
proof -
  let ?sh = "map (\<lambda>o'. if flen pre < o' then o' + (- 16 - int (length d)) else o')"
  have ok: "omap_ok idx" using assms(1) by (simp add: index_matches_def)
  have er: "erase_at n os = occ_from 0 k pre @ occ_from (flen pre + 16 + int (length d)) k post"
    unfolding os_def n_def using erase_at_split [of "occ_from 0 k pre"] by simp
  have sh: "?sh (occ_from 0 i pre @ occ_from (flen pre + 16 + int (length d)) i post)
      = occ_from 0 i (pre @ post)" for i
    using shift_before [of pre] shift_behind [of "flen pre" "flen pre + 16 + int (length d)"
      "- 16 - int (length d)" i post] by simp
  have other: "map_of idx i = (let xs = occ_from 0 i pre @ occ_from (flen pre + 16 + int (length d)) i post
      in if xs = [] then None else Some xs)" if "i \<noteq> k" for i
    using assms(1) that by (auto simp: index_matches_def Let_def)
  show ?thesis
    unfolding index_matches_def
  proof (intro conjI allI)
    show "omap_ok (shift_index (flen pre) (- 16 - int (length d))
           (if erase_at n os = [] then omap_erase k idx else omap_put k (erase_at n os) idx))"
      using ok by (simp add: shift_index_def)
    fix i
    show "map_of (shift_index (flen pre) (- 16 - int (length d))
           (if erase_at n os = [] then omap_erase k idx else omap_put k (erase_at n os) idx)) i
        = (if occ_from 0 i (pre @ post) = [] then None else Some (occ_from 0 i (pre @ post)))"
      using ok er other [of i] unfolding sh [symmetric]
      by (auto simp: shift_index_def omap.lookup_put map_laws Let_def)
  qed
qed

lemma field_remove_rel:
  assumes rel: "field_rel b fs" and n: "0 \<le> n" "n < int (length (occs k fs))"
  shows "\<exists>b'. field_remove k n b = Inr b' \<and> field_rel b' (remove_nth k (nat n) fs)
           \<and> btype b' = btype b \<and> handle_of b' = handle_of b \<and> vcap (bvec b') = vcap (bvec b)"
proof -
  obtain pre d post where sp: "fs = pre @ (k, d) # post" "length (occs k pre) = nat n"
    "remove_nth k (nat n) fs = pre @ post" "field_offset (findex b) k n = Inr (flen pre)"
    "vmem (bvec b) = flatten pre @ put_long k @ put_long (int (length d)) @ d @ flatten post"
    "decode_at (vmem (bvec b)) (flen pre + 8) = int (length d)" "fields_fit pre" "fields_fit post"
    using occurrence_split [OF rel n] by metis
  have idx: "index_matches (findex b) (pre @ (k, d) # post)"
    using rel sp(1) by (simp add: field_rel_def)
  then have os: "map_of (findex b) k = Some (occ_from 0 k (pre @ (k, d) # post))"
    by (simp add: index_matches_def)
  have nth: "occ_from 0 k (pre @ (k, d) # post) ! nat n = flen pre"
    by (rule nth_occ_from_split [OF sp(2)])
  have len: "n < int (length (occ_from 0 k (pre @ (k, d) # post)))" using n sp(1) by simp
  show ?thesis
    using n os nth len sp(5-8) index_matches_cut [OF idx, unfolded sp(2)] sp(3) sp(6) [unfolded sp(5)]
    by (simp add: field_remove_def Let_def field_rel_def vec_erase_def handle_of_def
        del: occ_from_append split: if_splits)
qed

lemma index_matches_resize:
  assumes "index_matches idx (pre @ (k, d) # post)"
  shows "index_matches (shift_index (flen pre) (int (length e) - int (length d)) idx)
           (pre @ (k, e) # post)"
proof -
  let ?\<delta> = "int (length e) - int (length d)"
  let ?sh = "map (\<lambda>o'. if flen pre < o' then o' + ?\<delta> else o')"
  have sh: "?sh (occ_from 0 i (pre @ (k, d) # post)) = occ_from 0 i (pre @ (k, e) # post)" for i
    using shift_before [of pre ?\<delta> i] shift_behind [of "flen pre" "flen pre + 16 + int (length d)"
      ?\<delta> i post] by (simp add: algebra_simps)
  show ?thesis
    unfolding index_matches_def
  proof (intro conjI allI)
    show "omap_ok (shift_index (flen pre) ?\<delta> idx)"
      using assms by (simp add: shift_index_def index_matches_def)
    fix i
    show "map_of (shift_index (flen pre) ?\<delta> idx) i
        = (if occ_from 0 i (pre @ (k, e) # post) = [] then None
           else Some (occ_from 0 i (pre @ (k, e) # post)))"
      using assms unfolding sh [symmetric]
      by (simp add: shift_index_def index_matches_def map_laws del: occ_from_append)
  qed
qed

lemma overwrite_at:
  "length bs = length old \<Longrightarrow> pos = length xs \<Longrightarrow> overwrite pos bs (xs @ old @ ys) = xs @ bs @ ys"
  by (simp add: overwrite_def)

lemma field_update_rel:
  assumes rel: "field_rel b fs" and n: "0 \<le> n" "n < int (length (occs k fs))"
    and e: "is_long (int (length e))"
  shows "\<exists>b' next'. field_update next k n e b = Inr (b', next')
           \<and> field_rel b' (update_nth k (nat n) e fs) \<and> btype b' = btype b"
proof -
  obtain pre d post where sp: "fs = pre @ (k, d) # post"
    "update_nth k (nat n) e fs = pre @ (k, e) # post" "field_offset (findex b) k n = Inr (flen pre)"
    "vmem (bvec b) = flatten pre @ put_long k @ put_long (int (length d)) @ d @ flatten post"
    "decode_at (vmem (bvec b)) (flen pre + 8) = int (length d)"
    "is_long k" "fields_fit pre" "fields_fit post"
    using occurrence_split [OF rel n] by metis
  have idx: "index_matches (findex b) (pre @ (k, d) # post)"
    using rel sp(1) by (simp add: field_rel_def)
  have ow: "overwrite (length (flatten pre) + 8) (put_long (int (length e)))
      (flatten pre @ put_long k @ put_long (int (length d)) @ e @ flatten post)
      = flatten pre @ put_long k @ put_long (int (length e)) @ e @ flatten post"
    using overwrite_at [of "put_long (int (length e))" "put_long (int (length d))"
        "length (flatten pre) + 8" "flatten pre @ put_long k" "e @ flatten post"] by simp
  show ?thesis
    using sp(2-8) sp(5) [unfolded sp(4)] e ow index_matches_resize [OF idx, of e]
    by (simp add: field_update_def Let_def case_prod_unfold field_rel_def vec_erase_def)
qed

lemma field_clear_rel: "field_rel (field_clear b) []"
  by (simp add: field_rel_def field_clear_def index_matches_Nil)

lemma field_count_rel: "field_rel b fs \<Longrightarrow> field_count k b = int (length (occs k fs))"
  by (auto simp: field_rel_def index_matches_def field_count_def occ_from_Nil_iff)

end
