(* ===== verification/FieldApi.thy ===== *)
theory FieldApi
  imports FieldBuffer
begin

text \<open>
  \<open>buffer/source/field.cpp\<close>, the C functions \<open>casual_field_*\<close> over the pool of fielded
  buffers. Each function takes the handles and the pool and returns the C code, the
  outputs and the pool it leaves. A call whose behaviour C++ leaves undefined has no
  code: its status is \<open>Undefined\<close>.
\<close>

section \<open>Codes\<close>

definition CASUAL_FIELD_SUCCESS :: int where [simp]: "CASUAL_FIELD_SUCCESS = 0"
definition CASUAL_FIELD_INVALID_HANDLE :: int where [simp]: "CASUAL_FIELD_INVALID_HANDLE = 1"
definition CASUAL_FIELD_INVALID_ARGUMENT :: int where [simp]: "CASUAL_FIELD_INVALID_ARGUMENT = 2"
definition CASUAL_FIELD_OUT_OF_MEMORY :: int where [simp]: "CASUAL_FIELD_OUT_OF_MEMORY = 4"
definition CASUAL_FIELD_OUT_OF_BOUNDS :: int where [simp]: "CASUAL_FIELD_OUT_OF_BOUNDS = 8"
definition CASUAL_FIELD_INTERNAL_FAILURE :: int where [simp]: "CASUAL_FIELD_INTERNAL_FAILURE = 128"

definition CASUAL_FIELD_NO_ID :: int where [simp]: "CASUAL_FIELD_NO_ID = 0"
definition CASUAL_FIELD_NO_TYPE :: int where [simp]: "CASUAL_FIELD_NO_TYPE = 0"
definition CASUAL_FIELD_SHORT :: int where [simp]: "CASUAL_FIELD_SHORT = 1"
definition CASUAL_FIELD_LONG :: int where [simp]: "CASUAL_FIELD_LONG = 2"
definition CASUAL_FIELD_CHAR :: int where [simp]: "CASUAL_FIELD_CHAR = 3"
definition CASUAL_FIELD_FLOAT :: int where [simp]: "CASUAL_FIELD_FLOAT = 4"
definition CASUAL_FIELD_DOUBLE :: int where [simp]: "CASUAL_FIELD_DOUBLE = 5"
definition CASUAL_FIELD_STRING :: int where [simp]: "CASUAL_FIELD_STRING = 6"
definition CASUAL_FIELD_BINARY :: int where [simp]: "CASUAL_FIELD_BINARY = 7"
definition CASUAL_FIELD_TYPE_BASE :: int where [simp]: "CASUAL_FIELD_TYPE_BASE = 0x2000000"

datatype status = Code int | Undefined

definition field_type :: "int \<Rightarrow> int" where
  "field_type key = cdiv key CASUAL_FIELD_TYPE_BASE"

text \<open>\<open>error::handle\<close>: the code for the exception in flight.\<close>

fun field_error :: "exn \<Rightarrow> status" where
  "field_error Std_out_of_range = Code CASUAL_FIELD_OUT_OF_BOUNDS"
| "field_error Std_invalid_argument = Code CASUAL_FIELD_INVALID_ARGUMENT"
| "field_error Std_bad_alloc = Code CASUAL_FIELD_OUT_OF_MEMORY"
| "field_error Xatmi_argument = Code CASUAL_FIELD_INVALID_HANDLE"
| "field_error Std_length_error = Code CASUAL_FIELD_INTERNAL_FAILURE"
| "field_error Undefined_behaviour = Undefined"

definition casual_field_description :: "int \<Rightarrow> string" where
  "casual_field_description code =
     (if code = CASUAL_FIELD_SUCCESS then ''Success''
      else if code = CASUAL_FIELD_INVALID_HANDLE then ''Invalid handle''
      else if code = CASUAL_FIELD_INVALID_ARGUMENT then ''Invalid argument''
      else if code = CASUAL_FIELD_OUT_OF_MEMORY then ''Out of memory''
      else if code = CASUAL_FIELD_OUT_OF_BOUNDS then ''Out of bounds''
      else if code = CASUAL_FIELD_INTERNAL_FAILURE then ''Internal failure''
      else ''Unknown code'')"

section \<open>The pool of fielded buffers\<close>

type_synonym field_pool = "field_buffer pool"

definition mk_field :: "(int, int list) omap \<Rightarrow> buffer \<Rightarrow> field_buffer" where
  "mk_field idx b = buffer.extend b \<lparr>findex = idx\<rparr>"

text \<open>\<open>Allocator::allocate\<close>: an empty payload, then room for the size asked for.\<close>

definition field_allocate :: "string \<Rightarrow> nat \<Rightarrow> field_pool \<Rightarrow> nat \<times> field_pool" where
  "field_allocate type n p =
     (let (v, next1) = payload_vec (pnext p) 0;
          (v', next2) = vec_reserve next1 (if n = 0 then 1 else n) v
      in pool_emplace (mk_field [] \<lparr>btype = type, bvec = v'\<rparr>) next2 p)"

text \<open>\<open>Allocator::reallocate\<close>: a smaller size shrinks the block to the content.\<close>

definition field_reallocate :: "nat \<Rightarrow> int \<Rightarrow> field_pool \<Rightarrow> exn + nat \<times> field_pool" where
  "field_reallocate h n p =
     (case pool_find h p of
        None \<Rightarrow> Inl Undefined_behaviour
      | Some b \<Rightarrow>
          let (v, next) = (if n < int (length (vmem (bvec b))) then vec_shrink (pnext p) (bvec b)
                           else vec_reserve (pnext p) (if n = 0 then 1 else nat n) (bvec b));
              b' = b\<lparr>bvec := v\<rparr>
          in Inr (handle_of b', pool_update h b' next p))"

text \<open>\<open>basic_pool::insert\<close> of a received payload builds the index, or raises, or loops.\<close>

definition field_insert :: "string \<Rightarrow> bytes \<Rightarrow> field_pool \<Rightarrow> (exn + nat \<times> field_pool) option" where
  "field_insert type m p =
     (case field_index m of
        None \<Rightarrow> None
      | Some (Inl e) \<Rightarrow> Some (Inl e)
      | Some (Inr idx) \<Rightarrow> Some (Inr (pool_insert (mk_field idx) type m p)))"

section \<open>add\<close>

definition field_add_data ::
    "nat \<Rightarrow> int \<Rightarrow> int \<Rightarrow> bytes \<Rightarrow> field_pool \<Rightarrow> status \<times> nat \<times> field_pool" where
  "field_add_data h key type data p =
     (if type \<noteq> field_type key then (Code CASUAL_FIELD_INVALID_ARGUMENT, h, p)
      else case pool_get h p of
             Inl e \<Rightarrow> (field_error e, h, p)
           | Inr b \<Rightarrow>
               let (b', next') = field_append (pnext p) key data b
               in (Code CASUAL_FIELD_SUCCESS, handle_of b', pool_update h b' next' p))"

text \<open>The bytes of a C string up to and with its terminator: \<open>std::strlen( value) + 1\<close> bytes.\<close>

definition c_string :: "bytes \<Rightarrow> bytes" where
  "c_string value = takeWhile (\<lambda>c. c \<noteq> 0) value @ [0]"

definition casual_field_add_char :: "nat \<Rightarrow> int \<Rightarrow> byte \<Rightarrow> field_pool \<Rightarrow> status \<times> nat \<times> field_pool" where
  "casual_field_add_char h key value = field_add_data h key CASUAL_FIELD_CHAR (put_char value)"

definition casual_field_add_short :: "nat \<Rightarrow> int \<Rightarrow> int \<Rightarrow> field_pool \<Rightarrow> status \<times> nat \<times> field_pool" where
  "casual_field_add_short h key value = field_add_data h key CASUAL_FIELD_SHORT (put_short value)"

definition casual_field_add_long :: "nat \<Rightarrow> int \<Rightarrow> int \<Rightarrow> field_pool \<Rightarrow> status \<times> nat \<times> field_pool" where
  "casual_field_add_long h key value = field_add_data h key CASUAL_FIELD_LONG (put_long value)"

definition casual_field_add_float :: "nat \<Rightarrow> int \<Rightarrow> 32 word \<Rightarrow> field_pool \<Rightarrow> status \<times> nat \<times> field_pool" where
  "casual_field_add_float h key value = field_add_data h key CASUAL_FIELD_FLOAT (put_float value)"

definition casual_field_add_double :: "nat \<Rightarrow> int \<Rightarrow> 64 word \<Rightarrow> field_pool \<Rightarrow> status \<times> nat \<times> field_pool" where
  "casual_field_add_double h key value = field_add_data h key CASUAL_FIELD_DOUBLE (put_double value)"

definition casual_field_add_string :: "nat \<Rightarrow> int \<Rightarrow> bytes \<Rightarrow> field_pool \<Rightarrow> status \<times> nat \<times> field_pool" where
  "casual_field_add_string h key value = field_add_data h key CASUAL_FIELD_STRING (c_string value)"

definition casual_field_add_binary ::
    "nat \<Rightarrow> int \<Rightarrow> bytes \<Rightarrow> int \<Rightarrow> field_pool \<Rightarrow> status \<times> nat \<times> field_pool" where
  "casual_field_add_binary h key value count p =
     (if count < 0 then (Code CASUAL_FIELD_INVALID_ARGUMENT, h, p)
      else field_add_data h key CASUAL_FIELD_BINARY (take (nat count) value) p)"

text \<open>A value behind a \<open>const void*\<close>: the host bytes of the type the id says, \<open>None\<close> for
  the null pointer, which every branch but the empty binary dereferences.\<close>

definition host_short :: "bytes \<Rightarrow> int" where "host_short m = sint (host_word (take 2 m) :: 16 word)"
definition host_long :: "bytes \<Rightarrow> int" where "host_long m = sint (host_word (take 8 m) :: 64 word)"
definition host_char :: "bytes \<Rightarrow> byte" where "host_char m = host_word (take 1 m)"
definition host_float :: "bytes \<Rightarrow> 32 word" where "host_float m = host_word (take 4 m)"
definition host_double :: "bytes \<Rightarrow> 64 word" where "host_double m = host_word (take 8 m)"

definition casual_field_add_value ::
    "nat \<Rightarrow> int \<Rightarrow> bytes option \<Rightarrow> int \<Rightarrow> field_pool \<Rightarrow> status \<times> nat \<times> field_pool" where
  "casual_field_add_value h key value count p =
     (let type = field_type key;
          deref = (\<lambda>f. case value of None \<Rightarrow> (Undefined, h, p) | Some m \<Rightarrow> f m)
      in if type = CASUAL_FIELD_SHORT then deref (\<lambda>m. casual_field_add_short h key (host_short m) p)
         else if type = CASUAL_FIELD_LONG then deref (\<lambda>m. casual_field_add_long h key (host_long m) p)
         else if type = CASUAL_FIELD_CHAR then deref (\<lambda>m. casual_field_add_char h key (host_char m) p)
         else if type = CASUAL_FIELD_FLOAT then deref (\<lambda>m. casual_field_add_float h key (host_float m) p)
         else if type = CASUAL_FIELD_DOUBLE then deref (\<lambda>m. casual_field_add_double h key (host_double m) p)
         else if type = CASUAL_FIELD_STRING then deref (\<lambda>m. casual_field_add_string h key m p)
         else if type = CASUAL_FIELD_BINARY then
           (if count \<le> 0 then casual_field_add_binary h key [] count p
            else deref (\<lambda>m. casual_field_add_binary h key m count p))
         else (Code CASUAL_FIELD_INVALID_ARGUMENT, h, p))"

definition casual_field_add_empty :: "nat \<Rightarrow> int \<Rightarrow> field_pool \<Rightarrow> status \<times> nat \<times> field_pool" where
  "casual_field_add_empty h key p =
     (let type = field_type key
      in if type = CASUAL_FIELD_SHORT then casual_field_add_short h key 0 p
         else if type = CASUAL_FIELD_LONG then casual_field_add_long h key 0 p
         else if type = CASUAL_FIELD_CHAR then casual_field_add_char h key 0 p
         else if type = CASUAL_FIELD_FLOAT then casual_field_add_float h key 0 p
         else if type = CASUAL_FIELD_DOUBLE then casual_field_add_double h key 0 p
         else if type = CASUAL_FIELD_STRING then casual_field_add_string h key [] p
         else if type = CASUAL_FIELD_BINARY then casual_field_add_binary h key [] 0 p
         else (Code CASUAL_FIELD_INVALID_ARGUMENT, h, p))"

section \<open>get\<close>

text \<open>\<open>select\<close> is the overload of \<open>get::select\<close> that the output arguments choose. A pointer
  result is an address: the buffer's block plus the offset.\<close>

definition field_get_data ::
    "nat \<Rightarrow> int \<Rightarrow> int \<Rightarrow> int \<Rightarrow> (field_buffer \<Rightarrow> int \<Rightarrow> int \<Rightarrow> exn + 'r) \<Rightarrow> field_pool
       \<Rightarrow> status \<times> 'r option" where
  "field_get_data h key occurrence type select p =
     (if type \<noteq> field_type key then (Code CASUAL_FIELD_INVALID_ARGUMENT, None)
      else case pool_get h p of
             Inl e \<Rightarrow> (field_error e, None)
           | Inr b \<Rightarrow>
               (case select b key occurrence of
                  Inl e \<Rightarrow> (field_error e, None)
                | Inr r \<Rightarrow> (Code CASUAL_FIELD_SUCCESS, Some r)))"

definition select_address :: "field_buffer \<Rightarrow> int \<Rightarrow> int \<Rightarrow> exn + int" where
  "select_address b key occurrence =
     map_sum (\<lambda>e. e) (\<lambda>pos. int (handle_of b) + pos) (field_select_pointer b key occurrence)"

definition select_address_size :: "field_buffer \<Rightarrow> int \<Rightarrow> int \<Rightarrow> exn + int \<times> int" where
  "select_address_size b key occurrence =
     map_sum (\<lambda>e. e) (\<lambda>(pos, n). (int (handle_of b) + pos, n)) (field_select_data b key occurrence)"

definition casual_field_get_char :: "nat \<Rightarrow> int \<Rightarrow> int \<Rightarrow> field_pool \<Rightarrow> status \<times> byte option" where
  "casual_field_get_char h key i = field_get_data h key i CASUAL_FIELD_CHAR (field_select_value get_char)"

definition casual_field_get_short :: "nat \<Rightarrow> int \<Rightarrow> int \<Rightarrow> field_pool \<Rightarrow> status \<times> int option" where
  "casual_field_get_short h key i = field_get_data h key i CASUAL_FIELD_SHORT (field_select_value get_short)"

definition casual_field_get_long :: "nat \<Rightarrow> int \<Rightarrow> int \<Rightarrow> field_pool \<Rightarrow> status \<times> int option" where
  "casual_field_get_long h key i = field_get_data h key i CASUAL_FIELD_LONG (field_select_value get_long)"

definition casual_field_get_float :: "nat \<Rightarrow> int \<Rightarrow> int \<Rightarrow> field_pool \<Rightarrow> status \<times> 32 word option" where
  "casual_field_get_float h key i = field_get_data h key i CASUAL_FIELD_FLOAT (field_select_value get_float)"

definition casual_field_get_double :: "nat \<Rightarrow> int \<Rightarrow> int \<Rightarrow> field_pool \<Rightarrow> status \<times> 64 word option" where
  "casual_field_get_double h key i = field_get_data h key i CASUAL_FIELD_DOUBLE (field_select_value get_double)"

definition casual_field_get_string :: "nat \<Rightarrow> int \<Rightarrow> int \<Rightarrow> field_pool \<Rightarrow> status \<times> int option" where
  "casual_field_get_string h key i = field_get_data h key i CASUAL_FIELD_STRING select_address"

definition casual_field_get_binary ::
    "nat \<Rightarrow> int \<Rightarrow> int \<Rightarrow> field_pool \<Rightarrow> status \<times> (int \<times> int) option" where
  "casual_field_get_binary h key i = field_get_data h key i CASUAL_FIELD_BINARY select_address_size"

section \<open>explore\<close>

text \<open>\<open>casual_field_plain_type_host_size\<close>: \<open>sizeof\<close> of the plain types; a null \<open>count\<close> is
  refused by the caller-visible wrapper below.\<close>

definition plain_type_host_size :: "int \<Rightarrow> int option" where
  "plain_type_host_size type =
     (if type = CASUAL_FIELD_SHORT then Some 2
      else if type = CASUAL_FIELD_LONG then Some 8
      else if type = CASUAL_FIELD_CHAR then Some 1
      else if type = CASUAL_FIELD_FLOAT then Some 4
      else if type = CASUAL_FIELD_DOUBLE then Some 8
      else None)"

text \<open>The count a call leaves behind a pointer: \<open>None\<close> for the null pointer.\<close>

definition casual_field_plain_type_host_size :: "int \<Rightarrow> int option \<Rightarrow> status \<times> int option" where
  "casual_field_plain_type_host_size type count =
     (case count of
        None \<Rightarrow> (Code CASUAL_FIELD_INVALID_ARGUMENT, None)
      | Some c \<Rightarrow>
          (case plain_type_host_size type of
             Some n \<Rightarrow> (Code CASUAL_FIELD_SUCCESS, Some n)
           | None \<Rightarrow> (Code CASUAL_FIELD_INVALID_ARGUMENT, Some c)))"

definition casual_field_minimum_need :: "int \<Rightarrow> int option \<Rightarrow> status \<times> int option" where
  "casual_field_minimum_need key count =
     (case count of
        None \<Rightarrow> (Code CASUAL_FIELD_INVALID_ARGUMENT, None)
      | Some c \<Rightarrow>
          let type = field_type key; head = 8 + 8
          in if type = CASUAL_FIELD_SHORT then (Code CASUAL_FIELD_SUCCESS, Some (head + 2))
             else if type = CASUAL_FIELD_LONG then (Code CASUAL_FIELD_SUCCESS, Some (head + 8))
             else if type = CASUAL_FIELD_CHAR then (Code CASUAL_FIELD_SUCCESS, Some (head + 1))
             else if type = CASUAL_FIELD_FLOAT then (Code CASUAL_FIELD_SUCCESS, Some (head + 4))
             else if type = CASUAL_FIELD_DOUBLE then (Code CASUAL_FIELD_SUCCESS, Some (head + 8))
             else if type = CASUAL_FIELD_STRING then (Code CASUAL_FIELD_SUCCESS, Some (head + 1))
             else if type = CASUAL_FIELD_BINARY then (Code CASUAL_FIELD_SUCCESS, Some (head + 0))
             else (Code CASUAL_FIELD_INVALID_ARGUMENT, Some c))"

definition explore_value :: "nat \<Rightarrow> int \<Rightarrow> int \<Rightarrow> int \<Rightarrow> field_pool \<Rightarrow> status \<times> int" where
  "explore_value h key occurrence count p =
     (case pool_get h p of
        Inl e \<Rightarrow> (field_error e, count)
      | Inr b \<Rightarrow>
          (case field_offset (findex b) key occurrence of
             Inl e \<Rightarrow> (field_error e, count)
           | Inr off \<Rightarrow> (Code CASUAL_FIELD_SUCCESS, decode_at (vmem (bvec b)) (off + size_offset))))"

definition explore_existence :: "nat \<Rightarrow> int \<Rightarrow> int \<Rightarrow> field_pool \<Rightarrow> status" where
  "explore_existence h key occurrence p =
     (case pool_get h p of
        Inl e \<Rightarrow> field_error e
      | Inr b \<Rightarrow>
          (case field_offset (findex b) key occurrence of
             Inl e \<Rightarrow> field_error e
           | Inr _ \<Rightarrow> Code CASUAL_FIELD_SUCCESS))"

definition casual_field_explore_value ::
    "nat \<Rightarrow> int \<Rightarrow> int \<Rightarrow> int option \<Rightarrow> field_pool \<Rightarrow> status \<times> int option" where
  "casual_field_explore_value h key i count p =
     (case count of
        None \<Rightarrow> (explore_existence h key i p, None)
      | Some c \<Rightarrow>
          let type = field_type key
          in if type = CASUAL_FIELD_STRING \<or> type = CASUAL_FIELD_BINARY
             then (case explore_value h key i c p of (r, c') \<Rightarrow> (r, Some c'))
             else (case casual_field_plain_type_host_size (narrow_int type) (Some c) of
                     (r, c') \<Rightarrow>
                       if r \<noteq> Code CASUAL_FIELD_SUCCESS then (r, c')
                       else (explore_existence h key i p, c')))"

text \<open>\<open>casual_field_explore_buffer\<close>: the block's capacity and the bytes used; the outputs are
  written through the pointers that are not null.\<close>

definition casual_field_explore_buffer :: "nat \<Rightarrow> field_pool \<Rightarrow> status \<times> (int \<times> int) option" where
  "casual_field_explore_buffer h p =
     (case pool_get h p of
        Inl e \<Rightarrow> (field_error e, None)
      | Inr b \<Rightarrow> (Code CASUAL_FIELD_SUCCESS, Some (int (vcap (bvec b)), int (length (vmem (bvec b))))))"

definition explore_count :: "nat \<Rightarrow> int \<Rightarrow> field_pool \<Rightarrow> status \<times> int option" where
  "explore_count h key p =
     (case pool_get h p of
        Inl e \<Rightarrow> (field_error e, None)
      | Inr b \<Rightarrow> (Code CASUAL_FIELD_SUCCESS, Some (field_count key b)))"

text \<open>\<open>wanted\<close>: the output pointer is not null.\<close>

definition casual_field_occurrences_of_id :: "nat \<Rightarrow> int \<Rightarrow> bool \<Rightarrow> field_pool \<Rightarrow> status \<times> int option" where
  "casual_field_occurrences_of_id h key wanted p =
     (if wanted \<and> key \<noteq> CASUAL_FIELD_NO_ID then explore_count h key p
      else (Code CASUAL_FIELD_INVALID_ARGUMENT, None))"

definition casual_field_occurrences_in_buffer :: "nat \<Rightarrow> bool \<Rightarrow> field_pool \<Rightarrow> status \<times> int option" where
  "casual_field_occurrences_in_buffer h wanted p =
     (if \<not> wanted then (Code CASUAL_FIELD_INVALID_ARGUMENT, None)
      else case pool_get h p of
             Inl e \<Rightarrow> (field_error e, None)
           | Inr b \<Rightarrow> (Code CASUAL_FIELD_SUCCESS, Some (field_count_all b)))"

text \<open>\<open>casual_field_get_value\<close>: \<open>wanted\<close> says that \<open>value\<close> is not null; the result holds
  what is written to \<open>value\<close> (host bytes) and to \<open>count\<close>.\<close>

definition host_result :: "('v \<Rightarrow> bytes) \<Rightarrow> status \<times> 'v option \<Rightarrow> status \<times> bytes option" where
  "host_result f r = (fst r, map_option f (snd r))"

definition casual_field_get_value ::
    "nat \<Rightarrow> int \<Rightarrow> int \<Rightarrow> bool \<Rightarrow> int option \<Rightarrow> field_pool \<Rightarrow> status \<times> bytes option \<times> int option" where
  "casual_field_get_value h key i wanted count p =
     (if \<not> wanted then
        (case casual_field_explore_value h key i count p of (r, c) \<Rightarrow> (r, None, c))
      else
        let type = narrow_int (field_type key);
            span = (if type = CASUAL_FIELD_STRING \<or> type = CASUAL_FIELD_BINARY
                    then field_get_data h key i type field_select_data p
                    else case casual_field_plain_type_host_size type (Some 0) of
                           (r, n) \<Rightarrow> (r, Some (0, the n)))
        in case span of
             (r, None) \<Rightarrow> (r, None, count)
           | (r, Some (pos, n)) \<Rightarrow>
               if r \<noteq> Code CASUAL_FIELD_SUCCESS then (r, None, count)
               else if (case count of None \<Rightarrow> False | Some c \<Rightarrow> c < n)
                    then (Code CASUAL_FIELD_INVALID_ARGUMENT, None, count)
               else
                 let count' = (case count of None \<Rightarrow> None | Some _ \<Rightarrow> Some n);
                     plain = (\<lambda>(r, m). (r, m, count'))
                 in if type = CASUAL_FIELD_SHORT then
                      plain (host_result (\<lambda>v. host_bytes 2 (word_of_int v :: 16 word)) (casual_field_get_short h key i p))
                    else if type = CASUAL_FIELD_LONG then
                      plain (host_result (\<lambda>v. host_bytes 8 (word_of_int v :: 64 word)) (casual_field_get_long h key i p))
                    else if type = CASUAL_FIELD_CHAR then
                      plain (host_result (host_bytes 1) (casual_field_get_char h key i p))
                    else if type = CASUAL_FIELD_FLOAT then
                      plain (host_result (host_bytes 4) (casual_field_get_float h key i p))
                    else if type = CASUAL_FIELD_DOUBLE then
                      plain (host_result (host_bytes 8) (casual_field_get_double h key i p))
                    else
                      (case pool_get h p of
                         Inl e \<Rightarrow> (Undefined, None, count')
                       | Inr b \<Rightarrow> (Code CASUAL_FIELD_SUCCESS,
                                   Some (take (nat n) (drop (nat pos) (vmem (bvec b)))), count')))"

end
