(* ===== verification/FieldEdit.thy ===== *)
theory FieldEdit
  imports FieldApi
begin

text \<open>
  \<open>buffer/source/field.cpp\<close>, the C functions that change or walk a buffer in place: set,
  put, remove, next and copy; and what each of them does to the list of fields the buffer
  stands for.
\<close>

section \<open>cut\<close>

definition cut_data :: "nat \<Rightarrow> int \<Rightarrow> int \<Rightarrow> field_pool \<Rightarrow> status \<times> field_pool" where
  "cut_data h key occurrence p =
     (if \<not> key > CASUAL_FIELD_NO_ID then (Code CASUAL_FIELD_INVALID_ARGUMENT, p)
      else case pool_get h p of
             Inl e \<Rightarrow> (field_error e, p)
           | Inr b \<Rightarrow>
               (case field_remove key occurrence b of
                  Inl e \<Rightarrow> (field_error e, p)
                | Inr b' \<Rightarrow> (Code CASUAL_FIELD_SUCCESS, pool_update h b' (pnext p) p)))"

definition casual_field_remove_occurrence :: "nat \<Rightarrow> int \<Rightarrow> int \<Rightarrow> field_pool \<Rightarrow> status \<times> field_pool" where
  "casual_field_remove_occurrence h key i p = cut_data h key i p"

definition casual_field_remove_all :: "nat \<Rightarrow> field_pool \<Rightarrow> status \<times> field_pool" where
  "casual_field_remove_all h p =
     (case pool_get h p of
        Inl e \<Rightarrow> (field_error e, p)
      | Inr b \<Rightarrow> (Code CASUAL_FIELD_SUCCESS, pool_update h (field_clear b) (pnext p) p))"

text \<open>The loop of \<open>casual_field_remove_id\<close>: the last occurrence first, the codes ignored.\<close>

fun remove_id_loop :: "nat \<Rightarrow> int \<Rightarrow> nat \<Rightarrow> field_pool \<Rightarrow> field_pool" where
  "remove_id_loop h key 0 p = p"
| "remove_id_loop h key (Suc n) p = remove_id_loop h key n (snd (cut_data h key (int n) p))"

definition casual_field_remove_id :: "nat \<Rightarrow> int \<Rightarrow> field_pool \<Rightarrow> status \<times> field_pool" where
  "casual_field_remove_id h key p =
     (case explore_count h key p of
        (r, None) \<Rightarrow> (r, p)
      | (r, Some occurrences) \<Rightarrow>
          if r \<noteq> Code CASUAL_FIELD_SUCCESS then (r, p)
          else (Code CASUAL_FIELD_SUCCESS, remove_id_loop h key (nat occurrences) p))"

section \<open>set\<close>

definition field_set_data ::
    "nat \<Rightarrow> int \<Rightarrow> int \<Rightarrow> int \<Rightarrow> bytes \<Rightarrow> field_pool \<Rightarrow> status \<times> nat \<times> field_pool" where
  "field_set_data h key occurrence type data p =
     (if type \<noteq> field_type key then (Code CASUAL_FIELD_INVALID_ARGUMENT, h, p)
      else case pool_get h p of
             Inl e \<Rightarrow> (field_error e, h, p)
           | Inr b \<Rightarrow>
               (case field_update (pnext p) key occurrence data b of
                  Inl e \<Rightarrow> (field_error e, h, p)
                | Inr (b', next') \<Rightarrow>
                    (Code CASUAL_FIELD_SUCCESS, handle_of b', pool_update h b' next' p)))"

definition casual_field_set_char :: "nat \<Rightarrow> int \<Rightarrow> int \<Rightarrow> byte \<Rightarrow> field_pool \<Rightarrow> status \<times> nat \<times> field_pool" where
  "casual_field_set_char h key i value = field_set_data h key i CASUAL_FIELD_CHAR (put_char value)"

definition casual_field_set_short :: "nat \<Rightarrow> int \<Rightarrow> int \<Rightarrow> int \<Rightarrow> field_pool \<Rightarrow> status \<times> nat \<times> field_pool" where
  "casual_field_set_short h key i value = field_set_data h key i CASUAL_FIELD_SHORT (put_short value)"

definition casual_field_set_long :: "nat \<Rightarrow> int \<Rightarrow> int \<Rightarrow> int \<Rightarrow> field_pool \<Rightarrow> status \<times> nat \<times> field_pool" where
  "casual_field_set_long h key i value = field_set_data h key i CASUAL_FIELD_LONG (put_long value)"

definition casual_field_set_float :: "nat \<Rightarrow> int \<Rightarrow> int \<Rightarrow> 32 word \<Rightarrow> field_pool \<Rightarrow> status \<times> nat \<times> field_pool" where
  "casual_field_set_float h key i value = field_set_data h key i CASUAL_FIELD_FLOAT (put_float value)"

definition casual_field_set_double :: "nat \<Rightarrow> int \<Rightarrow> int \<Rightarrow> 64 word \<Rightarrow> field_pool \<Rightarrow> status \<times> nat \<times> field_pool" where
  "casual_field_set_double h key i value = field_set_data h key i CASUAL_FIELD_DOUBLE (put_double value)"

text \<open>\<open>None\<close> is the null pointer.\<close>

definition casual_field_set_string ::
    "nat \<Rightarrow> int \<Rightarrow> int \<Rightarrow> bytes option \<Rightarrow> field_pool \<Rightarrow> status \<times> nat \<times> field_pool" where
  "casual_field_set_string h key i value p =
     (case value of
        Some v \<Rightarrow> field_set_data h key i CASUAL_FIELD_STRING (c_string v) p
      | None \<Rightarrow> (Code CASUAL_FIELD_INVALID_ARGUMENT, h, p))"

definition casual_field_set_binary ::
    "nat \<Rightarrow> int \<Rightarrow> int \<Rightarrow> bytes \<Rightarrow> int \<Rightarrow> field_pool \<Rightarrow> status \<times> nat \<times> field_pool" where
  "casual_field_set_binary h key i value count p =
     (if count < 0 then (Code CASUAL_FIELD_INVALID_ARGUMENT, h, p)
      else field_set_data h key i CASUAL_FIELD_BINARY (take (nat count) value) p)"

definition casual_field_set_value ::
    "nat \<Rightarrow> int \<Rightarrow> int \<Rightarrow> bytes option \<Rightarrow> int \<Rightarrow> field_pool \<Rightarrow> status \<times> nat \<times> field_pool" where
  "casual_field_set_value h key i value count p =
     (case value of
        None \<Rightarrow> (Code CASUAL_FIELD_INVALID_ARGUMENT, h, p)
      | Some m \<Rightarrow>
          let type = field_type key
          in if type = CASUAL_FIELD_SHORT then casual_field_set_short h key i (host_short m) p
             else if type = CASUAL_FIELD_LONG then casual_field_set_long h key i (host_long m) p
             else if type = CASUAL_FIELD_CHAR then casual_field_set_char h key i (host_char m) p
             else if type = CASUAL_FIELD_FLOAT then casual_field_set_float h key i (host_float m) p
             else if type = CASUAL_FIELD_DOUBLE then casual_field_set_double h key i (host_double m) p
             else if type = CASUAL_FIELD_STRING then casual_field_set_string h key i (Some m) p
             else if type = CASUAL_FIELD_BINARY then casual_field_set_binary h key i m count p
             else (Code CASUAL_FIELD_INVALID_ARGUMENT, h, p))"

text \<open>\<open>casual_field_put_value\<close> adds empty occurrences until the one asked for exists. It calls
  itself after each; that it returns is a theorem.\<close>

partial_function (option) casual_field_put_value ::
    "nat \<Rightarrow> int \<Rightarrow> int \<Rightarrow> bytes option \<Rightarrow> int \<Rightarrow> field_pool \<Rightarrow> (status \<times> nat \<times> field_pool) option" where
  "casual_field_put_value h key i value count p =
     (if i < 0 then Some (casual_field_add_value h key value count p)
      else case casual_field_set_value h key i value count p of
             (result, h1, p1) \<Rightarrow>
               if result = Code CASUAL_FIELD_OUT_OF_BOUNDS then
                 (case casual_field_add_empty h1 key p1 of
                    (result', h2, p2) \<Rightarrow>
                      if result' \<noteq> Code CASUAL_FIELD_SUCCESS then Some (result', h2, p2)
                      else casual_field_put_value h2 key i value count p2)
               else Some (result, h1, p1))"

section \<open>iterate\<close>

definition iterate_first :: "nat \<Rightarrow> int \<times> int \<Rightarrow> field_pool \<Rightarrow> status \<times> int \<times> int" where
  "iterate_first h pos p =
     (case pool_get h p of
        Inl e \<Rightarrow> (field_error e, pos)
      | Inr b \<Rightarrow>
          (case findex b of
             [] \<Rightarrow> (Code CASUAL_FIELD_OUT_OF_BOUNDS, pos)
           | (k, _) # _ \<Rightarrow> (Code CASUAL_FIELD_SUCCESS, k, 0)))"

definition iterate_next :: "nat \<Rightarrow> int \<times> int \<Rightarrow> field_pool \<Rightarrow> status \<times> int \<times> int" where
  "iterate_next h pos p =
     (case pool_get h p of
        Inl e \<Rightarrow> (field_error e, pos)
      | Inr b \<Rightarrow>
          (case map_of (findex b) (fst pos) of
             None \<Rightarrow> (Code CASUAL_FIELD_INVALID_ARGUMENT, pos)
           | Some current \<Rightarrow>
               let index = snd pos + 1
               in if 0 \<le> index \<and> index < int (length current)
                  then (Code CASUAL_FIELD_SUCCESS, fst pos, index)
                  else case omap_next (fst pos) (findex b) of
                         Some (k, _) \<Rightarrow> (Code CASUAL_FIELD_SUCCESS, k, 0)
                       | None \<Rightarrow> (Code CASUAL_FIELD_OUT_OF_BOUNDS, fst pos, index)))"

text \<open>The position is \<open>None\<close> when one of the two pointers is null.\<close>

definition casual_field_next ::
    "nat \<Rightarrow> (int \<times> int) option \<Rightarrow> field_pool \<Rightarrow> status \<times> (int \<times> int) option" where
  "casual_field_next h pos p =
     (case pos of
        None \<Rightarrow> (Code CASUAL_FIELD_INVALID_ARGUMENT, None)
      | Some at \<Rightarrow>
          (case if fst at = CASUAL_FIELD_NO_ID then iterate_first h at p else iterate_next h at p of
             (r, at') \<Rightarrow> (r, Some at')))"

section \<open>copy\<close>

definition casual_field_copy_buffer :: "nat \<Rightarrow> nat \<Rightarrow> field_pool \<Rightarrow> status \<times> nat \<times> field_pool" where
  "casual_field_copy_buffer target source p =
     (case (pool_get target p, pool_get source p) of
        (Inl e, _) \<Rightarrow> (field_error e, target, p)
      | (_, Inl e) \<Rightarrow> (field_error e, target, p)
      | (Inr t, Inr s) \<Rightarrow>
          let (v, next') = vec_assign (pnext p) (vmem (bvec s)) (bvec t);
              t' = t\<lparr>bvec := v, findex := findex s\<rparr>
          in (Code CASUAL_FIELD_SUCCESS, handle_of t', pool_update target t' next' p))"

text \<open>\<open>casual_field_copy_memory\<close> builds a new buffer from \<open>count\<close> bytes at \<open>source\<close> and moves it
  over the old one; the new block is exactly as large as the bytes.\<close>

definition casual_field_copy_memory ::
    "nat \<Rightarrow> bytes \<Rightarrow> int \<Rightarrow> field_pool \<Rightarrow> (status \<times> nat \<times> field_pool) option" where
  "casual_field_copy_memory h source count p =
     (case pool_get h p of
        Inl e \<Rightarrow> Some (field_error e, h, p)
      | Inr b \<Rightarrow>
          if count < 0 then Some (field_error Std_length_error, h, p)
          else if length source < nat count then Some (Undefined, h, p)
          else
            let (v, next') = vec_of (pnext p) (take (nat count) source)
            in case field_index (vmem v) of
                 None \<Rightarrow> None
               | Some (Inl e) \<Rightarrow> Some (field_error e, h, p)
               | Some (Inr idx) \<Rightarrow>
                   let b' = b\<lparr>bvec := v, findex := idx\<rparr>
                   in Some (Code CASUAL_FIELD_SUCCESS, handle_of b', pool_update h b' next' p))"

end
