(* ===== verification/FieldLaws.thy ===== *)
theory FieldLaws
  imports FieldEdit
begin

text \<open>
  What the fielded buffer's functions promise their callers, over the whole pool: the
  buffer behind a handle stands for a list of fields, each call does to it what the list
  operation does, the pool stays well formed and no other buffer is touched.
\<close>

section \<open>A handle stands for a list of fields\<close>

definition field_holds :: "field_pool \<Rightarrow> nat \<Rightarrow> fields \<Rightarrow> bool" where
  "field_holds p h fs \<longleftrightarrow> pool_ok p \<and> (\<exists>b. pool_find h p = Some b \<and> field_rel b fs)"

lemma field_holds_get:
  "field_holds p h fs \<Longrightarrow> \<exists>b. pool_get h p = Inr b \<and> pool_find h p = Some b \<and> field_rel b fs \<and> pool_ok p"
  by (auto simp: field_holds_def pool_get_def)

text \<open>One step of a buffer's memory is one step of the pool.\<close>

lemma field_pool_step:
  assumes ok: "pool_ok p" and found: "pool_find h p = Some b"
    and step: "vec_step (pnext p) (bvec b) (bvec b', next')" and nz: "vbase (bvec b') \<noteq> 0"
    and rel: "field_rel b' fs"
  shows "field_holds (pool_update h b' next' p) (handle_of b') fs
    \<and> only_moves p h (pool_update h b' next' p) (handle_of b')"
  using pool_step [OF ok found step nz] rel by (auto simp: field_holds_def)

lemma field_append_step:
  assumes "vec_ok n (bvec b)" and "vbase (bvec b) \<noteq> 0" and "field_append n k d b = (b', n')"
  shows "vec_step n (bvec b) (bvec b', n') \<and> vbase (bvec b') \<noteq> 0"
proof -
  obtain v1 n1 where 1: "vec_append n (put_long k) (bvec b) = (v1, n1)" by force
  obtain v2 n2 where 2: "vec_append n1 (put_long (int (length d))) v1 = (v2, n2)" by force
  obtain v3 n3 where 3: "vec_append n2 d v2 = (v3, n3)" by force
  have "bvec b' = v3 \<and> n' = n3"
    using assms(3) by (auto simp: field_append_def 1 2 3 Let_def)
  moreover note s1 = vec_step_append [OF assms(1,2) 1]
  moreover note s2 = vec_step_append [OF s1 [THEN conjunct2, THEN conjunct2] s1 [THEN conjunct2, THEN conjunct1] 2]
  moreover note s3 = vec_step_append [OF s2 [THEN conjunct2, THEN conjunct2] s2 [THEN conjunct2, THEN conjunct1] 3]
  ultimately show ?thesis using vec_step_trans by blast
qed

lemma field_update_step:
  assumes ok: "vec_ok n (bvec b)" and nz: "vbase (bvec b) \<noteq> 0"
    and up: "field_update n k i e b = Inr (b', n')"
    and pos: "\<And>off. field_offset (findex b) k i = Inr off \<Longrightarrow>
       0 \<le> off \<and> off + 16 \<le> int (length (vmem (bvec b)))"
  shows "vec_step n (bvec b) (bvec b', n') \<and> vbase (bvec b') \<noteq> 0"
proof -
  obtain off where off: "field_offset (findex b) k i = Inr off"
    using up by (auto simp: field_update_def split: sum.splits)
  define cur where "cur = decode_at (vmem (bvec b)) (off + 8)"
  have bound: "0 \<le> cur" "0 \<le> off" "off + 16 \<le> int (length (vmem (bvec b)))"
    using up off pos [OF off] by (auto simp: field_update_def cur_def Let_def split: if_splits)
  define v1 where "v1 = vec_erase (nat (off + 16)) (nat (off + 16 + cur)) (bvec b)"
  define r where "r = vec_insert n (nat (off + 16)) e v1"
  have ok1: "vec_ok n v1" unfolding v1_def
    by (rule vec_step_erase [OF ok]) (use bound in simp)
  have nz1: "vbase v1 \<noteq> 0" using nz by (simp add: v1_def vec_erase_def)
  have step: "vec_step n v1 r" and nz2: "vbase (fst r) \<noteq> 0"
    unfolding r_def vec_insert_def using vec_step_store [OF ok1] vec_store_nonnull [OF ok1 nz1] by simp_all
  have v1b: "vbase v1 = vbase (bvec b)" by (simp add: v1_def vec_erase_def)
  have b': "bvec b' = (fst r)\<lparr>vmem := overwrite (nat (off + 8)) (put_long (int (length e))) (vmem (fst r))\<rparr>"
    and n': "n' = snd r"
    using up off by (auto simp: field_update_def v1_def r_def cur_def Let_def case_prod_unfold split: if_splits)
  have len: "nat (off + 8) + 8 \<le> length (vmem (fst r))"
    using bound by (simp add: r_def v1_def vec_erase_def nat_add_distrib)
  then have "length (overwrite (nat (off + 8)) (put_long (int (length e))) (vmem (fst r))) = length (vmem (fst r))"
    by (simp add: overwrite_def)
  with step nz2 v1b show ?thesis unfolding b' n'
    by (auto simp: vec_step_def vec_ok_def)
qed

section \<open>add\<close>

lemma field_add_data_holds:
  assumes "field_holds p h fs" and "type = field_type key" and "is_long key" and "is_long (int (length d))"
  shows "\<exists>h' p'. field_add_data h key type d p = (Code CASUAL_FIELD_SUCCESS, h', p')
     \<and> field_holds p' h' (fs @ [(key, d)]) \<and> only_moves p h p' h'"
proof -
  obtain b where b: "pool_get h p = Inr b" "pool_find h p = Some b" "field_rel b fs" "pool_ok p"
    using field_holds_get [OF assms(1)] by blast
  obtain b' n' where ap: "field_append (pnext p) key d b = (b', n')" by force
  have "vec_step (pnext p) (bvec b) (bvec b', n') \<and> vbase (bvec b') \<noteq> 0"
    using pool_ok_found [OF b(4,2)] field_append_step [OF _ _ ap] by blast
  moreover have "field_rel b' (fs @ [(key, d)])"
    using field_append_rel [OF b(3) assms(3,4), of "pnext p"] ap by simp
  ultimately have "field_holds (pool_update h b' n' p) (handle_of b') (fs @ [(key, d)])
    \<and> only_moves p h (pool_update h b' n' p) (handle_of b')"
    using field_pool_step [OF b(4,2)] by blast
  then show ?thesis using assms(2) b(1) ap by (simp add: field_add_data_def)
qed

section \<open>set\<close>

lemma field_set_data_holds:
  assumes h: "field_holds p h fs" and t: "type = field_type key"
    and i: "0 \<le> i" "i < int (length (occs key fs))" and d: "is_long (int (length d))"
  shows "\<exists>h' p'. field_set_data h key i type d p = (Code CASUAL_FIELD_SUCCESS, h', p')
     \<and> field_holds p' h' (update_nth key (nat i) d fs) \<and> only_moves p h p' h'"
proof -
  obtain b where b: "pool_get h p = Inr b" "pool_find h p = Some b" "field_rel b fs" "pool_ok p"
    using field_holds_get [OF h] by blast
  obtain b' n' where up: "field_update (pnext p) key i d b = Inr (b', n')"
    and rel: "field_rel b' (update_nth key (nat i) d fs)"
    using field_update_rel [OF b(3) i d] by blast
  have "vec_step (pnext p) (bvec b) (bvec b', n') \<and> vbase (bvec b') \<noteq> 0"
  proof (rule field_update_step [OF _ _ up])
    show "vec_ok (pnext p) (bvec b)" "vbase (bvec b) \<noteq> 0" using pool_ok_found [OF b(4,2)] by auto
    fix off assume "field_offset (findex b) key i = Inr off"
    then have "off \<in> set (occ_from 0 key fs)" using field_offset_rel [OF b(3)] i
      by (auto split: if_splits)
    then show "0 \<le> off \<and> off + 16 \<le> int (length (vmem (bvec b)))"
      using occ_from_bounds [of off 0 key fs] b(3) by (auto simp: field_rel_def)
  qed
  then have "field_holds (pool_update h b' n' p) (handle_of b') (update_nth key (nat i) d fs)
    \<and> only_moves p h (pool_update h b' n' p) (handle_of b')"
    using field_pool_step [OF b(4,2)] rel by blast
  then show ?thesis using t b(1) up by (simp add: field_set_data_def)
qed

lemma field_set_data_bounds:
  assumes h: "field_holds p h fs" and t: "type = field_type key"
    and i: "\<not> (0 \<le> i \<and> i < int (length (occs key fs)))"
  shows "field_set_data h key i type d p = (Code CASUAL_FIELD_OUT_OF_BOUNDS, h, p)"
proof -
  obtain b where b: "pool_get h p = Inr b" "pool_find h p = Some b" "field_rel b fs" "pool_ok p"
    using field_holds_get [OF h] by blast
  have "field_offset (findex b) key i = Inl Std_out_of_range"
    using field_offset_rel [OF b(3), of key i] i by auto
  then show ?thesis using t b(1) by (simp add: field_set_data_def field_update_def)
qed

section \<open>remove\<close>

lemma cut_data_holds:
  assumes h: "field_holds p h fs" and k: "0 < key" and i: "0 \<le> i" "i < int (length (occs key fs))"
  shows "\<exists>p'. cut_data h key i p = (Code CASUAL_FIELD_SUCCESS, p')
     \<and> field_holds p' h (remove_nth key (nat i) fs) \<and> only_moves p h p' h"
proof -
  obtain b where b: "pool_get h p = Inr b" "pool_find h p = Some b" "field_rel b fs" "pool_ok p"
    using field_holds_get [OF h] by blast
  obtain b' where rm: "field_remove key i b = Inr b'" "field_rel b' (remove_nth key (nat i) fs)"
    "handle_of b' = handle_of b" "vcap (bvec b') = vcap (bvec b)"
    using field_remove_rel [OF b(3) i] by blast
  have fnd: "vec_ok (pnext p) (bvec b)" "vbase (bvec b) = h" "h \<noteq> 0"
    using pool_ok_found [OF b(4,2)] by auto
  have len: "length (vmem (bvec b')) \<le> length (vmem (bvec b))"
    using rm(1) by (auto simp: field_remove_def vec_erase_def Let_def nat_le_iff
        split: option.splits if_splits)
  have "vec_step (pnext p) (bvec b) (bvec b', pnext p)"
    using fnd len rm(3,4) by (auto simp: vec_step_def vec_ok_def handle_of_def)
  moreover have "vbase (bvec b') \<noteq> 0" using rm(3) fnd by (simp add: handle_of_def)
  ultimately have "field_holds (pool_update h b' (pnext p) p) (handle_of b') (remove_nth key (nat i) fs)
    \<and> only_moves p h (pool_update h b' (pnext p) p) (handle_of b')"
    using field_pool_step [OF b(4,2)] rm(2) by blast
  moreover have "handle_of b' = h" using rm(3) fnd by (simp add: handle_of_def)
  ultimately show ?thesis using k b(1) rm(1) by (simp add: cut_data_def)
qed

section \<open>Typed values\<close>

text \<open>What the memory holds for a value passed as \<open>const void*\<close>, by the type in the id.\<close>

definition value_bytes :: "int \<Rightarrow> bytes \<Rightarrow> int \<Rightarrow> bytes" where
  "value_bytes key m count =
     (let type = field_type key
      in if type = CASUAL_FIELD_SHORT then put_short (host_short m)
         else if type = CASUAL_FIELD_LONG then put_long (host_long m)
         else if type = CASUAL_FIELD_CHAR then put_char (host_char m)
         else if type = CASUAL_FIELD_FLOAT then put_float (host_float m)
         else if type = CASUAL_FIELD_DOUBLE then put_double (host_double m)
         else if type = CASUAL_FIELD_STRING then c_string m
         else take (nat count) m)"

definition empty_bytes :: "int \<Rightarrow> bytes" where
  "empty_bytes key =
     (let type = field_type key
      in if type = CASUAL_FIELD_SHORT then put_short 0
         else if type = CASUAL_FIELD_LONG then put_long 0
         else if type = CASUAL_FIELD_CHAR then put_char 0
         else if type = CASUAL_FIELD_FLOAT then put_float 0
         else if type = CASUAL_FIELD_DOUBLE then put_double 0
         else if type = CASUAL_FIELD_STRING then c_string []
         else [])"

definition typed_id :: "int \<Rightarrow> bool" where
  "typed_id key \<longleftrightarrow> is_long key \<and> CASUAL_FIELD_SHORT \<le> field_type key
     \<and> field_type key \<le> CASUAL_FIELD_BINARY"

text \<open>A value the caller may pass: its length fits a \<open>long\<close>, terminator included, and the
  count is not negative.\<close>

definition fits_value :: "bytes \<Rightarrow> int \<Rightarrow> bool" where
  "fits_value m count \<longleftrightarrow> 0 \<le> count \<and> is_long (int (length m) + 1)"

lemma is_long_small [simp]: "is_long 0" "is_long 1" "is_long 2" "is_long 4" "is_long 8"
  by (simp_all add: is_long_def)

lemma typed_id_cases:
  assumes "typed_id key"
  obtains "field_type key = 1" | "field_type key = 2" | "field_type key = 3"
    | "field_type key = 4" | "field_type key = 5" | "field_type key = 6" | "field_type key = 7"
proof -
  have "1 \<le> field_type key" "field_type key \<le> 7" using assms by (simp_all add: typed_id_def)
  then have "field_type key \<in> {1, 2, 3, 4, 5, 6, 7}" by auto
  then show thesis using that by auto
qed

lemma typed_id_pos: "typed_id key \<Longrightarrow> 0 < key"
proof -
  assume "typed_id key"
  then have "0 < cdiv key 0x2000000" by (simp add: typed_id_def field_type_def)
  then show "0 < key" using cdiv_bounds [of "0x2000000" key "cdiv key 0x2000000"] by simp
qed

lemma length_c_string: "length (c_string m) \<le> Suc (length m)"
  by (simp add: c_string_def length_takeWhile_le)

lemma is_long_value_bytes: "fits_value m count \<Longrightarrow> is_long (int (length (value_bytes key m count)))"
proof -
  assume a: "fits_value m count"
  have "is_long (int (length (c_string m)))" "is_long (int (length (take (nat count) m)))"
    using a length_c_string [of m] by (auto simp: fits_value_def is_long_def)
  then show ?thesis by (simp add: value_bytes_def Let_def)
qed

lemma is_long_empty_bytes: "is_long (int (length (empty_bytes key)))"
  by (simp add: empty_bytes_def Let_def c_string_def)

lemma add_value_data:
  assumes "typed_id key" and "fits_value m count"
  shows "casual_field_add_value h key (Some m) count p
       = field_add_data h key (field_type key) (value_bytes key m count) p"
  using assms(1)
  by (rule typed_id_cases)
    (use assms(2) in \<open>simp_all add: casual_field_add_value_def casual_field_add_short_def
      casual_field_add_long_def casual_field_add_char_def casual_field_add_float_def
      casual_field_add_double_def casual_field_add_string_def casual_field_add_binary_def
      value_bytes_def fits_value_def Let_def\<close>)

lemma add_empty_data:
  assumes "typed_id key"
  shows "casual_field_add_empty h key p = field_add_data h key (field_type key) (empty_bytes key) p"
  using assms
  by (rule typed_id_cases)
    (simp_all add: casual_field_add_empty_def casual_field_add_short_def
      casual_field_add_long_def casual_field_add_char_def casual_field_add_float_def
      casual_field_add_double_def casual_field_add_string_def casual_field_add_binary_def
      empty_bytes_def Let_def)

lemma set_value_data:
  assumes "typed_id key" and "fits_value m count"
  shows "casual_field_set_value h key i (Some m) count p
       = field_set_data h key i (field_type key) (value_bytes key m count) p"
  using assms(1)
  by (rule typed_id_cases)
    (use assms(2) in \<open>simp_all add: casual_field_set_value_def casual_field_set_short_def
      casual_field_set_long_def casual_field_set_char_def casual_field_set_float_def
      casual_field_set_double_def casual_field_set_string_def casual_field_set_binary_def
      value_bytes_def fits_value_def Let_def\<close>)

lemma typed_id_long: "typed_id key \<Longrightarrow> is_long key"
  by (simp add: typed_id_def)

lemma add_value_holds:
  assumes "field_holds p h fs" and "typed_id key" and "fits_value m count"
  shows "\<exists>h' p'. casual_field_add_value h key (Some m) count p = (Code CASUAL_FIELD_SUCCESS, h', p')
     \<and> field_holds p' h' (fs @ [(key, value_bytes key m count)]) \<and> only_moves p h p' h'"
  unfolding add_value_data [OF assms(2,3)]
  by (rule field_add_data_holds)
    (use assms is_long_value_bytes typed_id_long in auto)

lemma add_empty_holds:
  assumes "field_holds p h fs" and "typed_id key"
  shows "\<exists>h' p'. casual_field_add_empty h key p = (Code CASUAL_FIELD_SUCCESS, h', p')
     \<and> field_holds p' h' (fs @ [(key, empty_bytes key)]) \<and> only_moves p h p' h'"
  unfolding add_empty_data [OF assms(2)]
  by (rule field_add_data_holds) (use assms is_long_empty_bytes typed_id_long in auto)

section \<open>put\<close>

text \<open>What \<open>casual_field_put_value\<close> does to the fields: pad with empty occurrences up to the
  index, then replace.\<close>

definition put_field :: "int \<Rightarrow> int \<Rightarrow> bytes \<Rightarrow> fields \<Rightarrow> fields" where
  "put_field key i d fs =
     (if i < 0 then fs @ [(key, d)]
      else update_nth key (nat i) d
             (fs @ replicate (Suc (nat i) - length (occs key fs)) (key, empty_bytes key)))"

lemma put_value_holds_aux:
  assumes k: "typed_id key" and v: "fits_value m count" and i: "0 \<le> i"
  shows "field_holds p h fs \<Longrightarrow> n = Suc (nat i) - length (occs key fs) \<Longrightarrow>
     \<exists>h' p'. casual_field_put_value h key i (Some m) count p = Some (Code CASUAL_FIELD_SUCCESS, h', p')
     \<and> field_holds p' h' (update_nth key (nat i) (value_bytes key m count)
           (fs @ replicate n (key, empty_bytes key))) \<and> only_moves p h p' h'"
proof (induction n arbitrary: p h fs)
  case 0
  have l: "i < int (length (occs key fs))" using 0 i by linarith
  obtain h' p' where "casual_field_set_value h key i (Some m) count p = (Code CASUAL_FIELD_SUCCESS, h', p')"
    "field_holds p' h' (update_nth key (nat i) (value_bytes key m count) fs)" "only_moves p h p' h'"
    unfolding set_value_data [OF k v]
    using field_set_data_holds [OF 0(1) refl i l is_long_value_bytes [OF v]] by blast
  then show ?case using i by (subst casual_field_put_value.simps) simp
next
  case (Suc n)
  have l: "\<not> (0 \<le> i \<and> i < int (length (occs key fs)))" using Suc.prems(2) i by linarith
  have b: "casual_field_set_value h key i (Some m) count p = (Code CASUAL_FIELD_OUT_OF_BOUNDS, h, p)"
    unfolding set_value_data [OF k v] by (rule field_set_data_bounds [OF Suc.prems(1) refl l])
  obtain h1 p1 where e: "casual_field_add_empty h key p = (Code CASUAL_FIELD_SUCCESS, h1, p1)"
    "field_holds p1 h1 (fs @ [(key, empty_bytes key)])" "only_moves p h p1 h1"
    using add_empty_holds [OF Suc.prems(1) k] by blast
  have n: "n = Suc (nat i) - length (occs key (fs @ [(key, empty_bytes key)]))"
    using Suc.prems(2) by simp
  obtain h' p' where r: "casual_field_put_value h1 key i (Some m) count p1 = Some (Code CASUAL_FIELD_SUCCESS, h', p')"
    "field_holds p' h' (update_nth key (nat i) (value_bytes key m count)
       ((fs @ [(key, empty_bytes key)]) @ replicate n (key, empty_bytes key)))" "only_moves p1 h1 p' h'"
    using Suc.IH [OF e(2) n] by blast
  have "casual_field_put_value h key i (Some m) count p = Some (Code CASUAL_FIELD_SUCCESS, h', p')"
    using i b e(1) r(1) by (subst casual_field_put_value.simps) simp
  moreover have "only_moves p h p' h'" using e(3) r(3) only_moves_trans by blast
  ultimately show ?case using r(2) by (auto simp: replicate_append_same)
qed

lemma put_value_holds:
  assumes "field_holds p h fs" and "typed_id key" and "fits_value m count"
  shows "\<exists>h' p'. casual_field_put_value h key i (Some m) count p = Some (Code CASUAL_FIELD_SUCCESS, h', p')
     \<and> field_holds p' h' (put_field key i (value_bytes key m count) fs) \<and> only_moves p h p' h'"
proof (cases "i < 0")
  case True
  then show ?thesis using add_value_holds [OF assms] by (subst casual_field_put_value.simps) (simp add: put_field_def)
next
  case False
  then show ?thesis using put_value_holds_aux [OF assms(2,3) _ assms(1) refl, of i]
    by (simp add: put_field_def)
qed

section \<open>remove all occurrences\<close>

definition without :: "int \<Rightarrow> fields \<Rightarrow> fields" where
  "without key fs = filter (\<lambda>(k, _). k \<noteq> key) fs"

lemma without_none: "occs key fs = [] \<Longrightarrow> without key fs = fs"
  by (auto simp: occs_def without_def filter_empty_conv intro: filter_True)

lemma without_remove_nth: "without key (remove_nth key n fs) = without key fs"
  by (induction key n fs rule: remove_nth.induct) (auto simp: without_def split: nat.splits)

lemma length_occs_remove_nth:
  "n < length (occs key fs) \<Longrightarrow> length (occs key (remove_nth key n fs)) = length (occs key fs) - 1"
proof -
  assume "n < length (occs key fs)"
  then obtain pre d post where "fs = pre @ (key, d) # post" "remove_nth key n fs = pre @ post"
    using occ_split by blast
  then show ?thesis by simp
qed

lemma remove_id_loop_holds:
  "field_holds p h fs \<Longrightarrow> 0 < key \<Longrightarrow> length (occs key fs) = n \<Longrightarrow>
     field_holds (remove_id_loop h key n p) h (without key fs)
     \<and> only_moves p h (remove_id_loop h key n p) h"
proof (induction n arbitrary: p fs)
  case 0
  then show ?case by (simp add: without_none)
next
  case (Suc n)
  have i: "0 \<le> int n" "int n < int (length (occs key fs))" using Suc.prems(3) by simp_all
  obtain p' where c: "cut_data h key (int n) p = (Code CASUAL_FIELD_SUCCESS, p')"
    "field_holds p' h (remove_nth key n fs)" "only_moves p h p' h"
    using cut_data_holds [OF Suc.prems(1,2) i] by auto
  have "length (occs key (remove_nth key n fs)) = n"
    using length_occs_remove_nth [of n key fs] Suc.prems(3) by simp
  from Suc.IH [OF c(2) Suc.prems(2) this] c(1,3) show ?case
    using only_moves_trans without_remove_nth by fastforce
qed

lemma remove_id_holds:
  assumes "field_holds p h fs" and "0 < key"
  shows "\<exists>p'. casual_field_remove_id h key p = (Code CASUAL_FIELD_SUCCESS, p')
     \<and> field_holds p' h (without key fs) \<and> only_moves p h p' h"
proof -
  obtain b where b: "pool_get h p = Inr b" "field_rel b fs"
    using field_holds_get [OF assms(1)] by blast
  then have "explore_count h key p = (Code CASUAL_FIELD_SUCCESS, Some (int (length (occs key fs))))"
    by (simp add: explore_count_def field_count_rel)
  then show ?thesis using remove_id_loop_holds [OF assms refl] by (simp add: casual_field_remove_id_def)
qed

end
