(* ===== verification/FieldWalk.thy ===== *)
theory FieldWalk
  imports FieldLaws
begin

text \<open>
  Reading a fielded buffer: iteration with \<open>casual_field_next\<close>, typed reads, and a buffer's
  memory as it travels (\<open>basic_pool::insert\<close> and \<open>casual_field_copy_memory\<close> rebuild the
  index from bytes alone).
\<close>

section \<open>Iteration\<close>

text \<open>A caller's loop: start from \<open>CASUAL_FIELD_NO_ID\<close>, ask for the next until the code is not
  success.\<close>

fun field_walk :: "nat \<Rightarrow> nat \<Rightarrow> int \<times> int \<Rightarrow> field_pool \<Rightarrow> (int \<times> int) list" where
  "field_walk 0 h at p = []"
| "field_walk (Suc n) h at p =
     (case casual_field_next h (Some at) p of
        (r, Some at') \<Rightarrow> if r = Code CASUAL_FIELD_SUCCESS then at' # field_walk n h at' p else []
      | (r, None) \<Rightarrow> [])"

text \<open>Every occurrence of every id, ids ascending.\<close>

definition run_from :: "int \<Rightarrow> int \<Rightarrow> int list \<Rightarrow> (int \<times> int) list" where
  "run_from k i os = map (\<lambda>j. (k, j)) [i..int (length os) - 1]"

definition index_positions :: "(int, int list) omap \<Rightarrow> (int \<times> int) list" where
  "index_positions idx = concat (map (\<lambda>(k, os). run_from k 0 os) idx)"

lemma run_from_step: "i < int (length os) \<Longrightarrow> run_from k i os = (k, i) # run_from k (i + 1) os"
  by (simp add: run_from_def upto_rec1)

lemma run_from_end: "int (length os) \<le> i \<Longrightarrow> run_from k i os = []"
  by (simp add: run_from_def)

lemma omap_next_split:
  assumes "omap_ok (pre @ (k, os) # post)"
  shows "omap_next k (pre @ (k, os) # post) = (case post of [] \<Rightarrow> None | x # _ \<Rightarrow> Some x)"
    and "map_of (pre @ (k, os) # post) k = Some os"
proof -
  have 1: "\<forall>(a, b)\<in>set pre. a < k" and 2: "\<forall>(a, b)\<in>set post. k < a"
    using assms by (auto simp: omap_ok_def sorted_wrt_append)
  have "List.find (\<lambda>(a, _). k < a) (pre @ xs) = List.find (\<lambda>(a, _). k < a) xs" for xs
    using 1 by (induction pre) auto
  then show "omap_next k (pre @ (k, os) # post) = (case post of [] \<Rightarrow> None | x # _ \<Rightarrow> Some x)"
    using 2 by (auto simp: omap_next_def split: list.splits)
  have "map_of pre k = None" using 1 by (auto simp: map_of_eq_None_iff)
  then show "map_of (pre @ (k, os) # post) k = Some os" by (simp add: map_add_def)
qed

lemma field_walk_from:
  assumes b: "pool_get h p = Inr b" and ok: "omap_ok (findex b)" and ne: "\<forall>(k, os)\<in>set (findex b). k \<noteq> 0 \<and> os \<noteq> []"
  shows "findex b = pre @ (k, os) # post \<Longrightarrow> 0 \<le> i \<Longrightarrow> i < int (length os) \<Longrightarrow>
    length (run_from k (i + 1) os @ index_positions post) \<le> n \<Longrightarrow>
    field_walk n h (k, i) p = run_from k (i + 1) os @ index_positions post"
proof (induction n arbitrary: pre k os post i)
  case 0
  then show ?case by simp
next
  case (Suc n)
  have k: "k \<noteq> 0" using ne Suc.prems(1) by auto
  have nx: "omap_next k (findex b) = (case post of [] \<Rightarrow> None | x # _ \<Rightarrow> Some x)"
    and mo: "map_of (findex b) k = Some os"
    using omap_next_split ok Suc.prems(1) by metis+
  show ?case
  proof (cases "i + 1 < int (length os)")
    case True
    then have "casual_field_next h (Some (k, i)) p = (Code CASUAL_FIELD_SUCCESS, Some (k, i + 1))"
      using b k mo Suc.prems(2) by (simp add: casual_field_next_def iterate_next_def Let_def)
    moreover have "field_walk n h (k, i + 1) p = run_from k (i + 1 + 1) os @ index_positions post"
      by (rule Suc.IH [OF Suc.prems(1)]) (use Suc.prems(2,4) True run_from_step [OF True, of k] in auto)
    ultimately show ?thesis using run_from_step [OF True, of k] by simp
  next
    case False
    then have e: "run_from k (i + 1) os = []" by (simp add: run_from_end)
    show ?thesis
    proof (cases post)
      case Nil
      then have "casual_field_next h (Some (k, i)) p = (Code CASUAL_FIELD_OUT_OF_BOUNDS, Some (k, i + 1))"
        using b k mo nx False by (simp add: casual_field_next_def iterate_next_def Let_def)
      then show ?thesis using e Nil by (simp add: index_positions_def)
    next
      case (Cons x post')
      obtain k' os' where x: "x = (k', os')" by force
      have o: "os' \<noteq> []" using ne Suc.prems(1) Cons x by auto
      have st: "run_from k' 0 os' = (k', 0) # run_from k' (0 + 1) os'"
        by (rule run_from_step) (use o in simp)
      have "casual_field_next h (Some (k, i)) p = (Code CASUAL_FIELD_SUCCESS, Some (k', 0))"
        using b k mo nx False Cons x by (simp add: casual_field_next_def iterate_next_def Let_def)
      moreover have "field_walk n h (k', 0) p = run_from k' (0 + 1) os' @ index_positions post'"
        by (rule Suc.IH [of "pre @ [(k, os)]"])
          (use Suc.prems(1,4) Cons x o e st in \<open>auto simp: index_positions_def\<close>)
      ultimately show ?thesis using e Cons x st by (simp add: index_positions_def)
    qed
  qed
qed

lemma field_walk_all:
  assumes b: "pool_get h p = Inr b" and ok: "omap_ok (findex b)" and ne: "\<forall>(k, os)\<in>set (findex b). k \<noteq> 0 \<and> os \<noteq> []"
    and n: "length (index_positions (findex b)) \<le> n"
  shows "field_walk n h (0, j) p = index_positions (findex b)"
proof (cases "findex b")
  case Nil
  then have "casual_field_next h (Some (0, j)) p = (Code CASUAL_FIELD_OUT_OF_BOUNDS, Some (0, j))"
    using b by (simp add: casual_field_next_def iterate_first_def)
  then show ?thesis using Nil by (cases n) (simp_all add: index_positions_def)
next
  case (Cons x post)
  obtain k os where x: "x = (k, os)" by force
  have o: "os \<noteq> []" using ne Cons x by auto
  have st: "run_from k 0 os = (k, 0) # run_from k (0 + 1) os"
    by (rule run_from_step) (use o in simp)
  obtain n' where n': "n = Suc n'" using n Cons x st by (cases n) (simp_all add: index_positions_def)
  have "casual_field_next h (Some (0, j)) p = (Code CASUAL_FIELD_SUCCESS, Some (k, 0))"
    using b Cons x by (simp add: casual_field_next_def iterate_first_def)
  moreover have "field_walk n' h (k, 0) p = run_from k (0 + 1) os @ index_positions post"
    by (rule field_walk_from [OF b ok ne, of "[]"])
      (use Cons x o n n' st in \<open>auto simp: index_positions_def\<close>)
  ultimately show ?thesis using n' Cons x st by (simp add: index_positions_def)
qed

lemma distinct_index_positions: "omap_ok idx \<Longrightarrow> distinct (index_positions idx)"
  by (induction idx) (fastforce simp: index_positions_def run_from_def distinct_map inj_on_def)+

lemma fst_index_positions: "x \<in> set (index_positions idx) \<Longrightarrow> fst x \<in> fst ` set idx"
  by (force simp: index_positions_def run_from_def)

lemma sorted_index_positions: "omap_ok idx \<Longrightarrow> sorted (map fst (index_positions idx))"
proof (induction idx)
  case Nil
  then show ?case by (simp add: index_positions_def)
next
  case (Cons x idx)
  obtain k os where x: "x = (k, os)" by force
  have s: "sorted (map fst (run_from k 0 os))"
    by (simp add: run_from_def comp_def) (simp add: sorted_wrt_iff_nth_less)
  have "\<forall>y\<in>set (index_positions idx). k \<le> fst y"
  proof
    fix y assume "y \<in> set (index_positions idx)"
    then have "fst y \<in> fst ` set idx" by (rule fst_index_positions)
    then show "k \<le> fst y" using Cons.prems x by (auto dest: bspec intro: less_imp_le)
  qed
  moreover have "index_positions (x # idx) = run_from k 0 os @ index_positions idx"
    using x by (simp add: index_positions_def)
  moreover have "\<forall>y\<in>set (run_from k 0 os). fst y = k" by (auto simp: run_from_def)
  ultimately show ?case using Cons x s by (auto simp: sorted_append)
qed

lemma set_index_positions:
  assumes "index_matches idx fs"
  shows "set (index_positions idx) = {(k, i). 0 \<le> i \<and> i < int (length (occs k fs))}"
proof -
  have ok: "omap_ok idx" using assms by (simp add: index_matches_def)
  then have d: "distinct (map fst idx)" by (simp add: omap_ok_def strict_sorted_iff)
  have m: "(k, os) \<in> set idx \<longleftrightarrow> occs k fs \<noteq> [] \<and> os = occ_from 0 k fs" for k os
  proof -
    have "map_of idx k = (if occs k fs = [] then None else Some (occ_from 0 k fs))"
      using assms by (simp add: index_matches_def occ_from_Nil_iff)
    then show ?thesis using map_of_eq_Some_iff [OF d, of k os] by (cases "occs k fs = []") auto
  qed
  have "(k, i) \<in> set (index_positions idx) \<longleftrightarrow> (\<exists>os. (k, os) \<in> set idx \<and> 0 \<le> i \<and> i < int (length os))" for k i
    by (force simp: index_positions_def run_from_def)
  then show ?thesis unfolding m by auto
qed

lemma index_matches_nonempty:
  assumes "index_matches idx fs" and "\<forall>(k, d)\<in>set fs. k \<noteq> 0"
  shows "\<forall>(k, os)\<in>set idx. k \<noteq> 0 \<and> os \<noteq> []"
proof -
  have d: "distinct (map fst idx)" using assms by (simp add: index_matches_def omap_ok_def strict_sorted_iff)
  show ?thesis
  proof clarify
    fix k os assume "(k, os) \<in> set idx"
    then have "map_of idx k = Some os" using d by simp
    moreover have "map_of idx k = (if occs k fs = [] then None else Some (occ_from 0 k fs))"
      using assms(1) by (simp add: index_matches_def occ_from_Nil_iff)
    ultimately have "os = occ_from 0 k fs" "occs k fs \<noteq> []" by (cases "occs k fs = []"; simp)+
    then show "k \<noteq> 0 \<and> os \<noteq> []"
      using assms(2) by (auto simp: occs_def occ_from_Nil_iff filter_empty_conv)
  qed
qed

lemma card_occurrences:
  "finite {(k, i). 0 \<le> i \<and> i < int (length (occs k fs))}
     \<and> card {(k, i). 0 \<le> i \<and> i < int (length (occs k fs))} = length fs"
proof (induction fs rule: rev_induct)
  case Nil
  have "{(k, i). 0 \<le> i \<and> i < int (length (occs k []))} = {}" by auto
  then show ?case by (simp only: card.empty finite.emptyI list.size)
next
  case (snoc f fs)
  obtain k d where f: "f = (k, d)" by force
  have "{(k, i). 0 \<le> i \<and> i < int (length (occs k (fs @ [f])))}
      = insert (k, int (length (occs k fs))) {(k, i). 0 \<le> i \<and> i < int (length (occs k fs))}"
    using f by (auto split: if_splits)
  then show ?case using snoc by simp
qed

lemma length_index_positions:
  assumes "index_matches idx fs"
  shows "length (index_positions idx) = length fs"
proof -
  have "length (index_positions idx) = card (set (index_positions idx))"
    using assms by (simp add: distinct_card distinct_index_positions index_matches_def)
  then show ?thesis using card_occurrences [of fs] unfolding set_index_positions [OF assms] by simp
qed

lemma field_count_all_positions: "field_count_all b = int (length (index_positions (findex b)))"
proof -
  have "fold (\<lambda>(_, os) n. n + int (length os)) idx n = n + int (length (index_positions idx))" for idx n
    by (induction idx arbitrary: n) (auto simp: index_positions_def run_from_def)
  then show ?thesis by (simp add: field_count_all_def)
qed

section \<open>Typed reads\<close>

lemma get_prefix:
  "get_short (take 2 m) = get_short m" "get_long (take 8 m) = get_long m"
  "get_char (take 1 m) = get_char m" "get_char (take (Suc 0) m) = get_char m" "get_float (take 4 m) = get_float m"
  "get_double (take 8 m) = get_double m"
  by (simp_all add: get_defs)

lemma field_get_data_value:
  assumes "field_holds p h fs" and "type = field_type key" and "0 \<le> i" "i < int (length (occs key fs))"
    and w: "\<And>m. get (take w m) = get m" and len: "w \<le> length (occs key fs ! nat i)"
  shows "field_get_data h key i type (field_select_value get) p
     = (Code CASUAL_FIELD_SUCCESS, Some (get (occs key fs ! nat i)))"
proof -
  obtain b where b: "pool_get h p = Inr b" "field_rel b fs" using field_holds_get [OF assms(1)] by blast
  let ?d = "occs key fs ! nat i"
  obtain pos where pos: "field_select_value get b key i = Inr (get (drop (nat pos) (vmem (bvec b))))"
    "take (length ?d) (drop (nat pos) (vmem (bvec b))) = ?d"
    using field_select_rel [OF b(2) assms(3,4)] by blast
  have "take w (take (length ?d) (drop (nat pos) (vmem (bvec b)))) = take w (drop (nat pos) (vmem (bvec b)))"
    using len by (simp add: min_absorb1)
  then have "get (drop (nat pos) (vmem (bvec b))) = get ?d"
    unfolding pos(2) using w [of "drop (nat pos) (vmem (bvec b))"] w [of ?d] by simp
  then show ?thesis using b(1) pos(1) assms(2) by (simp add: field_get_data_def)
qed

lemma field_offset_outside:
  assumes "field_rel b fs" and "\<not> (0 \<le> i \<and> i < int (length (occs key fs)))"
  shows "field_offset (findex b) key i = Inl Std_out_of_range"
  using field_offset_rel [OF assms(1), of key i] assms(2) by auto

section \<open>Memory that travels\<close>

lemma field_insert_holds:
  assumes ok: "pool_ok p" and pos: "0 < pnext p" and fit: "fields_fit fs"
  shows "\<exists>h p'. field_insert type (flatten fs) p = Some (Inr (h, p'))
     \<and> field_holds p' h fs \<and> pool_find h p = None
     \<and> (\<forall>g. g \<noteq> h \<longrightarrow> pool_find g p' = pool_find g p)"
proof -
  obtain idx where idx: "index_matches idx fs" using index_matches_exists [OF fit] by blast
  obtain v n where v: "vec_of (pnext p) (flatten fs) = (v, n)" by force
  define r where "r = (if vbase v = 0 then vec_reserve n 1 v else (v, n))"
  have vn: "vmem v = flatten fs" "vec_ok n v" "pnext p \<le> n" "vbase v = 0 \<or> pnext p \<le> vbase v"
    using v pos by (auto simp: vec_of_def vec_block_def vec_ok_def split: if_splits)
  have r: "vmem (fst r) = flatten fs" "vec_ok (snd r) (fst r)" "pnext p \<le> snd r" "pnext p \<le> vbase (fst r)"
    using vn by (auto simp: r_def vec_reserve_def vec_block_def vec_ok_def)
  let ?b = "mk_field idx \<lparr>btype = type, bvec = fst r\<rparr>"
  have b: "bvec ?b = fst r" "findex ?b = idx" "handle_of ?b = vbase (fst r)"
    by (simp_all add: mk_field_def handle_of_def buffer.defs)
  have res: "field_insert type (flatten fs) p = Some (Inr (pool_emplace ?b (snd r) p))"
    using field_index_flatten [OF fit idx] v
    by (simp add: field_insert_def pool_insert_def r_def case_prod_unfold Let_def)
  have rel: "field_rel ?b fs" using b r(1) fit idx by (simp add: field_rel_def)
  have pr: "pnext p \<le> handle_of ?b" "vec_ok (snd r) (bvec ?b)" using b r by simp_all
  have none: "pool_find (handle_of ?b) p = None"
  proof (rule ccontr)
    assume "pool_find (handle_of ?b) p \<noteq> None"
    then obtain x where x: "pool_find (handle_of ?b) p = Some x" by blast
    from pool_ok_found [OF ok this] have "vbase (bvec x) < pnext p"
      using pos by (auto simp: vec_ok_def)
    moreover have "vbase (bvec x) = handle_of ?b" using pool_ok_found [OF ok x] by simp
    ultimately show False using pr(1) by simp
  qed
  note em = pool_emplace_ok [OF ok pr(1) pr(2) r(3) pos]
  have "field_holds (snd (pool_emplace ?b (snd r) p)) (fst (pool_emplace ?b (snd r) p)) fs"
    using em rel by (simp add: field_holds_def pool_emplace_def)
  moreover have "fst (pool_emplace ?b (snd r) p) = handle_of ?b" by (simp add: pool_emplace_def)
  ultimately show ?thesis using res em(2) none by (cases "pool_emplace ?b (snd r) p") auto
qed

lemma copy_buffer_holds:
  assumes t: "field_holds p target ts" and s: "field_holds p source fs"
  shows "\<exists>h' p'. casual_field_copy_buffer target source p = (Code CASUAL_FIELD_SUCCESS, h', p')
     \<and> field_holds p' h' fs \<and> only_moves p target p' h'"
proof -
  obtain b where b: "pool_get target p = Inr b" "pool_find target p = Some b" "pool_ok p"
    using field_holds_get [OF t] by blast
  obtain c where c: "pool_get source p = Inr c" "field_rel c fs"
    using field_holds_get [OF s] by blast
  obtain v n where v: "vec_assign (pnext p) (vmem (bvec c)) (bvec b) = (v, n)" by force
  have fnd: "vec_ok (pnext p) (bvec b)" "vbase (bvec b) = target" "target \<noteq> 0"
    using pool_ok_found [OF b(3,2)] by auto
  have st: "vec_step (pnext p) (bvec b) (v, n)"
    using vec_step_assign [OF fnd(1), of "vmem (bvec c)"] v by simp
  have nz: "vbase v \<noteq> 0" using v fnd by (auto simp: vec_assign_def vec_of_def vec_block_def vec_ok_def split: if_splits)
  have vm: "vmem v = vmem (bvec c)" using v vmem_vec_assign [of "pnext p" "vmem (bvec c)" "bvec b"] by simp
  let ?b = "b\<lparr>bvec := v, findex := findex c\<rparr>"
  have "field_rel ?b fs" using c(2) vm by (simp add: field_rel_def)
  then have "field_holds (pool_update target ?b n p) (handle_of ?b) fs
     \<and> only_moves p target (pool_update target ?b n p) (handle_of ?b)"
    by (intro field_pool_step [OF b(3,2)]) (use st nz in auto)
  then show ?thesis using b(1) c(1) v by (simp add: casual_field_copy_buffer_def Let_def)
qed

lemma copy_memory_holds:
  assumes t: "field_holds p h ts" and fit: "fields_fit fs" and ne: "fs \<noteq> []"
  shows "\<exists>h' p'. casual_field_copy_memory h (flatten fs @ rest) (flen fs) p
       = Some (Code CASUAL_FIELD_SUCCESS, h', p')
     \<and> field_holds p' h' fs \<and> only_moves p h p' h'"
proof -
  obtain b where b: "pool_get h p = Inr b" "pool_find h p = Some b" "pool_ok p"
    using field_holds_get [OF t] by blast
  obtain idx where idx: "index_matches idx fs" using index_matches_exists [OF fit] by blast
  obtain v n where v: "vec_of (pnext p) (flatten fs) = (v, n)" by force
  have next0: "0 < pnext p" using pool_ok_found [OF b(3,2)] by (auto simp: vec_ok_def)
  have st: "vec_step (pnext p) (bvec b) (v, n)" using vec_step_of [OF next0] v by metis
  have "0 < length (flatten fs)" using ne by (cases fs rule: flatten.cases) simp_all
  then have nz: "vbase v \<noteq> 0" using v next0 by (auto simp: vec_of_def vec_block_def split: if_splits)
  have vm: "vmem v = flatten fs" using v vmem_vec_of [of "pnext p" "flatten fs"] by simp
  let ?b = "b\<lparr>bvec := v, findex := idx\<rparr>"
  have "field_rel ?b fs" using vm fit idx by (simp add: field_rel_def)
  then have "field_holds (pool_update h ?b n p) (handle_of ?b) fs
     \<and> only_moves p h (pool_update h ?b n p) (handle_of ?b)"
    by (intro field_pool_step [OF b(3,2)]) (use st nz in auto)
  then show ?thesis using b(1) v vm field_index_flatten [OF fit idx]
    by (simp add: casual_field_copy_memory_def Let_def)
qed

end
