(* ===== verification/FieldNames.thy ===== *)
theory FieldNames
  imports FieldApi
begin

text \<open>
  \<open>buffer/source/field.cpp\<close>, the tables of field names: the type names, the groups read from
  the files of \<open>CASUAL_FIELD_TABLE\<close>, the maps between names and ids built from them, and the
  C functions that look names and ids up. The files are read by the serialization library:
  what it delivers, or that it raises, is an argument.
\<close>

record model_field =
  mf_id :: int
  mf_name :: string
  mf_type :: string

record model_group =
  mg_base :: int
  mg_fields :: "model_field list"

definition name_to_type :: "string \<rightharpoonup> int" where
  "name_to_type = map_of
     [(''short'', CASUAL_FIELD_SHORT), (''long'', CASUAL_FIELD_LONG), (''char'', CASUAL_FIELD_CHAR),
      (''float'', CASUAL_FIELD_FLOAT), (''double'', CASUAL_FIELD_DOUBLE),
      (''string'', CASUAL_FIELD_STRING), (''binary'', CASUAL_FIELD_BINARY)]"

definition type_to_name :: "int \<rightharpoonup> string" where
  "type_to_name = map_of
     [(CASUAL_FIELD_SHORT, ''short''), (CASUAL_FIELD_LONG, ''long''), (CASUAL_FIELD_CHAR, ''char''),
      (CASUAL_FIELD_FLOAT, ''float''), (CASUAL_FIELD_DOUBLE, ''double''),
      (CASUAL_FIELD_STRING, ''string''), (CASUAL_FIELD_BINARY, ''binary'')]"

text \<open>\<open>fetch::fields\<close>: the id of a field holds its type, its group's base and its own id. A
  field of an unknown type or without a positive id is dropped.\<close>

definition fetch_field :: "int \<Rightarrow> model_field \<Rightarrow> model_field list" where
  "fetch_field base f =
     (case name_to_type (mf_type f) of
        None \<Rightarrow> []
      | Some t \<Rightarrow>
          let key = t * CASUAL_FIELD_TYPE_BASE + base + mf_id f
          in if key > CASUAL_FIELD_NO_ID then [f\<lparr>mf_id := key\<rparr>] else [])"

definition fetch_fields :: "model_group list \<Rightarrow> model_field list" where
  "fetch_fields groups = concat (map (\<lambda>g. concat (map (fetch_field (mg_base g)) (mg_fields g))) groups)"

text \<open>The first field of a name, or of an id, wins. When the files cannot be read (\<open>None\<close>)
  the exception is logged and the map stays empty.\<close>

definition name_to_id :: "model_group list option \<Rightarrow> (string \<rightharpoonup> int)" where
  "name_to_id groups =
     (case groups of
        None \<Rightarrow> Map.empty
      | Some gs \<Rightarrow> fold (\<lambda>f m. fst (emplace (mf_name f) (mf_id f) m)) (fetch_fields gs) Map.empty)"

definition id_to_name :: "model_group list option \<Rightarrow> (int \<rightharpoonup> string)" where
  "id_to_name groups =
     (case groups of
        None \<Rightarrow> Map.empty
      | Some gs \<Rightarrow> fold (\<lambda>f m. fst (emplace (mf_id f) (mf_name f) m)) (fetch_fields gs) Map.empty)"

text \<open>The C functions; \<open>None\<close> for a null name. Only \<open>casual_field_id_of_name\<close> checks it.\<close>

definition casual_field_name_of_id :: "model_group list option \<Rightarrow> int \<Rightarrow> status \<times> string option" where
  "casual_field_name_of_id groups key =
     (case id_to_name groups key of
        None \<Rightarrow> (field_error Std_out_of_range, None)
      | Some name \<Rightarrow> (Code CASUAL_FIELD_SUCCESS, Some name))"

definition casual_field_id_of_name ::
    "model_group list option \<Rightarrow> string option \<Rightarrow> status \<times> int option" where
  "casual_field_id_of_name groups name =
     (case name of
        None \<Rightarrow> (Code CASUAL_FIELD_INVALID_ARGUMENT, None)
      | Some s \<Rightarrow>
          (case name_to_id groups s of
             None \<Rightarrow> (field_error Std_out_of_range, None)
           | Some key \<Rightarrow> (Code CASUAL_FIELD_SUCCESS, Some key)))"

definition casual_field_type_of_id :: "int \<Rightarrow> status \<times> int option" where
  "casual_field_type_of_id key =
     (let result = narrow_int (field_type key)
      in if result \<in> {CASUAL_FIELD_SHORT, CASUAL_FIELD_LONG, CASUAL_FIELD_CHAR, CASUAL_FIELD_FLOAT,
                      CASUAL_FIELD_DOUBLE, CASUAL_FIELD_STRING, CASUAL_FIELD_BINARY}
         then (Code CASUAL_FIELD_SUCCESS, Some result)
         else (Code CASUAL_FIELD_INVALID_ARGUMENT, None))"

definition casual_field_name_of_type :: "int \<Rightarrow> status \<times> string option" where
  "casual_field_name_of_type type =
     (case type_to_name type of
        None \<Rightarrow> (field_error Std_out_of_range, None)
      | Some name \<Rightarrow> (Code CASUAL_FIELD_SUCCESS, Some name))"

definition casual_field_type_of_name :: "string option \<Rightarrow> status \<times> int option" where
  "casual_field_type_of_name name =
     (case name of
        None \<Rightarrow> (Undefined, None)
      | Some s \<Rightarrow>
          (case name_to_type s of
             None \<Rightarrow> (field_error Std_out_of_range, None)
           | Some type \<Rightarrow> (Code CASUAL_FIELD_SUCCESS, Some type)))"

section \<open>Lemmas\<close>

lemma fold_emplace:
  "fold (\<lambda>f m. fst (emplace (k f) (v f) m)) fs m x =
     (case m x of Some y \<Rightarrow> Some y | None \<Rightarrow> map_option v (List.find (\<lambda>f. k f = x) fs))"
  by (induction fs arbitrary: m) (auto simp: emplace_def split: option.splits)

lemma find_distinct: "distinct (map k fs) \<Longrightarrow> f \<in> set fs \<Longrightarrow> List.find (\<lambda>g. k g = k f) fs = Some f"
  by (induction fs) auto

lemma name_to_id_find:
  "name_to_id (Some gs) s = map_option mf_id (List.find (\<lambda>f. mf_name f = s) (fetch_fields gs))"
  by (simp add: name_to_id_def fold_emplace)

lemma id_to_name_find:
  "id_to_name (Some gs) key = map_option mf_name (List.find (\<lambda>f. mf_id f = key) (fetch_fields gs))"
  by (simp add: id_to_name_def fold_emplace)

lemma name_to_type_range: "name_to_type s = Some t \<Longrightarrow> 1 \<le> t \<and> t \<le> 7 \<and> type_to_name t = Some s"
  by (auto simp: name_to_type_def type_to_name_def split: if_splits)

lemma type_to_name_type: "type_to_name t = Some s \<Longrightarrow> name_to_type s = Some t"
  by (auto simp: name_to_type_def type_to_name_def split: if_splits)

lemma field_type_of_parts:
  "1 \<le> t \<Longrightarrow> 0 \<le> r \<Longrightarrow> r < 0x2000000 \<Longrightarrow> field_type (t * 0x2000000 + r) = t"
  by (simp add: field_type_def cdiv_def)

lemma narrow_int_small: "0 \<le> v \<Longrightarrow> v < 2 ^ 31 \<Longrightarrow> narrow_int v = v"
  by (simp add: narrow_int_def is_int_def sint_word_of_int_fits)

lemma type_of_id_parts:
  "1 \<le> t \<Longrightarrow> t \<le> 7 \<Longrightarrow> 0 \<le> r \<Longrightarrow> r < 0x2000000 \<Longrightarrow>
     casual_field_type_of_id (t * 0x2000000 + r) = (Code CASUAL_FIELD_SUCCESS, Some t)"
  by (auto simp: casual_field_type_of_id_def field_type_of_parts narrow_int_small Let_def)

end
