(* ===== verification/FieldProperties.thy ===== *)
theory FieldProperties
  imports FieldWalk FieldNames
begin

text \<open>
  The properties of the fielded buffer: each function against the list of fields, the round
  trip of a typed value, the walk over all occurrences, memory that travels, and the tables
  of names.
\<close>

section \<open>A pool to start from\<close>

text \<open>One empty buffer of 16 bytes; its handle is 2.\<close>

definition field_start :: field_pool where
  "field_start = snd (field_allocate ''CFIELD/'' 16 \<lparr>pbufs = [], pnext = 1\<rparr>)"

lemma field_start_eq:
  "field_start = \<lparr>pbufs = [mk_field [] \<lparr>btype = ''CFIELD/'', bvec = \<lparr>vbase = 2, vcap = 16, vmem = []\<rparr>\<rparr>], pnext = 18\<rparr>"
  by (simp add: field_start_def field_allocate_def payload_vec_def pool_emplace_def vec_of_def
      vec_reserve_def vec_block_def numeral_2_eq_2)

lemma field_start_holds: "field_holds field_start 2 []"
  by (simp add: field_start_eq field_holds_def pool_ok_def vec_ok_def handle_of_def mk_field_def
      buffer.defs pool_find_def field_rel_def index_matches_Nil)

lemma typed_id_example: "typed_id (2 * 0x2000000 + 1)" "typed_id (6 * 0x2000000 + 1)"
  by (simp_all add: typed_id_def is_long_def field_type_def cdiv_def)

section \<open>Typed values there and back\<close>

text \<open>The bytes in the caller's memory that a typed value consists of.\<close>

definition host_value :: "int \<Rightarrow> bytes \<Rightarrow> int \<Rightarrow> bytes" where
  "host_value key m count =
     (case plain_type_host_size (field_type key) of
        Some n \<Rightarrow> take (nat n) m
      | None \<Rightarrow> if field_type key = CASUAL_FIELD_STRING then c_string m else take (nat count) m)"

definition whole_value :: "int \<Rightarrow> bytes \<Rightarrow> int \<Rightarrow> bool" where
  "whole_value key m count \<longleftrightarrow> fits_value m count \<and>
     (case plain_type_host_size (field_type key) of
        Some n \<Rightarrow> nat n \<le> length m
      | None \<Rightarrow> field_type key = CASUAL_FIELD_STRING \<or> nat count \<le> length m)"

lemma is_short_sint: "is_short (sint (w :: 16 word))"
  using sint_range_size [of w] by (simp add: is_short_def word_size)

lemma is_long_sint: "is_long (sint (w :: 64 word))"
  using sint_range_size [of w] by (simp add: is_long_def word_size)

lemma occs_snoc_nth: "occs key (fs @ [(key, d)]) ! nat (int (length (occs key fs))) = d"
  by (simp add: nth_append)

lemma get_value_plain:
  assumes h: "field_holds p h fs" and i: "0 \<le> i" "i < int (length (occs key fs))"
    and d: "occs key fs ! nat i = put v" and g: "\<And>m. get (take w m) = get m" and r: "get (put v) = v"
    and w: "length (put v) = w" and t: "type = field_type key"
  shows "field_get_data h key i type (field_select_value get) p = (Code CASUAL_FIELD_SUCCESS, Some v)"
  using field_get_data_value [OF h t i, of get w] g d r w by simp

lemma get_value_span:
  assumes h: "field_holds p h fs" and i: "0 \<le> i" "i < int (length (occs key fs))"
  shows "\<exists>pos b. pool_get h p = Inr b
     \<and> field_get_data h key i (field_type key) field_select_data p
         = (Code CASUAL_FIELD_SUCCESS, Some (pos, int (length (occs key fs ! nat i))))
     \<and> take (length (occs key fs ! nat i)) (drop (nat pos) (vmem (bvec b))) = occs key fs ! nat i"
proof -
  obtain b where b: "pool_get h p = Inr b" "field_rel b fs" using field_holds_get [OF h] by blast
  show ?thesis using field_select_rel [OF b(2) i] b(1) by (auto simp: field_get_data_def)
qed

lemma get_value_stored:
  assumes h: "field_holds p h fs" and i: "0 \<le> i" "i < int (length (occs key fs))"
    and d: "occs key fs ! nat i = value_bytes key m count" and k: "typed_id key"
    and v: "whole_value key m count" and room: "int (length (host_value key m count)) \<le> room"
  shows "casual_field_get_value h key i True (Some room) p
     = (Code CASUAL_FIELD_SUCCESS, Some (host_value key m count), Some (int (length (host_value key m count))))"
  using k
proof (rule typed_id_cases)
  assume t: "field_type key = 1"
  have "casual_field_get_short h key i p = (Code CASUAL_FIELD_SUCCESS, Some (host_short m))"
    unfolding casual_field_get_short_def
    by (rule get_value_plain [OF h i, where put = put_short and w = 2])
      (use t d in \<open>simp_all add: value_bytes_def get_prefix t_short.get_put_end host_short_def is_short_sint\<close>)
  then show ?thesis using t v room
    by (simp add: casual_field_get_value_def narrow_int_small casual_field_plain_type_host_size_def
        plain_type_host_size_def host_value_def whole_value_def host_result_def host_short_def
        host_bytes_host_word Let_def)
next
  assume t: "field_type key = 2"
  have "casual_field_get_long h key i p = (Code CASUAL_FIELD_SUCCESS, Some (host_long m))"
    unfolding casual_field_get_long_def
    by (rule get_value_plain [OF h i, where put = put_long and w = 8])
      (use t d in \<open>simp_all add: value_bytes_def get_prefix t_long.get_put_end host_long_def is_long_sint\<close>)
  then show ?thesis using t v room
    by (simp add: casual_field_get_value_def narrow_int_small casual_field_plain_type_host_size_def
        plain_type_host_size_def host_value_def whole_value_def host_result_def host_long_def
        host_bytes_host_word Let_def)
next
  assume t: "field_type key = 3"
  have "casual_field_get_char h key i p = (Code CASUAL_FIELD_SUCCESS, Some (host_char m))"
    unfolding casual_field_get_char_def
    by (rule get_value_plain [OF h i, where put = put_char and w = 1])
      (use t d in \<open>simp_all add: value_bytes_def get_prefix t_char.get_put_end\<close>)
  then show ?thesis using t v room
    by (simp add: casual_field_get_value_def narrow_int_small casual_field_plain_type_host_size_def
        plain_type_host_size_def host_value_def whole_value_def host_result_def host_char_def
        host_bytes_host_word Let_def)
next
  assume t: "field_type key = 4"
  have "casual_field_get_float h key i p = (Code CASUAL_FIELD_SUCCESS, Some (host_float m))"
    unfolding casual_field_get_float_def
    by (rule get_value_plain [OF h i, where put = put_float and w = 4])
      (use t d in \<open>simp_all add: value_bytes_def get_prefix t_float.get_put_end\<close>)
  then show ?thesis using t v room
    by (simp add: casual_field_get_value_def narrow_int_small casual_field_plain_type_host_size_def
        plain_type_host_size_def host_value_def whole_value_def host_result_def host_float_def
        host_bytes_host_word Let_def)
next
  assume t: "field_type key = 5"
  have "casual_field_get_double h key i p = (Code CASUAL_FIELD_SUCCESS, Some (host_double m))"
    unfolding casual_field_get_double_def
    by (rule get_value_plain [OF h i, where put = put_double and w = 8])
      (use t d in \<open>simp_all add: value_bytes_def get_prefix t_double.get_put_end\<close>)
  then show ?thesis using t v room
    by (simp add: casual_field_get_value_def narrow_int_small casual_field_plain_type_host_size_def
        plain_type_host_size_def host_value_def whole_value_def host_result_def host_double_def
        host_bytes_host_word Let_def)
next
  assume t: "field_type key = 6"
  then have e: "host_value key m count = occs key fs ! nat i" using d
    by (simp add: host_value_def plain_type_host_size_def value_bytes_def)
  show ?thesis using get_value_span [OF h i] t room unfolding e
    by (auto simp: casual_field_get_value_def narrow_int_small Let_def)
next
  assume t: "field_type key = 7"
  then have e: "host_value key m count = occs key fs ! nat i" using d
    by (simp add: host_value_def plain_type_host_size_def value_bytes_def)
  show ?thesis using get_value_span [OF h i] t room unfolding e
    by (auto simp: casual_field_get_value_def narrow_int_small Let_def)
qed

section \<open>Properties\<close>

text \<open>
  C30. A value added with \<open>casual_field_add_value\<close> comes back unchanged: the call succeeds, and
  \<open>casual_field_get_value\<close> at the next free index returns exactly the bytes the caller passed,
  for each of the seven types, and their number.
\<close>

theorem field_add_get_value:
  assumes "field_holds p h fs" and "typed_id key" and "whole_value key m count"
    and "int (length (host_value key m count)) \<le> room"
  shows "\<exists>h' p'. casual_field_add_value h key (Some m) count p = (Code CASUAL_FIELD_SUCCESS, h', p')
     \<and> casual_field_get_value h' key (int (length (occs key fs))) True (Some room) p'
         = (Code CASUAL_FIELD_SUCCESS, Some (host_value key m count),
            Some (int (length (host_value key m count))))"
proof -
  have "fits_value m count" using assms(3) by (simp add: whole_value_def)
  from add_value_holds [OF assms(1,2) this] obtain h' p' where
    add: "casual_field_add_value h key (Some m) count p = (Code CASUAL_FIELD_SUCCESS, h', p')"
    and holds: "field_holds p' h' (fs @ [(key, value_bytes key m count)])" by blast
  then show ?thesis using get_value_stored [OF holds _ _ occs_snoc_nth assms(2-4)] by simp
qed

theorem field_add_get_value_witness:
  "\<exists>h' p'. casual_field_add_value 2 (2 * 0x2000000 + 1) (Some [1, 2, 3, 4, 5, 6, 7, 8]) 0 field_start
       = (Code CASUAL_FIELD_SUCCESS, h', p')
     \<and> casual_field_get_value h' (2 * 0x2000000 + 1) 0 True (Some 8) p'
         = (Code CASUAL_FIELD_SUCCESS, Some [1, 2, 3, 4, 5, 6, 7, 8], Some 8)"
proof -
  have w: "whole_value (2 * 0x2000000 + 1) [1, 2, 3, 4, 5, 6, 7, 8] 0"
    and v: "host_value (2 * 0x2000000 + 1) [1, 2, 3, 4, 5, 6, 7, 8] 0 = [1, 2, 3, 4, 5, 6, 7, 8]"
    by (simp_all add: whole_value_def host_value_def fits_value_def field_type_def cdiv_def
        plain_type_host_size_def is_long_def)
  show ?thesis
    using field_add_get_value [OF field_start_holds typed_id_example(1) w, of 8] v by simp
qed

text \<open>
  C37. Adding appends: \<open>casual_field_add_value\<close> of a typed id succeeds, the buffer's fields are
  the old ones and then the new one with its bytes in network order, the index is rebuilt
  to match, the pool stays well formed and every other buffer keeps its content.
\<close>

theorem field_add_value_appends:
  assumes "field_holds p h fs" and "typed_id key" and "fits_value m count"
  shows "\<exists>h' p'. casual_field_add_value h key (Some m) count p = (Code CASUAL_FIELD_SUCCESS, h', p')
     \<and> field_holds p' h' (fs @ [(key, value_bytes key m count)]) \<and> only_moves p h p' h'"
  by (rule add_value_holds [OF assms])

theorem field_add_value_appends_witness:
  "\<exists>h' p'. casual_field_add_value 2 (6 * 0x2000000 + 1) (Some [104, 105, 0, 7]) 0 field_start
       = (Code CASUAL_FIELD_SUCCESS, h', p')
     \<and> field_holds p' h' [(6 * 0x2000000 + 1, [104, 105, 0])] \<and> only_moves field_start 2 p' h'"
proof -
  have w: "fits_value [104, 105, 0, 7] 0" by (simp add: fits_value_def is_long_def)
  have v: "value_bytes (6 * 0x2000000 + 1) [104, 105, 0, 7] 0 = [104, 105, 0]"
    by (simp add: value_bytes_def field_type_def cdiv_def c_string_def)
  show ?thesis using field_add_value_appends [OF field_start_holds typed_id_example(2) w] v by simp
qed

text \<open>
  C31. Setting replaces exactly one occurrence: \<open>casual_field_set_value\<close> changes the data of the
  occurrence asked for, whatever its old and new size, and nothing else; at an index
  without an occurrence it fails with \<open>CASUAL_FIELD_OUT_OF_BOUNDS\<close> and changes nothing.
\<close>

theorem field_set_value_replaces:
  assumes "field_holds p h fs" and "typed_id key" and "fits_value m count"
  shows "if 0 \<le> i \<and> i < int (length (occs key fs))
     then \<exists>h' p'. casual_field_set_value h key i (Some m) count p = (Code CASUAL_FIELD_SUCCESS, h', p')
            \<and> field_holds p' h' (update_nth key (nat i) (value_bytes key m count) fs)
            \<and> only_moves p h p' h'
     else casual_field_set_value h key i (Some m) count p = (Code CASUAL_FIELD_OUT_OF_BOUNDS, h, p)"
  unfolding set_value_data [OF assms(2,3)]
  using field_set_data_holds [OF assms(1) refl _ _ is_long_value_bytes [OF assms(3)]]
    field_set_data_bounds [OF assms(1) refl] by auto

theorem field_set_value_replaces_witness:
  "casual_field_set_value 2 (2 * 0x2000000 + 1) 0 (Some [1, 2, 3, 4, 5, 6, 7, 8]) 0 field_start
     = (Code CASUAL_FIELD_OUT_OF_BOUNDS, 2, field_start)"
proof -
  have w: "fits_value [1, 2, 3, 4, 5, 6, 7, 8] 0" by (simp add: fits_value_def is_long_def)
  show ?thesis using field_set_value_replaces [OF field_start_holds typed_id_example(1) w, of 0] by simp
qed

text \<open>
  \<open>casual_field_put_value\<close>, which calls itself after each occurrence it adds, always
  returns, and with success: the id has empty occurrences up to the index and the value at
  the index; a negative index appends.
\<close>

theorem field_put_value_returns:
  assumes "field_holds p h fs" and "typed_id key" and "fits_value m count"
  shows "\<exists>h' p'. casual_field_put_value h key i (Some m) count p = Some (Code CASUAL_FIELD_SUCCESS, h', p')
     \<and> field_holds p' h' (put_field key i (value_bytes key m count) fs) \<and> only_moves p h p' h'"
  by (rule put_value_holds [OF assms])

theorem field_put_value_returns_witness:
  "\<exists>h' p'. casual_field_put_value 2 (6 * 0x2000000 + 1) 2 (Some [104, 105, 0]) 0 field_start
       = Some (Code CASUAL_FIELD_SUCCESS, h', p')
     \<and> field_holds p' h' [(6 * 0x2000000 + 1, [0]), (6 * 0x2000000 + 1, [0]), (6 * 0x2000000 + 1, [104, 105, 0])]"
proof -
  have w: "fits_value [104, 105, 0] 0" by (simp add: fits_value_def is_long_def)
  have v: "value_bytes (6 * 0x2000000 + 1) [104, 105, 0] 0 = [104, 105, 0]"
    "empty_bytes (6 * 0x2000000 + 1) = [0]"
    by (simp_all add: value_bytes_def empty_bytes_def field_type_def cdiv_def c_string_def)
  show ?thesis
    using field_put_value_returns [OF field_start_holds typed_id_example(2) w, of 2] v
    by (auto simp: put_field_def numeral_3_eq_3 numeral_2_eq_2)
qed

text \<open>
  C38. Removing: \<open>casual_field_remove_occurrence\<close> takes away exactly the occurrence asked for
  and renumbers the later ones, and \<open>casual_field_remove_id\<close> all occurrences of the id and no
  other; the handle does not move.
\<close>

theorem field_remove_exactly:
  assumes "field_holds p h fs" and "0 < key" and "0 \<le> i" and "i < int (length (occs key fs))"
  shows "(\<exists>p'. casual_field_remove_occurrence h key i p = (Code CASUAL_FIELD_SUCCESS, p')
             \<and> field_holds p' h (remove_nth key (nat i) fs) \<and> only_moves p h p' h)
     \<and> (\<exists>p'. casual_field_remove_id h key p = (Code CASUAL_FIELD_SUCCESS, p')
             \<and> field_holds p' h (without key fs) \<and> only_moves p h p' h)"
  using cut_data_holds [OF assms] remove_id_holds [OF assms(1,2)]
  by (simp add: casual_field_remove_occurrence_def)

theorem field_remove_exactly_witness:
  "\<exists>h p. field_holds p h [(6 * 0x2000000 + 1, [0]), (9, [1]), (6 * 0x2000000 + 1, [5, 0])]
     \<and> (\<exists>p'. casual_field_remove_id h (6 * 0x2000000 + 1) p = (Code CASUAL_FIELD_SUCCESS, p')
            \<and> field_holds p' h [(9, [1])])"
proof -
  let ?fs = "[(6 * 0x2000000 + 1, [0]), (9, [1]), (6 * 0x2000000 + 1, [5, 0])] :: fields"
  have fit: "fields_fit ?fs" by (simp add: is_long_def)
  have st: "pool_ok field_start" "0 < pnext field_start"
    using field_start_holds by (simp_all add: field_holds_def field_start_eq)
  obtain h p where hp: "field_holds p h ?fs" using field_insert_holds [OF st fit, of "''CFIELD/''"] by blast
  then show ?thesis
    using field_remove_exactly [OF hp, of "6 * 0x2000000 + 1" 0]
    by (auto simp: without_def)
qed

text \<open>
  C39. The walk with \<open>casual_field_next\<close> from \<open>CASUAL_FIELD_NO_ID\<close> visits every occurrence of
  every id exactly once, ids ascending, occurrences in order, and then ends; its length is
  what \<open>casual_field_occurrences_in_buffer\<close> reports.
\<close>

theorem field_walk_complete:
  assumes "field_holds p h fs" and "\<forall>(k, d)\<in>set fs. k \<noteq> CASUAL_FIELD_NO_ID" and "length fs \<le> n"
  shows "set (field_walk n h (CASUAL_FIELD_NO_ID, j) p) = {(k, i). 0 \<le> i \<and> i < int (length (occs k fs))}
     \<and> distinct (field_walk n h (CASUAL_FIELD_NO_ID, j) p)
     \<and> sorted (map fst (field_walk n h (CASUAL_FIELD_NO_ID, j) p))
     \<and> casual_field_occurrences_in_buffer h True p
         = (Code CASUAL_FIELD_SUCCESS, Some (int (length (field_walk n h (CASUAL_FIELD_NO_ID, j) p))))"
proof -
  obtain b where b: "pool_get h p = Inr b" "field_rel b fs" using field_holds_get [OF assms(1)] by blast
  have m: "index_matches (findex b) fs" and ok: "omap_ok (findex b)"
    using b(2) by (simp_all add: field_rel_def index_matches_def)
  have ne: "\<forall>(k, os)\<in>set (findex b). k \<noteq> 0 \<and> os \<noteq> []"
    by (rule index_matches_nonempty [OF m]) (use assms(2) in auto)
  have len: "length (index_positions (findex b)) = length fs"
    by (rule length_index_positions [OF m])
  have w: "field_walk n h (0, j) p = index_positions (findex b)"
    by (rule field_walk_all [OF b(1) ok ne]) (use len assms(3) in simp)
  show ?thesis
    using set_index_positions [OF m] distinct_index_positions [OF ok] sorted_index_positions [OF ok]
      field_count_all_positions [of b] b(1)
    by (simp add: w casual_field_occurrences_in_buffer_def)
qed

theorem field_walk_complete_witness:
  "\<exists>h p. set (field_walk 3 h (CASUAL_FIELD_NO_ID, 0) p) = {(k, i). 0 \<le> i \<and> i < int (length (occs k [(9, [1]), (4, []), (9, [2])]))}"
proof -
  let ?fs = "[(9, [1]), (4, []), (9, [2])] :: fields"
  have fit: "fields_fit ?fs" by (simp add: is_long_def)
  have st: "pool_ok field_start" "0 < pnext field_start"
    using field_start_holds by (simp_all add: field_holds_def field_start_eq)
  obtain h p where hp: "field_holds p h ?fs" using field_insert_holds [OF st fit, of "''CFIELD/''"] by blast
  show ?thesis using field_walk_complete [OF hp, of 3 0] by (intro exI) auto
qed

lemma index_loop_stuck:
  assumes "decode_at mem 8 = -16" and "16 \<le> length mem"
  shows "index_loop mem 0 idx = None"
proof (rule ccontr)
  assume "index_loop mem 0 idx \<noteq> None"
  then obtain r where "index_loop mem 0 idx = Some r" by blast
  then have "decode_at mem 8 = -16 \<and> 16 \<le> length mem \<and> (0 :: int) = 0 \<longrightarrow> False"
  proof (rule index_loop.raw_induct [where P = "\<lambda>mem cursor idx r.
      decode_at mem 8 = -16 \<and> 16 \<le> length mem \<and> cursor = 0 \<longrightarrow> False", rotated])
    fix loop mem cursor idx r
    assume IH: "\<And>mem cursor idx r. loop mem cursor idx = Some r \<Longrightarrow>
        decode_at mem 8 = -16 \<and> 16 \<le> length mem \<and> cursor = 0 \<longrightarrow> False"
      and eq: "(if cursor < int (length mem)
         then if cursor < 0 \<or> int (length mem) < cursor + data_offset then Some (Inl Undefined_behaviour)
           else loop mem (cursor + (data_offset + decode_at mem (cursor + size_offset)))
                  (index_push (decode_at mem (cursor + item_offset)) cursor idx)
         else if int (length mem) < cursor then Some (Inl Xatmi_argument) else Some (Inr idx)) = Some r"
    show "decode_at mem 8 = -16 \<and> 16 \<le> length mem \<and> cursor = 0 \<longrightarrow> False"
    proof
      assume "decode_at mem 8 = -16 \<and> 16 \<le> length mem \<and> cursor = 0"
      moreover from this have "0 < int (length mem)" "\<not> int (length mem) < 16" by linarith+
      ultimately have "loop mem 0 (index_push (decode_at mem 0) 0 idx) = Some r" and
        "decode_at mem 8 = -16 \<and> 16 \<le> length mem \<and> (0::int) = 0" using eq by simp_all
      then show False using IH by blast
    qed
  qed
  with assms show False by simp
qed

text \<open>
  C32. The bytes of a buffer are enough: a payload received from another process becomes,
  through the index the constructor computes, a buffer with exactly the fields it was sent
  with, at a new handle, and no other buffer changes.
\<close>

theorem field_transport_roundtrip:
  assumes "field_holds p h fs" and "pool_find h p = Some b" and "pool_ok q" and "0 < pnext q"
  shows "\<exists>h' q'. field_insert type (vmem (bvec b)) q = Some (Inr (h', q'))
     \<and> field_holds q' h' fs \<and> pool_find h' q = None
     \<and> (\<forall>g. g \<noteq> h' \<longrightarrow> pool_find g q' = pool_find g q)"
proof -
  have "field_rel b fs" using assms(1,2) by (simp add: field_holds_def)
  then have "vmem (bvec b) = flatten fs" "fields_fit fs" by (simp_all add: field_rel_def)
  then show ?thesis using field_insert_holds [OF assms(3,4)] by simp
qed

theorem field_transport_roundtrip_witness:
  "\<exists>h' q'. field_insert ''CFIELD/'' [] \<lparr>pbufs = [], pnext = 1\<rparr> = Some (Inr (h', q')) \<and> field_holds q' h' []"
proof -
  have f: "pool_find 2 field_start = Some (mk_field [] \<lparr>btype = ''CFIELD/'', bvec = \<lparr>vbase = 2, vcap = 16, vmem = []\<rparr>\<rparr>)"
    by (simp add: field_start_eq pool_find_def handle_of_def mk_field_def buffer.defs)
  show ?thesis
    using field_transport_roundtrip [OF field_start_holds f, of "\<lparr>pbufs = [], pnext = 1\<rparr>" "''CFIELD/''"]
    by (auto simp: pool_ok_def mk_field_def buffer.defs)
qed

text \<open>
  The constructor trusts the size it reads: a received payload whose first field has the
  size -16 keeps the cursor where it is, and the construction of the buffer never returns.
\<close>

theorem field_insert_negative_size_loops:
  "is_long key \<Longrightarrow> field_insert type (put_long key @ put_long (- 16) @ rest) p = None"
proof -
  have "decode_at (put_long key @ put_long (- 16) @ rest) 8 = -16"
    using decode_at_put [of "- 16" 8 "put_long key" rest] by (simp add: is_long_def)
  then show ?thesis
    by (simp add: field_insert_def field_index_def index_loop_stuck)
qed

theorem field_insert_negative_size_loops_witness:
  "field_insert ''CFIELD/'' (put_long 7 @ put_long (- 16) @ []) field_start = None"
  by (rule field_insert_negative_size_loops) (simp add: is_long_def)

text \<open>
  The copies: after \<open>casual_field_copy_buffer\<close> the target has the fields of the source, and
  after \<open>casual_field_copy_memory\<close> of the bytes of a non-empty buffer it has the fields those
  bytes stand for; both leave every other buffer, the source included, as it was.
\<close>

theorem field_copies:
  assumes "field_holds p target ts" and "field_holds p source fs" and "fields_fit gs" and "gs \<noteq> []"
  shows "(\<exists>h' p'. casual_field_copy_buffer target source p = (Code CASUAL_FIELD_SUCCESS, h', p')
             \<and> field_holds p' h' fs \<and> only_moves p target p' h')
     \<and> (\<exists>h' p'. casual_field_copy_memory target (flatten gs @ rest) (flen gs) p
                  = Some (Code CASUAL_FIELD_SUCCESS, h', p')
             \<and> field_holds p' h' gs \<and> only_moves p target p' h')"
  using copy_buffer_holds [OF assms(1,2)] copy_memory_holds [OF assms(1,3,4)] by blast

theorem field_copies_witness:
  "\<exists>h' p'. casual_field_copy_memory 2 (flatten [(7, [1, 2])] @ []) (flen [(7, [1, 2])]) field_start
       = Some (Code CASUAL_FIELD_SUCCESS, h', p') \<and> field_holds p' h' [(7, [1, 2])]"
proof -
  have "fields_fit [(7, [1, 2])]" by (simp add: is_long_def)
  then show ?thesis using field_copies [OF field_start_holds field_start_holds, of "[(7, [1, 2])]" "[]"] by blast
qed

text \<open>
  Errors are reported and harmless: with a handle the pool does not manage, the calls
  answer \<open>CASUAL_FIELD_INVALID_HANDLE\<close>, and with an index that has no occurrence
  \<open>CASUAL_FIELD_OUT_OF_BOUNDS\<close>; in both cases pool and handle are unchanged.
\<close>

theorem field_errors_harmless:
  assumes "typed_id key" and "fits_value m count"
  shows "(pool_find h p = None \<longrightarrow>
            casual_field_add_value h key (Some m) count p = (Code CASUAL_FIELD_INVALID_HANDLE, h, p)
          \<and> casual_field_set_value h key i (Some m) count p = (Code CASUAL_FIELD_INVALID_HANDLE, h, p)
          \<and> casual_field_remove_occurrence h key i p = (Code CASUAL_FIELD_INVALID_HANDLE, p)
          \<and> casual_field_explore_value h key i None p = (Code CASUAL_FIELD_INVALID_HANDLE, None))
     \<and> (field_holds p h fs \<and> \<not> (0 \<le> i \<and> i < int (length (occs key fs))) \<longrightarrow>
            casual_field_set_value h key i (Some m) count p = (Code CASUAL_FIELD_OUT_OF_BOUNDS, h, p)
          \<and> casual_field_remove_occurrence h key i p = (Code CASUAL_FIELD_OUT_OF_BOUNDS, p)
          \<and> casual_field_explore_value h key i None p = (Code CASUAL_FIELD_OUT_OF_BOUNDS, None))"
proof (intro conjI impI)
  assume n: "pool_find h p = None"
  then have g: "pool_get h p = Inl Xatmi_argument" by (simp add: pool_get_def)
  show "casual_field_add_value h key (Some m) count p = (Code CASUAL_FIELD_INVALID_HANDLE, h, p)"
    unfolding add_value_data [OF assms] by (simp add: field_add_data_def g)
  show "casual_field_set_value h key i (Some m) count p = (Code CASUAL_FIELD_INVALID_HANDLE, h, p)"
    unfolding set_value_data [OF assms] by (simp add: field_set_data_def g)
  show "casual_field_remove_occurrence h key i p = (Code CASUAL_FIELD_INVALID_HANDLE, p)"
    using typed_id_pos [OF assms(1)] by (simp add: casual_field_remove_occurrence_def cut_data_def g)
  show "casual_field_explore_value h key i None p = (Code CASUAL_FIELD_INVALID_HANDLE, None)"
    by (simp add: casual_field_explore_value_def explore_existence_def g)
next
  assume a: "field_holds p h fs \<and> \<not> (0 \<le> i \<and> i < int (length (occs key fs)))"
  then obtain b where b: "pool_get h p = Inr b" "field_rel b fs" using field_holds_get by blast
  have o: "field_offset (findex b) key i = Inl Std_out_of_range"
    using field_offset_outside [OF b(2)] a by blast
  show "casual_field_set_value h key i (Some m) count p = (Code CASUAL_FIELD_OUT_OF_BOUNDS, h, p)"
    unfolding set_value_data [OF assms] by (simp add: field_set_data_def field_update_def b(1) o)
  have "field_remove key i b = Inl Std_out_of_range"
    using o by (auto simp: field_remove_def field_offset_def split: option.splits if_splits)
  then show "casual_field_remove_occurrence h key i p = (Code CASUAL_FIELD_OUT_OF_BOUNDS, p)"
    using typed_id_pos [OF assms(1)] b(1) by (simp add: casual_field_remove_occurrence_def cut_data_def)
  show "casual_field_explore_value h key i None p = (Code CASUAL_FIELD_OUT_OF_BOUNDS, None)"
    by (simp add: casual_field_explore_value_def explore_existence_def b(1) o)
qed

theorem field_errors_harmless_witness:
  "casual_field_set_value 2 (2 * 0x2000000 + 1) 0 (Some [1, 2, 3, 4, 5, 6, 7, 8]) 0 field_start
     = (Code CASUAL_FIELD_OUT_OF_BOUNDS, 2, field_start)
   \<and> casual_field_remove_occurrence 5 (2 * 0x2000000 + 1) 0 field_start = (Code CASUAL_FIELD_INVALID_HANDLE, field_start)"
proof -
  have w: "fits_value [1, 2, 3, 4, 5, 6, 7, 8] 0" by (simp add: fits_value_def is_long_def)
  have n: "pool_find 5 field_start = None"
    by (simp add: field_start_eq pool_find_def handle_of_def mk_field_def buffer.defs)
  show ?thesis
    using field_errors_harmless [OF typed_id_example(1) w, of 2 field_start 0 "[]"]
      field_errors_harmless [OF typed_id_example(1) w, of 5 field_start 0 "[]"] field_start_holds n
    by simp
qed

text \<open>
  The tables are inverse: when the configured fields have distinct names and distinct
  ids, every accepted field's id is found by its name and its name by its id, and the id
  tells its type, as long as base and relative id leave the type's bits alone.
\<close>

theorem field_tables_inverse:
  assumes "distinct (map mf_name (fetch_fields groups))" and "distinct (map mf_id (fetch_fields groups))"
    and "f \<in> set (fetch_fields groups)"
  shows "casual_field_id_of_name (Some groups) (Some (mf_name f)) = (Code CASUAL_FIELD_SUCCESS, Some (mf_id f))
     \<and> casual_field_name_of_id (Some groups) (mf_id f) = (Code CASUAL_FIELD_SUCCESS, Some (mf_name f))
     \<and> (\<forall>t r. name_to_type (mf_type f) = Some t \<and> mf_id f = t * CASUAL_FIELD_TYPE_BASE + r
          \<and> 0 \<le> r \<and> r < CASUAL_FIELD_TYPE_BASE \<longrightarrow>
          casual_field_type_of_id (mf_id f) = (Code CASUAL_FIELD_SUCCESS, Some t)
          \<and> casual_field_name_of_type t = (Code CASUAL_FIELD_SUCCESS, Some (mf_type f)))"
  using find_distinct [OF assms(1,3)] find_distinct [OF assms(2,3)]
  by (auto simp: casual_field_id_of_name_def casual_field_name_of_id_def name_to_id_find id_to_name_find
      casual_field_name_of_type_def type_of_id_parts dest: name_to_type_range)

theorem field_tables_inverse_witness:
  "casual_field_id_of_name (Some [\<lparr>mg_base = 100, mg_fields = [\<lparr>mf_id = 1, mf_name = ''A'', mf_type = ''long''\<rparr>]\<rparr>])
       (Some ''A'') = (Code CASUAL_FIELD_SUCCESS, Some (2 * 0x2000000 + 101))"
proof -
  let ?g = "[\<lparr>mg_base = 100, mg_fields = [\<lparr>mf_id = 1, mf_name = ''A'', mf_type = ''long''\<rparr>]\<rparr>]"
  have f: "fetch_fields ?g = [\<lparr>mf_id = 2 * 0x2000000 + 101, mf_name = ''A'', mf_type = ''long''\<rparr>]"
    by (simp add: fetch_fields_def fetch_field_def name_to_type_def)
  show ?thesis
    using field_tables_inverse [of ?g "\<lparr>mf_id = 2 * 0x2000000 + 101, mf_name = ''A'', mf_type = ''long''\<rparr>"]
    unfolding f by simp
qed

end
