(* ===== verification/OrderBuffer.thy ===== *)
theory OrderBuffer
  imports BufferPool
begin

text \<open>
  \<open>buffer/source/order.cpp\<close>: the ordered buffer. Values are appended to the memory in network
  byte order and read back in the same order; the buffer keeps how much has been consumed.
  A read decodes first and checks afterwards, so what lies in memory behind the content is
  an argument of the readers, and a read beyond that has no defined result.
\<close>

section \<open>State and codes\<close>

record order_buffer = buffer +
  selector :: int

type_synonym order_pool = "order_buffer pool"

definition CASUAL_ORDER_SUCCESS :: int where [simp]: "CASUAL_ORDER_SUCCESS = 0"
definition CASUAL_ORDER_INVALID_HANDLE :: int where [simp]: "CASUAL_ORDER_INVALID_HANDLE = 1"
definition CASUAL_ORDER_INVALID_ARGUMENT :: int where [simp]: "CASUAL_ORDER_INVALID_ARGUMENT = 2"
definition CASUAL_ORDER_OUT_OF_MEMORY :: int where [simp]: "CASUAL_ORDER_OUT_OF_MEMORY = 4"
definition CASUAL_ORDER_OUT_OF_BOUNDS :: int where [simp]: "CASUAL_ORDER_OUT_OF_BOUNDS = 8"
definition CASUAL_ORDER_INTERNAL_FAILURE :: int where [simp]: "CASUAL_ORDER_INTERNAL_FAILURE = 128"

text \<open>\<open>error::handle\<close>; \<open>None\<close> stands for undefined behaviour.\<close>

fun order_error :: "exn \<Rightarrow> int option" where
  "order_error Std_bad_alloc = Some CASUAL_ORDER_OUT_OF_MEMORY"
| "order_error Std_out_of_range = Some CASUAL_ORDER_OUT_OF_BOUNDS"
| "order_error Xatmi_argument = Some CASUAL_ORDER_INVALID_HANDLE"
| "order_error Std_invalid_argument = Some CASUAL_ORDER_INTERNAL_FAILURE"
| "order_error Std_length_error = Some CASUAL_ORDER_INTERNAL_FAILURE"
| "order_error Undefined_behaviour = None"

definition casual_order_description :: "int \<Rightarrow> string" where
  "casual_order_description code =
     (if code = CASUAL_ORDER_SUCCESS then ''Success''
      else if code = CASUAL_ORDER_INVALID_HANDLE then ''Invalid handle''
      else if code = CASUAL_ORDER_INVALID_ARGUMENT then ''Invalid argument''
      else if code = CASUAL_ORDER_OUT_OF_MEMORY then ''Out of memory''
      else if code = CASUAL_ORDER_OUT_OF_BOUNDS then ''Out of bounds''
      else if code = CASUAL_ORDER_INTERNAL_FAILURE then ''Internal failure''
      else ''Unknown code'')"

section \<open>Allocation\<close>

definition mk_order :: "buffer \<Rightarrow> order_buffer" where
  "mk_order b = buffer.extend b \<lparr>selector = 0\<rparr>"

definition order_allocate :: "string \<Rightarrow> nat \<Rightarrow> order_pool \<Rightarrow> nat \<times> order_pool" where
  "order_allocate type n p =
     (let (v, next1) = payload_vec (pnext p) 0;
          (v', next2) = vec_reserve next1 (if n = 0 then 1 else n) v
      in pool_emplace (mk_order \<lparr>btype = type, bvec = v'\<rparr>) next2 p)"

definition order_reallocate :: "nat \<Rightarrow> int \<Rightarrow> order_pool \<Rightarrow> exn + nat \<times> order_pool" where
  "order_reallocate h n p =
     (case pool_find h p of
        None \<Rightarrow> Inl Undefined_behaviour
      | Some b \<Rightarrow>
          let (v, next) = (if n < int (length (vmem (bvec b))) then vec_shrink (pnext p) (bvec b)
                           else vec_reserve (pnext p) (if n = 0 then 1 else nat n) (bvec b));
              b' = b\<lparr>bvec := v\<rparr>
          in Inr (handle_of b', pool_update h b' next p))"

text \<open>\<open>casual_order_explore_buffer\<close>: reserved, utilized and consumed, through the pointers
  that are not null.\<close>

definition casual_order_explore_buffer :: "nat \<Rightarrow> order_pool \<Rightarrow> int option \<times> (int \<times> int \<times> int) option" where
  "casual_order_explore_buffer h p =
     (case pool_get h p of
        Inl e \<Rightarrow> (order_error e, None)
      | Inr b \<Rightarrow> (Some CASUAL_ORDER_SUCCESS,
                  Some (int (vcap (bvec b)), int (length (vmem (bvec b))), selector b)))"

section \<open>add\<close>

text \<open>\<open>add::reset\<close> empties the memory; the block and the selector stay.\<close>

definition casual_order_add_prepare :: "nat \<Rightarrow> order_pool \<Rightarrow> int option \<times> order_pool" where
  "casual_order_add_prepare h p =
     (case pool_get h p of
        Inl e \<Rightarrow> (order_error e, p)
      | Inr b \<Rightarrow>
          let (v, next) = vec_resize (pnext p) 0 (bvec b)
          in (Some CASUAL_ORDER_SUCCESS, pool_update h (b\<lparr>bvec := v\<rparr>) next p))"

text \<open>\<open>add::data\<close> with the overload of \<open>append\<close> given by the chunks it inserts at the end, one
  after the other.\<close>

definition append_chunks :: "nat \<Rightarrow> bytes list \<Rightarrow> vec \<Rightarrow> vec \<times> nat" where
  "append_chunks next chunks v = fold (\<lambda>c (u, n). vec_append n c u) chunks (v, next)"

definition order_add_data :: "nat \<Rightarrow> bytes list \<Rightarrow> order_pool \<Rightarrow> int option \<times> nat \<times> order_pool" where
  "order_add_data h chunks p =
     (case pool_get h p of
        Inl e \<Rightarrow> (order_error e, h, p)
      | Inr b \<Rightarrow>
          let (v, next) = append_chunks (pnext p) chunks (bvec b);
              b' = b\<lparr>bvec := v\<rparr>
          in (Some CASUAL_ORDER_SUCCESS, handle_of b', pool_update h b' next p))"

definition order_c_string :: "bytes \<Rightarrow> bytes" where
  "order_c_string value = takeWhile (\<lambda>c. c \<noteq> 0) value @ [0]"

definition casual_order_add_bool :: "nat \<Rightarrow> bool \<Rightarrow> order_pool \<Rightarrow> int option \<times> nat \<times> order_pool" where
  "casual_order_add_bool h value = order_add_data h [put_bool value]"

definition casual_order_add_char :: "nat \<Rightarrow> byte \<Rightarrow> order_pool \<Rightarrow> int option \<times> nat \<times> order_pool" where
  "casual_order_add_char h value = order_add_data h [put_char value]"

definition casual_order_add_short :: "nat \<Rightarrow> int \<Rightarrow> order_pool \<Rightarrow> int option \<times> nat \<times> order_pool" where
  "casual_order_add_short h value = order_add_data h [put_short value]"

definition casual_order_add_long :: "nat \<Rightarrow> int \<Rightarrow> order_pool \<Rightarrow> int option \<times> nat \<times> order_pool" where
  "casual_order_add_long h value = order_add_data h [put_long value]"

definition casual_order_add_float :: "nat \<Rightarrow> 32 word \<Rightarrow> order_pool \<Rightarrow> int option \<times> nat \<times> order_pool" where
  "casual_order_add_float h value = order_add_data h [put_float value]"

definition casual_order_add_double :: "nat \<Rightarrow> 64 word \<Rightarrow> order_pool \<Rightarrow> int option \<times> nat \<times> order_pool" where
  "casual_order_add_double h value = order_add_data h [put_double value]"

definition casual_order_add_string :: "nat \<Rightarrow> bytes \<Rightarrow> order_pool \<Rightarrow> int option \<times> nat \<times> order_pool" where
  "casual_order_add_string h value = order_add_data h [order_c_string value]"

definition casual_order_add_binary ::
    "nat \<Rightarrow> bytes \<Rightarrow> int \<Rightarrow> order_pool \<Rightarrow> int option \<times> nat \<times> order_pool" where
  "casual_order_add_binary h data sz p =
     (if sz < 0 then (Some CASUAL_ORDER_INVALID_ARGUMENT, h, p)
      else order_add_data h [put_long sz, take (nat sz) data] p)"

section \<open>get\<close>

definition casual_order_get_prepare :: "nat \<Rightarrow> order_pool \<Rightarrow> int option \<times> order_pool" where
  "casual_order_get_prepare h p =
     (case pool_get h p of
        Inl e \<Rightarrow> (order_error e, p)
      | Inr b \<Rightarrow> (Some CASUAL_ORDER_SUCCESS, pool_update h (b\<lparr>selector := 0\<rparr>) (pnext p) p))"

text \<open>\<open>get::select\<close>, the overloads: from what can be read at the cursor, the value and the
  number of bytes read; \<open>None\<close> reads beyond.\<close>

definition select_plain :: "nat \<Rightarrow> (bytes \<Rightarrow> 'v) \<Rightarrow> bytes \<Rightarrow> ('v \<times> int) option" where
  "select_plain w get m = (if length m < w then None else Some (get m, int w))"

definition select_string :: "bytes \<Rightarrow> (bytes \<times> int) option" where
  "select_string m =
     (if 0 \<in> set m then Some (takeWhile (\<lambda>c. c \<noteq> 0) m, int (length (takeWhile (\<lambda>c. c \<noteq> 0) m)) + 1)
      else None)"

text \<open>The binary's pointer is returned as what it points to, as far as it can be read.\<close>

definition select_binary :: "bytes \<Rightarrow> ((bytes \<times> int) \<times> int) option" where
  "select_binary m =
     (if length m < 8 then None
      else let sz = get_long m in Some ((drop 8 m, sz), 8 + sz))"

text \<open>\<open>get::data\<close>: decode at the cursor, then compare the new cursor with the content; the
  value is written to the caller's memory even when the code says out of bounds.\<close>

definition order_get_data ::
    "(bytes \<Rightarrow> ('v \<times> int) option) \<Rightarrow> bytes \<Rightarrow> nat \<Rightarrow> order_pool \<Rightarrow> int option \<times> 'v option \<times> order_pool" where
  "order_get_data select slack h p =
     (case pool_get h p of
        Inl e \<Rightarrow> (order_error e, None, p)
      | Inr b \<Rightarrow>
          if selector b < 0 \<or> int (length (vmem (bvec b) @ slack)) < selector b then (None, None, p)
          else
            (case select (drop (nat (selector b)) (vmem (bvec b) @ slack)) of
               None \<Rightarrow> (None, None, p)
             | Some (v, sz) \<Rightarrow>
                 let consumed = selector b + sz
                 in if consumed > int (length (vmem (bvec b)))
                    then (Some CASUAL_ORDER_OUT_OF_BOUNDS, Some v, p)
                    else (Some CASUAL_ORDER_SUCCESS, Some v,
                          pool_update h (b\<lparr>selector := consumed\<rparr>) (pnext p) p)))"

definition casual_order_get_bool :: "bytes \<Rightarrow> nat \<Rightarrow> order_pool \<Rightarrow> int option \<times> bool option \<times> order_pool" where
  "casual_order_get_bool = order_get_data (select_plain 1 get_bool)"

definition casual_order_get_char :: "bytes \<Rightarrow> nat \<Rightarrow> order_pool \<Rightarrow> int option \<times> byte option \<times> order_pool" where
  "casual_order_get_char = order_get_data (select_plain 1 get_char)"

definition casual_order_get_short :: "bytes \<Rightarrow> nat \<Rightarrow> order_pool \<Rightarrow> int option \<times> int option \<times> order_pool" where
  "casual_order_get_short = order_get_data (select_plain 2 get_short)"

definition casual_order_get_long :: "bytes \<Rightarrow> nat \<Rightarrow> order_pool \<Rightarrow> int option \<times> int option \<times> order_pool" where
  "casual_order_get_long = order_get_data (select_plain 8 get_long)"

definition casual_order_get_float :: "bytes \<Rightarrow> nat \<Rightarrow> order_pool \<Rightarrow> int option \<times> 32 word option \<times> order_pool" where
  "casual_order_get_float = order_get_data (select_plain 4 get_float)"

definition casual_order_get_double :: "bytes \<Rightarrow> nat \<Rightarrow> order_pool \<Rightarrow> int option \<times> 64 word option \<times> order_pool" where
  "casual_order_get_double = order_get_data (select_plain 8 get_double)"

definition casual_order_get_string :: "bytes \<Rightarrow> nat \<Rightarrow> order_pool \<Rightarrow> int option \<times> bytes option \<times> order_pool" where
  "casual_order_get_string = order_get_data select_string"

definition casual_order_get_binary ::
    "bytes \<Rightarrow> nat \<Rightarrow> order_pool \<Rightarrow> int option \<times> (bytes \<times> int) option \<times> order_pool" where
  "casual_order_get_binary = order_get_data select_binary"

section \<open>What the buffer promises\<close>

text \<open>The content and the cursor behind a handle.\<close>

definition order_holds :: "order_pool \<Rightarrow> nat \<Rightarrow> bytes \<Rightarrow> int \<Rightarrow> bool" where
  "order_holds p h mem cursor \<longleftrightarrow> pool_ok p \<and>
     (\<exists>b. pool_find h p = Some b \<and> vmem (bvec b) = mem \<and> selector b = cursor)"

text \<open>The values a caller adds, what each occupies, and the reader of the same type.\<close>

datatype order_value =
    OBool bool | OChar byte | OShort int | OLong int
  | OFloat "32 word" | ODouble "64 word" | OString bytes | OBinary bytes

fun order_chunks :: "order_value \<Rightarrow> bytes list" where
  "order_chunks (OBool v) = [put_bool v]"
| "order_chunks (OChar v) = [put_char v]"
| "order_chunks (OShort v) = [put_short v]"
| "order_chunks (OLong v) = [put_long v]"
| "order_chunks (OFloat v) = [put_float v]"
| "order_chunks (ODouble v) = [put_double v]"
| "order_chunks (OString v) = [order_c_string v]"
| "order_chunks (OBinary v) = [put_long (int (length v)), v]"

definition order_encode :: "order_value \<Rightarrow> bytes" where
  "order_encode v = concat (order_chunks v)"

fun order_value_ok :: "order_value \<Rightarrow> bool" where
  "order_value_ok (OShort v) = is_short v"
| "order_value_ok (OLong v) = is_long v"
| "order_value_ok (OString v) = (0 \<notin> set v)"
| "order_value_ok (OBinary v) = is_long (int (length v))"
| "order_value_ok _ = True"

fun order_add :: "nat \<Rightarrow> order_value \<Rightarrow> order_pool \<Rightarrow> int option \<times> nat \<times> order_pool" where
  "order_add h (OBool v) = casual_order_add_bool h v"
| "order_add h (OChar v) = casual_order_add_char h v"
| "order_add h (OShort v) = casual_order_add_short h v"
| "order_add h (OLong v) = casual_order_add_long h v"
| "order_add h (OFloat v) = casual_order_add_float h v"
| "order_add h (ODouble v) = casual_order_add_double h v"
| "order_add h (OString v) = casual_order_add_string h v"
| "order_add h (OBinary v) = casual_order_add_binary h v (int (length v))"

text \<open>Read a value of the type of the one given.\<close>

definition order_result :: "('v \<Rightarrow> order_value) \<Rightarrow> int option \<times> 'v option \<times> order_pool
     \<Rightarrow> int option \<times> order_value option \<times> order_pool" where
  "order_result f r = (fst r, map_option f (fst (snd r)), snd (snd r))"

fun order_get :: "bytes \<Rightarrow> nat \<Rightarrow> order_value \<Rightarrow> order_pool \<Rightarrow> int option \<times> order_value option \<times> order_pool" where
  "order_get slack h (OBool _) p = order_result OBool (casual_order_get_bool slack h p)"
| "order_get slack h (OChar _) p = order_result OChar (casual_order_get_char slack h p)"
| "order_get slack h (OShort _) p = order_result OShort (casual_order_get_short slack h p)"
| "order_get slack h (OLong _) p = order_result OLong (casual_order_get_long slack h p)"
| "order_get slack h (OFloat _) p = order_result OFloat (casual_order_get_float slack h p)"
| "order_get slack h (ODouble _) p = order_result ODouble (casual_order_get_double slack h p)"
| "order_get slack h (OString _) p = order_result OString (casual_order_get_string slack h p)"
| "order_get slack h (OBinary _) p =
     order_result (\<lambda>(m, sz). OBinary (take (nat sz) m)) (casual_order_get_binary slack h p)"

fun order_add_all :: "nat \<Rightarrow> order_value list \<Rightarrow> order_pool \<Rightarrow> int option list \<times> nat \<times> order_pool" where
  "order_add_all h [] p = ([], h, p)"
| "order_add_all h (v # vs) p =
     (case order_add h v p of
        (r, h1, p1) \<Rightarrow> (case order_add_all h1 vs p1 of (rs, h2, p2) \<Rightarrow> (r # rs, h2, p2)))"

fun order_get_all :: "bytes \<Rightarrow> nat \<Rightarrow> order_value list \<Rightarrow> order_pool
     \<Rightarrow> (int option \<times> order_value option) list \<times> order_pool" where
  "order_get_all slack h [] p = ([], p)"
| "order_get_all slack h (v # vs) p =
     (case order_get slack h v p of
        (r, x, p1) \<Rightarrow> (case order_get_all slack h vs p1 of (rs, p2) \<Rightarrow> ((r, x) # rs, p2)))"

section \<open>Lemmas\<close>

lemma append_chunks_step:
  "vec_ok n v \<Longrightarrow> vbase v \<noteq> 0 \<Longrightarrow> append_chunks n cs v = (v', n') \<Longrightarrow>
     vec_step n v (v', n') \<and> vbase v' \<noteq> 0 \<and> vmem v' = vmem v @ concat cs"
proof (induction cs arbitrary: v n)
  case Nil
  then show ?case by (simp add: append_chunks_def vec_step_def)
next
  case (Cons c cs)
  obtain v1 n1 where 1: "vec_append n c v = (v1, n1)" by force
  note s = vec_step_append [OF Cons.prems(1,2) 1]
  have m: "vmem v1 = vmem v @ c" using 1 vmem_vec_append [of n c v] by simp
  have "append_chunks n1 cs v1 = (v', n')" using Cons.prems(3) 1 by (simp add: append_chunks_def)
  then show ?case using Cons.IH [of n1 v1] s m vec_step_trans by fastforce
qed

lemma order_add_data_holds:
  assumes "order_holds p h mem cursor"
  shows "\<exists>h' p'. order_add_data h cs p = (Some CASUAL_ORDER_SUCCESS, h', p')
     \<and> order_holds p' h' (mem @ concat cs) cursor \<and> only_moves p h p' h'"
proof -
  obtain b where b: "pool_ok p" "pool_find h p = Some b" "vmem (bvec b) = mem" "selector b = cursor"
    using assms by (auto simp: order_holds_def)
  obtain v n where v: "append_chunks (pnext p) cs (bvec b) = (v, n)" by force
  note fnd = pool_ok_found [OF b(1,2)]
  have s: "vec_step (pnext p) (bvec b) (v, n)" "vbase v \<noteq> 0" "vmem v = mem @ concat cs"
    using append_chunks_step [OF _ _ v] fnd b(3) by simp_all
  let ?b = "b\<lparr>bvec := v\<rparr>"
  have "pool_ok (pool_update h ?b n p) \<and> pool_find (handle_of ?b) (pool_update h ?b n p) = Some ?b
     \<and> only_moves p h (pool_update h ?b n p) (handle_of ?b)"
    by (rule pool_step [OF b(1,2)]) (use s in simp_all)
  then show ?thesis using b v s
    by (simp add: order_add_data_def pool_get_def order_holds_def Let_def)
qed

lemma order_add_eq: "order_value_ok v \<Longrightarrow> order_add h v p = order_add_data h (order_chunks v) p"
  by (cases v) (simp_all add: casual_order_add_bool_def casual_order_add_char_def
      casual_order_add_short_def casual_order_add_long_def casual_order_add_float_def
      casual_order_add_double_def casual_order_add_string_def casual_order_add_binary_def)

lemma order_add_all_holds:
  "order_holds p h mem cursor \<Longrightarrow> \<forall>v\<in>set vs. order_value_ok v \<Longrightarrow>
     \<exists>h' p'. order_add_all h vs p = (replicate (length vs) (Some CASUAL_ORDER_SUCCESS), h', p')
       \<and> order_holds p' h' (mem @ concat (map order_encode vs)) cursor \<and> only_moves p h p' h'"
proof (induction vs arbitrary: p h mem)
  case Nil
  then show ?case by simp
next
  case (Cons v vs)
  obtain h1 p1 where 1: "order_add h v p = (Some CASUAL_ORDER_SUCCESS, h1, p1)"
    "order_holds p1 h1 (mem @ order_encode v) cursor" "only_moves p h p1 h1"
    using order_add_data_holds [OF Cons.prems(1), of "order_chunks v"] Cons.prems(2)
    unfolding order_encode_def by (auto simp only: order_add_eq list.set_intros)
  obtain h' p' where 2: "order_add_all h1 vs p1 = (replicate (length vs) (Some CASUAL_ORDER_SUCCESS), h', p')"
    "order_holds p' h' ((mem @ order_encode v) @ concat (map order_encode vs)) cursor" "only_moves p1 h1 p' h'"
    using Cons.IH [OF 1(2)] Cons.prems(2) by auto
  show ?case using 1 2 only_moves_trans by fastforce
qed

text \<open>A reader at the cursor: it must give the value and its width on any continuation.\<close>

lemma order_get_data_holds:
  assumes h: "order_holds p h (pre @ e @ post) (int (length pre))"
    and r: "\<And>rest. select (e @ rest) = Some (f rest, int (length e))"
  shows "\<exists>p'. order_get_data select slack h p
       = (Some CASUAL_ORDER_SUCCESS, Some (f (post @ slack)), p')
     \<and> order_holds p' h (pre @ e @ post) (int (length (pre @ e))) \<and> only_moves p h p' h"
proof -
  obtain b where b: "pool_ok p" "pool_find h p = Some b" "vmem (bvec b) = pre @ e @ post"
    "selector b = int (length pre)"
    using h by (auto simp: order_holds_def)
  note fnd = pool_ok_found [OF b(1,2)]
  let ?b = "b\<lparr>selector := int (length pre) + int (length e)\<rparr>"
  have hb: "handle_of ?b = h" using fnd by (simp add: handle_of_def)
  have "pool_ok (pool_update h ?b (pnext p) p) \<and> pool_find (handle_of ?b) (pool_update h ?b (pnext p) p) = Some ?b
     \<and> only_moves p h (pool_update h ?b (pnext p) p) (handle_of ?b)"
    by (rule pool_step [OF b(1,2)]) (use fnd in \<open>simp_all add: vec_step_def\<close>)
  then show ?thesis using b r [of "post @ slack"] unfolding hb
    by (simp add: order_get_data_def pool_get_def order_holds_def Let_def)
qed

lemma select_string_c_string:
  "0 \<notin> set v \<Longrightarrow> select_string (order_c_string v @ rest) = Some (v, int (length (order_c_string v)))"
proof -
  assume a: "0 \<notin> set v"
  then have e: "takeWhile (\<lambda>c. c \<noteq> 0) v = v" by (intro takeWhile_eq_all_conv [THEN iffD2]) auto
  have "takeWhile (\<lambda>c. c \<noteq> 0) (v @ 0 # rest) = v" using a by (subst takeWhile_append2) auto
  then show ?thesis unfolding order_c_string_def e by (simp add: select_string_def)
qed

lemma order_get_holds:
  assumes h: "order_holds p h (pre @ order_encode v @ post) (int (length pre))" and ok: "order_value_ok v"
  shows "\<exists>p'. order_get slack h v p = (Some CASUAL_ORDER_SUCCESS, Some v, p')
     \<and> order_holds p' h (pre @ order_encode v @ post) (int (length (pre @ order_encode v)))
     \<and> only_moves p h p' h"
proof (cases v)
  case (OBool x)
  then show ?thesis
    using order_get_data_holds [OF h, of "select_plain 1 get_bool" "\<lambda>_. x" slack]
    by (auto simp: order_encode_def select_plain_def t_bool.get_put casual_order_get_bool_def order_result_def)
next
  case (OChar x)
  then show ?thesis
    using order_get_data_holds [OF h, of "select_plain 1 get_char" "\<lambda>_. x" slack]
    by (auto simp: order_encode_def select_plain_def t_char.get_put casual_order_get_char_def order_result_def)
next
  case (OShort x)
  then show ?thesis using ok
    order_get_data_holds [OF h, of "select_plain 2 get_short" "\<lambda>_. x" slack]
    by (auto simp: order_encode_def select_plain_def t_short.get_put casual_order_get_short_def order_result_def)
next
  case (OLong x)
  then show ?thesis using ok
    order_get_data_holds [OF h, of "select_plain 8 get_long" "\<lambda>_. x" slack]
    by (auto simp: order_encode_def select_plain_def t_long.get_put casual_order_get_long_def order_result_def)
next
  case (OFloat x)
  then show ?thesis
    using order_get_data_holds [OF h, of "select_plain 4 get_float" "\<lambda>_. x" slack]
    by (auto simp: order_encode_def select_plain_def t_float.get_put casual_order_get_float_def order_result_def)
next
  case (ODouble x)
  then show ?thesis
    using order_get_data_holds [OF h, of "select_plain 8 get_double" "\<lambda>_. x" slack]
    by (auto simp: order_encode_def select_plain_def t_double.get_put casual_order_get_double_def order_result_def)
next
  case (OString x)
  then show ?thesis using ok
    order_get_data_holds [OF h, of select_string "\<lambda>_. x" slack]
    by (auto simp: order_encode_def select_string_c_string casual_order_get_string_def order_result_def)
next
  case (OBinary x)
  then show ?thesis using ok
    order_get_data_holds [OF h, of select_binary "\<lambda>rest. (x @ rest, int (length x))" slack]
    by (auto simp: order_encode_def select_binary_def t_long.get_put Let_def casual_order_get_binary_def order_result_def)
qed

lemma order_get_all_holds:
  "order_holds p h (pre @ concat (map order_encode vs)) (int (length pre)) \<Longrightarrow>
     \<forall>v\<in>set vs. order_value_ok v \<Longrightarrow>
     \<exists>p'. order_get_all slack h vs p = (map (\<lambda>v. (Some CASUAL_ORDER_SUCCESS, Some v)) vs, p')
       \<and> order_holds p' h (pre @ concat (map order_encode vs))
            (int (length (pre @ concat (map order_encode vs))))"
proof (induction vs arbitrary: p pre)
  case Nil
  then show ?case by simp
next
  case (Cons v vs)
  obtain p1 where 1: "order_get slack h v p = (Some CASUAL_ORDER_SUCCESS, Some v, p1)"
    "order_holds p1 h (pre @ order_encode v @ concat (map order_encode vs)) (int (length (pre @ order_encode v)))"
    using order_get_holds [of p h pre v "concat (map order_encode vs)" slack] Cons.prems by auto
  then show ?case using Cons.IH [of p1 "pre @ order_encode v"] Cons.prems(2) by auto
qed

lemma order_get_prepare_holds:
  assumes "order_holds p h mem cursor"
  shows "\<exists>p'. casual_order_get_prepare h p = (Some CASUAL_ORDER_SUCCESS, p')
     \<and> order_holds p' h mem 0 \<and> only_moves p h p' h"
proof -
  obtain b where b: "pool_ok p" "pool_find h p = Some b" "vmem (bvec b) = mem"
    using assms by (auto simp: order_holds_def)
  note fnd = pool_ok_found [OF b(1,2)]
  let ?b = "b\<lparr>selector := 0\<rparr>"
  have hb: "handle_of ?b = h" using fnd by (simp add: handle_of_def)
  have "pool_ok (pool_update h ?b (pnext p) p) \<and> pool_find (handle_of ?b) (pool_update h ?b (pnext p) p) = Some ?b
     \<and> only_moves p h (pool_update h ?b (pnext p) p) (handle_of ?b)"
    by (rule pool_step [OF b(1,2)]) (use fnd in \<open>simp_all add: vec_step_def\<close>)
  then show ?thesis using b unfolding hb
    by (simp add: casual_order_get_prepare_def pool_get_def order_holds_def)
qed

lemma order_add_prepare_holds:
  assumes "order_holds p h mem cursor"
  shows "\<exists>p'. casual_order_add_prepare h p = (Some CASUAL_ORDER_SUCCESS, p')
     \<and> order_holds p' h [] cursor \<and> only_moves p h p' h"
proof -
  obtain b where b: "pool_ok p" "pool_find h p = Some b" "selector b = cursor"
    using assms by (auto simp: order_holds_def)
  note fnd = pool_ok_found [OF b(1,2)]
  have r: "vec_resize (pnext p) 0 (bvec b) = ((bvec b)\<lparr>vmem := []\<rparr>, pnext p)"
    by (simp add: vec_resize_def vec_store_def)
  let ?b = "b\<lparr>bvec := (bvec b)\<lparr>vmem := []\<rparr>\<rparr>"
  have hb: "handle_of ?b = h" using fnd by (simp add: handle_of_def)
  have "pool_ok (pool_update h ?b (pnext p) p) \<and> pool_find (handle_of ?b) (pool_update h ?b (pnext p) p) = Some ?b
     \<and> only_moves p h (pool_update h ?b (pnext p) p) (handle_of ?b)"
    by (rule pool_step [OF b(1,2)]) (use fnd in \<open>auto simp: vec_step_def vec_ok_def\<close>)
  then show ?thesis using b unfolding hb
    by (simp add: casual_order_add_prepare_def pool_get_def order_holds_def r)
qed

section \<open>Properties\<close>

definition order_start :: order_pool where
  "order_start = snd (order_allocate ''CORDER/'' 16 \<lparr>pbufs = [], pnext = 1\<rparr>)"

lemma order_start_eq:
  "order_start = \<lparr>pbufs = [mk_order \<lparr>btype = ''CORDER/'', bvec = \<lparr>vbase = 2, vcap = 16, vmem = []\<rparr>\<rparr>], pnext = 18\<rparr>"
  by (simp add: order_start_def order_allocate_def payload_vec_def pool_emplace_def vec_of_def
      vec_reserve_def vec_block_def numeral_2_eq_2)

lemma order_start_holds: "order_holds order_start 2 [] 0"
  by (simp add: order_start_eq order_holds_def pool_ok_def vec_ok_def handle_of_def mk_order_def
      buffer.defs pool_find_def)

text \<open>
  C33. The ordered buffer gives back what was put in: after \<open>casual_order_add_prepare\<close> any
  sequence of values of the eight types is added with success, and after
  \<open>casual_order_get_prepare\<close> reading the same types in the same order gives the same values,
  each with success, whatever lies in memory behind the content; other buffers are untouched
  by the adds.
\<close>

theorem order_roundtrip:
  assumes "order_holds p h mem cursor" and "\<forall>v\<in>set vs. order_value_ok v"
  shows "\<exists>p1 h2 p2 p3 p4. casual_order_add_prepare h p = (Some CASUAL_ORDER_SUCCESS, p1)
     \<and> order_add_all h vs p1 = (replicate (length vs) (Some CASUAL_ORDER_SUCCESS), h2, p2)
     \<and> only_moves p h p2 h2
     \<and> casual_order_get_prepare h2 p2 = (Some CASUAL_ORDER_SUCCESS, p3)
     \<and> order_get_all slack h2 vs p3 = (map (\<lambda>v. (Some CASUAL_ORDER_SUCCESS, Some v)) vs, p4)"
proof -
  obtain p1 where 1: "casual_order_add_prepare h p = (Some CASUAL_ORDER_SUCCESS, p1)"
    "order_holds p1 h [] cursor" "only_moves p h p1 h" using order_add_prepare_holds [OF assms(1)] by blast
  obtain h2 p2 where 2: "order_add_all h vs p1 = (replicate (length vs) (Some CASUAL_ORDER_SUCCESS), h2, p2)"
    "order_holds p2 h2 (concat (map order_encode vs)) cursor" "only_moves p1 h p2 h2"
    using order_add_all_holds [OF 1(2) assms(2)] by auto
  obtain p3 where 3: "casual_order_get_prepare h2 p2 = (Some CASUAL_ORDER_SUCCESS, p3)"
    "order_holds p3 h2 (concat (map order_encode vs)) 0" using order_get_prepare_holds [OF 2(2)] by blast
  obtain p4 where "order_get_all slack h2 vs p3 = (map (\<lambda>v. (Some CASUAL_ORDER_SUCCESS, Some v)) vs, p4)"
    using order_get_all_holds [of p3 h2 "[]" vs slack] 3(2) assms(2) by auto
  with 1 2 3 show ?thesis using only_moves_trans by blast
qed

theorem order_roundtrip_witness:
  "\<exists>p1 h2 p2 p3 p4. order_add_all 2 [OLong 7, OString [104, 105], OBinary [1, 0, 2], OBool True] p1
       = ([Some 0, Some 0, Some 0, Some 0], h2, p2)
     \<and> casual_order_get_prepare h2 p2 = (Some 0, p3)
     \<and> order_get_all [] h2 [OLong 7, OString [104, 105], OBinary [1, 0, 2], OBool True] p3
       = ([(Some 0, Some (OLong 7)), (Some 0, Some (OString [104, 105])), (Some 0, Some (OBinary [1, 0, 2])),
           (Some 0, Some (OBool True))], p4)"
proof -
  let ?vs = "[OLong 7, OString [104, 105], OBinary [1, 0, 2], OBool True]"
  have ok: "\<forall>v\<in>set ?vs. order_value_ok v" by (simp add: is_long_def)
  have n: "replicate (length ?vs) (Some (0::int)) = [Some 0, Some 0, Some 0, Some 0]" by (simp add: numeral_eq_Suc)
  show ?thesis using order_roundtrip [OF order_start_holds ok, of "[]"] unfolding n by simp blast
qed

text \<open>
  Reading past the end is noticed: when the content behind the cursor is shorter than a
  value of the type read, but memory can still be read there, the code is
  \<open>CASUAL_ORDER_OUT_OF_BOUNDS\<close> and neither cursor nor content change; it is the memory behind
  the content that then reaches the caller.
\<close>

theorem order_get_past_end:
  assumes "order_holds p h (pre @ post) (int (length pre))" and "length post < w"
    and "w \<le> length post + length slack"
  shows "order_get_data (select_plain w get) slack h p
     = (Some CASUAL_ORDER_OUT_OF_BOUNDS, Some (get (post @ slack)), p)"
proof -
  obtain b where "pool_get h p = Inr b" "vmem (bvec b) = pre @ post" "selector b = int (length pre)"
    using assms(1) by (auto simp: order_holds_def pool_get_def)
  then show ?thesis using assms(2,3) by (simp add: order_get_data_def select_plain_def)
qed

theorem order_get_past_end_witness:
  "order_get_data (select_plain 2 get_short) [1, 2] 2 order_start
     = (Some CASUAL_ORDER_OUT_OF_BOUNDS, Some 258, order_start)"
proof -
  have v: "get_short [1, 2] = 258" by code_simp
  show ?thesis using order_get_past_end [of order_start 2 "[]" "[]" 2 "[1, 2]" get_short] order_start_holds v by simp
qed

end
