(* ===== verification/TextBuffers.thy ===== *)
theory TextBuffers
  imports BufferPool
begin

text \<open>
  \<open>buffer/source/string.cpp\<close> and \<open>buffer/source/octet.cpp\<close>: the buffer of one C string and the
  buffer of plain bytes, with their allocators and C functions. \<open>std::strlen\<close> reads until it
  finds a zero: what lies in memory behind the content is an argument, \<open>slack\<close>, and a read
  beyond that has no defined result.
\<close>

section \<open>Strings\<close>

definition CASUAL_STRING_SUCCESS :: int where [simp]: "CASUAL_STRING_SUCCESS = 0"
definition CASUAL_STRING_INVALID_HANDLE :: int where [simp]: "CASUAL_STRING_INVALID_HANDLE = 1"
definition CASUAL_STRING_INVALID_ARGUMENT :: int where [simp]: "CASUAL_STRING_INVALID_ARGUMENT = 2"
definition CASUAL_STRING_OUT_OF_MEMORY :: int where [simp]: "CASUAL_STRING_OUT_OF_MEMORY = 4"
definition CASUAL_STRING_OUT_OF_BOUNDS :: int where [simp]: "CASUAL_STRING_OUT_OF_BOUNDS = 8"
definition CASUAL_STRING_INTERNAL_FAILURE :: int where [simp]: "CASUAL_STRING_INTERNAL_FAILURE = 128"

fun string_error :: "exn \<Rightarrow> int option" where
  "string_error Std_out_of_range = Some CASUAL_STRING_OUT_OF_BOUNDS"
| "string_error Std_bad_alloc = Some CASUAL_STRING_OUT_OF_MEMORY"
| "string_error Xatmi_argument = Some CASUAL_STRING_INVALID_HANDLE"
| "string_error Std_invalid_argument = Some CASUAL_STRING_INTERNAL_FAILURE"
| "string_error Std_length_error = Some CASUAL_STRING_INTERNAL_FAILURE"
| "string_error Undefined_behaviour = None"

definition casual_string_description :: "int \<Rightarrow> string" where
  "casual_string_description code =
     (if code = CASUAL_STRING_SUCCESS then ''Success''
      else if code = CASUAL_STRING_INVALID_HANDLE then ''Invalid handle''
      else if code = CASUAL_STRING_INVALID_ARGUMENT then ''Invalid argument''
      else if code = CASUAL_STRING_OUT_OF_MEMORY then ''Out of memory''
      else if code = CASUAL_STRING_OUT_OF_BOUNDS then ''Out of bounds''
      else if code = CASUAL_STRING_INTERNAL_FAILURE then ''Internal failure''
      else ''Unknown code'')"

text \<open>\<open>std::strlen\<close> from an address whose readable bytes are given; a vector without a block
  has no address.\<close>

definition c_strlen :: "vec \<Rightarrow> bytes \<Rightarrow> nat option" where
  "c_strlen v slack =
     (if vbase v = 0 \<or> 0 \<notin> set (vmem v @ slack) then None
      else Some (length (takeWhile (\<lambda>c. c \<noteq> 0) (vmem v @ slack))))"

text \<open>\<open>local::validate\<close>: the terminator must be within the memory.\<close>

definition string_validate :: "bytes \<Rightarrow> vec \<Rightarrow> exn + int" where
  "string_validate slack v =
     (case c_strlen v slack of
        None \<Rightarrow> Inl Undefined_behaviour
      | Some n \<Rightarrow> if length (vmem v) < n + 1 then Inl Xatmi_argument else Inr (int n + 1))"

definition string_transport :: "bytes \<Rightarrow> int \<Rightarrow> buffer \<Rightarrow> exn + int" where
  "string_transport slack user_size b = string_validate slack (bvec b)"

definition string_allocate :: "string \<Rightarrow> nat \<Rightarrow> buffer pool \<Rightarrow> nat \<times> buffer pool" where
  "string_allocate type n p =
     (let (v, next) = payload_vec (pnext p) (if n = 0 then 1 else n);
          v' = v\<lparr>vmem := (vmem v)[0 := 0]\<rparr>
      in pool_emplace \<lparr>btype = type, bvec = v'\<rparr> next p)"

definition string_reallocate :: "nat \<Rightarrow> nat \<Rightarrow> buffer pool \<Rightarrow> exn + nat \<times> buffer pool" where
  "string_reallocate h n p =
     (case pool_find h p of
        None \<Rightarrow> Inl Undefined_behaviour
      | Some b \<Rightarrow>
          let (v1, next1) = vec_resize (pnext p) (if n = 0 then 1 else n) (bvec b);
              v2 = v1\<lparr>vmem := (vmem v1)[length (vmem v1) - 1 := 0]\<rparr>;
              (v3, next3) = vec_shrink next1 v2;
              b' = b\<lparr>bvec := v3\<rparr>
          in Inr (handle_of b', pool_update h b' next3 p))"

text \<open>\<open>insert\<close> hides the one of \<open>basic_pool\<close>: validate, then take the payload over as it is.\<close>

definition string_insert :: "bytes \<Rightarrow> string \<Rightarrow> bytes \<Rightarrow> buffer pool \<Rightarrow> exn + nat \<times> buffer pool" where
  "string_insert slack type m p =
     (let (v, next) = vec_of (pnext p) m
      in case string_validate slack v of
           Inl e \<Rightarrow> Inl e
         | Inr _ \<Rightarrow> Inr (pool_emplace \<lparr>btype = type, bvec = v\<rparr> next p))"

definition casual_string_explore_buffer :: "bytes \<Rightarrow> nat \<Rightarrow> buffer pool \<Rightarrow> int option \<times> (int \<times> int) option" where
  "casual_string_explore_buffer slack h p =
     (case pool_get h p of
        Inl e \<Rightarrow> (string_error e, None)
      | Inr b \<Rightarrow>
          (case c_strlen (bvec b) slack of
             None \<Rightarrow> (None, None)
           | Some n \<Rightarrow> (Some CASUAL_STRING_SUCCESS, Some (int (length (vmem (bvec b))), int n + 1))))"

text \<open>\<open>algorithm::copy\<close> into a vector resizes it, then copies.\<close>

definition vec_copy :: "nat \<Rightarrow> bytes \<Rightarrow> vec \<Rightarrow> vec \<times> nat" where
  "vec_copy next m v =
     (let (v', next') = vec_resize next (length m) v in (v'\<lparr>vmem := m\<rparr>, next'))"

definition casual_string_set :: "nat \<Rightarrow> bytes \<Rightarrow> buffer pool \<Rightarrow> int option \<times> nat \<times> buffer pool" where
  "casual_string_set h value p =
     (case pool_get h p of
        Inl e \<Rightarrow> (string_error e, h, p)
      | Inr b \<Rightarrow>
          let (v, next) = vec_copy (pnext p) (takeWhile (\<lambda>c. c \<noteq> 0) value @ [0]) (bvec b);
              b' = b\<lparr>bvec := v\<rparr>
          in (Some CASUAL_STRING_SUCCESS, handle_of b', pool_update h b' next p))"

text \<open>\<open>casual_string_get\<close> returns the address of the memory, here the string at it.\<close>

definition casual_string_get :: "bytes \<Rightarrow> nat \<Rightarrow> buffer pool \<Rightarrow> int option \<times> bytes option" where
  "casual_string_get slack h p =
     (case pool_get h p of
        Inl e \<Rightarrow> (string_error e, None)
      | Inr b \<Rightarrow>
          (case c_strlen (bvec b) slack of
             None \<Rightarrow> (None, None)
           | Some n \<Rightarrow>
               if length (vmem (bvec b)) < n + 1 then (string_error Std_out_of_range, None)
               else (Some CASUAL_STRING_SUCCESS, Some (take n (vmem (bvec b))))))"

section \<open>Octets\<close>

definition CASUAL_OCTET_SUCCESS :: int where [simp]: "CASUAL_OCTET_SUCCESS = 0"
definition CASUAL_OCTET_INVALID_HANDLE :: int where [simp]: "CASUAL_OCTET_INVALID_HANDLE = 1"
definition CASUAL_OCTET_INVALID_ARGUMENT :: int where [simp]: "CASUAL_OCTET_INVALID_ARGUMENT = 2"
definition CASUAL_OCTET_OUT_OF_MEMORY :: int where [simp]: "CASUAL_OCTET_OUT_OF_MEMORY = 4"
definition CASUAL_OCTET_INTERNAL_FAILURE :: int where [simp]: "CASUAL_OCTET_INTERNAL_FAILURE = 128"

fun octet_error :: "exn \<Rightarrow> int option" where
  "octet_error Std_bad_alloc = Some CASUAL_OCTET_OUT_OF_MEMORY"
| "octet_error Xatmi_argument = Some CASUAL_OCTET_INVALID_HANDLE"
| "octet_error Std_out_of_range = Some CASUAL_OCTET_INTERNAL_FAILURE"
| "octet_error Std_invalid_argument = Some CASUAL_OCTET_INTERNAL_FAILURE"
| "octet_error Std_length_error = Some CASUAL_OCTET_INTERNAL_FAILURE"
| "octet_error Undefined_behaviour = None"

definition casual_octet_description :: "int \<Rightarrow> string" where
  "casual_octet_description code =
     (if code = CASUAL_OCTET_SUCCESS then ''Success''
      else if code = CASUAL_OCTET_INVALID_HANDLE then ''Invalid handle''
      else if code = CASUAL_OCTET_INVALID_ARGUMENT then ''Invalid argument''
      else if code = CASUAL_OCTET_OUT_OF_MEMORY then ''Out of memory''
      else if code = CASUAL_OCTET_INTERNAL_FAILURE then ''Internal failure''
      else ''Unknown code'')"

definition octet_allocate :: "string \<Rightarrow> nat \<Rightarrow> buffer pool \<Rightarrow> nat \<times> buffer pool" where
  "octet_allocate type n p =
     (let (v, next) = payload_vec (pnext p) n;
          (v', next') = (if n = 0 then vec_reserve next 1 v else (v, next))
      in pool_emplace \<lparr>btype = type, bvec = v'\<rparr> next' p)"

text \<open>\<open>Allocator::reallocate\<close> as it is written: the buffer asked for is found, but it is the
  last buffer of the pool, \<open>m_pool.back()\<close>, whose memory is resized. The buffer found is
  shrunk to what it holds and its address returned.\<close>

definition octet_reallocate :: "nat \<Rightarrow> nat \<Rightarrow> buffer pool \<Rightarrow> exn + nat \<times> buffer pool" where
  "octet_reallocate h n p =
     (case pool_find h p of
        None \<Rightarrow> Inl Undefined_behaviour
      | Some b \<Rightarrow>
          let back = last (pbufs p);
              (v1, next1) = vec_resize (pnext p) n (bvec back);
              p1 = p\<lparr>pbufs := butlast (pbufs p) @ [back\<lparr>bvec := v1\<rparr>], pnext := next1\<rparr>;
              at = (if handle_of back = h then handle_of (back\<lparr>bvec := v1\<rparr>) else h)
          in if n \<noteq> 0 then
               (case pool_find at p1 of
                  None \<Rightarrow> Inl Undefined_behaviour
                | Some r \<Rightarrow>
                    let (v2, next2) = vec_shrink next1 (bvec r)
                    in Inr (vbase v2, pool_update at (r\<lparr>bvec := v2\<rparr>) next2 p1))
             else
               let (v2, next2) = vec_reserve next1 1 v1
               in Inr (if handle_of back = h then vbase v2 else h,
                       p1\<lparr>pbufs := butlast (pbufs p) @ [back\<lparr>bvec := v2\<rparr>], pnext := next2\<rparr>))"

definition casual_octet_explore_buffer :: "nat \<Rightarrow> buffer pool \<Rightarrow> int option \<times> (string \<times> int) option" where
  "casual_octet_explore_buffer h p =
     (case pool_get h p of
        Inl e \<Rightarrow> (octet_error e, None)
      | Inr b \<Rightarrow> (Some CASUAL_OCTET_SUCCESS,
                  Some (snd (dismantle (btype b)), int (length (vmem (bvec b))))))"

definition octet_set :: "nat \<Rightarrow> bytes \<Rightarrow> buffer pool \<Rightarrow> int option \<times> nat \<times> buffer pool" where
  "octet_set h data p =
     (case pool_get h p of
        Inl e \<Rightarrow> (octet_error e, h, p)
      | Inr b \<Rightarrow>
          let (v, next) = vec_copy (pnext p) data (bvec b);
              b' = b\<lparr>bvec := v\<rparr>
          in (Some CASUAL_OCTET_SUCCESS, handle_of b', pool_update h b' next p))"

definition casual_octet_set :: "nat \<Rightarrow> bytes \<Rightarrow> int \<Rightarrow> buffer pool \<Rightarrow> int option \<times> nat \<times> buffer pool" where
  "casual_octet_set h data n p =
     (if n < 0 then (Some CASUAL_OCTET_INVALID_ARGUMENT, h, p) else octet_set h (take (nat n) data) p)"

definition casual_octet_get :: "nat \<Rightarrow> buffer pool \<Rightarrow> int option \<times> bytes option" where
  "casual_octet_get h p =
     (case pool_get h p of
        Inl e \<Rightarrow> (octet_error e, None)
      | Inr b \<Rightarrow> (Some CASUAL_OCTET_SUCCESS, Some (vmem (bvec b))))"

section \<open>Lemmas\<close>

lemma vec_resize_step:
  assumes "vec_ok n v" and "vbase v \<noteq> 0" and "vec_resize n k v = (v', n')"
  shows "vec_step n v (v', n') \<and> vbase v' \<noteq> 0 \<and> vec_ok n' v'
     \<and> vmem v' = take k (vmem v) @ replicate (k - length (vmem v)) 0"
  using vec_store_step [OF assms(1,2)] assms(3) unfolding vec_resize_def by blast

lemma vec_step_overwrite:
  "vec_step n v (u, k) \<Longrightarrow> length m = length (vmem u) \<Longrightarrow> vec_step n v (u\<lparr>vmem := m\<rparr>, k)"
  by (auto simp: vec_step_def vec_ok_def)

lemma vec_copy_step:
  assumes "vec_ok n v" and "vbase v \<noteq> 0" and "vec_copy n m v = (v', n')"
  shows "vec_step n v (v', n') \<and> vbase v' \<noteq> 0 \<and> vmem v' = m"
proof -
  obtain u k where r: "vec_resize n (length m) v = (u, k)" by force
  note s = vec_resize_step [OF assms(1,2) r]
  have "length m = length (vmem u)" using s length_resized [of "length m" "vmem v" 0] by metis
  moreover have "v' = u\<lparr>vmem := m\<rparr>" "n' = k" using assms(3) r by (simp_all add: vec_copy_def)
  ultimately show ?thesis using s vec_step_overwrite by simp
qed

text \<open>A buffer that holds a terminated string.\<close>

definition terminated :: "vec \<Rightarrow> bool" where
  "terminated v \<longleftrightarrow> 0 \<in> set (vmem v)"

definition string_pool_ok :: "buffer pool \<Rightarrow> bool" where
  "string_pool_ok p \<longleftrightarrow> pool_ok p \<and> 0 < pnext p \<and> (\<forall>b\<in>set (pbufs p). terminated (bvec b))"

lemma strlen_terminated:
  assumes "terminated v" and "vbase v \<noteq> 0"
  shows "c_strlen v slack = Some (length (takeWhile (\<lambda>c. c \<noteq> 0) (vmem v)))
     \<and> length (takeWhile (\<lambda>c. c \<noteq> 0) (vmem v)) < length (vmem v)"
proof -
  have z: "0 \<in> set (vmem v)" using assms(1) by (simp add: terminated_def)
  then have t: "takeWhile (\<lambda>c. c \<noteq> 0) (vmem v @ slack) = takeWhile (\<lambda>c. c \<noteq> 0) (vmem v)"
    by (subst takeWhile_append1) auto
  have "takeWhile (\<lambda>c. c \<noteq> 0) (vmem v) \<noteq> vmem v" using z by (auto simp: takeWhile_eq_all_conv)
  then have "length (takeWhile (\<lambda>c. c \<noteq> 0) (vmem v)) < length (vmem v)"
    by (metis length_takeWhile_le le_neq_implies_less takeWhile_eq_take take_all order_refl)
  with t z assms(2) show ?thesis by (simp add: c_strlen_def)
qed

lemma string_pool_update:
  assumes "string_pool_ok p" and "pool_find h p = Some b"
    and "vec_step (pnext p) (bvec b) (bvec b', next')" and "vbase (bvec b') \<noteq> 0" and "terminated (bvec b')"
  shows "string_pool_ok (pool_update h b' next' p)"
proof -
  have "pool_ok (pool_update h b' next' p)"
    using pool_step [OF _ assms(2-4)] assms(1) by (simp add: string_pool_ok_def)
  moreover have "0 < pnext (pool_update h b' next' p)"
    using assms(3) by (simp add: pool_update_def vec_step_def vec_ok_def)
  moreover have "\<forall>x\<in>set (pbufs (pool_update h b' next' p)). terminated (bvec x)"
    using assms(1,5) by (auto simp: pool_update_def string_pool_ok_def dest: set_update_first)
  ultimately show ?thesis by (simp add: string_pool_ok_def)
qed

lemma string_pool_emplace:
  assumes "string_pool_ok p" and "pnext p \<le> vbase v" and "vec_ok next v" and "pnext p \<le> next" and "terminated v"
  shows "string_pool_ok (snd (pool_emplace \<lparr>btype = type, bvec = v\<rparr> next p))"
proof -
  have "pool_ok (snd (pool_emplace \<lparr>btype = type, bvec = v\<rparr> next p))"
    by (rule pool_emplace_ok) (use assms in \<open>auto simp: string_pool_ok_def handle_of_def\<close>)
  then show ?thesis using assms by (auto simp: string_pool_ok_def pool_emplace_def)
qed

lemma vec_of_fresh:
  assumes "0 < n" and "m \<noteq> []" and "vec_of n m = (v, n')"
  shows "n \<le> vbase v \<and> vec_ok n' v \<and> n \<le> n' \<and> vmem v = m"
  using assms by (auto simp: vec_of_def vec_block_def vec_ok_def)

lemma string_allocate_ok:
  assumes "string_pool_ok p"
  shows "string_pool_ok (snd (string_allocate type n p))"
proof -
  let ?m = "replicate (if n = 0 then 1 else n) (0::byte)"
  obtain v k where v: "vec_of (pnext p) ?m = (v, k)" by force
  have f: "pnext p \<le> vbase v \<and> vec_ok k v \<and> pnext p \<le> k \<and> vmem v = ?m"
    by (rule vec_of_fresh [OF _ _ v]) (use assms in \<open>auto simp: string_pool_ok_def\<close>)
  then have nz: "vbase v \<noteq> 0" using assms by (auto simp: string_pool_ok_def)
  have "(vmem v)[0 := 0] = ?m" using f by (cases n) auto
  then have "string_allocate type n p
      = pool_emplace \<lparr>btype = type, bvec = v\<lparr>vmem := ?m\<rparr>\<rparr> k p"
    using v nz by (simp add: string_allocate_def payload_vec_def Let_def)
  then show ?thesis using string_pool_emplace [OF assms, of "v\<lparr>vmem := ?m\<rparr>" k type] f
    by (auto simp: terminated_def vec_ok_def)
qed

lemma string_insert_ok:
  assumes "string_pool_ok p" and "string_insert slack type m p = Inr (h, p')"
  shows "string_pool_ok p' \<and> 0 \<in> set m"
proof -
  obtain v k where v: "vec_of (pnext p) m = (v, k)" by force
  obtain s where s: "string_validate slack v = Inr s" and p': "(h, p') = pool_emplace \<lparr>btype = type, bvec = v\<rparr> k p"
    using assms(2) v by (auto simp: string_insert_def split: sum.splits)
  have vm: "vmem v = m" using v vmem_vec_of [of "pnext p" m] by simp
  obtain n where n: "c_strlen v slack = Some n" and nl: "n < length m"
    using s vm by (auto simp: string_validate_def split: option.splits if_splits)
  have z: "0 \<in> set m"
  proof (rule ccontr)
    assume "0 \<notin> set m"
    then have "takeWhile (\<lambda>c. c \<noteq> 0) (m @ slack) = m @ takeWhile (\<lambda>c. c \<noteq> 0) slack"
      by (subst takeWhile_append2) auto
    with n nl vm show False by (auto simp: c_strlen_def split: if_splits)
  qed
  then have "pnext p \<le> vbase v \<and> vec_ok k v \<and> pnext p \<le> k \<and> vmem v = m"
    by (intro vec_of_fresh [OF _ _ v]) (use assms in \<open>auto simp: string_pool_ok_def\<close>)
  then have "string_pool_ok (snd (pool_emplace \<lparr>btype = type, bvec = v\<rparr> k p))"
    using string_pool_emplace [OF assms(1)] z by (simp add: terminated_def)
  then show ?thesis using p' z by (metis snd_conv)
qed

lemma string_reallocate_ok:
  assumes ok: "string_pool_ok p" and re: "string_reallocate h n p = Inr (h', p')"
  shows "string_pool_ok p'"
proof -
  obtain b where b: "pool_find h p = Some b"
    using re by (auto simp: string_reallocate_def split: option.splits)
  have fnd: "vec_ok (pnext p) (bvec b)" "vbase (bvec b) \<noteq> 0"
    using pool_ok_found [of p h b] ok b by (auto simp: string_pool_ok_def)
  let ?n = "if n = 0 then 1 else n"
  obtain v1 n1 where 1: "vec_resize (pnext p) ?n (bvec b) = (v1, n1)" by force
  define v2 where "v2 = v1\<lparr>vmem := (vmem v1)[length (vmem v1) - 1 := 0]\<rparr>"
  obtain v3 n3 where 3: "vec_shrink n1 v2 = (v3, n3)" by force
  note s1 = vec_resize_step [OF fnd 1]
  have l: "length (vmem v1) = ?n" using s1 length_resized [of ?n "vmem (bvec b)" 0] by metis
  then have ne: "vmem v1 \<noteq> []" by (auto split: if_splits)
  have s2: "vec_step (pnext p) (bvec b) (v2, n1)" "vec_ok n1 v2" "vbase v2 \<noteq> 0" "vmem v2 \<noteq> []"
    using s1 ne unfolding v2_def by (auto intro!: vec_step_overwrite simp: vec_ok_def)
  have z: "0 \<in> set (vmem v2)" using ne by (simp add: v2_def set_update_memI)
  note s3 = vec_shrink_step [OF s2(2) s2(4) s2(3) 3]
  have "p' = pool_update h (b\<lparr>bvec := v3\<rparr>) n3 p"
    using re b 1 3 by (simp add: string_reallocate_def v2_def Let_def)
  moreover have "string_pool_ok (pool_update h (b\<lparr>bvec := v3\<rparr>) n3 p)"
    by (rule string_pool_update [OF ok b])
      (use s3 z vec_step_trans [OF s2(1)] in \<open>auto simp: terminated_def\<close>)
  ultimately show ?thesis by simp
qed

lemma string_set_holds:
  assumes ok: "string_pool_ok p" and b: "pool_find h p = Some b"
  shows "\<exists>h' p'. casual_string_set h value p = (Some CASUAL_STRING_SUCCESS, h', p')
     \<and> string_pool_ok p' \<and> only_moves p h p' h'
     \<and> (\<exists>b'. pool_find h' p' = Some b' \<and> vbase (bvec b') \<noteq> 0
           \<and> vmem (bvec b') = takeWhile (\<lambda>c. c \<noteq> 0) value @ [0])"
proof -
  have fnd: "vec_ok (pnext p) (bvec b)" "vbase (bvec b) \<noteq> 0" "pool_ok p"
    using pool_ok_found [of p h b] ok b by (auto simp: string_pool_ok_def)
  let ?m = "takeWhile (\<lambda>c. c \<noteq> 0) value @ [0]"
  obtain v n where v: "vec_copy (pnext p) ?m (bvec b) = (v, n)" by force
  note s = vec_copy_step [OF fnd(1,2) v]
  let ?b = "b\<lparr>bvec := v\<rparr>"
  have "string_pool_ok (pool_update h ?b n p)"
    by (rule string_pool_update [OF ok b]) (use s in \<open>simp_all add: terminated_def\<close>)
  moreover have "pool_find (handle_of ?b) (pool_update h ?b n p) = Some ?b
      \<and> only_moves p h (pool_update h ?b n p) (handle_of ?b)"
    using pool_step [OF fnd(3) b, of ?b n] s by simp
  ultimately show ?thesis using b v s
    by (simp add: casual_string_set_def pool_get_def Let_def)
qed

lemma string_get_value:
  assumes "pool_find h p = Some b" and "terminated (bvec b)" and "vbase (bvec b) \<noteq> 0"
  shows "casual_string_get slack h p = (Some CASUAL_STRING_SUCCESS, Some (takeWhile (\<lambda>c. c \<noteq> 0) (vmem (bvec b))))"
  using strlen_terminated [OF assms(2,3), of slack] assms(1)
  by (auto simp: casual_string_get_def pool_get_def takeWhile_eq_take [symmetric])

section \<open>Properties\<close>

definition string_start :: "buffer pool" where
  "string_start = snd (string_allocate ''CSTRING/'' 2 \<lparr>pbufs = [], pnext = 1\<rparr>)"

lemma string_start_eq:
  "string_start = \<lparr>pbufs = [\<lparr>btype = ''CSTRING/'', bvec = \<lparr>vbase = 1, vcap = 2, vmem = [0, 0]\<rparr>\<rparr>], pnext = 3\<rparr>"
  by (simp add: string_start_def string_allocate_def payload_vec_def pool_emplace_def vec_of_def
      vec_reserve_def vec_block_def numeral_2_eq_2 numeral_3_eq_3 Let_def)

lemma string_start_ok: "string_pool_ok string_start"
  by (simp add: string_start_eq string_pool_ok_def pool_ok_def vec_ok_def handle_of_def terminated_def)

lemma string_start_find:
  "pool_find 1 string_start = Some \<lparr>btype = ''CSTRING/'', bvec = \<lparr>vbase = 1, vcap = 2, vmem = [0, 0]\<rparr>\<rparr>"
  by (simp add: string_start_eq pool_find_def handle_of_def)

text \<open>
  A string comes back: after \<open>casual_string_set\<close>, which grows the buffer as needed and may
  move its handle, \<open>casual_string_get\<close> returns the string up to its terminator, whatever lies
  in memory behind it, and the size reported is exactly the string's with the terminator.
\<close>

theorem string_set_get:
  assumes "string_pool_ok p" and "pool_find h p = Some b"
  shows "\<exists>h' p'. casual_string_set h value p = (Some CASUAL_STRING_SUCCESS, h', p')
     \<and> casual_string_get slack h' p' = (Some CASUAL_STRING_SUCCESS, Some (takeWhile (\<lambda>c. c \<noteq> 0) value))
     \<and> casual_string_explore_buffer slack h' p' = (Some CASUAL_STRING_SUCCESS,
          Some (int (length (takeWhile (\<lambda>c. c \<noteq> 0) value)) + 1, int (length (takeWhile (\<lambda>c. c \<noteq> 0) value)) + 1))
     \<and> only_moves p h p' h'"
proof -
  obtain h' p' b' where s: "casual_string_set h value p = (Some CASUAL_STRING_SUCCESS, h', p')"
    "only_moves p h p' h'" "pool_find h' p' = Some b'" "vbase (bvec b') \<noteq> 0"
    and m: "vmem (bvec b') = takeWhile (\<lambda>c. c \<noteq> 0) value @ [0]"
    using string_set_holds [OF assms] by blast
  have t: "terminated (bvec b')" by (simp add: m terminated_def)
  have "takeWhile (\<lambda>c. c \<noteq> 0) (takeWhile (\<lambda>c. c \<noteq> 0) value @ [0]) = takeWhile (\<lambda>c. c \<noteq> 0) value"
    by (subst takeWhile_append2) (auto dest: set_takeWhileD)
  then show ?thesis
    using s string_get_value [OF s(3) t s(4), of slack] strlen_terminated [OF t s(4), of slack]
    by (simp add: m casual_string_explore_buffer_def pool_get_def)
qed

theorem string_set_get_witness:
  "\<exists>h' p'. casual_string_set 1 [104, 105, 33, 0, 7] string_start = (Some CASUAL_STRING_SUCCESS, h', p')
     \<and> casual_string_get [9] h' p' = (Some CASUAL_STRING_SUCCESS, Some [104, 105, 33])"
  using string_set_get [OF string_start_ok string_start_find, of "[104, 105, 33, 0, 7]" "[9]"] by auto

text \<open>
  C40. Every string in the pool has its terminator within its own memory: allocation,
  reallocation to any size, setting, deallocation and the insertion of a received payload
  keep it so, and as long as it holds a buffer can be sent: \<open>transport\<close> never fails and never
  reads outside.
\<close>

theorem string_pool_terminated:
  assumes "string_pool_ok p"
  shows "string_pool_ok (snd (string_allocate type n p))
     \<and> (\<forall>h' p'. string_reallocate h n p = Inr (h', p') \<longrightarrow> string_pool_ok p')
     \<and> (\<forall>h' p'. string_insert slack type m p = Inr (h', p') \<longrightarrow> string_pool_ok p')
     \<and> string_pool_ok (snd (snd (casual_string_set h value p)))
     \<and> string_pool_ok (pool_deallocate h p)
     \<and> (\<forall>b\<in>set (pbufs p). \<exists>k. string_transport slack user b = Inr k \<and> 0 < k \<and> k \<le> int (length (vmem (bvec b))))"
proof (intro conjI allI impI ballI)
  show "string_pool_ok (snd (string_allocate type n p))" by (rule string_allocate_ok [OF assms])
  show "string_pool_ok p'" if "string_reallocate h n p = Inr (h', p')" for h' p'
    by (rule string_reallocate_ok [OF assms that])
  show "string_pool_ok p'" if "string_insert slack type m p = Inr (h', p')" for h' p'
    using string_insert_ok [OF assms that] by simp
  show "string_pool_ok (snd (snd (casual_string_set h value p)))"
  proof (cases "pool_find h p")
    case None
    then show ?thesis using assms by (simp add: casual_string_set_def pool_get_def)
  next
    case (Some b)
    then show ?thesis using string_set_holds [OF assms Some, of "value"] by auto
  qed
  show "string_pool_ok (pool_deallocate h p)"
    using assms pool_deallocate_ok [of p h]
    by (auto simp: string_pool_ok_def pool_deallocate_def dest: set_remove_first [THEN subsetD])
  fix b assume b: "b \<in> set (pbufs p)"
  then have "terminated (bvec b)" "vbase (bvec b) \<noteq> 0"
    using assms by (auto simp: string_pool_ok_def pool_ok_def handle_of_def)
  then show "\<exists>k. string_transport slack user b = Inr k \<and> 0 < k \<and> k \<le> int (length (vmem (bvec b)))"
    using strlen_terminated [of "bvec b" slack] by (auto simp: string_transport_def string_validate_def)
qed

theorem string_pool_terminated_witness: "string_pool_ok (snd (snd (casual_string_set 1 [104, 105, 33] string_start)))"
  using string_pool_terminated [OF string_start_ok] by blast

text \<open>
  \<open>reallocate\<close> of the octet buffers resizes the wrong buffer: unless the buffer asked for
  is the last of the pool, its own content keeps its size, and the last buffer's content is
  cut or extended to the size asked for.
\<close>

theorem octet_reallocate_resizes_last:
  assumes "pool_ok p" and "pool_find h p = Some b" and "handle_of (last (pbufs p)) \<noteq> h"
    and "n \<noteq> 0" and "n \<le> vcap (bvec (last (pbufs p)))" and "length (vmem (bvec b)) = vcap (bvec b)"
  shows "\<exists>p'. octet_reallocate h n p = Inr (h, p')
     \<and> (\<exists>b'. pool_find h p' = Some b' \<and> vmem (bvec b') = vmem (bvec b))
     \<and> vmem (bvec (last (pbufs p'))) = take n (vmem (bvec (last (pbufs p))))
          @ replicate (n - length (vmem (bvec (last (pbufs p))))) 0"
proof -
  let ?lst = "last (pbufs p)"
  let ?m = "take n (vmem (bvec ?lst)) @ replicate (n - length (vmem (bvec ?lst))) 0"
  let ?v1 = "(bvec ?lst)\<lparr>vmem := ?m\<rparr>"
  have ne: "pbufs p \<noteq> []" using assms(2) by (auto simp: pool_find_def)
  have r: "vec_resize (pnext p) n (bvec ?lst) = (?v1, pnext p)"
    using assms(5) by (simp add: vec_resize_def vec_store_def min_def)
  let ?p1 = "p\<lparr>pbufs := butlast (pbufs p) @ [?lst\<lparr>bvec := ?v1\<rparr>], pnext := pnext p\<rparr>"
  have split: "pbufs p = butlast (pbufs p) @ [?lst]" using ne by simp
  have "List.find (\<lambda>x. handle_of x = h) (butlast (pbufs p) @ [?lst]) = Some b"
    using assms(2) ne by (simp add: pool_find_def)
  then have fb: "List.find (\<lambda>x. handle_of x = h) (butlast (pbufs p)) = Some b"
    using assms(3) by (auto simp: find_snoc split: option.splits if_splits)
  then have f1: "pool_find h ?p1 = Some b" by (simp add: pool_find_def find_snoc)
  have sh: "vec_shrink (pnext p) (bvec b) = (bvec b, pnext p)" using assms(6) by (simp add: vec_shrink_def)
  have hb: "vbase (bvec b) = h" using pool_ok_found [OF assms(1,2)] by simp
  obtain ys zs where "butlast (pbufs p) = ys @ b # zs" "handle_of b = h" "\<forall>y\<in>set ys. handle_of y \<noteq> h"
    using find_Some_split [OF fb] by blast
  then have up: "update_first (\<lambda>x. handle_of x = h) (\<lambda>_. b\<lparr>bvec := bvec b\<rparr>) (butlast (pbufs p) @ [?lst\<lparr>bvec := ?v1\<rparr>])
      = butlast (pbufs p) @ [?lst\<lparr>bvec := ?v1\<rparr>]"
    using update_first_split [of ys "\<lambda>x. handle_of x = h" b] by simp
  have "octet_reallocate h n p = Inr (h, ?p1)"
    using assms(2-4) r f1 sh hb up by (simp add: octet_reallocate_def pool_update_def Let_def)
  then show ?thesis using f1 by auto
qed

theorem octet_reallocate_resizes_last_witness:
  "\<exists>p'. octet_reallocate 1 1 \<lparr>pbufs = [\<lparr>btype = ''COCTET/'', bvec = \<lparr>vbase = 1, vcap = 2, vmem = [5, 6]\<rparr>\<rparr>,
       \<lparr>btype = ''COCTET/'', bvec = \<lparr>vbase = 3, vcap = 2, vmem = [7, 8]\<rparr>\<rparr>], pnext = 5\<rparr> = Inr (1, p')
     \<and> vmem (bvec (last (pbufs p'))) = [7]"
  using octet_reallocate_resizes_last [of "\<lparr>pbufs = [\<lparr>btype = ''COCTET/'', bvec = \<lparr>vbase = 1, vcap = 2, vmem = [5, 6]\<rparr>\<rparr>,
       \<lparr>btype = ''COCTET/'', bvec = \<lparr>vbase = 3, vcap = 2, vmem = [7, 8]\<rparr>\<rparr>], pnext = 5\<rparr>" 1
       "\<lparr>btype = ''COCTET/'', bvec = \<lparr>vbase = 1, vcap = 2, vmem = [5, 6]\<rparr>\<rparr>" 1]
  by (auto simp: pool_ok_def vec_ok_def handle_of_def pool_find_def)

end
