(* ===== verification/Allocator.thy ===== *)
theory Allocator
  imports FieldLaws OrderBuffer TextBuffers
begin

text \<open>
  What \<open>common/buffer/pool.h\<close> relies on in every registered pool: allocate, reallocate and
  deallocate, as a contract about handles. The client's facts (live handles stay valid and
  keep their content while other handles come and go) are proved from the contract and
  hold for the plain, the fielded, the ordered and the string pool.
\<close>

text \<open>What a caller can do with handles.\<close>

datatype pool_call = Alloc nat | Realloc nat nat | Dealloc nat

text \<open>A sequence of calls, on any pool; \<open>None\<close> when a reallocation of a dead handle ends it.\<close>

fun pool_calls :: "(nat \<Rightarrow> 'p \<Rightarrow> nat \<times> 'p) \<Rightarrow> (nat \<Rightarrow> nat \<Rightarrow> 'p \<Rightarrow> exn + nat \<times> 'p) \<Rightarrow> (nat \<Rightarrow> 'p \<Rightarrow> 'p)
     \<Rightarrow> pool_call list \<Rightarrow> 'p \<Rightarrow> 'p option" where
  "pool_calls alloc realloc dealloc [] p = Some p"
| "pool_calls alloc realloc dealloc (Alloc n # cs) p = pool_calls alloc realloc dealloc cs (snd (alloc n p))"
| "pool_calls alloc realloc dealloc (Realloc h n # cs) p =
     (case realloc h n p of Inl _ \<Rightarrow> None | Inr (_, p') \<Rightarrow> pool_calls alloc realloc dealloc cs p')"
| "pool_calls alloc realloc dealloc (Dealloc h # cs) p = pool_calls alloc realloc dealloc cs (dealloc h p)"

fun touches :: "nat \<Rightarrow> pool_call \<Rightarrow> bool" where
  "touches h (Alloc _) = False"
| "touches h (Realloc g _) = (g = h)"
| "touches h (Dealloc g) = (g = h)"

locale buffer_allocator =
  fixes alloc :: "nat \<Rightarrow> 'p \<Rightarrow> nat \<times> 'p"
    and realloc :: "nat \<Rightarrow> nat \<Rightarrow> 'p \<Rightarrow> exn + nat \<times> 'p"
    and dealloc :: "nat \<Rightarrow> 'p \<Rightarrow> 'p"
    and look :: "nat \<Rightarrow> 'p \<Rightarrow> 'b option"
    and invar :: "'p \<Rightarrow> bool"
  assumes alloc_invar: "invar p \<Longrightarrow> invar (snd (alloc n p))"
    and alloc_new: "invar p \<Longrightarrow> look (fst (alloc n p)) p = None"
    and alloc_live: "invar p \<Longrightarrow> look (fst (alloc n p)) (snd (alloc n p)) \<noteq> None"
    and alloc_other: "invar p \<Longrightarrow> g \<noteq> fst (alloc n p) \<Longrightarrow> look g (snd (alloc n p)) = look g p"
    and realloc_ok: "invar p \<Longrightarrow> look h p \<noteq> None \<Longrightarrow> \<exists>r. realloc h n p = Inr r"
    and realloc_bad: "look h p = None \<Longrightarrow> realloc h n p = Inl Undefined_behaviour"
    and realloc_invar: "invar p \<Longrightarrow> realloc h n p = Inr (h', p') \<Longrightarrow> invar p'"
    and realloc_live: "invar p \<Longrightarrow> realloc h n p = Inr (h', p') \<Longrightarrow> look h' p' \<noteq> None"
    and realloc_moved: "invar p \<Longrightarrow> realloc h n p = Inr (h', p') \<Longrightarrow> h' \<noteq> h \<Longrightarrow>
          look h' p = None \<and> look h p' = None"
    and realloc_other: "invar p \<Longrightarrow> realloc h n p = Inr (h', p') \<Longrightarrow> g \<noteq> h \<Longrightarrow> g \<noteq> h' \<Longrightarrow>
          look g p' = look g p"
    and dealloc_invar: "invar p \<Longrightarrow> invar (dealloc h p)"
    and dealloc_look: "invar p \<Longrightarrow> look g (dealloc h p) = (if g = h then None else look g p)"
begin

lemma calls_invar: "invar p \<Longrightarrow> pool_calls alloc realloc dealloc cs p = Some p' \<Longrightarrow> invar p'"
proof (induction cs arbitrary: p)
  case (Cons c cs)
  have al: "invar (snd (alloc n p))" for n using alloc_invar [OF Cons.prems(1)] .
  have de: "invar (dealloc h p)" for h using dealloc_invar [OF Cons.prems(1)] .
  show ?case
  proof (cases c)
    case (Alloc n)
    then show ?thesis using Cons.IH [OF al] Cons.prems(2) by simp
  next
    case (Realloc h n)
    then show ?thesis using Cons.prems Cons.IH [OF realloc_invar [OF Cons.prems(1)]]
      by (auto split: sum.splits)
  next
    case (Dealloc h)
    then show ?thesis using Cons.IH [OF de] Cons.prems(2) by simp
  qed
qed simp

lemma calls_keep:
  "invar p \<Longrightarrow> look h p = Some b \<Longrightarrow> \<forall>c\<in>set cs. \<not> touches h c \<Longrightarrow> pool_calls alloc realloc dealloc cs p = Some p' \<Longrightarrow>
     look h p' = Some b"
proof (induction cs arbitrary: p)
  case (Cons c cs)
  show ?case
  proof (cases c)
    case (Alloc n)
    have "look h (snd (alloc n p)) = Some b"
      using alloc_other [OF Cons.prems(1)] alloc_new [OF Cons.prems(1)] Cons.prems(2)
      by (metis option.distinct(1))
    then show ?thesis using Cons Alloc alloc_invar by auto
  next
    case (Realloc g n)
    then obtain h' p1 where r: "realloc g n p = Inr (h', p1)" and rest: "pool_calls alloc realloc dealloc cs p1 = Some p'"
      using Cons.prems(4) by (auto split: sum.splits)
    have "g \<noteq> h" using Cons.prems(3) Realloc by simp
    moreover have "h' \<noteq> h" using realloc_moved [OF Cons.prems(1) r] Cons.prems(2) \<open>g \<noteq> h\<close> by auto
    ultimately have "look h p1 = Some b" using realloc_other [OF Cons.prems(1) r] Cons.prems(2) by simp
    then show ?thesis using Cons.IH [OF realloc_invar [OF Cons.prems(1) r]] Cons.prems(3) rest by simp
  next
    case (Dealloc g)
    then have "look h (dealloc g p) = Some b"
      using dealloc_look [OF Cons.prems(1)] Cons.prems(2,3) by simp
    then show ?thesis using Cons Dealloc dealloc_invar by auto
  qed
qed simp

text \<open>A new handle is not one that is live.\<close>

lemma alloc_distinct: "invar p \<Longrightarrow> look h p \<noteq> None \<Longrightarrow> fst (alloc n p) \<noteq> h"
  using alloc_new [of p n] by auto

end

section \<open>The pools of the code\<close>

definition pool_inv :: "'a buffer_scheme pool \<Rightarrow> bool" where
  "pool_inv p \<longleftrightarrow> pool_ok p \<and> 0 < pnext p"

lemma pool_inv_emplace:
  assumes "pool_inv p" and "pnext p \<le> handle_of b" and "vec_ok next (bvec b)" and "pnext p \<le> next"
  shows "pool_inv (snd (pool_emplace b next p))"
    and "pool_find (fst (pool_emplace b next p)) p = None"
    and "pool_find g (snd (pool_emplace b next p)) = (if g = fst (pool_emplace b next p) then Some b else pool_find g p)"
proof -
  have a: "pool_ok p" "0 < pnext p" using assms(1) by (simp_all add: pool_inv_def)
  note e = pool_emplace_ok [OF a(1) assms(2-4) a(2)]
  show "pool_inv (snd (pool_emplace b next p))"
    using e(1) assms(4) a(2) by (simp add: pool_inv_def pool_emplace_def)
  show "pool_find (fst (pool_emplace b next p)) p = None"
    using pool_fresh [OF a(1) assms(2) a(2)] by (simp add: pool_emplace_def)
  show "pool_find g (snd (pool_emplace b next p)) = (if g = fst (pool_emplace b next p) then Some b else pool_find g p)"
    using e(2) by (simp add: pool_emplace_def)
qed

lemma pool_inv_update:
  assumes "pool_inv p" and "pool_find h p = Some b"
    and "vec_step (pnext p) (bvec b) (bvec b', next')" and "vbase (bvec b') \<noteq> 0"
  shows "pool_inv (pool_update h b' next' p)
    \<and> pool_find (handle_of b') (pool_update h b' next' p) = Some b'
    \<and> only_moves p h (pool_update h b' next' p) (handle_of b')"
  using pool_step [OF _ assms(2-4)] assms(1,3)
  by (auto simp: pool_inv_def pool_update_def vec_step_def vec_ok_def)

lemma pool_inv_dealloc: "pool_inv p \<Longrightarrow> pool_inv (pool_deallocate h p)"
  by (simp add: pool_inv_def pool_deallocate_ok) (simp add: pool_deallocate_def)

text \<open>The block of a new payload, with room reserved in it.\<close>

lemma payload_vec_fresh:
  assumes "0 < n" and "payload_vec n k = (v, n')"
  shows "n \<le> vbase v \<and> vec_ok n' v \<and> n \<le> n' \<and> vmem v = replicate k 0"
  using assms by (auto simp: payload_vec_def vec_of_def vec_block_def vec_reserve_def vec_ok_def Let_def split: if_splits)

lemma reserve_fresh:
  assumes "vec_ok m v" and "n \<le> vbase v" and "0 < n" and "n \<le> m" and "vec_reserve m k v = (v', m')"
  shows "n \<le> vbase v' \<and> vec_ok m' v' \<and> n \<le> m'"
  using assms by (auto simp: vec_reserve_def vec_block_def vec_ok_def split: if_splits)

text \<open>The step of a reallocation that keeps or shrinks, common to field and order.\<close>

lemma shrink_or_reserve_step:
  assumes "vec_ok next v" and "vbase v \<noteq> 0"
    and "(if n < int (length (vmem v)) then vec_shrink next v else vec_reserve next k v) = (v', next')"
    and "0 \<le> n"
  shows "vec_step next v (v', next') \<and> vbase v' \<noteq> 0 \<and> vmem v' = vmem v"
proof (cases "n < int (length (vmem v))")
  case True
  then have "vmem v \<noteq> []" and "vec_shrink next v = (v', next')" using assms(3,4) by auto
  then show ?thesis using vec_shrink_step [OF assms(1) _ assms(2)] by blast
next
  case False
  then have "vec_reserve next k v = (v', next')" using assms(3) by simp
  then show ?thesis using vec_reserve_step [OF assms(1,2)] by blast
qed

lemma only_moves_laws:
  "only_moves p h p' h' \<Longrightarrow> (h' \<noteq> h \<longrightarrow> pool_find h' p = None \<and> pool_find h p' = None)
     \<and> (g \<noteq> h \<longrightarrow> g \<noteq> h' \<longrightarrow> pool_find g p' = pool_find g p)"
  by (auto simp: only_moves_def)

text \<open>A pool that allocates by a fresh block and reallocates by a step meets the contract.\<close>

lemma allocator_laws:
  fixes alloc :: "nat \<Rightarrow> 'a buffer_scheme pool \<Rightarrow> nat \<times> 'a buffer_scheme pool"
    and realloc :: "nat \<Rightarrow> nat \<Rightarrow> 'a buffer_scheme pool \<Rightarrow> exn + nat \<times> 'a buffer_scheme pool"
  assumes al: "\<And>n p. pool_inv p \<Longrightarrow> \<exists>b next. alloc n p = pool_emplace b next p
         \<and> pnext p \<le> handle_of b \<and> vec_ok next (bvec b) \<and> pnext p \<le> next"
    and none: "\<And>h n p. pool_find h p = None \<Longrightarrow> realloc h n p = Inl Undefined_behaviour"
    and some: "\<And>h n p b. pool_inv p \<Longrightarrow> pool_find h p = Some b \<Longrightarrow>
         \<exists>b' next. realloc h n p = Inr (handle_of b', pool_update h b' next p)
           \<and> vec_step (pnext p) (bvec b) (bvec b', next) \<and> vbase (bvec b') \<noteq> 0"
  shows "buffer_allocator alloc realloc pool_deallocate pool_find pool_inv"
proof -
  have re: "\<exists>b'. pool_inv p' \<and> pool_find h' p' = Some b' \<and> only_moves p h p' h'"
    if i: "pool_inv p" and r: "realloc h n p = Inr (h', p')" for p h n h' p'
  proof -
    obtain b where b: "pool_find h p = Some b" using none r by fastforce
    obtain b' nx where "realloc h n p = Inr (handle_of b', pool_update h b' nx p)"
      "vec_step (pnext p) (bvec b) (bvec b', nx)" "vbase (bvec b') \<noteq> 0" using some [OF i b] by blast
    then show ?thesis using pool_inv_update [OF i b] r by auto
  qed
  show ?thesis
  proof
    fix p :: "'a buffer_scheme pool" and n g assume i: "pool_inv p"
    obtain b nx where a: "alloc n p = pool_emplace b nx p" "pnext p \<le> handle_of b" "vec_ok nx (bvec b)" "pnext p \<le> nx"
      using al [OF i] by blast
    note e = pool_inv_emplace [OF i a(2-4)]
    show "pool_inv (snd (alloc n p))" "pool_find (fst (alloc n p)) p = None"
      "pool_find (fst (alloc n p)) (snd (alloc n p)) \<noteq> None"
      "g \<noteq> fst (alloc n p) \<Longrightarrow> pool_find g (snd (alloc n p)) = pool_find g p"
      using e unfolding a(1) by simp_all
  next
    fix p :: "'a buffer_scheme pool" and h n assume "pool_inv p" "pool_find h p \<noteq> None"
    then show "\<exists>r. realloc h n p = Inr r" using some by fastforce
  next
    fix p :: "'a buffer_scheme pool" and h n assume "pool_find h p = None"
    then show "realloc h n p = Inl Undefined_behaviour" by (rule none)
  next
    fix p :: "'a buffer_scheme pool" and h n h' p' g
    assume "pool_inv p" "realloc h n p = Inr (h', p')"
    from re [OF this] obtain b' where r: "pool_inv p'" "pool_find h' p' = Some b'" "only_moves p h p' h'" by blast
    show "pool_inv p'" "pool_find h' p' \<noteq> None" using r by simp_all
    show "h' \<noteq> h \<Longrightarrow> pool_find h' p = None \<and> pool_find h p' = None"
      "g \<noteq> h \<Longrightarrow> g \<noteq> h' \<Longrightarrow> pool_find g p' = pool_find g p"
      using only_moves_laws [OF r(3)] by blast+
  next
    fix p :: "'a buffer_scheme pool" and h g assume i: "pool_inv p"
    show "pool_inv (pool_deallocate h p)" by (rule pool_inv_dealloc [OF i])
    show "pool_find g (pool_deallocate h p) = (if g = h then None else pool_find g p)"
      using i by (simp add: pool_inv_def pool_deallocate_find)
  qed
qed

text \<open>\<open>reallocate\<close> of the plain pool answers a null pointer for an unknown handle; the pool
  holder never passes one.\<close>

definition plain_realloc :: "nat \<Rightarrow> nat \<Rightarrow> buffer pool \<Rightarrow> exn + nat \<times> buffer pool" where
  "plain_realloc h n p =
     (if pool_manage h p then Inr (plain_reallocate h n p) else Inl Undefined_behaviour)"

lemma found_step:
  "pool_inv p \<Longrightarrow> pool_find h p = Some b \<Longrightarrow> vec_ok (pnext p) (bvec b) \<and> vbase (bvec b) \<noteq> 0"
  using pool_ok_found [of p h b] by (auto simp: pool_inv_def)

lemma plain_resize_step:
  assumes "vec_ok n v" and "vbase v \<noteq> 0" and "vec_resize n k v = (v', n')"
  shows "vec_step n v (v', n') \<and> vbase v' \<noteq> 0"
  using vec_resize_step [OF assms] by simp

interpretation plain_pool: buffer_allocator "plain_allocate type" plain_realloc pool_deallocate pool_find pool_inv
  for type
proof (rule allocator_laws)
  fix n and p :: "buffer pool" assume i: "pool_inv p"
  obtain v k where v: "payload_vec (pnext p) n = (v, k)" by force
  have "pnext p \<le> vbase v \<and> vec_ok k v \<and> pnext p \<le> k \<and> vmem v = replicate n 0"
    by (rule payload_vec_fresh [OF _ v]) (use i in \<open>simp add: pool_inv_def\<close>)
  then show "\<exists>b next. plain_allocate type n p = pool_emplace b next p
         \<and> pnext p \<le> handle_of b \<and> vec_ok next (bvec b) \<and> pnext p \<le> next"
    using v by (intro exI [of _ "\<lparr>btype = type, bvec = v\<rparr>"] exI [of _ k])
      (simp add: plain_allocate_def handle_of_def)
next
  fix h n and p :: "buffer pool" and b assume i: "pool_inv p" and f: "pool_find h p = Some b"
  obtain v k where v: "vec_resize (pnext p) n (bvec b) = (v, k)" by force
  have s: "vec_step (pnext p) (bvec b) (v, k) \<and> vbase v \<noteq> 0"
    by (rule plain_resize_step [OF _ _ v]) (use found_step [OF i f] in auto)
  then show "\<exists>b' next. plain_realloc h n p = Inr (handle_of b', pool_update h b' next p)
           \<and> vec_step (pnext p) (bvec b) (bvec b', next) \<and> vbase (bvec b') \<noteq> 0"
    using f v by (auto simp: plain_realloc_def plain_reallocate_def pool_manage_def Let_def
        intro!: exI [of _ "b\<lparr>bvec := v\<rparr>"] exI [of _ k])
qed (simp add: plain_realloc_def pool_manage_def)

interpretation field_alloc: buffer_allocator "field_allocate type" "\<lambda>h n. field_reallocate h (int n)" pool_deallocate pool_find pool_inv
  for type
proof (rule allocator_laws)
  fix n and p :: field_pool assume i: "pool_inv p"
  obtain v k where v: "payload_vec (pnext p) 0 = (v, k)" by force
  obtain v' k' where v': "vec_reserve k (if n = 0 then 1 else n) v = (v', k')" by force
  have pos: "0 < pnext p" using i by (simp add: pool_inv_def)
  have "pnext p \<le> vbase v' \<and> vec_ok k' v' \<and> pnext p \<le> k'"
    using payload_vec_fresh [OF pos v] reserve_fresh [OF _ _ pos _ v'] by blast
  then show "\<exists>b next. field_allocate type n p = pool_emplace b next p
         \<and> pnext p \<le> handle_of b \<and> vec_ok next (bvec b) \<and> pnext p \<le> next"
    using v v' by (intro exI [of _ "mk_field [] \<lparr>btype = type, bvec = v'\<rparr>"] exI [of _ k'])
      (simp add: field_allocate_def mk_field_def buffer.defs handle_of_def)
next
  fix h n and p :: field_pool and b assume i: "pool_inv p" and f: "pool_find h p = Some b"
  let ?r = "if int n < int (length (vmem (bvec b))) then vec_shrink (pnext p) (bvec b)
            else vec_reserve (pnext p) (if int n = 0 then 1 else nat (int n)) (bvec b)"
  obtain v k where v: "?r = (v, k)" by force
  have "vec_step (pnext p) (bvec b) (v, k) \<and> vbase v \<noteq> 0 \<and> vmem v = vmem (bvec b)"
    by (rule shrink_or_reserve_step [OF _ _ v]) (use found_step [OF i f] in auto)
  then show "\<exists>b' next. field_reallocate h (int n) p = Inr (handle_of b', pool_update h b' next p)
           \<and> vec_step (pnext p) (bvec b) (bvec b', next) \<and> vbase (bvec b') \<noteq> 0"
    using f v by (intro exI [of _ "b\<lparr>bvec := v\<rparr>"] exI [of _ k]) (simp add: field_reallocate_def Let_def)
qed (simp add: field_reallocate_def)

interpretation order_alloc: buffer_allocator "order_allocate type" "\<lambda>h n. order_reallocate h (int n)" pool_deallocate pool_find pool_inv
  for type
proof (rule allocator_laws)
  fix n and p :: order_pool assume i: "pool_inv p"
  obtain v k where v: "payload_vec (pnext p) 0 = (v, k)" by force
  obtain v' k' where v': "vec_reserve k (if n = 0 then 1 else n) v = (v', k')" by force
  have pos: "0 < pnext p" using i by (simp add: pool_inv_def)
  have "pnext p \<le> vbase v' \<and> vec_ok k' v' \<and> pnext p \<le> k'"
    using payload_vec_fresh [OF pos v] reserve_fresh [OF _ _ pos _ v'] by blast
  then show "\<exists>b next. order_allocate type n p = pool_emplace b next p
         \<and> pnext p \<le> handle_of b \<and> vec_ok next (bvec b) \<and> pnext p \<le> next"
    using v v' by (intro exI [of _ "mk_order \<lparr>btype = type, bvec = v'\<rparr>"] exI [of _ k'])
      (simp add: order_allocate_def mk_order_def buffer.defs handle_of_def)
next
  fix h n and p :: order_pool and b assume i: "pool_inv p" and f: "pool_find h p = Some b"
  let ?r = "if int n < int (length (vmem (bvec b))) then vec_shrink (pnext p) (bvec b)
            else vec_reserve (pnext p) (if int n = 0 then 1 else nat (int n)) (bvec b)"
  obtain v k where v: "?r = (v, k)" by force
  have "vec_step (pnext p) (bvec b) (v, k) \<and> vbase v \<noteq> 0 \<and> vmem v = vmem (bvec b)"
    by (rule shrink_or_reserve_step [OF _ _ v]) (use found_step [OF i f] in auto)
  then show "\<exists>b' next. order_reallocate h (int n) p = Inr (handle_of b', pool_update h b' next p)
           \<and> vec_step (pnext p) (bvec b) (bvec b', next) \<and> vbase (bvec b') \<noteq> 0"
    using f v by (intro exI [of _ "b\<lparr>bvec := v\<rparr>"] exI [of _ k]) (simp add: order_reallocate_def Let_def)
qed (simp add: order_reallocate_def)

interpretation string_alloc: buffer_allocator "string_allocate type" string_reallocate pool_deallocate pool_find pool_inv
  for type
proof (rule allocator_laws)
  fix n and p :: "buffer pool" assume i: "pool_inv p"
  obtain v k where v: "payload_vec (pnext p) (if n = 0 then 1 else n) = (v, k)" by force
  have "pnext p \<le> vbase v \<and> vec_ok k v \<and> pnext p \<le> k \<and> vmem v = replicate (if n = 0 then 1 else n) 0"
    by (rule payload_vec_fresh [OF _ v]) (use i in \<open>simp add: pool_inv_def\<close>)
  then show "\<exists>b next. string_allocate type n p = pool_emplace b next p
         \<and> pnext p \<le> handle_of b \<and> vec_ok next (bvec b) \<and> pnext p \<le> next"
    using v by (intro exI [of _ "\<lparr>btype = type, bvec = v\<lparr>vmem := (vmem v)[0 := 0]\<rparr>\<rparr>"] exI [of _ k])
      (auto simp: string_allocate_def handle_of_def vec_ok_def)
next
  fix h n and p :: "buffer pool" and b assume i: "pool_inv p" and f: "pool_find h p = Some b"
  let ?n = "if n = 0 then 1 else n :: nat"
  obtain v1 n1 where 1: "vec_resize (pnext p) ?n (bvec b) = (v1, n1)" by force
  let ?v2 = "v1\<lparr>vmem := (vmem v1)[length (vmem v1) - 1 := 0]\<rparr>"
  obtain v3 n3 where 3: "vec_shrink n1 ?v2 = (v3, n3)" by force
  have s1: "vec_step (pnext p) (bvec b) (v1, n1) \<and> vbase v1 \<noteq> 0 \<and> vec_ok n1 v1
      \<and> vmem v1 = take ?n (vmem (bvec b)) @ replicate (?n - length (vmem (bvec b))) 0"
    by (rule vec_resize_step [OF _ _ 1]) (use found_step [OF i f] in auto)
  then have l: "length (vmem v1) = ?n" using length_resized [of ?n "vmem (bvec b)" 0] by metis
  have s2: "vec_step (pnext p) (bvec b) (?v2, n1)" "vec_ok n1 ?v2" "vbase ?v2 \<noteq> 0" "vmem ?v2 \<noteq> []"
    using s1 l by (auto intro!: vec_step_overwrite simp: vec_ok_def split: if_splits)
  have "vec_step (pnext p) (bvec b) (v3, n3) \<and> vbase v3 \<noteq> 0"
    using vec_shrink_step [OF s2(2,4,3) 3] vec_step_trans [OF s2(1)] by blast
  then show "\<exists>b' next. string_reallocate h n p = Inr (handle_of b', pool_update h b' next p)
           \<and> vec_step (pnext p) (bvec b) (bvec b', next) \<and> vbase (bvec b') \<noteq> 0"
    using f 1 3 by (intro exI [of _ "b\<lparr>bvec := v3\<rparr>"] exI [of _ n3]) (simp add: string_reallocate_def Let_def)
qed (simp add: string_reallocate_def)

section \<open>Properties\<close>

text \<open>
  A fielded buffer survives everything that happens to other buffers: whatever sequence of
  allocations, reallocations and deallocations with other handles the process makes, a live
  handle stays valid and stands for the same fields.
\<close>

theorem field_handle_stable:
  assumes "field_holds p h fs" and "0 < pnext p" and "\<forall>c\<in>set cs. \<not> touches h c"
    and "pool_calls (field_allocate type) (\<lambda>h n. field_reallocate h (int n)) pool_deallocate cs p = Some p'"
  shows "field_holds p' h fs"
proof -
  have i: "pool_inv p" using assms(1,2) by (simp add: pool_inv_def field_holds_def)
  obtain b where b: "pool_find h p = Some b" "field_rel b fs" using assms(1) by (auto simp: field_holds_def)
  have "pool_find h p' = Some b" by (rule field_alloc.calls_keep [OF i b(1) assms(3,4)])
  moreover have "pool_ok p'" using field_alloc.calls_invar [OF i assms(4)] by (simp add: pool_inv_def)
  ultimately show ?thesis using b(2) by (simp add: field_holds_def)
qed

theorem field_handle_stable_witness:
  "\<exists>h p'. pool_calls (field_allocate ''CFIELD/'') (\<lambda>h n. field_reallocate h (int n)) pool_deallocate [Alloc 8, Dealloc 7]
       (snd (field_allocate ''CFIELD/'' 16 \<lparr>pbufs = [], pnext = 1\<rparr>)) = Some p' \<and> field_holds p' h []"
proof -
  let ?p = "snd (field_allocate ''CFIELD/'' 16 \<lparr>pbufs = [], pnext = 1\<rparr>)"
  have e: "?p = \<lparr>pbufs = [mk_field [] \<lparr>btype = ''CFIELD/'', bvec = \<lparr>vbase = 2, vcap = 16, vmem = []\<rparr>\<rparr>], pnext = 18\<rparr>"
    by (simp add: field_allocate_def payload_vec_def pool_emplace_def vec_of_def
      vec_reserve_def vec_block_def numeral_2_eq_2)
  have h: "field_holds ?p 2 []"
    unfolding e by (simp add: field_holds_def pool_ok_def vec_ok_def handle_of_def mk_field_def
      buffer.defs pool_find_def field_rel_def index_matches_Nil)
  obtain p' where c: "pool_calls (field_allocate ''CFIELD/'') (\<lambda>h n. field_reallocate h (int n)) pool_deallocate
      [Alloc 8, Dealloc 7] ?p = Some p'" by simp
  have "field_holds p' 2 []"
    by (rule field_handle_stable [OF h _ _ c]) (simp_all add: e [simplified])
  with c show ?thesis by blast
qed

end
