(* ===== verification/ProcessMetric.thy ===== *)
theory ProcessMetric
  imports Prelude
begin

text \<open>
  What both managers keep of a process and of a measurement: \<open>process::Handle\<close>
  (\<open>common/process.h\<close>) with its ids as numbers, and \<open>Metric\<close> (\<open>common/metric.cpp\<close>).
\<close>

section \<open>Process handles\<close>

record handle =
  hpid :: int
  hipc :: nat

definition null_handle :: handle where "null_handle = \<lparr>hpid = -1, hipc = 0\<rparr>"

text \<open>The conversion to \<open>bool\<close>: both ids are valid.\<close>

definition handle_valid :: "handle \<Rightarrow> bool" where
  "handle_valid h \<longleftrightarrow> hpid h \<noteq> -1 \<and> hipc h \<noteq> 0"

lemma null_handle_invalid [simp]: "\<not> handle_valid null_handle"
  by (simp add: handle_valid_def null_handle_def)

section \<open>Metrics\<close>

record metric =
  m_count :: int
  m_total :: int
  m_min :: int
  m_max :: int

definition metric_zero :: metric where
  "metric_zero = \<lparr>m_count = 0, m_total = 0, m_min = 0, m_max = 0\<rparr>"

text \<open>Zero stands for "no minimum yet".\<close>

definition metric_min :: "int \<Rightarrow> int \<Rightarrow> int" where
  "metric_min a b = (if a = 0 then b else min a b)"

definition metric_add :: "int \<Rightarrow> metric \<Rightarrow> metric" where
  "metric_add d m = \<lparr>m_count = m_count m + 1, m_total = m_total m + d,
     m_min = metric_min (m_min m) d, m_max = max (m_max m) d\<rparr>"

definition metric_join :: "metric \<Rightarrow> metric \<Rightarrow> metric" where
  "metric_join m n = \<lparr>m_count = m_count m + m_count n, m_total = m_total m + m_total n,
     m_min = metric_min (m_min m) (m_min n), m_max = max (m_max m) (m_max n)\<rparr>"

end
