(* ===== verification/Coordinate.thy ===== *)
theory Coordinate
  imports Prelude
begin

text \<open>
  \<open>common/message/coordinate.h\<close>: the template \<open>fan::Out\<close>, which gathers the replies to a set
  of requests and calls back when none is outstanding. The callback is data, of type
  \<open>'c\<close>: an operation returns what fired, that is the callback with the replies received and
  the outcome of every request, and the caller runs it. (The callbacks in the code use
  other coordinations than the one they are called from.)
\<close>

section \<open>State\<close>

datatype fan_state = Fan_pending | Fan_received | Fan_failed

record 'i fan_pending =
  fan_state :: fan_state
  fan_id :: 'i
  fan_corr :: nat

record ('m, 'i, 'c) fan_entry =
  fe_pending :: "'i fan_pending list"
  fe_received :: "'m list"
  fe_callback :: 'c

type_synonym ('m, 'i, 'c) fan = "('m, 'i, 'c) fan_entry list"

text \<open>What a callback is called with.\<close>

type_synonym ('m, 'i, 'c) fan_fired = "'c \<times> 'm list \<times> 'i fan_pending list"

definition mk_pending :: "nat \<Rightarrow> 'i \<Rightarrow> 'i fan_pending" where
  "mk_pending correlation i = \<lparr>fan_state = Fan_pending, fan_id = i, fan_corr = correlation\<rparr>"

section \<open>Operations\<close>

text \<open>\<open>Entry::done\<close>: nothing is pending any more, so the callback runs.\<close>

definition fan_done :: "('m, 'i, 'c) fan_entry \<Rightarrow> ('m, 'i, 'c) fan_fired option" where
  "fan_done e =
     (if \<exists>p\<in>set (fe_pending e). fan_state p = Fan_pending then None
      else Some (fe_callback e, fe_received e, fe_pending e))"

text \<open>\<open>operator()( pending, callback)\<close>: an entry that has nothing to wait for fires at once.\<close>

definition fan_add ::
    "'i fan_pending list \<Rightarrow> 'c \<Rightarrow> ('m, 'i, 'c) fan
       \<Rightarrow> ('m, 'i, 'c) fan_fired option \<times> ('m, 'i, 'c) fan" where
  "fan_add pending callback entries =
     (let e = \<lparr>fe_pending = pending, fe_received = [], fe_callback = callback\<rparr>
      in case fan_done e of
           None \<Rightarrow> (None, entries @ [e])
         | Some fired \<Rightarrow> (Some fired, entries))"

definition fan_has :: "nat \<Rightarrow> ('m, 'i, 'c) fan_entry \<Rightarrow> bool" where
  "fan_has correlation e \<longleftrightarrow> (\<exists>p\<in>set (fe_pending e). fan_corr p = correlation)"

text \<open>\<open>Entry::coordinate\<close>.\<close>

definition fan_coordinate :: "nat \<Rightarrow> 'm \<Rightarrow> ('m, 'i, 'c) fan_entry \<Rightarrow> ('m, 'i, 'c) fan_entry" where
  "fan_coordinate correlation message e =
     e\<lparr>fe_pending := update_first (\<lambda>p. fan_corr p = correlation) (\<lambda>p. p\<lparr>fan_state := Fan_received\<rparr>) (fe_pending e),
       fe_received := fe_received e @ [message]\<rparr>"

text \<open>\<open>operator()( message)\<close>: the first entry with the correlation; an unknown one is ignored.\<close>

definition fan_message ::
    "nat \<Rightarrow> 'm \<Rightarrow> ('m, 'i, 'c) fan \<Rightarrow> ('m, 'i, 'c) fan_fired option \<times> ('m, 'i, 'c) fan" where
  "fan_message correlation message entries =
     (case List.find (fan_has correlation) entries of
        None \<Rightarrow> (None, entries)
      | Some e \<Rightarrow>
          (case fan_done (fan_coordinate correlation message e) of
             None \<Rightarrow> (None, update_first (fan_has correlation) (fan_coordinate correlation message) entries)
           | Some fired \<Rightarrow> (Some fired, remove_first (fan_has correlation) entries)))"

text \<open>\<open>failed( id)\<close>: every entry, each that is done fires.\<close>

definition fan_fail :: "'i \<Rightarrow> ('m, 'i, 'c) fan_entry \<Rightarrow> ('m, 'i, 'c) fan_entry" where
  "fan_fail i e =
     e\<lparr>fe_pending := map (\<lambda>p. if fan_id p = i \<and> fan_state p = Fan_pending
                              then p\<lparr>fan_state := Fan_failed\<rparr> else p) (fe_pending e)\<rparr>"

definition fan_failed ::
    "'i \<Rightarrow> ('m, 'i, 'c) fan \<Rightarrow> ('m, 'i, 'c) fan_fired list \<times> ('m, 'i, 'c) fan" where
  "fan_failed i entries =
     (let es = map (fan_fail i) entries
      in (List.map_filter fan_done es, filter (\<lambda>e. fan_done e = None) es))"

section \<open>Well-formed coordinations\<close>

definition fan_corrs :: "('m, 'i, 'c) fan \<Rightarrow> nat list" where
  "fan_corrs entries = concat (map (\<lambda>e. map fan_corr (fe_pending e)) entries)"

definition fan_waiting :: "('m, 'i, 'c) fan_entry \<Rightarrow> bool" where
  "fan_waiting e \<longleftrightarrow> (\<exists>p\<in>set (fe_pending e). fan_state p = Fan_pending)"

text \<open>No correlation twice, all below the next one, and no dead entry.\<close>

definition fan_ok :: "nat \<Rightarrow> ('m, 'i, 'c) fan \<Rightarrow> bool" where
  "fan_ok next entries \<longleftrightarrow> distinct (fan_corrs entries) \<and> (\<forall>c\<in>set (fan_corrs entries). c < next)
     \<and> (\<forall>e\<in>set entries. fan_waiting e)"

lemma fan_corrs_Nil [simp]: "fan_corrs [] = []"
  by (simp add: fan_corrs_def)

lemma fan_corrs_Cons [simp]: "fan_corrs (e # es) = map fan_corr (fe_pending e) @ fan_corrs es"
  by (simp add: fan_corrs_def)

lemma fan_corrs_append [simp]: "fan_corrs (es @ fs) = fan_corrs es @ fan_corrs fs"
  by (simp add: fan_corrs_def)

lemma fan_done_None: "fan_done e = None \<longleftrightarrow> fan_waiting e"
  by (simp add: fan_done_def fan_waiting_def)

lemma fan_ok_Nil [simp]: "fan_ok next []"
  by (simp add: fan_ok_def)

lemma fan_ok_mono: "fan_ok n es \<Longrightarrow> n \<le> m \<Longrightarrow> fan_ok m es"
  by (auto simp: fan_ok_def)

lemma fan_coordinate_corrs [simp]:
  "map fan_corr (fe_pending (fan_coordinate c m e)) = map fan_corr (fe_pending e)"
  by (simp add: fan_coordinate_def map_update_first)

lemma fan_has_corr: "fan_has c e \<longleftrightarrow> c \<in> set (map fan_corr (fe_pending e))"
  by (auto simp: fan_has_def)

lemma fan_add_waiting:
  "fan_waiting \<lparr>fe_pending = ps, fe_received = ([]::'m list), fe_callback = c\<rparr> \<Longrightarrow>
     fan_add ps c (es :: ('m, 'i, 'c) fan) = (None, es @ [\<lparr>fe_pending = ps, fe_received = [], fe_callback = c\<rparr>])"
  by (simp add: fan_add_def fan_done_def fan_waiting_def Let_def)

lemma fan_add_done:
  "\<not> fan_waiting \<lparr>fe_pending = ps, fe_received = ([]::'m list), fe_callback = c\<rparr> \<Longrightarrow>
     fan_add ps c (es :: ('m, 'i, 'c) fan) = (Some (c, [], ps), es)"
  by (simp add: fan_add_def fan_done_def fan_waiting_def Let_def)

lemma fan_add_ok:
  fixes es :: "('m, 'i, 'c) fan"
  assumes "fan_ok next es" and "distinct (map fan_corr ps)"
    and "\<forall>p\<in>set ps. next \<le> fan_corr p \<and> fan_corr p < next'" and "next \<le> next'"
  shows "fan_ok next' (snd (fan_add ps c es))"
proof (cases "fan_waiting \<lparr>fe_pending = ps, fe_received = ([]::'m list), fe_callback = c\<rparr>")
  case True
  have lt: "\<forall>x\<in>set (fan_corrs es). x < next" using assms(1) by (simp add: fan_ok_def)
  have "set (fan_corrs es) \<inter> set (map fan_corr ps) = {}"
  proof (rule ccontr)
    assume "set (fan_corrs es) \<inter> set (map fan_corr ps) \<noteq> {}"
    then obtain p where "p \<in> set ps" "fan_corr p \<in> set (fan_corrs es)" by auto
    then show False using lt assms(3) by fastforce
  qed
  moreover have "\<forall>x\<in>set (fan_corrs es). x < next'" using lt assms(4) by auto
  ultimately show ?thesis
    using assms(1-3) True by (simp add: fan_add_waiting fan_ok_def) blast
next
  case False
  then show ?thesis using fan_ok_mono [OF assms(1,4)] by (simp add: fan_add_done)
qed

text \<open>Exactly one entry carries a correlation, and the message finds it.\<close>

lemma fan_find_split:
  assumes "distinct (fan_corrs es)" and "List.find (fan_has c) es = Some e"
  shows "\<exists>xs ys. es = xs @ e # ys \<and> fan_has c e \<and> (\<forall>x\<in>set xs. \<not> fan_has c x)"
  using find_Some_split [OF assms(2)] by blast

lemma fan_message_ok:
  assumes "fan_ok next es"
  shows "fan_ok next (snd (fan_message c m es))"
proof (cases "List.find (fan_has c) es")
  case None
  then show ?thesis using assms by (simp add: fan_message_def)
next
  case (Some e)
  obtain xs ys where sp: "es = xs @ e # ys" "fan_has c e" "\<forall>x\<in>set xs. \<not> fan_has c x"
    using find_Some_split [OF Some] by blast
  show ?thesis
  proof (cases "fan_done (fan_coordinate c m e)")
    case None
    have "snd (fan_message c m es) = xs @ fan_coordinate c m e # ys"
      using Some None update_first_split [OF sp(3,2)] by (simp add: fan_message_def sp(1))
    then show ?thesis using assms None by (auto simp: fan_ok_def sp(1) fan_done_None)
  next
    case (Some f)
    have "snd (fan_message c m es) = xs @ ys"
      using \<open>List.find (fan_has c) es = Some e\<close> Some remove_first_split [OF sp(3,2)]
      by (simp add: fan_message_def sp(1))
    then show ?thesis using assms by (auto simp: fan_ok_def sp(1))
  qed
qed

lemma fan_fail_corrs [simp]: "map fan_corr (fe_pending (fan_fail i e)) = map fan_corr (fe_pending e)"
  by (simp add: fan_fail_def)

lemma fan_failed_ok: "fan_ok next es \<Longrightarrow> fan_ok next (snd (fan_failed i es))"
proof -
  assume ok: "fan_ok next es"
  have sub: "set (fan_corrs (filter P (map (fan_fail i) es))) \<subseteq> set (fan_corrs es)
      \<and> (distinct (fan_corrs es) \<longrightarrow> distinct (fan_corrs (filter P (map (fan_fail i) es))))" for P
    by (induction es) auto
  show ?thesis using ok sub by (auto simp: fan_ok_def fan_failed_def Let_def fan_done_None)
qed

section \<open>All replies\<close>

text \<open>The messages of a sequence, one after the other; what fired at each.\<close>

fun fan_messages ::
    "(nat \<times> 'm) list \<Rightarrow> ('m, 'i, 'c) fan \<Rightarrow> ('m, 'i, 'c) fan_fired option list \<times> ('m, 'i, 'c) fan" where
  "fan_messages [] es = ([], es)"
| "fan_messages ((c, m) # ms) es =
     (case fan_message c m es of
        (f, es') \<Rightarrow> (case fan_messages ms es' of (fs, es'') \<Rightarrow> (f # fs, es'')))"

definition received_from :: "nat set \<Rightarrow> 'i fan_pending list \<Rightarrow> 'i fan_pending list" where
  "received_from cs ps =
     map (\<lambda>p. if fan_corr p \<in> cs then p\<lparr>fan_state := Fan_received\<rparr> else p) ps"

lemma map_fan_corr_received [simp]: "map fan_corr (received_from cs ps) = map fan_corr ps"
  by (simp add: received_from_def)

lemma update_first_received:
  "distinct (map fan_corr ps) \<Longrightarrow>
     update_first (\<lambda>p. fan_corr p = c) (\<lambda>p. p\<lparr>fan_state := Fan_received\<rparr>) (received_from cs ps)
     = received_from (insert c cs) ps"
proof (induction ps)
  case (Cons p ps)
  show ?case
  proof (cases "fan_corr p = c")
    case True
    with Cons.prems have "\<forall>q\<in>set ps. fan_corr q \<noteq> c" by (auto simp: image_iff)
    then have "received_from cs ps = received_from (insert c cs) ps"
      by (auto simp: received_from_def)
    with True show ?thesis by (auto simp: received_from_def)
  next
    case False
    then show ?thesis using Cons by (auto simp: received_from_def)
  qed
qed (simp add: received_from_def)

lemma waiting_received:
  assumes "\<forall>p\<in>set ps. fan_state p = Fan_pending"
  shows "fan_waiting \<lparr>fe_pending = received_from cs ps, fe_received = r, fe_callback = k\<rparr>
     \<longleftrightarrow> \<not> set (map fan_corr ps) \<subseteq> cs"
  using assms by (auto simp: fan_waiting_def received_from_def)

lemma fan_messages_all:
  assumes ps: "distinct (map fan_corr ps)" "\<forall>p\<in>set ps. fan_state p = Fan_pending"
    and other: "\<forall>x\<in>set xs. \<forall>c\<in>set (map fan_corr ps). \<not> fan_has c x"
  shows "ms \<noteq> [] \<Longrightarrow> distinct (map fst ms) \<Longrightarrow> set (map fst ms) \<inter> cs = {} \<Longrightarrow>
     set (map fst ms) \<union> cs = set (map fan_corr ps) \<Longrightarrow>
     fan_messages ms (xs @ [\<lparr>fe_pending = received_from cs ps, fe_received = r, fe_callback = k\<rparr>])
     = (replicate (length ms - 1) None
          @ [Some (k, r @ map snd ms, received_from (set (map fan_corr ps)) ps)], xs)"
proof (induction ms arbitrary: cs r)
  case Nil
  then show ?case by simp
next
  case (Cons cm ms)
  obtain c m where cm: "cm = (c, m)" by force
  let ?e = "\<lparr>fe_pending = received_from cs ps, fe_received = r, fe_callback = k\<rparr>"
  let ?e' = "\<lparr>fe_pending = received_from (insert c cs) ps, fe_received = r @ [m], fe_callback = k\<rparr>"
  have c: "c \<in> set (map fan_corr ps)" using Cons.prems(4) cm by auto
  have has: "fan_has c ?e" using c by (auto simp: fan_has_corr simp del: set_map)
  have nothas: "\<forall>x\<in>set xs. \<not> fan_has c x" using other c by blast
  have fnd: "List.find (fan_has c) (xs @ [?e]) = Some ?e"
    using nothas has by (induction xs) auto
  have co: "fan_coordinate c m ?e = ?e'"
    using update_first_received [OF ps(1)] by (simp add: fan_coordinate_def)
  show ?case
  proof (cases "ms = []")
    case True
    then have all: "insert c cs = set (map fan_corr ps)" using Cons.prems(4) cm by auto
    then have "fan_done ?e' = Some (k, r @ [m], received_from (set (map fan_corr ps)) ps)"
      using waiting_received [OF ps(2), of "insert c cs" "r @ [m]" k] by (auto simp: fan_done_def fan_waiting_def)
    then show ?thesis using True fnd co remove_first_split [OF nothas has]
      by (simp add: cm fan_message_def)
  next
    case False
    have "\<not> set (map fan_corr ps) \<subseteq> insert c cs"
    proof
      assume s: "set (map fan_corr ps) \<subseteq> insert c cs"
      obtain d where d: "d \<in> set (map fst ms)" using False by (cases ms) auto
      then have "d \<in> set (map fan_corr ps)" "d \<noteq> c" "d \<notin> cs"
        using Cons.prems(2-4) cm by auto
      with s show False by blast
    qed
    then have w: "fan_done ?e' = None" by (simp add: fan_done_None waiting_received [OF ps(2)])
    have "fan_message c m (xs @ [?e]) = (None, xs @ [?e'])"
      using fnd co w update_first_split [OF nothas has] by (simp add: fan_message_def)
    moreover have "fan_messages ms (xs @ [?e'])
        = (replicate (length ms - 1) None
             @ [Some (k, (r @ [m]) @ map snd ms, received_from (set (map fan_corr ps)) ps)], xs)"
      by (rule Cons.IH) (use False Cons.prems cm in auto)
    ultimately show ?thesis using False by (cases ms) (simp_all add: cm)
  qed
qed

lemma fan_gather:
  fixes es :: "('m, 'i, 'c) fan"
  assumes "fan_ok next es" and "ps \<noteq> []" and "distinct (map fan_corr ps)"
    and "\<forall>p\<in>set ps. fan_state p = Fan_pending \<and> next \<le> fan_corr p"
    and "distinct (map fst ms)" and "set (map fst ms) = set (map fan_corr ps)"
  shows "fan_messages ms (snd (fan_add ps k es))
     = (replicate (length ms - 1) None
          @ [Some (k, map snd ms, map (\<lambda>p. p\<lparr>fan_state := Fan_received\<rparr>) ps)], es)"
proof -
  have fresh: "\<forall>x\<in>set es. \<forall>c\<in>set (map fan_corr ps). \<not> fan_has c x"
    using assms(1,4) by (fastforce simp: fan_ok_def fan_corrs_def fan_has_def)
  have r0: "received_from {} ps = ps" by (simp add: received_from_def)
  have r1: "received_from (set (map fan_corr ps)) ps = map (\<lambda>p. p\<lparr>fan_state := Fan_received\<rparr>) ps"
    by (auto simp: received_from_def)
  have "fan_waiting \<lparr>fe_pending = ps, fe_received = ([]::'m list), fe_callback = k\<rparr>"
    using assms(2,4) by (cases ps) (auto simp: fan_waiting_def)
  then have "snd (fan_add ps k es) = es @ [\<lparr>fe_pending = ps, fe_received = [], fe_callback = k\<rparr>]"
    by (simp add: fan_add_waiting)
  moreover have "ms \<noteq> []" using assms(2,6) by auto
  ultimately show ?thesis
    using fan_messages_all [OF assms(3) _ fresh, of ms "{}" "[]" k] assms(4-6) r0 r1 by simp
qed

lemma fan_messages_append:
  "fan_messages (ms @ ns) es = (fst (fan_messages ms es) @ fst (fan_messages ns (snd (fan_messages ms es))),
     snd (fan_messages ns (snd (fan_messages ms es))))"
  by (induction ms es rule: fan_messages.induct) (auto split: prod.splits)

section \<open>Properties\<close>

text \<open>
  A coordination calls back once, and with everything: when the replies to all the
  requests of an entry arrive, in any order, nothing fires before the last one, the last
  one fires the callback with all replies in the order they came and every request marked
  received, and the entry is gone.
\<close>

theorem fan_all_replies_fire:
  fixes es :: "('m, 'i, 'c) fan"
  assumes "fan_ok next es" and "ps \<noteq> []" and "distinct (map fan_corr ps)"
    and "\<forall>p\<in>set ps. fan_state p = Fan_pending \<and> next \<le> fan_corr p"
    and "distinct (map fst ms)" and "set (map fst ms) = set (map fan_corr ps)"
  shows "fan_messages ms (snd (fan_add ps k es))
     = (replicate (length ms - 1) None
          @ [Some (k, map snd ms, map (\<lambda>p. p\<lparr>fan_state := Fan_received\<rparr>) ps)], es)"
  using assms by (rule fan_gather)

theorem fan_all_replies_fire_witness:
  "fan_messages [(6, ''b''), (5, ''a'')] (snd (fan_add [mk_pending 5 (1::nat), mk_pending 6 2] (42::nat) []))
     = ([None, Some (42, [''b'', ''a''],
          [(mk_pending 5 1)\<lparr>fan_state := Fan_received\<rparr>, (mk_pending 6 2)\<lparr>fan_state := Fan_received\<rparr>])], [])"
  using fan_all_replies_fire [of 0 "[]" "[mk_pending 5 (1::nat), mk_pending 6 2]" "[(6, ''b''), (5, ''a'')]" "42::nat"]
  by (auto simp: mk_pending_def)

text \<open>
  When a destination fails, exactly the entries that wait for nobody else call back, with
  its open requests marked failed; the others keep waiting, the destination's requests no
  longer among what they wait for, and the coordination stays well formed.
\<close>

theorem fan_failed_fires:
  assumes "fan_ok next es"
  shows "fan_ok next (snd (fan_failed i es))
     \<and> fst (fan_failed i es) = map (\<lambda>e. (fe_callback e, fe_received e, fe_pending (fan_fail i e)))
         (filter (\<lambda>e. \<forall>p\<in>set (fe_pending e). fan_state p = Fan_pending \<longrightarrow> fan_id p = i) es)
     \<and> (\<forall>e\<in>set (snd (fan_failed i es)). \<exists>p\<in>set (fe_pending e). fan_state p = Fan_pending \<and> fan_id p \<noteq> i)"
proof -
  have w: "fan_waiting (fan_fail i e) \<longleftrightarrow> (\<exists>p\<in>set (fe_pending e). fan_state p = Fan_pending \<and> fan_id p \<noteq> i)" for e
    by (auto simp: fan_waiting_def fan_fail_def split: if_splits)
  have k: "fe_callback (fan_fail i e) = fe_callback e" "fe_received (fan_fail i e) = fe_received e" for e
    by (simp_all add: fan_fail_def)
  have d: "fan_done (fan_fail i e) = (if fan_waiting (fan_fail i e) then None
      else Some (fe_callback e, fe_received e, fe_pending (fan_fail i e)))" for e
    by (simp add: fan_done_def fan_waiting_def k)
  have "fst (fan_failed i es) = map (\<lambda>e. (fe_callback e, fe_received e, fe_pending (fan_fail i e)))
         (filter (\<lambda>e. \<forall>p\<in>set (fe_pending e). fan_state p = Fan_pending \<longrightarrow> fan_id p = i) es)"
    unfolding fan_failed_def Let_def fst_conv
    by (induction es) (auto simp: d w map_filter_simps)
  moreover have "\<forall>e\<in>set (snd (fan_failed i es)). \<exists>p\<in>set (fe_pending e). fan_state p = Fan_pending \<and> fan_id p \<noteq> i"
  proof
    fix e assume "e \<in> set (snd (fan_failed i es))"
    then obtain x where "e = fan_fail i x" "fan_waiting (fan_fail i x)"
      by (auto simp: fan_failed_def Let_def fan_done_None)
    then show "\<exists>p\<in>set (fe_pending e). fan_state p = Fan_pending \<and> fan_id p \<noteq> i"
      by (auto simp: fan_waiting_def fan_fail_def split: if_splits)
  qed
  ultimately show ?thesis using fan_failed_ok [OF assms] by blast
qed

theorem fan_failed_fires_witness:
  "fst (fan_failed 1 [\<lparr>fe_pending = [mk_pending 5 (1::nat)], fe_received = [''a''], fe_callback = (42::nat)\<rparr>])
     = [(42, [''a''], [(mk_pending 5 1)\<lparr>fan_state := Fan_failed\<rparr>])]"
  using fan_failed_fires [of 9 "[\<lparr>fe_pending = [mk_pending 5 (1::nat)], fe_received = [''a''], fe_callback = (42::nat)\<rparr>]" 1]
  by (simp add: mk_pending_def fan_ok_def fan_waiting_def fan_fail_def)

end
