(* ===== verification/TxCode.thy ===== *)
theory TxCode
  imports Coordinate
begin

text \<open>
  The return codes of the transaction manager: \<open>code::xa\<close> and \<open>code::tx\<close>, the ranking
  \<open>code::priority::xa\<close> of \<open>transaction/manager/state.{h,cpp}\<close> with its conversions,
  \<open>code::convert::to::tx\<close>, and \<open>accumulate::code\<close> of \<open>handle.cpp\<close>, which folds the replies
  of the resources to one code.
\<close>

section \<open>Codes\<close>

datatype xa =
    Xa_rollback_unspecified | Xa_rollback_communication | Xa_rollback_deadlock
   | Xa_rollback_other | Xa_rollback_protocoll | Xa_rollback_timeout | Xa_rollback_transient
   | Xa_rollback_integrity | Xa_no_migrate | Xa_heuristic_hazard | Xa_heuristic_commit
   | Xa_heuristic_rollback | Xa_heuristic_mix | Xa_retry | Xa_read_only | Xa_ok
   | Xa_outstanding_async | Xa_invalid_xid | Xa_argument | Xa_protocol | Xa_resource_fail
   | Xa_resource_error | Xa_duplicate_xid | Xa_outside

datatype tx =
    Tx_not_supported | Tx_ok | Tx_outside | Tx_rollback | Tx_mixed | Tx_hazard | Tx_protocol
   | Tx_error | Tx_fail | Tx_argument | Tx_committed | Tx_no_begin

text \<open>\<open>code::ax\<close>, the answers of the registration of a resource, and \<open>code::xatmi\<close>.\<close>

datatype ax = Ax_join | Ax_resume | Ax_ok | Ax_error | Ax_argument | Ax_protocol

datatype xatmi =
    Tp_absent | Tp_ok | Tp_descriptor | Tp_no_message | Tp_argument | Tp_limit
   | Tp_no_entry | Tp_os | Tp_protocol | Tp_service_error | Tp_service_fail
   | Tp_system | Tp_timeout | Tp_transaction | Tp_signal | Tp_buffer_input
   | Tp_buffer_output | Tp_event | Tp_service_advertised

text \<open>The ranking, the most severe first.\<close>

datatype prio =
    P_heuristic_hazard | P_heuristic_mix | P_heuristic_commit | P_heuristic_rollback
   | P_resource_fail | P_resource_error | P_rollback_integrity | P_rollback_communication
   | P_rollback_unspecified | P_rollback_other | P_rollback_deadlock | P_protocol
   | P_rollback_protocoll | P_rollback_timeout | P_rollback_transient | P_argument
   | P_no_migrate | P_outside | P_outstanding_async | P_retry | P_duplicate_xid | P_invalid_xid
   | P_ok | P_read_only

text \<open>The value of the enum.\<close>

fun prio_num :: "prio \<Rightarrow> nat" where
  "prio_num P_heuristic_hazard = 0"
| "prio_num P_heuristic_mix = 1"
| "prio_num P_heuristic_commit = 2"
| "prio_num P_heuristic_rollback = 3"
| "prio_num P_resource_fail = 4"
| "prio_num P_resource_error = 5"
| "prio_num P_rollback_integrity = 6"
| "prio_num P_rollback_communication = 7"
| "prio_num P_rollback_unspecified = 8"
| "prio_num P_rollback_other = 9"
| "prio_num P_rollback_deadlock = 10"
| "prio_num P_protocol = 11"
| "prio_num P_rollback_protocoll = 12"
| "prio_num P_rollback_timeout = 13"
| "prio_num P_rollback_transient = 14"
| "prio_num P_argument = 15"
| "prio_num P_no_migrate = 16"
| "prio_num P_outside = 17"
| "prio_num P_outstanding_async = 18"
| "prio_num P_retry = 19"
| "prio_num P_duplicate_xid = 20"
| "prio_num P_invalid_xid = 21"
| "prio_num P_ok = 22"
| "prio_num P_read_only = 23"

fun convert_prio :: "prio \<Rightarrow> xa" where
  "convert_prio P_heuristic_hazard = Xa_heuristic_hazard"
| "convert_prio P_heuristic_mix = Xa_heuristic_mix"
| "convert_prio P_heuristic_commit = Xa_heuristic_commit"
| "convert_prio P_heuristic_rollback = Xa_heuristic_rollback"
| "convert_prio P_resource_fail = Xa_resource_fail"
| "convert_prio P_resource_error = Xa_resource_error"
| "convert_prio P_rollback_integrity = Xa_rollback_integrity"
| "convert_prio P_rollback_communication = Xa_rollback_communication"
| "convert_prio P_rollback_unspecified = Xa_rollback_unspecified"
| "convert_prio P_rollback_other = Xa_rollback_other"
| "convert_prio P_rollback_deadlock = Xa_rollback_deadlock"
| "convert_prio P_protocol = Xa_protocol"
| "convert_prio P_rollback_protocoll = Xa_rollback_protocoll"
| "convert_prio P_rollback_timeout = Xa_rollback_timeout"
| "convert_prio P_rollback_transient = Xa_rollback_transient"
| "convert_prio P_argument = Xa_argument"
| "convert_prio P_no_migrate = Xa_no_migrate"
| "convert_prio P_outside = Xa_outside"
| "convert_prio P_outstanding_async = Xa_outstanding_async"
| "convert_prio P_retry = Xa_retry"
| "convert_prio P_duplicate_xid = Xa_duplicate_xid"
| "convert_prio P_invalid_xid = Xa_invalid_xid"
| "convert_prio P_ok = Xa_ok"
| "convert_prio P_read_only = Xa_read_only"

fun convert_xa :: "xa \<Rightarrow> prio" where
  "convert_xa Xa_heuristic_hazard = P_heuristic_hazard"
| "convert_xa Xa_heuristic_mix = P_heuristic_mix"
| "convert_xa Xa_heuristic_commit = P_heuristic_commit"
| "convert_xa Xa_heuristic_rollback = P_heuristic_rollback"
| "convert_xa Xa_resource_fail = P_resource_fail"
| "convert_xa Xa_resource_error = P_resource_error"
| "convert_xa Xa_rollback_integrity = P_rollback_integrity"
| "convert_xa Xa_rollback_communication = P_rollback_communication"
| "convert_xa Xa_rollback_unspecified = P_rollback_unspecified"
| "convert_xa Xa_rollback_other = P_rollback_other"
| "convert_xa Xa_rollback_deadlock = P_rollback_deadlock"
| "convert_xa Xa_protocol = P_protocol"
| "convert_xa Xa_rollback_protocoll = P_rollback_protocoll"
| "convert_xa Xa_rollback_timeout = P_rollback_timeout"
| "convert_xa Xa_rollback_transient = P_rollback_transient"
| "convert_xa Xa_argument = P_argument"
| "convert_xa Xa_no_migrate = P_no_migrate"
| "convert_xa Xa_outside = P_outside"
| "convert_xa Xa_outstanding_async = P_outstanding_async"
| "convert_xa Xa_retry = P_retry"
| "convert_xa Xa_duplicate_xid = P_duplicate_xid"
| "convert_xa Xa_invalid_xid = P_invalid_xid"
| "convert_xa Xa_ok = P_ok"
| "convert_xa Xa_read_only = P_read_only"

text \<open>\<open>code::convert::to::tx\<close>.\<close>

fun to_tx :: "xa \<Rightarrow> tx" where
  "to_tx Xa_rollback_unspecified = Tx_hazard"
| "to_tx Xa_rollback_communication = Tx_hazard"
| "to_tx Xa_rollback_deadlock = Tx_hazard"
| "to_tx Xa_rollback_other = Tx_hazard"
| "to_tx Xa_rollback_protocoll = Tx_hazard"
| "to_tx Xa_rollback_timeout = Tx_hazard"
| "to_tx Xa_rollback_transient = Tx_hazard"
| "to_tx Xa_rollback_integrity = Tx_hazard"
| "to_tx Xa_no_migrate = Tx_hazard"
| "to_tx Xa_heuristic_hazard = Tx_hazard"
| "to_tx Xa_heuristic_commit = Tx_mixed"
| "to_tx Xa_heuristic_rollback = Tx_mixed"
| "to_tx Xa_heuristic_mix = Tx_mixed"
| "to_tx Xa_retry = Tx_ok"
| "to_tx Xa_read_only = Tx_ok"
| "to_tx Xa_ok = Tx_ok"
| "to_tx Xa_outstanding_async = Tx_no_begin"
| "to_tx Xa_invalid_xid = Tx_no_begin"
| "to_tx Xa_argument = Tx_protocol"
| "to_tx Xa_protocol = Tx_protocol"
| "to_tx Xa_resource_fail = Tx_outside"
| "to_tx Xa_resource_error = Tx_no_begin"
| "to_tx Xa_duplicate_xid = Tx_outside"
| "to_tx Xa_outside = Tx_outside"

section \<open>The ranking is a linear order\<close>

definition prio_of :: "nat \<Rightarrow> prio" where
  "prio_of n =
     [P_heuristic_hazard, P_heuristic_mix, P_heuristic_commit, P_heuristic_rollback
  , P_resource_fail, P_resource_error, P_rollback_integrity, P_rollback_communication
  , P_rollback_unspecified, P_rollback_other, P_rollback_deadlock, P_protocol
  , P_rollback_protocoll, P_rollback_timeout, P_rollback_transient, P_argument, P_no_migrate
  , P_outside, P_outstanding_async, P_retry, P_duplicate_xid, P_invalid_xid, P_ok, P_read_only] ! n"

lemma prio_of_num: "prio_of (prio_num p) = p"
  by (cases p) (simp_all add: prio_of_def)

instantiation prio :: linorder
begin

definition less_eq_prio :: "prio \<Rightarrow> prio \<Rightarrow> bool" where
  "less_eq_prio a b \<longleftrightarrow> prio_num a \<le> prio_num b"

definition less_prio :: "prio \<Rightarrow> prio \<Rightarrow> bool" where
  "less_prio a b \<longleftrightarrow> prio_num a < prio_num b"

instance
proof
  fix a b c :: prio
  show "a < b \<longleftrightarrow> a \<le> b \<and> \<not> b \<le> a" by (auto simp: less_eq_prio_def less_prio_def)
  show "a \<le> a" by (simp add: less_eq_prio_def)
  show "a \<le> b \<Longrightarrow> b \<le> c \<Longrightarrow> a \<le> c" by (simp add: less_eq_prio_def)
  show "a \<le> b \<or> b \<le> a" by (auto simp: less_eq_prio_def)
  show "a = b" if "a \<le> b" "b \<le> a"
  proof -
    have "prio_num a = prio_num b" using that by (simp add: less_eq_prio_def)
    then show ?thesis by (metis prio_of_num)
  qed
qed

end

lemma convert_xa_prio [simp]: "convert_xa (convert_prio p) = p"
  by (cases p) simp_all

lemma convert_prio_xa [simp]: "convert_prio (convert_xa c) = c"
  by (cases c) simp_all

lemma prio_le_read_only: "p \<le> P_read_only"
  by (cases p) (simp_all add: less_eq_prio_def)

lemma prio_le_ok: "p \<le> P_ok \<longleftrightarrow> p \<noteq> P_read_only"
  by (cases p) (simp_all add: less_eq_prio_def)

section \<open>Folding the replies\<close>

text \<open>\<open>accumulate::code\<close>: the most severe of the codes replied, starting from \<open>code\<close>, or from
  hazard when a resource could not be asked.\<close>

definition accumulate_code :: "xa list \<Rightarrow> 'i fan_pending list \<Rightarrow> xa \<Rightarrow> xa" where
  "accumulate_code codes outcome code =
     (let start = (if \<exists>p\<in>set outcome. fan_state p = Fan_failed then Xa_heuristic_hazard else code)
      in convert_prio (fold (\<lambda>c result. min result (convert_xa c)) codes (convert_xa start)))"

lemma fold_min_bounds:
  fixes a :: prio
  shows "fold (\<lambda>c result. min result (convert_xa c)) codes a \<le> a
     \<and> (\<forall>c\<in>set codes. fold (\<lambda>c result. min result (convert_xa c)) codes a \<le> convert_xa c)
     \<and> fold (\<lambda>c result. min result (convert_xa c)) codes a \<in> insert a (convert_xa ` set codes)"
proof (induction codes arbitrary: a)
  case (Cons c codes)
  let ?r = "fold (\<lambda>c result. min result (convert_xa c)) codes (min a (convert_xa c))"
  have "?r \<le> min a (convert_xa c)" "\<forall>c\<in>set codes. ?r \<le> convert_xa c"
    "?r \<in> insert (min a (convert_xa c)) (convert_xa ` set codes)"
    using Cons [of "min a (convert_xa c)"] by blast+
  then show ?case by (auto simp: min_def split: if_splits)
qed simp

lemma fold_min_xa:
  "fold (\<lambda>c result. min result (convert_xa c)) codes (a :: prio) = Min (insert a (convert_xa ` set codes))"
  by (rule Min_eqI [symmetric]) (use fold_min_bounds [of codes a] in auto)

text \<open>\<open>create::reply\<close> takes "no such transaction" for "nothing to do".\<close>

definition reply_code :: "xa \<Rightarrow> xa" where
  "reply_code code = (if code = Xa_invalid_xid then Xa_read_only else code)"

lemma accumulate_code_min:
  assumes "\<forall>p\<in>set outcome. fan_state p \<noteq> Fan_failed"
  shows "convert_xa (accumulate_code codes outcome code) = Min (insert (convert_xa code) (convert_xa ` set codes))"
  using assms by (auto simp: accumulate_code_def fold_min_xa Let_def)

lemma accumulate_read_only_iff:
  assumes "\<forall>p\<in>set outcome. fan_state p \<noteq> Fan_failed"
  shows "accumulate_code codes outcome Xa_read_only = Xa_read_only \<longleftrightarrow> set codes \<subseteq> {Xa_read_only}"
proof -
  have "accumulate_code codes outcome Xa_read_only = Xa_read_only
      \<longleftrightarrow> Min (insert P_read_only (convert_xa ` set codes)) = P_read_only"
    using accumulate_code_min [OF assms, of codes Xa_read_only] convert_prio_xa by (metis convert_xa.simps(24))
  also have "\<dots> \<longleftrightarrow> (\<forall>c\<in>set codes. convert_xa c = P_read_only)"
  proof -
    have "Min (insert P_read_only (convert_xa ` set codes)) = P_read_only
        \<longleftrightarrow> P_read_only \<le> Min (insert P_read_only (convert_xa ` set codes))"
      using prio_le_read_only by (metis antisym order_refl)
    also have "\<dots> \<longleftrightarrow> (\<forall>c\<in>set codes. P_read_only \<le> convert_xa c)" by (simp add: Min_ge_iff)
    finally show ?thesis using prio_le_read_only by (metis antisym order_refl)
  qed
  also have "\<dots> \<longleftrightarrow> set codes \<subseteq> {Xa_read_only}" by (auto dest: bspec) (metis convert_prio_xa convert_prio.simps(24))
  finally show ?thesis .
qed

lemma accumulate_ok_iff:
  assumes "\<forall>p\<in>set outcome. fan_state p \<noteq> Fan_failed"
  shows "accumulate_code codes outcome Xa_read_only = Xa_ok
     \<longleftrightarrow> Xa_ok \<in> set codes \<and> set codes \<subseteq> {Xa_ok, Xa_read_only}"
proof -
  let ?S = "insert P_read_only (convert_xa ` set codes)"
  have "accumulate_code codes outcome Xa_read_only = Xa_ok \<longleftrightarrow> Min ?S = P_ok"
    using accumulate_code_min [OF assms, of codes Xa_read_only] convert_prio_xa
    by (metis convert_xa.simps(23,24))
  also have "\<dots> \<longleftrightarrow> P_ok \<in> ?S \<and> (\<forall>x\<in>?S. P_ok \<le> x)"
    by (rule Min_eq_iff) simp_all
  also have "\<dots> \<longleftrightarrow> Xa_ok \<in> set codes \<and> set codes \<subseteq> {Xa_ok, Xa_read_only}"
  proof -
    have a: "P_ok \<le> convert_xa c \<longleftrightarrow> c = Xa_ok \<or> c = Xa_read_only" for c
      by (cases c) (simp_all add: less_eq_prio_def)
    have b: "P_ok = convert_xa c \<longleftrightarrow> c = Xa_ok" for c by (cases c) simp_all
    have r: "P_ok \<le> P_read_only" by (rule prio_le_read_only)
    show ?thesis using a b r by (auto simp: image_iff)
  qed
  finally show ?thesis .
qed

text \<open>
  Folding the replies picks the most severe code: the conversion to the ranking and back
  loses nothing, the result is never less severe than the start or any reply and is one of
  them, and a resource that could not be asked makes it at least a heuristic hazard.
\<close>

theorem accumulate_most_severe:
  "convert_prio (convert_xa c) = c
   \<and> (\<forall>d\<in>set codes. convert_xa (accumulate_code codes outcome code) \<le> convert_xa d)
   \<and> ((\<exists>p\<in>set outcome. fan_state p = Fan_failed) \<or>
        accumulate_code codes outcome code \<in> insert code (set codes)
        \<and> convert_xa (accumulate_code codes outcome code) \<le> convert_xa code)
   \<and> ((\<forall>p\<in>set outcome. fan_state p \<noteq> Fan_failed) \<or>
        accumulate_code codes outcome code = Xa_heuristic_hazard)"
proof (intro conjI)
  let ?start = "if \<exists>p\<in>set outcome. fan_state p = Fan_failed then Xa_heuristic_hazard else code"
  have acc: "convert_xa (accumulate_code codes outcome code) = Min (insert (convert_xa ?start) (convert_xa ` set codes))"
    unfolding accumulate_code_def Let_def fold_min_xa by simp
  show "convert_prio (convert_xa c) = c" by simp
  show "\<forall>d\<in>set codes. convert_xa (accumulate_code codes outcome code) \<le> convert_xa d" unfolding acc by simp
  have mem: "convert_xa (accumulate_code codes outcome code) \<in> insert (convert_xa ?start) (convert_xa ` set codes)"
    unfolding acc by (rule Min_in) simp_all
  have le: "convert_xa (accumulate_code codes outcome code) \<le> convert_xa ?start" unfolding acc by simp
  show "(\<exists>p\<in>set outcome. fan_state p = Fan_failed) \<or>
        accumulate_code codes outcome code \<in> insert code (set codes)
        \<and> convert_xa (accumulate_code codes outcome code) \<le> convert_xa code"
  proof (cases "\<exists>p\<in>set outcome. fan_state p = Fan_failed")
    case False
    then have "?start = code" by simp
    with mem have "convert_xa (accumulate_code codes outcome code) \<in> convert_xa ` insert code (set codes)" by simp
    then have "convert_prio (convert_xa (accumulate_code codes outcome code)) \<in> convert_prio ` convert_xa ` insert code (set codes)"
      by (rule imageI)
    then have "accumulate_code codes outcome code \<in> insert code (set codes)"
      by (simp add: image_comp comp_def)
    with le \<open>?start = code\<close> show ?thesis by simp
  qed simp
  show "(\<forall>p\<in>set outcome. fan_state p \<noteq> Fan_failed) \<or> accumulate_code codes outcome code = Xa_heuristic_hazard"
  proof (cases "\<exists>p\<in>set outcome. fan_state p = Fan_failed")
    case True
    then have "convert_xa (accumulate_code codes outcome code) \<le> P_heuristic_hazard" using le by simp
    then have "convert_xa (accumulate_code codes outcome code) = P_heuristic_hazard"
      by (cases "convert_xa (accumulate_code codes outcome code)") (simp_all add: less_eq_prio_def)
    then show ?thesis by (metis convert_prio_xa convert_prio.simps(1))
  qed auto
qed

theorem accumulate_most_severe_witness:
  "accumulate_code [Xa_ok, Xa_rollback_other, Xa_read_only] ([] :: int fan_pending list) Xa_read_only = Xa_rollback_other
   \<and> convert_xa (accumulate_code [Xa_ok, Xa_rollback_other] ([] :: int fan_pending list) Xa_read_only) \<le> convert_xa Xa_ok"
  using accumulate_most_severe [of Xa_ok "[Xa_ok, Xa_rollback_other]" "[] :: int fan_pending list" Xa_read_only]
  by (simp add: accumulate_code_def fold_min_xa) (simp add: min_def less_eq_prio_def)

end
