(* ===== verification/Handler.thy ===== *)
theory Handler
  imports TxCode
begin

text \<open>
  The handlers of the managers: functions of the state that return a value or raise. What
  was done before the exception stays done. The specification of a piece of a handler is a
  precondition, a postcondition for its result and one for the state an exception leaves.
\<close>

datatype fault =
    Comm_unavailable        \<comment> \<open>\<open>code::casual::communication_unavailable\<close>: the destination is gone\<close>
  | Invalid_argument        \<comment> \<open>\<open>code::casual::invalid_argument\<close>\<close>
  | Sql_error               \<comment> \<open>a statement of the log violates the primary key\<close>
  | Terminated              \<comment> \<open>\<open>casual::assertion\<close> or \<open>casual::terminate\<close>\<close>
  | Undefined_access        \<comment> \<open>an iterator that is not valid is used\<close>
  | Tx_raised tx            \<comment> \<open>a code of one of the interfaces\<close>
  | Xa_raised xa
  | Ax_raised ax
  | Xatmi_raised xatmi
  | Invalid_configuration   \<comment> \<open>\<open>code::casual::invalid_configuration\<close>\<close>

type_synonym ('s, 'a) act = "'s \<Rightarrow> (fault + 'a) \<times> 's"

definition act_ret :: "'a \<Rightarrow> ('s, 'a) act" where
  "act_ret x s = (Inr x, s)"

definition act_raise :: "fault \<Rightarrow> ('s, 'a) act" where
  "act_raise e s = (Inl e, s)"

definition act_bind :: "('s, 'a) act \<Rightarrow> ('a \<Rightarrow> ('s, 'b) act) \<Rightarrow> ('s, 'b) act" where
  "act_bind f g s = (case f s of (Inl e, s') \<Rightarrow> (Inl e, s') | (Inr x, s') \<Rightarrow> g x s')"

definition act_then :: "('s, 'a) act \<Rightarrow> ('s, 'b) act \<Rightarrow> ('s, 'b) act" where
  "act_then f g = act_bind f (\<lambda>_. g)"

definition act_get :: "('s \<Rightarrow> 'a) \<Rightarrow> ('s, 'a) act" where
  "act_get f s = (Inr (f s), s)"

definition act_upd :: "('s \<Rightarrow> 's) \<Rightarrow> ('s, unit) act" where
  "act_upd f s = (Inr (), f s)"

definition act_state :: "('s \<Rightarrow> 'a \<times> 's) \<Rightarrow> ('s, 'a) act" where
  "act_state f s = (case f s of (x, s') \<Rightarrow> (Inr x, s'))"

fun act_each :: "('a \<Rightarrow> ('s, 'b) act) \<Rightarrow> 'a list \<Rightarrow> ('s, 'b list) act" where
  "act_each f [] = act_ret []"
| "act_each f (x # xs) = act_bind (f x) (\<lambda>y. act_bind (act_each f xs) (\<lambda>ys. act_ret (y # ys)))"

lemmas act_defs = act_ret_def act_raise_def act_bind_def act_then_def act_get_def act_upd_def

section \<open>Specifications\<close>

fun act_post :: "('a \<Rightarrow> 's \<Rightarrow> bool) \<Rightarrow> ('s \<Rightarrow> bool) \<Rightarrow> (fault + 'a) \<times> 's \<Rightarrow> bool" where
  "act_post Q E (Inl e, s) = E s"
| "act_post Q E (Inr x, s) = Q x s"

definition act_spec :: "('s \<Rightarrow> bool) \<Rightarrow> ('s, 'a) act \<Rightarrow> ('a \<Rightarrow> 's \<Rightarrow> bool) \<Rightarrow> ('s \<Rightarrow> bool) \<Rightarrow> bool" where
  "act_spec P f Q E \<longleftrightarrow> (\<forall>s. P s \<longrightarrow> act_post Q E (f s))"

lemma act_cases:
  obtains (fault) e s' where "r = (Inl e, s')" | (result) x s' where "r = (Inr x, s')"
  by (metis old.sum.exhaust prod.collapse)

lemma act_post_weaken:
  "act_post Q E r \<Longrightarrow> (\<And>x s. Q x s \<Longrightarrow> Q' x s) \<Longrightarrow> (\<And>s. E s \<Longrightarrow> E' s) \<Longrightarrow> act_post Q' E' r"
  by (cases r rule: act_cases) auto

lemma act_post_snd: "act_post (\<lambda>_. Q) Q r \<longleftrightarrow> Q (snd r)"
  by (cases r rule: act_cases) auto

text \<open>The common case: a state predicate that holds before holds after, exception or not.\<close>

definition act_keeps :: "('s \<Rightarrow> bool) \<Rightarrow> ('s, 'a) act \<Rightarrow> bool" where
  "act_keeps P f \<longleftrightarrow> (\<forall>s. P s \<longrightarrow> P (snd (f s)))"

lemma act_keeps_spec: "act_keeps P f \<longleftrightarrow> act_spec P f (\<lambda>_. P) P"
  by (simp add: act_keeps_def act_spec_def act_post_snd)

lemma act_specD: "act_spec P f Q E \<Longrightarrow> P s \<Longrightarrow> f s = (Inr x, s') \<Longrightarrow> Q x s'"
  by (metis act_post.simps(2) act_spec_def)

lemma act_spec_faultD: "act_spec P f Q E \<Longrightarrow> P s \<Longrightarrow> f s = (Inl e, s') \<Longrightarrow> E s'"
  by (metis act_post.simps(1) act_spec_def)

lemma act_spec_ret [preserve_intros]: "(\<And>s. P s \<Longrightarrow> Q x s) \<Longrightarrow> act_spec P (act_ret x) Q E"
  by (simp add: act_spec_def act_ret_def)

lemma act_spec_raise [preserve_intros]: "(\<And>s. P s \<Longrightarrow> E s) \<Longrightarrow> act_spec P (act_raise e) Q E"
  by (simp add: act_spec_def act_raise_def)

lemma act_spec_bind [preserve_intros]:
  assumes "act_spec P f R E" and "\<And>x. act_spec (R x) (g x) Q E"
  shows "act_spec P (act_bind f g) Q E"
  unfolding act_spec_def
proof (intro allI impI)
  fix s assume "P s"
  then have "act_post R E (f s)" using assms(1) by (simp add: act_spec_def)
  then show "act_post Q E (act_bind f g s)"
    using assms(2) by (cases "f s" rule: act_cases) (auto simp: act_bind_def act_spec_def)
qed

lemma act_spec_then [preserve_intros]:
  "act_spec P f (\<lambda>_. R) E \<Longrightarrow> act_spec R g Q E \<Longrightarrow> act_spec P (act_then f g) Q E"
  unfolding act_then_def by (rule act_spec_bind)

lemma act_spec_get [preserve_intros]: "(\<And>s. P s \<Longrightarrow> Q (f s) s) \<Longrightarrow> act_spec P (act_get f) Q E"
  by (simp add: act_spec_def act_get_def)

lemma act_spec_upd [preserve_intros]: "(\<And>s. P s \<Longrightarrow> Q () (f s)) \<Longrightarrow> act_spec P (act_upd f) Q E"
  by (simp add: act_spec_def act_upd_def)

lemma act_spec_weaken:
  assumes "act_spec P f Q E" and "\<And>s. P' s \<Longrightarrow> P s" and "\<And>x s. Q x s \<Longrightarrow> Q' x s" and "\<And>s. E s \<Longrightarrow> E' s"
  shows "act_spec P' f Q' E'"
  unfolding act_spec_def
proof (intro allI impI)
  fix s assume "P' s"
  then have "act_post Q E (f s)" using assms(1,2) by (simp add: act_spec_def)
  then show "act_post Q' E' (f s)" by (rule act_post_weaken) (use assms(3,4) in auto)
qed

lemma act_spec_pre: "(\<And>s0. P s0 \<Longrightarrow> act_spec (\<lambda>s. s = s0) f Q E) \<Longrightarrow> act_spec P f Q E"
  by (auto simp: act_spec_def)

lemma act_spec_if [preserve_intros]:
  "(b \<Longrightarrow> act_spec P f Q E) \<Longrightarrow> (\<not> b \<Longrightarrow> act_spec P g Q E) \<Longrightarrow> act_spec P (if b then f else g) Q E"
  by simp

section \<open>Rules for handlers that keep a state predicate\<close>

named_theorems keeps_intros \<open>handlers that keep the invariant\<close>

lemma keeps_ret [keeps_intros]: "act_keeps P (act_ret x)"
  by (simp add: act_keeps_def act_ret_def)

lemma keeps_raise [keeps_intros]: "act_keeps P (act_raise e)"
  by (simp add: act_keeps_def act_raise_def)

lemma keeps_bind [keeps_intros]:
  "act_keeps P f \<Longrightarrow> (\<And>x. act_keeps P (g x)) \<Longrightarrow> act_keeps P (act_bind f g)"
  unfolding act_keeps_spec by (rule act_spec_bind)

lemma keeps_then [keeps_intros]: "act_keeps P f \<Longrightarrow> act_keeps P g \<Longrightarrow> act_keeps P (act_then f g)"
  unfolding act_then_def by (rule keeps_bind)

lemma keeps_get [keeps_intros]: "act_keeps P (act_get f)"
  by (simp add: act_keeps_def act_get_def)

lemma keeps_upd: "(\<And>s. P s \<Longrightarrow> P (f s)) \<Longrightarrow> act_keeps P (act_upd f)"
  by (simp add: act_keeps_def act_upd_def)

lemma keeps_if [keeps_intros]: "act_keeps P f \<Longrightarrow> act_keeps P g \<Longrightarrow> act_keeps P (if b then f else g)"
  by simp

lemma keeps_option [keeps_intros]:
  "act_keeps P f \<Longrightarrow> (\<And>x. act_keeps P (g x)) \<Longrightarrow> act_keeps P (case r of None \<Rightarrow> f | Some x \<Rightarrow> g x)"
  by (cases r) auto

lemma keeps_prod [keeps_intros]: "(\<And>x y. act_keeps P (f x y)) \<Longrightarrow> act_keeps P (case r of (x, y) \<Rightarrow> f x y)"
  by (cases r) auto

lemma keeps_each [keeps_intros]: "(\<And>x. act_keeps P (f x)) \<Longrightarrow> act_keeps P (act_each f xs)"
  by (induction xs) (auto intro!: keeps_ret keeps_bind)

lemma act_spec_get_bind:
  "(\<And>x. act_spec (\<lambda>s. P s \<and> f s = x) (g x) Q E) \<Longrightarrow> act_spec P (act_bind (act_get f) g) Q E"
  by (simp add: act_spec_def act_bind_def act_get_def)

lemma act_spec_upd_then:
  "(\<And>s. P s \<Longrightarrow> R (f s)) \<Longrightarrow> act_spec R g Q E \<Longrightarrow> act_spec P (act_then (act_upd f) g) Q E"
  by (simp add: act_spec_def act_then_def act_bind_def act_upd_def)

section \<open>Messages, one after the other\<close>

text \<open>
  A manager dispatches one message at a time. An invariant that every handler keeps, for
  the messages that may arrive in the state, holds after any sequence of them; an exception
  ends the handler, not the manager's state.
\<close>

locale dispatcher =
  fixes dispatch :: "'m \<Rightarrow> 's \<Rightarrow> 's"
    and invariant :: "'s \<Rightarrow> bool"
  assumes dispatch_invariant: "invariant s \<Longrightarrow> invariant (dispatch m s)"
begin

lemma run_invariant: "invariant s \<Longrightarrow> invariant (fold dispatch ms s)"
  by (induction ms arbitrary: s) (simp_all add: dispatch_invariant)

lemma run_prefix_invariant: "invariant s \<Longrightarrow> invariant (fold dispatch (take n ms) s)"
  by (rule run_invariant)

lemma run_split: "fold dispatch (ms @ ns) s = fold dispatch ns (fold dispatch ms s)"
  by simp

end

end
