(* ===== verification/SvcState.thy ===== *)
theory SvcState
  imports ProcessMetric Coordinate Handler "HOL-Library.Product_Lexorder" "HOL-Library.List_Lexorder" "HOL-Library.Char_ord"
begin

text \<open>
  The state of the service manager: \<open>service/manager/state.{h,cpp}\<close>. A pointer to a service is the
  service's key in \<open>State::services\<close>, a reference to an instance the process id it is stored
  under. The unordered maps are association lists in the order of insertion, which stands for
  the order the code leaves open. The regular expressions of the restrictions are matched by
  a parameter of the environment.
\<close>

section \<open>Services and instances\<close>

datatype tran_type = Tran_automatic | Tran_join | Tran_atomic | Tran_none | Tran_branch

datatype contract = Linger | Kill | Terminate

record svc_timeout =
  to_duration :: "int option"
  to_contract :: contract

definition no_timeout :: svc_timeout where
  "no_timeout = \<lparr>to_duration = None, to_contract = Linger\<rparr>"

record svc_info =
  if_name :: string
  if_category :: string
  if_transaction :: tran_type

datatype prop_type = Configured | Discovered

record property =
  pr_hops :: int
  pr_type :: prop_type

record svc_metric =
  sm_invoked :: metric
  sm_pending :: metric
  sm_last :: int
  sm_remote :: int

definition svc_metric_zero :: svc_metric where
  "svc_metric_zero = \<lparr>sm_invoked = metric_zero, sm_pending = metric_zero, sm_last = 0, sm_remote = 0\<rparr>"

text \<open>\<open>event::service::Metric\<close>, as far as the manager reads it.\<close>

record call_metric =
  cm_service :: string
  cm_process :: handle
  cm_corr :: nat
  cm_start :: int
  cm_end :: int
  cm_pending :: int

text \<open>\<open>Metric::update\<close> and \<open>operator +=\<close>.\<close>

definition svc_metric_update :: "call_metric \<Rightarrow> svc_metric \<Rightarrow> svc_metric" where
  "svc_metric_update m x =
     x\<lparr>sm_invoked := metric_add (cm_end m - cm_start m) (sm_invoked x),
       sm_pending := (if 0 < cm_pending m then metric_add (cm_pending m) (sm_pending x) else sm_pending x),
       sm_last := cm_end m\<rparr>"

definition svc_metric_join :: "svc_metric \<Rightarrow> svc_metric \<Rightarrow> svc_metric" where
  "svc_metric_join l r =
     \<lparr>sm_invoked = metric_join (sm_invoked l) (sm_invoked r),
      sm_pending = metric_join (sm_pending l) (sm_pending r),
      sm_last = max (sm_last l) (sm_last r), sm_remote = sm_remote l + sm_remote r\<rparr>"

record caller =
  ca_process :: handle
  ca_corr :: nat

definition no_caller :: caller where
  "no_caller = \<lparr>ca_process = null_handle, ca_corr = 0\<rparr>"

definition caller_valid :: "caller \<Rightarrow> bool" where
  "caller_valid c \<longleftrightarrow> handle_valid (ca_process c)"

record seq_instance =
  si_process :: handle
  si_service :: "string option"
  si_caller :: caller
  si_services :: "string list"

definition new_sequential :: "handle \<Rightarrow> seq_instance" where
  "new_sequential h = \<lparr>si_process = h, si_service = None, si_caller = no_caller, si_services = []\<rparr>"

definition si_idle :: "seq_instance \<Rightarrow> bool" where
  "si_idle i \<longleftrightarrow> si_service i = None"

definition si_reserve :: "string \<Rightarrow> handle \<Rightarrow> nat \<Rightarrow> seq_instance \<Rightarrow> seq_instance" where
  "si_reserve key process corr i =
     i\<lparr>si_service := Some key, si_caller := \<lparr>ca_process = process, ca_corr = corr\<rparr>\<rparr>"

definition si_discard :: "seq_instance \<Rightarrow> seq_instance" where
  "si_discard i = i\<lparr>si_service := None, si_caller := no_caller\<rparr>"

record con_instance =
  ci_process :: handle
  ci_order :: int

record service =
  sv_sequential :: "int list"
  sv_concurrent :: "(int \<times> property) list"
  sv_info :: svc_info
  sv_timeout :: svc_timeout
  sv_metric :: svc_metric

definition sv_empty :: "service \<Rightarrow> bool" where
  "sv_empty v \<longleftrightarrow> sv_sequential v = [] \<and> sv_concurrent v = []"

text \<open>\<open>Service::timeoutable\<close>: an empty duration is not greater than zero.\<close>

definition sv_timeoutable :: "service \<Rightarrow> bool" where
  "sv_timeoutable v \<longleftrightarrow> sv_sequential v \<noteq> [] \<and> (case to_duration (sv_timeout v) of None \<Rightarrow> False | Some d \<Rightarrow> 0 < d)"

section \<open>Pending lookups and deadlines\<close>

datatype lookup_context = Regular | Forward | No_busy_intermediate | Wait

record lookup_request =
  lq_process :: handle
  lq_corr :: nat
  lq_requested :: string
  lq_context :: lookup_context
  lq_deadline :: "int option"

record pending_lookup =
  pl_request :: lookup_request
  pl_when :: int

record deadline =
  dl_when :: int
  dl_corr :: nat
  dl_target :: int
  dl_service :: string

text \<open>\<open>Deadline::add\<close>: insert behind the entries that are not later; the result is the time for
  the timer when the entry is the first.\<close>

fun deadline_insert :: "deadline \<Rightarrow> deadline list \<Rightarrow> deadline list" where
  "deadline_insert e [] = [e]"
| "deadline_insert e (d # ds) = (if dl_when e < dl_when d then e # d # ds else d # deadline_insert e ds)"

definition deadline_add :: "deadline \<Rightarrow> deadline list \<Rightarrow> int option \<times> deadline list" where
  "deadline_add e ds =
     (if ds = [] \<or> dl_when e < dl_when (hd ds) then Some (dl_when e) else None, deadline_insert e ds)"

text \<open>\<open>Deadline::remove\<close> of one correlation. When the entry removed was the only one the code reads
  through the end iterator; what it finds there is a parameter.\<close>

definition deadline_remove :: "int \<Rightarrow> nat \<Rightarrow> deadline list \<Rightarrow> int option \<times> deadline list" where
  "deadline_remove stale corr ds =
     (case ds of
        [] \<Rightarrow> (None, [])
      | d # rest \<Rightarrow>
          if dl_corr d = corr then (Some (case rest of [] \<Rightarrow> stale | x # _ \<Rightarrow> dl_when x), rest)
          else (None, d # remove_first (\<lambda>x. dl_corr x = corr) rest))"

text \<open>The removal of several correlations.\<close>

definition deadline_remove_all :: "nat list \<Rightarrow> deadline list \<Rightarrow> int option \<times> deadline list" where
  "deadline_remove_all corrs ds =
     (let keep = filter (\<lambda>d. dl_corr d \<notin> set corrs) ds; gone = filter (\<lambda>d. dl_corr d \<in> set corrs) ds
      in (if gone \<noteq> [] \<and> keep \<noteq> [] \<and> dl_when (hd gone) < dl_when (hd keep) then Some (dl_when (hd keep)) else None,
          keep))"

text \<open>\<open>Deadline::expired\<close>: the entries before now, and when the next one is due.\<close>

definition deadline_expired :: "int \<Rightarrow> deadline list \<Rightarrow> deadline list \<times> int option \<times> deadline list" where
  "deadline_expired now ds =
     (let rest = dropWhile (\<lambda>d. dl_when d < now) ds
      in (takeWhile (\<lambda>d. dl_when d < now) ds, (case rest of [] \<Rightarrow> None | d # _ \<Rightarrow> Some (dl_when d)), rest))"

section \<open>Messages\<close>

datatype lookup_state = Absent | Busy | Idle

record lookup_reply =
  lp_corr :: nat
  lp_service :: svc_info
  lp_requested :: "string option"
  lp_state :: lookup_state
  lp_process :: handle
  lp_pending :: int
  lp_timeout :: int

datatype discard_state = Discard_absent | Discarded | Replied

datatype error_code = Timeout_error | Service_error

record conf_service =
  cs_name :: string
  cs_routes :: "string list"
  cs_timeout :: svc_timeout

record restriction =
  rs_alias :: string
  rs_services :: "string list"

record svc_model =
  mo_timeout :: svc_timeout
  mo_services :: "conf_service list"
  mo_restrictions :: "restriction list"

datatype svc_msg =
    Lookup_reply lookup_reply
  | Error_reply nat error_code
  | Assassination int contract
  | Metric_event "call_metric list"
  | Discovery_request "string list" "nat option"
  | Discard_reply nat discard_state
  | Shutdown_reply nat "handle list"
  | Discover_reply nat "(string \<times> string \<times> tran_type) list"
  | Config_reply nat svc_model
  | Config_update_reply nat
  | Set_timer int          \<comment> \<open>the alarm, at this time\<close>

datatype svc_dest =
    Ipc nat
  | Pending_send handle    \<comment> \<open>the pending-message process, which delivers later\<close>
  | Discovery
  | Events
  | Self

section \<open>The manager\<close>

datatype runlevel = Running | Shutting_down | Error_level

text \<open>What the callback of a prepared shutdown captured.\<close>

record shutdown_callback =
  sd_corr :: nat
  sd_instances :: "seq_instance list"
  sd_destination :: handle

type_synonym shutdown_fan = "(call_metric, int, shutdown_callback) fan"
type_synonym shutdown_fired = "(call_metric, int, shutdown_callback) fan_fired"

record svc =
  ss_runlevel :: runlevel
  ss_services :: "(string \<times> service) list"
  ss_sequential :: "(int \<times> seq_instance) list"
  ss_concurrent :: "(int \<times> con_instance) list"
  ss_deadlines :: "deadline list"
  ss_lookups :: "pending_lookup list"
  ss_shutdown :: shutdown_fan
  ss_subscribers :: "handle list"
  ss_metrics :: "call_metric list"
  ss_forward :: handle
  ss_timeout :: svc_timeout
  ss_routes :: "(string \<times> string list) list"
  ss_reverse :: "(string \<times> string) list"
  ss_restrictions :: "restriction list"
  ss_outbox :: "(svc_dest \<times> svc_msg) list"

text \<open>The world of a handler: which inbound devices exist and have room, the clock, whether the
  discovery is running, the manager itself, the regular expressions, and what a read through
  the end iterator finds.\<close>

record world =
  w_reach :: "nat \<Rightarrow> bool"
  w_room :: "nat \<Rightarrow> bool"
  w_now :: int
  w_discovery :: bool
  w_self :: handle
  w_match :: "string \<Rightarrow> string \<Rightarrow> bool"
  w_stale :: int

section \<open>Updates in place\<close>

definition upd_key :: "'k \<Rightarrow> ('v \<Rightarrow> 'v) \<Rightarrow> ('k \<times> 'v) list \<Rightarrow> ('k \<times> 'v) list" where
  "upd_key k f m = update_first (\<lambda>e. fst e = k) (\<lambda>e. (fst e, f (snd e))) m"

definition del_key :: "'k \<Rightarrow> ('k \<times> 'v) list \<Rightarrow> ('k \<times> 'v) list" where
  "del_key k m = remove_first (\<lambda>e. fst e = k) m"

definition upd_service :: "string \<Rightarrow> (service \<Rightarrow> service) \<Rightarrow> svc \<Rightarrow> svc" where
  "upd_service key f s = s\<lparr>ss_services := upd_key key f (ss_services s)\<rparr>"

definition upd_sequential :: "int \<Rightarrow> (seq_instance \<Rightarrow> seq_instance) \<Rightarrow> svc \<Rightarrow> svc" where
  "upd_sequential pid f s = s\<lparr>ss_sequential := upd_key pid f (ss_sequential s)\<rparr>"

definition find_service :: "string \<Rightarrow> svc \<Rightarrow> service option" where
  "find_service key s = map_of (ss_services s) key"

text \<open>The name that a pointer to a service leads to: \<open>information.name\<close>.\<close>

definition origin_of :: "svc \<Rightarrow> string \<Rightarrow> string option" where
  "origin_of s key = map_option (\<lambda>v. if_name (sv_info v)) (find_service key s)"

text \<open>\<open>services.emplace\<close> and \<open>try_emplace\<close>: what is there already stays.\<close>

definition svc_emplace :: "string \<Rightarrow> service \<Rightarrow> svc \<Rightarrow> svc" where
  "svc_emplace key v s =
     (if find_service key s = None then s\<lparr>ss_services := ss_services s @ [(key, v)]\<rparr> else s)"

definition has_service :: "string \<Rightarrow> seq_instance \<Rightarrow> svc \<Rightarrow> bool" where
  "has_service name i s \<longleftrightarrow> list_ex (\<lambda>key. origin_of s key = Some name) (si_services i)"

section \<open>Instances of a service\<close>

text \<open>\<open>Instances::partition\<close>: by type, order and hops; the order is read from the instance.\<close>

definition prop_num :: "prop_type \<Rightarrow> int" where
  "prop_num t = (case t of Configured \<Rightarrow> 0 | Discovered \<Rightarrow> 1)"

definition concurrent_key :: "svc \<Rightarrow> int \<times> property \<Rightarrow> int \<times> int \<times> int" where
  "concurrent_key s c =
     (prop_num (pr_type (snd c)),
      (case map_of (ss_concurrent s) (fst c) of None \<Rightarrow> 0 | Some i \<Rightarrow> ci_order i), pr_hops (snd c))"

definition sort_concurrent :: "svc \<Rightarrow> (int \<times> property) list \<Rightarrow> (int \<times> property) list" where
  "sort_concurrent s cs = sort_key (concurrent_key s) cs"

text \<open>\<open>Service::remove\<close>. The instance drops the first of its services with the service's name.\<close>

definition service_remove :: "int \<Rightarrow> string \<Rightarrow> svc \<Rightarrow> svc" where
  "service_remove pid key s =
     (case find_service key s of
        None \<Rightarrow> s
      | Some v \<Rightarrow>
          let s1 = (if pid \<in> set (sv_sequential v) then
                      upd_service key (\<lambda>v. v\<lparr>sv_sequential := remove1 pid (sv_sequential v)\<rparr>)
                        (upd_sequential pid (\<lambda>i. i\<lparr>si_services :=
                            remove_first (\<lambda>k. origin_of s k = Some (if_name (sv_info v))) (si_services i)\<rparr>) s)
                    else s)
          in (if pid \<in> set (map fst (sv_concurrent v)) then
                upd_service key (\<lambda>v. v\<lparr>sv_concurrent :=
                  sort_concurrent s (remove_first (\<lambda>c. fst c = pid) (sv_concurrent v))\<rparr>) s1
              else s1))"

definition service_add_sequential :: "int \<Rightarrow> string \<Rightarrow> svc \<Rightarrow> svc" where
  "service_add_sequential pid key s =
     (case find_service key s of
        None \<Rightarrow> s
      | Some v \<Rightarrow>
          if pid \<in> set (sv_sequential v) then s
          else upd_sequential pid (\<lambda>i. i\<lparr>si_services := si_services i @ [key]\<rparr>)
                 (upd_service key (\<lambda>v. v\<lparr>sv_sequential := sv_sequential v @ [pid]\<rparr>) s))"

definition service_add_concurrent :: "int \<Rightarrow> property \<Rightarrow> string \<Rightarrow> svc \<Rightarrow> svc" where
  "service_add_concurrent pid prop key s =
     (case find_service key s of
        None \<Rightarrow> s
      | Some v \<Rightarrow>
          if pid \<in> set (map fst (sv_concurrent v)) then s
          else upd_service key (\<lambda>v. v\<lparr>sv_concurrent := sort_concurrent s (sv_concurrent v @ [(pid, prop)])\<rparr>) s)"

text \<open>\<open>Service::reserve\<close>: the first idle local instance, else the best remote one if there is no
  local instance at all, else the null handle.\<close>

definition idle_instance :: "svc \<Rightarrow> int \<Rightarrow> bool" where
  "idle_instance s pid \<longleftrightarrow> (case map_of (ss_sequential s) pid of None \<Rightarrow> False | Some i \<Rightarrow> si_idle i)"

definition service_reserve :: "string \<Rightarrow> handle \<Rightarrow> nat \<Rightarrow> svc \<Rightarrow> handle \<times> svc" where
  "service_reserve key process corr s =
     (case find_service key s of
        None \<Rightarrow> (null_handle, s)
      | Some v \<Rightarrow>
          (case List.find (idle_instance s) (sv_sequential v) of
             Some pid \<Rightarrow>
               ((case map_of (ss_sequential s) pid of None \<Rightarrow> null_handle | Some i \<Rightarrow> si_process i),
                upd_sequential pid (si_reserve key process corr) s)
           | None \<Rightarrow>
               if sv_sequential v = [] \<and> sv_concurrent v \<noteq> [] then
                 ((case map_of (ss_concurrent s) (fst (hd (sv_concurrent v))) of
                     None \<Rightarrow> null_handle | Some i \<Rightarrow> ci_process i),
                  upd_service key (\<lambda>v. v\<lparr>sv_metric := (sv_metric v)\<lparr>sm_remote := sm_remote (sv_metric v) + 1\<rparr>\<rparr>) s)
               else (null_handle, s)))"

end
