(* ===== verification/SvcHandle.thy ===== *)
theory SvcHandle
  imports SvcState
begin

text \<open>
  The operations of \<open>service/manager/state.cpp\<close> on the whole state, and the handlers of
  \<open>service/manager/handle.cpp\<close>: advertising, lookup, acknowledgement, timeouts, prepared
  shutdown, exits, metrics and discovery. A handler reads the clock once.
\<close>

section \<open>Sending\<close>

definition svc_post :: "svc_dest \<Rightarrow> svc_msg \<Rightarrow> svc \<Rightarrow> svc" where
  "svc_post d m s = s\<lparr>ss_outbox := ss_outbox s @ [(d, m)]\<rparr>"

definition svc_optional_send :: "world \<Rightarrow> nat \<Rightarrow> svc_msg \<Rightarrow> (svc, bool) act" where
  "svc_optional_send w ipc m =
     (if w_reach w ipc then act_then (act_upd (svc_post (Ipc ipc) m)) (act_ret True) else act_ret False)"

definition svc_blocking_send :: "world \<Rightarrow> nat \<Rightarrow> svc_msg \<Rightarrow> (svc, unit) act" where
  "svc_blocking_send w ipc m =
     (if w_reach w ipc then act_upd (svc_post (Ipc ipc) m) else act_raise Comm_unavailable)"

text \<open>\<open>eventually::send\<close>; whether it could be sent is not looked at by the callers.\<close>

definition eventually_send :: "world \<Rightarrow> handle \<Rightarrow> svc_msg \<Rightarrow> svc \<Rightarrow> svc" where
  "eventually_send w h m s =
     (if \<not> w_reach w (hipc h) then s
      else if w_room w (hipc h) then svc_post (Ipc (hipc h)) m s
      else svc_post (Pending_send h) m s)"

definition error_reply :: "world \<Rightarrow> caller \<Rightarrow> error_code \<Rightarrow> svc \<Rightarrow> svc" where
  "error_reply w c code = eventually_send w (ca_process c) (Error_reply (ca_corr c) code)"

definition discovery_send :: "world \<Rightarrow> string list \<Rightarrow> nat option \<Rightarrow> (svc, bool) act" where
  "discovery_send w names corr =
     (if w_discovery w then act_then (act_upd (svc_post Discovery (Discovery_request names corr))) (act_ret True)
      else act_ret False)"

section \<open>Removing instances\<close>

definition remove_sequential :: "int \<Rightarrow> svc \<Rightarrow> svc" where
  "remove_sequential pid s =
     (if map_of (ss_sequential s) pid = None then s
      else let s1 = fold (service_remove pid) (map fst (ss_services s)) s
           in s1\<lparr>ss_sequential := del_key pid (ss_sequential s1)\<rparr>)"

definition remove_concurrent :: "int \<Rightarrow> svc \<Rightarrow> svc" where
  "remove_concurrent pid s =
     (if map_of (ss_concurrent s) pid = None then s
      else let s1 = fold (service_remove pid) (map fst (ss_services s)) s
           in s1\<lparr>ss_concurrent := del_key pid (ss_concurrent s1)\<rparr>)"

definition svc_remove :: "int \<Rightarrow> svc \<Rightarrow> svc" where
  "svc_remove pid s =
     remove_concurrent pid (remove_sequential pid
       (s\<lparr>ss_forward := (if hpid (ss_forward s) = pid then null_handle else ss_forward s),
          ss_subscribers := filter (\<lambda>h. hpid h \<noteq> pid) (ss_subscribers s)\<rparr>))"

text \<open>\<open>Sequential::detach\<close>: the instance leaves all its services; the names of those that are left
  without instances.\<close>

definition seq_detach :: "int \<Rightarrow> svc \<Rightarrow> string list \<times> svc" where
  "seq_detach pid s =
     (case map_of (ss_sequential s) pid of
        None \<Rightarrow> ([], s)
      | Some i \<Rightarrow>
          fold (\<lambda>key (names, s).
              let s1 = service_remove pid key s
              in case find_service key s1 of
                   None \<Rightarrow> (names, s1)
                 | Some v \<Rightarrow> (if sv_empty v then names @ [if_name (sv_info v)] else names, s1))
            (si_services i) ([], upd_sequential pid (\<lambda>i. i\<lparr>si_services := []\<rparr>) s))"

definition append_unique :: "'a list \<Rightarrow> 'a list \<Rightarrow> 'a list" where
  "append_unique xs out = fold (\<lambda>x out. if x \<in> set out then out else out @ [x]) xs out"

text \<open>\<open>State::prepare_shutdown\<close>: one process after the other.\<close>

fun prepare_processes ::
    "handle list \<Rightarrow> svc \<Rightarrow> (string list \<times> seq_instance list \<times> handle list) \<times> svc" where
  "prepare_processes [] s = (([], [], []), s)"
| "prepare_processes (h # hs) s =
     (case map_of (ss_sequential s) (hpid h) of
        Some _ \<Rightarrow>
          (case seq_detach (hpid h) s of (names, s1) \<Rightarrow>
             (case map_of (ss_sequential s1) (hpid h) of
                None \<Rightarrow> prepare_processes hs s1
              | Some i \<Rightarrow>
                  (case prepare_processes hs (s1\<lparr>ss_sequential := del_key (hpid h) (ss_sequential s1)\<rparr>) of
                     ((ns, is, us), s2) \<Rightarrow> ((append_unique ns (append_unique names []), i # is, us), s2))))
      | None \<Rightarrow>
          (case prepare_processes hs (remove_concurrent (hpid h) s) of
             ((ns, is, us), s2) \<Rightarrow> ((ns, is, h # us), s2)))"

section \<open>Advertising\<close>

record advertise =
  ad_process :: handle
  ad_alias :: string
  ad_add :: "svc_info list"
  ad_remove :: "string list"

record concurrent_advertise =
  cd_process :: handle
  cd_alias :: string
  cd_order :: int
  cd_add :: "(svc_info \<times> int \<times> property) list"
  cd_remove :: "string list"
  cd_reset :: bool

text \<open>\<open>restrict_add_services\<close>: only the names that match one of the expressions of the alias.\<close>

definition restrict_names :: "world \<Rightarrow> string \<Rightarrow> ('a \<Rightarrow> string) \<Rightarrow> 'a list \<Rightarrow> svc \<Rightarrow> 'a list" where
  "restrict_names w alias name_of xs s =
     (case List.find (\<lambda>r. rs_alias r = alias) (ss_restrictions s) of
        None \<Rightarrow> xs
      | Some r \<Rightarrow> filter (\<lambda>x. list_ex (\<lambda>e. w_match w e (name_of x)) (rs_services r)) xs)"

definition transform_service :: "svc_info \<Rightarrow> svc_timeout \<Rightarrow> service" where
  "transform_service info timeout =
     \<lparr>sv_sequential = [], sv_concurrent = [], sv_info = info, sv_timeout = timeout, sv_metric = svc_metric_zero\<rparr>"

definition add_one_service :: "service \<Rightarrow> (string \<Rightarrow> svc \<Rightarrow> svc) \<Rightarrow> string \<Rightarrow> svc \<Rightarrow> svc" where
  "add_one_service v add key s =
     (case find_service key s of
        Some _ \<Rightarrow>
          add key (upd_service key (\<lambda>x. x\<lparr>sv_info := (sv_info x)\<lparr>if_category := if_category (sv_info v),
            if_transaction := if_transaction (sv_info v)\<rparr>\<rparr>) s)
      | None \<Rightarrow> add key (svc_emplace key v s))"

definition find_or_add_service :: "service \<Rightarrow> (string \<Rightarrow> svc \<Rightarrow> svc) \<Rightarrow> svc \<Rightarrow> svc" where
  "find_or_add_service v add s =
     (case map_of (ss_routes s) (if_name (sv_info v)) of
        Some routes \<Rightarrow> fold (add_one_service v add) routes s
      | None \<Rightarrow> add_one_service v add (if_name (sv_info v)) s)"

definition remove_services :: "int \<Rightarrow> string list \<Rightarrow> svc \<Rightarrow> svc" where
  "remove_services pid names s =
     fold (\<lambda>key s. if (case origin_of s key of None \<Rightarrow> False | Some n \<Rightarrow> n \<in> set names)
                   then service_remove pid key s else s) (map fst (ss_services s)) s"

definition find_or_add_sequential :: "handle \<Rightarrow> svc \<Rightarrow> svc" where
  "find_or_add_sequential h s =
     (if map_of (ss_sequential s) (hpid h) = None
      then s\<lparr>ss_sequential := ss_sequential s @ [(hpid h, new_sequential h)]\<rparr> else s)"

definition find_or_add_concurrent :: "handle \<Rightarrow> int \<Rightarrow> svc \<Rightarrow> svc" where
  "find_or_add_concurrent h order s =
     (if map_of (ss_concurrent s) (hpid h) = None
      then s\<lparr>ss_concurrent := ss_concurrent s @ [(hpid h, \<lparr>ci_process = h, ci_order = order\<rparr>)]\<rparr>
      else s\<lparr>ss_concurrent := upd_key (hpid h) (\<lambda>i. i\<lparr>ci_order := order\<rparr>) (ss_concurrent s)\<rparr>)"

text \<open>\<open>State::update\<close> for a local server. At most one pending lookup is resolved.\<close>

definition update_advertise :: "world \<Rightarrow> advertise \<Rightarrow> svc \<Rightarrow> pending_lookup list \<times> svc" where
  "update_advertise w m s =
     (let pid = hpid (ad_process m)
      in if \<not> handle_valid (ad_process m) then ([], s)
         else if ad_add m = [] \<and> ad_remove m = [] then ([], svc_remove pid s)
         else
           let add = restrict_names w (ad_alias m) if_name (ad_add m) s;
               s1 = find_or_add_sequential (ad_process m) s;
               s2 = fold (\<lambda>info s. find_or_add_service (transform_service info (ss_timeout s))
                            (service_add_sequential pid) s) add s1;
               s3 = remove_services pid (ad_remove m) s2;
               wanted = (\<lambda>p. case map_of (ss_sequential s3) pid of
                   None \<Rightarrow> False | Some i \<Rightarrow> has_service (lq_requested (pl_request p)) i s3)
           in (case List.find wanted (ss_lookups s3) of
                 None \<Rightarrow> ([], s3)
               | Some p \<Rightarrow> ([p], s3\<lparr>ss_lookups := remove_first wanted (ss_lookups s3)\<rparr>)))"

definition concurrent_timeout :: "int \<Rightarrow> svc_timeout" where
  "concurrent_timeout d = (if 0 < d then no_timeout\<lparr>to_duration := Some d\<rparr> else no_timeout)"

text \<open>For a remote server every pending lookup of a service with instances is resolved.\<close>

definition update_concurrent :: "world \<Rightarrow> concurrent_advertise \<Rightarrow> svc \<Rightarrow> pending_lookup list \<times> svc" where
  "update_concurrent w m s =
     (let pid = hpid (cd_process m)
      in if \<not> handle_valid (cd_process m) then ([], s)
         else
           let s0 = (if cd_reset m then svc_remove pid s else s);
               add = restrict_names w (cd_alias m) (\<lambda>(info, _, _). if_name info) (cd_add m) s0;
               s1 = find_or_add_concurrent (cd_process m) (cd_order m) s0;
               s2 = fold (\<lambda>(info, d, prop) s. find_or_add_service (transform_service info (concurrent_timeout d))
                            (service_add_concurrent pid prop) s) add s1;
               s3 = remove_services pid (cd_remove m) s2;
               keep = (\<lambda>p. case find_service (lq_requested (pl_request p)) s3 of None \<Rightarrow> True | Some v \<Rightarrow> sv_empty v)
           in (filter (\<lambda>p. \<not> keep p) (ss_lookups s3), s3\<lparr>ss_lookups := filter keep (ss_lookups s3)\<rparr>))"

section \<open>Lookup\<close>

definition push_pending :: "lookup_request \<Rightarrow> int \<Rightarrow> svc \<Rightarrow> svc" where
  "push_pending m now s = s\<lparr>ss_lookups := ss_lookups s @ [\<lparr>pl_request = m, pl_when = now\<rparr>]\<rparr>"

definition absent_reply :: "lookup_request \<Rightarrow> svc_msg" where
  "absent_reply m = Lookup_reply \<lparr>lp_corr = lq_corr m,
     lp_service = \<lparr>if_name = lq_requested m, if_category = [], if_transaction = Tran_automatic\<rparr>,
     lp_requested = None, lp_state = Absent, lp_process = null_handle, lp_pending = 0, lp_timeout = 0\<rparr>"

definition discover :: "world \<Rightarrow> lookup_request \<Rightarrow> string \<Rightarrow> (svc, unit) act" where
  "discover w m name =
     act_bind (discovery_send w [name] (Some (lq_corr m)))
      (\<lambda>sent. if sent \<or> lq_context m = Wait then act_upd (push_pending m (w_now w))
              else act_then (svc_optional_send w (hipc (lq_process m)) (absent_reply m)) (act_ret ()))"

definition idle_reply :: "lookup_request \<Rightarrow> service \<Rightarrow> handle \<Rightarrow> int \<Rightarrow> int \<Rightarrow> svc_msg" where
  "idle_reply m v h pending timeout = Lookup_reply \<lparr>lp_corr = lq_corr m, lp_service = sv_info v,
     lp_requested = (if if_name (sv_info v) \<noteq> lq_requested m then Some (lq_requested m) else None),
     lp_state = Idle, lp_process = h, lp_pending = pending, lp_timeout = timeout\<rparr>"

definition plain_reply :: "lookup_request \<Rightarrow> service \<Rightarrow> lookup_state \<Rightarrow> handle \<Rightarrow> svc_msg" where
  "plain_reply m v st h = Lookup_reply \<lparr>lp_corr = lq_corr m, lp_service = sv_info v, lp_requested = None,
     lp_state = st, lp_process = h, lp_pending = 0, lp_timeout = 0\<rparr>"

text \<open>What \<open>lookup\<close> does with a reserved instance: the deadline of a local one, then the reply.\<close>

definition add_deadline :: "world \<Rightarrow> lookup_request \<Rightarrow> int \<Rightarrow> handle \<Rightarrow> (svc, unit) act" where
  "add_deadline w m d h =
     act_bind (act_state (\<lambda>s.
        case deadline_add \<lparr>dl_when = w_now w + d, dl_corr = lq_corr m, dl_target = hpid h, dl_service = lq_requested m\<rparr>
               (ss_deadlines s) of (next_due, ds) \<Rightarrow> (next_due, s\<lparr>ss_deadlines := ds\<rparr>)))
      (\<lambda>next_due. case next_due of None \<Rightarrow> act_ret () | Some t \<Rightarrow> act_upd (svc_post Self (Set_timer t)))"

definition reply_reserved :: "world \<Rightarrow> lookup_request \<Rightarrow> int \<Rightarrow> service \<Rightarrow> handle \<Rightarrow> (svc, unit) act" where
  "reply_reserved w m pending v h =
     act_bind
      (if sv_timeoutable v then
         (let d = (case to_duration (sv_timeout v) of None \<Rightarrow> 0 | Some d \<Rightarrow> d)
          in act_then (add_deadline w m d h) (act_ret d))
       else act_ret (case lq_deadline m of None \<Rightarrow> 0 | Some t \<Rightarrow> t - w_now w))
      (\<lambda>timeout. act_then (svc_optional_send w (hipc (lq_process m)) (idle_reply m v h pending timeout)) (act_ret ()))"

text \<open>All instances are busy: the context of the lookup decides.\<close>

definition busy_lookup :: "world \<Rightarrow> lookup_request \<Rightarrow> service \<Rightarrow> (svc, unit) act" where
  "busy_lookup w m v =
     (case lq_context m of
        Forward \<Rightarrow>
          act_bind (act_get ss_forward)
           (\<lambda>f. act_then (svc_optional_send w (hipc (lq_process m)) (plain_reply m v Idle f)) (act_ret ()))
      | No_busy_intermediate \<Rightarrow> act_upd (push_pending m (w_now w))
      | Regular \<Rightarrow>
          act_bind (svc_optional_send w (hipc (lq_process m)) (plain_reply m v Busy null_handle))
           (\<lambda>sent. if sent then act_upd (push_pending m (w_now w)) else act_ret ())
      | Wait \<Rightarrow> act_upd (push_pending m (w_now w)))"

definition use_reservation :: "world \<Rightarrow> lookup_request \<Rightarrow> int \<Rightarrow> service \<Rightarrow> handle \<Rightarrow> (svc, unit) act" where
  "use_reservation w m pending v h =
     (if handle_valid h then reply_reserved w m pending v h
      else if sv_empty v then discover w m (if_name (sv_info v))
      else busy_lookup w m v)"

definition svc_lookup :: "world \<Rightarrow> lookup_request \<Rightarrow> int \<Rightarrow> (svc, unit) act" where
  "svc_lookup w m pending =
     act_bind (act_get (find_service (lq_requested m)))
      (\<lambda>found. case found of
         None \<Rightarrow> discover w m (lq_requested m)
       | Some v \<Rightarrow>
           act_bind (act_state (service_reserve (lq_requested m) (lq_process m) (lq_corr m)))
            (use_reservation w m pending v))"

text \<open>\<open>detail::handle::pending\<close>: the lookups an advertisement made possible, one after the other.\<close>

definition resolve_pending :: "world \<Rightarrow> pending_lookup list \<Rightarrow> (svc, unit) act" where
  "resolve_pending w ps =
     act_then (act_each (\<lambda>p. svc_lookup w (pl_request p)
        (if lq_context (pl_request p) = Wait then 0 else w_now w - pl_when p)) ps) (act_ret ())"

definition handle_advertise :: "world \<Rightarrow> advertise \<Rightarrow> (svc, unit) act" where
  "handle_advertise w m = act_bind (act_state (update_advertise w m)) (resolve_pending w)"

definition handle_concurrent :: "world \<Rightarrow> concurrent_advertise \<Rightarrow> (svc, unit) act" where
  "handle_concurrent w m = act_bind (act_state (update_concurrent w m)) (resolve_pending w)"

text \<open>\<open>discard::lookup\<close>: a pending lookup is dropped, or a reservation given back.\<close>

definition discard_lookup :: "world \<Rightarrow> handle \<Rightarrow> nat \<Rightarrow> bool \<Rightarrow> (svc, unit) act" where
  "discard_lookup w h corr reply =
     act_bind (act_state (\<lambda>s.
        if \<exists>p\<in>set (ss_lookups s). lq_corr (pl_request p) = corr then
          (Discarded, s\<lparr>ss_lookups := remove_first (\<lambda>p. lq_corr (pl_request p) = corr) (ss_lookups s)\<rparr>)
        else
          (case List.find (\<lambda>(_, i). \<not> si_idle i \<and> ca_corr (si_caller i) = corr) (ss_sequential s) of
             None \<Rightarrow> (Discard_absent, s)
           | Some (pid, _) \<Rightarrow> (Replied, upd_sequential pid si_discard s))))
      (\<lambda>st. if reply then act_then (svc_optional_send w (hipc h) (Discard_reply corr st)) (act_ret ())
            else act_ret ())"

section \<open>Metrics\<close>

definition svc_batch :: nat where "svc_batch = 100"

text \<open>\<open>metric::send\<close>: the subscribers that have room first, then the rest by the pending-message process.\<close>

definition no_room :: "world \<Rightarrow> handle \<Rightarrow> bool" where
  "no_room w h \<longleftrightarrow> w_reach w (hipc h) \<and> \<not> w_room w (hipc h)"

definition metric_send :: "world \<Rightarrow> svc \<Rightarrow> svc" where
  "metric_send w s =
     fold (\<lambda>h. eventually_send w h (Metric_event (ss_metrics s)))
       (filter (\<lambda>h. \<not> no_room w h) (ss_subscribers s) @ filter (no_room w) (ss_subscribers s)) (s\<lparr>ss_metrics := []\<rparr>)"

definition metric_batch :: "world \<Rightarrow> svc \<Rightarrow> svc" where
  "metric_batch w s = (if svc_batch \<le> length (ss_metrics s) then metric_send w s else s)"

definition metric_add_batch :: "world \<Rightarrow> call_metric list \<Rightarrow> svc \<Rightarrow> svc" where
  "metric_add_batch w ms s =
     (if ss_subscribers s = [] then s else metric_batch w (s\<lparr>ss_metrics := ss_metrics s @ ms\<rparr>))"

definition handle_metric :: "world \<Rightarrow> call_metric list \<Rightarrow> svc \<Rightarrow> svc" where
  "handle_metric w ms s =
     metric_add_batch w ms
       (fold (\<lambda>m. upd_service (cm_service m) (\<lambda>v. v\<lparr>sv_metric := svc_metric_update m (sv_metric v)\<rparr>)) ms s)"

text \<open>The idle condition of the message pump (\<open>main.cpp\<close>).\<close>

definition metric_idle :: "world \<Rightarrow> svc \<Rightarrow> svc" where
  "metric_idle w s = (if ss_metrics s \<noteq> [] \<and> ss_subscribers s \<noteq> [] then metric_send w s else s)"

fun metric_reset :: "string list \<Rightarrow> svc \<Rightarrow> string list \<times> svc" where
  "metric_reset [] s = ([], s)"
| "metric_reset (name # names) s =
     (case metric_reset names (upd_service name (\<lambda>v. v\<lparr>sv_metric := svc_metric_zero\<rparr>) s) of
        (r, s') \<Rightarrow> (if find_service name s = None then r else name # r, s'))"

definition metric_reset_request :: "string list \<Rightarrow> svc \<Rightarrow> string list \<times> svc" where
  "metric_reset_request names s = metric_reset (if names = [] then map fst (ss_services s) else names) s"

section \<open>Acknowledgement\<close>

text \<open>\<open>Sequential::unreserve\<close>: an instance that is not reserved is an assertion, or without
  assertions a null pointer.\<close>

definition unreserve :: "int \<Rightarrow> call_metric \<Rightarrow> (svc, unit) act" where
  "unreserve pid m =
     act_bind (act_get (\<lambda>s. map_of (ss_sequential s) pid))
      (\<lambda>i. case i of
         None \<Rightarrow> act_ret ()
       | Some i \<Rightarrow>
           (case si_service i of
              None \<Rightarrow> act_raise Terminated
            | Some key \<Rightarrow>
                act_then (act_upd (upd_service key (\<lambda>v. v\<lparr>sv_metric := svc_metric_update m (sv_metric v)\<rparr>)))
                 (act_upd (upd_sequential pid si_discard))))"

text \<open>The pending lookups an instance can serve: by the name of one of its services, or by a
  route to it.\<close>

definition can_serve :: "svc \<Rightarrow> seq_instance \<Rightarrow> pending_lookup \<Rightarrow> bool" where
  "can_serve s i p \<longleftrightarrow>
     has_service (lq_requested (pl_request p)) i s \<or>
     (case map_of (ss_reverse s) (lq_requested (pl_request p)) of None \<Rightarrow> False | Some n \<Rightarrow> has_service n i s)"

definition serve_next :: "world \<Rightarrow> int \<Rightarrow> (svc, unit) act" where
  "serve_next w pid =
     act_bind (act_state (\<lambda>s.
        (case map_of (ss_sequential s) pid of
           None \<Rightarrow> (None, s)
         | Some i \<Rightarrow>
             (case List.find (can_serve s i) (ss_lookups s) of
                None \<Rightarrow> (None, s)
              | Some p \<Rightarrow> (Some p, s\<lparr>ss_lookups := remove_first (can_serve s i) (ss_lookups s)\<rparr>)))))
      (\<lambda>found. case found of None \<Rightarrow> act_ret () | Some p \<Rightarrow> svc_lookup w (pl_request p) (w_now w - pl_when p))"

section \<open>Prepared shutdown\<close>

text \<open>The callback: an error reply for the callers of the instances that died, the metrics of the
  others, then one reply with the processes that are done. The assertion of \<open>Sequential::unreserve\<close> on
  the copied instance, which a second acknowledgement of the same process would fail, is left out.\<close>

definition shutdown_failed :: "world \<Rightarrow> seq_instance list \<Rightarrow> int fan_pending list \<Rightarrow> svc \<Rightarrow> svc" where
  "shutdown_failed w is outcome s =
     fold (\<lambda>p s. case List.find (\<lambda>i. hpid (si_process i) = fan_id p) is of
                   None \<Rightarrow> s | Some i \<Rightarrow> error_reply w (si_caller i) Service_error s)
       (filter (\<lambda>p. fan_state p = Fan_failed) outcome) s"

fun shutdown_done :: "seq_instance list \<Rightarrow> call_metric list \<Rightarrow> svc \<Rightarrow> handle list \<times> svc" where
  "shutdown_done is [] s = ([], s)"
| "shutdown_done is (m # ms) s =
     (case List.find (\<lambda>i. hpid (si_process i) = hpid (cm_process m)) is of
        None \<Rightarrow> shutdown_done is ms s
      | Some i \<Rightarrow>
          (case shutdown_done is ms (case si_service i of None \<Rightarrow> s
               | Some key \<Rightarrow> upd_service key (\<lambda>v. v\<lparr>sv_metric := svc_metric_update m (sv_metric v)\<rparr>) s) of
             (hs, s') \<Rightarrow> (cm_process m # hs, s')))"

definition fired_shutdown :: "world \<Rightarrow> shutdown_fired \<Rightarrow> svc \<Rightarrow> svc" where
  "fired_shutdown w fired s =
     (case fired of (cb, replies, outcome) \<Rightarrow>
        (case shutdown_done (sd_instances cb) replies (shutdown_failed w (sd_instances cb) outcome s) of
           (hs, s') \<Rightarrow> eventually_send w (sd_destination cb) (Shutdown_reply (sd_corr cb) hs) s'))"

definition run_shutdown :: "world \<Rightarrow> shutdown_fired option \<Rightarrow> svc \<Rightarrow> svc" where
  "run_shutdown w fired s = (case fired of None \<Rightarrow> s | Some f \<Rightarrow> fired_shutdown w f s)"

text \<open>\<open>prepare::detail::pending::lookup\<close>: the pending lookups of the services that lost their last
  instance are looked up again.\<close>

definition route_names :: "svc \<Rightarrow> string list \<Rightarrow> string list" where
  "route_names s names = concat (map (\<lambda>n. case map_of (ss_routes s) n of None \<Rightarrow> [n] | Some rs \<Rightarrow> rs) names)"

definition relookup :: "world \<Rightarrow> string list \<Rightarrow> (svc, unit) act" where
  "relookup w names =
     act_bind (act_state (\<lambda>s.
        let hit = (\<lambda>p. lq_requested (pl_request p) \<in> set (route_names s names))
        in (filter hit (ss_lookups s), s\<lparr>ss_lookups := filter (\<lambda>p. \<not> hit p) (ss_lookups s)\<rparr>)))
      (\<lambda>ps. act_then (act_each (\<lambda>p. svc_lookup w (pl_request p) (w_now w - pl_when p)) ps) (act_ret ()))"

text \<open>The processes that are done get their reply at once, the reserved ones are waited for.\<close>

definition reply_idle :: "world \<Rightarrow> handle \<Rightarrow> nat \<Rightarrow> handle list \<Rightarrow> (svc, unit) act" where
  "reply_idle w h corr hs =
     (if hs \<noteq> [] then act_upd (eventually_send w h (Shutdown_reply corr hs)) else act_ret ())"

definition await_busy :: "world \<Rightarrow> handle \<Rightarrow> nat \<Rightarrow> seq_instance list \<Rightarrow> (svc, unit) act" where
  "await_busy w h corr busy =
     (if busy = [] then act_ret ()
      else act_bind (act_state (\<lambda>s.
              case fan_add (map (\<lambda>i. mk_pending (ca_corr (si_caller i)) (hpid (si_process i))) busy)
                     \<lparr>sd_corr = corr, sd_instances = busy, sd_destination = h\<rparr> (ss_shutdown s) of
                (fired, es) \<Rightarrow> (fired, s\<lparr>ss_shutdown := es\<rparr>)))
            (\<lambda>fired. act_upd (run_shutdown w fired)))"

definition prepare_shutdown :: "world \<Rightarrow> handle \<Rightarrow> nat \<Rightarrow> handle list \<Rightarrow> (svc, unit) act" where
  "prepare_shutdown w h corr processes =
     act_bind (act_state (prepare_processes processes))
      (\<lambda>(names, is, unknown).
        act_then (if names \<noteq> [] then relookup w names else act_ret ())
         (act_then (reply_idle w h corr (unknown @ map si_process (filter si_idle is)))
          (await_busy w h corr (filter (\<lambda>i. \<not> si_idle i) is))))"

text \<open>\<open>ack\<close>.\<close>

definition handle_ack :: "world \<Rightarrow> nat \<Rightarrow> call_metric \<Rightarrow> (svc, unit) act" where
  "handle_ack w corr m =
     act_bind (act_state (\<lambda>s. case deadline_remove (w_stale w) corr (ss_deadlines s) of (x, ds) \<Rightarrow> (x, s\<lparr>ss_deadlines := ds\<rparr>)))
      (\<lambda>due. act_then (case due of None \<Rightarrow> act_ret () | Some t \<Rightarrow> act_upd (svc_post Self (Set_timer t)))
       (act_then (act_upd (metric_add_batch w [m]))
        (act_bind (act_get (\<lambda>s. map_of (ss_sequential s) (hpid (cm_process m))))
          (\<lambda>i. case i of
             Some _ \<Rightarrow> act_then (unreserve (hpid (cm_process m)) m) (serve_next w (hpid (cm_process m)))
           | None \<Rightarrow>
               act_bind (act_state (\<lambda>s. case fan_message corr m (ss_shutdown s) of (fired, es) \<Rightarrow> (fired, s\<lparr>ss_shutdown := es\<rparr>)))
                (\<lambda>fired. act_upd (run_shutdown w fired))))))"

section \<open>Timeouts and exits\<close>

text \<open>\<open>Instances::consume\<close>: the first instance with the correlation gives its caller away.\<close>

fun consume :: "nat \<Rightarrow> int list \<Rightarrow> svc \<Rightarrow> caller option \<times> svc" where
  "consume corr [] s = (None, s)"
| "consume corr (pid # pids) s =
     (case map_of (ss_sequential s) pid of
        None \<Rightarrow> consume corr pids s
      | Some i \<Rightarrow>
          if ca_corr (si_caller i) = corr then
            (let s' = upd_sequential pid (\<lambda>i. i\<lparr>si_caller := no_caller\<rparr>) s
             in if caller_valid (si_caller i) then (Some (si_caller i), s') else consume corr pids s')
          else consume corr pids s)"

definition expire_entry :: "world \<Rightarrow> deadline \<Rightarrow> (svc, unit) act" where
  "expire_entry w e =
     act_bind (act_get (find_service (dl_service e)))
      (\<lambda>v. case v of
         None \<Rightarrow> act_raise Undefined_access
       | Some v \<Rightarrow>
           act_bind (act_state (consume (dl_corr e) (sv_sequential v)))
            (\<lambda>c. case c of
               None \<Rightarrow> act_ret ()
             | Some c \<Rightarrow>
                 act_then (act_upd (error_reply w c Timeout_error))
                  (act_upd (svc_post Events (Assassination (dl_target e) (to_contract (sv_timeout v)))))))"

definition handle_timeout :: "world \<Rightarrow> (svc, unit) act" where
  "handle_timeout w =
     act_bind (act_state (\<lambda>s. case deadline_expired (w_now w) (ss_deadlines s) of (es, due, ds) \<Rightarrow> ((es, due), s\<lparr>ss_deadlines := ds\<rparr>)))
      (\<lambda>(es, due). act_then (act_each (expire_entry w) es)
         (case due of None \<Rightarrow> act_ret () | Some t \<Rightarrow> act_upd (svc_post Self (Set_timer t))))"

definition handle_exit :: "world \<Rightarrow> int \<Rightarrow> svc \<Rightarrow> svc" where
  "handle_exit w pid s =
     (let s1 = (case map_of (ss_sequential s) pid of
                  None \<Rightarrow> s
                | Some i \<Rightarrow> if \<not> si_idle i \<and> caller_valid (si_caller i) then error_reply w (si_caller i) Service_error s else s)
      in case fan_failed pid (ss_shutdown s1) of
           (fired, es) \<Rightarrow> svc_remove pid (fold (fired_shutdown w) fired (s1\<lparr>ss_shutdown := es\<rparr>)))"

section \<open>Discovery\<close>

definition admin_category :: string where "admin_category = ''.admin''"

definition known_services :: "svc \<Rightarrow> string list \<Rightarrow> (string \<times> string \<times> tran_type) list" where
  "known_services s names =
     concat (map (\<lambda>n. case find_service n s of
        None \<Rightarrow> []
      | Some v \<Rightarrow> if sv_sequential v \<noteq> [] \<and> if_category (sv_info v) \<noteq> admin_category
                  then [(n, if_category (sv_info v), if_transaction (sv_info v))] else []) names)"

definition discover_request :: "world \<Rightarrow> handle \<Rightarrow> nat \<Rightarrow> string list \<Rightarrow> (svc, unit) act" where
  "discover_request w h corr names =
     act_bind (act_get (\<lambda>s. known_services s names)) (\<lambda>ks. svc_blocking_send w (hipc h) (Discover_reply corr ks))"

definition discover_reply :: "world \<Rightarrow> nat \<Rightarrow> (svc, unit) act" where
  "discover_reply w corr =
     act_bind (act_state (\<lambda>s.
        case List.find (\<lambda>p. lq_corr (pl_request p) = corr) (ss_lookups s) of
          None \<Rightarrow> (None, s)
        | Some p \<Rightarrow> (Some p, s\<lparr>ss_lookups := remove_first (\<lambda>p. lq_corr (pl_request p) = corr) (ss_lookups s)\<rparr>)))
      (\<lambda>found. case found of
         None \<Rightarrow> act_ret ()
       | Some p \<Rightarrow>
           act_bind (act_get (find_service (lq_requested (pl_request p))))
            (\<lambda>v. if (case v of None \<Rightarrow> False | Some v \<Rightarrow> \<not> sv_empty v) then svc_lookup w (pl_request p) 0
                 else if lq_context (pl_request p) = Wait then act_upd (\<lambda>s. s\<lparr>ss_lookups := p # ss_lookups s\<rparr>)
                 else svc_blocking_send w (hipc (lq_process (pl_request p))) (absent_reply (pl_request p))))"

text \<open>\<open>discoverable::available\<close>: ask again for everything that waits.\<close>

definition discover_available :: "world \<Rightarrow> (svc, unit) act" where
  "discover_available w =
     act_bind (act_get (\<lambda>s. sort (remdups (map (\<lambda>p. lq_requested (pl_request p)) (ss_lookups s)))))
      (\<lambda>names. if names \<noteq> [] then act_then (discovery_send w names None) (act_ret ()) else act_ret ())"

section \<open>Subscriptions\<close>

definition subscribe :: "handle \<Rightarrow> bool \<Rightarrow> svc \<Rightarrow> svc" where
  "subscribe h wanted s =
     (if wanted \<and> \<not> (\<exists>x\<in>set (ss_subscribers s). hipc x = hipc h)
      then s\<lparr>ss_subscribers := ss_subscribers s @ [h]\<rparr> else s)"

definition unsubscribe :: "handle \<Rightarrow> svc \<Rightarrow> svc" where
  "unsubscribe h s = s\<lparr>ss_subscribers := filter (\<lambda>x. hipc x \<noteq> hipc h) (ss_subscribers s)\<rparr>"

definition connect_manager :: "world \<Rightarrow> svc_info list \<Rightarrow> svc \<Rightarrow> svc" where
  "connect_manager w infos s =
     fold (\<lambda>info. find_or_add_service (transform_service info no_timeout) (service_add_sequential (hpid (w_self w))))
       infos (find_or_add_sequential (w_self w) s)"

end
