(* ===== verification/SvcConfig.thy ===== *)
theory SvcConfig
  imports SvcHandle
begin

text \<open>
  The configuration of the service manager (\<open>comply::configuration\<close>, \<open>transform::configuration\<close>,
  \<open>service/manager/configuration.cpp\<close>, \<open>configuration/model/change.h\<close>), and the dispatch of its
  messages: one constructor per handler, with what the handler reads of the message.
\<close>

section \<open>Configured services\<close>

definition configured_service :: "conf_service \<Rightarrow> service" where
  "configured_service c =
     transform_service \<lparr>if_name = cs_name c, if_category = [], if_transaction = Tran_automatic\<rparr> (cs_timeout c)"

definition omap_emplace :: "'k::linorder \<Rightarrow> 'v \<Rightarrow> ('k, 'v) omap \<Rightarrow> ('k, 'v) omap" where
  "omap_emplace k v m = (if map_of m k = None then omap_put k v m else m)"

definition add_reverse :: "string \<Rightarrow> string \<Rightarrow> svc \<Rightarrow> svc" where
  "add_reverse route name s = s\<lparr>ss_reverse := omap_emplace route name (ss_reverse s)\<rparr>"

text \<open>A service with routes is known by its routes only.\<close>

definition configure_add :: "conf_service \<Rightarrow> svc \<Rightarrow> svc" where
  "configure_add c s =
     (if cs_routes c = [] then svc_emplace (cs_name c) (configured_service c) s
      else let s1 = fold (\<lambda>route s. add_reverse route (cs_name c) (svc_emplace route (configured_service c) s))
                      (cs_routes c) s
           in s1\<lparr>ss_routes := omap_emplace (cs_name c) (cs_routes c) (ss_routes s1)\<rparr>)"

definition comply_configuration :: "svc_model \<Rightarrow> svc \<Rightarrow> svc" where
  "comply_configuration model s =
     fold configure_add (mo_services model)
       (s\<lparr>ss_timeout := mo_timeout model, ss_restrictions := mo_restrictions model\<rparr>)"

section \<open>The configuration of a state\<close>

text \<open>One service of the state: its timeout goes to the entry with its name.\<close>

definition configured_timeout :: "service \<Rightarrow> conf_service list \<Rightarrow> conf_service list" where
  "configured_timeout v cs =
     (if if_category (sv_info v) = admin_category \<or> to_duration (sv_timeout v) = None then cs
      else if \<exists>c\<in>set cs. cs_name c = if_name (sv_info v)
      then update_first (\<lambda>c. cs_name c = if_name (sv_info v)) (\<lambda>c. c\<lparr>cs_timeout := sv_timeout v\<rparr>) cs
      else cs @ [\<lparr>cs_name = if_name (sv_info v), cs_routes = [], cs_timeout = sv_timeout v\<rparr>])"

definition transform_configuration :: "svc \<Rightarrow> svc_model" where
  "transform_configuration s =
     \<lparr>mo_timeout = ss_timeout s,
      mo_services = fold (\<lambda>(_, v). configured_timeout v) (ss_services s)
        (map (\<lambda>(name, routes). \<lparr>cs_name = name, cs_routes = routes, cs_timeout = no_timeout\<rparr>) (ss_routes s)),
      mo_restrictions = sort_key (\<lambda>r. (rs_alias r, rs_services r)) (ss_restrictions s)\<rparr>"

section \<open>Conforming to a new configuration\<close>

text \<open>\<open>change::calculate\<close>: added, modified, removed.\<close>

definition calculate_change :: "('a \<Rightarrow> 'k) \<Rightarrow> 'a list \<Rightarrow> 'a list \<Rightarrow> 'a list \<times> 'a list \<times> 'a list" where
  "calculate_change key current wanted =
     (let differ = filter (\<lambda>x. x \<notin> set current) wanted;
          known = (\<lambda>x. key x \<in> set (map key current))
      in (filter (\<lambda>x. \<not> known x) differ, filter known differ,
          filter (\<lambda>x. key x \<notin> set (map key wanted)) current))"

definition keys_of_origin :: "string \<Rightarrow> svc \<Rightarrow> string list" where
  "keys_of_origin name s = map fst (filter (\<lambda>(_, v). if_name (sv_info v) = name) (ss_services s))"

text \<open>\<open>Sequential::remove( service, replacement)\<close> and \<open>Instances::remove\<close>.\<close>

definition si_replace :: "string \<Rightarrow> string \<Rightarrow> seq_instance \<Rightarrow> seq_instance" where
  "si_replace key replacement i =
     i\<lparr>si_services := filter (\<lambda>k. k \<noteq> key) (si_services i),
       si_service := (if si_service i = Some key then Some replacement else si_service i)\<rparr>"

definition instances_remove :: "string \<Rightarrow> string \<Rightarrow> svc \<Rightarrow> svc" where
  "instances_remove key replacement s =
     (case find_service key s of
        None \<Rightarrow> s
      | Some v \<Rightarrow> fold (\<lambda>pid. upd_sequential pid (si_replace key replacement)) (sv_sequential v) s)"

text \<open>A route goes: its reservations and metrics move to another service. A freed one cannot take
  them.\<close>

definition remove_route :: "string \<Rightarrow> string \<Rightarrow> (svc, unit) act" where
  "remove_route target route =
     act_bind (act_get (\<lambda>s. (find_service target s, find_service route s)))
      (\<lambda>(t, r). case (t, r) of
         (Some _, Some v) \<Rightarrow>
           act_upd (\<lambda>s.
             let s1 = instances_remove route target (s\<lparr>ss_reverse := omap_erase route (ss_reverse s)\<rparr>);
                 s2 = upd_service target (\<lambda>x. x\<lparr>sv_metric := svc_metric_join (sv_metric x) (sv_metric v)\<rparr>) s1
             in s2\<lparr>ss_services := del_key route (ss_services s2)\<rparr>)
       | _ \<Rightarrow> act_raise Undefined_access)"

definition conform_remove :: "conf_service \<Rightarrow> (svc, unit) act" where
  "conform_remove c =
     act_bind (act_get (keys_of_origin (cs_name c)))
      (\<lambda>keys. act_then
         (act_upd (if cs_name c \<in> set keys then upd_service (cs_name c) (\<lambda>v. v\<lparr>sv_timeout := no_timeout\<rparr>)
                   else svc_emplace (cs_name c) (configured_service (c\<lparr>cs_timeout := no_timeout\<rparr>))))
        (act_then (act_each (remove_route (cs_name c)) (filter (\<lambda>k. k \<noteq> cs_name c) keys))
         (act_upd (\<lambda>s. s\<lparr>ss_routes := omap_erase (cs_name c) (ss_routes s)\<rparr>))))"

text \<open>A new route starts as a copy of a service that is there, instances included.\<close>

definition modify_add_route :: "string \<Rightarrow> string \<Rightarrow> string \<Rightarrow> svc \<Rightarrow> svc" where
  "modify_add_route name existing route s =
     (case find_service existing s of
        None \<Rightarrow> s
      | Some v \<Rightarrow> add_reverse route name
          (upd_service route (\<lambda>x. x\<lparr>sv_metric := svc_metric_zero\<rparr>) (svc_emplace route v s)))"

definition modify_routes :: "string \<Rightarrow> string list \<Rightarrow> svc \<Rightarrow> svc" where
  "modify_routes name add s =
     s\<lparr>ss_routes := (case map_of (ss_routes s) name of
         Some routes \<Rightarrow> omap_put name (routes @ add) (ss_routes s)
       | None \<Rightarrow> omap_emplace name add (ss_routes s))\<rparr>"

definition modify_remove_route :: "string \<Rightarrow> string \<Rightarrow> string \<Rightarrow> (svc, unit) act" where
  "modify_remove_route name existing route =
     act_then (act_upd (\<lambda>s. case map_of (ss_routes s) name of
           None \<Rightarrow> s
         | Some routes \<Rightarrow> s\<lparr>ss_routes := omap_put name (filter (\<lambda>r. r \<noteq> route) routes) (ss_routes s)\<rparr>))
      (remove_route existing route)"

definition conform_modify :: "conf_service \<Rightarrow> (svc, unit) act" where
  "conform_modify c =
     act_bind (act_get (keys_of_origin (cs_name c)))
      (\<lambda>keys.
        let origin = filter (\<lambda>k. k = cs_name c) keys;
            routes = filter (\<lambda>k. k \<noteq> cs_name c) keys;
            add = filter (\<lambda>r. r \<notin> set routes) (cs_routes c);
            remove = filter (\<lambda>r. r \<notin> set (cs_routes c)) routes
        in act_then (act_upd (fold (\<lambda>k. upd_service k (\<lambda>v. v\<lparr>sv_timeout := cs_timeout c\<rparr>)) keys))
            (case (if origin = [] then routes else origin) of
               [] \<Rightarrow> act_raise Terminated
             | existing # _ \<Rightarrow>
                 act_then (act_upd (\<lambda>s. modify_routes (cs_name c) add
                              (fold (modify_add_route (cs_name c) existing) add s)))
                  (act_then (act_each (modify_remove_route (cs_name c) existing) remove) (act_ret ()))))"

definition conform :: "svc_model \<Rightarrow> svc_model \<Rightarrow> (svc, unit) act" where
  "conform current wanted =
     act_then (act_upd (\<lambda>s. s\<lparr>ss_timeout := mo_timeout wanted, ss_restrictions := mo_restrictions wanted\<rparr>))
      (case calculate_change cs_name (mo_services current) (mo_services wanted) of
         (added, modified, removed) \<Rightarrow>
           act_then (act_each conform_remove removed)
            (act_then (act_upd (fold configure_add added))
             (act_then (act_each conform_modify modified) (act_ret ()))))"

definition configuration_update :: "world \<Rightarrow> handle \<Rightarrow> nat \<Rightarrow> svc_model \<Rightarrow> (svc, unit) act" where
  "configuration_update w h corr wanted =
     act_bind (act_get transform_configuration)
      (\<lambda>current. act_then (conform current wanted) (act_upd (eventually_send w h (Config_update_reply corr))))"

definition svc_configuration_request :: "world \<Rightarrow> handle \<Rightarrow> nat \<Rightarrow> svc \<Rightarrow> svc" where
  "svc_configuration_request w h corr s = eventually_send w h (Config_reply corr (transform_configuration s)) s"

section \<open>The messages of the manager\<close>

definition runlevel_num :: "runlevel \<Rightarrow> int" where
  "runlevel_num r = (case r of Running \<Rightarrow> 0 | Shutting_down \<Rightarrow> 1 | Error_level \<Rightarrow> 2)"

definition runlevel_set :: "runlevel \<Rightarrow> svc \<Rightarrow> svc" where
  "runlevel_set r s = (if runlevel_num (ss_runlevel s) < runlevel_num r then s\<lparr>ss_runlevel := r\<rparr> else s)"

definition svc_done :: "svc \<Rightarrow> bool" where
  "svc_done s \<longleftrightarrow> 0 < runlevel_num (ss_runlevel s)"

datatype svc_message =
    Advertise advertise
  | Advertise_concurrent concurrent_advertise
  | Lookup lookup_request
  | Discard handle nat bool
  | Ack nat call_metric
  | Calls "call_metric list"
  | Prepare_shutdown handle nat "handle list"
  | Process_exit int
  | Discover handle nat "string list"
  | Discovered nat
  | Available
  | Subscribe handle bool
  | Unsubscribe handle
  | Configuration_request handle nat
  | Metric_reset "string list"
  | Shutdown_request
  | Alarm
  | Input_empty

definition svc_handle :: "world \<Rightarrow> svc_message \<Rightarrow> (svc, unit) act" where
  "svc_handle w m =
     (case m of
        Advertise a \<Rightarrow> handle_advertise w a
      | Advertise_concurrent a \<Rightarrow> handle_concurrent w a
      | Lookup r \<Rightarrow> svc_lookup w r 0
      | Discard h corr reply \<Rightarrow> discard_lookup w h corr reply
      | Ack corr metric \<Rightarrow> handle_ack w corr metric
      | Calls ms \<Rightarrow> act_upd (handle_metric w ms)
      | Prepare_shutdown h corr hs \<Rightarrow> prepare_shutdown w h corr hs
      | Process_exit pid \<Rightarrow> act_upd (handle_exit w pid)
      | Discover h corr names \<Rightarrow> discover_request w h corr names
      | Discovered corr \<Rightarrow> discover_reply w corr
      | Available \<Rightarrow> discover_available w
      | Subscribe h wanted \<Rightarrow> act_upd (subscribe h wanted)
      | Unsubscribe h \<Rightarrow> act_upd (unsubscribe h)
      | Configuration_request h corr \<Rightarrow> act_upd (svc_configuration_request w h corr)
      | Metric_reset names \<Rightarrow> act_upd (\<lambda>s. snd (metric_reset_request names s))
      | Shutdown_request \<Rightarrow> act_upd (runlevel_set Shutting_down)
      | Alarm \<Rightarrow> handle_timeout w
      | Input_empty \<Rightarrow> act_upd (metric_idle w))"

text \<open>One turn of the message pump; a manager that is done handles nothing more.\<close>

definition svc_step :: "world \<times> svc_message \<Rightarrow> svc \<Rightarrow> svc" where
  "svc_step e s = (if svc_done s then s else snd (svc_handle (fst e) (snd e) s))"

text \<open>The turns that an update of the configuration is one of.\<close>

datatype svc_event = Turn world svc_message | Reconfigure world handle nat svc_model

fun svc_event_step :: "svc_event \<Rightarrow> svc \<Rightarrow> svc" where
  "svc_event_step (Turn w m) s = svc_step (w, m) s"
| "svc_event_step (Reconfigure w h corr wanted) s =
     (if svc_done s then s else snd (configuration_update w h corr wanted s))"

text \<open>The start: an empty state that complies with the fetched configuration, the forward process,
  and the manager's own services.\<close>

definition svc_empty :: svc where
  "svc_empty = \<lparr>ss_runlevel = Running, ss_services = [], ss_sequential = [], ss_concurrent = [],
     ss_deadlines = [], ss_lookups = [], ss_shutdown = [], ss_subscribers = [], ss_metrics = [],
     ss_forward = null_handle, ss_timeout = no_timeout, ss_routes = [], ss_reverse = [],
     ss_restrictions = [], ss_outbox = []\<rparr>"

definition svc_start :: "world \<Rightarrow> svc_model \<Rightarrow> handle \<Rightarrow> svc_info list \<Rightarrow> svc" where
  "svc_start w model forward own =
     connect_manager w own ((comply_configuration model svc_empty)\<lparr>ss_forward := forward\<rparr>)"

end
