(* ===== verification/SvcViews.thy ===== *)
theory SvcViews
  imports SvcConfig
begin

text \<open>
  Views of the service manager's state: which instances a service has, which services an
  instance exposes, the reservations; and what the operations on services and instances do to
  each view. The invariant and the properties are stated over the views.
\<close>

section \<open>Views\<close>

definition members :: "svc \<Rightarrow> string \<Rightarrow> int list" where
  "members s key = (case map_of (ss_services s) key of None \<Rightarrow> [] | Some v \<Rightarrow> sv_sequential v)"

definition remotes :: "svc \<Rightarrow> string \<Rightarrow> int list" where
  "remotes s key = (case map_of (ss_services s) key of None \<Rightarrow> [] | Some v \<Rightarrow> map fst (sv_concurrent v))"

definition exposed :: "svc \<Rightarrow> int \<Rightarrow> string list" where
  "exposed s pid = (case map_of (ss_sequential s) pid of None \<Rightarrow> [] | Some i \<Rightarrow> si_services i)"

definition known :: "svc \<Rightarrow> string set" where
  "known s = set (map fst (ss_services s))"

definition seq_view :: "svc \<Rightarrow> (int \<times> handle \<times> string option \<times> caller) list" where
  "seq_view s = map (\<lambda>(pid, i). (pid, si_process i, si_service i, si_caller i)) (ss_sequential s)"

lemmas view_defs = members_def remotes_def exposed_def known_def seq_view_def

section \<open>Updates by key\<close>

lemma map_fst_upd_key [simp]: "map fst (upd_key k f m) = map fst m"
  unfolding upd_key_def by (rule map_update_first) simp

lemma upd_key_nil [simp]: "upd_key k f [] = []"
  by (simp add: upd_key_def)

lemma map_of_upd_key [simp]: "map_of (upd_key k f m) x = (if x = k then map_option f (map_of m x) else map_of m x)"
  by (induction m) (auto simp: upd_key_def)

lemma map_of_del_key: "distinct (map fst m) \<Longrightarrow> map_of (del_key k m) x = (if x = k then None else map_of m x)"
proof (induction m)
  case (Cons e m)
  then show ?case
    by (cases "fst e = k") (auto simp: del_key_def map_of_eq_None_iff [THEN iffD2])
qed (simp add: del_key_def)

lemma distinct_del_key [simp]: "distinct (map fst m) \<Longrightarrow> distinct (map fst (del_key k m))"
  unfolding del_key_def by (rule distinct_remove_first)

lemma set_del_key: "set (del_key k m) \<subseteq> set m"
  unfolding del_key_def by (rule set_remove_first)

lemma keys_del_key: "distinct (map fst m) \<Longrightarrow> fst ` set (del_key k m) = fst ` set m - {k}"
  by (induction m) (auto simp: del_key_def, force+)

lemma map_upd_key_snd: "(\<And>x. g (k, f x) = g (k, x)) \<Longrightarrow> map g (upd_key k f m) = map g m"
  unfolding upd_key_def by (rule map_update_first) auto

lemma set_upd_key: "e \<in> set (upd_key k f m) \<Longrightarrow> e \<in> set m \<or> (\<exists>x. (k, x) \<in> set m \<and> e = (k, f x))"
  by (induction m) (auto simp: upd_key_def split: if_splits)

lemma list_all_upd_key: "list_all Q m \<Longrightarrow> (\<And>x. Q (k, x) \<Longrightarrow> Q (k, f x)) \<Longrightarrow> list_all Q (upd_key k f m)"
  unfolding upd_key_def by (rule list_all_update_first) auto

lemma map_of_key: "(map_of m k = None) = (k \<notin> set (map fst m))"
  by (simp add: map_of_eq_None_iff)

section \<open>What the views do not look at\<close>

text \<open>A view reads the services or the instances only.\<close>

lemma services_views:
  "ss_services s' = ss_services s \<Longrightarrow> members s' = members s \<and> remotes s' = remotes s \<and> known s' = known s
     \<and> find_service k s' = find_service k s \<and> origin_of s' = origin_of s"
  by (simp add: view_defs find_service_def origin_of_def fun_eq_iff)

lemma sequential_views:
  "ss_sequential s' = ss_sequential s \<Longrightarrow> exposed s' = exposed s \<and> seq_view s' = seq_view s"
  by (simp add: view_defs fun_eq_iff)

text \<open>The fields that operations on services and instances leave alone.\<close>

definition same_rest :: "svc \<Rightarrow> svc \<Rightarrow> bool" where
  "same_rest s s' \<longleftrightarrow> s' = s\<lparr>ss_services := ss_services s', ss_sequential := ss_sequential s'\<rparr>"

lemma same_rest_refl [simp]: "same_rest s s"
  by (simp add: same_rest_def)

lemma same_rest_fields:
  "same_rest s s' \<Longrightarrow> ss_runlevel s' = ss_runlevel s \<and> ss_concurrent s' = ss_concurrent s
     \<and> ss_deadlines s' = ss_deadlines s \<and> ss_lookups s' = ss_lookups s \<and> ss_shutdown s' = ss_shutdown s
     \<and> ss_subscribers s' = ss_subscribers s \<and> ss_metrics s' = ss_metrics s \<and> ss_forward s' = ss_forward s
     \<and> ss_timeout s' = ss_timeout s \<and> ss_routes s' = ss_routes s \<and> ss_reverse s' = ss_reverse s
     \<and> ss_restrictions s' = ss_restrictions s \<and> ss_outbox s' = ss_outbox s"
  by (cases s; cases s') (simp add: same_rest_def)

lemma same_rest_trans: "same_rest s s' \<Longrightarrow> same_rest s' s'' \<Longrightarrow> same_rest s s''"
  by (cases s; cases s'; cases s'') (simp add: same_rest_def)

lemma same_rest_upd [simp]:
  "same_rest s (upd_service k f s)" "same_rest s (upd_sequential p g s)" "same_rest s (svc_emplace k v s)"
  by (simp_all add: same_rest_def upd_service_def upd_sequential_def svc_emplace_def)

lemma same_rest_step:
  "same_rest s s' \<Longrightarrow> same_rest s (upd_service k f s')" "same_rest s s' \<Longrightarrow> same_rest s (upd_sequential p g s')"
  by (auto intro: same_rest_trans)

lemma same_rest_fold: "(\<And>x s. same_rest s (f x s)) \<Longrightarrow> same_rest s (fold f xs s)"
  by (induction xs arbitrary: s) (auto intro: same_rest_trans)

section \<open>A service or an instance is updated\<close>

lemma find_upd_service [simp]:
  "find_service x (upd_service k f s) = (if x = k then map_option f (find_service x s) else find_service x s)"
  by (simp add: find_service_def upd_service_def)

lemma upd_service_views [simp]:
  "exposed (upd_service k f s) = exposed s" "seq_view (upd_service k f s) = seq_view s"
  "known (upd_service k f s) = known s" "map fst (ss_services (upd_service k f s)) = map fst (ss_services s)"
  "ss_sequential (upd_service k f s) = ss_sequential s"
  by (simp_all add: view_defs upd_service_def fun_eq_iff)

lemma upd_sequential_views [simp]:
  "members (upd_sequential p g s) = members s" "remotes (upd_sequential p g s) = remotes s"
  "known (upd_sequential p g s) = known s" "find_service k (upd_sequential p g s) = find_service k s"
  "origin_of (upd_sequential p g s) = origin_of s" "ss_services (upd_sequential p g s) = ss_services s"
  "map fst (ss_sequential (upd_sequential p g s)) = map fst (ss_sequential s)"
  by (simp_all add: view_defs upd_sequential_def find_service_def origin_of_def fun_eq_iff)

lemma members_upd_service:
  "members (upd_service k f s) x = (if x = k then (case find_service x s of None \<Rightarrow> [] | Some v \<Rightarrow> sv_sequential (f v))
     else members s x)"
  by (simp add: members_def upd_service_def find_service_def split: option.split)

lemma remotes_upd_service:
  "remotes (upd_service k f s) x = (if x = k then (case find_service x s of None \<Rightarrow> [] | Some v \<Rightarrow> map fst (sv_concurrent (f v)))
     else remotes s x)"
  by (simp add: remotes_def upd_service_def find_service_def split: option.split)

lemma members_upd_same [simp]: "(\<And>v. sv_sequential (f v) = sv_sequential v) \<Longrightarrow> members (upd_service k f s) = members s"
  by (auto simp: fun_eq_iff members_upd_service) (simp add: members_def find_service_def split: option.split)

lemma remotes_upd_same [simp]: "(\<And>v. sv_concurrent (f v) = sv_concurrent v) \<Longrightarrow> remotes (upd_service k f s) = remotes s"
  by (auto simp: fun_eq_iff remotes_upd_service) (simp add: remotes_def find_service_def split: option.split)

lemma origin_upd_same [simp]:
  "(\<And>v. if_name (sv_info (f v)) = if_name (sv_info v)) \<Longrightarrow> origin_of (upd_service k f s) = origin_of s"
  by (simp add: fun_eq_iff origin_of_def option.map_comp comp_def)

lemma exposed_upd_sequential:
  "exposed (upd_sequential p g s) x = (if x = p then (case map_of (ss_sequential s) x of None \<Rightarrow> [] | Some i \<Rightarrow> si_services (g i))
     else exposed s x)"
  by (simp add: exposed_def upd_sequential_def split: option.split)

lemma exposed_upd_same [simp]: "(\<And>i. si_services (g i) = si_services i) \<Longrightarrow> exposed (upd_sequential p g s) = exposed s"
  by (auto simp: fun_eq_iff exposed_upd_sequential) (simp add: exposed_def split: option.split)

lemma seq_view_upd_services [simp]:
  "seq_view (upd_sequential p (\<lambda>i. i\<lparr>si_services := f i\<rparr>) s) = seq_view s"
  unfolding seq_view_def upd_sequential_def by (simp add: map_upd_key_snd)

lemma map_fst_seq_view [simp]: "map fst (seq_view s) = map fst (ss_sequential s)"
  by (simp add: seq_view_def comp_def case_prod_unfold)

lemma known_emplace [simp]: "known (svc_emplace k v s) = insert k (known s)"
proof (cases "find_service k s")
  case (Some v)
  then have "k \<in> known s" by (force simp: find_service_def known_def dest: map_of_SomeD)
  then show ?thesis using Some by (auto simp: svc_emplace_def)
qed (simp add: known_def svc_emplace_def)

lemma find_emplace [simp]:
  "find_service x (svc_emplace k v s) = (if x = k \<and> find_service k s = None then Some v else find_service x s)"
  by (auto simp: svc_emplace_def find_service_def map_add_def split: option.split)

lemma svc_emplace_views [simp]:
  "exposed (svc_emplace k v s) = exposed s" "seq_view (svc_emplace k v s) = seq_view s"
  "ss_sequential (svc_emplace k v s) = ss_sequential s"
  by (simp_all add: view_defs svc_emplace_def fun_eq_iff)

lemma members_emplace: "sv_sequential v = [] \<Longrightarrow> members (svc_emplace k v s) = members s"
  by (auto simp: members_def svc_emplace_def find_service_def map_add_def fun_eq_iff split: option.split)

lemma remotes_emplace: "sv_concurrent v = [] \<Longrightarrow> remotes (svc_emplace k v s) = remotes s"
  by (auto simp: remotes_def svc_emplace_def find_service_def map_add_def fun_eq_iff split: option.split)

lemma distinct_emplace [simp]:
  "distinct (map fst (ss_services s)) \<Longrightarrow> distinct (map fst (ss_services (svc_emplace k v s)))"
  by (auto simp: svc_emplace_def find_service_def map_of_key)

lemma find_service_known: "(find_service k s = None) = (k \<notin> known s)"
  by (simp add: find_service_def known_def map_of_key)

lemma members_find: "find_service k s = Some v \<Longrightarrow> members s k = sv_sequential v"
  by (simp add: members_def find_service_def)

lemma remotes_find: "find_service k s = Some v \<Longrightarrow> remotes s k = map fst (sv_concurrent v)"
  by (simp add: remotes_def find_service_def)

lemma members_unknown: "find_service k s = None \<Longrightarrow> members s k = []"
  by (simp add: members_def find_service_def)

lemma remotes_unknown: "find_service k s = None \<Longrightarrow> remotes s k = []"
  by (simp add: remotes_def find_service_def)

section \<open>An instance leaves or joins a service\<close>

lemma service_remove_rest [simp]: "same_rest s (service_remove pid key s)"
  by (simp add: service_remove_def Let_def same_rest_step split: option.split)

lemma service_remove_views [simp]:
  "seq_view (service_remove pid key s) = seq_view s" "known (service_remove pid key s) = known s"
  "map fst (ss_services (service_remove pid key s)) = map fst (ss_services s)"
  "map fst (ss_sequential (service_remove pid key s)) = map fst (ss_sequential s)"
  "origin_of (service_remove pid key s) = origin_of s"
  by (simp_all add: service_remove_def Let_def split: option.split)

lemma map_fst_remove_first: "map fst (remove_first (\<lambda>c. fst c = x) cs) = remove1 x (map fst cs)"
  by (induction cs) auto

lemma members_service_remove:
  "members (service_remove pid key s) k = (if k = key then remove1 pid (members s k) else members s k)"
proof (cases "find_service key s")
  case None
  then show ?thesis by (auto simp: service_remove_def members_unknown)
next
  case (Some v)
  then show ?thesis
    by (auto simp: service_remove_def Let_def members_upd_service members_find remove1_idem)
qed

lemma remotes_service_remove:
  "set (remotes (service_remove pid key s) k) = (if k = key then set (remove1 pid (remotes s k)) else set (remotes s k))
   \<and> (distinct (remotes s k) \<longrightarrow> distinct (remotes (service_remove pid key s) k))"
proof (cases "find_service key s")
  case None
  then show ?thesis by (auto simp: service_remove_def remotes_unknown)
next
  case (Some v)
  have st: "set (map fst (sort_concurrent s cs)) = set (map fst cs)" "distinct (map fst (sort_concurrent s cs)) = distinct (map fst cs)"
    for cs by (simp_all add: sort_concurrent_def distinct_map)
  show ?thesis
  proof (cases "pid \<in> set (remotes s key)")
    case True
    then have "remotes (service_remove pid key s) k = (if k = key then map fst (sort_concurrent s (remove_first (\<lambda>c. fst c = pid) (sv_concurrent v)))
        else remotes s k)"
      using Some by (auto simp: service_remove_def Let_def remotes_upd_service remotes_find [OF Some])
    then show ?thesis using Some
      by (auto simp only: st map_fst_remove_first remotes_find [OF Some] distinct_remove1 split: if_splits)
  next
    case False
    then have "remotes (service_remove pid key s) = remotes s"
      using Some by (auto simp: service_remove_def Let_def remotes_upd_service remotes_find [OF Some])
    then show ?thesis using False by (simp add: remove1_idem)
  qed
qed

lemma exposed_service_remove:
  "exposed (service_remove pid key s) p =
     (if p = pid \<and> pid \<in> set (members s key)
      then remove_first (\<lambda>k. origin_of s k = origin_of s key) (exposed s p) else exposed s p)"
proof (cases "find_service key s")
  case None
  then show ?thesis by (simp add: service_remove_def members_unknown)
next
  case (Some v)
  then have "origin_of s key = Some (if_name (sv_info v))" by (simp add: origin_of_def)
  then show ?thesis using Some
    by (auto simp: service_remove_def Let_def exposed_upd_sequential members_find)
      (auto simp: exposed_def split: option.split)
qed

lemma service_add_rest [simp]:
  "same_rest s (service_add_sequential pid key s)" "same_rest s (service_add_concurrent pid prop key s)"
  by (simp_all add: service_add_sequential_def service_add_concurrent_def same_rest_step split: option.split)

lemma service_add_sequential_views [simp]:
  "seq_view (service_add_sequential pid key s) = seq_view s" "known (service_add_sequential pid key s) = known s"
  "map fst (ss_services (service_add_sequential pid key s)) = map fst (ss_services s)"
  "map fst (ss_sequential (service_add_sequential pid key s)) = map fst (ss_sequential s)"
  "remotes (service_add_sequential pid key s) = remotes s"
  "origin_of (service_add_sequential pid key s) = origin_of s"
  by (simp_all add: service_add_sequential_def split: option.split)

lemma members_service_add:
  "members (service_add_sequential pid key s) k =
     (if k = key \<and> key \<in> known s \<and> pid \<notin> set (members s key) then members s k @ [pid] else members s k)"
proof (cases "find_service key s")
  case None
  then show ?thesis using find_service_known [of key s] by (auto simp: service_add_sequential_def)
next
  case (Some v)
  then show ?thesis using find_service_known [of key s]
    by (auto simp: service_add_sequential_def members_upd_service members_find)
qed

lemma exposed_service_add:
  "exposed (service_add_sequential pid key s) p =
     (if p = pid \<and> pid \<in> set (map fst (ss_sequential s)) \<and> key \<in> known s \<and> pid \<notin> set (members s key)
      then exposed s p @ [key] else exposed s p)"
proof (cases "find_service key s")
  case None
  then show ?thesis using find_service_known [of key s] by (auto simp: service_add_sequential_def)
next
  case (Some v)
  have "pid \<in> set (map fst (ss_sequential s)) \<longleftrightarrow> map_of (ss_sequential s) pid \<noteq> None" by (simp only: map_of_key not_not)
  then show ?thesis using Some find_service_known [of key s]
    by (auto simp: service_add_sequential_def exposed_upd_sequential members_find simp del: set_map split: option.split)
      (auto simp: exposed_def)
qed

lemma service_add_concurrent_views [simp]:
  "seq_view (service_add_concurrent pid prop key s) = seq_view s" "known (service_add_concurrent pid prop key s) = known s"
  "map fst (ss_services (service_add_concurrent pid prop key s)) = map fst (ss_services s)"
  "ss_sequential (service_add_concurrent pid prop key s) = ss_sequential s"
  "members (service_add_concurrent pid prop key s) = members s"
  "exposed (service_add_concurrent pid prop key s) = exposed s"
  "origin_of (service_add_concurrent pid prop key s) = origin_of s"
  by (simp_all add: service_add_concurrent_def split: option.split)

lemma remotes_service_add:
  "set (remotes (service_add_concurrent pid prop key s) k) \<subseteq> insert pid (set (remotes s k))
   \<and> (distinct (remotes s k) \<longrightarrow> distinct (remotes (service_add_concurrent pid prop key s) k))"
proof (cases "find_service key s")
  case None
  then show ?thesis by (auto simp: service_add_concurrent_def)
next
  case (Some v)
  then show ?thesis
    by (auto simp: service_add_concurrent_def remotes_upd_service sort_concurrent_def distinct_map remotes_find) force
qed

end
