(* ===== verification/SvcKeeps.thy ===== *)
theory SvcKeeps
  imports SvcViews
begin

text \<open>
  The interface between the handlers of the service manager and an invariant of its state: the
  primitive changes that the handlers are made of, as the assumptions of a locale. Every
  handler keeps every predicate that the primitive changes keep.
\<close>

lemma keeps_state: "(\<And>s. P s \<Longrightarrow> P (snd (f s))) \<Longrightarrow> act_keeps P (act_state f)"
  by (simp add: act_keeps_def act_state_def case_prod_unfold)

lemma spec_state: "(\<And>s. P s \<Longrightarrow> Q (fst (f s)) (snd (f s))) \<Longrightarrow> act_spec P (act_state f) Q E"
  by (simp add: act_spec_def act_state_def case_prod_unfold)

lemma fold_keeps: "P s \<Longrightarrow> (\<And>x s. x \<in> set xs \<Longrightarrow> P s \<Longrightarrow> P (f x s)) \<Longrightarrow> P (fold f xs s)"
  by (induction xs arbitrary: s) auto

section \<open>What a change of the known services may do\<close>

text \<open>No operation of the handlers forgets a service.\<close>

lemma known_fold: "(\<And>x s. known s \<subseteq> known (f x s)) \<Longrightarrow> known s \<subseteq> known (fold f xs s)"
proof (induction xs arbitrary: s)
  case (Cons x xs)
  then show ?case using subset_trans [OF Cons.prems [of s x] Cons.IH [of "f x s"]] by simp
qed simp

lemma known_add_one:
  assumes "\<And>k s. known s \<subseteq> known (add k s)"
  shows "known s \<subseteq> known (add_one_service v add key s)"
proof (cases "find_service key s")
  case None
  then show ?thesis using assms [of "svc_emplace key v s" key] by (simp add: add_one_service_def)
next
  case (Some x)
  let ?u = "upd_service key (\<lambda>x. x\<lparr>sv_info := (sv_info x)\<lparr>if_category := if_category (sv_info v),
      if_transaction := if_transaction (sv_info v)\<rparr>\<rparr>) s"
  have "known s \<subseteq> known (add key ?u)" using assms [of ?u key] by simp
  then show ?thesis using Some by (simp add: add_one_service_def)
qed

lemma known_find_or_add:
  assumes "\<And>k s. known s \<subseteq> known (add k s)"
  shows "known s \<subseteq> known (find_or_add_service v add s)"
proof -
  have "known s \<subseteq> known (add_one_service v add key s)" for key s using assms by (rule known_add_one)
  then show ?thesis
    using known_fold [of "add_one_service v add"] by (simp add: find_or_add_service_def split: option.split)
qed

lemma known_fields [simp]:
  "known (s\<lparr>ss_sequential := x1\<rparr>) = known s" "known (s\<lparr>ss_concurrent := x2\<rparr>) = known s"
  "known (s\<lparr>ss_deadlines := x3\<rparr>) = known s" "known (s\<lparr>ss_lookups := x4\<rparr>) = known s"
  "known (s\<lparr>ss_shutdown := x5\<rparr>) = known s" "known (s\<lparr>ss_subscribers := x6\<rparr>) = known s"
  "known (s\<lparr>ss_metrics := x7\<rparr>) = known s" "known (s\<lparr>ss_outbox := x8\<rparr>) = known s"
  "known (s\<lparr>ss_runlevel := x9\<rparr>) = known s"
  "known (s\<lparr>ss_forward := x10\<rparr>) = known s"
  by (simp_all add: known_def)

lemma known_remove [simp]:
  "known (remove_sequential pid s) = known s" "known (remove_concurrent pid s) = known s"
  "known (svc_remove pid s) = known s"
proof -
  have f: "known (fold (service_remove p) ks s) = known s" for p ks s by (induction ks arbitrary: s) auto
  show a: "known (remove_sequential pid s) = known s" for pid s by (simp add: remove_sequential_def Let_def f)
  show b: "known (remove_concurrent pid s) = known s" for pid s by (simp add: remove_concurrent_def Let_def f)
  show "known (svc_remove pid s) = known s" by (simp add: svc_remove_def a b)
qed

lemma known_find_or_add_instance [simp]:
  "known (find_or_add_sequential h s) = known s" "known (find_or_add_concurrent h n s) = known s"
  by (simp_all add: find_or_add_sequential_def find_or_add_concurrent_def)

lemma known_remove_services [simp]: "known (remove_services pid names s) = known s"
proof -
  have "known (fold (\<lambda>key s. if (case origin_of s key of None \<Rightarrow> False | Some n \<Rightarrow> n \<in> set names)
      then service_remove pid key s else s) ks s) = known s" for ks
    by (induction ks arbitrary: s) auto
  then show ?thesis by (simp add: remove_services_def)
qed

lemma known_update_advertise: "known s \<subseteq> known (snd (update_advertise w m s))"
proof -
  have "known s \<subseteq> known (fold (\<lambda>info s. find_or_add_service (transform_service info (ss_timeout s))
      (service_add_sequential pid) s) xs s)" for pid xs s
    by (rule known_fold, rule known_find_or_add) simp
  from this [of "find_or_add_sequential (ad_process m) s"]
  show ?thesis by (simp add: update_advertise_def Let_def split: option.split)
qed

lemma known_update_concurrent: "known s \<subseteq> known (snd (update_concurrent w m s))"
proof -
  have "known s \<subseteq> known (fold (\<lambda>(info, d, prop) s. find_or_add_service (transform_service info (concurrent_timeout d))
      (service_add_concurrent pid prop) s) xs s)" for pid xs s
    by (rule known_fold) (simp add: case_prod_unfold known_find_or_add)
  from this [of "find_or_add_concurrent (cd_process m) (cd_order m) s"]
    this [of "find_or_add_concurrent (cd_process m) (cd_order m) (svc_remove (hpid (cd_process m)) s)"]
  show ?thesis by (simp add: update_concurrent_def Let_def)
qed

text \<open>The state that \<open>detach\<close> leaves, without the names it collects.\<close>

lemma seq_detach_state:
  "snd (seq_detach pid s) = (case map_of (ss_sequential s) pid of None \<Rightarrow> s
     | Some i \<Rightarrow> fold (service_remove pid) (si_services i) (upd_sequential pid (\<lambda>i. i\<lparr>si_services := []\<rparr>) s))"
proof -
  have "snd (fold (\<lambda>key (names, s). let s1 = service_remove pid key s
       in case find_service key s1 of None \<Rightarrow> (names, s1)
          | Some v \<Rightarrow> (if sv_empty v then names @ [if_name (sv_info v)] else names, s1)) ks ns)
     = fold (service_remove pid) ks (snd ns)" for ks ns
    by (induction ks arbitrary: ns) (auto simp: Let_def case_prod_unfold split: option.split)
  then show ?thesis by (simp add: seq_detach_def split: option.split)
qed

lemma fold_remove_views [simp]:
  "known (fold (service_remove pid) ks s) = known s" "seq_view (fold (service_remove pid) ks s) = seq_view s"
  "map fst (ss_services (fold (service_remove pid) ks s)) = map fst (ss_services s)"
  "map fst (ss_sequential (fold (service_remove pid) ks s)) = map fst (ss_sequential s)"
  by (induction ks arbitrary: s) simp_all

lemma fold_remove_rest [simp]: "same_rest s (fold (service_remove pid) ks s)"
  by (rule same_rest_fold) simp

lemma seq_detach_views [simp]:
  "known (snd (seq_detach pid s)) = known s" "seq_view (snd (seq_detach pid s)) = seq_view s"
  "map fst (ss_services (snd (seq_detach pid s))) = map fst (ss_services s)"
  "map fst (ss_sequential (snd (seq_detach pid s))) = map fst (ss_sequential s)"
  "same_rest s (snd (seq_detach pid s))"
  by (simp_all add: seq_detach_state same_rest_trans [OF same_rest_upd(2) fold_remove_rest] split: option.split)

lemma seq_detach_found: "(map_of (ss_sequential (snd (seq_detach pid s))) pid = None) = (map_of (ss_sequential s) pid = None)"
  by (simp only: map_of_key seq_detach_views)

definition detached :: "int \<Rightarrow> svc \<Rightarrow> svc" where
  "detached pid s = (let s1 = snd (seq_detach pid s) in s1\<lparr>ss_sequential := del_key pid (ss_sequential s1)\<rparr>)"

lemma prepare_Cons:
  "snd (prepare_processes (h # hs) s) = snd (prepare_processes hs
     (if map_of (ss_sequential s) (hpid h) = None then remove_concurrent (hpid h) s else detached (hpid h) s))"
  using seq_detach_found [of "hpid h" s]
  by (simp add: detached_def Let_def case_prod_unfold split: option.split)

lemma prepare_keeps:
  assumes "Q s" and "\<And>s pid. Q s \<Longrightarrow> map_of (ss_sequential s) pid \<noteq> None \<Longrightarrow> Q (detached pid s)"
    and "\<And>s pid. Q s \<Longrightarrow> map_of (ss_sequential s) pid = None \<Longrightarrow> Q (remove_concurrent pid s)"
  shows "Q (snd (prepare_processes hs s))"
  using assms(1) by (induction hs arbitrary: s) (simp_all add: prepare_Cons assms(2,3) del: prepare_processes.simps(2))

lemma known_prepare [simp]: "known (snd (prepare_processes hs s)) = known s"
  by (rule prepare_keeps [where Q = "\<lambda>s'. known s' = known s"]) (simp_all add: detached_def Let_def)

section \<open>Deadlines\<close>

lemma set_deadline_insert [simp]: "set (deadline_insert e ds) = insert e (set ds)"
  by (induction ds) auto

lemma sorted_deadline_insert: "sorted (map dl_when ds) \<Longrightarrow> sorted (map dl_when (deadline_insert e ds))"
  by (induction ds) auto

section \<open>The interface\<close>

text \<open>\<open>guard\<close> is the set of services that a reservation or a deadline may refer to.\<close>

definition instance_change :: "string set \<Rightarrow> (seq_instance \<Rightarrow> seq_instance) \<Rightarrow> bool" where
  "instance_change K g \<longleftrightarrow> (\<forall>i. si_process (g i) = si_process i \<and> si_services (g i) = si_services i
     \<and> (si_service (g i) = None \<longrightarrow> si_caller (g i) = no_caller)
     \<and> (si_service (g i) = si_service i \<or> si_service (g i) = None \<or> (\<exists>k\<in>K. si_service (g i) = Some k)))"

definition callback_in :: "string set \<Rightarrow> seq_instance list \<Rightarrow> bool" where
  "callback_in K is \<longleftrightarrow> (\<forall>i\<in>set is. \<forall>k. si_service i = Some k \<longrightarrow> k \<in> K)"

locale svc_kept =
  fixes P :: "svc \<Rightarrow> bool" and guard :: "svc \<Rightarrow> string set"
  assumes guard_known: "known s \<subseteq> guard s"
    and guard_mono: "known s \<subseteq> known s' \<Longrightarrow> guard s \<subseteq> guard s'"
    and outbox: "P s \<Longrightarrow> P (s\<lparr>ss_outbox := x\<rparr>)"
    and lookups: "P s \<Longrightarrow> P (s\<lparr>ss_lookups := y\<rparr>)"
    and runlevel: "P s \<Longrightarrow> P (s\<lparr>ss_runlevel := r\<rparr>)"
    and metrics: "P s \<Longrightarrow> length ms < svc_batch \<Longrightarrow> P (s\<lparr>ss_metrics := ms\<rparr>)"
    and subscribers: "P s \<Longrightarrow> (distinct (map hipc (ss_subscribers s)) \<Longrightarrow> distinct (map hipc hs)) \<Longrightarrow>
          P (s\<lparr>ss_subscribers := hs\<rparr>)"
    and deadlines: "P s \<Longrightarrow> (sorted (map dl_when (ss_deadlines s)) \<Longrightarrow> sorted (map dl_when ds)) \<Longrightarrow>
          dl_service ` set ds \<subseteq> dl_service ` set (ss_deadlines s) \<union> guard s \<Longrightarrow> P (s\<lparr>ss_deadlines := ds\<rparr>)"
    and shutdown: "P s \<Longrightarrow> (\<forall>e\<in>set es. fe_callback e \<in> fe_callback ` set (ss_shutdown s)
          \<or> callback_in (guard s) (sd_instances (fe_callback e))) \<Longrightarrow> P (s\<lparr>ss_shutdown := es\<rparr>)"
    and instance_upd: "P s \<Longrightarrow> instance_change (guard s) g \<Longrightarrow> P (upd_sequential pid g s)"
    and service_metric: "P s \<Longrightarrow> P (upd_service key (\<lambda>v. v\<lparr>sv_metric := f v\<rparr>) s)"
    and advertised: "P s \<Longrightarrow> P (snd (update_advertise w m s))"
    and advertised_concurrent: "P s \<Longrightarrow> P (snd (update_concurrent w n s))"
    and removed: "P s \<Longrightarrow> P (svc_remove pid s)"
    and prepared: "P s \<Longrightarrow> P (snd (prepare_processes ps s))"
    and prepared_callback: "P s \<Longrightarrow> prepare_processes ps s = ((names, is, us), s') \<Longrightarrow> callback_in (guard s') is"
begin

lemma post: "P s \<Longrightarrow> P (svc_post d m s)"
  by (simp add: svc_post_def outbox)

lemma eventually: "P s \<Longrightarrow> P (eventually_send w h m s)"
  by (simp add: eventually_send_def post)

lemma error_replied: "P s \<Longrightarrow> P (error_reply w c code s)"
  by (simp add: error_reply_def eventually)

lemma keeps_sends [keeps_intros]:
  "act_keeps P (svc_optional_send w ipc m)" "act_keeps P (svc_blocking_send w ipc m)"
  "act_keeps P (discovery_send w names corr)" "act_keeps P (act_upd (svc_post d m))"
  "act_keeps P (act_upd (eventually_send w h m))" "act_keeps P (act_upd (error_reply w c code))"
  unfolding svc_optional_send_def svc_blocking_send_def discovery_send_def
  by (intro keeps_intros keeps_upd; simp add: post eventually error_replied)+

subsection \<open>Lookup\<close>

lemma keeps_push [keeps_intros]: "act_keeps P (act_upd (push_pending m now))"
  by (rule keeps_upd) (simp add: push_pending_def lookups)

lemma keeps_discover [keeps_intros]: "act_keeps P (discover w m name)"
  unfolding discover_def by (intro keeps_intros)

lemma reserved:
  assumes "P s"
  shows "P (snd (service_reserve key h c s))"
proof (cases "find_service key s")
  case None
  then show ?thesis using assms by (simp add: service_reserve_def)
next
  case (Some v)
  then have "key \<in> guard s" using guard_known [of s] find_service_known [of key s] by auto
  then have "instance_change (guard s) (si_reserve key h c)"
    by (auto simp: instance_change_def si_reserve_def)
  then have "P (upd_sequential pid (si_reserve key h c) s)" for pid using assms by (rule instance_upd [rotated])
  then show ?thesis using assms Some by (auto simp: service_reserve_def service_metric split: option.split)
qed

lemma reserve_known: "known (snd (service_reserve key h c s)) = known s"
  by (auto simp: service_reserve_def split: option.split)

lemma deadline_added:
  "P s \<Longrightarrow> dl_service e \<in> guard s \<Longrightarrow>
     P (s\<lparr>ss_deadlines := deadline_insert e (ss_deadlines s)\<rparr>)"
  by (rule deadlines) (auto simp: sorted_deadline_insert)

lemma weaker: "act_keeps P f \<Longrightarrow> act_spec (\<lambda>s. P s \<and> R s) f (\<lambda>_. P) P"
  by (auto simp: act_keeps_spec intro: act_spec_weaken)

lemma spec_add_deadline: "act_spec (\<lambda>s. P s \<and> lq_requested m \<in> guard s) (add_deadline w m d h) (\<lambda>_. P) P"
  unfolding add_deadline_def
proof (rule act_spec_bind [where R = "\<lambda>_. P"], rule spec_state)
  show "act_spec P (case next_due of None \<Rightarrow> act_ret () | Some t \<Rightarrow> act_upd (svc_post Self (Set_timer t))) (\<lambda>_. P) P"
    for next_due unfolding act_keeps_spec [symmetric] by (intro keeps_intros)
qed (auto simp: deadline_add_def intro!: deadline_added)

lemma spec_reply_reserved:
  "act_spec (\<lambda>s. P s \<and> lq_requested m \<in> guard s) (reply_reserved w m pending v h) (\<lambda>_. P) P"
  unfolding reply_reserved_def Let_def
proof (rule act_spec_bind [where R = "\<lambda>_. P"])
  show "act_spec P (act_then (svc_optional_send w (hipc (lq_process m)) (idle_reply m v h pending timeout)) (act_ret ()))
      (\<lambda>_. P) P" for timeout
    unfolding act_keeps_spec [symmetric] by (intro keeps_intros)
qed (intro act_spec_if act_spec_then [OF spec_add_deadline] act_spec_ret; simp)

lemma keeps_busy_lookup [keeps_intros]: "act_keeps P (busy_lookup w m v)"
  unfolding busy_lookup_def by (cases "lq_context m"; simp; intro keeps_intros)

lemma keeps_svc_lookup [keeps_intros]: "act_keeps P (svc_lookup w m pending)"
  unfolding act_keeps_spec svc_lookup_def
proof (rule act_spec_get_bind)
  fix found
  show "act_spec (\<lambda>s. P s \<and> find_service (lq_requested m) s = found)
     (case found of None \<Rightarrow> discover w m (lq_requested m)
      | Some v \<Rightarrow> act_bind (act_state (service_reserve (lq_requested m) (lq_process m) (lq_corr m)))
          (use_reservation w m pending v)) (\<lambda>_. P) P"
  proof (cases found)
    case None
    then show ?thesis using weaker [OF keeps_discover] by simp
  next
    case (Some v)
    have "act_spec (\<lambda>s. P s \<and> lq_requested m \<in> guard s) (use_reservation w m pending v h) (\<lambda>_. P) P" for h
      unfolding use_reservation_def
      by (intro act_spec_if spec_reply_reserved weaker keeps_discover keeps_busy_lookup)
    moreover have "P (snd (service_reserve (lq_requested m) (lq_process m) (lq_corr m) s))
        \<and> lq_requested m \<in> guard (snd (service_reserve (lq_requested m) (lq_process m) (lq_corr m) s))"
      if "P s \<and> find_service (lq_requested m) s = Some v" for s
      using that reserved [of s] guard_known [of "snd (service_reserve (lq_requested m) (lq_process m) (lq_corr m) s)"]
        find_service_known [of "lq_requested m" s] reserve_known [of "lq_requested m" _ _ s] by (auto simp: subset_iff)
    ultimately show ?thesis unfolding Some option.case
      by (intro act_spec_bind [where R = "\<lambda>_ s. P s \<and> lq_requested m \<in> guard s"] spec_state)
  qed
qed

subsection \<open>Advertising, metrics, discovery\<close>

lemma keeps_resolve [keeps_intros]: "act_keeps P (resolve_pending w ps)"
  unfolding resolve_pending_def by (intro keeps_intros)

lemma keeps_advertise: "act_keeps P (handle_advertise w m)" "act_keeps P (handle_concurrent w n)"
  unfolding handle_advertise_def handle_concurrent_def
  by (intro keeps_intros keeps_state; simp add: advertised advertised_concurrent)+

lemma instance_change_discard [simp]: "instance_change K si_discard"
  by (simp add: instance_change_def si_discard_def)

lemma instance_change_consume [simp]: "instance_change K (\<lambda>i. i\<lparr>si_caller := no_caller\<rparr>)"
  by (simp add: instance_change_def)

lemma keeps_discard [keeps_intros]: "act_keeps P (discard_lookup w h corr reply)"
  unfolding discard_lookup_def
  by (intro keeps_intros keeps_state) (auto simp: lookups instance_upd split: option.split)

lemma metric_sent: "P (s\<lparr>ss_metrics := []\<rparr>) \<Longrightarrow> P (metric_send w s)"
  unfolding metric_send_def by (rule fold_keeps) (simp_all add: eventually)

lemma metrics_cleared: "P s \<Longrightarrow> P (s\<lparr>ss_metrics := []\<rparr>)"
  by (simp add: metrics svc_batch_def)

lemma metric_batched: "P s \<Longrightarrow> P (metric_add_batch w ms s)"
  using metrics [of s "ss_metrics s @ ms"] metric_sent [of "s\<lparr>ss_metrics := ss_metrics s @ ms\<rparr>"] metrics_cleared [of s]
  by (auto simp: metric_add_batch_def metric_batch_def)

lemma metric_handled: "P s \<Longrightarrow> P (handle_metric w ms s)"
  unfolding handle_metric_def by (rule metric_batched, rule fold_keeps) (simp_all add: service_metric)

lemma metric_idled: "P s \<Longrightarrow> P (metric_idle w s)"
  by (simp add: metric_idle_def metric_sent metrics_cleared)

lemma metric_was_reset: "P s \<Longrightarrow> P (snd (metric_reset_request names s))"
proof -
  have "P s \<Longrightarrow> P (snd (metric_reset ns s))" for ns s
  proof (induction ns arbitrary: s)
    case (Cons n ns)
    then have "P (upd_service n (\<lambda>v. v\<lparr>sv_metric := svc_metric_zero\<rparr>) s)" by (simp add: service_metric)
    then have "P (snd (metric_reset ns (upd_service n (\<lambda>v. v\<lparr>sv_metric := svc_metric_zero\<rparr>) s)))" by (rule Cons.IH)
    then show ?case by (simp add: case_prod_unfold)
  qed simp
  then show "P s \<Longrightarrow> P (snd (metric_reset_request names s))" by (simp add: metric_reset_request_def)
qed

lemma keeps_unreserve [keeps_intros]: "act_keeps P (unreserve pid m)"
  unfolding unreserve_def by (intro keeps_intros keeps_upd) (simp_all add: service_metric instance_upd)

lemma keeps_serve_next [keeps_intros]: "act_keeps P (serve_next w pid)"
  unfolding serve_next_def by (intro keeps_intros keeps_state) (auto simp: lookups split: option.split)

lemma keeps_discover_request [keeps_intros]: "act_keeps P (discover_request w h corr names)"
  unfolding discover_request_def by (intro keeps_intros)

lemma keeps_discover_reply [keeps_intros]: "act_keeps P (discover_reply w corr)"
  unfolding discover_reply_def
  by (intro keeps_intros keeps_state keeps_upd) (auto simp: lookups split: option.split)

lemma keeps_discover_available [keeps_intros]: "act_keeps P (discover_available w)"
  unfolding discover_available_def by (intro keeps_intros)

lemma subscribed: "P s \<Longrightarrow> P (subscribe h wanted s)" "P s \<Longrightarrow> P (unsubscribe h s)"
  by (auto simp: subscribe_def unsubscribe_def distinct_map_filter intro!: subscribers) force

subsection \<open>Prepared shutdown, acknowledgement\<close>

lemma shutdown_replied: "P s \<Longrightarrow> P (fired_shutdown w fired s)"
proof -
  obtain cb replies outcome where fired: "fired = (cb, replies, outcome)" by (cases fired) auto
  have failed: "P s \<Longrightarrow> P (shutdown_failed w is outcome s)" for "is" s
    unfolding shutdown_failed_def by (rule fold_keeps) (simp_all add: error_replied split: option.split)
  have replied: "P s \<Longrightarrow> P (snd (shutdown_done is ms s))" for "is" ms s
  proof (induction "is" ms s rule: shutdown_done.induct)
    case (2 "is" m ms s)
    then show ?case by (auto simp: service_metric case_prod_unfold split: option.split)
  qed simp
  show "P s \<Longrightarrow> P (fired_shutdown w fired s)"
    using replied [OF failed] by (simp add: fired fired_shutdown_def case_prod_unfold eventually)
qed

lemma shutdown_ran: "P s \<Longrightarrow> P (run_shutdown w fired s)"
  by (simp add: run_shutdown_def shutdown_replied split: option.split)

lemma fan_message_callbacks: "e \<in> set (snd (fan_message c m es)) \<Longrightarrow> fe_callback e \<in> fe_callback ` set es"
  using set_update_first [of e "fan_has c" "fan_coordinate c m" es] set_remove_first [of "fan_has c" es]
  by (auto simp: fan_message_def fan_coordinate_def split: option.splits)

lemma fan_failed_callbacks: "e \<in> set (snd (fan_failed i es)) \<Longrightarrow> fe_callback e \<in> fe_callback ` set es"
  by (auto simp: fan_failed_def Let_def fan_fail_def)

lemma fan_add_callbacks: "e \<in> set (snd (fan_add ps cb es)) \<Longrightarrow> fe_callback e \<in> insert cb (fe_callback ` set es)"
  by (auto simp: fan_add_def Let_def split: option.splits)

lemma keeps_relookup [keeps_intros]: "act_keeps P (relookup w names)"
  unfolding relookup_def by (intro keeps_intros keeps_state) (simp add: Let_def lookups)

lemma deadline_removed: "P s \<Longrightarrow> P (s\<lparr>ss_deadlines := snd (deadline_remove stale corr (ss_deadlines s))\<rparr>)"
proof -
  have "sorted (map dl_when ds) \<Longrightarrow> sorted (map dl_when (remove_first Q ds))" for Q ds
    by (induction ds) (auto dest: set_remove_first [THEN subsetD])
  then show "P s \<Longrightarrow> P (s\<lparr>ss_deadlines := snd (deadline_remove stale corr (ss_deadlines s))\<rparr>)"
    by (intro deadlines) (auto simp: deadline_remove_def split: list.splits dest: set_remove_first [THEN subsetD])
qed

lemma keeps_ack: "act_keeps P (handle_ack w corr m)"
  unfolding handle_ack_def
  by (intro keeps_intros keeps_state keeps_upd)
    (auto simp: case_prod_unfold deadline_removed metric_batched shutdown_ran fan_message_callbacks intro!: shutdown)

subsection \<open>Timeouts, exits\<close>

lemma consumed: "P s \<Longrightarrow> P (snd (consume corr pids s))"
  by (induction corr pids s rule: consume.induct) (auto simp: Let_def instance_upd split: option.splits)

lemma keeps_expire [keeps_intros]: "act_keeps P (expire_entry w e)"
  unfolding expire_entry_def by (intro keeps_intros keeps_state) (simp add: consumed)

lemma deadline_dropped: "P s \<Longrightarrow> P (s\<lparr>ss_deadlines := dropWhile Q (ss_deadlines s)\<rparr>)"
  by (rule deadlines) (auto simp: sorted_wrt_dropWhile sorted_map dest: set_dropWhileD)

lemma keeps_timeout: "act_keeps P (handle_timeout w)"
  unfolding handle_timeout_def
  by (intro keeps_intros keeps_state) (simp add: deadline_expired_def Let_def deadline_dropped)

lemma exited: "P s \<Longrightarrow> P (handle_exit w pid s)"
proof -
  have "P s1 \<Longrightarrow> P (svc_remove pid (fold (fired_shutdown w) (fst (fan_failed pid (ss_shutdown s1)))
      (s1\<lparr>ss_shutdown := snd (fan_failed pid (ss_shutdown s1))\<rparr>)))" for s1
    by (rule removed, rule fold_keeps) (auto simp: shutdown_replied fan_failed_callbacks intro!: shutdown)
  then show "P s \<Longrightarrow> P (handle_exit w pid s)"
    by (auto simp: handle_exit_def Let_def case_prod_unfold error_replied split: option.split)
qed

lemma more_guarded: "svc_kept (\<lambda>s. P s \<and> X \<subseteq> guard s) guard"
proof
  show "known s \<subseteq> guard s" for s by (rule guard_known)
  show "known s \<subseteq> known s' \<Longrightarrow> guard s \<subseteq> guard s'" for s s' by (rule guard_mono)
  have g: "X \<subseteq> guard s \<Longrightarrow> known s \<subseteq> known s' \<Longrightarrow> X \<subseteq> guard s'" for s s'
    using guard_mono [of s s'] by blast
  fix s assume s: "P s \<and> X \<subseteq> guard s"
  show "P (s\<lparr>ss_outbox := x\<rparr>) \<and> X \<subseteq> guard (s\<lparr>ss_outbox := x\<rparr>)" for x
    using s g [of s] by (auto simp: outbox)
  show "P (s\<lparr>ss_lookups := x\<rparr>) \<and> X \<subseteq> guard (s\<lparr>ss_lookups := x\<rparr>)" for x
    using s g [of s] by (auto simp: lookups)
  show "P (s\<lparr>ss_runlevel := x\<rparr>) \<and> X \<subseteq> guard (s\<lparr>ss_runlevel := x\<rparr>)" for x
    using s g [of s] by (auto simp: runlevel)
  show "P (s\<lparr>ss_metrics := x\<rparr>) \<and> X \<subseteq> guard (s\<lparr>ss_metrics := x\<rparr>)" if "length x < svc_batch" for x
    using s that g [of s "s\<lparr>ss_metrics := x\<rparr>"] by (simp add: metrics)
  show "P (s\<lparr>ss_subscribers := x\<rparr>) \<and> X \<subseteq> guard (s\<lparr>ss_subscribers := x\<rparr>)"
    if "distinct (map hipc (ss_subscribers s)) \<Longrightarrow> distinct (map hipc x)" for x
    using s that g [of s "s\<lparr>ss_subscribers := x\<rparr>"] by (simp add: subscribers)
  show "P (s\<lparr>ss_deadlines := x\<rparr>) \<and> X \<subseteq> guard (s\<lparr>ss_deadlines := x\<rparr>)"
    if "sorted (map dl_when (ss_deadlines s)) \<Longrightarrow> sorted (map dl_when x)"
      and "dl_service ` set x \<subseteq> dl_service ` set (ss_deadlines s) \<union> guard s" for x
    using s that g [of s "s\<lparr>ss_deadlines := x\<rparr>"] by (simp add: deadlines)
  show "P (s\<lparr>ss_shutdown := x\<rparr>) \<and> X \<subseteq> guard (s\<lparr>ss_shutdown := x\<rparr>)"
    if "\<forall>e\<in>set x. fe_callback e \<in> fe_callback ` set (ss_shutdown s) \<or> callback_in (guard s) (sd_instances (fe_callback e))" for x
    using s that g [of s "s\<lparr>ss_shutdown := x\<rparr>"] by (simp add: shutdown)
  show "P (upd_sequential pid h s) \<and> X \<subseteq> guard (upd_sequential pid h s)" if "instance_change (guard s) h" for pid h
    using s that g [of s "upd_sequential pid h s"] by (simp add: instance_upd)
  show "P (upd_service key (\<lambda>v. v\<lparr>sv_metric := f v\<rparr>) s) \<and> X \<subseteq> guard (upd_service key (\<lambda>v. v\<lparr>sv_metric := f v\<rparr>) s)" for key f
    using s g [of s "upd_service key (\<lambda>v. v\<lparr>sv_metric := f v\<rparr>) s"] by (simp add: service_metric)
  show "P (snd (update_advertise w m s)) \<and> X \<subseteq> guard (snd (update_advertise w m s))" for w m
    using s g [OF _ known_update_advertise] by (simp add: advertised)
  show "P (snd (update_concurrent w n s)) \<and> X \<subseteq> guard (snd (update_concurrent w n s))" for w n
    using s g [OF _ known_update_concurrent] by (simp add: advertised_concurrent)
  show "P (svc_remove pid s) \<and> X \<subseteq> guard (svc_remove pid s)" for pid
    using s g [of s "svc_remove pid s"] by (simp add: removed)
  show "P (snd (prepare_processes ps s)) \<and> X \<subseteq> guard (snd (prepare_processes ps s))" for ps
    using s g [of s "snd (prepare_processes ps s)"] by (simp add: prepared)
  show "callback_in (guard s') is" if "prepare_processes ps s = ((names, is, us), s')" for ps names "is" us s'
    using s that prepared_callback by blast
qed

lemma callback_in_mono: "callback_in K is \<Longrightarrow> set js \<subseteq> set is \<Longrightarrow> K \<subseteq> L \<Longrightarrow> callback_in L js"
  by (auto simp: callback_in_def)

lemma keeps_reply_idle [keeps_intros]: "act_keeps P (reply_idle w h corr hs)"
  unfolding reply_idle_def by (intro keeps_intros)

lemma spec_await_busy:
  "act_spec (\<lambda>s. P s \<and> callback_in (guard s) busy) (await_busy w h corr busy) (\<lambda>_. P) P"
  unfolding await_busy_def
proof (rule act_spec_if, rule act_spec_ret, simp, rule act_spec_bind [where R = "\<lambda>_. P"], rule spec_state)
  fix s
  let ?ps = "map (\<lambda>i. mk_pending (ca_corr (si_caller i)) (hpid (si_process i))) busy"
  let ?cb = "\<lparr>sd_corr = corr, sd_instances = busy, sd_destination = h\<rparr>"
  assume s: "P s \<and> callback_in (guard s) busy"
  then have "P (s\<lparr>ss_shutdown := snd (fan_add ?ps ?cb (ss_shutdown s))\<rparr>)"
    using fan_add_callbacks [of _ ?ps ?cb "ss_shutdown s"] by (intro shutdown) force+
  then show "P (snd (case fan_add ?ps ?cb (ss_shutdown s) of (fired, es) \<Rightarrow> (fired, s\<lparr>ss_shutdown := es\<rparr>)))"
    by (simp add: case_prod_unfold)
qed (rule act_spec_upd, rule shutdown_ran)

text \<open>The instances that a prepared shutdown waits for refer to services that stay known.\<close>

lemma keeps_prepare: "act_keeps P (prepare_shutdown w h corr processes)"
  unfolding act_keeps_spec prepare_shutdown_def
proof (rule act_spec_bind [where R = "\<lambda>(names, is, us) s. P s \<and> callback_in (guard s) is"], rule spec_state)
  fix s assume s: "P s"
  show "(\<lambda>(names, is, us) s. P s \<and> callback_in (guard s) is) (fst (prepare_processes processes s))
      (snd (prepare_processes processes s))"
    using prepared [OF s] prepared_callback [OF s] by (simp add: case_prod_unfold prod_eq_iff)
next
  fix r :: "string list \<times> seq_instance list \<times> handle list"
  obtain names "is" us where r: "r = (names, is, us)" by (cases r) auto
  let ?X = "{k. \<exists>i\<in>set is. si_service i = Some k}"
  let ?Q = "\<lambda>s. P s \<and> ?X \<subseteq> guard s"
  have x: "callback_in (guard s) is \<longleftrightarrow> ?X \<subseteq> guard s" for s by (auto simp: callback_in_def)
  note look = svc_kept.keeps_relookup [OF more_guarded [of ?X], of w names, unfolded act_keeps_spec]
    and reply = svc_kept.keeps_reply_idle [OF more_guarded [of ?X], of w h corr, unfolded act_keeps_spec]
  have "act_spec ?Q (act_then (if names \<noteq> [] then relookup w names else act_ret ())
      (act_then (reply_idle w h corr (us @ map si_process (filter si_idle is)))
        (await_busy w h corr (filter (\<lambda>i. \<not> si_idle i) is)))) (\<lambda>_. P) P"
  proof (rule act_spec_then [where R = ?Q], rule act_spec_if)
    show "act_spec ?Q (act_then (reply_idle w h corr (us @ map si_process (filter si_idle is)))
        (await_busy w h corr (filter (\<lambda>i. \<not> si_idle i) is))) (\<lambda>_. P) P"
      by (rule act_spec_then [where R = ?Q], rule act_spec_weaken [OF reply], simp_all,
          rule act_spec_weaken [OF spec_await_busy]) (auto simp: callback_in_def)
  qed (auto intro: act_spec_ret act_spec_weaken [OF look])
  then show "act_spec ((\<lambda>(names, is, us) s. P s \<and> callback_in (guard s) is) r)
      ((\<lambda>(names, is, unknown). act_then (if names \<noteq> [] then relookup w names else act_ret ())
         (act_then (reply_idle w h corr (unknown @ map si_process (filter si_idle is)))
          (await_busy w h corr (filter (\<lambda>i. \<not> si_idle i) is)))) r) (\<lambda>_. P) P"
    by (simp add: r x)
qed

subsection \<open>Every message\<close>

theorem keeps_svc_handle: "act_keeps P (svc_handle w m)"
proof (cases m)
  case (Configuration_request h corr)
  then show ?thesis
    using keeps_upd [where f = "svc_configuration_request w h corr" and P = P]
    by (simp add: svc_handle_def svc_configuration_request_def eventually)
next
  case Shutdown_request
  then show ?thesis using keeps_upd [where f = "runlevel_set Shutting_down" and P = P]
    by (simp add: svc_handle_def runlevel_set_def runlevel)
qed (auto simp: svc_handle_def keeps_advertise keeps_svc_lookup keeps_discard keeps_ack keeps_prepare
    keeps_discover_request keeps_discover_reply keeps_discover_available keeps_timeout metric_handled exited
    subscribed metric_was_reset metric_idled intro!: keeps_upd)

lemma kept_by_step: "P s \<Longrightarrow> P (svc_step e s)"
  using keeps_svc_handle [of "fst e" "snd e"] by (simp add: svc_step_def act_keeps_def)

end

end
