(* ===== verification/SvcInvariant.thy ===== *)
theory SvcInvariant
  imports SvcKeeps
begin

text \<open>
  The invariant of the service manager, in two parts. \<open>svc_typed\<close> is what every message and every
  update of the configuration keeps: keys are unique, instances are stored under their own
  process, an idle instance has no caller, the deadlines are in order. \<open>svc_linked\<close> relates
  services and instances: they refer to each other, and no pointer leads to a service that is
  gone. The messages keep it; an update of the configuration does not.
\<close>

section \<open>The typed part\<close>

definition typed_fields ::
    "string list \<Rightarrow> (int \<times> handle \<times> string option \<times> caller) list \<Rightarrow> (int \<times> con_instance) list \<Rightarrow> deadline list
       \<Rightarrow> call_metric list \<Rightarrow> handle list \<Rightarrow> bool" where
  "typed_fields ks vs cs ds ms hs \<longleftrightarrow> distinct ks \<and> distinct (map fst vs) \<and> distinct (map fst cs)
     \<and> list_all (\<lambda>(pid, h, sv, ca). hpid h = pid \<and> handle_valid h \<and> (sv = None \<longrightarrow> ca = no_caller)) vs
     \<and> list_all (\<lambda>(pid, c). hpid (ci_process c) = pid \<and> handle_valid (ci_process c)) cs
     \<and> sorted (map dl_when ds) \<and> length ms < svc_batch \<and> distinct (map hipc hs)"

definition svc_typed :: "svc \<Rightarrow> bool" where
  "svc_typed s \<longleftrightarrow> typed_fields (map fst (ss_services s)) (seq_view s) (ss_concurrent s) (ss_deadlines s)
     (ss_metrics s) (ss_subscribers s)"

lemma seq_view_fields [simp]:
  "seq_view (s\<lparr>ss_services := x1\<rparr>) = seq_view s" "seq_view (s\<lparr>ss_concurrent := x2\<rparr>) = seq_view s"
  "seq_view (s\<lparr>ss_deadlines := x3\<rparr>) = seq_view s" "seq_view (s\<lparr>ss_lookups := x4\<rparr>) = seq_view s"
  "seq_view (s\<lparr>ss_shutdown := x5\<rparr>) = seq_view s" "seq_view (s\<lparr>ss_subscribers := x6\<rparr>) = seq_view s"
  "seq_view (s\<lparr>ss_metrics := x7\<rparr>) = seq_view s" "seq_view (s\<lparr>ss_outbox := x8\<rparr>) = seq_view s"
  "seq_view (s\<lparr>ss_runlevel := x9\<rparr>) = seq_view s" "seq_view (s\<lparr>ss_forward := x10\<rparr>) = seq_view s"
  "seq_view (s\<lparr>ss_routes := x11\<rparr>) = seq_view s" "seq_view (s\<lparr>ss_reverse := x12\<rparr>) = seq_view s"
  "seq_view (s\<lparr>ss_timeout := x13\<rparr>) = seq_view s" "seq_view (s\<lparr>ss_restrictions := x14\<rparr>) = seq_view s"
  by (simp_all add: seq_view_def)

lemma typed_rest:
  assumes "svc_typed s" and "same_rest s s'" and "distinct (map fst (ss_services s'))" and "seq_view s' = seq_view s"
  shows "svc_typed s'"
  using assms(1,3,4) same_rest_fields [OF assms(2)] by (simp add: svc_typed_def typed_fields_def)

lemma typed_distinct: "svc_typed s \<Longrightarrow> distinct (map fst (ss_services s))"
  by (simp add: svc_typed_def typed_fields_def)

lemma typed_distinct_instances:
  "svc_typed s \<Longrightarrow> distinct (map fst (ss_sequential s))" "svc_typed s \<Longrightarrow> distinct (map fst (ss_concurrent s))"
  using map_fst_seq_view [of s] by (simp_all add: svc_typed_def typed_fields_def del: map_fst_seq_view)

lemma typed_upd_service [simp]: "svc_typed s \<Longrightarrow> svc_typed (upd_service k f s)"
  by (rule typed_rest) (simp_all add: typed_distinct)

lemma typed_service_remove [simp]: "svc_typed s \<Longrightarrow> svc_typed (service_remove pid key s)"
  by (rule typed_rest) (simp_all add: typed_distinct)

lemma typed_service_add [simp]:
  "svc_typed s \<Longrightarrow> svc_typed (service_add_sequential pid key s)"
  "svc_typed s \<Longrightarrow> svc_typed (service_add_concurrent pid prop key s)"
  by (rule typed_rest; simp add: typed_distinct)+

lemma typed_emplace [simp]: "svc_typed s \<Longrightarrow> svc_typed (svc_emplace k v s)"
  by (rule typed_rest) (simp_all add: typed_distinct)

lemma typed_fold_remove [simp]: "svc_typed s \<Longrightarrow> svc_typed (fold (service_remove pid) ks s)"
  by (rule fold_keeps) simp_all

lemma set_seq_view_del: "set (seq_view (s\<lparr>ss_sequential := del_key pid (ss_sequential s)\<rparr>)) \<subseteq> set (seq_view s)"
  using set_del_key [of pid "ss_sequential s"] by (auto simp: seq_view_def)

lemma typed_del_sequential:
  assumes "svc_typed s"
  shows "svc_typed (s\<lparr>ss_sequential := del_key pid (ss_sequential s)\<rparr>)"
proof -
  have "distinct (map fst (del_key pid (ss_sequential s)))" using typed_distinct_instances(1) [OF assms] by simp
  moreover have "list_all Q (seq_view s) \<Longrightarrow> list_all Q (seq_view (s\<lparr>ss_sequential := del_key pid (ss_sequential s)\<rparr>))" for Q
    using set_seq_view_del [of pid s] by (auto simp: list_all_iff)
  ultimately show ?thesis using assms by (simp add: svc_typed_def typed_fields_def)
qed

lemma typed_del_concurrent:
  assumes "svc_typed s"
  shows "svc_typed (s\<lparr>ss_concurrent := del_key pid (ss_concurrent s)\<rparr>)"
proof -
  have "distinct (map fst (del_key pid (ss_concurrent s)))" using typed_distinct_instances(2) [OF assms] by simp
  moreover have "list_all Q (ss_concurrent s) \<Longrightarrow> list_all Q (del_key pid (ss_concurrent s))" for Q
    using set_del_key [of pid "ss_concurrent s"] by (auto simp: list_all_iff)
  ultimately show ?thesis using assms by (simp add: svc_typed_def typed_fields_def)
qed

lemma typed_forward_subscribers:
  "svc_typed s \<Longrightarrow> svc_typed (s\<lparr>ss_forward := f, ss_subscribers := filter Q (ss_subscribers s)\<rparr>)"
  by (simp add: svc_typed_def typed_fields_def distinct_map_filter)

lemma typed_remove [simp]:
  "svc_typed s \<Longrightarrow> svc_typed (remove_sequential pid s)" "svc_typed s \<Longrightarrow> svc_typed (remove_concurrent pid s)"
  "svc_typed s \<Longrightarrow> svc_typed (svc_remove pid s)"
proof -
  show a: "svc_typed s \<Longrightarrow> svc_typed (remove_sequential pid s)" for s
    by (simp add: remove_sequential_def Let_def typed_del_sequential)
  show b: "svc_typed s \<Longrightarrow> svc_typed (remove_concurrent pid s)" for s
    by (simp add: remove_concurrent_def Let_def typed_del_concurrent)
  show "svc_typed s \<Longrightarrow> svc_typed (svc_remove pid s)"
    unfolding svc_remove_def by (rule b, rule a, rule typed_forward_subscribers)
qed

lemma typed_seq_detach [simp]: "svc_typed s \<Longrightarrow> svc_typed (snd (seq_detach pid s))"
  by (rule typed_rest) (simp_all add: typed_distinct)

text \<open>Any predicate that a change of the properties, a new service without instances and the
  addition of an instance keep.\<close>

lemma find_or_add_keeps:
  assumes "Q s" and "\<And>s k f. Q s \<Longrightarrow> Q (upd_service k (\<lambda>x. x\<lparr>sv_info := (sv_info x)\<lparr>if_category := if_category (sv_info v),
            if_transaction := if_transaction (sv_info v)\<rparr>\<rparr>) s)"
    and "\<And>s k. Q s \<Longrightarrow> Q (svc_emplace k v s)" and "\<And>s k. Q s \<Longrightarrow> k \<in> known s \<Longrightarrow> Q (add k s)"
  shows "Q (find_or_add_service v add s)"
proof -
  have "Q (add_one_service v add k s)" if "Q s" for k s
    using that find_service_known [of k s] assms(2-4) by (auto simp: add_one_service_def split: option.split)
  then show ?thesis using assms(1) by (auto simp: find_or_add_service_def split: option.split intro: fold_keeps)
qed

lemma typed_find_or_add_sequential [simp]:
  assumes "svc_typed s" and "handle_valid h"
  shows "svc_typed (find_or_add_sequential h s)"
proof (cases "map_of (ss_sequential s) (hpid h)")
  case None
  then have "hpid h \<notin> set (map fst (ss_sequential s))" by (simp only: map_of_key not_False_eq_True)
  then show ?thesis using assms None
    by (auto simp: find_or_add_sequential_def svc_typed_def typed_fields_def seq_view_def new_sequential_def
        comp_def case_prod_unfold image_iff)
qed (simp add: find_or_add_sequential_def assms)

lemma typed_find_or_add_concurrent [simp]:
  assumes "svc_typed s" and "handle_valid h"
  shows "svc_typed (find_or_add_concurrent h n s)"
proof (cases "map_of (ss_concurrent s) (hpid h)")
  case None
  then have "hpid h \<notin> set (map fst (ss_concurrent s))" by (simp only: map_of_key not_False_eq_True)
  then show ?thesis using assms None
    by (auto simp: find_or_add_concurrent_def svc_typed_def typed_fields_def)
next
  case (Some c)
  then show ?thesis using assms
    by (auto simp: find_or_add_concurrent_def svc_typed_def typed_fields_def intro!: list_all_upd_key)
qed

lemma typed_remove_services [simp]: "svc_typed s \<Longrightarrow> svc_typed (remove_services pid names s)"
  unfolding remove_services_def by (rule fold_keeps) simp_all

lemma typed_lookups: "svc_typed s \<Longrightarrow> svc_typed (s\<lparr>ss_lookups := x\<rparr>)"
  by (simp add: svc_typed_def)

lemma typed_advertised: "svc_typed s \<Longrightarrow> svc_typed (snd (update_advertise w m s))"
proof -
  have "svc_typed s \<Longrightarrow> svc_typed (fold (\<lambda>info s. find_or_add_service (transform_service info (ss_timeout s))
      (service_add_sequential pid) s) xs s)" for pid xs s
    by (rule fold_keeps, assumption, rule find_or_add_keeps) simp_all
  then show "svc_typed s \<Longrightarrow> svc_typed (snd (update_advertise w m s))"
    by (simp add: update_advertise_def Let_def typed_lookups split: option.split)
qed

lemma typed_advertised_concurrent: "svc_typed s \<Longrightarrow> svc_typed (snd (update_concurrent w m s))"
proof -
  have "svc_typed s \<Longrightarrow> svc_typed (fold (\<lambda>(info, d, prop) s. find_or_add_service (transform_service info (concurrent_timeout d))
      (service_add_concurrent pid prop) s) xs s)" for pid xs s
    by (rule fold_keeps, assumption, simp only: case_prod_unfold, rule find_or_add_keeps) simp_all
  then show "svc_typed s \<Longrightarrow> svc_typed (snd (update_concurrent w m s))"
    by (simp add: update_concurrent_def Let_def typed_lookups)
qed

lemma typed_detached: "svc_typed s \<Longrightarrow> svc_typed (detached pid s)"
  by (simp add: detached_def Let_def typed_del_sequential)

lemma seq_view_change:
  assumes "instance_change K g"
  shows "x \<in> set (seq_view (upd_sequential pid g s)) \<Longrightarrow> x \<in> set (seq_view s)
     \<or> (\<exists>h sv ca sv' ca'. (pid, h, sv, ca) \<in> set (seq_view s) \<and> x = (pid, h, sv', ca') \<and> (sv' = None \<longrightarrow> ca' = no_caller)
          \<and> (sv' = sv \<or> sv' = None \<or> (\<exists>k\<in>K. sv' = Some k)))"
proof -
  assume "x \<in> set (seq_view (upd_sequential pid g s))"
  then obtain p i where x: "x = (p, si_process i, si_service i, si_caller i)"
    and "(p, i) \<in> set (upd_key pid g (ss_sequential s))"
    by (auto simp: seq_view_def upd_sequential_def)
  then consider "(p, i) \<in> set (ss_sequential s)" | j where "(pid, j) \<in> set (ss_sequential s)" "p = pid" "i = g j"
    using set_upd_key [of "(p, i)" pid g "ss_sequential s"] by auto
  then show ?thesis
  proof cases
    case 1
    then show ?thesis by (force simp: x seq_view_def)
  next
    case (2 j)
    then have "(pid, si_process j, si_service j, si_caller j) \<in> set (seq_view s)" by (force simp: seq_view_def)
    moreover have "si_process (g j) = si_process j" "si_service (g j) = None \<longrightarrow> si_caller (g j) = no_caller"
      "si_service (g j) = si_service j \<or> si_service (g j) = None \<or> (\<exists>k\<in>K. si_service (g j) = Some k)"
      using assms by (auto simp: instance_change_def)
    ultimately show ?thesis using 2 by (auto simp: x)
  qed
qed

lemma typed_upd_sequential:
  assumes "svc_typed s" and "\<And>i. si_process (g i) = si_process i"
    and "\<And>i. (si_service i = None \<longrightarrow> si_caller i = no_caller) \<Longrightarrow> si_service (g i) = None \<longrightarrow> si_caller (g i) = no_caller"
  shows "svc_typed (upd_sequential pid g s)"
proof -
  let ?Q = "\<lambda>(pid, h, sv, ca). hpid h = pid \<and> handle_valid h \<and> (sv = None \<longrightarrow> ca = no_caller)"
  have "list_all ?Q (seq_view s)" using assms(1) by (simp add: svc_typed_def typed_fields_def)
  then have "list_all ?Q (seq_view (upd_sequential pid g s))"
    using assms(2,3) by (auto simp: seq_view_def upd_sequential_def list.pred_map comp_def case_prod_unfold intro!: list_all_upd_key)
  moreover have "ss_concurrent (upd_sequential pid g s) = ss_concurrent s" "ss_deadlines (upd_sequential pid g s) = ss_deadlines s"
    "ss_metrics (upd_sequential pid g s) = ss_metrics s" "ss_subscribers (upd_sequential pid g s) = ss_subscribers s"
    by (simp_all add: upd_sequential_def)
  ultimately show ?thesis using assms(1) by (simp add: svc_typed_def typed_fields_def)
qed

lemma typed_instance: "svc_typed s \<Longrightarrow> instance_change K g \<Longrightarrow> svc_typed (upd_sequential pid g s)"
  by (rule typed_upd_sequential) (simp_all add: instance_change_def)

interpretation typed: svc_kept svc_typed "\<lambda>_. UNIV"
proof
  show "svc_typed s \<Longrightarrow> svc_typed (snd (prepare_processes ps s))" for s ps
    by (rule prepare_keeps) (simp_all add: typed_detached)
  show "svc_typed s \<Longrightarrow> instance_change UNIV g \<Longrightarrow> svc_typed (upd_sequential pid g s)" for s g pid
    by (rule typed_instance)
  show "svc_typed s \<Longrightarrow> svc_typed (snd (update_advertise w m s))" for s w m by (rule typed_advertised)
  show "svc_typed s \<Longrightarrow> svc_typed (snd (update_concurrent w m s))" for s w m by (rule typed_advertised_concurrent)
  show "svc_typed s \<Longrightarrow> svc_typed (svc_remove pid s)" for s pid by simp
  show "svc_typed s \<Longrightarrow> svc_typed (upd_service key (\<lambda>v. v\<lparr>sv_metric := f v\<rparr>) s)" for s key f by simp
qed (simp_all add: callback_in_def svc_typed_def typed_fields_def del: map_fst_seq_view)

end
