(* ===== verification/SvcLinked.thy ===== *)
theory SvcLinked
  imports SvcInvariant
begin

text \<open>
  Services and instances refer to each other: an instance is listed by a service exactly when it
  exposes it, every remote instance that a service lists exists, and a reservation, a deadline
  or a prepared shutdown refers to a service that is there. Every message keeps this together
  with \<open>svc_typed\<close>.
\<close>

section \<open>The linked part\<close>

definition pointers :: "svc \<Rightarrow> string set" where
  "pointers s = {k. \<exists>x\<in>set (seq_view s). fst (snd (snd x)) = Some k} \<union> dl_service ` set (ss_deadlines s)
     \<union> {k. \<exists>e\<in>set (ss_shutdown s). \<exists>i\<in>set (sd_instances (fe_callback e)). si_service i = Some k}"

text \<open>Everything but the links of one process, and the links of a process.\<close>

definition linked_off :: "int \<Rightarrow> svc \<Rightarrow> bool" where
  "linked_off pid s \<longleftrightarrow>
     (\<forall>key p. p \<noteq> pid \<longrightarrow> (p \<in> set (members s key) \<longleftrightarrow> key \<in> set (exposed s p)))
     \<and> (\<forall>key. distinct (members s key)) \<and> (\<forall>p. p \<noteq> pid \<longrightarrow> distinct (exposed s p))
     \<and> (\<forall>key. distinct (remotes s key) \<and> set (remotes s key) \<subseteq> set (map fst (ss_concurrent s)))
     \<and> pointers s \<subseteq> known s"

definition linked_at :: "int \<Rightarrow> svc \<Rightarrow> bool" where
  "linked_at pid s \<longleftrightarrow> distinct (exposed s pid) \<and> (\<forall>key. pid \<in> set (members s key) \<longleftrightarrow> key \<in> set (exposed s pid))"

definition svc_linked :: "svc \<Rightarrow> bool" where
  "svc_linked s \<longleftrightarrow>
     (\<forall>key p. p \<in> set (members s key) \<longleftrightarrow> key \<in> set (exposed s p))
     \<and> (\<forall>key. distinct (members s key)) \<and> (\<forall>p. distinct (exposed s p))
     \<and> (\<forall>key. distinct (remotes s key) \<and> set (remotes s key) \<subseteq> set (map fst (ss_concurrent s)))
     \<and> pointers s \<subseteq> known s"

definition svc_ok :: "svc \<Rightarrow> bool" where
  "svc_ok s \<longleftrightarrow> svc_typed s \<and> svc_linked s"

lemma linked_split: "svc_linked s \<longleftrightarrow> linked_off pid s \<and> linked_at pid s"
  unfolding svc_linked_def linked_off_def linked_at_def by metis

lemma pointers_mono:
  assumes "set (seq_view s') \<subseteq> set (seq_view s)" and "dl_service ` set (ss_deadlines s') \<subseteq> dl_service ` set (ss_deadlines s)"
    and "fe_callback ` set (ss_shutdown s') \<subseteq> fe_callback ` set (ss_shutdown s)"
  shows "pointers s' \<subseteq> pointers s"
proof
  fix k assume "k \<in> pointers s'"
  then consider x where "x \<in> set (seq_view s')" "fst (snd (snd x)) = Some k" | "k \<in> dl_service ` set (ss_deadlines s')"
    | e i where "e \<in> set (ss_shutdown s')" "i \<in> set (sd_instances (fe_callback e))" "si_service i = Some k"
    by (auto simp: pointers_def)
  then show "k \<in> pointers s"
  proof cases
    case 1
    then show ?thesis using assms(1) by (auto simp: pointers_def)
  next
    case 2
    then show ?thesis using assms(2) by (auto simp: pointers_def)
  next
    case (3 e i)
    then obtain e' where "e' \<in> set (ss_shutdown s)" "fe_callback e' = fe_callback e" using assms(3) by fastforce
    then show ?thesis using 3 by (auto simp: pointers_def intro: bexI [of _ e'])
  qed
qed

lemma pointers_rest:
  "same_rest s s' \<Longrightarrow> seq_view s' = seq_view s \<Longrightarrow> pointers s' = pointers s"
  using same_rest_fields [of s s'] by (simp add: pointers_def)

lemma linked_rest:
  assumes "svc_linked s" and "same_rest s s'" and "members s' = members s" and "exposed s' = exposed s"
    and "remotes s' = remotes s" and "seq_view s' = seq_view s" and "known s \<subseteq> known s'"
  shows "svc_linked s'"
  using assms pointers_rest [OF assms(2,6)] same_rest_fields [OF assms(2)] by (auto simp: svc_linked_def)

section \<open>Removing an instance\<close>

lemma linked_off_remove [simp]:
  assumes "linked_off pid s"
  shows "linked_off pid (service_remove pid key s)"
proof -
  let ?s = "service_remove pid key s"
  have m: "p \<in> set (members ?s k) \<longleftrightarrow> p \<in> set (members s k)" if "p \<noteq> pid" for p k
    using that by (auto simp: members_service_remove in_set_remove1)
  have d: "distinct (members ?s k)" for k using assms by (auto simp: members_service_remove linked_off_def)
  have e: "exposed ?s p = exposed s p" if "p \<noteq> pid" for p using that by (simp add: exposed_service_remove)
  have c: "ss_concurrent ?s = ss_concurrent s" using same_rest_fields [OF service_remove_rest] by blast
  have r: "set (remotes ?s k) \<subseteq> set (remotes s k) \<and> (distinct (remotes s k) \<longrightarrow> distinct (remotes ?s k))" for k
    using remotes_service_remove [of pid key s k] set_remove1_subset [of pid "remotes s k"] by (auto split: if_splits)
  have p: "pointers ?s = pointers s" by (rule pointers_rest) simp_all
  show ?thesis unfolding linked_off_def
  proof (intro conjI allI impI)
    have "set (remotes s key) \<subseteq> set (map fst (ss_concurrent s))" for key using assms by (simp add: linked_off_def del: set_map)
    then show "set (remotes ?s key) \<subseteq> set (map fst (ss_concurrent ?s))" for key
      using r [of key] by (metis c subset_trans)
    show "distinct (remotes ?s key)" for key using assms r [of key] by (simp add: linked_off_def)
    show "pointers ?s \<subseteq> known ?s" using assms p by (simp add: linked_off_def)
  qed (use assms m d e in \<open>simp_all add: linked_off_def\<close>)
qed

lemma linked_off_fold [simp]: "linked_off pid s \<Longrightarrow> linked_off pid (fold (service_remove pid) ks s)"
  by (rule fold_keeps) simp_all

lemma members_fold_remove:
  "distinct (members s k) \<Longrightarrow> set (members (fold (service_remove pid) ks s) k) =
     (if k \<in> set ks then set (members s k) - {pid} else set (members s k))"
proof (induction ks arbitrary: s)
  case (Cons a ks)
  have "distinct (members (service_remove pid a s) k)" using Cons.prems by (auto simp: members_service_remove)
  then have "set (members (fold (service_remove pid) ks (service_remove pid a s)) k) =
      (if k \<in> set ks then set (members (service_remove pid a s) k) - {pid} else set (members (service_remove pid a s) k))"
    by (rule Cons.IH)
  then show ?case using Cons.prems by (auto simp: members_service_remove)
qed simp

lemma remotes_fold_remove:
  "distinct (remotes s k) \<Longrightarrow> set (remotes (fold (service_remove pid) ks s) k) =
     (if k \<in> set ks then set (remotes s k) - {pid} else set (remotes s k))"
proof (induction ks arbitrary: s)
  case (Cons a ks)
  have "distinct (remotes (service_remove pid a s) k)" using remotes_service_remove [of pid a s k] Cons.prems by blast
  then have "set (remotes (fold (service_remove pid) ks (service_remove pid a s)) k) =
      (if k \<in> set ks then set (remotes (service_remove pid a s) k) - {pid} else set (remotes (service_remove pid a s) k))"
    by (rule Cons.IH)
  then show ?case using remotes_service_remove [of pid a s k] Cons.prems by auto
qed simp

lemma exposed_del:
  "distinct (map fst (ss_sequential s)) \<Longrightarrow>
     exposed (s\<lparr>ss_sequential := del_key pid (ss_sequential s)\<rparr>) p = (if p = pid then [] else exposed s p)"
  by (simp add: exposed_def map_of_del_key)

lemma linked_del_sequential:
  assumes "linked_off pid s" and "distinct (map fst (ss_sequential s))" and "\<And>key. pid \<notin> set (members s key)"
  shows "svc_linked (s\<lparr>ss_sequential := del_key pid (ss_sequential s)\<rparr>)"
proof -
  let ?s = "s\<lparr>ss_sequential := del_key pid (ss_sequential s)\<rparr>"
  have v: "members ?s = members s" "remotes ?s = remotes s" "known ?s = known s"
    using services_views [of ?s s] by simp_all
  have "pointers ?s \<subseteq> pointers s" by (rule pointers_mono [OF set_seq_view_del]) simp_all
  then show ?thesis
    using assms v exposed_del [OF assms(2)] by (auto simp: svc_linked_def linked_off_def)
qed

lemma members_known: "p \<in> set (members s k) \<Longrightarrow> k \<in> known s"
  using find_service_known [of k s] members_unknown [of k s] by force

lemma remotes_known: "p \<in> set (remotes s k) \<Longrightarrow> k \<in> known s"
  using find_service_known [of k s] remotes_unknown [of k s] by force

lemma linked_remove_sequential:
  assumes "svc_linked s" and "svc_typed s"
  shows "svc_linked (remove_sequential pid s)"
proof (cases "map_of (ss_sequential s) pid = None")
  case False
  let ?s = "fold (service_remove pid) (map fst (ss_services s)) s"
  have off: "linked_off pid ?s" using assms(1) linked_split [of s pid] by simp
  have "distinct (members s k)" for k using assms(1) by (simp add: svc_linked_def)
  then have "pid \<notin> set (members ?s k)" for k
    using members_known [of pid s k] by (auto simp: members_fold_remove known_def simp del: set_map)
  then have "svc_linked (?s\<lparr>ss_sequential := del_key pid (ss_sequential ?s)\<rparr>)"
    using linked_del_sequential [OF off] typed_distinct_instances(1) [OF assms(2)] by simp
  then show ?thesis by (simp only: remove_sequential_def Let_def False if_False)
qed (simp add: remove_sequential_def assms)

lemma exposed_none: "map_of (ss_sequential s) pid = None \<Longrightarrow> exposed s pid = []"
  by (simp add: exposed_def)

lemma linked_remove_concurrent:
  assumes "svc_linked s" and "svc_typed s" and "map_of (ss_sequential s) pid = None"
  shows "svc_linked (remove_concurrent pid s)"
proof (cases "map_of (ss_concurrent s) pid = None")
  case False
  let ?s = "fold (service_remove pid) (map fst (ss_services s)) s"
  let ?t = "?s\<lparr>ss_concurrent := del_key pid (ss_concurrent ?s)\<rparr>"
  have off: "linked_off pid ?s" using assms(1) linked_split [of s pid] by simp
  have "map_of (ss_sequential ?s) pid = None" using assms(3) by (simp only: map_of_key fold_remove_views not_False_eq_True)
  then have ex: "exposed ?s pid = []" by (rule exposed_none)
  have "pid \<notin> set (members s k)" for k using assms(1) exposed_none [OF assms(3)] by (simp add: svc_linked_def)
  then have mem: "pid \<notin> set (members ?s k)" for k using assms(1) by (simp add: members_fold_remove svc_linked_def)
  have rem: "pid \<notin> set (remotes ?s k)" for k
    using assms(1) remotes_known [of pid s k] by (auto simp: remotes_fold_remove svc_linked_def known_def simp del: set_map)
  have c: "ss_concurrent ?s = ss_concurrent s" using same_rest_fields [OF fold_remove_rest] by blast
  have v: "members ?t = members ?s" "remotes ?t = remotes ?s" "known ?t = known ?s" "exposed ?t = exposed ?s"
    using services_views [of ?t ?s] sequential_views [of ?t ?s] by simp_all
  have p: "pointers ?t = pointers ?s" by (simp add: pointers_def)
  have "fst ` set (del_key pid (ss_concurrent s)) = fst ` set (ss_concurrent s) - {pid}"
    by (rule keys_del_key) (rule typed_distinct_instances(2) [OF assms(2)])
  then have "set (remotes ?s k) \<subseteq> set (map fst (ss_concurrent ?t))" for k
    using off rem [of k] by (auto simp: linked_off_def c)
  then have "linked_off pid ?t" using off by (simp add: linked_off_def v p del: set_map)
  moreover have "linked_at pid ?t" using ex mem v by (simp add: linked_at_def)
  ultimately have "svc_linked ?t" using linked_split by blast
  then show ?thesis by (simp only: remove_concurrent_def Let_def False if_False)
qed (simp add: remove_concurrent_def assms)

lemma remove_sequential_gone:
  "svc_typed s \<Longrightarrow> map_of (ss_sequential (remove_sequential pid s)) pid = None"
proof (cases "map_of (ss_sequential s) pid = None")
  case False
  assume "svc_typed s"
  then have "distinct (map fst (ss_sequential (fold (service_remove pid) (map fst (ss_services s)) s)))"
    by (simp add: typed_distinct_instances)
  then show ?thesis unfolding remove_sequential_def Let_def using False by (simp add: map_of_del_key)
qed (simp add: remove_sequential_def)

lemma linked_forward_subscribers:
  "svc_linked s \<Longrightarrow> svc_linked (s\<lparr>ss_forward := f, ss_subscribers := hs\<rparr>)"
  using services_views [of "s\<lparr>ss_forward := f, ss_subscribers := hs\<rparr>" s]
    sequential_views [of "s\<lparr>ss_forward := f, ss_subscribers := hs\<rparr>" s]
  by (simp add: svc_linked_def pointers_def)

lemma ok_svc_remove:
  assumes "svc_ok s"
  shows "svc_ok (svc_remove pid s)"
proof -
  let ?s = "s\<lparr>ss_forward := (if hpid (ss_forward s) = pid then null_handle else ss_forward s),
      ss_subscribers := filter (\<lambda>h. hpid h \<noteq> pid) (ss_subscribers s)\<rparr>"
  have s: "svc_typed ?s" "svc_linked ?s"
    using assms by (simp_all only: svc_ok_def typed_forward_subscribers linked_forward_subscribers)
  show ?thesis unfolding svc_remove_def svc_ok_def
    using s by (intro conjI linked_remove_concurrent linked_remove_sequential remove_sequential_gone typed_remove)
qed

lemma linked_detached:
  assumes "svc_ok s" and "map_of (ss_sequential s) pid \<noteq> None"
  shows "svc_linked (detached pid s)"
proof -
  obtain i where i: "map_of (ss_sequential s) pid = Some i" using assms(2) by blast
  let ?u = "upd_sequential pid (\<lambda>i. i\<lparr>si_services := []\<rparr>) s"
  let ?s = "fold (service_remove pid) (si_services i) ?u"
  have e: "exposed ?u p = exposed s p" if "p \<noteq> pid" for p using that by (simp add: exposed_upd_sequential)
  have p: "pointers ?u = pointers s" by (rule pointers_rest) simp_all
  have c: "ss_concurrent ?u = ss_concurrent s" by (simp add: upd_sequential_def)
  have off: "linked_off pid ?u"
    using assms(1) linked_split [of s pid] e p c by (simp add: svc_ok_def linked_off_def del: set_map)
  have "pid \<notin> set (members ?s k)" for k
    using assms(1) i by (auto simp: members_fold_remove svc_ok_def svc_linked_def exposed_def)
  then have "svc_linked (?s\<lparr>ss_sequential := del_key pid (ss_sequential ?s)\<rparr>)"
    using linked_del_sequential [of pid ?s] off assms(1) by (simp add: svc_ok_def typed_distinct_instances)
  then show ?thesis using i by (simp add: detached_def seq_detach_state Let_def)
qed

lemma ok_detached: "svc_ok s \<Longrightarrow> map_of (ss_sequential s) pid \<noteq> None \<Longrightarrow> svc_ok (detached pid s)"
  using linked_detached [of s pid] typed_detached [of s pid] by (simp add: svc_ok_def)

lemma ok_remove_concurrent:
  "svc_ok s \<Longrightarrow> map_of (ss_sequential s) pid = None \<Longrightarrow> svc_ok (remove_concurrent pid s)"
  using linked_remove_concurrent [of s pid] typed_remove(2) [of s pid] by (simp add: svc_ok_def)

lemma ok_prepare: "svc_ok s \<Longrightarrow> svc_ok (snd (prepare_processes hs s))"
  by (rule prepare_keeps) (simp_all add: ok_detached ok_remove_concurrent)

text \<open>A reservation refers to a known service.\<close>

lemma instance_pointer:
  assumes "map_of (ss_sequential s) pid = Some i" and "si_service i = Some k"
  shows "k \<in> pointers s"
proof -
  have "(pid, si_process i, si_service i, si_caller i) \<in> set (seq_view s)"
    using map_of_SomeD [OF assms(1)] by (force simp: seq_view_def)
  then show ?thesis using assms(2) by (force simp: pointers_def)
qed

lemma prepare_callback:
  "svc_ok s \<Longrightarrow> callback_in (known s) (fst (snd (fst (prepare_processes hs s))))"
proof (induction hs arbitrary: s)
  case (Cons h hs)
  show ?case
  proof (cases "map_of (ss_sequential s) (hpid h)")
    case None
    then have "callback_in (known s) (fst (snd (fst (prepare_processes hs (remove_concurrent (hpid h) s)))))"
      using Cons.IH [OF ok_remove_concurrent [OF Cons.prems None]] by simp
    then show ?thesis using None by (simp add: case_prod_unfold)
  next
    case (Some j)
    let ?d = "snd (seq_detach (hpid h) s)"
    obtain i where i: "map_of (ss_sequential ?d) (hpid h) = Some i"
      using seq_detach_found [of "hpid h" s] Some by auto
    have "callback_in (known s) (fst (snd (fst (prepare_processes hs (detached (hpid h) s)))))"
      using Cons.IH [OF ok_detached [OF Cons.prems]] Some by (simp add: detached_def Let_def)
    moreover have "pointers ?d = pointers s" by (rule pointers_rest) simp_all
    then have "k \<in> known s" if "si_service i = Some k" for k
      using instance_pointer [OF i that] Cons.prems by (auto simp: svc_ok_def svc_linked_def)
    ultimately show ?thesis using Some i by (auto simp: case_prod_unfold detached_def Let_def callback_in_def)
  qed
qed (simp add: callback_in_def)

section \<open>Adding an instance\<close>

lemma linked_service_add:
  assumes "svc_linked s" and "pid \<in> set (map fst (ss_sequential s))"
  shows "svc_linked (service_add_sequential pid key s)"
proof -
  let ?s = "service_add_sequential pid key s"
  have link: "p \<in> set (members s k) \<longleftrightarrow> k \<in> set (exposed s p)" and dm: "distinct (members s k)"
    and de: "distinct (exposed s p)" for k p using assms(1) by (simp_all add: svc_linked_def)
  have c: "ss_concurrent ?s = ss_concurrent s" using same_rest_fields [OF service_add_rest(1)] by blast
  have p: "pointers ?s = pointers s" by (rule pointers_rest) simp_all
  show ?thesis unfolding svc_linked_def
  proof (intro conjI allI)
    show "p \<in> set (members ?s k) \<longleftrightarrow> k \<in> set (exposed ?s p)" for k p
      using link [of p k] assms(2) by (auto simp: members_service_add exposed_service_add)
    show "distinct (members ?s k)" for k using dm by (simp add: members_service_add)
    show "distinct (exposed ?s p)" for p using de [of p] link [of pid key] by (auto simp: exposed_service_add)
    show "set (remotes ?s k) \<subseteq> set (map fst (ss_concurrent ?s))" for k
      using assms(1) by (simp add: svc_linked_def c del: set_map)
  qed (use assms(1) p in \<open>simp_all add: svc_linked_def\<close>)
qed

lemma linked_emplace:
  assumes "svc_linked s" and "sv_sequential v = []" and "sv_concurrent v = []"
  shows "svc_linked (svc_emplace k v s)"
  by (rule linked_rest [OF assms(1)]) (auto simp: members_emplace remotes_emplace assms(2,3))

lemma transform_service_empty [simp]:
  "sv_sequential (transform_service i t) = []" "sv_concurrent (transform_service i t) = []"
  by (simp_all add: transform_service_def)

lemma linked_upd_service:
  assumes "svc_linked s" and "\<And>v. sv_sequential (f v) = sv_sequential v" and "\<And>v. sv_concurrent (f v) = sv_concurrent v"
  shows "svc_linked (upd_service k f s)"
  by (rule linked_rest [OF assms(1)]) (simp_all add: assms(2,3))

lemma pointers_sequential_append:
  "si_service i = None \<Longrightarrow> pointers (s\<lparr>ss_sequential := ss_sequential s @ [(p, i)]\<rparr>) = pointers s"
  by (auto simp: pointers_def seq_view_def)

lemma linked_find_or_add_sequential:
  assumes "svc_linked s"
  shows "svc_linked (find_or_add_sequential h s)"
proof (cases "map_of (ss_sequential s) (hpid h)")
  case None
  let ?s = "s\<lparr>ss_sequential := ss_sequential s @ [(hpid h, new_sequential h)]\<rparr>"
  have v: "members ?s = members s" "remotes ?s = remotes s" "known ?s = known s"
    using services_views [of ?s s] by simp_all
  have e: "exposed ?s = exposed s"
    using None by (auto simp: fun_eq_iff exposed_def map_add_def new_sequential_def split: option.split)
  have "pointers ?s = pointers s" by (rule pointers_sequential_append) (simp add: new_sequential_def)
  then show ?thesis using assms v e None by (simp add: find_or_add_sequential_def svc_linked_def)
qed (simp add: find_or_add_sequential_def assms)

lemma find_or_add_sequential_found: "hpid h \<in> set (map fst (ss_sequential (find_or_add_sequential h s)))"
proof (cases "map_of (ss_sequential s) (hpid h)")
  case (Some i)
  then have "hpid h \<in> set (map fst (ss_sequential s))" by (metis map_of_key option.distinct(1))
  then show ?thesis using Some by (simp add: find_or_add_sequential_def)
qed (simp add: find_or_add_sequential_def)

lemma linked_find_or_add_service:
  assumes "svc_linked s" and "pid \<in> set (map fst (ss_sequential s))"
  shows "svc_linked (find_or_add_service (transform_service info t) (service_add_sequential pid) s)
     \<and> pid \<in> set (map fst (ss_sequential (find_or_add_service (transform_service info t) (service_add_sequential pid) s)))"
  by (rule find_or_add_keeps [where Q = "\<lambda>s. svc_linked s \<and> pid \<in> set (map fst (ss_sequential s))"])
    (use assms in \<open>auto simp del: set_map intro: linked_upd_service linked_emplace linked_service_add\<close>)

lemma linked_add_services:
  assumes "svc_linked s" and "pid \<in> set (map fst (ss_sequential s))"
  shows "svc_linked (fold (\<lambda>info s. find_or_add_service (transform_service info (t s)) (service_add_sequential pid) s) infos s)
     \<and> pid \<in> set (map fst (ss_sequential (fold (\<lambda>info s. find_or_add_service (transform_service info (t s)) (service_add_sequential pid) s) infos s)))"
  by (rule fold_keeps [where P = "\<lambda>s. svc_linked s \<and> pid \<in> set (map fst (ss_sequential s))"])
    (use assms linked_find_or_add_service in auto)

section \<open>Removing services by their origin\<close>

lemma remove_first_distinct:
  assumes "distinct xs" and "\<exists>x\<in>set xs. Q x"
  shows "\<exists>x\<in>set xs. Q x \<and> set (remove_first Q xs) = set xs - {x} \<and> distinct (remove_first Q xs)"
  using assms by (induction xs) (auto dest: set_remove_first [THEN subsetD])

text \<open>
  An instance forgets the first of its services with the same origin, which need not be the one
  it leaves. While the services with one of the names are removed, it exposes as many services
  of each of these origins as list it.
\<close>

definition counted :: "int \<Rightarrow> string list \<Rightarrow> svc \<Rightarrow> bool" where
  "counted pid names s \<longleftrightarrow> distinct (exposed s pid)
     \<and> (\<forall>k. (\<nexists>n. n \<in> set names \<and> origin_of s k = Some n) \<longrightarrow> (pid \<in> set (members s k) \<longleftrightarrow> k \<in> set (exposed s pid)))
     \<and> (\<forall>n\<in>set names. card {k \<in> set (exposed s pid). origin_of s k = Some n}
          = card {k. origin_of s k = Some n \<and> pid \<in> set (members s k)})"

lemma finite_members: "finite {k. Q k \<and> pid \<in> set (members s k)}"
proof -
  have "{k. Q k \<and> pid \<in> set (members s k)} \<subseteq> known s" by (auto dest: members_known)
  then show ?thesis by (rule finite_subset) (simp add: known_def)
qed

lemma counted_remove:
  assumes c: "counted pid names s" and d: "distinct (members s key)"
    and n: "origin_of s key = Some n" "n \<in> set names"
  shows "counted pid names (service_remove pid key s)"
proof (cases "pid \<in> set (members s key)")
  case False
  then have "members (service_remove pid key s) = members s" "exposed (service_remove pid key s) = exposed s"
    by (auto simp: fun_eq_iff members_service_remove exposed_service_remove remove1_idem)
  then show ?thesis using c by (simp add: counted_def)
next
  case True
  let ?s = "service_remove pid key s"
  let ?E = "\<lambda>n. {k \<in> set (exposed s pid). origin_of s k = Some n}"
  let ?M = "\<lambda>n. {k. origin_of s k = Some n \<and> pid \<in> set (members s k)}"
  have eq: "card (?E m) = card (?M m)" if "m \<in> set names" for m using c that by (simp add: counted_def)
  have "key \<in> ?M n" using True n by simp
  then have "card (?M n) \<noteq> 0" using finite_members by auto
  then have "?E n \<noteq> {}" using eq [OF n(2)] by (metis card.empty)
  then have "\<exists>k\<in>set (exposed s pid). origin_of s k = origin_of s key" using n by auto
  then obtain x where x: "x \<in> set (exposed s pid)" "origin_of s x = origin_of s key"
    and ex: "set (exposed ?s pid) = set (exposed s pid) - {x}" "distinct (exposed ?s pid)"
    using remove_first_distinct [of "exposed s pid" "\<lambda>k. origin_of s k = origin_of s key"] c True
    by (auto simp: counted_def exposed_service_remove)
  have mem: "pid \<in> set (members ?s k) \<longleftrightarrow> pid \<in> set (members s k) \<and> k \<noteq> key" for k
    using d by (simp add: members_service_remove)
  show ?thesis unfolding counted_def
  proof (intro conjI allI impI ballI)
    fix k assume "\<nexists>n. n \<in> set names \<and> origin_of ?s k = Some n"
    then show "pid \<in> set (members ?s k) \<longleftrightarrow> k \<in> set (exposed ?s pid)"
      using c n x ex mem [of k] by (auto simp: counted_def)
  next
    fix m assume m: "m \<in> set names"
    have E: "{k \<in> set (exposed ?s pid). origin_of ?s k = Some m} = (if m = n then ?E m - {x} else ?E m)"
    proof -
      have "origin_of s x = Some n" using x n by simp
      then show ?thesis unfolding ex(1) service_remove_views by auto
    qed
    have M: "{k. origin_of ?s k = Some m \<and> pid \<in> set (members ?s k)} = (if m = n then ?M m - {key} else ?M m)"
      using n by (auto simp: mem)
    show "card {k \<in> set (exposed ?s pid). origin_of ?s k = Some m} = card {k. origin_of ?s k = Some m \<and> pid \<in> set (members ?s k)}"
      unfolding E M using eq [OF m] eq [OF n(2)] x n True by (simp add: card_Diff_singleton finite_members)
  qed (rule ex)
qed

lemma linked_counted:
  "svc_linked s \<Longrightarrow> counted pid names s"
  by (auto simp: counted_def svc_linked_def intro!: arg_cong [of _ _ card])

lemma remove_services_links:
  assumes "linked_off pid s" and "counted pid names s"
  defines "step \<equiv> \<lambda>key s. if (case origin_of s key of None \<Rightarrow> False | Some n \<Rightarrow> n \<in> set names) then service_remove pid key s else s"
  shows "linked_off pid (fold step ks s) \<and> counted pid names (fold step ks s) \<and> origin_of (fold step ks s) = origin_of s
     \<and> (\<forall>k. pid \<in> set (members (fold step ks s) k) \<longrightarrow> pid \<in> set (members s k)
          \<and> (k \<in> set ks \<longrightarrow> (\<nexists>n. n \<in> set names \<and> origin_of s k = Some n)))"
  using assms(1,2)
proof (induction ks arbitrary: s)
  case (Cons key ks)
  have dm: "distinct (members s key)" using Cons.prems(1) by (simp add: linked_off_def)
  have st: "linked_off pid (step key s)" "counted pid names (step key s)" "origin_of (step key s) = origin_of s"
    using Cons.prems counted_remove [OF Cons.prems(2) dm] by (auto simp: step_def split: option.splits)
  have mem: "pid \<in> set (members (step key s) k) \<longrightarrow> pid \<in> set (members s k)
      \<and> (k = key \<longrightarrow> (\<nexists>n. n \<in> set names \<and> origin_of s k = Some n))" for k
    using dm by (auto simp: step_def members_service_remove split: option.splits if_splits)
  show ?case using Cons.IH [OF st(1,2)] st(3) mem by auto
qed simp

lemma linked_remove_services:
  assumes "svc_linked s"
  shows "svc_linked (remove_services pid names s)"
proof -
  let ?t = "remove_services pid names s"
  have r: "linked_off pid ?t" "counted pid names ?t" "origin_of ?t = origin_of s"
    and left: "\<And>k. pid \<in> set (members ?t k) \<Longrightarrow> pid \<in> set (members s k) \<and>
        (k \<in> set (map fst (ss_services s)) \<longrightarrow> (\<nexists>n. n \<in> set names \<and> origin_of s k = Some n))"
    using remove_services_links [of pid s names "map fst (ss_services s)"] linked_split [of s pid] linked_counted [of s] assms
    unfolding remove_services_def by auto
  have no: "\<nexists>n. n \<in> set names \<and> origin_of s k = Some n" if "pid \<in> set (members ?t k)" for k
    using left [OF that] members_known [of pid s k] by (auto simp: known_def)
  have "k \<notin> set (exposed ?t pid)" if "n \<in> set names" "origin_of s k = Some n" for k n
  proof -
    have "{k. origin_of ?t k = Some n \<and> pid \<in> set (members ?t k)} = {}" using no that r(3) by auto
    moreover have "card {k \<in> set (exposed ?t pid). origin_of ?t k = Some n}
        = card {k. origin_of ?t k = Some n \<and> pid \<in> set (members ?t k)}"
      using r(2) that(1) unfolding counted_def by blast
    ultimately have "card {k \<in> set (exposed ?t pid). origin_of ?t k = Some n} = 0" by (metis card.empty)
    then show ?thesis using that r(3) by auto
  qed
  then have "linked_at pid ?t" using r(2) no r(3) unfolding linked_at_def counted_def by metis
  then show ?thesis using r(1) linked_split by blast
qed

section \<open>Remote instances\<close>

lemma linked_service_add_concurrent:
  assumes "svc_linked s" and "pid \<in> set (map fst (ss_concurrent s))"
  shows "svc_linked (service_add_concurrent pid prop key s)"
proof -
  let ?s = "service_add_concurrent pid prop key s"
  have c: "ss_concurrent ?s = ss_concurrent s" using same_rest_fields [OF service_add_rest(2)] by blast
  have p: "pointers ?s = pointers s" by (rule pointers_rest) simp_all
  have "set (remotes s k) \<subseteq> set (map fst (ss_concurrent s))" "distinct (remotes s k)" for k
    using assms(1) by (simp_all add: svc_linked_def del: set_map)
  then have r: "set (remotes ?s k) \<subseteq> set (map fst (ss_concurrent ?s))" "distinct (remotes ?s k)" for k
    using remotes_service_add [of pid "prop" key s k] assms(2) unfolding c by blast+
  show ?thesis using assms(1) p r unfolding svc_linked_def by (simp del: set_map)
qed

lemma linked_find_or_add_concurrent:
  assumes "svc_linked s"
  shows "svc_linked (find_or_add_concurrent h n s) \<and> hpid h \<in> set (map fst (ss_concurrent (find_or_add_concurrent h n s)))"
proof -
  let ?s = "find_or_add_concurrent h n s"
  have v: "members ?s = members s" "remotes ?s = remotes s" "known ?s = known s" "exposed ?s = exposed s"
    using services_views [of ?s s] sequential_views [of ?s s] by (simp_all add: find_or_add_concurrent_def)
  have p: "pointers ?s = pointers s" by (simp add: pointers_def find_or_add_concurrent_def)
  have k: "set (map fst (ss_concurrent ?s)) = insert (hpid h) (set (map fst (ss_concurrent s)))"
  proof (cases "map_of (ss_concurrent s) (hpid h)")
    case (Some c)
    then have "hpid h \<in> set (map fst (ss_concurrent s))" by (metis map_of_key option.distinct(1))
    then show ?thesis using Some by (simp add: find_or_add_concurrent_def insert_absorb del: set_map)
  qed (simp add: find_or_add_concurrent_def)
  have "set (remotes s key) \<subseteq> set (map fst (ss_concurrent ?s))" for key
    using assms unfolding k svc_linked_def by blast
  then show ?thesis using assms v p k by (simp add: svc_linked_def del: set_map)
qed

lemma linked_lookups: "svc_linked s \<Longrightarrow> svc_linked (s\<lparr>ss_lookups := x\<rparr>)"
  using services_views [of "s\<lparr>ss_lookups := x\<rparr>" s] sequential_views [of "s\<lparr>ss_lookups := x\<rparr>" s]
  by (simp add: svc_linked_def pointers_def)

section \<open>Every message\<close>

lemma ok_advertised: "svc_ok s \<Longrightarrow> svc_ok (snd (update_advertise w m s))"
proof -
  assume ok: "svc_ok s"
  have "svc_linked (snd (update_advertise w m s))"
  proof (cases "handle_valid (ad_process m) \<and> \<not> (ad_add m = [] \<and> ad_remove m = [])")
    case True
    let ?add = "restrict_names w (ad_alias m) if_name (ad_add m) s"
    have "svc_linked (find_or_add_sequential (ad_process m) s)"
      using ok by (simp add: svc_ok_def linked_find_or_add_sequential)
    then have "svc_linked (remove_services (hpid (ad_process m)) (ad_remove m)
        (fold (\<lambda>info s. find_or_add_service (transform_service info (ss_timeout s)) (service_add_sequential (hpid (ad_process m))) s)
          ?add (find_or_add_sequential (ad_process m) s)))"
      by (intro linked_remove_services linked_add_services [THEN conjunct1] find_or_add_sequential_found)
    then show ?thesis using True by (auto simp: update_advertise_def Let_def linked_lookups split: option.split)
  next
    case False
    have "svc_linked (svc_remove p s)" for p using ok_svc_remove [OF ok] by (simp add: svc_ok_def)
    then show ?thesis using False ok by (auto simp: update_advertise_def Let_def svc_ok_def)
  qed
  then show ?thesis using ok typed_advertised [of s w m] by (simp add: svc_ok_def)
qed

lemma linked_add_concurrent:
  assumes "svc_linked s" and "pid \<in> set (map fst (ss_concurrent s))"
  shows "svc_linked (fold (\<lambda>(info, d, prop) s. find_or_add_service (transform_service info (concurrent_timeout d))
      (service_add_concurrent pid prop) s) infos s)"
proof -
  let ?Q = "\<lambda>s. svc_linked s \<and> pid \<in> set (map fst (ss_concurrent s))"
  have c: "ss_concurrent (upd_service k f s) = ss_concurrent s" "ss_concurrent (svc_emplace k v s) = ss_concurrent s"
    "ss_concurrent (service_add_concurrent pid p k s) = ss_concurrent s" for k f v p s
    using same_rest_fields [OF same_rest_upd(1)] same_rest_fields [OF same_rest_upd(3)] same_rest_fields [OF service_add_rest(2)]
    by blast+
  have step: "?Q (find_or_add_service (transform_service i t) (service_add_concurrent pid p) s)" if "?Q s" for i t p s
    by (rule find_or_add_keeps [where Q = ?Q], rule that)
      (auto simp del: set_map simp: c intro: linked_upd_service linked_emplace linked_service_add_concurrent)
  have "?Q (fold (\<lambda>(info, d, prop) s. find_or_add_service (transform_service info (concurrent_timeout d))
      (service_add_concurrent pid prop) s) infos s)"
    by (rule fold_keeps [where P = ?Q]) (use assms step in \<open>auto simp: case_prod_unfold\<close>)
  then show ?thesis by blast
qed

lemma ok_advertised_concurrent: "svc_ok s \<Longrightarrow> svc_ok (snd (update_concurrent w m s))"
proof -
  assume ok: "svc_ok s"
  have "svc_linked (snd (update_concurrent w m s))"
  proof (cases "handle_valid (cd_process m)")
    case True
    let ?s = "if cd_reset m then svc_remove (hpid (cd_process m)) s else s"
    have "svc_linked ?s" using ok ok_svc_remove [OF ok] by (simp add: svc_ok_def)
    then have "svc_linked (remove_services (hpid (cd_process m)) (cd_remove m)
        (fold (\<lambda>(info, d, prop) s. find_or_add_service (transform_service info (concurrent_timeout d))
            (service_add_concurrent (hpid (cd_process m)) prop) s)
          (restrict_names w (cd_alias m) (\<lambda>(info, _, _). if_name info) (cd_add m) ?s)
          (find_or_add_concurrent (cd_process m) (cd_order m) ?s)))"
      by (intro linked_remove_services linked_add_concurrent linked_find_or_add_concurrent [THEN conjunct1]
          linked_find_or_add_concurrent [THEN conjunct2])
    then show ?thesis using True by (simp add: update_concurrent_def Let_def linked_lookups)
  qed (use ok in \<open>simp add: update_concurrent_def svc_ok_def\<close>)
  then show ?thesis using ok typed_advertised_concurrent [of s w m] by (simp add: svc_ok_def)
qed

lemma linked_instance:
  assumes "svc_linked s" and "instance_change (known s) g"
  shows "svc_linked (upd_sequential pid g s)"
proof -
  have "\<And>i. si_services (g i) = si_services i" using assms(2) by (simp add: instance_change_def)
  then have e: "exposed (upd_sequential pid g s) = exposed s" by simp
  have f: "ss_deadlines (upd_sequential pid g s) = ss_deadlines s" "ss_shutdown (upd_sequential pid g s) = ss_shutdown s"
    "ss_concurrent (upd_sequential pid g s) = ss_concurrent s" by (simp_all add: upd_sequential_def)
  have "k \<in> pointers s \<union> known s" if "k \<in> pointers (upd_sequential pid g s)" for k
    using that by (fastforce simp: pointers_def f dest!: seq_view_change [OF assms(2)])
  then have "pointers (upd_sequential pid g s) \<subseteq> known s" using assms(1) unfolding svc_linked_def by blast
  then show ?thesis using assms(1) e f by (auto simp: svc_linked_def)
qed

interpretation linked: svc_kept svc_ok known
proof
  have f: "svc_ok s' \<longleftrightarrow> svc_typed s' \<and> svc_linked s'" for s' by (simp add: svc_ok_def)
  fix s assume ok: "svc_ok s"
  show "svc_ok (s\<lparr>ss_deadlines := ds\<rparr>)" if "sorted (map dl_when (ss_deadlines s)) \<Longrightarrow> sorted (map dl_when ds)"
      and "dl_service ` set ds \<subseteq> dl_service ` set (ss_deadlines s) \<union> known s" for ds
  proof -
    have "pointers (s\<lparr>ss_deadlines := ds\<rparr>) \<subseteq> pointers s \<union> known s" using that(2) by (auto simp: pointers_def)
    then show ?thesis
      using ok that(1) services_views [of "s\<lparr>ss_deadlines := ds\<rparr>" s] sequential_views [of "s\<lparr>ss_deadlines := ds\<rparr>" s]
      by (auto simp: f svc_linked_def svc_typed_def typed_fields_def simp del: map_fst_seq_view)
  qed
  show "svc_ok (s\<lparr>ss_shutdown := es\<rparr>)" if cbs: "\<forall>e\<in>set es. fe_callback e \<in> fe_callback ` set (ss_shutdown s)
          \<or> callback_in (known s) (sd_instances (fe_callback e))" for es
  proof -
    have "k \<in> pointers s \<union> known s" if "e \<in> set es" "i \<in> set (sd_instances (fe_callback e))" "si_service i = Some k" for e i k
    proof -
      have "fe_callback e \<in> fe_callback ` set (ss_shutdown s) \<or> callback_in (known s) (sd_instances (fe_callback e))"
        using cbs that(1) by blast
      then show ?thesis
      proof
        assume "fe_callback e \<in> fe_callback ` set (ss_shutdown s)"
        then obtain e' where "fe_callback e = fe_callback e'" "e' \<in> set (ss_shutdown s)" by (rule imageE)
        then show ?thesis using that(2,3) unfolding pointers_def by auto
      qed (use that(2,3) in \<open>simp add: callback_in_def\<close>)
    qed
    then have "pointers (s\<lparr>ss_shutdown := es\<rparr>) \<subseteq> pointers s \<union> known s" by (auto simp: pointers_def)
    then show ?thesis
      using ok services_views [of "s\<lparr>ss_shutdown := es\<rparr>" s] sequential_views [of "s\<lparr>ss_shutdown := es\<rparr>" s]
      by (auto simp: f svc_linked_def svc_typed_def simp del: map_fst_seq_view)
  qed
  show "svc_ok (upd_service key (\<lambda>v. v\<lparr>sv_metric := g v\<rparr>) s)" for key g
    using ok by (auto simp: f intro: linked_upd_service)
  show "svc_ok (upd_sequential pid g s)" if "instance_change (known s) g" for pid g
    using ok that by (auto simp: f intro: linked_instance typed_instance)
  show "svc_ok (snd (update_advertise w m s))" for w m by (rule ok_advertised [OF ok])
  show "svc_ok (snd (update_concurrent w m s))" for w m by (rule ok_advertised_concurrent [OF ok])
  show "svc_ok (svc_remove pid s)" for pid by (rule ok_svc_remove [OF ok])
  show "svc_ok (snd (prepare_processes ps s))" for ps by (rule ok_prepare [OF ok])
  show "callback_in (known s') is" if "prepare_processes ps s = ((names, is, us), s')" for ps names "is" us s'
    using prepare_callback [OF ok, of ps] known_prepare [of ps s] that by simp
  have plain: "svc_ok s'" if "ss_services s' = ss_services s" "ss_sequential s' = ss_sequential s" "ss_concurrent s' = ss_concurrent s"
     "ss_deadlines s' = ss_deadlines s" "ss_shutdown s' = ss_shutdown s" "length (ss_metrics s') < svc_batch"
     "distinct (map hipc (ss_subscribers s'))" for s'
    using ok that services_views [of s' s] sequential_views [of s' s]
    by (auto simp: f svc_linked_def svc_typed_def typed_fields_def pointers_def)
  have b: "length (ss_metrics s) < svc_batch" "distinct (map hipc (ss_subscribers s))"
    using ok by (simp_all add: f svc_typed_def typed_fields_def)
  show "svc_ok (s\<lparr>ss_outbox := x\<rparr>)" "svc_ok (s\<lparr>ss_lookups := y\<rparr>)" "svc_ok (s\<lparr>ss_runlevel := r\<rparr>)" for x y r
    by (rule plain; simp add: b)+
  show "svc_ok (s\<lparr>ss_metrics := ms\<rparr>)" if "length ms < svc_batch" for ms by (rule plain) (simp_all add: b that)
  show "svc_ok (s\<lparr>ss_subscribers := hs\<rparr>)" if "distinct (map hipc (ss_subscribers s)) \<Longrightarrow> distinct (map hipc hs)" for hs
    by (rule plain) (simp_all add: b that)
qed auto

interpretation svc: dispatcher svc_step svc_ok
  by unfold_locales (rule linked.kept_by_step)

end
