(* ===== verification/SvcReconfigure.thy ===== *)
theory SvcReconfigure
  imports SvcLinked
begin

text \<open>
  The start of the service manager, and the updates of the configuration that keep its invariant: those
  that leave the routes of the services alone. What the others break is shown in \<open>SvcProperties\<close>.
\<close>

section \<open>The start\<close>

lemma svc_empty_ok: "svc_ok svc_empty"
  by (simp add: svc_ok_def svc_typed_def typed_fields_def svc_linked_def pointers_def view_defs svc_empty_def svc_batch_def)

text \<open>Fields that the invariant does not read.\<close>

lemma ok_configuration_fields [simp]:
  "svc_ok (s\<lparr>ss_routes := x\<rparr>) = svc_ok s" "svc_ok (s\<lparr>ss_reverse := x'\<rparr>) = svc_ok s"
  "svc_ok (s\<lparr>ss_timeout := t, ss_restrictions := r\<rparr>) = svc_ok s" "svc_ok (s\<lparr>ss_forward := f\<rparr>) = svc_ok s"
  by (simp_all add: svc_ok_def svc_typed_def svc_linked_def pointers_def view_defs)

lemma configured_service_empty [simp]:
  "sv_sequential (configured_service c) = []" "sv_concurrent (configured_service c) = []"
  by (simp_all add: configured_service_def)

lemma ok_configure_add: "svc_ok s \<Longrightarrow> svc_ok (configure_add c s)"
proof -
  have e: "svc_ok s \<Longrightarrow> svc_ok (svc_emplace k (configured_service c) s)" for k s
    by (simp add: svc_ok_def linked_emplace)
  have "svc_ok s \<Longrightarrow> svc_ok (fold (\<lambda>route s. add_reverse route (cs_name c) (svc_emplace route (configured_service c) s)) rs s)" for rs s
    by (rule fold_keeps) (simp_all add: add_reverse_def e)
  then show "svc_ok s \<Longrightarrow> svc_ok (configure_add c s)" by (simp add: configure_add_def Let_def e)
qed

lemma ok_comply: "svc_ok s \<Longrightarrow> svc_ok (comply_configuration model s)"
  unfolding comply_configuration_def by (rule fold_keeps) (simp_all add: ok_configure_add)

lemma ok_start:
  assumes "handle_valid (w_self w)"
  shows "svc_ok (svc_start w model forward own)"
proof -
  let ?s = "(comply_configuration model svc_empty)\<lparr>ss_forward := forward\<rparr>"
  let ?t = "find_or_add_sequential (w_self w) ?s"
  have ok: "svc_ok ?s" by (simp add: ok_comply svc_empty_ok)
  have t: "svc_typed ?t" "svc_linked ?t"
    using ok assms by (simp_all add: svc_ok_def linked_find_or_add_sequential)
  have "svc_typed (fold (\<lambda>info. find_or_add_service (transform_service info no_timeout)
      (service_add_sequential (hpid (w_self w)))) own ?t)"
    by (rule fold_keeps, rule t, rule find_or_add_keeps) simp_all
  then show ?thesis
    using linked_add_services [OF t(2) find_or_add_sequential_found, of "\<lambda>_. no_timeout" own]
    by (simp add: svc_start_def connect_manager_def svc_ok_def)
qed

section \<open>Updates that leave the routes alone\<close>

text \<open>The keys, other than its own name, under which a service is stored.\<close>

definition other_keys :: "string \<Rightarrow> svc \<Rightarrow> string list" where
  "other_keys name s = filter (\<lambda>k. k \<noteq> name) (keys_of_origin name s)"

text \<open>
  An update that takes no service with routes away, and gives every service that changes the routes
  it has: it may add services, with routes or without, and change timeouts and restrictions.
\<close>

definition routes_kept :: "svc_model \<Rightarrow> svc \<Rightarrow> bool" where
  "routes_kept wanted s \<longleftrightarrow>
     (case calculate_change cs_name (mo_services (transform_configuration s)) (mo_services wanted) of
        (added, modified, removed) \<Rightarrow>
          list_all (\<lambda>c. other_keys (cs_name c) s = []) removed
        \<and> list_all (\<lambda>c. set (other_keys (cs_name c) s) = set (cs_routes c)) modified)"

fun event_keeps_routes :: "svc_event \<Rightarrow> svc \<Rightarrow> bool" where
  "event_keeps_routes (Turn w m) s \<longleftrightarrow> True"
| "event_keeps_routes (Reconfigure w h corr wanted) s \<longleftrightarrow> routes_kept wanted s"

fun run_keeps_routes :: "svc_event list \<Rightarrow> svc \<Rightarrow> bool" where
  "run_keeps_routes [] s \<longleftrightarrow> True"
| "run_keeps_routes (e # es) s \<longleftrightarrow> event_keeps_routes e s \<and> run_keeps_routes es (svc_event_step e s)"

lemma other_keys_fields [simp]:
  "other_keys n (s\<lparr>ss_routes := x\<rparr>) = other_keys n s" "other_keys n (s\<lparr>ss_reverse := x'\<rparr>) = other_keys n s"
  "other_keys n (s\<lparr>ss_timeout := t, ss_restrictions := r\<rparr>) = other_keys n s"
  by (simp_all add: other_keys_def keys_of_origin_def)

lemma other_keys_emplace:
  "if_name (sv_info v) \<noteq> n \<or> k = n \<Longrightarrow> other_keys n (svc_emplace k v s) = other_keys n s"
  by (auto simp: other_keys_def keys_of_origin_def svc_emplace_def)

lemma other_keys_upd:
  assumes "\<And>v. sv_info (f v) = sv_info v"
  shows "other_keys n (upd_service k f s) = other_keys n s"
proof -
  have "map fst (filter (\<lambda>(_, v). if_name (sv_info v) = n) (upd_key k f m))
      = map fst (filter (\<lambda>(_, v). if_name (sv_info v) = n) m)" for m
    by (induction m) (auto simp: upd_key_def assms)
  then show ?thesis by (simp add: other_keys_def keys_of_origin_def upd_service_def)
qed

lemma configured_name [simp]: "if_name (sv_info (configured_service c)) = cs_name c"
  by (simp add: configured_service_def transform_service_def)

lemma other_keys_configure:
  assumes "cs_name c \<noteq> n"
  shows "other_keys n (configure_add c s) = other_keys n s"
proof -
  have "other_keys n (fold (\<lambda>route s. add_reverse route (cs_name c) (svc_emplace route (configured_service c) s)) rs s)
      = other_keys n s" for rs s
    by (induction rs arbitrary: s) (use assms in \<open>simp_all add: other_keys_emplace add_reverse_def\<close>)
  then show ?thesis using assms by (simp add: configure_add_def Let_def other_keys_emplace)
qed

lemma ok_upd_timeout: "svc_ok s \<Longrightarrow> svc_ok (upd_service k (\<lambda>v. v\<lparr>sv_timeout := t\<rparr>) s)"
  by (simp add: svc_ok_def linked_upd_service)

text \<open>A service without routes stays known by its name.\<close>

lemma conform_remove_quiet:
  assumes "svc_ok s" and "other_keys (cs_name c) s = []"
  shows "\<exists>s'. conform_remove c s = (Inr (), s') \<and> svc_ok s' \<and> (\<forall>n. other_keys n s' = other_keys n s)"
proof -
  let ?c = "c\<lparr>cs_timeout := no_timeout\<rparr>" and ?keys = "keys_of_origin (cs_name c) s"
  let ?s = "if cs_name c \<in> set ?keys then upd_service (cs_name c) (\<lambda>v. v\<lparr>sv_timeout := no_timeout\<rparr>) s
            else svc_emplace (cs_name c) (configured_service ?c) s"
  have "svc_ok ?s" using assms(1) by (simp add: ok_upd_timeout) (simp add: svc_ok_def linked_emplace)
  moreover have "other_keys n ?s = other_keys n s" for n
    by (cases "cs_name c = n") (simp_all add: other_keys_upd other_keys_emplace)
  moreover have "conform_remove c s = (Inr (), ?s\<lparr>ss_routes := omap_erase (cs_name c) (ss_routes ?s)\<rparr>)"
    using assms(2) by (simp add: conform_remove_def act_defs other_keys_def)
  ultimately show ?thesis by simp
qed

lemma conform_removes_quiet:
  "svc_ok s \<Longrightarrow> list_all (\<lambda>c. other_keys (cs_name c) s = []) cs \<Longrightarrow>
    \<exists>ys s'. act_each conform_remove cs s = (Inr ys, s') \<and> svc_ok s' \<and> (\<forall>n. other_keys n s' = other_keys n s)"
proof (induction cs arbitrary: s)
  case (Cons c cs)
  obtain s1 where s1: "conform_remove c s = (Inr (), s1)" "svc_ok s1" "\<forall>n. other_keys n s1 = other_keys n s"
    using conform_remove_quiet [of s c] Cons.prems by auto
  then show ?case using Cons.IH [of s1] Cons.prems by (auto simp: act_bind_def act_ret_def)
qed (simp add: act_ret_def)

lemma ok_added: "svc_ok s \<Longrightarrow> svc_ok (fold configure_add cs s)"
  by (rule fold_keeps) (simp_all add: ok_configure_add)

lemma other_keys_added: "n \<notin> cs_name ` set cs \<Longrightarrow> other_keys n (fold configure_add cs s) = other_keys n s"
  by (induction cs arbitrary: s) (auto simp: other_keys_configure)

text \<open>A service that keeps its routes gets its timeout; without any key the program ends.\<close>

lemma conform_modify_quiet:
  assumes "svc_ok s" and "set (other_keys (cs_name c) s) = set (cs_routes c)"
  shows "svc_ok (snd (conform_modify c s)) \<and> (\<forall>n. other_keys n (snd (conform_modify c s)) = other_keys n s)"
proof -
  let ?n = "cs_name c" and ?keys = "keys_of_origin (cs_name c) s"
  let ?s = "fold (\<lambda>k. upd_service k (\<lambda>v. v\<lparr>sv_timeout := cs_timeout c\<rparr>)) ?keys s"
  have s: "svc_ok ?s" "other_keys n ?s = other_keys n s" for n
  proof -
    have "svc_ok (fold (\<lambda>k. upd_service k (\<lambda>v. v\<lparr>sv_timeout := cs_timeout c\<rparr>)) ks s)
      \<and> other_keys n (fold (\<lambda>k. upd_service k (\<lambda>v. v\<lparr>sv_timeout := cs_timeout c\<rparr>)) ks s) = other_keys n s" for ks
      using assms(1) by (induction ks arbitrary: s) (simp_all add: ok_upd_timeout other_keys_upd)
    then show "svc_ok ?s" "other_keys n ?s = other_keys n s" by auto
  qed
  have same: "filter (\<lambda>r. r \<notin> set (filter (\<lambda>k. k \<noteq> ?n) ?keys)) (cs_routes c) = []"
    "filter (\<lambda>r. r \<notin> set (cs_routes c)) (filter (\<lambda>k. k \<noteq> ?n) ?keys) = []"
    using assms(2) unfolding other_keys_def by (auto simp: filter_empty_conv)
  let ?rest = "\<lambda>keys. case keys of
       [] \<Rightarrow> act_raise Terminated
     | existing # _ \<Rightarrow> act_then (act_upd (\<lambda>s. modify_routes ?n [] (fold (modify_add_route ?n existing) [] s)))
         (act_then (act_each (modify_remove_route ?n existing) []) (act_ret ()))"
  have rest: "svc_ok (snd (?rest keys ?s)) \<and> (\<forall>n. other_keys n (snd (?rest keys ?s)) = other_keys n s)" for keys
    using s by (cases keys) (simp_all add: act_defs modify_routes_def)
  have "conform_modify c s = ?rest (if filter (\<lambda>k. k = ?n) ?keys = [] then filter (\<lambda>k. k \<noteq> ?n) ?keys
      else filter (\<lambda>k. k = ?n) ?keys) ?s"
    unfolding conform_modify_def Let_def act_bind_def act_get_def act_then_def act_upd_def split_conv sum.case same by simp
  then show ?thesis using rest by simp
qed

lemma conform_modifies_quiet:
  "svc_ok s \<Longrightarrow> list_all (\<lambda>c. set (other_keys (cs_name c) s) = set (cs_routes c)) cs \<Longrightarrow>
    svc_ok (snd (act_each conform_modify cs s))"
proof (induction cs arbitrary: s)
  case (Cons c cs)
  note c = conform_modify_quiet [of s c]
  show ?case
    using c Cons.prems Cons.IH [of "snd (conform_modify c s)"]
    by (cases "conform_modify c s" rule: act_cases) (auto simp: act_bind_def act_ret_def split: prod.split sum.split)
qed (simp add: act_ret_def)

lemma configuration_update_quiet:
  assumes ok: "svc_ok s" and quiet: "routes_kept wanted s"
  shows "svc_ok (snd (configuration_update w h corr wanted s))"
proof -
  let ?current = "transform_configuration s"
  obtain added modified removed where change: "calculate_change cs_name (mo_services ?current) (mo_services wanted) = (added, modified, removed)"
    by (metis prod_cases3)
  have rs: "list_all (\<lambda>c. other_keys (cs_name c) s = []) removed"
    and ms: "list_all (\<lambda>c. set (other_keys (cs_name c) s) = set (cs_routes c)) modified"
    using quiet by (simp_all add: routes_kept_def change)
  have names: "cs_name c \<notin> cs_name ` set added" if "c \<in> set modified" for c
    using change that by (auto simp: calculate_change_def Let_def)
  let ?s = "s\<lparr>ss_timeout := mo_timeout wanted, ss_restrictions := mo_restrictions wanted\<rparr>"
  have ok0: "svc_ok ?s" "other_keys n ?s = other_keys n s" for n using ok by simp_all
  obtain ys s1 where s1: "act_each conform_remove removed ?s = (Inr ys, s1)" "svc_ok s1" "\<forall>n. other_keys n s1 = other_keys n s"
    using conform_removes_quiet [OF ok0(1), of removed] rs ok0(2) by auto
  let ?s2 = "fold configure_add added s1"
  have s2: "svc_ok ?s2" by (rule ok_added [OF s1(2)])
  have ms2: "list_all (\<lambda>c. set (other_keys (cs_name c) ?s2) = set (cs_routes c)) modified"
    using ms other_keys_added [OF names] s1(3) by (simp add: list_all_iff)
  have conform: "conform ?current wanted s = act_then (act_each conform_modify modified) (act_ret ()) ?s2"
    using s1(1) by (simp add: conform_def change act_then_def act_bind_def act_upd_def)
  have "svc_ok (snd (conform ?current wanted s))"
    unfolding conform using conform_modifies_quiet [OF s2 ms2]
    by (cases "act_each conform_modify modified ?s2" rule: act_cases) (simp_all add: act_then_def act_bind_def act_ret_def)
  moreover have "act_keeps svc_ok (act_upd (eventually_send w h (Config_update_reply corr)))" by (rule linked.keeps_sends(5))
  ultimately show ?thesis
    unfolding configuration_update_def act_keeps_def
    by (cases "conform ?current wanted s" rule: act_cases) (simp_all add: act_then_def act_bind_def act_get_def)
qed

lemma event_quiet: "svc_ok s \<Longrightarrow> event_keeps_routes e s \<Longrightarrow> svc_ok (svc_event_step e s)"
  using svc.dispatch_invariant configuration_update_quiet by (cases e) auto

lemma run_quiet: "svc_ok s \<Longrightarrow> run_keeps_routes es s \<Longrightarrow> svc_ok (fold svc_event_step es s)"
  by (induction es arbitrary: s) (simp_all add: event_quiet)

end
