(* ===== verification/SvcProperties.thy ===== *)
theory SvcProperties
  imports SvcReconfigure "HOL-Library.Multiset"
begin

text \<open>
  The properties of the service manager: the invariant of any run, what a lookup is answered
  with, reservations, deadlines, timeouts, acknowledgements and metrics; and scenarios that
  show where an update of the configuration breaks what the messages keep.
\<close>

section \<open>A small domain\<close>

definition demo_world :: "int \<Rightarrow> world" where
  "demo_world now = \<lparr>w_reach = \<lambda>_. True, w_room = \<lambda>_. True, w_now = now, w_discovery = True,
     w_self = \<lparr>hpid = 1, hipc = 10\<rparr>, w_match = \<lambda>_ _. True, w_stale = 0\<rparr>"

definition demo_handle :: "int \<Rightarrow> handle" where
  "demo_handle pid = \<lparr>hpid = pid, hipc = nat pid + 100\<rparr>"

definition demo_model :: "conf_service list \<Rightarrow> svc_model" where
  "demo_model cs = \<lparr>mo_timeout = no_timeout, mo_services = cs, mo_restrictions = []\<rparr>"

definition demo_service :: "string \<Rightarrow> string list \<Rightarrow> int \<Rightarrow> conf_service" where
  "demo_service name routes d =
     \<lparr>cs_name = name, cs_routes = routes, cs_timeout = \<lparr>to_duration = Some d, to_contract = Linger\<rparr>\<rparr>"

definition demo_advertise :: "int \<Rightarrow> string \<Rightarrow> svc_message" where
  "demo_advertise pid name = Advertise \<lparr>ad_process = demo_handle pid, ad_alias = [],
     ad_add = [\<lparr>if_name = name, if_category = [], if_transaction = Tran_automatic\<rparr>], ad_remove = []\<rparr>"

definition demo_request :: "int \<Rightarrow> nat \<Rightarrow> string \<Rightarrow> lookup_context \<Rightarrow> lookup_request" where
  "demo_request pid corr name ctx = \<lparr>lq_process = demo_handle pid, lq_corr = corr, lq_requested = name,
     lq_context = ctx, lq_deadline = None\<rparr>"

definition demo_metric :: "int \<Rightarrow> nat \<Rightarrow> string \<Rightarrow> call_metric" where
  "demo_metric pid corr name = \<lparr>cm_service = name, cm_process = demo_handle pid, cm_corr = corr,
     cm_start = 0, cm_end = 1, cm_pending = 0\<rparr>"

definition demo_start :: "conf_service list \<Rightarrow> svc" where
  "demo_start cs = svc_start (demo_world 0) (demo_model cs) (demo_handle 2) []"

definition demo_run :: "conf_service list \<Rightarrow> svc_message list \<Rightarrow> svc" where
  "demo_run cs ms = fold (\<lambda>m. svc_step (demo_world 0, m)) ms (demo_start cs)"

lemmas demo_defs = demo_world_def demo_handle_def demo_model_def demo_service_def demo_advertise_def
  demo_request_def demo_metric_def demo_start_def

lemma demo_ok: "svc_ok (demo_run cs ms)"
proof -
  have "svc_ok (demo_start cs)" unfolding demo_start_def
    by (rule ok_start) (simp add: demo_world_def handle_valid_def)
  then show ?thesis unfolding demo_run_def by (rule fold_keeps) (rule svc.dispatch_invariant)
qed

section \<open>The invariant\<close>

text \<open>
  C6. After any sequence of messages and of configuration updates that leave routes alone (such an
  update may add services with or without routes, take services without routes away, and change
  timeouts and restrictions) the service manager's state is well formed: unique keys, instances
  under their own valid process, deadlines in order; an instance is listed by a service exactly when
  it exposes it, and every reservation, deadline and prepared shutdown refers to a service that
  exists. (An update that gives an existing service a route breaks this, \<open>new_route_dangles\<close>.)
\<close>

theorem svc_invariant_run:
  assumes "handle_valid (w_self w)" and "run_keeps_routes es (svc_start w model forward own)"
  shows "svc_ok (fold svc_event_step es (svc_start w model forward own))"
  by (rule run_quiet [OF ok_start [OF assms(1)] assms(2)])

definition demo_events :: "svc_event list" where
  "demo_events = [Turn (demo_world 0) (demo_advertise 5 ''a''),
     Reconfigure (demo_world 0) (demo_handle 3) 7 (demo_model [demo_service ''a'' [] 4, demo_service ''b'' [''c''] 5]),
     Turn (demo_world 0) (Process_exit 5)]"

theorem svc_invariant_run_witness:
  "run_keeps_routes demo_events (demo_start [demo_service ''a'' [] 5]) \<and> svc_ok (fold svc_event_step demo_events (demo_start [demo_service ''a'' [] 5]))"
proof
  show run: "run_keeps_routes demo_events (demo_start [demo_service ''a'' [] 5])" by code_simp
  have "handle_valid (w_self (demo_world 0))" by (simp add: demo_world_def handle_valid_def)
  then show "svc_ok (fold svc_event_step demo_events (demo_start [demo_service ''a'' [] 5]))"
    using run unfolding demo_start_def by (rule svc_invariant_run)
qed

section \<open>Lookup\<close>

text \<open>The answers to a lookup among the messages sent; busy is an intermediate answer.\<close>

definition final_replies :: "lookup_request \<Rightarrow> (svc_dest \<times> svc_msg) list \<Rightarrow> (svc_dest \<times> svc_msg) list" where
  "final_replies m out = filter (\<lambda>(d, x). d = Ipc (hipc (lq_process m))
     \<and> (case x of Lookup_reply r \<Rightarrow> lp_corr r = lq_corr m \<and> lp_state r \<noteq> Busy | _ \<Rightarrow> False)) out"

lemma final_replies_simps [simp]:
  "final_replies m [] = []" "final_replies m (xs @ ys) = final_replies m xs @ final_replies m ys"
  "final_replies m [(d, Discovery_request ns c)] = []" "final_replies m [(d, Set_timer t)] = []"
  "final_replies m [(Ipc (hipc (lq_process m)), absent_reply m)] = [(Ipc (hipc (lq_process m)), absent_reply m)]"
  "final_replies m [(Ipc (hipc (lq_process m)), idle_reply m v h p t)] = [(Ipc (hipc (lq_process m)), idle_reply m v h p t)]"
  "final_replies m [(Ipc (hipc (lq_process m)), plain_reply m v Idle h)] = [(Ipc (hipc (lq_process m)), plain_reply m v Idle h)]"
  "final_replies m [(Ipc (hipc (lq_process m)), plain_reply m v Busy h)] = []"
  by (simp_all add: final_replies_def absent_reply_def idle_reply_def plain_reply_def)

text \<open>The outcome: the lookup waits, or its caller has one final answer if it can be reached.\<close>

definition lookup_outcome :: "world \<Rightarrow> lookup_request \<Rightarrow> svc \<Rightarrow> (fault + unit) \<times> svc \<Rightarrow> bool" where
  "lookup_outcome w m s r \<longleftrightarrow> fst r = Inr () \<and>
     (\<exists>out. ss_outbox (snd r) = ss_outbox s @ out
        \<and> (ss_lookups (snd r) = ss_lookups s @ [\<lparr>pl_request = m, pl_when = w_now w\<rparr>] \<and> final_replies m out = []
           \<or> ss_lookups (snd r) = ss_lookups s
             \<and> length (final_replies m out) = (if w_reach w (hipc (lq_process m)) then 1 else 0)))"

lemma lookup_outcomeI:
  "fst r = Inr () \<Longrightarrow> ss_outbox (snd r) = ss_outbox s @ out \<Longrightarrow>
   ss_lookups (snd r) = ss_lookups s @ [\<lparr>pl_request = m, pl_when = w_now w\<rparr>] \<and> final_replies m out = []
     \<or> ss_lookups (snd r) = ss_lookups s \<and> length (final_replies m out) = (if w_reach w (hipc (lq_process m)) then 1 else 0) \<Longrightarrow>
   lookup_outcome w m s r"
  unfolding lookup_outcome_def by blast

lemmas send_defs = svc_optional_send_def svc_post_def push_pending_def discovery_send_def

lemma discover_outcome: "lookup_outcome w m s (discover w m name s)"
proof -
  let ?out = "(if w_discovery w then [(Discovery, Discovery_request [name] (Some (lq_corr m)))] else []) @
     (if w_discovery w \<or> lq_context m = Wait then []
      else if w_reach w (hipc (lq_process m)) then [(Ipc (hipc (lq_process m)), absent_reply m)] else [])"
  show ?thesis
    by (rule lookup_outcomeI [where out = ?out])
      (auto simp: discover_def send_defs act_defs split: if_splits)
qed

lemma busy_outcome: "lookup_outcome w m s (busy_lookup w m v s)"
proof -
  let ?d = "Ipc (hipc (lq_process m))"
  let ?out = "if \<not> w_reach w (hipc (lq_process m)) then [] else
     (case lq_context m of Forward \<Rightarrow> [(?d, plain_reply m v Idle (ss_forward s))]
      | Regular \<Rightarrow> [(?d, plain_reply m v Busy null_handle)] | _ \<Rightarrow> [])"
  show ?thesis
    by (rule lookup_outcomeI [where out = ?out])
      (auto simp: busy_lookup_def send_defs act_defs split: lookup_context.split)
qed

lemma reply_reserved_state:
  "reply_reserved w m pending v h s =
     (let d = (case to_duration (sv_timeout v) of None \<Rightarrow> 0 | Some d \<Rightarrow> d);
          e = \<lparr>dl_when = w_now w + d, dl_corr = lq_corr m, dl_target = hpid h, dl_service = lq_requested m\<rparr>;
          timeout = (if sv_timeoutable v then d else (case lq_deadline m of None \<Rightarrow> 0 | Some t \<Rightarrow> t - w_now w));
          ds = (if sv_timeoutable v then deadline_insert e (ss_deadlines s) else ss_deadlines s);
          timer = (if sv_timeoutable v then (case fst (deadline_add e (ss_deadlines s)) of None \<Rightarrow> []
                     | Some t \<Rightarrow> [(Self, Set_timer t)]) else []);
          reply = (if w_reach w (hipc (lq_process m)) then [(Ipc (hipc (lq_process m)), idle_reply m v h pending timeout)] else [])
      in (Inr (), s\<lparr>ss_deadlines := ds, ss_outbox := ss_outbox s @ timer @ reply\<rparr>))"
  by (auto simp: reply_reserved_def add_deadline_def act_state_def send_defs act_defs Let_def deadline_add_def)

lemma reply_reserved_result:
  "\<exists>s' timeout. reply_reserved w m pending v h s = (Inr (), s') \<and> ss_sequential s' = ss_sequential s
     \<and> ss_lookups s' = ss_lookups s
     \<and> (if w_reach w (hipc (lq_process m))
        then last (ss_outbox s') = (Ipc (hipc (lq_process m)), idle_reply m v h pending timeout) else True)"
  unfolding reply_reserved_state Let_def by auto

lemma service_reserve_rest: "same_rest s (snd (service_reserve key h c s))"
  by (auto simp: service_reserve_def split: option.split)

lemma service_reserve_fields [simp]:
  "ss_outbox (snd (service_reserve key h c s)) = ss_outbox s" "ss_lookups (snd (service_reserve key h c s)) = ss_lookups s"
  "ss_deadlines (snd (service_reserve key h c s)) = ss_deadlines s" "ss_forward (snd (service_reserve key h c s)) = ss_forward s"
  using same_rest_fields [OF service_reserve_rest] by blast+

lemma lookup_outcome_frame:
  "lookup_outcome w m s' r \<Longrightarrow> ss_outbox s' = ss_outbox s \<Longrightarrow> ss_lookups s' = ss_lookups s \<Longrightarrow> lookup_outcome w m s r"
  by (simp add: lookup_outcome_def)

lemma use_reservation_outcome: "lookup_outcome w m s (use_reservation w m pending v h s)"
proof (cases "handle_valid h")
  case True
  have "final_replies m (case x of None \<Rightarrow> [] | Some t \<Rightarrow> [(Self, Set_timer t)]) = []" for x by (cases x) simp_all
  then have "lookup_outcome w m s (reply_reserved w m pending v h s)"
    unfolding reply_reserved_state Let_def
    by (intro lookup_outcomeI) (simp, simp, auto)
  then show ?thesis using True by (simp add: use_reservation_def)
next
  case False
  then show ?thesis by (simp add: use_reservation_def discover_outcome busy_outcome)
qed

lemma svc_lookup_outcome: "lookup_outcome w m s (svc_lookup w m pending s)"
proof (cases "find_service (lq_requested m) s")
  case None
  then show ?thesis by (simp add: svc_lookup_def act_defs discover_outcome)
next
  case (Some v)
  let ?r = "service_reserve (lq_requested m) (lq_process m) (lq_corr m) s"
  have "lookup_outcome w m s (use_reservation w m pending v (fst ?r) (snd ?r))"
    by (rule lookup_outcome_frame [OF use_reservation_outcome]) simp_all
  then show ?thesis using Some by (simp add: svc_lookup_def act_defs act_state_def case_prod_unfold)
qed

text \<open>
  C9. No lookup is lost and none is answered twice: handling a lookup never fails; either it is
  queued behind the others and has no final answer yet, or the queue is unchanged and the
  caller, if it can be reached, is sent exactly one final answer with its correlation.
\<close>

theorem svc_lookup_answers: "lookup_outcome w m s (svc_lookup w m pending s)"
  by (rule svc_lookup_outcome)

section \<open>Reservations\<close>

lemma find_idle_Some:
  assumes "List.find (idle_instance s) pids = Some pid"
  obtains i where "map_of (ss_sequential s) pid = Some i" "si_idle i" "pid \<in> set pids"
  using find_Some_in [OF assms] by (auto simp: idle_instance_def split: option.splits)

lemma typed_instance_handle:
  assumes "svc_typed s" and "map_of (ss_sequential s) pid = Some i"
  shows "hpid (si_process i) = pid" "handle_valid (si_process i)" "si_idle i \<Longrightarrow> si_caller i = no_caller"
proof -
  have "(pid, si_process i, si_service i, si_caller i) \<in> set (seq_view s)"
    using map_of_SomeD [OF assms(2)] by (force simp: seq_view_def)
  then show "hpid (si_process i) = pid" "handle_valid (si_process i)" "si_idle i \<Longrightarrow> si_caller i = no_caller"
    using assms(1) by (auto simp: svc_typed_def typed_fields_def list_all_iff si_idle_def)
qed

lemma map_of_upd_sequential:
  "map_of (ss_sequential s) pid = Some i \<Longrightarrow> map_of (ss_sequential (upd_sequential pid g s)) = (map_of (ss_sequential s))(pid \<mapsto> g i)"
  by (auto simp: upd_sequential_def fun_eq_iff)

text \<open>No handler but the reservation touches the instances here.\<close>

lemma ss_sequential_sends [simp]:
  "ss_sequential (snd (discover w m name s)) = ss_sequential s" "ss_sequential (snd (busy_lookup w m v s)) = ss_sequential s"
  "fst (discover w m name s) = Inr ()" "fst (busy_lookup w m v s) = Inr ()"
  by (auto simp: discover_def busy_lookup_def send_defs act_defs split: lookup_context.split)

lemma idle_lookup:
  assumes ok: "svc_ok s" and idle: "List.find (idle_instance s) (members s (lq_requested m)) = Some pid"
  shows "\<exists>i v. map_of (ss_sequential s) pid = Some i \<and> si_idle i \<and> lq_requested m \<in> set (si_services i)
     \<and> find_service (lq_requested m) s = Some v
     \<and> svc_lookup w m pending s = reply_reserved w m pending v (si_process i)
         (upd_sequential pid (si_reserve (lq_requested m) (lq_process m) (lq_corr m)) s)"
proof -
  obtain i where i: "map_of (ss_sequential s) pid = Some i" "si_idle i" "pid \<in> set (members s (lq_requested m))"
    by (rule find_idle_Some [OF idle])
  obtain v where v: "find_service (lq_requested m) s = Some v" using i(3) members_unknown [of "lq_requested m" s] by fastforce
  have "lq_requested m \<in> set (si_services i)" using ok i(1,3) by (auto simp: svc_ok_def svc_linked_def exposed_def)
  moreover have "handle_valid (si_process i)" using ok typed_instance_handle [OF _ i(1)] by (simp add: svc_ok_def)
  moreover have "service_reserve (lq_requested m) (lq_process m) (lq_corr m) s
      = (si_process i, upd_sequential pid (si_reserve (lq_requested m) (lq_process m) (lq_corr m)) s)"
    using idle i v by (simp add: service_reserve_def members_find [OF v])
  ultimately show ?thesis using i v by (auto simp: svc_lookup_def act_defs act_state_def use_reservation_def)
qed

text \<open>
  C10. An instance is handed out once: a lookup of a service with an idle local instance reserves
  the first idle one, which exposes the service, for this caller and this correlation, leaves
  every other instance alone, answers with that instance, and, if the service has a timeout,
  enters the deadline for it; a lookup without an idle local instance reserves none.
\<close>

theorem svc_lookup_reserves:
  assumes "svc_ok s"
  shows "case List.find (idle_instance s) (members s (lq_requested m)) of
      None \<Rightarrow> ss_sequential (snd (svc_lookup w m pending s)) = ss_sequential s
    | Some pid \<Rightarrow> (\<exists>i v s' timeout. map_of (ss_sequential s) pid = Some i \<and> si_idle i
        \<and> lq_requested m \<in> set (si_services i) \<and> find_service (lq_requested m) s = Some v
        \<and> svc_lookup w m pending s = (Inr (), s')
        \<and> map_of (ss_sequential s') = (map_of (ss_sequential s))(pid \<mapsto> si_reserve (lq_requested m) (lq_process m) (lq_corr m) i)
        \<and> (if w_reach w (hipc (lq_process m))
           then last (ss_outbox s') = (Ipc (hipc (lq_process m)), idle_reply m v (si_process i) pending timeout)
           else True)
        \<and> (if sv_timeoutable v
           then \<lparr>dl_when = w_now w + timeout, dl_corr = lq_corr m, dl_target = pid, dl_service = lq_requested m\<rparr> \<in> set (ss_deadlines s')
           else ss_deadlines s' = ss_deadlines s))"
proof (cases "List.find (idle_instance s) (members s (lq_requested m))")
  case None
  have "ss_sequential (snd (svc_lookup w m pending s)) = ss_sequential s"
  proof (cases "find_service (lq_requested m) s")
    case (Some v)
    let ?r = "service_reserve (lq_requested m) (lq_process m) (lq_corr m) s"
    have r: "ss_sequential (snd ?r) = ss_sequential s"
      using None Some by (auto simp: service_reserve_def members_find [OF Some])
    have "ss_sequential (snd (use_reservation w m pending v (fst ?r) (snd ?r))) = ss_sequential (snd ?r)"
      by (simp add: use_reservation_def reply_reserved_state Let_def)
    then show ?thesis using Some r by (simp add: svc_lookup_def act_defs act_state_def case_prod_unfold)
  qed (simp add: svc_lookup_def act_defs)
  then show ?thesis using None by simp
next
  case (Some pid)
  obtain i v where i: "map_of (ss_sequential s) pid = Some i" "si_idle i" "lq_requested m \<in> set (si_services i)"
    "find_service (lq_requested m) s = Some v"
    and r: "svc_lookup w m pending s = reply_reserved w m pending v (si_process i)
         (upd_sequential pid (si_reserve (lq_requested m) (lq_process m) (lq_corr m)) s)"
    using idle_lookup [OF assms Some] by blast
  have h: "hpid (si_process i) = pid" using assms typed_instance_handle(1) [OF _ i(1)] by (simp add: svc_ok_def)
  have f: "ss_deadlines (upd_sequential pid g s) = ss_deadlines s" for g by (simp add: upd_sequential_def)
  show ?thesis unfolding Some option.case r reply_reserved_state Let_def
    using i map_of_upd_sequential [OF i(1), of "si_reserve (lq_requested m) (lq_process m) (lq_corr m)"]
    by (intro exI [of _ i] exI [of _ v]) (auto simp: f h)
qed

theorem svc_lookup_reserves_witness:
  "\<exists>i. map_of (ss_sequential (snd (svc_lookup (demo_world 0) (demo_request 20 1 ''a'' Regular) 0
     (demo_run [] [demo_advertise 5 ''a''])))) 5 = Some i \<and> si_service i = Some ''a''"
proof -
  have "List.find (idle_instance (demo_run [] [demo_advertise 5 ''a''])) (members (demo_run [] [demo_advertise 5 ''a'']) ''a'') = Some 5"
    unfolding demo_run_def demo_defs by code_simp
  then show ?thesis
    using svc_lookup_reserves [OF demo_ok [of "[]" "[demo_advertise 5 ''a'']"], where m = "demo_request 20 1 ''a'' Regular"
        and w = "demo_world 0" and pending = 0]
    by (auto simp: demo_request_def si_reserve_def)
qed

section \<open>Deadlines\<close>

lemma deadline_insert_filter:
  "sorted (map dl_when ds) \<Longrightarrow> filter (\<lambda>d. dl_when d = k) (deadline_insert e ds)
     = filter (\<lambda>d. dl_when d = k) ds @ (if dl_when e = k then [e] else [])"
proof (induction ds)
  case (Cons d ds)
  show ?case
  proof (cases "dl_when e < dl_when d")
    case True
    then have "filter (\<lambda>x. dl_when x = dl_when e) (d # ds) = []" using Cons.prems by (auto simp: filter_empty_conv)
    then show ?thesis using True by (cases "dl_when e = k") auto
  next
    case False
    then show ?thesis using Cons by simp
  qed
qed simp

lemma mset_deadline_insert [simp]: "mset (deadline_insert e ds) = add_mset e (mset ds)"
  by (induction ds) auto

lemma deadlines_stable:
  "sorted (map dl_when ds) \<Longrightarrow>
     sorted (map dl_when (fold deadline_insert es ds)) \<and> mset (fold deadline_insert es ds) = mset ds + mset es
     \<and> filter (\<lambda>d. dl_when d = k) (fold deadline_insert es ds) = filter (\<lambda>d. dl_when d = k) ds @ filter (\<lambda>d. dl_when d = k) es"
  by (induction es arbitrary: ds) (simp_all add: sorted_deadline_insert deadline_insert_filter)

lemma fold_deadline_insert: "fold deadline_insert es [] = sort_key dl_when es"
proof (rule sym, rule properties_for_sort_key)
  show "mset (fold deadline_insert es []) = mset es" using deadlines_stable [of "[]"] by simp
  show "sorted (map dl_when (fold deadline_insert es []))" using deadlines_stable [of "[]"] by simp
  show "filter (\<lambda>x. dl_when k = dl_when x) (fold deadline_insert es []) = filter (\<lambda>x. dl_when k = dl_when x) es" for k
    using deadlines_stable [of "[]" es "dl_when k"] by (simp add: eq_commute)
qed

lemma sorted_split_while:
  "sorted (map dl_when ds) \<Longrightarrow> takeWhile (\<lambda>d. dl_when d < now) ds = filter (\<lambda>d. dl_when d < now) ds
     \<and> dropWhile (\<lambda>d. dl_when d < now) ds = filter (\<lambda>d. now \<le> dl_when d) ds"
proof (induction ds)
  case (Cons d ds)
  show ?case
  proof (cases "dl_when d < now")
    case False
    then have all: "\<forall>x\<in>set ds. now \<le> dl_when x" using Cons.prems by auto
    then have "filter (\<lambda>x. dl_when x < now) ds = []" "filter (\<lambda>x. now \<le> dl_when x) ds = ds"
      by (auto simp: filter_empty_conv)
    then show ?thesis using False by simp
  qed (use Cons in auto)
qed simp

text \<open>
  C29. The ordered insertion of deadlines is the stable sort by time of all entries, in the order
  they were made; cutting the queue at the first entry that is not due is selecting the due
  entries, and the next time for the timer is the least of what is left.
\<close>

theorem deadlines_as_sorted:
  "fold (\<lambda>e ds. snd (deadline_add e ds)) es [] = sort_key dl_when es
   \<and> deadline_expired now (sort_key dl_when es)
     = (filter (\<lambda>d. dl_when d < now) (sort_key dl_when es),
        (if filter (\<lambda>d. now \<le> dl_when d) es = [] then None
         else Some (Min (dl_when ` set (filter (\<lambda>d. now \<le> dl_when d) es)))),
        filter (\<lambda>d. now \<le> dl_when d) (sort_key dl_when es))"
proof
  show "fold (\<lambda>e ds. snd (deadline_add e ds)) es [] = sort_key dl_when es"
    by (simp add: deadline_add_def fold_deadline_insert)
  let ?rest = "filter (\<lambda>d. now \<le> dl_when d) (sort_key dl_when es)"
  have s: "set ?rest = set (filter (\<lambda>d. now \<le> dl_when d) es)" by simp
  have "(case ?rest of [] \<Rightarrow> None | d # _ \<Rightarrow> Some (dl_when d))
      = (if filter (\<lambda>d. now \<le> dl_when d) es = [] then None else Some (Min (dl_when ` set (filter (\<lambda>d. now \<le> dl_when d) es))))"
  proof (cases ?rest)
    case Nil
    then show ?thesis using s by (metis (no_types, lifting) list.simps(4) set_empty)
  next
    case (Cons d ds)
    have "sorted (map dl_when ?rest)" by (rule sorted_filter) simp
    then have "Min (dl_when ` set ?rest) = dl_when d" unfolding Cons by (auto intro!: Min_eqI)
    moreover have "filter (\<lambda>d. now \<le> dl_when d) es \<noteq> []" using s Cons by (metis list.simps(3) set_empty)
    ultimately show ?thesis unfolding s using Cons by simp
  qed
  then show "deadline_expired now (sort_key dl_when es) = (filter (\<lambda>d. dl_when d < now) (sort_key dl_when es),
        (if filter (\<lambda>d. now \<le> dl_when d) es = [] then None
         else Some (Min (dl_when ` set (filter (\<lambda>d. now \<le> dl_when d) es)))), ?rest)"
    using sorted_split_while [of "sort_key dl_when es" now] by (simp add: deadline_expired_def Let_def)
qed

section \<open>Metrics\<close>

lemma Min_positive: "list_all (\<lambda>d. 0 < d) ds \<Longrightarrow> ds \<noteq> [] \<Longrightarrow> Min (set ds) \<noteq> (0::int)"
proof -
  assume "list_all (\<lambda>d. 0 < d) ds" "ds \<noteq> []"
  moreover from this have "Min (set ds) \<in> set ds" by simp
  ultimately have "0 < Min (set ds)" unfolding list_all_iff by blast
  then show ?thesis by (rule less_imp_neq [symmetric])
qed

lemma metric_fold:
  assumes "list_all (\<lambda>d. 0 < d) ds" and "ds \<noteq> []"
  shows "m_count (fold metric_add ds metric_zero) = int (length ds) \<and> m_total (fold metric_add ds metric_zero) = sum_list ds
     \<and> m_min (fold metric_add ds metric_zero) = Min (set ds) \<and> m_max (fold metric_add ds metric_zero) = Max (set ds)"
  using assms
proof (induction ds rule: rev_induct)
  case (snoc d ds)
  show ?case
  proof (cases "ds = []")
    case True
    then show ?thesis using snoc.prems by (simp add: metric_add_def metric_zero_def metric_min_def)
  next
    case False
    have pos: "Min (set ds) \<noteq> 0" using snoc.prems False by (intro Min_positive) simp_all
    show ?thesis using snoc False pos
      by (simp add: metric_add_def metric_min_def min.commute max.commute)
  qed
qed simp

lemma sum_list_bounds:
  fixes ds :: "int list"
  shows "(\<forall>d\<in>set ds. a \<le> d \<and> d \<le> b) \<Longrightarrow> int (length ds) * a \<le> sum_list ds \<and> sum_list ds \<le> int (length ds) * b"
  by (induction ds) (auto simp: algebra_simps)

text \<open>
  C34. The metric of a sequence of positive durations is their number, sum, minimum and maximum,
  the sum lies between the number of durations times the minimum and times the maximum, and
  joining the metrics of two such sequences is the metric of both.
\<close>

theorem metric_of_durations:
  assumes "ds \<noteq> []" and "es \<noteq> []" and "list_all (\<lambda>d. 0 < d) (ds @ es)"
  shows "fold metric_add ds metric_zero
        = \<lparr>m_count = int (length ds), m_total = sum_list ds, m_min = Min (set ds), m_max = Max (set ds)\<rparr>
     \<and> m_count (fold metric_add ds metric_zero) * m_min (fold metric_add ds metric_zero) \<le> m_total (fold metric_add ds metric_zero)
     \<and> m_total (fold metric_add ds metric_zero) \<le> m_count (fold metric_add ds metric_zero) * m_max (fold metric_add ds metric_zero)
     \<and> metric_join (fold metric_add ds metric_zero) (fold metric_add es metric_zero) = fold metric_add (ds @ es) metric_zero"
proof -
  have m: "fold metric_add xs metric_zero = \<lparr>m_count = int (length xs), m_total = sum_list xs, m_min = Min (set xs), m_max = Max (set xs)\<rparr>"
    if "xs \<noteq> []" "list_all (\<lambda>d. 0 < d) xs" for xs
    using metric_fold [OF that(2,1)] by (cases "fold metric_add xs metric_zero") simp
  have pos: "list_all (\<lambda>d. 0 < d) ds" "list_all (\<lambda>d. 0 < d) es" using assms(3) by simp_all
  have "Min (set ds) \<noteq> 0" using assms(1) pos(1) by (rule Min_positive [rotated])
  then have j: "metric_join (fold metric_add ds metric_zero) (fold metric_add es metric_zero) = fold metric_add (ds @ es) metric_zero"
    using assms pos by (simp only: m append_is_Nil_conv not_False_eq_True simp_thms)
      (simp add: metric_join_def metric_min_def Min_Un Max_Un)
  show ?thesis
    using m [OF assms(1) pos(1)] j sum_list_bounds [of ds "Min (set ds)" "Max (set ds)"] by simp
qed

theorem metric_of_durations_witness:
  "fold metric_add [3, 5] metric_zero = \<lparr>m_count = 2, m_total = 8, m_min = 3, m_max = 5\<rparr>"
  using metric_of_durations [of "[3, 5]" "[7]"] by simp

text \<open>Joining with an empty metric loses the minimum.\<close>

lemma metric_join_empty_loses_minimum:
  "m_min (metric_join (fold metric_add [3, 5] metric_zero) metric_zero) = 0
   \<and> m_min (metric_join metric_zero (fold metric_add [3, 5] metric_zero)) = 3"
  by (simp add: metric_join_def metric_add_def metric_zero_def metric_min_def)

section \<open>Timeouts\<close>

lemma consume_unique:
  assumes "map_of (ss_sequential s) pid = Some i" and "caller_valid (si_caller i)"
    and "\<And>p j. map_of (ss_sequential s) p = Some j \<Longrightarrow> ca_corr (si_caller j) = ca_corr (si_caller i) \<Longrightarrow> p = pid"
  shows "pid \<in> set pids \<Longrightarrow> consume (ca_corr (si_caller i)) pids s
     = (Some (si_caller i), upd_sequential pid (\<lambda>i. i\<lparr>si_caller := no_caller\<rparr>) s)"
proof (induction pids)
  case (Cons p pids)
  show ?case
  proof (cases "p = pid")
    case True
    then show ?thesis using assms(1,2) by simp
  next
    case False
    have "ca_corr (si_caller j) \<noteq> ca_corr (si_caller i)" if "map_of (ss_sequential s) p = Some j" for j
      using assms(3) [OF that] False by blast
    then show ?thesis using Cons False by (auto split: option.split)
  qed
qed simp

lemma svc_remove_outbox [simp]: "ss_outbox (svc_remove pid s) = ss_outbox s"
proof -
  have f: "ss_outbox (fold (service_remove pid) ks s) = ss_outbox s" for ks s
    using same_rest_fields [OF fold_remove_rest] by blast
  show ?thesis by (simp add: svc_remove_def remove_concurrent_def remove_sequential_def Let_def f)
qed

definition error_count :: "nat \<Rightarrow> (svc_dest \<times> svc_msg) list \<Rightarrow> nat" where
  "error_count corr out = length (filter (\<lambda>(_, m). case m of Error_reply c _ \<Rightarrow> c = corr | _ \<Rightarrow> False) out)"

lemma error_reply_outbox:
  "ss_outbox (error_reply w c code s) = ss_outbox s @ (if w_reach w (hipc (ca_process c))
     then [((if w_room w (hipc (ca_process c)) then Ipc (hipc (ca_process c)) else Pending_send (ca_process c)),
            Error_reply (ca_corr c) code)] else [])"
  by (simp add: error_reply_def eventually_send_def svc_post_def)

lemma error_reply_rest [simp]:
  "ss_sequential (error_reply w c code s) = ss_sequential s" "ss_shutdown (error_reply w c code s) = ss_shutdown s"
  by (simp_all add: error_reply_def eventually_send_def svc_post_def)

lemma fan_failed_Nil [simp]: "fan_failed i [] = ([], [])"
  by (simp add: fan_failed_def map_filter_simps)

text \<open>Nobody is told when an instance without a caller exits.\<close>

lemma silent_exit:
  assumes i: "map_of (ss_sequential s) pid = Some i" and c: "\<not> caller_valid (si_caller i)" and "ss_shutdown s = []"
  shows "ss_outbox (handle_exit w pid s) = ss_outbox s"
proof -
  have "(case map_of (ss_sequential s) pid of None \<Rightarrow> s
      | Some i \<Rightarrow> if \<not> si_idle i \<and> caller_valid (si_caller i) then error_reply w (si_caller i) Service_error s else s) = s"
    using i c by simp
  then show ?thesis unfolding handle_exit_def by (simp only: Let_def assms(3) fan_failed_Nil) simp
qed

text \<open>
  C27. A caller whose call times out gets one error reply, whatever follows: when the deadline of
  a reserved instance expires, its caller is sent the timeout, the domain manager is told to
  act on the instance by the service's contract, the instance stays reserved without a caller,
  and if its process then exits, no second reply is sent for the call.
\<close>

theorem timeout_exit_one_reply:
  assumes "svc_ok s" and i: "map_of (ss_sequential s) pid = Some i" "caller_valid (si_caller i)"
    and unique: "\<forall>p j. map_of (ss_sequential s) p = Some j \<and> ca_corr (si_caller j) = ca_corr (si_caller i) \<longrightarrow> p = pid"
    and due: "fst (deadline_expired (w_now w) (ss_deadlines s)) = [e]" "dl_corr e = ca_corr (si_caller i)"
    and e: "dl_service e \<in> set (exposed s pid)" and "ss_shutdown s = []"
  shows "\<exists>s' v timer. handle_timeout w s = (Inr (), s') \<and> find_service (dl_service e) s = Some v
     \<and> map_of (ss_sequential s') pid = Some (i\<lparr>si_caller := no_caller\<rparr>)
     \<and> ss_outbox s' = ss_outbox (error_reply w (si_caller i) Timeout_error s)
          @ (Events, Assassination (dl_target e) (to_contract (sv_timeout v))) # timer
     \<and> ss_outbox (handle_exit w' pid s') = ss_outbox s'
     \<and> error_count (ca_corr (si_caller i)) (drop (length (ss_outbox s)) (ss_outbox (handle_exit w' pid s')))
         = (if w_reach w (hipc (ca_process (si_caller i))) then 1 else 0)"
proof -
  obtain d rest where x: "deadline_expired (w_now w) (ss_deadlines s) = ([e], d, rest)"
    using due(1) by (metis prod.collapse)
  have "pid \<in> set (members s (dl_service e))" using assms(1) e by (simp add: svc_ok_def svc_linked_def)
  then obtain v where v: "find_service (dl_service e) s = Some v" and pid: "pid \<in> set (sv_sequential v)"
    using members_unknown [of "dl_service e" s] by (cases "find_service (dl_service e) s") (auto simp: members_find)
  let ?s1 = "s\<lparr>ss_deadlines := rest\<rparr>"
  let ?s2 = "upd_sequential pid (\<lambda>i. i\<lparr>si_caller := no_caller\<rparr>) ?s1"
  let ?timer = "case d of None \<Rightarrow> [] | Some t \<Rightarrow> [(Self, Set_timer t)]"
  have v1: "find_service (dl_service e) ?s1 = Some v" using v by (simp add: find_service_def)
  have c: "consume (dl_corr e) (sv_sequential v) ?s1 = (Some (si_caller i), ?s2)"
    unfolding due(2)
  proof (rule consume_unique [OF _ i(2) _ pid])
    show "map_of (ss_sequential ?s1) pid = Some i" using i(1) by simp
    show "map_of (ss_sequential ?s1) p = Some j \<Longrightarrow> ca_corr (si_caller j) = ca_corr (si_caller i) \<Longrightarrow> p = pid" for p j
      using unique by simp
  qed
  obtain s' where s': "handle_timeout w s = (Inr (), s')"
    and q: "ss_sequential s' = ss_sequential ?s2" "ss_shutdown s' = []"
    and o: "ss_outbox s' = ss_outbox (error_reply w (si_caller i) Timeout_error s)
        @ (Events, Assassination (dl_target e) (to_contract (sv_timeout v))) # ?timer"
    using assms(8) by (cases d)
      (auto simp: handle_timeout_def expire_entry_def act_defs act_state_def x v1 c svc_post_def error_reply_outbox upd_sequential_def)
  have m: "map_of (ss_sequential s') pid = Some (i\<lparr>si_caller := no_caller\<rparr>)" using i q by (simp add: upd_sequential_def)
  have x: "ss_outbox (handle_exit w' pid s') = ss_outbox s'"
    by (rule silent_exit [OF m _ q(2)]) (simp add: caller_valid_def no_caller_def)
  have "error_count (ca_corr (si_caller i)) ?timer = 0" by (cases d) (simp_all add: error_count_def)
  then show ?thesis using s' m o x v
    by (intro exI [of _ s'] exI [of _ v] exI [of _ ?timer]) (auto simp: error_reply_outbox error_count_def)
qed

theorem timeout_exit_one_reply_witness:
  "error_count 1 (drop (length (ss_outbox (demo_run [demo_service ''a'' [] 5]
        [demo_advertise 5 ''a'', Lookup (demo_request 20 1 ''a'' Regular)])))
      (ss_outbox (handle_exit (demo_world 7) 5 (snd (handle_timeout (demo_world 6)
        (demo_run [demo_service ''a'' [] 5] [demo_advertise 5 ''a'', Lookup (demo_request 20 1 ''a'' Regular)])))))) = 1"
proof -
  let ?s = "demo_run [demo_service ''a'' [] 5] [demo_advertise 5 ''a'', Lookup (demo_request 20 1 ''a'' Regular)]"
  let ?i = "\<lparr>si_process = demo_handle 5, si_service = Some ''a'',
      si_caller = \<lparr>ca_process = demo_handle 20, ca_corr = 1\<rparr>, si_services = [''a'']\<rparr>"
  have seq: "ss_sequential ?s = [(1, new_sequential (w_self (demo_world 0))), (5, ?i)]"
    unfolding demo_run_def demo_defs by code_simp
  have dl: "ss_deadlines ?s = [\<lparr>dl_when = 5, dl_corr = 1, dl_target = 5, dl_service = ''a''\<rparr>]"
    unfolding demo_run_def demo_defs by code_simp
  have sd: "ss_shutdown ?s = []" unfolding demo_run_def demo_defs by code_simp
  let ?e = "\<lparr>dl_when = 5, dl_corr = 1, dl_target = 5, dl_service = ''a''\<rparr>"
  have i: "map_of (ss_sequential ?s) 5 = Some ?i" unfolding seq by simp
  have c: "caller_valid (si_caller ?i)" by (simp add: caller_valid_def handle_valid_def demo_handle_def)
  have u: "\<forall>p j. map_of (ss_sequential ?s) p = Some j \<and> ca_corr (si_caller j) = ca_corr (si_caller ?i) \<longrightarrow> p = 5"
    unfolding seq by (auto simp: new_sequential_def no_caller_def split: if_splits)
  have d: "fst (deadline_expired (w_now (demo_world 6)) (ss_deadlines ?s)) = [?e]"
    unfolding dl by (simp add: deadline_expired_def Let_def demo_world_def)
  have e: "dl_corr ?e = ca_corr (si_caller ?i)" "dl_service ?e \<in> set (exposed ?s 5)"
    unfolding exposed_def seq by simp_all
  obtain s' where s': "handle_timeout (demo_world 6) ?s = (Inr (), s')"
    and n: "error_count (ca_corr (si_caller ?i)) (drop (length (ss_outbox ?s)) (ss_outbox (handle_exit (demo_world 7) 5 s')))
         = (if w_reach (demo_world 6) (hipc (ca_process (si_caller ?i))) then 1 else 0)"
    using timeout_exit_one_reply [OF demo_ok i c u d e(1) e(2) sd, where w' = "demo_world 7"] by blast
  have "w_reach (demo_world 6) (hipc (ca_process (si_caller ?i)))" by (simp add: demo_world_def)
  then show ?thesis using n unfolding s' by simp
qed

section \<open>Acknowledgement\<close>

lemma eventually_outbox: "\<exists>out. eventually_send w h x s = s\<lparr>ss_outbox := out\<rparr>"
proof -
  have "s\<lparr>ss_outbox := ss_outbox s\<rparr> = s" by simp
  then show ?thesis unfolding eventually_send_def svc_post_def by metis
qed

lemma metric_add_batch_rest: "\<exists>ms out. metric_add_batch w xs s = s\<lparr>ss_metrics := ms, ss_outbox := out\<rparr>"
proof -
  have f: "\<exists>out. fold (\<lambda>h. eventually_send w h x) hs s = s\<lparr>ss_outbox := out\<rparr>" for x hs s
  proof (induction hs arbitrary: s)
    case Nil
    have "s\<lparr>ss_outbox := ss_outbox s\<rparr> = s" by simp
    then show ?case by (metis fold_simps(1))
  next
    case (Cons h hs)
    obtain out where "eventually_send w h x s = s\<lparr>ss_outbox := out\<rparr>" using eventually_outbox by blast
    then show ?case using Cons [of "s\<lparr>ss_outbox := out\<rparr>"] by simp
  qed
  let ?subs = "filter (\<lambda>h. \<not> no_room w h) (ss_subscribers s) @ filter (no_room w) (ss_subscribers s)"
  obtain out where o: "fold (\<lambda>h. eventually_send w h (Metric_event (ss_metrics s @ xs))) ?subs (s\<lparr>ss_metrics := []\<rparr>)
      = s\<lparr>ss_metrics := [], ss_outbox := out\<rparr>"
    using f [of "Metric_event (ss_metrics s @ xs)" ?subs "s\<lparr>ss_metrics := []\<rparr>"] by blast
  consider "ss_subscribers s = []" | "ss_subscribers s \<noteq> []" "svc_batch \<le> length (ss_metrics s @ xs)"
    | "ss_subscribers s \<noteq> []" "\<not> svc_batch \<le> length (ss_metrics s @ xs)" by blast
  then show ?thesis
  proof cases
    case 1
    then show ?thesis
      by (intro exI [of _ "ss_metrics s"] exI [of _ "ss_outbox s"]) (simp add: metric_add_batch_def)
  next
    case 2
    then show ?thesis using o
      by (intro exI [of _ "[]"] exI [of _ out]) (simp add: metric_add_batch_def metric_batch_def metric_send_def del: fold_append)
  next
    case 3
    then show ?thesis
      by (intro exI [of _ "ss_metrics s @ xs"] exI [of _ "ss_outbox s"]) (simp add: metric_add_batch_def metric_batch_def)
  qed
qed

text \<open>An acknowledgement by a reserved instance frees it, and then looks for work for it.\<close>

lemma handle_ack_frees:
  assumes ok: "svc_ok s" and i: "map_of (ss_sequential s) (hpid (cm_process m)) = Some i" "si_service i = Some key"
  shows "\<exists>s1. handle_ack w corr m s = serve_next w (hpid (cm_process m)) s1 \<and> svc_ok s1
     \<and> map_of (ss_sequential s1) = (map_of (ss_sequential s))(hpid (cm_process m) \<mapsto> si_discard i)
     \<and> ss_lookups s1 = ss_lookups s \<and> ss_reverse s1 = ss_reverse s \<and> origin_of s1 = origin_of s \<and> members s1 = members s"
proof -
  let ?pid = "hpid (cm_process m)"
  let ?d = "deadline_remove (w_stale w) corr (ss_deadlines s)"
  let ?s1 = "s\<lparr>ss_deadlines := snd ?d\<rparr>"
  let ?s2 = "case fst ?d of None \<Rightarrow> ?s1 | Some t \<Rightarrow> svc_post Self (Set_timer t) ?s1"
  obtain ms out where s3: "metric_add_batch w [m] ?s2 = ?s2\<lparr>ss_metrics := ms, ss_outbox := out\<rparr>"
    using metric_add_batch_rest by blast
  let ?s3 = "metric_add_batch w [m] ?s2"
  let ?s4 = "upd_service key (\<lambda>v. v\<lparr>sv_metric := svc_metric_update m (sv_metric v)\<rparr>) ?s3"
  let ?s5 = "upd_sequential ?pid si_discard ?s4"
  have f: "ss_sequential ?s3 = ss_sequential s" "ss_services ?s3 = ss_services s" "ss_lookups ?s3 = ss_lookups s"
    "ss_reverse ?s3 = ss_reverse s"
    unfolding s3 by (simp_all add: svc_post_def split: option.split)
  have f5: "ss_lookups ?s5 = ss_lookups s" "ss_reverse ?s5 = ss_reverse s"
    using f by (simp_all add: upd_sequential_def upd_service_def)
  have "svc_ok ?s2" using linked.deadline_removed [OF ok] by (simp add: linked.post split: option.split)
  then have "svc_ok ?s5" by (intro linked.instance_upd linked.service_metric linked.metric_batched) simp_all
  moreover have "handle_ack w corr m s = serve_next w ?pid ?s5"
    using i f by (cases "fst ?d")
      (simp_all add: handle_ack_def unreserve_def act_defs act_state_def case_prod_unfold)
  moreover have "map_of (ss_sequential ?s5) = (map_of (ss_sequential s))(?pid \<mapsto> si_discard i)"
    using map_of_upd_sequential [of ?s4 ?pid i si_discard] i f by simp
  moreover have "origin_of ?s5 = origin_of s" "members ?s5 = members s"
    using services_views [OF f(2)] by simp_all
  ultimately show ?thesis using f5 by blast
qed

lemma discover_waits:
  assumes "find_service (lq_requested m) s = None" and "w_discovery w"
  shows "ss_lookups (snd (svc_lookup w m pending s)) = ss_lookups s @ [\<lparr>pl_request = m, pl_when = w_now w\<rparr>]"
  using assms by (simp add: svc_lookup_def discover_def send_defs act_defs)

text \<open>
  C28. When a reserved instance acknowledges its call, the first queued lookup whose name or route
  leads to a service of the instance leaves the queue and is made again, and no other lookup is. If
  it asks for a service the instance exposes, it gets an instance of that service that is reserved
  for its caller, with an answer that names the instance. Otherwise it gets one final answer or goes
  back to the end of the queue without one, and the latter whenever nothing is known under its name
  and the discovery can be asked: then the acknowledgement has served nobody, although a lookup
  behind it may ask for a service of the instance (\<open>ack_prefers_unservable\<close>).
\<close>

theorem ack_serves_first_waiting:
  assumes "svc_ok s" and "map_of (ss_sequential s) (hpid (cm_process m)) = Some i" and "si_service i = Some key"
    and "List.find (can_serve s i) (ss_lookups s) = Some p"
  defines "again \<equiv> pl_request p" and "rest \<equiv> remove_first (can_serve s i) (ss_lookups s)"
  shows "if lq_requested again \<in> set (si_services i)
     then \<exists>s' q j v timeout. handle_ack w corr m s = (Inr (), s') \<and> ss_lookups s' = rest
       \<and> q \<in> set (members s (lq_requested again)) \<and> map_of (ss_sequential s') q = Some j
       \<and> si_service j = Some (lq_requested again)
       \<and> si_caller j = \<lparr>ca_process = lq_process again, ca_corr = lq_corr again\<rparr>
       \<and> (if w_reach w (hipc (lq_process again))
          then last (ss_outbox s') = (Ipc (hipc (lq_process again)),
                 idle_reply again v (si_process j) (w_now w - pl_when p) timeout)
          else True)
     else \<exists>s2. ss_lookups s2 = rest \<and> lookup_outcome w again s2 (handle_ack w corr m s)
       \<and> (find_service (lq_requested again) s = None \<and> w_discovery w
          \<longrightarrow> ss_lookups (snd (handle_ack w corr m s)) = rest @ [\<lparr>pl_request = again, pl_when = w_now w\<rparr>])"
proof -
  let ?pid = "hpid (cm_process m)"
  obtain s1 where ack: "handle_ack w corr m s = serve_next w ?pid s1" and ok1: "svc_ok s1"
    and seq: "map_of (ss_sequential s1) = (map_of (ss_sequential s))(?pid \<mapsto> si_discard i)"
    and fr: "ss_lookups s1 = ss_lookups s" "ss_reverse s1 = ss_reverse s" "origin_of s1 = origin_of s" "members s1 = members s"
    using handle_ack_frees [OF assms(1-3)] by blast
  have "has_service n (si_discard i) s1 = has_service n i s" for n by (simp add: has_service_def si_discard_def fr)
  then have can: "can_serve s1 (si_discard i) = can_serve s i" by (simp add: can_serve_def fr fun_eq_iff split: option.split)
  let ?s2 = "s1\<lparr>ss_lookups := rest\<rparr>"
  have ok2: "svc_ok ?s2" by (rule linked.lookups [OF ok1])
  have sv: "handle_ack w corr m s = svc_lookup w again (w_now w - pl_when p) ?s2"
    using assms(4) unfolding ack by (simp add: serve_next_def act_defs act_state_def seq can fr again_def rest_def)
  have mem: "members ?s2 = members s" using services_views [of ?s2 s1] fr by simp
  show ?thesis
  proof (cases "lq_requested again \<in> set (si_services i)")
    case True
    then have "?pid \<in> set (members s (lq_requested again))"
      using assms(1,2) by (simp add: svc_ok_def svc_linked_def exposed_def)
    moreover have "idle_instance ?s2 ?pid" by (simp add: idle_instance_def seq si_idle_def si_discard_def)
    ultimately obtain q where q: "List.find (idle_instance ?s2) (members ?s2 (lq_requested again)) = Some q"
      unfolding mem by (metis find_None_iff option.exhaust)
    let ?reserve = "si_reserve (lq_requested again) (lq_process again) (lq_corr again)"
    obtain j v where j: "map_of (ss_sequential ?s2) q = Some j"
      and r: "svc_lookup w again (w_now w - pl_when p) ?s2
        = reply_reserved w again (w_now w - pl_when p) v (si_process j) (upd_sequential q ?reserve ?s2)"
      using idle_lookup [OF ok2 q] by blast
    have "q \<in> set (members s (lq_requested again))" using find_Some_in [OF q] mem by simp
    moreover have "ss_lookups (upd_sequential q g ?s2) = rest" for g by (simp add: upd_sequential_def)
    moreover obtain s' timeout where
        "reply_reserved w again (w_now w - pl_when p) v (si_process j) (upd_sequential q ?reserve ?s2) = (Inr (), s')"
        "ss_sequential s' = ss_sequential (upd_sequential q ?reserve ?s2)"
        "ss_lookups s' = ss_lookups (upd_sequential q ?reserve ?s2)"
        "if w_reach w (hipc (lq_process again)) then last (ss_outbox s')
           = (Ipc (hipc (lq_process again)), idle_reply again v (si_process j) (w_now w - pl_when p) timeout) else True"
      using reply_reserved_result by blast
    ultimately show ?thesis
      unfolding sv r if_P [OF True]
      using map_of_upd_sequential [OF j, of ?reserve]
      by (intro exI [of _ s'] exI [of _ q] exI [of _ "?reserve j"] exI [of _ v] exI [of _ timeout]) (simp add: si_reserve_def)
  next
    case False
    have "find_service n ?s2 = None \<longleftrightarrow> find_service n s = None" for n
    proof -
      have "origin_of ?s2 = origin_of s" using services_views [of ?s2 s1] fr by simp
      then show ?thesis unfolding origin_of_def fun_eq_iff by (metis option.map_disc_iff)
    qed
    then show ?thesis
      unfolding if_not_P [OF False] sv
      using svc_lookup_outcome [of w again ?s2] discover_waits [of again ?s2 w "w_now w - pl_when p"]
      by (intro exI [of _ ?s2]) simp
  qed
qed

text \<open>The first waiting caller gets the instance.\<close>

theorem ack_serves_first_waiting_witness:
  "ss_lookups (snd (handle_ack (demo_world 3) 1 (demo_metric 5 1 ''a'')
     (demo_run [] [demo_advertise 5 ''a'', Lookup (demo_request 20 1 ''a'' Regular), Lookup (demo_request 21 2 ''a'' Regular),
        Lookup (demo_request 22 3 ''a'' Regular)])))
   = [\<lparr>pl_request = demo_request 22 3 ''a'' Regular, pl_when = 0\<rparr>]"
proof -
  let ?ms = "[demo_advertise 5 ''a'', Lookup (demo_request 20 1 ''a'' Regular), Lookup (demo_request 21 2 ''a'' Regular),
        Lookup (demo_request 22 3 ''a'' Regular)]"
  let ?s = "demo_run [] ?ms"
  let ?i = "\<lparr>si_process = demo_handle 5, si_service = Some ''a'',
      si_caller = \<lparr>ca_process = demo_handle 20, ca_corr = 1\<rparr>, si_services = [''a'']\<rparr>"
  let ?p = "\<lparr>pl_request = demo_request 21 2 ''a'' Regular, pl_when = 0\<rparr>"
  have i: "map_of (ss_sequential ?s) (hpid (cm_process (demo_metric 5 1 ''a''))) = Some ?i"
    unfolding demo_run_def demo_defs by code_simp
  have k: "si_service ?i = Some ''a''" by simp
  have f: "List.find (can_serve ?s ?i) (ss_lookups ?s) = Some ?p"
    unfolding demo_run_def demo_defs by code_simp
  have q: "lq_requested (pl_request ?p) \<in> set (si_services ?i)" by (simp add: demo_request_def)
  have r: "remove_first (can_serve ?s ?i) (ss_lookups ?s) = [\<lparr>pl_request = demo_request 22 3 ''a'' Regular, pl_when = 0\<rparr>]"
    unfolding demo_run_def demo_defs by code_simp
  show ?thesis using ack_serves_first_waiting [OF demo_ok i k f, of "demo_world 3" 1] unfolding if_P [OF q] r by auto
qed

section \<open>Where the messages and the configuration disagree\<close>

text \<open>
  A lookup of a service by its own name, when the service is only known by its routes, is found
  first by every acknowledgement and goes back to the end of the queue: a caller that waits for
  the route stays in the queue although an instance is idle.
\<close>

lemma ack_prefers_unservable:
  "let s = demo_run [demo_service ''a'' [''b''] 5] [demo_advertise 5 ''a'', Lookup (demo_request 20 1 ''b'' Regular),
       Lookup (demo_request 21 2 ''a'' Wait), Lookup (demo_request 22 3 ''b'' No_busy_intermediate), Ack 1 (demo_metric 5 1 ''b'')]
   in map (\<lambda>p. lq_requested (pl_request p)) (ss_lookups s) = [''b'', ''a'']
      \<and> List.find (idle_instance s) (members s ''b'') = Some 5"
  unfolding demo_run_def demo_defs by code_simp

definition demo_configured :: "conf_service list \<Rightarrow> svc_message list \<Rightarrow> conf_service list \<Rightarrow> svc_message list \<Rightarrow> svc" where
  "demo_configured cs ms ds ns = fold svc_event_step
     (map (Turn (demo_world 0)) ms @ [Reconfigure (demo_world 0) (demo_handle 3) 7 (demo_model ds)]
        @ map (Turn (demo_world 0)) ns) (demo_start cs)"

text \<open>
  A new timeout for a service without routes leaves an empty entry for its routes, and every
  later advertisement of the service goes to none of them.
\<close>

lemma new_timeout_blocks_advertise:
  "let s = demo_configured [demo_service ''a'' [] 5] [demo_advertise 5 ''a''] [demo_service ''a'' [] 10] [demo_advertise 6 ''a'']
   in map_of (ss_routes s) ''a'' = Some [] \<and> members s ''a'' = [5] \<and> exposed s 6 = []"
  unfolding demo_configured_def demo_defs by code_simp

text \<open>Taking the last route of a service away removes the service for good.\<close>

lemma last_route_removes_service:
  "let s = demo_configured [demo_service ''a'' [''b''] 5] [demo_advertise 5 ''a''] [demo_service ''a'' [] 5] [demo_advertise 6 ''a'']
   in ss_services s = [] \<and> exposed s 5 = [] \<and> exposed s 6 = []"
  unfolding demo_configured_def demo_defs by code_simp

text \<open>
  A new route copies the instances of the service, but the instances do not learn of it: when
  one leaves for a shutdown, the route still refers to it.
\<close>

lemma new_route_dangles:
  "let s = demo_configured [demo_service ''a'' [] 5] [demo_advertise 5 ''a''] [demo_service ''a'' [''b''] 5]
       [Prepare_shutdown (demo_handle 9) 4 [demo_handle 5]]
   in members s ''b'' = [5] \<and> map_of (ss_sequential s) 5 = None"
  unfolding demo_configured_def demo_defs by code_simp

text \<open>
  A prepared shutdown of an instance whose call has timed out waits for the empty correlation
  of the consumed caller; the instance's acknowledgement does not match it and no reply goes out.
\<close>

lemma shutdown_after_timeout_waits:
  "let s = snd (handle_timeout (demo_world 6) (demo_run [demo_service ''a'' [] 5]
         [demo_advertise 5 ''a'', Lookup (demo_request 20 1 ''a'' Regular)]));
       t = fold (\<lambda>m. svc_step (demo_world 6, m)) [Prepare_shutdown (demo_handle 9) 4 [demo_handle 5], Ack 1 (demo_metric 5 1 ''a'')] s
   in map (\<lambda>e. map fan_corr (fe_pending e)) (ss_shutdown t) = [[0]] \<and> length (ss_outbox t) = length (ss_outbox s)"
  unfolding demo_run_def demo_defs by code_simp

end
