(* ===== verification/TxState.thy ===== *)
theory TxState
  imports TxCode Handler ProcessMetric
begin

text \<open>
  The state of the transaction manager: \<open>transaction/manager/state.{h,cpp}\<close>, the log of
  \<open>transaction/manager/log.cpp\<close>, transaction ids (\<open>common/transaction/id.cpp\<close>), the stage
  machine (\<open>common/state/machine.h\<close>) and the metrics of an instance. Process and ipc ids
  are numbers, a resource id is positive for the manager's own resources and negative for
  external ones. What the manager sends is appended to \<open>outbox\<close>.
\<close>

section \<open>Ids\<close>

record trid =
  gtrid :: bytes
  bqual :: bytes
  tformat :: int
  towner :: handle

text \<open>\<open>operator ==\<close> on \<open>XID\<close>: \<open>memcmp\<close> of the lengths and of the data in use; two null ids are
  equal. The owner does not take part.\<close>

definition trid_eq :: "trid \<Rightarrow> trid \<Rightarrow> bool" where
  "trid_eq a b \<longleftrightarrow> tformat a = tformat b \<and>
     (tformat a = -1 \<or> (gtrid a = gtrid b \<and> bqual a = bqual b))"

definition trid_null :: "trid \<Rightarrow> bool" where "trid_null t \<longleftrightarrow> tformat t = -1"

lemma trid_eq_refl [simp]: "trid_eq a a"
  by (simp add: trid_eq_def)

lemma trid_eq_sym: "trid_eq a b \<longleftrightarrow> trid_eq b a"
  by (auto simp: trid_eq_def)

lemma trid_eq_trans: "trid_eq a b \<Longrightarrow> trid_eq b c \<Longrightarrow> trid_eq a c"
  by (auto simp: trid_eq_def)

section \<open>Metrics\<close>

record metrics =
  x_resource :: metric
  x_roundtrip :: metric
  x_requested :: int

definition metrics_zero :: metrics where
  "metrics_zero = \<lparr>x_resource = metric_zero, x_roundtrip = metric_zero, x_requested = 0\<rparr>"

definition metrics_join :: "metrics \<Rightarrow> metrics \<Rightarrow> metrics" where
  "metrics_join m n = m\<lparr>x_resource := metric_join (x_resource m) (x_resource n),
     x_roundtrip := metric_join (x_roundtrip m) (x_roundtrip n)\<rparr>"

text \<open>\<open>Metrics::add( reply)\<close>, with the reply's statistics.\<close>

definition metrics_reply :: "int \<Rightarrow> int \<times> int \<Rightarrow> metrics \<Rightarrow> metrics" where
  "metrics_reply now stat m =
     m\<lparr>x_resource := metric_add (snd stat - fst stat) (x_resource m),
       x_roundtrip := metric_add (now - x_requested m) (x_roundtrip m)\<rparr>"

section \<open>Stages\<close>

datatype stage = Involved | Prepare | Commit | Rollback

fun stage_num :: "stage \<Rightarrow> nat" where
  "stage_num Involved = 0"
| "stage_num Prepare = 1"
| "stage_num Commit = 2"
| "stage_num Rollback = 3"

instantiation stage :: linorder
begin

definition less_eq_stage :: "stage \<Rightarrow> stage \<Rightarrow> bool" where
  "less_eq_stage a b \<longleftrightarrow> stage_num a \<le> stage_num b"

definition less_stage :: "stage \<Rightarrow> stage \<Rightarrow> bool" where
  "less_stage a b \<longleftrightarrow> stage_num a < stage_num b"

instance
proof
  fix a b c :: stage
  show "a < b \<longleftrightarrow> a \<le> b \<and> \<not> b \<le> a" by (auto simp: less_eq_stage_def less_stage_def)
  show "a \<le> a" by (simp add: less_eq_stage_def)
  show "a \<le> b \<Longrightarrow> b \<le> c \<Longrightarrow> a \<le> c" by (simp add: less_eq_stage_def)
  show "a \<le> b \<or> b \<le> a" by (auto simp: less_eq_stage_def)
  show "a \<le> b \<Longrightarrow> b \<le> a \<Longrightarrow> a = b" by (cases a; cases b) (simp_all add: less_eq_stage_def)
qed

end

text \<open>\<open>state::Machine\<close>: an assignment only takes effect upwards.\<close>

definition machine_set :: "stage \<Rightarrow> stage \<Rightarrow> stage" where
  "machine_set wanted current = (if wanted > current then wanted else current)"

lemma machine_set_max: "machine_set w c = max c w"
  by (auto simp: machine_set_def max_def)

section \<open>Resources\<close>

datatype inst_state = Absent | Started | Idle | Busy | Error_state | Shutdown

record instance_proxy =
  i_id :: int
  i_process :: handle
  i_metrics :: metrics
  i_state :: inst_state

text \<open>\<open>Instance::state( state)\<close>: nothing leaves shutdown.\<close>

definition inst_set :: "inst_state \<Rightarrow> instance_proxy \<Rightarrow> instance_proxy" where
  "inst_set st i = (if i_state i \<noteq> Shutdown then i\<lparr>i_state := st\<rparr> else i)"

record resource_conf =
  rc_name :: string
  rc_key :: string
  rc_instances :: int
  rc_openinfo :: string
  rc_closeinfo :: string

record proxy =
  p_id :: int
  p_instances :: "instance_proxy list"
  p_conf :: resource_conf
  p_metrics :: metrics

definition proxy_booted :: "proxy \<Rightarrow> bool" where
  "proxy_booted p \<longleftrightarrow> list_all (\<lambda>i. i_state i \<in> {Idle, Error_state, Busy}) (p_instances p)"

text \<open>\<open>Proxy::remove_instance\<close>: the metrics of the instance stay with the proxy.\<close>

definition proxy_remove_instance :: "int \<Rightarrow> proxy \<Rightarrow> bool \<times> proxy" where
  "proxy_remove_instance pid p =
     (case List.find (\<lambda>i. hpid (i_process i) = pid) (p_instances p) of
        None \<Rightarrow> (False, p)
      | Some i \<Rightarrow>
          (True, p\<lparr>p_metrics := metrics_join (p_metrics p) (i_metrics i),
                   p_instances := remove_first (\<lambda>i. hpid (i_process i) = pid) (p_instances p)\<rparr>))"

record external =
  e_process :: handle
  e_id :: int

section \<open>Transactions\<close>

record branch_resource =
  br_id :: int
  br_code :: xa

record branch =
  b_trid :: trid
  b_resources :: "branch_resource list"

definition mk_branch :: "trid \<Rightarrow> branch" where
  "mk_branch t = \<lparr>b_trid = t, b_resources = []\<rparr>"

text \<open>\<open>Branch::involve\<close>, of one resource and of a range.\<close>

definition branch_involve :: "int \<Rightarrow> branch \<Rightarrow> branch" where
  "branch_involve rm b =
     (if rm \<in> set (map br_id (b_resources b)) then b
      else b\<lparr>b_resources := b_resources b @ [\<lparr>br_id = rm, br_code = Xa_ok\<rparr>]\<rparr>)"

definition branch_involve_all :: "int list \<Rightarrow> branch \<Rightarrow> branch" where
  "branch_involve_all rms b = fold branch_involve rms b"

record transaction =
  t_stage :: stage
  t_global :: bytes
  t_branches :: "branch list"
  t_owner :: handle
  t_started :: int
  t_deadline :: int

definition mk_transaction :: "trid \<Rightarrow> transaction" where
  "mk_transaction t = \<lparr>t_stage = Involved, t_global = gtrid t, t_branches = [mk_branch t],
     t_owner = null_handle, t_started = 0, t_deadline = 0\<rparr>"

definition resource_count :: "transaction \<Rightarrow> nat" where
  "resource_count t = fold (\<lambda>b n. n + length (b_resources b)) (t_branches t) 0"

text \<open>\<open>Transaction::purge()\<close>: branches without resources go.\<close>

definition purge :: "transaction \<Rightarrow> transaction" where
  "purge t = t\<lparr>t_branches := filter (\<lambda>b. b_resources b \<noteq> []) (t_branches t)\<rparr>"

text \<open>\<open>Transaction::purge( replies)\<close> as it is written: it keeps, of each branch, the first part
  of the intersection with the replies.\<close>

definition purge_replies :: "int list \<Rightarrow> transaction \<Rightarrow> transaction" where
  "purge_replies rms t =
     purge (t\<lparr>t_branches := map (\<lambda>b. b\<lparr>b_resources := filter (\<lambda>r. br_id r \<in> set rms) (b_resources b)\<rparr>)
                                (t_branches t)\<rparr>)"

section \<open>Messages\<close>

datatype rm_kind = Prepare_kind | Commit_kind | Rollback_kind

datatype reply_stage = Stage_prepare | Stage_commit | Stage_rollback

record conf_resource =
  cr_id :: int
  cr_name :: string
  cr_key :: string
  cr_openinfo :: string
  cr_closeinfo :: string

text \<open>\<open>Rm_request\<close> carries kind, correlation, trid, resource and whether the one-phase flag is
  set; \<open>Rm_reply\<close> kind, correlation, trid, resource, code and statistics.\<close>

datatype out_msg =
    Rm_request rm_kind nat trid int bool
  | Rm_reply rm_kind nat trid int xa "int \<times> int"
  | Commit_reply nat trid tx reply_stage
  | Rollback_reply nat trid tx
  | Involved_reply nat "int list"
  | Resource_configuration_reply nat conf_resource
  | Alias_reply nat "conf_resource list"
  | Configuration_reply nat "resource_conf list" "(string \<times> string list) list"
  | Process_exit int
  | Shutdown_request
  | Terminate_signal
  | Log_persisted nat      \<comment> \<open>the log was made durable, with so many rows\<close>

datatype dest =
    To_ipc nat
  | To_log
  | To_domain_manager
  | To_pending handle      \<comment> \<open>the pending-message process, which delivers later\<close>
  | To_process int         \<comment> \<open>a signal\<close>

record rm_reply =
  rr_process :: handle
  rr_corr :: nat
  rr_trid :: trid
  rr_resource :: int
  rr_state :: xa
  rr_stats :: "int \<times> int"

section \<open>The log\<close>

record log_row =
  lr_gtrid :: bytes
  lr_bqual :: bytes
  lr_format :: int
  lr_pid :: int
  lr_started :: int
  lr_deadline :: int

text \<open>The rows as the open database transaction sees them, and as a crash would leave them.\<close>

record tx_log =
  l_rows :: "log_row list"
  l_durable :: "log_row list"
  l_prepares :: int
  l_removes :: int
  l_writes :: int

definition log_insert :: "log_row \<Rightarrow> tx_log \<Rightarrow> tx_log option" where
  "log_insert r l =
     (if \<exists>x\<in>set (l_rows l). lr_gtrid x = lr_gtrid r \<and> lr_bqual x = lr_bqual r then None
      else Some (l\<lparr>l_rows := l_rows l @ [r], l_prepares := l_prepares l + 1\<rparr>))"

definition log_remove :: "bytes \<Rightarrow> tx_log \<Rightarrow> tx_log" where
  "log_remove g l =
     l\<lparr>l_rows := filter (\<lambda>r. lr_gtrid r \<noteq> g) (l_rows l),
       l_removes := l_removes l + int (length (filter (\<lambda>r. lr_gtrid r = g) (l_rows l)))\<rparr>"

definition log_persist :: "tx_log \<Rightarrow> tx_log" where
  "log_persist l = l\<lparr>l_durable := l_rows l, l_writes := l_writes l + 1\<rparr>"

section \<open>The manager\<close>

text \<open>What a coordination's callback captured: the kind of reply to give, the origin, where the
  request came from, and the code so far.\<close>

datatype reply_kind = R_commit | R_rollback | R_rm rm_kind

record destination =
  d_process :: handle
  d_corr :: nat
  d_resource :: int

record callback =
  cb_kind :: reply_kind
  cb_origin :: trid
  cb_dest :: destination
  cb_code :: xa

type_synonym rm_fan = "(rm_reply, int, callback) fan"
type_synonym rm_fired = "(rm_reply, int, callback) fan_fired"

record tm =
  s_transactions :: "transaction list"
  s_resources :: "proxy list"
  s_externals :: "external list"
  s_prepare :: rm_fan
  s_commit :: rm_fan
  s_rollback :: rm_fan
  s_replies :: "(out_msg \<times> handle) list"
  s_log :: tx_log
  s_requests :: "(int \<times> out_msg) list"
  s_system :: "(string \<times> string) list"
  s_alias :: "(string, int list) omap"
  s_external_base :: int
  s_next_corr :: nat
  s_outbox :: "(dest \<times> out_msg) list"

text \<open>The world a handler runs in: which inbound devices exist, which of them have room, the
  clock, the manager itself, the results of spawning a server, and what a read through an
  invalidated iterator finds.\<close>

record env =
  ev_reach :: "nat \<Rightarrow> bool"
  ev_room :: "nat \<Rightarrow> bool"
  ev_now :: int
  ev_self :: handle
  ev_spawn :: "string \<Rightarrow> nat \<Rightarrow> int option"
  ev_stale :: int

section \<open>Lookups\<close>

definition tm_booted :: "tm \<Rightarrow> bool" where
  "tm_booted s \<longleftrightarrow> list_all proxy_booted (s_resources s)"

definition tm_instances :: "tm \<Rightarrow> nat" where
  "tm_instances s = fold (\<lambda>p n. n + length (p_instances p)) (s_resources s) 0"

definition tm_processes :: "tm \<Rightarrow> int list" where
  "tm_processes s = concat (map (\<lambda>p. map (\<lambda>i. hpid (i_process i)) (p_instances p)) (s_resources s))"

definition find_transaction :: "bytes \<Rightarrow> tm \<Rightarrow> transaction option" where
  "find_transaction g s = List.find (\<lambda>t. t_global t = g) (s_transactions s)"

definition find_resource :: "string \<Rightarrow> tm \<Rightarrow> proxy option" where
  "find_resource name s = List.find (\<lambda>p. rc_name (p_conf p) = name) (s_resources s)"

definition get_resource :: "int \<Rightarrow> (tm, proxy) act" where
  "get_resource rm = act_bind (act_get (\<lambda>s. List.find (\<lambda>p. p_id p = rm) (s_resources s)))
     (\<lambda>r. case r of None \<Rightarrow> act_raise Invalid_argument | Some p \<Rightarrow> act_ret p)"

definition get_instance :: "int \<Rightarrow> int \<Rightarrow> (tm, instance_proxy) act" where
  "get_instance rm pid = act_bind (get_resource rm)
     (\<lambda>p. case List.find (\<lambda>i. hpid (i_process i) = pid) (p_instances p) of
            None \<Rightarrow> act_raise Invalid_argument | Some i \<Rightarrow> act_ret i)"

definition get_external :: "int \<Rightarrow> (tm, external) act" where
  "get_external rm = act_bind (act_get (\<lambda>s. List.find (\<lambda>e. e_id e = rm) (s_externals s)))
     (\<lambda>r. case r of None \<Rightarrow> act_raise Invalid_argument | Some e \<Rightarrow> act_ret e)"

text \<open>\<open>State::remove_instance\<close>: the first proxy that has the process.\<close>

fun remove_from_proxies :: "int \<Rightarrow> proxy list \<Rightarrow> bool \<times> proxy list" where
  "remove_from_proxies pid [] = (False, [])"
| "remove_from_proxies pid (p # ps) =
     (case proxy_remove_instance pid p of
        (True, p') \<Rightarrow> (True, p' # ps)
      | (False, _) \<Rightarrow> (case remove_from_proxies pid ps of (r, ps') \<Rightarrow> (r, p # ps')))"

definition tm_remove_instance :: "int \<Rightarrow> tm \<Rightarrow> bool \<times> tm" where
  "tm_remove_instance pid s =
     (case remove_from_proxies pid (s_resources s) of (r, ps) \<Rightarrow> (r, s\<lparr>s_resources := ps\<rparr>))"

text \<open>The first idle instance of a resource.\<close>

definition idle :: "int \<Rightarrow> (tm, instance_proxy option) act" where
  "idle rm = act_bind (get_resource rm)
     (\<lambda>p. act_ret (List.find (\<lambda>i. i_state i = Idle) (p_instances p)))"

text \<open>Change the instance that a lookup by predicate found, where it stands.\<close>

definition upd_instance ::
    "int \<Rightarrow> (instance_proxy \<Rightarrow> bool) \<Rightarrow> (instance_proxy \<Rightarrow> instance_proxy) \<Rightarrow> tm \<Rightarrow> tm" where
  "upd_instance rm P f s =
     s\<lparr>s_resources := update_first (\<lambda>p. p_id p = rm)
         (\<lambda>p. p\<lparr>p_instances := update_first P f (p_instances p)\<rparr>) (s_resources s)\<rparr>"

definition upd_transaction :: "bytes \<Rightarrow> (transaction \<Rightarrow> transaction) \<Rightarrow> tm \<Rightarrow> tm" where
  "upd_transaction g f s =
     s\<lparr>s_transactions := update_first (\<lambda>t. t_global t = g) f (s_transactions s)\<rparr>"

definition erase_transaction :: "bytes \<Rightarrow> tm \<Rightarrow> tm" where
  "erase_transaction g s =
     s\<lparr>s_transactions := remove_first (\<lambda>t. t_global t = g) (s_transactions s)\<rparr>"

text \<open>\<open>external::proxy::id\<close>: known by its process, or given the next negative id.\<close>

definition external_id :: "handle \<Rightarrow> (tm, int) act" where
  "external_id h = act_bind (act_get (\<lambda>s. List.find (\<lambda>e. e_process e = h) (s_externals s)))
     (\<lambda>r. case r of
            Some e \<Rightarrow> act_ret (e_id e)
          | None \<Rightarrow>
              act_then (act_upd (\<lambda>s. s\<lparr>s_external_base := s_external_base s - 1,
                 s_externals := s_externals s @ [\<lparr>e_process = h, e_id = s_external_base s - 1\<rparr>]\<rparr>))
               (act_get s_external_base))"

text \<open>\<open>State::configuration( request)\<close>: the named resources and those of the alias, by id and
  without duplicates.\<close>

definition conf_of :: "proxy \<Rightarrow> conf_resource" where
  "conf_of p = \<lparr>cr_id = p_id p, cr_name = rc_name (p_conf p), cr_key = rc_key (p_conf p),
     cr_openinfo = rc_openinfo (p_conf p), cr_closeinfo = rc_closeinfo (p_conf p)\<rparr>"

fun unique_ids :: "conf_resource list \<Rightarrow> conf_resource list" where
  "unique_ids [] = []"
| "unique_ids [r] = [r]"
| "unique_ids (r # q # rs) = (if cr_id q = cr_id r then unique_ids (r # rs) else r # unique_ids (q # rs))"

definition alias_configuration :: "string list \<Rightarrow> string \<Rightarrow> (tm, conf_resource list) act" where
  "alias_configuration names alias =
     act_bind (act_get (\<lambda>s. map conf_of (filter (\<lambda>p. rc_name (p_conf p) \<in> set names) (s_resources s))))
      (\<lambda>named. act_bind (act_get (\<lambda>s. case map_of (s_alias s) alias of None \<Rightarrow> [] | Some rms \<Rightarrow> rms))
       (\<lambda>rms. act_bind (act_each get_resource rms)
        (\<lambda>ps. act_ret (unique_ids (sort_key cr_id (named @ map conf_of ps))))))"

definition model_configuration :: "tm \<Rightarrow> resource_conf list \<times> (string \<times> string list) list" where
  "model_configuration s =
     (map p_conf (s_resources s),
      map (\<lambda>(a, rms). (a, map (\<lambda>rm. case List.find (\<lambda>p. p_id p = rm) (s_resources s) of
                                   None \<Rightarrow> [] | Some p \<Rightarrow> rc_name (p_conf p)) rms)) (s_alias s))"

end
