(* ===== verification/QueueBase.thy ===== *)
theory QueueBase
  imports TxState
begin

text \<open>
  The queue-base of a queue group: \<open>queue/group/queuebase.cpp\<close> with its tables and triggers
  (\<open>queuebase/schema.h\<close>) and its precompiled statements (\<open>queuebase/statement.cpp\<close>). A table is
  the list of its rows in the order of the row id. A statement is a function of the tables that
  is undefined where a constraint is violated; then nothing is changed and the code raises. The
  triggers are functions of the rows of the table \<open>queue\<close>. Times are microseconds. Where SQL
  leaves the order of rows open the model has the order of the row ids.
\<close>

section \<open>The tables\<close>

datatype message_state = Added | Enqueued | Removed | Dequeued

record queue_row =
  qr_id :: int
  qr_name :: string
  qr_retry_count :: int
  qr_retry_delay :: int
  qr_error :: int
  qr_count :: int
  qr_size :: int
  qr_uncommitted :: int
  qr_dequeued :: int
  qr_enqueued :: int
  qr_last :: int
  qr_created :: int

record message_row =
  mr_rowid :: int
  mr_id :: nat
  mr_queue :: int
  mr_origin :: int
  mr_gtrid :: bytes
  mr_properties :: string
  mr_state :: message_state
  mr_reply :: string
  mr_redelivered :: int
  mr_type :: string
  mr_available :: int
  mr_timestamp :: int
  mr_payload :: bytes

record qdb =
  db_queues :: "queue_row list"
  db_messages :: "message_row list"

text \<open>A new row gets the row id after the largest one in use. \<open>length( payload)\<close> is the size in bytes.\<close>

definition sql_rowid :: "int list \<Rightarrow> int" where
  "sql_rowid ids = fold max ids 0 + 1"

definition payload_size :: "message_row \<Rightarrow> int" where
  "payload_size m = int (length (mr_payload m))"

definition find_queue :: "int \<Rightarrow> queue_row list \<Rightarrow> queue_row option" where
  "find_queue k qs = List.find (\<lambda>q. qr_id q = k) qs"

definition upd_queue :: "int \<Rightarrow> (queue_row \<Rightarrow> queue_row) \<Rightarrow> queue_row list \<Rightarrow> queue_row list" where
  "upd_queue k f qs = map (\<lambda>q. if qr_id q = k then f q else q) qs"

text \<open>The foreign key of the messages.\<close>

definition foreign_key :: "queue_row list \<Rightarrow> message_row list \<Rightarrow> bool" where
  "foreign_key qs ms \<longleftrightarrow> list_all (\<lambda>m. mr_queue m \<in> set (map qr_id qs)) ms"

section \<open>The triggers\<close>

definition insert_message :: "message_row \<Rightarrow> queue_row list \<Rightarrow> queue_row list" where
  "insert_message new qs =
     (let qs1 = (if mr_state new = Added
            then upd_queue (mr_queue new)
              (\<lambda>q. q\<lparr>qr_last := mr_timestamp new, qr_uncommitted := qr_uncommitted q + 1\<rparr>) qs
            else qs)
      in if mr_state new = Enqueued
         then upd_queue (mr_queue new)
           (\<lambda>q. q\<lparr>qr_last := mr_timestamp new, qr_count := qr_count q + 1,
              qr_size := qr_size q + payload_size new, qr_enqueued := qr_enqueued q + 1\<rparr>) qs1
         else qs1)"

definition update_message_state :: "message_row \<Rightarrow> message_row \<Rightarrow> queue_row list \<Rightarrow> queue_row list" where
  "update_message_state old new qs =
     (if mr_state old = Added \<and> mr_state new = Enqueued
      then upd_queue (mr_queue new)
        (\<lambda>q. q\<lparr>qr_count := qr_count q + 1, qr_enqueued := qr_enqueued q + 1,
           qr_size := qr_size q + payload_size new, qr_uncommitted := qr_uncommitted q - 1,
           qr_last := mr_timestamp new\<rparr>) qs
      else qs)"

definition update_message_queue :: "message_row \<Rightarrow> message_row \<Rightarrow> queue_row list \<Rightarrow> queue_row list" where
  "update_message_queue old new qs =
     (if mr_queue new \<noteq> mr_queue old
      then upd_queue (mr_queue old)
          (\<lambda>q. q\<lparr>qr_count := qr_count q - 1, qr_dequeued := qr_dequeued q + 1,
             qr_size := qr_size q - payload_size old, qr_last := max (qr_last q) (mr_timestamp new)\<rparr>)
        (upd_queue (mr_queue new)
          (\<lambda>q. q\<lparr>qr_count := qr_count q + 1, qr_enqueued := qr_enqueued q + 1,
             qr_size := qr_size q + payload_size new, qr_last := max (qr_last q) (mr_timestamp new)\<rparr>) qs)
      else qs)"

definition delete_message :: "message_row \<Rightarrow> queue_row list \<Rightarrow> queue_row list" where
  "delete_message old qs =
     (let qs1 = (if mr_state old = Enqueued \<or> mr_state old = Removed
            then upd_queue (mr_queue old)
              (\<lambda>q. q\<lparr>qr_count := qr_count q - 1, qr_dequeued := qr_dequeued q + 1,
                 qr_size := qr_size q - payload_size old, qr_last := mr_timestamp old\<rparr>) qs
            else qs)
      in if mr_state old = Added
         then upd_queue (mr_queue old) (\<lambda>q. q\<lparr>qr_uncommitted := qr_uncommitted q - 1\<rparr>) qs1
         else qs1)"

section \<open>The statements\<close>

text \<open>A statement and the number of rows it changes; then the statements on messages, with the
  triggers that fire for each row.\<close>

type_synonym statement = "qdb \<Rightarrow> (nat \<times> qdb) option"

definition sql_run :: "statement \<Rightarrow> (qdb, nat) act" where
  "sql_run f db = (case f db of None \<Rightarrow> (Inl Sql_error, db) | Some (n, db') \<Rightarrow> (Inr n, db'))"

definition sql_update :: "(message_row \<Rightarrow> message_row \<Rightarrow> queue_row list \<Rightarrow> queue_row list) \<Rightarrow>
    (message_row \<Rightarrow> bool) \<Rightarrow> (message_row \<Rightarrow> message_row) \<Rightarrow> statement" where
  "sql_update trigger p f db =
     (let ms = map (\<lambda>m. if p m then f m else m) (db_messages db);
          qs = fold (\<lambda>m. trigger m (f m)) (filter p (db_messages db)) (db_queues db)
      in if foreign_key qs ms
         then Some (length (filter p (db_messages db)), \<lparr>db_queues = qs, db_messages = ms\<rparr>)
         else None)"

definition sql_delete :: "(message_row \<Rightarrow> bool) \<Rightarrow> statement" where
  "sql_delete p db =
     Some (length (filter p (db_messages db)),
       \<lparr>db_queues = fold delete_message (filter p (db_messages db)) (db_queues db),
        db_messages = filter (\<lambda>m. \<not> p m) (db_messages db)\<rparr>)"

definition sql_enqueue :: "message_row \<Rightarrow> statement" where
  "sql_enqueue r db =
     (if mr_id r \<in> set (map mr_id (db_messages db)) \<or> mr_queue r \<notin> set (map qr_id (db_queues db)) then None
      else let new = r\<lparr>mr_rowid := sql_rowid (map mr_rowid (db_messages db))\<rparr>
           in Some (1, \<lparr>db_queues = insert_message new (db_queues db), db_messages = db_messages db @ [new]\<rparr>))"

text \<open>\<open>ORDER BY timestamp ASC, available ASC LIMIT 1\<close>, and \<open>MIN( timestamp)\<close>.\<close>

fun sql_first_by :: "('a \<Rightarrow> 'a \<Rightarrow> bool) \<Rightarrow> 'a list \<Rightarrow> 'a option" where
  "sql_first_by before [] = None"
| "sql_first_by before (x # xs) =
     (case sql_first_by before xs of None \<Rightarrow> Some x | Some y \<Rightarrow> Some (if before y x then y else x))"

definition row_before :: "message_row \<Rightarrow> message_row \<Rightarrow> bool" where
  "row_before a b \<longleftrightarrow> mr_timestamp a < mr_timestamp b \<or>
     (mr_timestamp a = mr_timestamp b \<and> mr_available a < mr_available b)"

definition dequeueable :: "int \<Rightarrow> int \<Rightarrow> message_row \<Rightarrow> bool" where
  "dequeueable queue now m \<longleftrightarrow> mr_queue m = queue \<and> mr_state m = Enqueued \<and> mr_available m < now"

definition sql_first :: "int \<Rightarrow> int \<Rightarrow> qdb \<Rightarrow> message_row option" where
  "sql_first queue now db = sql_first_by row_before (filter (dequeueable queue now) (db_messages db))"

definition sql_first_id :: "nat \<Rightarrow> int \<Rightarrow> int \<Rightarrow> qdb \<Rightarrow> message_row option" where
  "sql_first_id uuid queue now db =
     List.find (\<lambda>m. mr_id m = uuid \<and> dequeueable queue now m) (db_messages db)"

text \<open>An aggregate without a row is a row of nulls: then the row id is zero, which is no result.\<close>

definition sql_first_match :: "int \<Rightarrow> string \<Rightarrow> int \<Rightarrow> qdb \<Rightarrow> message_row option" where
  "sql_first_match queue properties now db =
     sql_first_by (\<lambda>a b. mr_timestamp a < mr_timestamp b)
       (filter (\<lambda>m. mr_properties m = properties \<and> dequeueable queue now m) (db_messages db))"

definition sql_state_xid :: "bytes \<Rightarrow> int \<Rightarrow> statement" where
  "sql_state_xid g rowid =
     sql_update update_message_state (\<lambda>m. mr_rowid m = rowid) (\<lambda>m. m\<lparr>mr_gtrid := g, mr_state := Removed\<rparr>)"

definition sql_state_nullxid :: "int \<Rightarrow> statement" where
  "sql_state_nullxid rowid = sql_delete (\<lambda>m. mr_rowid m = rowid)"

definition sql_commit1 :: "bytes \<Rightarrow> statement" where
  "sql_commit1 g =
     sql_update update_message_state (\<lambda>m. mr_gtrid m = g \<and> mr_state m = Added) (\<lambda>m. m\<lparr>mr_state := Enqueued\<rparr>)"

definition sql_commit2 :: "bytes \<Rightarrow> statement" where
  "sql_commit2 g = sql_delete (\<lambda>m. mr_gtrid m = g \<and> mr_state m = Removed)"

definition sql_rollback1 :: "bytes \<Rightarrow> statement" where
  "sql_rollback1 g = sql_delete (\<lambda>m. mr_gtrid m = g \<and> mr_state m = Added)"

text \<open>The time at which a message is available again; no queue is a null that the column refuses.
  \<open>julianday( 'now')\<close>, in microseconds, is an argument.\<close>

definition retry_available :: "int \<Rightarrow> int \<Rightarrow> queue_row list \<Rightarrow> int option" where
  "retry_available sqlnow queue qs =
     (case find_queue queue qs of
        None \<Rightarrow> None
      | Some q \<Rightarrow> Some (if qr_retry_delay q = 0 then 0 else sqlnow + qr_retry_delay q))"

definition sql_rollback2 :: "int \<Rightarrow> bytes \<Rightarrow> statement" where
  "sql_rollback2 sqlnow g db =
     (let p = (\<lambda>m. mr_gtrid m = g \<and> mr_state m = Removed)
      in if list_ex (\<lambda>m. p m \<and> retry_available sqlnow (mr_queue m) (db_queues db) = None) (db_messages db)
         then None
         else sql_update update_message_state p
           (\<lambda>m. m\<lparr>mr_state := Enqueued, mr_redelivered := mr_redelivered m + 1,
              mr_available := the (retry_available sqlnow (mr_queue m) (db_queues db))\<rparr>) db)"

definition exhausted :: "queue_row list \<Rightarrow> message_row \<Rightarrow> bool" where
  "exhausted qs m \<longleftrightarrow> mr_queue m mod 2 = 0 \<and>
     (case find_queue (mr_queue m) qs of None \<Rightarrow> False | Some q \<Rightarrow> qr_retry_count q < mr_redelivered m)"

definition sql_rollback3 :: "bytes \<Rightarrow> statement" where
  "sql_rollback3 g db =
     sql_update update_message_queue (\<lambda>m. mr_gtrid m = g \<and> exhausted (db_queues db) m)
       (\<lambda>m. m\<lparr>mr_redelivered := 0, mr_queue := mr_queue m - 1\<rparr>) db"

definition sql_available_queues :: "qdb \<Rightarrow> (int \<times> int) list" where
  "sql_available_queues db = map (\<lambda>q. (qr_id q, qr_count q)) (filter (\<lambda>q. 0 < qr_count q) (db_queues db))"

definition sql_available :: "int \<Rightarrow> qdb \<Rightarrow> int option" where
  "sql_available queue db =
     (case map mr_available (filter (\<lambda>m. mr_queue m = queue \<and> mr_state m = Enqueued) (db_messages db)) of
        [] \<Rightarrow> None
      | t # ts \<Rightarrow> Some (fold min ts t))"

definition sql_id :: "string \<Rightarrow> qdb \<Rightarrow> int option" where
  "sql_id name db = map_option qr_id (List.find (\<lambda>q. qr_name q = name) (db_queues db))"

definition sql_information_message :: "int \<Rightarrow> qdb \<Rightarrow> message_row list" where
  "sql_information_message queue db = filter (\<lambda>m. mr_queue m = queue) (db_messages db)"

definition sql_peek_match :: "int \<Rightarrow> string \<Rightarrow> qdb \<Rightarrow> message_row list" where
  "sql_peek_match queue properties db =
     filter (\<lambda>m. mr_queue m = queue \<and> mr_properties m = properties) (db_messages db)"

definition sql_peek_one :: "nat \<Rightarrow> qdb \<Rightarrow> message_row option" where
  "sql_peek_one uuid db = List.find (\<lambda>m. mr_id m = uuid) (db_messages db)"

definition sql_restore :: "int \<Rightarrow> statement" where
  "sql_restore queue =
     sql_update update_message_queue
       (\<lambda>m. mr_queue m \<noteq> mr_origin m \<and> mr_state m = Enqueued \<and> mr_origin m = queue) (\<lambda>m. m\<lparr>mr_queue := queue\<rparr>)"

definition sql_clear :: "int \<Rightarrow> statement" where
  "sql_clear queue = sql_delete (\<lambda>m. mr_state m = Enqueued \<and> mr_queue m = queue)"

definition sql_message_remove :: "int \<Rightarrow> nat \<Rightarrow> statement" where
  "sql_message_remove queue uuid =
     sql_delete (\<lambda>m. mr_state m = Enqueued \<and> mr_queue m = queue \<and> mr_id m = uuid)"

definition sql_metric_reset :: "int \<Rightarrow> statement" where
  "sql_metric_reset queue db =
     Some (length (filter (\<lambda>q. qr_id q = queue) (db_queues db)),
       db\<lparr>db_queues := upd_queue queue (\<lambda>q. q\<lparr>qr_dequeued := 0, qr_enqueued := 0\<rparr>) (db_queues db)\<rparr>)"

text \<open>The statements on queues. The name is unique; a queue with messages cannot be deleted.\<close>

definition sql_insert_queue :: "string \<Rightarrow> int \<Rightarrow> int \<Rightarrow> int \<Rightarrow> int \<Rightarrow> statement" where
  "sql_insert_queue name count delay err now db =
     (if name \<in> set (map qr_name (db_queues db)) then None
      else Some (1, db\<lparr>db_queues := db_queues db @
        [\<lparr>qr_id = sql_rowid (map qr_id (db_queues db)), qr_name = name, qr_retry_count = count,
          qr_retry_delay = delay, qr_error = err, qr_count = 0, qr_size = 0, qr_uncommitted = 0,
          qr_dequeued = 0, qr_enqueued = 0, qr_last = 0, qr_created = now\<rparr>]\<rparr>))"

definition sql_update_queue :: "int \<Rightarrow> string \<Rightarrow> int \<Rightarrow> int \<Rightarrow> statement" where
  "sql_update_queue queue name count delay db =
     (if list_ex (\<lambda>q. qr_id q = queue) (db_queues db)
         \<and> list_ex (\<lambda>q. qr_name q = name \<and> qr_id q \<noteq> queue) (db_queues db) then None
      else Some (length (filter (\<lambda>q. qr_id q = queue) (db_queues db)),
        db\<lparr>db_queues := upd_queue queue
          (\<lambda>q. q\<lparr>qr_name := name, qr_retry_count := count, qr_retry_delay := delay\<rparr>) (db_queues db)\<rparr>))"

definition sql_delete_queue :: "int \<Rightarrow> statement" where
  "sql_delete_queue queue db =
     (let qs = filter (\<lambda>q. qr_id q \<noteq> queue) (db_queues db)
      in if foreign_key qs (db_messages db)
         then Some (length (filter (\<lambda>q. qr_id q = queue) (db_queues db)), db\<lparr>db_queues := qs\<rparr>)
         else None)"

end
