(* ===== verification/QueueOps.thy ===== *)
theory QueueOps
  imports QueueBase
begin

text \<open>
  The operations of the queue-base, \<open>queue/group/queuebase.cpp\<close>: each member function of
  \<open>Queuebase\<close> as a function of the tables that returns a value or raises. What a statement has
  done before a later one raises stays done, until the transaction of the database is rolled
  back.
\<close>

section \<open>Requests\<close>

record enqueue_message =
  em_id :: "nat option"
  em_properties :: string
  em_reply :: string
  em_available :: int
  em_type :: string
  em_payload :: bytes

record enqueue_request =
  er_process :: handle
  er_corr :: nat
  er_trid :: trid
  er_queue :: int
  er_name :: string
  er_message :: enqueue_message

record dequeue_request =
  dr_process :: handle
  dr_corr :: nat
  dr_trid :: trid
  dr_queue :: int
  dr_name :: string
  dr_properties :: string
  dr_id :: "nat option"
  dr_block :: bool

record dequeue_message =
  dm_id :: nat
  dm_properties :: string
  dm_reply :: string
  dm_available :: int
  dm_type :: string
  dm_payload :: bytes
  dm_redelivered :: int
  dm_timestamp :: int

record message_meta =
  mm_id :: nat
  mm_queue :: int
  mm_origin :: int
  mm_trid :: bytes
  mm_properties :: string
  mm_state :: message_state
  mm_reply :: string
  mm_redelivered :: int
  mm_type :: string
  mm_available :: int
  mm_timestamp :: int
  mm_size :: int

record queue_def =
  qd_id :: int
  qd_name :: string
  qd_retry_count :: int
  qd_retry_delay :: int
  qd_error :: int

record queue_available =
  qa_queue :: int
  qa_count :: int
  qa_when :: int

section \<open>Rows\<close>

definition to_message :: "message_row \<Rightarrow> dequeue_message" where
  "to_message m = \<lparr>dm_id = mr_id m, dm_properties = mr_properties m, dm_reply = mr_reply m,
     dm_available = mr_available m, dm_type = mr_type m, dm_payload = mr_payload m,
     dm_redelivered = mr_redelivered m, dm_timestamp = mr_timestamp m\<rparr>"

definition to_meta :: "message_row \<Rightarrow> message_meta" where
  "to_meta m = \<lparr>mm_id = mr_id m, mm_queue = mr_queue m, mm_origin = mr_origin m, mm_trid = mr_gtrid m,
     mm_properties = mr_properties m, mm_state = mr_state m, mm_reply = mr_reply m,
     mm_redelivered = mr_redelivered m, mm_type = mr_type m, mm_available = mr_available m,
     mm_timestamp = mr_timestamp m, mm_size = payload_size m\<rparr>"

definition to_queue :: "queue_row \<Rightarrow> queue_def" where
  "to_queue q = \<lparr>qd_id = qr_id q, qd_name = qr_name q, qd_retry_count = qr_retry_count q,
     qd_retry_delay = qr_retry_delay q, qd_error = qr_error q\<rparr>"

section \<open>Queues\<close>

definition qb_queue :: "int \<Rightarrow> (qdb, queue_def option) act" where
  "qb_queue k = act_get (\<lambda>db. map_option to_queue (find_queue k (db_queues db)))"

text \<open>The row id of the row inserted last is the largest one.\<close>

definition last_rowid :: "qdb \<Rightarrow> int" where
  "last_rowid db = qr_id (last (db_queues db))"

definition qb_create :: "int \<Rightarrow> queue_def \<Rightarrow> (qdb, queue_def) act" where
  "qb_create now q =
     act_then (sql_run (sql_insert_queue (qd_name q @ ''.error'') 0 0 0 now))
    (act_bind (act_get last_rowid) (\<lambda>err.
     act_then (sql_run (sql_insert_queue (qd_name q) (qd_retry_count q) (qd_retry_delay q) err now))
    (act_bind (act_get last_rowid) (\<lambda>k. act_ret (q\<lparr>qd_id := k, qd_error := err\<rparr>)))))"

definition qb_update_queue :: "queue_def \<Rightarrow> (qdb, unit) act" where
  "qb_update_queue q =
     act_bind (qb_queue (qd_id q)) (\<lambda>existing.
       case existing of
         None \<Rightarrow> act_ret ()
       | Some e \<Rightarrow>
           act_then (sql_run (sql_update_queue (qd_id q) (qd_name q) (qd_retry_count q) (qd_retry_delay q)))
          (act_then (sql_run (sql_update_queue (qd_error e) (qd_name q @ ''.error'') 0 0)) (act_ret ())))"

definition qb_remove_queue :: "int \<Rightarrow> (qdb, unit) act" where
  "qb_remove_queue k =
     act_bind (qb_queue k) (\<lambda>existing.
       case existing of
         None \<Rightarrow> act_ret ()
       | Some e \<Rightarrow>
           act_then (sql_run (sql_delete_queue (qd_error e)))
          (act_then (sql_run (sql_delete_queue (qd_id e))) (act_ret ())))"

definition qb_update :: "int \<Rightarrow> queue_def list \<Rightarrow> int list \<Rightarrow> (qdb, queue_def list) act" where
  "qb_update now update remove =
     act_then (act_each qb_remove_queue remove)
    (act_then (act_each qb_update_queue (filter (\<lambda>q. qd_id q \<noteq> 0) update))
    (act_each (qb_create now) (filter (\<lambda>q. qd_id q = 0) update)))"

definition qb_id :: "string \<Rightarrow> (qdb, int) act" where
  "qb_id name =
     act_bind (act_get (sql_id name)) (\<lambda>r. case r of None \<Rightarrow> act_raise Invalid_argument | Some k \<Rightarrow> act_ret k)"

text \<open>The id of a message's queue: the one it has, or the one of the name.\<close>

definition qb_message_id :: "int \<Rightarrow> string \<Rightarrow> (qdb, int) act" where
  "qb_message_id k name = (if k \<noteq> 0 then act_ret k else qb_id name)"

section \<open>Messages\<close>

definition enqueue_row :: "int \<Rightarrow> nat \<Rightarrow> enqueue_request \<Rightarrow> message_row" where
  "enqueue_row now uuid r =
     \<lparr>mr_rowid = 0, mr_id = uuid, mr_queue = er_queue r, mr_origin = er_queue r,
      mr_gtrid = gtrid (er_trid r), mr_properties = em_properties (er_message r),
      mr_state = (if trid_null (er_trid r) then Enqueued else Added), mr_reply = em_reply (er_message r),
      mr_redelivered = 0, mr_type = em_type (er_message r), mr_available = em_available (er_message r),
      mr_timestamp = now, mr_payload = em_payload (er_message r)\<rparr>"

definition qb_enqueue :: "int \<Rightarrow> nat \<Rightarrow> enqueue_request \<Rightarrow> (qdb, nat) act" where
  "qb_enqueue now fresh r =
     (let uuid = (case em_id (er_message r) of Some i \<Rightarrow> i | None \<Rightarrow> fresh)
      in act_then (sql_run (sql_enqueue (enqueue_row now uuid r))) (act_ret uuid))"

definition qb_fetch :: "int \<Rightarrow> dequeue_request \<Rightarrow> qdb \<Rightarrow> message_row option" where
  "qb_fetch now r db =
     (case dr_id r of
        Some uuid \<Rightarrow> sql_first_id uuid (dr_queue r) now db
      | None \<Rightarrow>
          if dr_properties r \<noteq> [] then sql_first_match (dr_queue r) (dr_properties r) now db
          else sql_first (dr_queue r) now db)"

definition qb_take :: "trid \<Rightarrow> int \<Rightarrow> statement" where
  "qb_take t rowid = (if trid_null t then sql_state_nullxid rowid else sql_state_xid (gtrid t) rowid)"

definition qb_dequeue :: "int \<Rightarrow> dequeue_request \<Rightarrow> (qdb, dequeue_message list) act" where
  "qb_dequeue now r =
     act_bind (act_get (qb_fetch now r)) (\<lambda>result.
       case result of
         None \<Rightarrow> act_ret []
       | Some m \<Rightarrow> act_then (sql_run (qb_take (dr_trid r) (mr_rowid m))) (act_ret [to_message m]))"

definition qb_peek_meta :: "int \<Rightarrow> string \<Rightarrow> (qdb, message_meta list) act" where
  "qb_peek_meta queue properties =
     act_get (\<lambda>db. map to_meta (if properties \<noteq> [] then sql_peek_match queue properties db
                                else sql_information_message queue db))"

definition qb_peek :: "nat list \<Rightarrow> (qdb, dequeue_message list) act" where
  "qb_peek ids = act_get (\<lambda>db. map to_message (List.map_filter (\<lambda>i. sql_peek_one i db) ids))"

text \<open>A queue whose messages are all dequeued has no earliest one: its time is the epoch.\<close>

definition qb_available :: "int list \<Rightarrow> qdb \<Rightarrow> queue_available list" where
  "qb_available queues db =
     map (\<lambda>(k, n). \<lparr>qa_queue = k, qa_count = n,
            qa_when = (case sql_available k db of Some t \<Rightarrow> t | None \<Rightarrow> 0)\<rparr>)
       (filter (\<lambda>(k, n). k \<in> set queues) (sql_available_queues db))"

definition qb_restore :: "int \<Rightarrow> (qdb, nat) act" where
  "qb_restore queue = sql_run (sql_restore queue)"

definition qb_clear :: "int \<Rightarrow> (qdb, nat) act" where
  "qb_clear queue = sql_run (sql_clear queue)"

fun qb_remove_messages :: "int \<Rightarrow> nat list \<Rightarrow> (qdb, nat list) act" where
  "qb_remove_messages queue [] = act_ret []"
| "qb_remove_messages queue (i # is) =
     act_bind (sql_run (sql_message_remove queue i)) (\<lambda>n.
       act_bind (qb_remove_messages queue is) (\<lambda>rest. act_ret (if n = 0 then rest else i # rest)))"

definition qb_commit :: "bytes \<Rightarrow> (qdb, unit) act" where
  "qb_commit g = act_then (sql_run (sql_commit1 g)) (act_then (sql_run (sql_commit2 g)) (act_ret ()))"

definition qb_rollback :: "int \<Rightarrow> bytes \<Rightarrow> (qdb, unit) act" where
  "qb_rollback sqlnow g =
     act_then (sql_run (sql_rollback1 g))
    (act_then (sql_run (sql_rollback2 sqlnow g))
    (act_then (sql_run (sql_rollback3 g)) (act_ret ())))"

definition qb_meta :: "int \<Rightarrow> (qdb, message_meta list) act" where
  "qb_meta queue = act_get (\<lambda>db. map to_meta (sql_information_message queue db))"

definition qb_metric_reset :: "int list \<Rightarrow> (qdb, unit) act" where
  "qb_metric_reset ids = act_then (act_each (\<lambda>i. sql_run (sql_metric_reset i)) ids) (act_ret ())"

end
