(* ===== verification/QueueGroup.thy ===== *)
theory QueueGroup
  imports QueueOps
begin

text \<open>
  The queue group: its state (\<open>queue/group/state.{h,cpp}\<close>), its handlers
  (\<open>queue/group/handle.cpp\<close>) and the message pump of \<open>queue/group/main.cpp\<close>. The queue-base is
  the tables as they are and the tables as of the last commit of the database transaction. A
  reply that promises durability waits in \<open>qg_replies\<close> for the next \<open>persist\<close>, a blocking dequeue
  without a message waits in \<open>qg_dequeues\<close>. What the group sends is appended to \<open>qg_outbox\<close>. A
  handler reads the clock once.
\<close>

section \<open>The state\<close>

datatype group_level = Group_running | Group_shutdown | Group_error

fun group_level_num :: "group_level \<Rightarrow> nat" where
  "group_level_num Group_running = 0"
| "group_level_num Group_shutdown = 1"
| "group_level_num Group_error = 2"

definition group_level_set :: "group_level \<Rightarrow> group_level \<Rightarrow> group_level" where
  "group_level_set wanted current = (if group_level_num current < group_level_num wanted then wanted else current)"

datatype group_reply =
    Enqueue_reply nat nat
  | Dequeue_reply nat "dequeue_message list"
  | Dequeue_forget_request nat int string
  | Dequeue_forget_reply nat bool
  | Involved_external trid
  | Resource_reply rm_kind nat trid int xa
  | Group_state_reply nat string "queue_row list" "int list"
  | Message_meta_reply nat "message_meta list"
  | Message_remove_reply nat "nat list"
  | Meta_peek_reply nat "message_meta list"
  | Message_peek_reply nat "dequeue_message list"
  | Restore_reply nat "(int \<times> string \<times> nat) list"
  | Clear_reply nat "(int \<times> string \<times> nat) list"
  | Metric_reset_reply nat
  | Group_update_reply nat string "(int \<times> string) list"
  | Fatal_event
  | Alarm_signal

datatype group_dest = Group_ipc nat | Group_tm | Group_events | Group_self

record qgroup =
  qg_level :: group_level
  qg_base :: "qdb option"
  qg_saved :: qdb
  qg_replies :: "(handle \<times> group_reply) list"
  qg_dequeues :: "dequeue_request list"
  qg_involved :: "trid list"
  qg_zombies :: "int list"
  qg_alias :: string
  qg_note :: string
  qg_timer :: "int option"
  qg_outbox :: "(group_dest \<times> group_reply) list"
  qg_ended :: bool

text \<open>The world of a handler: the inbound devices that exist, the transaction manager, the clock,
  the clock of the database, a new uuid, the file of the queue-base, and the order in which
  \<open>std::partition\<close> looks at pending requests, which the standard leaves open.\<close>

record group_env =
  ge_reach :: "nat \<Rightarrow> bool"
  ge_tm :: bool
  ge_now :: int
  ge_sqlnow :: int
  ge_uuid :: nat
  ge_open :: "string \<Rightarrow> string \<Rightarrow> qdb option"
  ge_order :: "dequeue_request list \<Rightarrow> dequeue_request list"

section \<open>The queue-base of the group\<close>

definition on_base :: "(qdb, 'a) act \<Rightarrow> (qgroup, 'a) act" where
  "on_base f s =
     (case qg_base s of
        None \<Rightarrow> (Inl Sql_error, s)
      | Some db \<Rightarrow> (case f db of (r, db') \<Rightarrow> (r, s\<lparr>qg_base := Some db'\<rparr>)))"

definition base_persist :: "qgroup \<Rightarrow> qgroup" where
  "base_persist s = (case qg_base s of None \<Rightarrow> s | Some db \<Rightarrow> s\<lparr>qg_saved := db\<rparr>)"

definition base_rollback :: "qgroup \<Rightarrow> qgroup" where
  "base_rollback s = (case qg_base s of None \<Rightarrow> s | Some db \<Rightarrow> s\<lparr>qg_base := Some (qg_saved s)\<rparr>)"

section \<open>Sending\<close>

definition group_post :: "group_dest \<Rightarrow> group_reply \<Rightarrow> qgroup \<Rightarrow> qgroup" where
  "group_post d m s = s\<lparr>qg_outbox := qg_outbox s @ [(d, m)]\<rparr>"

text \<open>\<open>ipc::flush::optional::send\<close>, then the blocking send.\<close>

definition group_send :: "group_env \<Rightarrow> handle \<Rightarrow> group_reply \<Rightarrow> qgroup \<Rightarrow> qgroup" where
  "group_send e h m s = (if ge_reach e (hipc h) then group_post (Group_ipc (hipc h)) m s else s)"

definition group_blocking_send :: "group_env \<Rightarrow> handle \<Rightarrow> group_reply \<Rightarrow> (qgroup, unit) act" where
  "group_blocking_send e h m =
     (if ge_reach e (hipc h) then act_upd (group_post (Group_ipc (hipc h)) m) else act_raise Comm_unavailable)"

text \<open>What is done when a scope is left, with an exception or not; and \<open>catch( ...)\<close>.\<close>

definition act_leave :: "('s, 'a) act \<Rightarrow> ('s \<Rightarrow> 's) \<Rightarrow> ('s, 'a) act" where
  "act_leave f g s = (case f s of (r, s') \<Rightarrow> (r, g s'))"

definition act_catch :: "('s, 'a) act \<Rightarrow> 'a \<Rightarrow> ('s, 'a) act" where
  "act_catch f x s = (case f s of (Inl e, s') \<Rightarrow> (Inr x, s') | (Inr y, s') \<Rightarrow> (Inr y, s'))"

section \<open>The timer\<close>

definition timer_left :: "int \<Rightarrow> qgroup \<Rightarrow> int option" where
  "timer_left now s =
     (case qg_timer s of None \<Rightarrow> None | Some t \<Rightarrow> if now < t then Some (t - now) else None)"

definition timer_set :: "int \<Rightarrow> int \<Rightarrow> qgroup \<Rightarrow> qgroup" where
  "timer_set now offset s =
     (if offset \<le> 0 then group_post Group_self Alarm_signal s else s\<lparr>qg_timer := Some (now + offset)\<rparr>)"

definition timer_unset :: "qgroup \<Rightarrow> qgroup" where
  "timer_unset s = s\<lparr>qg_timer := None\<rparr>"

section \<open>Pending\<close>

definition pending_forget :: "nat \<Rightarrow> qgroup \<Rightarrow> bool \<times> qgroup" where
  "pending_forget corr s =
     (list_ex (\<lambda>r. dr_corr r = corr) (qg_dequeues s),
      s\<lparr>qg_dequeues := filter (\<lambda>r. dr_corr r \<noteq> corr) (qg_dequeues s)\<rparr>)"

definition pending_forget_all :: "qgroup \<Rightarrow> (handle \<times> group_reply) list \<times> qgroup" where
  "pending_forget_all s =
     (map (\<lambda>r. (dr_process r, Dequeue_forget_request (dr_corr r) (dr_queue r) (dr_name r))) (qg_dequeues s),
      s\<lparr>qg_dequeues := []\<rparr>)"

definition pending_extract :: "int list \<Rightarrow> qgroup \<Rightarrow> dequeue_request list \<times> qgroup" where
  "pending_extract queues s =
     (filter (\<lambda>r. dr_queue r \<in> set queues) (qg_dequeues s),
      s\<lparr>qg_dequeues := filter (\<lambda>r. dr_queue r \<notin> set queues) (qg_dequeues s)\<rparr>)"

definition pending_remove :: "int \<Rightarrow> qgroup \<Rightarrow> qgroup" where
  "pending_remove pid s =
     s\<lparr>qg_dequeues := filter (\<lambda>r. hpid (dr_process r) \<noteq> pid) (qg_dequeues s),
       qg_replies := filter (\<lambda>r. hpid (fst r) \<noteq> pid) (qg_replies s)\<rparr>"

definition pending_send :: "group_env \<Rightarrow> (handle \<times> group_reply) list \<Rightarrow> qgroup \<Rightarrow> qgroup" where
  "pending_send e ms = fold (\<lambda>(h, m). group_send e h m) ms"

definition group_done :: "qgroup \<Rightarrow> bool" where
  "group_done s \<longleftrightarrow> qg_level s \<noteq> Group_running \<and> qg_replies s = [] \<and> qg_dequeues s = [] \<and> qg_involved s = []"

section \<open>Transactions\<close>

definition group_involved :: "group_env \<Rightarrow> trid \<Rightarrow> (qgroup, unit) act" where
  "group_involved e t s =
     (if list_ex (trid_eq t) (qg_involved s) then (Inr (), s)
      else if ge_tm e
      then (Inr (), (group_post Group_tm (Involved_external t) s)\<lparr>qg_involved := qg_involved s @ [t]\<rparr>)
      else (Inl Comm_unavailable, s))"

definition group_transaction_done :: "trid \<Rightarrow> qgroup \<Rightarrow> qgroup" where
  "group_transaction_done t s = s\<lparr>qg_involved := filter (\<lambda>x. \<not> trid_eq x t) (qg_involved s)\<rparr>"

section \<open>Dequeue\<close>

definition dequeue_block :: "group_env \<Rightarrow> dequeue_request \<Rightarrow> (qgroup, unit) act" where
  "dequeue_block e r =
     act_bind (on_base (act_get (sql_available (dr_queue r)))) (\<lambda>available.
       act_upd (\<lambda>s.
         let s1 = (case available of
               None \<Rightarrow> s
             | Some t \<Rightarrow>
                 let wanted = t - ge_now e
                 in case timer_left (ge_now e) s of
                      None \<Rightarrow> timer_set (ge_now e) wanted s
                    | Some current \<Rightarrow> if wanted < current then timer_set (ge_now e) wanted s else s)
         in s1\<lparr>qg_dequeues := qg_dequeues s1 @ [r]\<rparr>))"

text \<open>\<open>dequeue::handle\<close>: whether the request has been answered.\<close>

definition dequeue_handle :: "group_env \<Rightarrow> dequeue_request \<Rightarrow> (qgroup, bool) act" where
  "dequeue_handle e r =
     act_bind (on_base (qb_dequeue (ge_now e) r)) (\<lambda>ms.
       let reply = group_send e (dr_process r) (Dequeue_reply (dr_corr r) ms)
       in if ms \<noteq> []
          then act_leave
            (act_then (if trid_null (dr_trid r) then act_ret () else group_involved e (dr_trid r)) (act_ret True)) reply
          else if dr_block r
          then act_then (dequeue_block e r) (act_ret False)
          else act_then (act_upd reply) (act_ret True))"

definition dequeue_request_handler :: "group_env \<Rightarrow> dequeue_request \<Rightarrow> (qgroup, bool) act" where
  "dequeue_request_handler e r =
     act_catch (act_bind (on_base (qb_message_id (dr_queue r) (dr_name r)))
       (\<lambda>k. dequeue_handle e (r\<lparr>dr_queue := k\<rparr>))) True"

text \<open>\<open>pending::dequeues\<close>: the pending requests on queues with a message that is available. The first
  function offers the messages of a queue to its requests; it returns the requests that are
  left when the count is used up.\<close>

fun serve_queue :: "group_env \<Rightarrow> int \<Rightarrow> dequeue_request list \<Rightarrow> (qgroup, dequeue_request list) act" where
  "serve_queue e count [] = act_ret []"
| "serve_queue e count (r # rs) =
     (if count < 1 then act_bind (serve_queue e count rs) (\<lambda>left. act_ret (r # left))
      else act_bind (dequeue_request_handler e r) (\<lambda>answered.
             serve_queue e (if answered then count - 1 else count) rs))"

fun serve_queues :: "group_env \<Rightarrow> queue_available list \<Rightarrow> dequeue_request list \<Rightarrow> (qgroup, unit) act" where
  "serve_queues e [] requests = act_ret ()"
| "serve_queues e (a # as) requests =
     act_bind (serve_queue e (qa_count a) (ge_order e (filter (\<lambda>r. dr_queue r = qa_queue a) requests))) (\<lambda>left.
     act_then (act_upd (\<lambda>s. s\<lparr>qg_dequeues := qg_dequeues s @ left\<rparr>))
       (serve_queues e as (filter (\<lambda>r. dr_queue r \<noteq> qa_queue a) requests)))"

definition timer_future :: "group_env \<Rightarrow> queue_available list \<Rightarrow> qgroup \<Rightarrow> qgroup" where
  "timer_future e future s =
     (case map qa_when future of
        [] \<Rightarrow> timer_unset s
      | t # ts \<Rightarrow> timer_set (ge_now e) (fold min ts t - ge_now e) s)"

definition pending_dequeues :: "group_env \<Rightarrow> (qgroup, unit) act" where
  "pending_dequeues e =
     act_bind (act_get qg_dequeues) (\<lambda>pending.
       if pending = [] then act_ret ()
       else act_bind (on_base (act_get (qb_available (map dr_queue pending)))) (\<lambda>available.
         let passed = filter (\<lambda>a. qa_when a \<le> ge_now e) available;
             future = filter (\<lambda>a. \<not> qa_when a \<le> ge_now e) available
         in act_bind (act_state (pending_extract (map qa_queue passed))) (\<lambda>requests.
            act_then (serve_queues e passed requests)
              (act_upd (timer_future e future)))))"

section \<open>Persist\<close>

definition group_persist :: "group_env \<Rightarrow> (qgroup, unit) act" where
  "group_persist e =
     act_bind (act_get qg_replies) (\<lambda>replies.
       if replies = [] then act_ret ()
       else act_then (act_upd (\<lambda>s. pending_send e replies ((base_persist s)\<lparr>qg_replies := []\<rparr>)))
              (pending_dequeues e))"

definition persistent_batch :: nat where "persistent_batch = 100"

definition persistent_reply :: "group_env \<Rightarrow> handle \<Rightarrow> group_reply \<Rightarrow> (qgroup, unit) act" where
  "persistent_reply e h m =
     act_then (act_upd (\<lambda>s. s\<lparr>qg_replies := qg_replies s @ [(h, m)]\<rparr>))
    (act_bind (act_get (\<lambda>s. length (qg_replies s))) (\<lambda>n.
       if persistent_batch \<le> n then group_persist e else act_ret ()))"

section \<open>Messages\<close>

definition enqueue_request_handler :: "group_env \<Rightarrow> enqueue_request \<Rightarrow> (qgroup, unit) act" where
  "enqueue_request_handler e r =
     act_catch (act_bind (on_base (qb_message_id (er_queue r) (er_name r))) (\<lambda>k.
       act_bind (on_base (qb_enqueue (ge_now e) (ge_uuid e) (r\<lparr>er_queue := k\<rparr>))) (\<lambda>i.
         let reply = Enqueue_reply (er_corr r) i
         in if \<not> trid_null (er_trid r)
            then act_then (group_involved e (er_trid r)) (act_upd (group_send e (er_process r) reply))
            else persistent_reply e (er_process r) reply))) ()"

definition dequeue_forget_handler :: "group_env \<Rightarrow> handle \<Rightarrow> nat \<Rightarrow> (qgroup, unit) act" where
  "dequeue_forget_handler e h corr =
     act_bind (act_state (pending_forget corr)) (\<lambda>found. act_upd (group_send e h (Dequeue_forget_reply corr found)))"

definition timeout_handler :: "group_env \<Rightarrow> (qgroup, unit) act" where
  "timeout_handler e =
     act_bind (act_get qg_replies) (\<lambda>replies. if replies = [] then pending_dequeues e else act_ret ())"

text \<open>A request of the transaction manager: process, correlation, transaction and resource.\<close>

record resource_request =
  rq_process :: handle
  rq_corr :: nat
  rq_trid :: trid
  rq_resource :: int

definition resource_reply :: "rm_kind \<Rightarrow> resource_request \<Rightarrow> xa \<Rightarrow> group_reply" where
  "resource_reply k r code = Resource_reply k (rq_corr r) (rq_trid r) (rq_resource r) code"

definition base_code :: "(qdb, unit) act \<Rightarrow> (qgroup, xa) act" where
  "base_code f = act_catch (act_then (on_base f) (act_ret Xa_ok)) Xa_resource_fail"

definition group_commit_handler :: "group_env \<Rightarrow> resource_request \<Rightarrow> (qgroup, unit) act" where
  "group_commit_handler e r =
     act_then (act_upd (group_transaction_done (rq_trid r)))
    (act_bind (base_code (qb_commit (gtrid (rq_trid r)))) (\<lambda>code.
       persistent_reply e (rq_process r) (resource_reply Commit_kind r code)))"

definition group_prepare_handler :: "group_env \<Rightarrow> resource_request \<Rightarrow> (qgroup, unit) act" where
  "group_prepare_handler e r = act_upd (group_send e (rq_process r) (resource_reply Prepare_kind r Xa_ok))"

definition group_rollback_handler :: "group_env \<Rightarrow> resource_request \<Rightarrow> (qgroup, unit) act" where
  "group_rollback_handler e r =
     act_then (act_upd (group_transaction_done (rq_trid r)))
    (act_bind (base_code (qb_rollback (ge_sqlnow e) (gtrid (rq_trid r)))) (\<lambda>code.
       persistent_reply e (rq_process r) (resource_reply Rollback_kind r code)))"

section \<open>Administration\<close>

definition group_state_handler :: "group_env \<Rightarrow> handle \<Rightarrow> nat \<Rightarrow> (qgroup, unit) act" where
  "group_state_handler e h corr =
     act_bind (on_base (act_get db_queues)) (\<lambda>queues.
     act_bind (act_get (\<lambda>s. Group_state_reply corr (qg_alias s) queues (qg_zombies s)))
       (group_blocking_send e h))"

definition message_meta_handler :: "group_env \<Rightarrow> handle \<Rightarrow> nat \<Rightarrow> int \<Rightarrow> (qgroup, unit) act" where
  "message_meta_handler e h corr queue =
     act_bind (on_base (qb_meta queue)) (\<lambda>ms. group_blocking_send e h (Message_meta_reply corr ms))"

definition message_remove_handler :: "group_env \<Rightarrow> handle \<Rightarrow> nat \<Rightarrow> int \<Rightarrow> nat list \<Rightarrow> (qgroup, unit) act" where
  "message_remove_handler e h corr queue ids =
     act_bind (on_base (qb_remove_messages queue ids)) (\<lambda>removed.
       act_upd (group_send e h (Message_remove_reply corr removed)))"

definition meta_peek_handler :: "group_env \<Rightarrow> handle \<Rightarrow> nat \<Rightarrow> int \<Rightarrow> string \<Rightarrow> (qgroup, unit) act" where
  "meta_peek_handler e h corr queue properties =
     act_bind (on_base (qb_peek_meta queue properties)) (\<lambda>ms. act_upd (group_send e h (Meta_peek_reply corr ms)))"

definition message_peek_handler :: "group_env \<Rightarrow> handle \<Rightarrow> nat \<Rightarrow> nat list \<Rightarrow> (qgroup, unit) act" where
  "message_peek_handler e h corr ids =
     act_bind (on_base (qb_peek ids)) (\<lambda>ms. act_upd (group_send e h (Message_peek_reply corr ms)))"

text \<open>One queue restored or cleared: its id, its name where it exists, and the number of messages.\<close>

definition queue_affected :: "(int \<Rightarrow> (qdb, nat) act) \<Rightarrow> int \<Rightarrow> (qdb, int \<times> string \<times> nat) act" where
  "queue_affected f k =
     act_bind (f k) (\<lambda>n. act_bind (qb_queue k) (\<lambda>q.
       act_ret (k, (case q of None \<Rightarrow> [] | Some q \<Rightarrow> qd_name q), n)))"

definition restore_handler :: "group_env \<Rightarrow> handle \<Rightarrow> nat \<Rightarrow> int list \<Rightarrow> (qgroup, unit) act" where
  "restore_handler e h corr queues s =
     (case act_each (\<lambda>k. on_base (queue_affected qb_restore k)) queues s of
        (Inl x, s1) \<Rightarrow> (Inl x, group_send e h (Restore_reply corr []) s1)
      | (Inr affected, s1) \<Rightarrow>
          act_leave (pending_dequeues e) (group_send e h (Restore_reply corr affected)) (base_persist s1))"

definition clear_handler :: "group_env \<Rightarrow> handle \<Rightarrow> nat \<Rightarrow> int list \<Rightarrow> (qgroup, unit) act" where
  "clear_handler e h corr queues =
     act_bind (act_each (\<lambda>k. on_base (queue_affected qb_clear k)) queues) (\<lambda>affected.
       act_upd (group_send e h (Clear_reply corr affected)))"

definition metric_reset_handler :: "group_env \<Rightarrow> handle \<Rightarrow> nat \<Rightarrow> int list \<Rightarrow> (qgroup, unit) act" where
  "metric_reset_handler e h corr queues =
     act_then (on_base (qb_metric_reset queues)) (act_upd (group_send e h (Metric_reset_reply corr)))"

section \<open>Configuration\<close>

record group_model =
  gm_alias :: string
  gm_queuebase :: string
  gm_note :: string
  gm_queues :: "(string \<times> int \<times> int) list"

definition open_queuebase :: "group_env \<Rightarrow> group_model \<Rightarrow> (qgroup, unit) act" where
  "open_queuebase e m s =
     (case qg_base s of
        Some _ \<Rightarrow> (Inr (), s)
      | None \<Rightarrow>
          (case ge_open e (gm_queuebase m) (gm_alias m) of
             None \<Rightarrow> (Inl Terminated, group_post Group_events Fatal_event s)
           | Some db \<Rightarrow> (Inr (), s\<lparr>qg_base := Some db, qg_saved := db\<rparr>)))"

definition wanted_queue :: "queue_row list \<Rightarrow> string \<times> int \<times> int \<Rightarrow> queue_def" where
  "wanted_queue existing w =
     (case w of (name, count, delay) \<Rightarrow>
        (case List.find (\<lambda>q. qr_name q = name) existing of
           None \<Rightarrow> \<lparr>qd_id = 0, qd_name = name, qd_retry_count = count, qd_retry_delay = delay, qd_error = 0\<rparr>
         | Some q \<Rightarrow> \<lparr>qd_id = qr_id q, qd_name = name, qd_retry_count = count, qd_retry_delay = delay,
                       qd_error = qr_error q\<rparr>))"

definition unwanted_queues :: "queue_row list \<Rightarrow> queue_def list \<Rightarrow> queue_row list" where
  "unwanted_queues existing wanted =
     filter (\<lambda>q. \<not> list_ex (\<lambda>w. qr_id q = qd_id w \<or> qr_id q = qd_error w) wanted) existing"

text \<open>The unwanted queues, each with its error queue.\<close>

definition join_error_queues :: "queue_row list \<Rightarrow> (queue_row \<times> queue_row) list" where
  "join_error_queues unwanted =
     List.map_filter (\<lambda>q. map_option (Pair q) (find_queue (qr_error q) unwanted)) (filter (\<lambda>q. qr_error q \<noteq> 0) unwanted)"

definition pair_has_messages :: "queue_row \<times> queue_row \<Rightarrow> bool" where
  "pair_has_messages p \<longleftrightarrow> 0 < qr_count (fst p) \<or> 0 < qr_count (snd p)"

definition pair_ids :: "(queue_row \<times> queue_row) list \<Rightarrow> int list" where
  "pair_ids ps = map (qr_id \<circ> fst) ps @ map (qr_id \<circ> snd) ps"

text \<open>\<open>detail::update\<close>, under the guard that reports a fatal event.\<close>

definition update_queues :: "group_env \<Rightarrow> queue_def list \<Rightarrow> int list \<Rightarrow> (qgroup, (int \<times> string) list) act" where
  "update_queues e wanted remove s =
     (case on_base (qb_update (ge_now e) wanted remove) s of
        (Inl x, s1) \<Rightarrow> (Inl x, group_post Group_events Fatal_event s1)
      | (Inr _, s1) \<Rightarrow>
          act_bind (on_base (act_get db_queues)) (\<lambda>queues. act_get (\<lambda>s.
            map (\<lambda>q. (qr_id q, qr_name q)) (filter (\<lambda>q. qr_id q \<notin> set (qg_zombies s)) queues))) s1)"

definition apply_model :: "group_env \<Rightarrow> handle \<Rightarrow> nat \<Rightarrow> group_model \<Rightarrow> (qgroup, unit) act" where
  "apply_model e h corr m =
     act_then (act_upd (\<lambda>s. s\<lparr>qg_alias := gm_alias m, qg_note := gm_note m\<rparr>))
    (act_bind (on_base (act_get db_queues)) (\<lambda>existing.
       let wanted = map (wanted_queue existing) (gm_queues m);
           joined = join_error_queues (unwanted_queues existing wanted);
           nonempty = filter pair_has_messages joined;
           remove = pair_ids (filter (\<lambda>p. \<not> pair_has_messages p) joined)
       in act_then (act_upd (\<lambda>s. s\<lparr>qg_zombies := qg_zombies s @ pair_ids nonempty\<rparr>))
         (act_bind (update_queues e wanted remove) (\<lambda>queues.
            act_upd (group_send e h (Group_update_reply corr (gm_alias m) queues))))))"

definition configuration_update_handler ::
    "group_env \<Rightarrow> handle \<Rightarrow> nat \<Rightarrow> group_model \<Rightarrow> (qgroup, unit) act" where
  "configuration_update_handler e h corr m s =
     (case open_queuebase e m s of
        (Inl x, s1) \<Rightarrow> (Inl x, s1)
      | (Inr _, s1) \<Rightarrow>
          (case apply_model e h corr m (base_persist s1) of
             (Inl x, s2) \<Rightarrow> (Inl x, base_rollback s2)
           | (Inr _, s2) \<Rightarrow> (Inr (), base_persist s2)))"

section \<open>The end\<close>

definition shutdown_perform :: "group_env \<Rightarrow> (qgroup, unit) act" where
  "shutdown_perform e =
     act_then (act_upd (\<lambda>s. s\<lparr>qg_level := group_level_set Group_shutdown (qg_level s)\<rparr>))
    (act_then (group_persist e)
    (act_bind (act_state pending_forget_all) (\<lambda>ms. act_upd (pending_send e ms))))"

definition group_abort :: "group_env \<Rightarrow> (qgroup, unit) act" where
  "group_abort e =
     act_then (act_upd (\<lambda>s. s\<lparr>qg_level := group_level_set Group_error (qg_level s)\<rparr>)) (shutdown_perform e)"

section \<open>The pump\<close>

datatype group_message =
    Process_exit_event int
  | Group_update handle nat group_model
  | Enqueue_request enqueue_request
  | Dequeue_request dequeue_request
  | Dequeue_forget handle nat
  | Timeout_signal
  | Commit_request resource_request
  | Prepare_request resource_request
  | Rollback_request resource_request
  | Group_state_request handle nat
  | Meta_peek_request handle nat int string
  | Message_peek_request handle nat "nat list"
  | Restore_request handle nat "int list"
  | Clear_request handle nat "int list"
  | Message_meta_request handle nat int
  | Message_remove_request handle nat int "nat list"
  | Metric_reset_request handle nat "int list"
  | Shutdown_message
  | Inbound_idle              \<comment> \<open>no message: the condition \<open>idle\<close> of the pump\<close>

definition group_handle :: "group_env \<Rightarrow> group_message \<Rightarrow> (qgroup, unit) act" where
  "group_handle e m =
     (case m of
        Process_exit_event pid \<Rightarrow> act_upd (pending_remove pid)
      | Group_update h corr model \<Rightarrow> configuration_update_handler e h corr model
      | Enqueue_request r \<Rightarrow> enqueue_request_handler e r
      | Dequeue_request r \<Rightarrow> act_then (dequeue_request_handler e r) (act_ret ())
      | Dequeue_forget h corr \<Rightarrow> dequeue_forget_handler e h corr
      | Timeout_signal \<Rightarrow> timeout_handler e
      | Commit_request r \<Rightarrow> group_commit_handler e r
      | Prepare_request r \<Rightarrow> group_prepare_handler e r
      | Rollback_request r \<Rightarrow> group_rollback_handler e r
      | Group_state_request h corr \<Rightarrow> group_state_handler e h corr
      | Meta_peek_request h corr k ps \<Rightarrow> meta_peek_handler e h corr k ps
      | Message_peek_request h corr ids \<Rightarrow> message_peek_handler e h corr ids
      | Restore_request h corr ks \<Rightarrow> restore_handler e h corr ks
      | Clear_request h corr ks \<Rightarrow> clear_handler e h corr ks
      | Message_meta_request h corr k \<Rightarrow> message_meta_handler e h corr k
      | Message_remove_request h corr k ids \<Rightarrow> message_remove_handler e h corr k ids
      | Metric_reset_request h corr ks \<Rightarrow> metric_reset_handler e h corr ks
      | Shutdown_message \<Rightarrow> shutdown_perform e
      | Inbound_idle \<Rightarrow> group_persist e)"

text \<open>One turn of the pump. When it is done, or an exception leaves it, the process ends, and the
  destructor of the queue-base commits. The abort runs in the destructor of a scope guard: an
  exception that leaves it terminates the process, and nothing is committed.\<close>

definition group_end :: "qgroup \<Rightarrow> qgroup" where
  "group_end s = (base_persist s)\<lparr>qg_ended := True\<rparr>"

definition group_step :: "group_env \<times> group_message \<Rightarrow> qgroup \<Rightarrow> qgroup" where
  "group_step em s =
     (if qg_ended s then s
      else case group_handle (fst em) (snd em) s of
             (Inl _, s') \<Rightarrow>
               (case group_abort (fst em) s' of (Inl _, s'') \<Rightarrow> s''\<lparr>qg_ended := True\<rparr> | (Inr _, s'') \<Rightarrow> group_end s'')
           | (Inr _, s') \<Rightarrow> if group_done s' then group_end s' else s')"

definition empty_qdb :: qdb where
  "empty_qdb = \<lparr>db_queues = [], db_messages = []\<rparr>"

definition initial_group :: qgroup where
  "initial_group = \<lparr>qg_level = Group_running, qg_base = None, qg_saved = empty_qdb, qg_replies = [],
     qg_dequeues = [], qg_involved = [], qg_zombies = [], qg_alias = [], qg_note = [], qg_timer = None,
     qg_outbox = [], qg_ended = False\<rparr>"

end
