(* ===== verification/QueueTally.thy ===== *)
theory QueueTally
  imports QueueGroup
begin

text \<open>
  The counters of a queue against its messages. A message has a share in the counters of its
  queue; each trigger changes a counter by the share that the statement adds and takes. So a
  table of queues whose counters are the sums of the shares stays one, statement by statement.
\<close>

section \<open>Shares\<close>

datatype measure = Committed_count | Committed_size | Uncommitted_count

fun shown :: "measure \<Rightarrow> queue_row \<Rightarrow> int" where
  "shown Committed_count q = qr_count q"
| "shown Committed_size q = qr_size q"
| "shown Uncommitted_count q = qr_uncommitted q"

fun weight :: "measure \<Rightarrow> message_row \<Rightarrow> int" where
  "weight Committed_count m = (if mr_state m = Added then 0 else 1)"
| "weight Committed_size m = (if mr_state m = Added then 0 else payload_size m)"
| "weight Uncommitted_count m = (if mr_state m = Added then 1 else 0)"

definition share :: "measure \<Rightarrow> int \<Rightarrow> message_row \<Rightarrow> int" where
  "share d k m = (if mr_queue m = k then weight d m else 0)"

definition shares :: "measure \<Rightarrow> int \<Rightarrow> message_row list \<Rightarrow> int" where
  "shares d k ms = sum_list (map (share d k) ms)"

lemma shares_simps [simp]:
  "shares d k [] = 0" "shares d k (m # ms) = share d k m + shares d k ms"
  "shares d k (ms @ ns) = shares d k ms + shares d k ns"
  by (simp_all add: shares_def)

lemma shares_filter: "shares d k (filter (\<lambda>m. \<not> p m) ms) = shares d k ms - shares d k (filter p ms)"
  by (induction ms) auto

lemma shares_map_if:
  "shares d k (map (\<lambda>m. if p m then f m else m) ms) =
     shares d k ms + sum_list (map (\<lambda>m. share d k (f m) - share d k m) (filter p ms))"
  by (induction ms) auto

section \<open>What a trigger does to the table of queues\<close>

definition same_queue :: "queue_row \<Rightarrow> queue_row \<Rightarrow> bool" where
  "same_queue q q' \<longleftrightarrow> qr_id q' = qr_id q \<and> qr_name q' = qr_name q \<and> qr_retry_count q' = qr_retry_count q
     \<and> qr_retry_delay q' = qr_retry_delay q \<and> qr_error q' = qr_error q \<and> qr_created q' = qr_created q"

definition changed_by :: "(measure \<Rightarrow> int \<Rightarrow> int) \<Rightarrow> queue_row \<Rightarrow> queue_row \<Rightarrow> bool" where
  "changed_by delta q q' \<longleftrightarrow> same_queue q q' \<and> (\<forall>d. shown d q' = shown d q + delta d (qr_id q))"

definition tallies :: "(measure \<Rightarrow> int \<Rightarrow> int) \<Rightarrow> (queue_row list \<Rightarrow> queue_row list) \<Rightarrow> bool" where
  "tallies delta g \<longleftrightarrow> (\<forall>qs. list_all2 (changed_by delta) qs (g qs))"

lemma all_measures: "(\<forall>d. P d) \<longleftrightarrow> P Committed_count \<and> P Committed_size \<and> P Uncommitted_count"
  by (metis measure.exhaust)

lemma tallies_id: "(\<And>d k. delta d k = 0) \<Longrightarrow> tallies delta (\<lambda>qs. qs)"
  by (simp add: tallies_def changed_by_def same_queue_def list.rel_refl)

lemma tallies_map:
  "(\<And>q. changed_by delta q (f q)) \<Longrightarrow> tallies delta (map f)"
  by (simp add: tallies_def list_all2_conv_all_nth)

lemma tallies_upd:
  assumes "\<And>q. qr_id q = k \<Longrightarrow> changed_by delta q (f q)" and "\<And>d j. j \<noteq> k \<Longrightarrow> delta d j = 0"
  shows "tallies delta (upd_queue k f)"
proof -
  have "changed_by delta q (if qr_id q = k then f q else q)" for q
    using assms by (auto simp: changed_by_def same_queue_def)
  then have "tallies delta (map (\<lambda>q. if qr_id q = k then f q else q))" by (rule tallies_map)
  then show ?thesis by (simp add: tallies_def upd_queue_def)
qed

lemma changed_by_trans:
  "changed_by a p q \<Longrightarrow> changed_by b q r \<Longrightarrow> changed_by (\<lambda>d k. a d k + b d k) p r"
  by (auto simp: changed_by_def same_queue_def)

lemma tallies_comp:
  assumes "tallies a g" and "tallies b h"
  shows "tallies (\<lambda>d k. a d k + b d k) (\<lambda>qs. h (g qs))"
  unfolding tallies_def
proof
  fix qs
  have "list_all2 (changed_by a) qs (g qs)" "list_all2 (changed_by b) (g qs) (h (g qs))"
    using assms by (simp_all add: tallies_def)
  then show "list_all2 (changed_by (\<lambda>d k. a d k + b d k)) qs (h (g qs))"
    by (blast intro: list_all2_trans [of "changed_by a" "changed_by b" "changed_by (\<lambda>d k. a d k + b d k)"]
        changed_by_trans)
qed

lemma tallies_fold:
  assumes "\<And>m. m \<in> set ms \<Longrightarrow> tallies (delta m) (g m)"
  shows "tallies (\<lambda>d k. sum_list (map (\<lambda>m. delta m d k) ms)) (fold g ms)"
  using assms
proof (induction ms)
  case Nil
  then show ?case using tallies_id [of "\<lambda>_ _. 0"] by (simp add: tallies_def)
next
  case (Cons m ms)
  then have "tallies (\<lambda>d k. delta m d k + sum_list (map (\<lambda>m. delta m d k) ms)) (\<lambda>qs. fold g ms (g m qs))"
    by (intro tallies_comp) auto
  then show ?case by (simp add: comp_def)
qed

section \<open>The triggers\<close>

lemma tallies_insert:
  assumes "mr_state m = Added \<or> mr_state m = Enqueued"
  shows "tallies (\<lambda>d k. share d k m) (insert_message m)"
proof (cases "mr_state m = Added")
  case True
  then have "insert_message m = upd_queue (mr_queue m)
      (\<lambda>q. q\<lparr>qr_last := mr_timestamp m, qr_uncommitted := qr_uncommitted q + 1\<rparr>)"
    by (auto simp: insert_message_def)
  then show ?thesis using True
    by (auto simp: changed_by_def same_queue_def share_def all_measures intro!: tallies_upd)
next
  case False
  with assms have "insert_message m = upd_queue (mr_queue m)
      (\<lambda>q. q\<lparr>qr_last := mr_timestamp m, qr_count := qr_count q + 1,
              qr_size := qr_size q + payload_size m, qr_enqueued := qr_enqueued q + 1\<rparr>)"
    by (auto simp: insert_message_def)
  then show ?thesis using False
    by (auto simp: changed_by_def same_queue_def share_def all_measures intro!: tallies_upd)
qed

lemma tallies_state:
  assumes "mr_queue new = mr_queue old" and "mr_payload new = mr_payload old"
    and "mr_state old = Added \<longrightarrow> mr_state new = Enqueued" and "mr_state new \<noteq> Added"
  shows "tallies (\<lambda>d k. share d k new - share d k old) (update_message_state old new)"
proof (cases "mr_state old = Added")
  case True
  with assms have "update_message_state old new = upd_queue (mr_queue new)
        (\<lambda>q. q\<lparr>qr_count := qr_count q + 1, qr_enqueued := qr_enqueued q + 1,
           qr_size := qr_size q + payload_size new, qr_uncommitted := qr_uncommitted q - 1,
           qr_last := mr_timestamp new\<rparr>)"
    by (auto simp: update_message_state_def)
  then show ?thesis using True assms
    by (auto simp: changed_by_def same_queue_def share_def all_measures intro!: tallies_upd)
next
  case False
  then have "update_message_state old new = (\<lambda>qs. qs)" by (auto simp: update_message_state_def)
  moreover have "share d k new = share d k old" for d k
    using False assms by (cases d) (auto simp: share_def payload_size_def)
  ultimately show ?thesis by (simp add: tallies_id)
qed

lemma tallies_queue:
  assumes "mr_payload new = mr_payload old" and "mr_state new \<noteq> Added" and "mr_state old \<noteq> Added"
  shows "tallies (\<lambda>d k. share d k new - share d k old) (update_message_queue old new)"
proof (cases "mr_queue new = mr_queue old")
  case True
  then have "update_message_queue old new = (\<lambda>qs. qs)" by (auto simp: update_message_queue_def)
  moreover have "share d k new = share d k old" for d k
    using True assms by (cases d) (auto simp: share_def payload_size_def)
  ultimately show ?thesis by (simp add: tallies_id)
next
  case False
  have gain: "tallies (\<lambda>d k. share d k new) (upd_queue (mr_queue new)
          (\<lambda>q. q\<lparr>qr_count := qr_count q + 1, qr_enqueued := qr_enqueued q + 1,
             qr_size := qr_size q + payload_size new, qr_last := max (qr_last q) (mr_timestamp new)\<rparr>))"
    using assms by (auto simp: changed_by_def same_queue_def share_def all_measures intro!: tallies_upd)
  have loss: "tallies (\<lambda>d k. - share d k old) (upd_queue (mr_queue old)
          (\<lambda>q. q\<lparr>qr_count := qr_count q - 1, qr_dequeued := qr_dequeued q + 1,
             qr_size := qr_size q - payload_size old, qr_last := max (qr_last q) (mr_timestamp new)\<rparr>))"
    using assms by (auto simp: changed_by_def same_queue_def share_def all_measures intro!: tallies_upd)
  have "update_message_queue old new = (\<lambda>qs. upd_queue (mr_queue old)
          (\<lambda>q. q\<lparr>qr_count := qr_count q - 1, qr_dequeued := qr_dequeued q + 1,
             qr_size := qr_size q - payload_size old, qr_last := max (qr_last q) (mr_timestamp new)\<rparr>)
        (upd_queue (mr_queue new)
          (\<lambda>q. q\<lparr>qr_count := qr_count q + 1, qr_enqueued := qr_enqueued q + 1,
             qr_size := qr_size q + payload_size new, qr_last := max (qr_last q) (mr_timestamp new)\<rparr>) qs))"
    using False by (simp add: fun_eq_iff update_message_queue_def)
  then show ?thesis using tallies_comp [OF gain loss] by simp
qed

lemma tallies_delete:
  assumes "mr_state m \<noteq> Dequeued"
  shows "tallies (\<lambda>d k. - share d k m) (delete_message m)"
proof (cases "mr_state m = Added")
  case True
  then have "delete_message m = upd_queue (mr_queue m) (\<lambda>q. q\<lparr>qr_uncommitted := qr_uncommitted q - 1\<rparr>)"
    by (auto simp: delete_message_def)
  then show ?thesis using True
    by (auto simp: changed_by_def same_queue_def share_def all_measures intro!: tallies_upd)
next
  case False
  then have "mr_state m = Enqueued \<or> mr_state m = Removed" using assms by (cases "mr_state m") auto
  then have "delete_message m = upd_queue (mr_queue m)
        (\<lambda>q. q\<lparr>qr_count := qr_count q - 1, qr_dequeued := qr_dequeued q + 1,
                 qr_size := qr_size q - payload_size m, qr_last := mr_timestamp m\<rparr>)"
    using False by (auto simp: delete_message_def)
  then show ?thesis using False
    by (auto simp: changed_by_def same_queue_def share_def all_measures intro!: tallies_upd)
qed

section \<open>Tables\<close>

definition exact :: "queue_row list \<Rightarrow> message_row list \<Rightarrow> bool" where
  "exact qs ms \<longleftrightarrow> (\<forall>q\<in>set qs. \<forall>d. shown d q = shares d (qr_id q) ms)"

lemma exact_changed:
  assumes "exact qs ms" and "list_all2 (changed_by delta) qs qs'"
    and "\<And>d k. shares d k ms' = shares d k ms + delta d k"
  shows "exact qs' ms'"
  unfolding exact_def
proof (intro ballI allI)
  fix q' d
  assume "q' \<in> set qs'"
  then obtain q where q: "q \<in> set qs" "changed_by delta q q'"
    using assms(2) by (metis in_set_conv_nth list_all2_conv_all_nth)
  then show "shown d q' = shares d (qr_id q') ms'"
    using assms(1,3) by (simp add: exact_def changed_by_def same_queue_def)
qed

lemma changed_ids: "list_all2 (changed_by delta) qs qs' \<Longrightarrow> map qr_id qs' = map qr_id qs"
  by (induction rule: list_all2_induct) (simp_all add: changed_by_def same_queue_def)

lemma changed_same: "list_all2 (changed_by delta) qs qs' \<Longrightarrow> list_all2 same_queue qs qs'"
  by (erule list.rel_mono_strong) (simp add: changed_by_def)

end
