(* ===== verification/QueueInvariant.thy ===== *)
theory QueueInvariant
  imports QueueTally
begin

text \<open>
  The invariants of the tables of a queue-base. \<open>qdb_ok\<close>: the keys are unique, every message is in
  a queue that exists, and the counters of the queues are exact; every operation keeps it, an
  operation that raises included. \<open>queues_paired\<close>: the queues with an even id are the ones that
  have an error queue, and it has the id before theirs; the configuration keeps it.
\<close>

section \<open>Keys and counters\<close>

definition positive :: "int list \<Rightarrow> bool" where
  "positive ks \<longleftrightarrow> (\<forall>k\<in>set ks. 0 < k)"

definition qdb_ok :: "qdb \<Rightarrow> bool" where
  "qdb_ok db \<longleftrightarrow> distinct (map qr_id (db_queues db)) \<and> positive (map qr_id (db_queues db))
     \<and> distinct (map mr_rowid (db_messages db)) \<and> distinct (map mr_id (db_messages db))
     \<and> foreign_key (db_queues db) (db_messages db) \<and> list_all (\<lambda>m. mr_state m \<noteq> Dequeued) (db_messages db)
     \<and> exact (db_queues db) (db_messages db)"

lemma qdb_okD:
  assumes "qdb_ok db"
  shows "distinct (map qr_id (db_queues db))" "\<And>q. q \<in> set (db_queues db) \<Longrightarrow> 0 < qr_id q"
    "distinct (map mr_rowid (db_messages db))" "distinct (map mr_id (db_messages db))"
    "foreign_key (db_queues db) (db_messages db)"
    "\<And>m. m \<in> set (db_messages db) \<Longrightarrow> mr_state m \<noteq> Dequeued" "exact (db_queues db) (db_messages db)"
  using assms by (auto simp: qdb_ok_def list_all_iff positive_def)

lemma foreign_keyI:
  "(\<And>m. m \<in> set ms \<Longrightarrow> mr_queue m \<in> set (map qr_id qs)) \<Longrightarrow> foreign_key qs ms"
  by (auto simp: foreign_key_def list_all_iff)

lemma foreign_keyD: "foreign_key qs ms \<Longrightarrow> m \<in> set ms \<Longrightarrow> mr_queue m \<in> set (map qr_id qs)"
  by (auto simp: foreign_key_def list_all_iff)

lemma sql_rowid_fresh: "k \<in> set ids \<Longrightarrow> k < sql_rowid ids"
proof -
  have "j \<le> fold max ids j \<and> (k \<in> set ids \<longrightarrow> k \<le> fold max ids j)" for j
  proof (induction ids arbitrary: j)
    case (Cons a ids)
    have "max a j \<le> fold max ids (max a j)" "k \<in> set ids \<Longrightarrow> k \<le> fold max ids (max a j)"
      using Cons.IH [of "max a j"] by auto
    then show ?case by auto
  qed simp
  then have "k \<in> set ids \<longrightarrow> k \<le> fold max ids 0" by blast
  then show "k \<in> set ids \<Longrightarrow> k < sql_rowid ids" by (simp add: sql_rowid_def)
qed

lemma sql_rowid_pos: "0 < sql_rowid ids"
proof -
  have "j \<le> fold max ids j" for j :: int
    by (induction ids arbitrary: j) (auto intro: order_trans [OF max.cobounded2])
  then show ?thesis by (simp add: sql_rowid_def add_pos_pos zero_less_one add.commute add_strict_increasing)
qed

section \<open>Statements\<close>

definition stmt_keeps :: "(qdb \<Rightarrow> bool) \<Rightarrow> statement \<Rightarrow> bool" where
  "stmt_keeps P f \<longleftrightarrow> (\<forall>db n db'. P db \<longrightarrow> f db = Some (n, db') \<longrightarrow> P db')"

lemma keeps_run [keeps_intros]: "stmt_keeps P f \<Longrightarrow> act_keeps P (sql_run f)"
  by (auto simp: stmt_keeps_def act_keeps_def sql_run_def split: option.splits)

lemma same_queue_ids: "list_all2 same_queue qs qs' \<Longrightarrow> map qr_id qs' = map qr_id qs"
  by (induction rule: list_all2_induct) (simp_all add: same_queue_def)

lemma foreign_key_ids: "map qr_id qs' = map qr_id qs \<Longrightarrow> foreign_key qs' ms = foreign_key qs ms"
  by (simp add: foreign_key_def)

lemma update_tables:
  assumes "sql_update trigger p f db = Some (n, db')"
    and "\<And>m. m \<in> set (db_messages db) \<Longrightarrow> p m \<Longrightarrow>
      tallies (\<lambda>d k. share d k (f m) - share d k m) (trigger m (f m))"
  shows "db_messages db' = map (\<lambda>m. if p m then f m else m) (db_messages db)"
    "list_all2 (changed_by (\<lambda>d k. sum_list (map (\<lambda>m. share d k (f m) - share d k m) (filter p (db_messages db)))))
       (db_queues db) (db_queues db')"
    "foreign_key (db_queues db') (db_messages db')"
  using assms(1) tallies_fold [of "filter p (db_messages db)" "\<lambda>m d k. share d k (f m) - share d k m"
      "\<lambda>m. trigger m (f m)"] assms(2)
  by (auto simp: sql_update_def Let_def tallies_def split: if_splits)

lemma update_ok:
  assumes ok: "qdb_ok db" and run: "sql_update trigger p f db = Some (n, db')"
    and tally: "\<And>m. m \<in> set (db_messages db) \<Longrightarrow> p m \<Longrightarrow>
      tallies (\<lambda>d k. share d k (f m) - share d k m) (trigger m (f m))"
    and keep: "\<And>m. mr_rowid (f m) = mr_rowid m \<and> mr_id (f m) = mr_id m"
    and state: "\<And>m. m \<in> set (db_messages db) \<Longrightarrow> p m \<Longrightarrow> mr_state (f m) \<noteq> Dequeued"
  shows "qdb_ok db'"
proof -
  note t = update_tables [OF run tally]
  have ids: "map qr_id (db_queues db') = map qr_id (db_queues db)" using t(2) by (simp add: changed_ids)
  have keys: "map mr_rowid (db_messages db') = map mr_rowid (db_messages db)"
      "map mr_id (db_messages db') = map mr_id (db_messages db)"
    using keep by (simp_all add: t(1))
  have "exact (db_queues db') (db_messages db')"
    by (rule exact_changed [OF qdb_okD(7) [OF ok] t(2)]) (simp_all add: t(1) shares_map_if)
  moreover have "list_all (\<lambda>m. mr_state m \<noteq> Dequeued) (db_messages db')"
    using ok state by (auto simp: t(1) list_all_iff qdb_ok_def)
  ultimately show ?thesis
    using ok t(3) by (simp add: qdb_ok_def ids keys)
qed

lemma update_messages:
  "sql_update trigger p f db = Some (n, db') \<Longrightarrow> db_messages db' = map (\<lambda>m. if p m then f m else m) (db_messages db)"
  by (auto simp: sql_update_def Let_def split: if_splits)

lemma delete_messages: "sql_delete p db = Some (n, db') \<Longrightarrow> db_messages db' = filter (\<lambda>m. \<not> p m) (db_messages db)"
  by (auto simp: sql_delete_def)

lemma delete_tables:
  assumes "sql_delete p db = Some (n, db')" and "\<forall>m\<in>set (db_messages db). mr_state m \<noteq> Dequeued"
  shows "db_messages db' = filter (\<lambda>m. \<not> p m) (db_messages db)"
    "list_all2 (changed_by (\<lambda>d k. - shares d k (filter p (db_messages db)))) (db_queues db) (db_queues db')"
proof -
  show "db_messages db' = filter (\<lambda>m. \<not> p m) (db_messages db)"
    using assms(1) by (rule delete_messages)
  have "tallies (\<lambda>d k. sum_list (map (\<lambda>m. - share d k m) (filter p (db_messages db))))
      (fold delete_message (filter p (db_messages db)))"
    by (rule tallies_fold) (use assms(2) in \<open>auto intro: tallies_delete\<close>)
  moreover have "sum_list (map (\<lambda>m. - share d k m) ms) = - shares d k ms" for d k ms
    by (induction ms) auto
  ultimately show "list_all2 (changed_by (\<lambda>d k. - shares d k (filter p (db_messages db)))) (db_queues db) (db_queues db')"
    using assms(1) by (auto simp: sql_delete_def tallies_def)
qed

lemma distinct_map_filter_subset: "distinct (map f xs) \<Longrightarrow> distinct (map f (filter p xs))"
  by (induction xs) auto

lemma delete_ok: "stmt_keeps qdb_ok (sql_delete p)"
  unfolding stmt_keeps_def
proof (intro allI impI)
  fix db n db'
  assume ok: "qdb_ok db" and run: "sql_delete p db = Some (n, db')"
  have "\<forall>m\<in>set (db_messages db). mr_state m \<noteq> Dequeued" using qdb_okD(6) [OF ok] by blast
  note t = delete_tables [OF run this]
  have ids: "map qr_id (db_queues db') = map qr_id (db_queues db)" using t(2) by (simp add: changed_ids)
  have "exact (db_queues db') (db_messages db')"
    by (rule exact_changed [OF qdb_okD(7) [OF ok] t(2)]) (simp add: t(1) shares_filter [of _ _ p])
  moreover have "foreign_key (db_queues db') (db_messages db')"
    unfolding foreign_key_ids [OF ids] t(1)
    using qdb_okD(5) [OF ok] by (simp add: foreign_key_def list_all_iff)
  ultimately show "qdb_ok db'"
    using ok by (auto simp: qdb_ok_def ids t(1) list_all_iff distinct_map_filter_subset)
qed

lemma enqueue_ok:
  assumes "mr_state r = Added \<or> mr_state r = Enqueued"
  shows "stmt_keeps qdb_ok (sql_enqueue r)"
  unfolding stmt_keeps_def
proof (intro allI impI)
  fix db n db'
  assume ok: "qdb_ok db" and run: "sql_enqueue r db = Some (n, db')"
  define new where "new = r\<lparr>mr_rowid := sql_rowid (map mr_rowid (db_messages db))\<rparr>"
  have new: "mr_id r \<notin> set (map mr_id (db_messages db))" "mr_queue r \<in> set (map qr_id (db_queues db))"
    and t: "db_messages db' = db_messages db @ [new]" "db_queues db' = insert_message new (db_queues db)"
    using run by (auto simp: sql_enqueue_def Let_def new_def split: if_splits)
  have "tallies (\<lambda>d k. share d k new) (insert_message new)"
    by (rule tallies_insert) (use assms in \<open>simp add: new_def\<close>)
  then have c: "list_all2 (changed_by (\<lambda>d k. share d k new)) (db_queues db) (db_queues db')"
    by (simp add: tallies_def t(2))
  then have ids: "map qr_id (db_queues db') = map qr_id (db_queues db)" by (rule changed_ids)
  have "exact (db_queues db') (db_messages db')"
    by (rule exact_changed [OF qdb_okD(7) [OF ok] c]) (simp add: t(1))
  moreover have "foreign_key (db_queues db') (db_messages db')"
    using qdb_okD(5) [OF ok] new(2)
    by (simp only: foreign_key_ids [OF ids] t(1)) (simp add: foreign_key_def new_def)
  moreover have "mr_rowid new \<notin> set (map mr_rowid (db_messages db))"
    using sql_rowid_fresh [of "mr_rowid new" "map mr_rowid (db_messages db)"] by (auto simp: new_def)
  moreover have "mr_state new \<noteq> Dequeued" "mr_id new = mr_id r" using assms by (auto simp: new_def)
  ultimately show "qdb_ok db'"
    using ok new(1) by (simp add: qdb_ok_def ids t(1))
qed

lemma metric_reset_ok: "stmt_keeps qdb_ok (sql_metric_reset k)"
proof -
  have "tallies (\<lambda>d k. 0) (upd_queue k (\<lambda>q. q\<lparr>qr_dequeued := 0, qr_enqueued := 0\<rparr>))"
    by (rule tallies_upd) (auto simp: changed_by_def same_queue_def all_measures)
  then have c: "list_all2 (changed_by (\<lambda>d k. 0)) qs (upd_queue k (\<lambda>q. q\<lparr>qr_dequeued := 0, qr_enqueued := 0\<rparr>) qs)"
    for qs by (simp add: tallies_def)
  have e: "exact qs ms \<Longrightarrow> exact (upd_queue k (\<lambda>q. q\<lparr>qr_dequeued := 0, qr_enqueued := 0\<rparr>) qs) ms" for qs ms
    by (rule exact_changed [OF _ c]) simp_all
  show ?thesis
    by (auto simp: stmt_keeps_def sql_metric_reset_def qdb_ok_def changed_ids [OF c] e
        foreign_key_ids [OF changed_ids [OF c]])
qed

section \<open>Operations on messages\<close>

lemma state_stmt_ok:
  assumes "\<And>m. p m \<Longrightarrow> (mr_state m = Added \<longrightarrow> s = Enqueued)" and "s = Enqueued \<or> s = Removed"
    and "\<And>m. mr_rowid (f m) = mr_rowid m \<and> mr_id (f m) = mr_id m \<and> mr_queue (f m) = mr_queue m
      \<and> mr_payload (f m) = mr_payload m \<and> mr_state (f m) = s"
  shows "stmt_keeps qdb_ok (sql_update update_message_state p f)"
  unfolding stmt_keeps_def
proof (intro allI impI)
  fix db n db'
  assume "qdb_ok db" and "sql_update update_message_state p f db = Some (n, db')"
  then show "qdb_ok db'"
    by (rule update_ok) (use assms in \<open>auto intro: tallies_state\<close>)
qed

lemma queue_stmt_ok:
  assumes "\<And>m. m \<in> set (db_messages db) \<Longrightarrow> p m \<Longrightarrow> mr_state m \<noteq> Added"
    and "\<And>m. mr_rowid (f m) = mr_rowid m \<and> mr_id (f m) = mr_id m
      \<and> mr_payload (f m) = mr_payload m \<and> mr_state (f m) = mr_state m"
    and "qdb_ok db" and "sql_update update_message_queue p f db = Some (n, db')"
  shows "qdb_ok db'"
  by (rule update_ok [OF assms(3,4)])
    (use assms(1,2) qdb_okD(6) [OF assms(3)] in \<open>auto intro: tallies_queue\<close>)

lemma restore_ok [keeps_intros]: "act_keeps qdb_ok (qb_restore k)"
  unfolding qb_restore_def sql_restore_def
  by (intro keeps_run) (auto simp: stmt_keeps_def elim!: queue_stmt_ok [rotated 2])

lemma clear_ok [keeps_intros]: "act_keeps qdb_ok (qb_clear k)"
  unfolding qb_clear_def sql_clear_def by (intro keeps_run delete_ok)

lemma remove_messages_ok [keeps_intros]: "act_keeps qdb_ok (qb_remove_messages k is)"
  by (induction "is") (auto simp: sql_message_remove_def intro!: keeps_intros delete_ok)

lemma commit_ok [keeps_intros]: "act_keeps qdb_ok (qb_commit g)"
  unfolding qb_commit_def sql_commit1_def sql_commit2_def
  by (intro keeps_intros delete_ok state_stmt_ok [where s = Enqueued]) auto

lemma sql_first_by_in: "sql_first_by before xs = Some x \<Longrightarrow> x \<in> set xs"
  by (induction xs arbitrary: x) (auto split: option.splits if_splits)

lemma sql_first_by_None: "sql_first_by before xs = None \<longleftrightarrow> xs = []"
  by (cases xs) (auto split: option.splits)

lemma qb_fetch_in:
  "qb_fetch now r db = Some m \<Longrightarrow> m \<in> set (db_messages db) \<and> dequeueable (dr_queue r) now m"
  by (auto simp: qb_fetch_def sql_first_def sql_first_id_def sql_first_match_def
      dest!: sql_first_by_in find_Some_in split: option.splits if_splits)

lemma row_unique:
  "qdb_ok db \<Longrightarrow> m \<in> set (db_messages db) \<Longrightarrow> m' \<in> set (db_messages db) \<Longrightarrow> mr_rowid m' = mr_rowid m \<Longrightarrow> m' = m"
  using qdb_okD(3) by (auto simp: distinct_map inj_on_def)

lemma take_ok:
  assumes ok: "qdb_ok db" and m: "m \<in> set (db_messages db)" "mr_state m = Enqueued"
    and run: "qb_take t (mr_rowid m) db = Some (n, db')"
  shows "qdb_ok db'"
proof (cases "trid_null t")
  case True
  then show ?thesis using run ok delete_ok by (auto simp: qb_take_def sql_state_nullxid_def stmt_keeps_def)
next
  case False
  then have u: "sql_update update_message_state (\<lambda>x. mr_rowid x = mr_rowid m)
      (\<lambda>x. x\<lparr>mr_gtrid := gtrid t, mr_state := Removed\<rparr>) db = Some (n, db')"
    using run by (simp add: qb_take_def sql_state_xid_def)
  have only: "x \<in> set (db_messages db) \<Longrightarrow> mr_rowid x = mr_rowid m \<Longrightarrow> mr_state x = Enqueued" for x
    using row_unique [OF ok m(1)] m(2) by blast
  show ?thesis
    by (rule update_ok [OF ok u]) (auto dest: only intro!: tallies_state)
qed

lemma dequeue_ok [keeps_intros]: "act_keeps qdb_ok (qb_dequeue now r)"
  unfolding act_keeps_def
proof (intro allI impI)
  fix db assume ok: "qdb_ok db"
  show "qdb_ok (snd (qb_dequeue now r db))"
  proof (cases "qb_fetch now r db")
    case None
    then show ?thesis using ok by (simp add: qb_dequeue_def act_defs)
  next
    case (Some m)
    then have "m \<in> set (db_messages db)" "mr_state m = Enqueued"
      using qb_fetch_in by (auto simp: dequeueable_def)
    then show ?thesis using Some ok take_ok
      by (auto simp: qb_dequeue_def act_defs sql_run_def split: option.splits)
  qed
qed

lemma qb_enqueue_ok [keeps_intros]: "act_keeps qdb_ok (qb_enqueue now u r)"
  unfolding qb_enqueue_def Let_def
  by (intro keeps_intros enqueue_ok) (simp add: enqueue_row_def)

lemma rollback2_ok: "stmt_keeps qdb_ok (sql_rollback2 now g)"
  unfolding stmt_keeps_def
proof (intro allI impI)
  fix db n db'
  assume ok: "qdb_ok db" and run: "sql_rollback2 now g db = Some (n, db')"
  show "qdb_ok db'"
  proof (rule update_ok [OF ok])
    show "sql_update update_message_state (\<lambda>m. mr_gtrid m = g \<and> mr_state m = Removed)
           (\<lambda>m. m\<lparr>mr_state := Enqueued, mr_redelivered := mr_redelivered m + 1,
              mr_available := the (retry_available now (mr_queue m) (db_queues db))\<rparr>) db = Some (n, db')"
      using run by (simp add: sql_rollback2_def Let_def split: if_splits)
  qed (auto intro!: tallies_state)
qed

lemma rollback2_messages:
  "sql_rollback2 now g db = Some (n, db') \<Longrightarrow> db_messages db' =
     map (\<lambda>m. if mr_gtrid m = g \<and> mr_state m = Removed
              then m\<lparr>mr_state := Enqueued, mr_redelivered := mr_redelivered m + 1,
                mr_available := the (retry_available now (mr_queue m) (db_queues db))\<rparr> else m) (db_messages db)"
  by (auto simp: sql_rollback2_def Let_def dest: update_messages split: if_splits)

text \<open>After the first statement of a rollback no message of the transaction is uncommitted, so the
  third moves committed messages only.\<close>

definition none_added :: "bytes \<Rightarrow> qdb \<Rightarrow> bool" where
  "none_added g db \<longleftrightarrow> list_all (\<lambda>m. mr_gtrid m = g \<longrightarrow> mr_state m \<noteq> Added) (db_messages db)"

lemma act_spec_run:
  "(\<And>db n db'. P db \<Longrightarrow> f db = Some (n, db') \<Longrightarrow> Q db') \<Longrightarrow> (\<And>db. P db \<Longrightarrow> E db) \<Longrightarrow> act_spec P (sql_run f) (\<lambda>_. Q) E"
  by (auto simp: act_spec_def sql_run_def split: option.splits)

lemma rollback_ok [keeps_intros]: "act_keeps qdb_ok (qb_rollback now g)"
proof -
  let ?Q = "\<lambda>db. qdb_ok db \<and> none_added g db"
  have r1: "act_spec qdb_ok (sql_run (sql_rollback1 g)) (\<lambda>_. ?Q) qdb_ok"
  proof (rule act_spec_run)
    fix db n db'
    assume "qdb_ok db" and run: "sql_rollback1 g db = Some (n, db')"
    then have "qdb_ok db'" using delete_ok unfolding sql_rollback1_def stmt_keeps_def by blast
    moreover have "none_added g db'" using run by (auto simp: sql_rollback1_def sql_delete_def none_added_def list_all_iff)
    ultimately show "?Q db'" ..
  qed simp
  have r2: "act_spec ?Q (sql_run (sql_rollback2 now g)) (\<lambda>_. ?Q) qdb_ok"
  proof (rule act_spec_run)
    fix db n db'
    assume Q: "?Q db" and run: "sql_rollback2 now g db = Some (n, db')"
    then have "qdb_ok db'" using rollback2_ok unfolding stmt_keeps_def by blast
    moreover have "none_added g db'"
      unfolding none_added_def rollback2_messages [OF run] list.pred_map
      by (rule list.pred_mono_strong [OF Q [THEN conjunct2, unfolded none_added_def]]) simp
    ultimately show "?Q db'" ..
  qed simp
  have r3: "act_spec ?Q (sql_run (sql_rollback3 g)) (\<lambda>_. qdb_ok) qdb_ok"
  proof (rule act_spec_run)
    fix db n db'
    assume Q: "?Q db" and run: "sql_rollback3 g db = Some (n, db')"
    show "qdb_ok db'"
      by (rule queue_stmt_ok [OF _ _ _ run [unfolded sql_rollback3_def]]) (use Q in \<open>auto simp: none_added_def list_all_iff\<close>)
  qed simp
  show ?thesis
    unfolding qb_rollback_def act_keeps_spec
    by (rule act_spec_then [OF r1], rule act_spec_then [OF r2], rule act_spec_then [OF r3]) (simp add: act_spec_ret)
qed

lemma reset_ok [keeps_intros]: "act_keeps qdb_ok (qb_metric_reset ks)"
  unfolding qb_metric_reset_def by (intro keeps_intros metric_reset_ok)

section \<open>Operations on queues\<close>

lemma insert_queue_ok: "stmt_keeps qdb_ok (sql_insert_queue name count delay err now)"
  unfolding stmt_keeps_def
proof (intro allI impI)
  fix db n db'
  assume ok: "qdb_ok db" and run: "sql_insert_queue name count delay err now db = Some (n, db')"
  let ?k = "sql_rowid (map qr_id (db_queues db))"
  have fresh: "?k \<notin> set (map qr_id (db_queues db))"
    using sql_rowid_fresh [of ?k "map qr_id (db_queues db)"] by auto
  have "m \<in> set (db_messages db) \<Longrightarrow> share d ?k m = 0" for m d
    using foreign_keyD [OF qdb_okD(5) [OF ok], of m] fresh by (metis share_def)
  then have none: "shares d ?k (db_messages db) = 0" for d
    by (simp add: shares_def cong: map_cong)
  have "foreign_key (db_queues db') (db_messages db')"
    using qdb_okD(5) [OF ok] run by (auto simp: sql_insert_queue_def foreign_key_def list_all_iff split: if_splits)
  then show "qdb_ok db'"
    using ok run fresh none sql_rowid_pos [of "map qr_id (db_queues db)"]
    by (auto simp: sql_insert_queue_def qdb_ok_def exact_def all_measures positive_def split: if_splits)
qed

lemma update_queue_ok: "stmt_keeps qdb_ok (sql_update_queue k name count delay)"
proof -
  let ?f = "\<lambda>q. q\<lparr>qr_name := name, qr_retry_count := count, qr_retry_delay := delay\<rparr>"
  have ids: "map qr_id (upd_queue k ?f qs) = map qr_id qs" for qs by (simp add: upd_queue_def)
  have "exact qs ms \<Longrightarrow> exact (upd_queue k ?f qs) ms" for qs ms
    by (auto simp: exact_def upd_queue_def all_measures)
  then show ?thesis
    by (auto simp: stmt_keeps_def sql_update_queue_def qdb_ok_def ids foreign_key_ids [OF ids]
        split: if_splits)
qed

lemma delete_queue_ok: "stmt_keeps qdb_ok (sql_delete_queue k)"
  by (auto simp: stmt_keeps_def sql_delete_queue_def qdb_ok_def Let_def exact_def list_all_iff positive_def
      distinct_map_filter_subset split: if_splits)

lemma qb_update_ok: "act_keeps qdb_ok (qb_update now ws ks)"
proof -
  have a: "act_keeps qdb_ok (qb_remove_queue k)" for k
    unfolding qb_remove_queue_def qb_queue_def by (intro keeps_intros delete_queue_ok)
  have b: "act_keeps qdb_ok (qb_update_queue q)" for q
    unfolding qb_update_queue_def qb_queue_def by (intro keeps_intros update_queue_ok)
  have c: "act_keeps qdb_ok (qb_create now q)" for q
    unfolding qb_create_def by (intro keeps_intros insert_queue_ok)
  show ?thesis unfolding qb_update_def by (intro keeps_intros a b c)
qed

end
