(* ===== verification/QueuePairs.thy ===== *)
theory QueuePairs
  imports QueueInvariant
begin

text \<open>
  Queues and their error queues. The statement that moves a message to the error queue relies on
  the ids: \<open>We use the fact that error-queues are odd and queues are even\<close>. The operations on
  messages leave the ids alone, and the configuration creates and removes queues in pairs.
\<close>

section \<open>Operations on messages\<close>

definition frames :: "(queue_row list \<Rightarrow> queue_row list) \<Rightarrow> bool" where
  "frames g \<longleftrightarrow> (\<forall>qs. list_all2 same_queue qs (g qs))"

lemma same_queue_refl [simp]: "same_queue q q"
  by (simp add: same_queue_def)

lemma same_queue_trans: "same_queue p q \<Longrightarrow> same_queue q r \<Longrightarrow> same_queue p r"
  by (simp add: same_queue_def)

lemma same_queues_trans:
  "list_all2 same_queue ps qs \<Longrightarrow> list_all2 same_queue qs rs \<Longrightarrow> list_all2 same_queue ps rs"
  by (rule list_all2_trans [of same_queue same_queue same_queue]) (blast intro: same_queue_trans)

lemma frames_id: "frames (\<lambda>qs. qs)"
  by (simp add: frames_def list.rel_refl)

lemma frames_comp: "frames g \<Longrightarrow> frames h \<Longrightarrow> frames (\<lambda>qs. h (g qs))"
  unfolding frames_def by (blast intro: same_queues_trans)

lemma frames_upd: "(\<And>q. same_queue q (f q)) \<Longrightarrow> frames (upd_queue k f)"
  by (simp add: frames_def upd_queue_def list_all2_conv_all_nth)

lemma frames_fold: "(\<And>m. frames (g m)) \<Longrightarrow> frames (fold g ms)"
proof (induction ms)
  case Nil
  then show ?case using frames_id by (simp add: id_def)
next
  case (Cons m ms)
  then have "frames (\<lambda>qs. fold g ms (g m qs))" using frames_comp [of "g m" "fold g ms"] by blast
  then show ?case by (simp add: comp_def)
qed

lemma frames_triggers [simp]:
  "frames (insert_message m)" "frames (delete_message m)"
  "frames (update_message_state m n)" "frames (update_message_queue m n)"
proof -
  have upd: "list_all2 same_queue qs (upd_queue k f qs)" if "\<And>q. same_queue q (f q)" for k f qs
    using frames_upd [OF that] by (simp add: frames_def)
  have refl: "list_all2 same_queue qs qs" for qs by (simp add: list.rel_refl)
  show "frames (insert_message m)"
    by (cases "mr_state m") (auto simp: frames_def insert_message_def Let_def same_queue_def intro!: upd refl)
  show "frames (delete_message m)"
    by (cases "mr_state m") (auto simp: frames_def delete_message_def Let_def same_queue_def intro!: upd refl)
  show "frames (update_message_state m n)"
    by (auto simp: frames_def update_message_state_def same_queue_def intro!: upd refl)
  show "frames (update_message_queue m n)"
    by (auto simp: frames_def update_message_queue_def same_queue_def intro!: same_queues_trans [OF upd upd] refl)
qed

text \<open>The queues are the ones of the start, but for the counters.\<close>

definition queues_as :: "queue_row list \<Rightarrow> qdb \<Rightarrow> bool" where
  "queues_as qs db \<longleftrightarrow> list_all2 same_queue qs (db_queues db)"

lemma queues_as_update:
  "(\<And>m n. frames (trigger m n)) \<Longrightarrow> stmt_keeps (queues_as qs) (sql_update trigger p f)"
  using frames_fold [of "\<lambda>m. trigger m (f m)"]
  by (auto simp: stmt_keeps_def queues_as_def sql_update_def Let_def frames_def intro: same_queues_trans
      split: if_splits)

lemma queues_as_delete: "stmt_keeps (queues_as qs) (sql_delete p)"
  using frames_fold [of delete_message, OF frames_triggers(2)]
  by (auto simp: stmt_keeps_def queues_as_def sql_delete_def frames_def intro: same_queues_trans)

lemma queues_as_enqueue: "stmt_keeps (queues_as qs) (sql_enqueue r)"
  using frames_triggers(1)
  by (auto simp: stmt_keeps_def queues_as_def sql_enqueue_def Let_def frames_def intro: same_queues_trans
      split: if_splits)

lemma queues_as_reset: "stmt_keeps (queues_as qs) (sql_metric_reset k)"
proof -
  have "frames (upd_queue k (\<lambda>q. q\<lparr>qr_dequeued := 0, qr_enqueued := 0\<rparr>))"
    by (rule frames_upd) (simp add: same_queue_def)
  then show ?thesis
    by (auto simp: stmt_keeps_def queues_as_def sql_metric_reset_def frames_def intro: same_queues_trans)
qed

lemma queues_as_rollback2: "stmt_keeps (queues_as qs) (sql_rollback2 now g)"
  unfolding stmt_keeps_def
proof (intro allI impI)
  fix db n db'
  assume "queues_as qs db" and run: "sql_rollback2 now g db = Some (n, db')"
  then show "queues_as qs db'"
    using queues_as_update [of update_message_state qs] unfolding stmt_keeps_def sql_rollback2_def Let_def
    by (metis (no_types, lifting) frames_triggers(3) option.distinct(1))
qed

lemma queues_as_rollback3: "stmt_keeps (queues_as qs) (sql_rollback3 g)"
  using queues_as_update [of update_message_queue qs] by (simp add: stmt_keeps_def sql_rollback3_def)

lemma queues_as_messages [keeps_intros]:
  "act_keeps (queues_as qs) (qb_enqueue now u r)" "act_keeps (queues_as qs) (qb_dequeue now d)"
  "act_keeps (queues_as qs) (qb_commit g)" "act_keeps (queues_as qs) (qb_rollback now g)"
  "act_keeps (queues_as qs) (qb_restore k)" "act_keeps (queues_as qs) (qb_clear k)"
  "act_keeps (queues_as qs) (qb_remove_messages k is)" "act_keeps (queues_as qs) (qb_metric_reset ks)"
proof -
  show "act_keeps (queues_as qs) (qb_enqueue now u r)"
    unfolding qb_enqueue_def Let_def by (intro keeps_intros queues_as_enqueue)
  have "stmt_keeps (queues_as qs) (qb_take t k)" for t k
    by (simp add: qb_take_def sql_state_nullxid_def sql_state_xid_def queues_as_delete queues_as_update)
  then show "act_keeps (queues_as qs) (qb_dequeue now d)"
    unfolding qb_dequeue_def by (intro keeps_intros)
  show "act_keeps (queues_as qs) (qb_commit g)"
    unfolding qb_commit_def sql_commit1_def sql_commit2_def
    by (intro keeps_intros queues_as_delete queues_as_update) simp
  show "act_keeps (queues_as qs) (qb_rollback now g)"
    unfolding qb_rollback_def
    by (intro keeps_intros queues_as_rollback2 queues_as_rollback3) (simp add: sql_rollback1_def queues_as_delete)
  show "act_keeps (queues_as qs) (qb_restore k)"
    unfolding qb_restore_def sql_restore_def by (intro keeps_intros queues_as_update) simp
  show "act_keeps (queues_as qs) (qb_clear k)"
    unfolding qb_clear_def sql_clear_def by (intro keeps_intros queues_as_delete)
  show "act_keeps (queues_as qs) (qb_remove_messages k is)"
    by (induction "is") (auto simp: sql_message_remove_def intro!: keeps_intros queues_as_delete)
  show "act_keeps (queues_as qs) (qb_metric_reset ks)"
    unfolding qb_metric_reset_def by (intro keeps_intros queues_as_reset)
qed

section \<open>Pairs\<close>

definition pairs_of :: "queue_row list \<Rightarrow> (int \<times> int) set" where
  "pairs_of qs = set (map (\<lambda>q. (qr_id q, qr_error q)) qs)"

definition paired_set :: "(int \<times> int) set \<Rightarrow> bool" where
  "paired_set S \<longleftrightarrow> (\<forall>(k, err)\<in>S.
     if k mod 2 = 0 then err = k - 1 \<and> k - 1 \<in> fst ` S else err = 0 \<and> k + 1 \<in> fst ` S)"

definition queues_paired :: "queue_row list \<Rightarrow> bool" where
  "queues_paired qs \<longleftrightarrow> paired_set (pairs_of qs)"

lemma paired_setD:
  assumes "paired_set S" and "(k, err) \<in> S"
  shows "k mod 2 = 0 \<Longrightarrow> err = k - 1 \<and> k - 1 \<in> fst ` S" and "k mod 2 \<noteq> 0 \<Longrightarrow> err = 0 \<and> k + 1 \<in> fst ` S"
  using assms by (auto simp: paired_set_def split: if_splits)

lemma in_pairs_of: "q \<in> set qs \<Longrightarrow> (qr_id q, qr_error q) \<in> pairs_of qs"
  by (auto simp: pairs_of_def)

lemma ids_of_pairs: "fst ` pairs_of qs = set (map qr_id qs)"
  by (auto simp: pairs_of_def image_image)

definition qdb_paired :: "qdb \<Rightarrow> bool" where
  "qdb_paired db \<longleftrightarrow> qdb_ok db \<and> queues_paired (db_queues db)"

lemma paired_same: "list_all2 same_queue qs qs' \<Longrightarrow> queues_paired qs' = queues_paired qs"
proof -
  assume "list_all2 same_queue qs qs'"
  then have "map (\<lambda>q. (qr_id q, qr_error q)) qs' = map (\<lambda>q. (qr_id q, qr_error q)) qs"
    by (induction rule: list_all2_induct) (simp_all add: same_queue_def)
  then show ?thesis by (simp add: queues_paired_def pairs_of_def del: map_eq_conv)
qed

lemma keeps_paired:
  assumes "act_keeps qdb_ok f" and "\<And>qs. act_keeps (queues_as qs) f"
  shows "act_keeps qdb_paired f"
  unfolding act_keeps_def
proof (intro allI impI)
  fix db assume p: "qdb_paired db"
  have "queues_as (db_queues db) db" by (simp add: queues_as_def list.rel_refl)
  then have "queues_as (db_queues db) (snd (f db))" using assms(2) by (simp add: act_keeps_def)
  then have "queues_paired (db_queues (snd (f db)))"
    using p paired_same by (simp add: queues_as_def qdb_paired_def)
  then show "qdb_paired (snd (f db))"
    using p assms(1) by (simp add: qdb_paired_def act_keeps_def)
qed

section \<open>Configuration\<close>

text \<open>Removing a queue with an even id removes the pair; creating one adds the next pair.\<close>

lemma paired_remove:
  assumes S: "paired_set S" and k: "k mod 2 = 0"
  shows "paired_set {p \<in> S. fst p \<noteq> k \<and> fst p \<noteq> k - 1}" (is "paired_set ?T")
  unfolding paired_set_def
proof (rule ballI, clarsimp simp only: mem_Collect_eq fst_conv)
  fix j err
  assume p: "(j, err) \<in> S" "j \<noteq> k" "j \<noteq> k - 1"
  have kept: "i \<in> fst ` S \<Longrightarrow> i \<noteq> k \<Longrightarrow> i \<noteq> k - 1 \<Longrightarrow> i \<in> fst ` ?T" for i by force
  show "if j mod 2 = 0 then err = j - 1 \<and> j - 1 \<in> fst ` ?T else err = 0 \<and> j + 1 \<in> fst ` ?T"
  proof (cases "j mod 2 = 0")
    case True
    then have "j - 1 \<noteq> k" "j - 1 \<noteq> k - 1" using k p(2) by presburger+
    then show ?thesis using True paired_setD(1) [OF S p(1)] kept [of "j - 1"] by simp
  next
    case False
    then have "j + 1 \<noteq> k" "j + 1 \<noteq> k - 1" using k p(3) by presburger+
    then show ?thesis using False paired_setD(2) [OF S p(1)] kept [of "j + 1"] by simp
  qed
qed

lemma paired_insert:
  assumes S: "paired_set S" and k: "k mod 2 \<noteq> 0"
  shows "paired_set (S \<union> {(k, 0), (k + 1, k)})"
  unfolding paired_set_def
proof (rule ballI, clarsimp simp only:)
  fix j err
  assume p: "(j, err) \<in> S \<union> {(k, 0), (k + 1, k)}"
  have "(k + 1) mod 2 = 0" using k by presburger
  then show "if j mod 2 = 0 then err = j - 1 \<and> j - 1 \<in> fst ` (S \<union> {(k, 0), (k + 1, k)})
        else err = 0 \<and> j + 1 \<in> fst ` (S \<union> {(k, 0), (k + 1, k)})"
    using p k paired_setD [OF S, of j err] by (cases "j mod 2 = 0") auto
qed

definition queue_ids :: "qdb \<Rightarrow> int set" where
  "queue_ids db = set (map qr_id (db_queues db))"

lemma find_queue_in: "find_queue k qs = Some q \<Longrightarrow> q \<in> set qs \<and> qr_id q = k"
  by (auto simp: find_queue_def dest: find_Some_in)

lemma find_queue_None: "find_queue k qs = None \<longleftrightarrow> k \<notin> set (map qr_id qs)"
  by (auto simp: find_queue_def find_None_iff)

lemma remove_absent: "k \<notin> queue_ids db \<Longrightarrow> qb_remove_queue k db = (Inr (), db)"
  using find_queue_None [of k "db_queues db"]
  by (simp add: qb_remove_queue_def qb_queue_def act_defs queue_ids_def)

lemma delete_queue_result:
  assumes "sql_delete_queue k db = Some (n, db')"
  shows "db_queues db' = filter (\<lambda>q. qr_id q \<noteq> k) (db_queues db)"
  using assms by (auto simp: sql_delete_queue_def Let_def split: if_splits)

lemma remove_pair:
  assumes db: "qdb_paired db" and k: "k mod 2 = 0"
  shows "act_post (\<lambda>_ db'. qdb_paired db' \<and> queue_ids db' = queue_ids db - {k, k - 1}) (\<lambda>_. True)
    (qb_remove_queue k db)"
proof (cases "k \<in> queue_ids db")
  case False
  have "k - 1 \<notin> queue_ids db"
  proof
    assume "k - 1 \<in> queue_ids db"
    then obtain q where q: "q \<in> set (db_queues db)" "qr_id q = k - 1" by (auto simp: queue_ids_def)
    moreover have "(k - 1) mod 2 \<noteq> 0" using k by presburger
    ultimately have "k \<in> fst ` pairs_of (db_queues db)"
      using db paired_setD(2) [OF _ in_pairs_of [OF q(1)]] by (simp add: qdb_paired_def queues_paired_def)
    with False show False by (simp add: queue_ids_def ids_of_pairs)
  qed
  with False show ?thesis using db remove_absent by simp
next
  case True
  then obtain q where find: "find_queue k (db_queues db) = Some q"
    using find_queue_None by (cases "find_queue k (db_queues db)") (auto simp: queue_ids_def)
  then have q: "q \<in> set (db_queues db)" "qr_id q = k" using find_queue_in by blast+
  then have err: "qr_error q = k - 1"
    using db k paired_setD(1) [OF _ in_pairs_of [OF q(1)]] by (simp add: qdb_paired_def queues_paired_def)
  have run: "qb_remove_queue k db =
      act_then (sql_run (sql_delete_queue (k - 1))) (act_then (sql_run (sql_delete_queue k)) (act_ret ())) db"
    using find by (simp add: qb_remove_queue_def qb_queue_def act_bind_def act_get_def to_queue_def err q(2))
  have result: "qdb_paired db2 \<and> queue_ids db2 = queue_ids db - {k, k - 1}"
    if r: "sql_delete_queue (k - 1) db = Some (n1, db1)" "sql_delete_queue k db1 = Some (n2, db2)" for n1 n2 db1 db2
  proof -
    have "qdb_ok db2"
      using db r delete_queue_ok [of "k - 1"] delete_queue_ok [of k] unfolding stmt_keeps_def qdb_paired_def by blast
    moreover have qs: "db_queues db2 = filter (\<lambda>q. qr_id q \<noteq> k \<and> qr_id q \<noteq> k - 1) (db_queues db)"
      by (simp add: delete_queue_result [OF r(1)] delete_queue_result [OF r(2)] conj_commute)
    moreover have "pairs_of (filter (\<lambda>q. qr_id q \<noteq> k \<and> qr_id q \<noteq> k - 1) (db_queues db))
        = {p \<in> pairs_of (db_queues db). fst p \<noteq> k \<and> fst p \<noteq> k - 1}"
      by (auto simp: pairs_of_def)
    ultimately show ?thesis
      using db paired_remove [OF _ k] by (auto simp: qdb_paired_def queues_paired_def queue_ids_def)
  qed
  show ?thesis
    unfolding run by (auto simp: act_defs sql_run_def result split: option.splits)
qed

text \<open>The ids in \<open>X\<close> are not in use.\<close>

definition unused :: "int set \<Rightarrow> qdb \<Rightarrow> bool" where
  "unused X db \<longleftrightarrow> qdb_paired db \<and> queue_ids db \<inter> X = {}"

lemma remove_pairs:
  "list_all (\<lambda>k. k mod 2 = 0) ks \<Longrightarrow>
     act_spec (unused X) (act_each qb_remove_queue ks) (\<lambda>_. unused (X \<union> (\<Union>k\<in>set ks. {k, k - 1}))) (\<lambda>_. True)"
proof (induction ks arbitrary: X)
  case Nil
  then show ?case by (simp add: act_spec_ret)
next
  case (Cons k ks)
  have "act_spec (unused X) (qb_remove_queue k) (\<lambda>_. unused (X \<union> {k, k - 1})) (\<lambda>_. True)"
    unfolding act_spec_def
  proof (intro allI impI)
    fix db assume "unused X db"
    then show "act_post (\<lambda>_. unused (X \<union> {k, k - 1})) (\<lambda>_. True) (qb_remove_queue k db)"
      using remove_pair [of db k] Cons.prems by (auto simp: unused_def elim!: act_post_weaken)
  qed
  moreover have "X \<union> {k, k - 1} \<union> (\<Union>k\<in>set ks. {k, k - 1}) = X \<union> (\<Union>k\<in>set (k # ks). {k, k - 1})" by auto
  ultimately show ?case
    using Cons.IH [of "X \<union> {k, k - 1}"] Cons.prems
    by (auto intro!: act_spec_bind act_spec_ret)
qed

lemma remove_none:
  "set ks \<subseteq> X \<Longrightarrow> act_spec (unused X) (act_each qb_remove_queue ks) (\<lambda>_. unused X) (\<lambda>_. True)"
proof (induction ks)
  case (Cons k ks)
  have "act_spec (unused X) (qb_remove_queue k) (\<lambda>_. unused X) (\<lambda>_. True)"
    unfolding act_spec_def
  proof (intro allI impI)
    fix db assume u: "unused X db"
    then have "k \<notin> queue_ids db" using Cons.prems by (auto simp: unused_def)
    then show "act_post (\<lambda>_. unused X) (\<lambda>_. True) (qb_remove_queue k db)" using u by (simp add: remove_absent)
  qed
  then show ?case using Cons by (auto intro!: act_spec_bind act_spec_ret)
qed (simp add: act_spec_ret)

lemma act_each_append:
  "act_each f (xs @ ys) = act_bind (act_each f xs) (\<lambda>us. act_bind (act_each f ys) (\<lambda>vs. act_ret (us @ vs)))"
proof (induction xs)
  case Nil
  show ?case by (simp add: fun_eq_iff act_bind_def act_ret_def split: prod.splits sum.splits)
next
  case (Cons x xs)
  then show ?case by (simp add: fun_eq_iff act_bind_def act_ret_def split: prod.splits sum.splits)
qed

lemma update_queue_paired: "act_keeps qdb_paired (qb_update_queue q)"
proof -
  have s: "stmt_keeps qdb_paired (sql_update_queue k name count delay)" for k name count delay
    unfolding stmt_keeps_def
  proof (intro allI impI)
    fix db n db'
    assume p: "qdb_paired db" and run: "sql_update_queue k name count delay db = Some (n, db')"
    have "map (\<lambda>q. (qr_id q, qr_error q)) (db_queues db') = map (\<lambda>q. (qr_id q, qr_error q)) (db_queues db)"
      using run by (auto simp: sql_update_queue_def upd_queue_def split: if_splits)
    then have "pairs_of (db_queues db') = pairs_of (db_queues db)" unfolding pairs_of_def by (rule arg_cong)
    moreover have "qdb_ok db'" using p run update_queue_ok unfolding stmt_keeps_def qdb_paired_def by blast
    ultimately show "qdb_paired db'" using p by (simp add: qdb_paired_def queues_paired_def)
  qed
  show ?thesis unfolding qb_update_queue_def qb_queue_def by (intro keeps_intros s)
qed

text \<open>The next row id is odd: the largest id in use is even.\<close>

lemma sql_rowid_in:
  assumes "ids \<noteq> []" and pos: "\<forall>k\<in>set ids. 0 < k"
  shows "sql_rowid ids - 1 \<in> set ids"
proof -
  have fold: "fold max ids j = j \<or> fold max ids j \<in> set ids" for j :: int
    by (induction ids arbitrary: j) (auto simp: max_def)
  obtain k where k: "k \<in> set ids" using assms(1) by (cases ids) auto
  then have "0 < k" "k < fold max ids 0 + 1" using pos sql_rowid_fresh [of k ids] by (auto simp: sql_rowid_def)
  then have "fold max ids 0 \<noteq> 0" by linarith
  then show ?thesis using fold [of 0] by (simp add: sql_rowid_def)
qed

lemma rowid_odd:
  assumes db: "qdb_paired db"
  shows "sql_rowid (map qr_id (db_queues db)) mod 2 \<noteq> 0"
proof (cases "db_queues db = []")
  case False
  let ?k = "sql_rowid (map qr_id (db_queues db))"
  have "?k - 1 \<in> set (map qr_id (db_queues db))"
    using False db by (intro sql_rowid_in) (auto simp: qdb_paired_def qdb_ok_def positive_def)
  then obtain q where q: "q \<in> set (db_queues db)" "qr_id q = ?k - 1" by auto
  show ?thesis
  proof
    assume even: "?k mod 2 = 0"
    then have "(?k - 1) mod 2 \<noteq> 0" by presburger
    then have "?k \<in> fst ` pairs_of (db_queues db)"
      using db paired_setD(2) [OF _ in_pairs_of [OF q(1)]] q(2) by (simp add: qdb_paired_def queues_paired_def)
    then have "?k \<in> set (map qr_id (db_queues db))" by (simp only: ids_of_pairs)
    then show False using sql_rowid_fresh by fastforce
  qed
qed (simp add: sql_rowid_def)

lemma insert_queue_result:
  assumes "sql_insert_queue name count delay err now db = Some (n, db')"
  shows "last_rowid db' = sql_rowid (map qr_id (db_queues db))"
    "map qr_id (db_queues db') = map qr_id (db_queues db) @ [sql_rowid (map qr_id (db_queues db))]"
    "pairs_of (db_queues db') = pairs_of (db_queues db) \<union> {(sql_rowid (map qr_id (db_queues db)), err)}"
  using assms by (auto simp: sql_insert_queue_def last_rowid_def pairs_of_def split: if_splits)

lemma sql_rowid_snoc: "sql_rowid (ids @ [sql_rowid ids]) = sql_rowid ids + 1"
  by (simp add: sql_rowid_def)

lemma create_paired: "act_spec qdb_paired (qb_create now q) (\<lambda>_. qdb_paired) (\<lambda>_. True)"
  unfolding act_spec_def
proof (intro allI impI)
  fix db assume p: "qdb_paired db"
  let ?k = "sql_rowid (map qr_id (db_queues db))"
  have "qdb_paired db2"
    if r: "sql_insert_queue (qd_name q @ ''.error'') 0 0 0 now db = Some (n1, db1)"
      "sql_insert_queue (qd_name q) (qd_retry_count q) (qd_retry_delay q) (last_rowid db1) now db1 = Some (n2, db2)"
    for n1 n2 db1 db2
  proof -
    note a = insert_queue_result [OF r(1)] and b = insert_queue_result [OF r(2)]
    have "qdb_ok db2"
      using p r insert_queue_ok unfolding stmt_keeps_def qdb_paired_def by blast
    moreover have "pairs_of (db_queues db2) = pairs_of (db_queues db) \<union> {(?k, 0), (?k + 1, ?k)}"
      by (simp add: a b sql_rowid_snoc insert_commute)
    ultimately show ?thesis
      using p paired_insert [OF _ rowid_odd [OF p]] by (simp add: qdb_paired_def queues_paired_def)
  qed
  then show "act_post (\<lambda>_. qdb_paired) (\<lambda>_. True) (qb_create now q db)"
    by (auto simp: qb_create_def act_defs sql_run_def split: option.splits)
qed

lemma create_each_paired: "act_spec qdb_paired (act_each (qb_create now) qs) (\<lambda>_. qdb_paired) (\<lambda>_. True)"
  by (induction qs) (auto intro!: act_spec_ret act_spec_bind [OF create_paired] elim: act_spec_bind)

text \<open>An update that removes queues together with their error queues keeps the pairs.\<close>

lemma qb_update_paired:
  assumes "list_all (\<lambda>p. qr_id (fst p) mod 2 = 0 \<and> qr_id (snd p) = qr_id (fst p) - 1) ps"
  shows "act_spec qdb_paired (qb_update now ws (pair_ids ps)) (\<lambda>_. qdb_paired) (\<lambda>_. True)"
proof -
  let ?ks = "map (qr_id \<circ> fst) ps" and ?es = "map (qr_id \<circ> snd) ps"
  let ?X = "\<Union>k\<in>set ?ks. {k, k - 1}"
  have a: "act_spec (unused {}) (act_each qb_remove_queue ?ks) (\<lambda>_. unused ?X) (\<lambda>_. True)"
    using remove_pairs [of ?ks "{}"] assms by (simp add: list_all_iff)
  have b: "act_spec (unused ?X) (act_each qb_remove_queue ?es) (\<lambda>_. unused ?X) (\<lambda>_. True)"
    by (rule remove_none) (use assms in \<open>auto simp: list_all_iff\<close>)
  have "act_spec qdb_paired (act_each qb_remove_queue (pair_ids ps)) (\<lambda>_. qdb_paired) (\<lambda>_. True)"
    unfolding pair_ids_def act_each_append
    by (rule act_spec_weaken [OF act_spec_bind [OF a act_spec_bind [OF b act_spec_ret]]]) (auto simp: unused_def)
  note remove = this
  have update: "act_spec qdb_paired (act_each qb_update_queue xs) (\<lambda>_. qdb_paired) (\<lambda>_. True)" for xs
    using keeps_each [where f = qb_update_queue and xs = xs, OF update_queue_paired] unfolding act_keeps_spec
    by (rule act_spec_weaken) auto
  show ?thesis
    unfolding qb_update_def
    by (rule act_spec_then [OF remove act_spec_then [OF update create_each_paired]])
qed

end
