(* ===== verification/QueueKept.thy ===== *)
theory QueueKept
  imports QueuePairs
begin

text \<open>
  The interface between the handlers of a queue group and a predicate of its tables: what the
  operations of the queue-base have to promise, as the assumptions of a locale, and what every
  sequence of messages keeps then: the predicate for the tables, for the committed tables once a
  reply that promises durability is sent, and a property of what is sent after the first
  \<open>sent\<close> entries of the outbox.
\<close>

section \<open>Rules\<close>

lemma keeps_leave: "act_keeps P f \<Longrightarrow> (\<And>s. P s \<Longrightarrow> P (g s)) \<Longrightarrow> act_keeps P (act_leave f g)"
  by (simp add: act_keeps_def act_leave_def case_prod_beta)

lemma keeps_catch: "act_keeps P f \<Longrightarrow> act_keeps P (act_catch f x)"
  unfolding act_keeps_def act_catch_def
proof (intro allI impI)
  fix s assume "\<forall>s. P s \<longrightarrow> P (snd (f s))" "P s"
  then have "P (snd (f s))" by blast
  then show "P (snd (case f s of (Inl e, s') \<Rightarrow> (Inr x, s') | (Inr y, s') \<Rightarrow> (Inr y, s')))"
    by (cases "f s" rule: act_cases) simp_all
qed

lemma keeps_bind_result:
  assumes "act_spec P f (\<lambda>x s. P s \<and> R x) P" and "\<And>x. R x \<Longrightarrow> act_keeps P (g x)"
  shows "act_keeps P (act_bind f g)"
  unfolding act_keeps_spec
proof (rule act_spec_bind [OF assms(1)])
  fix x show "act_spec (\<lambda>s. P s \<and> R x) (g x) (\<lambda>_. P) P"
    using assms(2) by (cases "R x") (simp_all add: act_keeps_spec, simp add: act_spec_def)
qed

lemma on_base_get: "qg_base s = Some db \<Longrightarrow> on_base (act_get f) s = (Inr (f db), s)"
  by (cases s) (simp add: on_base_def act_get_def)

locale base_kept =
  fixes P :: "qdb \<Rightarrow> bool"
    and unopened :: bool
    and ok_enqueue :: "trid \<Rightarrow> bool"
    and ok_dequeue :: "trid \<Rightarrow> bool"
    and ok_end :: "bytes \<Rightarrow> bool"
    and good :: "group_reply \<Rightarrow> bool"
    and durable :: "group_reply \<Rightarrow> bool"
    and always :: bool
    and sent :: nat
  assumes enqueue_kept: "ok_enqueue (er_trid r) \<Longrightarrow> act_keeps P (qb_enqueue now u r)"
    and dequeue_kept: "ok_dequeue (dr_trid d) \<Longrightarrow>
      act_spec P (qb_dequeue now d) (\<lambda>ms db. P db \<and> good (Dequeue_reply corr ms)) P"
    and commit_kept: "ok_end g \<Longrightarrow> act_keeps P (qb_commit g)"
    and rollback_kept: "ok_end g \<Longrightarrow> act_keeps P (qb_rollback now g)"
    and restore_kept: "act_keeps P (qb_restore k)"
    and clear_kept: "act_keeps P (qb_clear k)"
    and remove_kept: "act_keeps P (qb_remove_messages k is)"
    and reset_kept: "act_keeps P (qb_metric_reset ks)"
    and update_kept: "P db \<Longrightarrow>
      list_all (\<lambda>p. fst p \<in> set (db_queues db) \<and> qr_error (fst p) \<noteq> 0 \<and> qr_id (snd p) = qr_error (fst p)) ps \<Longrightarrow>
      act_post (\<lambda>_. P) (\<lambda>_. True) (qb_update now ws (pair_ids ps) db)"
    and other_replies: "(\<And>c ms. m \<noteq> Dequeue_reply c ms) \<Longrightarrow> good m"
    and opened: "unopened \<Longrightarrow> always"
    and durable_replies: "durable m \<Longrightarrow> \<exists>k c t i x. m = Resource_reply k c t i x \<and> k \<noteq> Prepare_kind"
begin

definition kept :: "qgroup \<Rightarrow> bool" where
  "kept s \<longleftrightarrow> (case qg_base s of None \<Rightarrow> unopened | Some db \<Rightarrow> P db)
     \<and> list_all (\<lambda>r. ok_dequeue (dr_trid r)) (qg_dequeues s)
     \<and> list_all (\<lambda>x. good (snd x)) (qg_replies s)
     \<and> sent \<le> length (qg_outbox s) \<and> list_all (\<lambda>x. good (snd x)) (drop sent (qg_outbox s))
     \<and> (always \<or> list_ex (\<lambda>x. durable (snd x)) (drop sent (qg_outbox s)) \<longrightarrow> P (qg_saved s))"

definition allowed :: "group_env \<Rightarrow> group_message \<Rightarrow> bool" where
  "allowed e m \<longleftrightarrow> (\<forall>xs. set (ge_order e xs) \<subseteq> set xs) \<and>
     (case m of
        Enqueue_request r \<Rightarrow> ok_enqueue (er_trid r)
      | Dequeue_request r \<Rightarrow> ok_dequeue (dr_trid r)
      | Commit_request r \<Rightarrow> ok_end (gtrid (rq_trid r))
      | Rollback_request r \<Rightarrow> ok_end (gtrid (rq_trid r))
      | Group_update h c model \<Rightarrow> unopened \<longrightarrow> (\<forall>a b db. ge_open e a b = Some db \<longrightarrow> P db)
      | _ \<Rightarrow> True)"

lemma on_base_kept:
  assumes "act_spec P f (\<lambda>x db. P db \<and> R x) P"
  shows "act_spec kept (on_base f) (\<lambda>x s. kept s \<and> R x) kept"
  unfolding act_spec_def
proof (intro allI impI)
  fix s assume k: "kept s"
  show "act_post (\<lambda>x s. kept s \<and> R x) kept (on_base f s)"
  proof (cases "qg_base s")
    case None
    then show ?thesis using k by (simp add: on_base_def)
  next
    case (Some db)
    then have "act_post (\<lambda>x db. P db \<and> R x) P (f db)"
      using k assms by (simp add: kept_def act_spec_def)
    then show ?thesis
      using k Some by (cases "f db" rule: act_cases) (auto simp: on_base_def kept_def)
  qed
qed

lemma keeps_on_base: "act_keeps P f \<Longrightarrow> act_keeps kept (on_base f)"
  using on_base_kept [where f = f and R = "\<lambda>_. True"] by (simp add: act_keeps_spec)

lemma keeps_on_get: "act_keeps kept (on_base (act_get f))"
  by (rule keeps_on_base) (rule keeps_get)

lemma kept_persist: "kept s \<Longrightarrow> kept (base_persist s)"
  by (auto simp: kept_def base_persist_def split: option.splits)

lemma kept_post: "kept s \<Longrightarrow> good m \<Longrightarrow> \<not> durable m \<Longrightarrow> kept (group_post d m s)"
  by (auto simp: kept_def group_post_def)

lemma kept_send: "kept s \<Longrightarrow> good m \<Longrightarrow> \<not> durable m \<Longrightarrow> kept (group_send e h m s)"
  by (simp add: group_send_def kept_post)

text \<open>Replies other than those of a dequeue are good, and those that are no answer to the
  transaction manager promise nothing.\<close>

lemma not_durable: "(\<And>k c t i x. m = Resource_reply k c t i x \<Longrightarrow> k = Prepare_kind) \<Longrightarrow> \<not> durable m"
  using durable_replies by blast

lemma keeps_send:
  assumes "\<And>c ms. m \<noteq> Dequeue_reply c ms" and "\<And>k c t i x. m = Resource_reply k c t i x \<Longrightarrow> k = Prepare_kind"
  shows "act_keeps kept (act_upd (group_send e h m))"
  by (rule keeps_upd) (rule kept_send [OF _ other_replies [OF assms(1)] not_durable [OF assms(2)]])

lemma keeps_post:
  assumes "\<And>c ms. m \<noteq> Dequeue_reply c ms" and "\<And>k c t i x. m = Resource_reply k c t i x \<Longrightarrow> k = Prepare_kind"
  shows "kept s \<Longrightarrow> kept (group_post d m s)"
  by (rule kept_post [OF _ other_replies [OF assms(1)] not_durable [OF assms(2)]])

lemma keeps_blocking:
  assumes "\<And>c ms. m \<noteq> Dequeue_reply c ms" and "\<And>k c t i x. m \<noteq> Resource_reply k c t i x"
  shows "act_keeps kept (group_blocking_send e h m)"
  unfolding group_blocking_send_def
  by (intro keeps_if keeps_raise keeps_upd keeps_post) (simp_all add: assms)

lemma keeps_involved: "act_keeps kept (group_involved e t)"
proof -
  have "kept s \<Longrightarrow> kept ((group_post Group_tm (Involved_external t) s)\<lparr>qg_involved := x\<rparr>)" for s x
    using keeps_post [of "Involved_external t" s Group_tm] by (simp add: kept_def group_post_def)
  then show ?thesis by (simp add: act_keeps_def group_involved_def)
qed

section \<open>Dequeue\<close>

lemma kept_timer: "kept s \<Longrightarrow> kept (timer_set now d s)" "kept s \<Longrightarrow> kept (timer_unset s)"
proof -
  show "kept s \<Longrightarrow> kept (timer_set now d s)"
    using keeps_post [of Alarm_signal s Group_self] by (simp add: timer_set_def) (simp add: kept_def)
  show "kept s \<Longrightarrow> kept (timer_unset s)" by (simp add: timer_unset_def kept_def)
qed

lemma kept_pend: "kept s \<Longrightarrow> list_all (\<lambda>r. ok_dequeue (dr_trid r)) rs \<Longrightarrow> kept (s\<lparr>qg_dequeues := qg_dequeues s @ rs\<rparr>)"
  by (simp add: kept_def)

lemma keeps_block:
  assumes "ok_dequeue (dr_trid r)"
  shows "act_keeps kept (dequeue_block e r)"
  unfolding dequeue_block_def Let_def
  by (intro keeps_bind keeps_on_get keeps_upd kept_pend)
    (auto simp: assms kept_timer split: option.splits)

lemma keeps_dequeue_handle:
  assumes "ok_dequeue (dr_trid r)"
  shows "act_keeps kept (dequeue_handle e r)"
  unfolding dequeue_handle_def
proof (rule keeps_bind_result [where R = "\<lambda>ms. good (Dequeue_reply (dr_corr r) ms)"])
  show "act_spec kept (on_base (qb_dequeue (ge_now e) r)) (\<lambda>ms s. kept s \<and> good (Dequeue_reply (dr_corr r) ms)) kept"
    by (rule on_base_kept) (rule dequeue_kept [OF assms])
next
  fix ms assume g: "good (Dequeue_reply (dr_corr r) ms)"
  have "\<not> durable (Dequeue_reply (dr_corr r) ms)" using durable_replies by blast
  then have send: "kept s \<Longrightarrow> kept (group_send e (dr_process r) (Dequeue_reply (dr_corr r) ms) s)" for s
    using g kept_send by blast
  then show "act_keeps kept
      (let reply = group_send e (dr_process r) (Dequeue_reply (dr_corr r) ms)
       in if ms \<noteq> []
          then act_leave
            (act_then (if trid_null (dr_trid r) then act_ret () else group_involved e (dr_trid r)) (act_ret True)) reply
          else if dr_block r
          then act_then (dequeue_block e r) (act_ret False)
          else act_then (act_upd reply) (act_ret True))"
    unfolding Let_def
    by (intro keeps_if keeps_leave keeps_then keeps_ret keeps_involved keeps_block [OF assms] keeps_upd) auto
qed

lemma keeps_dequeue_request:
  assumes "ok_dequeue (dr_trid r)"
  shows "act_keeps kept (dequeue_request_handler e r)"
proof -
  have "act_keeps P (qb_message_id k name)" for k name
    unfolding qb_message_id_def qb_id_def by (intro keeps_intros)
  then show ?thesis
    unfolding dequeue_request_handler_def using assms
    by (intro keeps_catch keeps_bind keeps_on_base keeps_dequeue_handle) simp_all
qed

lemma serve_queue_kept:
  "list_all (\<lambda>r. ok_dequeue (dr_trid r)) rs \<Longrightarrow>
     act_spec kept (serve_queue e n rs) (\<lambda>left s. kept s \<and> list_all (\<lambda>r. ok_dequeue (dr_trid r)) left) kept"
proof (induction rs arbitrary: n)
  case Nil
  then show ?case by (simp add: act_spec_ret)
next
  case (Cons r rs)
  show ?case
  proof (cases "n < 1")
    case True
    have "act_spec (\<lambda>s. kept s \<and> list_all (\<lambda>r. ok_dequeue (dr_trid r)) left) (act_ret (r # left))
        (\<lambda>left s. kept s \<and> list_all (\<lambda>r. ok_dequeue (dr_trid r)) left) kept" for left
      using Cons.prems by (intro act_spec_ret) simp
    then show ?thesis using True Cons by (auto intro!: act_spec_bind [OF Cons.IH])
  next
    case False
    have "act_spec kept (dequeue_request_handler e r) (\<lambda>_. kept) kept"
      using keeps_dequeue_request Cons.prems by (simp add: act_keeps_spec)
    then show ?thesis using False Cons by (auto intro!: act_spec_bind Cons.IH)
  qed
qed

lemma keeps_serve_queues:
  assumes order: "\<forall>xs. set (ge_order e xs) \<subseteq> set xs"
  shows "list_all (\<lambda>r. ok_dequeue (dr_trid r)) rs \<Longrightarrow> act_keeps kept (serve_queues e avs rs)"
proof (induction avs arbitrary: rs)
  case (Cons a avs)
  let ?mine = "ge_order e (filter (\<lambda>r. dr_queue r = qa_queue a) rs)"
  have "set ?mine \<subseteq> set (filter (\<lambda>r. dr_queue r = qa_queue a) rs)" using order by blast
  then have mine: "list_all (\<lambda>r. ok_dequeue (dr_trid r)) ?mine"
    using Cons.prems by (auto simp: list_all_iff)
  have rest: "list_all (\<lambda>r. ok_dequeue (dr_trid r)) (filter (\<lambda>r. dr_queue r \<noteq> qa_queue a) rs)"
    using Cons.prems by (auto simp: list_all_iff)
  show ?case
    unfolding serve_queues.simps
    by (rule keeps_bind_result [OF serve_queue_kept [OF mine]])
      (intro keeps_then keeps_upd kept_pend Cons.IH rest, assumption+)
qed (simp add: keeps_ret)

lemma keeps_pending_dequeues:
  assumes order: "\<forall>xs. set (ge_order e xs) \<subseteq> set xs"
  shows "act_keeps kept (pending_dequeues e)"
proof -
  have taken: "act_spec kept (act_state (pending_extract ks))
      (\<lambda>rs s. kept s \<and> list_all (\<lambda>r. ok_dequeue (dr_trid r)) rs) kept" for ks
    by (auto simp: act_spec_def act_state_def pending_extract_def kept_def list_all_iff)
  have future: "kept s \<Longrightarrow> kept (timer_future e avs s)" for avs s
    by (simp add: timer_future_def kept_timer split: list.splits)
  show ?thesis
    unfolding pending_dequeues_def Let_def
    by (intro keeps_bind keeps_get keeps_if keeps_ret keeps_on_get keeps_bind_result [OF taken]
        keeps_then keeps_upd future keeps_serve_queues [OF order]) assumption+
qed

section \<open>Persist\<close>

lemma keeps_pending_send:
  "kept s \<Longrightarrow> P (qg_saved s) \<Longrightarrow> list_all (\<lambda>x. good (snd x)) ms \<Longrightarrow> kept (pending_send e ms s)"
proof (induction ms arbitrary: s)
  case (Cons x ms)
  obtain h m where x: "x = (h, m)" by (cases x)
  have "kept (group_send e h m s)"
    using Cons.prems by (auto simp: x group_send_def group_post_def kept_def)
  moreover have "qg_saved (group_send e h m s) = qg_saved s"
    by (simp add: group_send_def group_post_def)
  ultimately show ?case using Cons by (simp add: pending_send_def x)
qed (simp add: pending_send_def)

lemma saved_after_persist: "kept s \<Longrightarrow> P (qg_saved (base_persist s))"
  using opened by (auto simp: kept_def base_persist_def split: option.splits)

lemma keeps_persist:
  assumes order: "\<forall>xs. set (ge_order e xs) \<subseteq> set xs"
  shows "act_keeps kept (group_persist e)"
proof -
  have send: "kept (pending_send e (qg_replies s) ((base_persist s)\<lparr>qg_replies := []\<rparr>))" if k: "kept s" for s
  proof (rule keeps_pending_send)
    show "kept ((base_persist s)\<lparr>qg_replies := []\<rparr>)" using kept_persist [OF k] by (simp add: kept_def)
    show "P (qg_saved ((base_persist s)\<lparr>qg_replies := []\<rparr>))" using saved_after_persist [OF k] by simp
    show "list_all (\<lambda>x. good (snd x)) (qg_replies s)" using k by (simp add: kept_def)
  qed
  show ?thesis
    unfolding act_keeps_def
  proof (intro allI impI)
    fix s assume k: "kept s"
    show "kept (snd (group_persist e s))"
    proof (cases "qg_replies s = []")
      case True
      then show ?thesis using k by (simp add: group_persist_def act_defs)
    next
      case False
      then have "group_persist e s =
          pending_dequeues e (pending_send e (qg_replies s) ((base_persist s)\<lparr>qg_replies := []\<rparr>))"
        by (simp add: group_persist_def act_defs)
      then show ?thesis using send [OF k] keeps_pending_dequeues [OF order] by (simp add: act_keeps_def)
    qed
  qed
qed

lemma keeps_persistent_reply:
  assumes "\<forall>xs. set (ge_order e xs) \<subseteq> set xs" and "\<And>c ms. m \<noteq> Dequeue_reply c ms"
  shows "act_keeps kept (persistent_reply e h m)"
proof -
  have "good m" using assms(2) by (rule other_replies)
  then show ?thesis
    unfolding persistent_reply_def
    by (intro keeps_then keeps_upd keeps_bind keeps_get keeps_if keeps_ret keeps_persist assms(1))
      (simp add: kept_def)
qed

section \<open>Messages\<close>

lemma keeps_message_id: "act_keeps kept (on_base (qb_message_id k name))"
  unfolding qb_message_id_def qb_id_def by (intro keeps_on_base keeps_intros)

lemma keeps_enqueue:
  assumes "\<forall>xs. set (ge_order e xs) \<subseteq> set xs" and "ok_enqueue (er_trid r)"
  shows "act_keeps kept (enqueue_request_handler e r)"
proof -
  have "act_keeps P (qb_enqueue (ge_now e) (ge_uuid e) (r\<lparr>er_queue := k\<rparr>))" for k
    using enqueue_kept [of "r\<lparr>er_queue := k\<rparr>"] assms(2) by simp
  then show ?thesis
    unfolding enqueue_request_handler_def Let_def
    by (intro keeps_catch keeps_bind keeps_message_id keeps_on_base keeps_if keeps_then keeps_involved
        keeps_send keeps_persistent_reply assms(1)) simp_all
qed

lemma keeps_base_code: "act_keeps P f \<Longrightarrow> act_keeps kept (base_code f)"
  unfolding base_code_def by (intro keeps_catch keeps_then keeps_on_base keeps_ret)

lemma kept_done: "kept s \<Longrightarrow> kept (group_transaction_done t s)"
  by (simp add: kept_def group_transaction_done_def)

lemma keeps_commit:
  assumes "\<forall>xs. set (ge_order e xs) \<subseteq> set xs" and "ok_end (gtrid (rq_trid r))"
  shows "act_keeps kept (group_commit_handler e r)"
  unfolding group_commit_handler_def resource_reply_def
  by (intro keeps_then keeps_upd kept_done keeps_bind keeps_base_code commit_kept keeps_persistent_reply assms) simp_all

lemma keeps_rollback:
  assumes "\<forall>xs. set (ge_order e xs) \<subseteq> set xs" and "ok_end (gtrid (rq_trid r))"
  shows "act_keeps kept (group_rollback_handler e r)"
  unfolding group_rollback_handler_def resource_reply_def
  by (intro keeps_then keeps_upd kept_done keeps_bind keeps_base_code rollback_kept keeps_persistent_reply assms) simp_all

lemma keeps_queue_affected: "act_keeps P (f k) \<Longrightarrow> act_keeps kept (on_base (queue_affected f k))"
  unfolding queue_affected_def qb_queue_def by (intro keeps_on_base keeps_bind keeps_get keeps_ret)

lemma keeps_restore:
  assumes "\<forall>xs. set (ge_order e xs) \<subseteq> set xs"
  shows "act_keeps kept (restore_handler e h corr ks)"
  unfolding act_keeps_def
proof (intro allI impI)
  fix s assume "kept s"
  moreover have "act_keeps kept (act_each (\<lambda>k. on_base (queue_affected qb_restore k)) ks)"
    by (intro keeps_each keeps_queue_affected restore_kept)
  ultimately have k1: "kept (snd (act_each (\<lambda>k. on_base (queue_affected qb_restore k)) ks s))"
    by (simp add: act_keeps_def)
  have reply: "kept s \<Longrightarrow> kept (group_send e h (Restore_reply corr affected) s)" for affected s
    using keeps_send [of "Restore_reply corr affected" e h] by (simp add: act_keeps_def act_upd_def)
  have "act_keeps kept (act_leave (pending_dequeues e) (group_send e h (Restore_reply corr affected)))" for affected
    by (intro keeps_leave keeps_pending_dequeues assms reply)
  then show "kept (snd (restore_handler e h corr ks s))"
    using k1 kept_persist reply
    by (auto simp: restore_handler_def act_keeps_def split: prod.splits sum.splits)
qed

lemma keeps_administration:
  "act_keeps kept (group_state_handler e h c)" "act_keeps kept (message_meta_handler e h c k)"
  "act_keeps kept (message_remove_handler e h c k ids)" "act_keeps kept (meta_peek_handler e h c k ps)"
  "act_keeps kept (message_peek_handler e h c ids)" "act_keeps kept (clear_handler e h c ks)"
  "act_keeps kept (metric_reset_handler e h c ks)" "act_keeps kept (group_prepare_handler e r)"
  "act_keeps kept (dequeue_forget_handler e h c)"
proof -
  show "act_keeps kept (group_state_handler e h c)"
    unfolding group_state_handler_def
  proof (rule keeps_bind [OF keeps_on_get])
    fix queues
    have "act_keeps kept (group_blocking_send e h (Group_state_reply c a queues z))" for a z
      by (rule keeps_blocking) simp_all
    then show "act_keeps kept (act_bind (act_get (\<lambda>s. Group_state_reply c (qg_alias s) queues (qg_zombies s)))
        (group_blocking_send e h))"
      by (simp add: act_keeps_def act_bind_def act_get_def)
  qed
  show "act_keeps kept (message_meta_handler e h c k)"
    unfolding message_meta_handler_def qb_meta_def by (intro keeps_bind keeps_on_get keeps_blocking) simp_all
  show "act_keeps kept (message_remove_handler e h c k ids)"
    unfolding message_remove_handler_def by (intro keeps_bind keeps_on_base remove_kept keeps_send) simp_all
  show "act_keeps kept (meta_peek_handler e h c k ps)"
    unfolding meta_peek_handler_def qb_peek_meta_def by (intro keeps_bind keeps_on_get keeps_send) simp_all
  show "act_keeps kept (message_peek_handler e h c ids)"
    unfolding message_peek_handler_def qb_peek_def by (intro keeps_bind keeps_on_get keeps_send) simp_all
  show "act_keeps kept (clear_handler e h c ks)"
    unfolding clear_handler_def
    by (intro keeps_bind keeps_each keeps_queue_affected clear_kept keeps_send) simp_all
  show "act_keeps kept (metric_reset_handler e h c ks)"
    unfolding metric_reset_handler_def by (intro keeps_then keeps_on_base reset_kept keeps_send) simp_all
  show "act_keeps kept (group_prepare_handler e r)"
    unfolding group_prepare_handler_def resource_reply_def by (intro keeps_send) simp_all
  show "act_keeps kept (dequeue_forget_handler e h c)"
    unfolding dequeue_forget_handler_def
    by (intro keeps_bind keeps_send)
      (auto simp: act_keeps_def act_state_def pending_forget_def kept_def list_all_iff)
qed

section \<open>Configuration\<close>

lemma keeps_open:
  assumes "unopened \<longrightarrow> (\<forall>a b db. ge_open e a b = Some db \<longrightarrow> P db)"
  shows "act_spec kept (open_queuebase e m) (\<lambda>_ s. kept s \<and> qg_base s \<noteq> None) kept"
  unfolding act_spec_def
proof (intro allI impI)
  fix s assume k: "kept s"
  have "kept (group_post Group_events Fatal_event s)" by (rule keeps_post [OF _ _ k]) simp_all
  moreover have "kept (s\<lparr>qg_base := Some db, qg_saved := db\<rparr>)"
    if "qg_base s = None" "ge_open e (gm_queuebase m) (gm_alias m) = Some db" for db
  proof -
    have "P db" using that assms k by (auto simp: kept_def)
    then show ?thesis using k by (simp add: kept_def)
  qed
  ultimately show "act_post (\<lambda>_ s. kept s \<and> qg_base s \<noteq> None) kept (open_queuebase e m s)"
    using k by (auto simp: open_queuebase_def split: option.splits)
qed

text \<open>What an update leaves when it fails: all but the tables, which are rolled back.\<close>

definition recoverable :: "qgroup \<Rightarrow> bool" where
  "recoverable s \<longleftrightarrow> qg_base s \<noteq> None \<and> P (qg_saved s) \<and> kept (s\<lparr>qg_base := Some (qg_saved s)\<rparr>)"

lemma recovered: "recoverable s \<Longrightarrow> kept (base_rollback s)"
  by (auto simp: recoverable_def base_rollback_def split: option.splits)

lemma join_pairs:
  "p \<in> set (join_error_queues qs) \<Longrightarrow>
     fst p \<in> set qs \<and> qr_error (fst p) \<noteq> 0 \<and> qr_id (snd p) = qr_error (fst p)"
  using find_queue_in by (auto simp: join_error_queues_def List.map_filter_def)

lemma update_queues_kept:
  assumes s: "kept s" "qg_base s = Some db" "P (qg_saved s)"
    and ps: "list_all (\<lambda>p. fst p \<in> set (db_queues db) \<and> qr_error (fst p) \<noteq> 0 \<and> qr_id (snd p) = qr_error (fst p)) ps"
  shows "act_post (\<lambda>_. kept) recoverable (update_queues e ws (pair_ids ps) s)"
proof (cases "qb_update (ge_now e) ws (pair_ids ps) db" rule: act_cases)
  case (fault x db')
  let ?s = "group_post Group_events Fatal_event (s\<lparr>qg_base := Some db'\<rparr>)"
  have "kept (s\<lparr>qg_base := Some (qg_saved s)\<rparr>)" using s by (simp add: kept_def)
  then have "kept (group_post Group_events Fatal_event (s\<lparr>qg_base := Some (qg_saved s)\<rparr>))"
    by (rule keeps_post [rotated 2]) simp_all
  moreover have "group_post Group_events Fatal_event (s\<lparr>qg_base := Some (qg_saved s)\<rparr>) =
      ?s\<lparr>qg_base := Some (qg_saved ?s)\<rparr>"
    by (simp add: group_post_def)
  ultimately have "recoverable ?s" using s by (simp add: recoverable_def) (simp add: group_post_def)
  then show ?thesis using fault s by (simp add: update_queues_def on_base_def)
next
  case (result x db')
  then have "P db'" using update_kept [of db ps "ge_now e" ws] s ps by (simp add: kept_def)
  then have "kept (s\<lparr>qg_base := Some db'\<rparr>)" using s by (simp add: kept_def)
  then show ?thesis using result s by (simp add: update_queues_def on_base_def act_defs)
qed

lemma apply_model_kept:
  assumes s: "kept s" "qg_base s = Some db" "P (qg_saved s)"
  shows "act_post (\<lambda>_. kept) recoverable (apply_model e h corr m s)"
proof -
  let ?wanted = "map (wanted_queue (db_queues db)) (gm_queues m)"
  let ?joined = "join_error_queues (unwanted_queues (db_queues db) ?wanted)"
  let ?empty = "filter (\<lambda>p. \<not> pair_has_messages p) ?joined"
  let ?s = "s\<lparr>qg_alias := gm_alias m, qg_note := gm_note m,
      qg_zombies := qg_zombies s @ pair_ids (filter pair_has_messages ?joined)\<rparr>"
  have ps: "list_all (\<lambda>p. fst p \<in> set (db_queues db) \<and> qr_error (fst p) \<noteq> 0 \<and> qr_id (snd p) = qr_error (fst p)) ?empty"
    unfolding list_all_iff by (auto simp: unwanted_queues_def dest!: join_pairs)
  have "kept ?s" "qg_base ?s = Some db" "P (qg_saved ?s)" using s by (simp_all add: kept_def)
  then have u: "act_post (\<lambda>_. kept) recoverable (update_queues e ?wanted (pair_ids ?empty) ?s)"
    by (rule update_queues_kept) (rule ps)
  have run: "apply_model e h corr m s = act_bind (update_queues e ?wanted (pair_ids ?empty)) (\<lambda>queues.
      act_upd (group_send e h (Group_update_reply corr (gm_alias m) queues))) ?s"
    using s(2) on_base_get [where f = db_queues and db = db and s = "s\<lparr>qg_alias := gm_alias m, qg_note := gm_note m\<rparr>"]
    by (simp add: apply_model_def act_then_def act_bind_def act_upd_def Let_def)
  have send: "kept s' \<Longrightarrow> kept (group_send e h (Group_update_reply corr (gm_alias m) qs) s')" for s' qs
    using keeps_send [of "Group_update_reply corr (gm_alias m) qs" e h] by (simp add: act_keeps_def act_upd_def)
  show ?thesis
    unfolding run using u send
    by (cases "update_queues e ?wanted (pair_ids ?empty) ?s" rule: act_cases) (simp_all add: act_defs)
qed

lemma keeps_configured:
  assumes "unopened \<longrightarrow> (\<forall>a b db. ge_open e a b = Some db \<longrightarrow> P db)"
  shows "act_keeps kept (configuration_update_handler e h corr m)"
  unfolding act_keeps_def
proof (intro allI impI)
  fix s assume "kept s"
  then have o: "act_post (\<lambda>_ s. kept s \<and> qg_base s \<noteq> None) kept (open_queuebase e m s)"
    using keeps_open [OF assms] by (simp add: act_spec_def)
  show "kept (snd (configuration_update_handler e h corr m s))"
  proof (cases "open_queuebase e m s" rule: act_cases)
    case (fault x s1)
    then show ?thesis using o by (simp add: configuration_update_handler_def)
  next
    case (result x s1)
    then obtain db where s1: "kept s1" "qg_base s1 = Some db" using o by auto
    have "kept (base_persist s1)" "qg_base (base_persist s1) = Some db" "P (qg_saved (base_persist s1))"
      using kept_persist [OF s1(1)] saved_after_persist [OF s1(1)] s1(2) by (simp_all add: base_persist_def)
    then have a: "act_post (\<lambda>_. kept) recoverable (apply_model e h corr m (base_persist s1))"
      by (rule apply_model_kept)
    show ?thesis
      using a result kept_persist recovered
      by (cases "apply_model e h corr m (base_persist s1)" rule: act_cases)
        (simp_all add: configuration_update_handler_def)
  qed
qed

section \<open>The pump\<close>

lemma keeps_shutdown:
  assumes "\<forall>xs. set (ge_order e xs) \<subseteq> set xs"
  shows "act_keeps kept (shutdown_perform e)"
proof -
  have send: "list_all (\<lambda>x. good (snd x) \<and> \<not> durable (snd x)) ms \<Longrightarrow> kept s \<Longrightarrow> kept (pending_send e ms s)" for ms s
    by (induction ms arbitrary: s) (auto simp: pending_send_def kept_send)
  have forget: "act_keeps kept (act_bind (act_state pending_forget_all) (\<lambda>ms. act_upd (pending_send e ms)))"
  proof (rule keeps_bind_result [where R = "list_all (\<lambda>x. good (snd x) \<and> \<not> durable (snd x))"])
    have "good (Dequeue_forget_request c k n)" for c k n by (rule other_replies) simp
    moreover have "\<not> durable (Dequeue_forget_request c k n)" for c k n by (rule not_durable) simp
    ultimately show "act_spec kept (act_state pending_forget_all)
        (\<lambda>ms s. kept s \<and> list_all (\<lambda>x. good (snd x) \<and> \<not> durable (snd x)) ms) kept"
      by (simp add: act_spec_def act_state_def pending_forget_all_def list_all_iff) (simp add: kept_def)
  qed (intro keeps_upd send)
  show ?thesis
    unfolding shutdown_perform_def
    by (intro keeps_then keeps_upd keeps_persist [OF assms] forget) (simp add: kept_def)
qed

theorem step_kept:
  assumes "allowed e m" and "kept s"
  shows "kept (group_step (e, m) s)"
proof -
  have order: "\<forall>xs. set (ge_order e xs) \<subseteq> set xs" using assms(1) by (simp add: allowed_def)
  have "act_keeps kept (group_handle e m)"
  proof (cases m)
    case (Process_exit_event pid)
    then show ?thesis
      by (auto simp: group_handle_def pending_remove_def kept_def list_all_iff intro!: keeps_upd)
  next
    case (Timeout_signal)
    then show ?thesis
      by (auto simp: group_handle_def timeout_handler_def
          intro!: keeps_bind keeps_get keeps_ret keeps_pending_dequeues order)
  qed (use assms(1) in \<open>auto simp: group_handle_def allowed_def
      intro!: keeps_configured keeps_enqueue keeps_then keeps_dequeue_request keeps_ret keeps_administration
        keeps_commit keeps_rollback keeps_restore keeps_shutdown keeps_persist\<close>)
  then have h: "kept (snd (group_handle e m s))" using assms(2) by (simp add: act_keeps_def)
  have abort: "act_keeps kept (group_abort e)"
    unfolding group_abort_def by (intro keeps_then keeps_upd keeps_shutdown [OF order]) (simp add: kept_def)
  have ends: "kept s' \<Longrightarrow> kept (group_end s')" for s'
    using kept_persist [of s'] by (simp add: group_end_def) (simp add: kept_def)
  have dead: "kept (s'\<lparr>qg_ended := True\<rparr>) = kept s'" for s' by (simp add: kept_def)
  show ?thesis
  proof (cases "group_handle e m s" rule: act_cases)
    case (fault x s')
    then have "kept (snd (group_abort e s'))" using h abort by (simp add: act_keeps_def)
    then show ?thesis using fault assms(2) ends by (cases "group_abort e s'" rule: act_cases) (simp_all add: group_step_def dead)
  next
    case (result x s')
    then show ?thesis using h ends assms(2) by (simp add: group_step_def)
  qed
qed

theorem run_kept:
  "list_all (\<lambda>(e, m). allowed e m) ms \<Longrightarrow> kept s \<Longrightarrow> kept (fold group_step ms s)"
  by (induction ms arbitrary: s) (auto simp: step_kept)

end

end
