(* ===== verification/QueueProperties.thy ===== *)
theory QueueProperties
  imports QueueKept "HOL-Library.Product_Lexorder"
begin

text \<open>
  The properties of a queue group: exact counters over any run, a dequeued message belongs to its
  transaction until the transaction ends, a commit is answered when it is on disk, what a
  rollback does to the messages it returns, the order of dequeues, and that no message that is
  available waits for a request that waits for it.
\<close>

section \<open>A group to look at\<close>

definition queue_env :: "int \<Rightarrow> group_env" where
  "queue_env now = \<lparr>ge_reach = (\<lambda>_. True), ge_tm = True, ge_now = now, ge_sqlnow = now, ge_uuid = 0,
     ge_open = (\<lambda>_ _. Some empty_qdb), ge_order = (\<lambda>xs. xs)\<rparr>"

definition queue_client :: "nat \<Rightarrow> handle" where
  "queue_client n = \<lparr>hpid = int n, hipc = n\<rparr>"

text \<open>Transaction 0 is no transaction.\<close>

definition queue_trid :: "byte \<Rightarrow> trid" where
  "queue_trid t = \<lparr>gtrid = [t], bqual = [1], tformat = (if t = 0 then -1 else 1), towner = queue_client 9\<rparr>"

definition put_request :: "nat \<Rightarrow> byte \<Rightarrow> int \<Rightarrow> enqueue_request" where
  "put_request i t available = \<lparr>er_process = queue_client 20, er_corr = i, er_trid = queue_trid t, er_queue = 2,
     er_name = [], er_message = \<lparr>em_id = Some i, em_properties = [], em_reply = [], em_available = available,
       em_type = ''t'', em_payload = [1, 2]\<rparr>\<rparr>"

definition get_request :: "nat \<Rightarrow> byte \<Rightarrow> dequeue_request" where
  "get_request c t = \<lparr>dr_process = queue_client 21, dr_corr = c, dr_trid = queue_trid t, dr_queue = 2, dr_name = [],
     dr_properties = [], dr_id = None, dr_block = True\<rparr>"

definition end_request :: "byte \<Rightarrow> resource_request" where
  "end_request t = \<lparr>rq_process = queue_client 9, rq_corr = 7, rq_trid = queue_trid t, rq_resource = 1\<rparr>"

definition configure :: "(string \<times> int \<times> int) list \<Rightarrow> group_message" where
  "configure qs = Group_update (queue_client 3) 1 \<lparr>gm_alias = ''g'', gm_queuebase = [], gm_note = [], gm_queues = qs\<rparr>"

definition queue_demo :: "(int \<times> group_message) list \<Rightarrow> qgroup" where
  "queue_demo ms = fold group_step (map (\<lambda>(now, m). (queue_env now, m)) ms) initial_group"

lemmas queue_demo_defs = queue_env_def queue_client_def queue_trid_def put_request_def get_request_def
  end_request_def configure_def

section \<open>The invariant over any run\<close>

interpretation counted: base_kept qdb_paired True "\<lambda>_. True" "\<lambda>_. True" "\<lambda>_. True" "\<lambda>_. True" "\<lambda>_. False" True 0
proof
  show "act_spec qdb_paired (qb_dequeue now d) (\<lambda>ms db. qdb_paired db \<and> True) qdb_paired" for now d
    using keeps_paired [OF dequeue_ok queues_as_messages(2)] by (simp add: act_keeps_spec)
  show "act_post (\<lambda>_. qdb_paired) (\<lambda>_. True) (qb_update now ws (pair_ids ps) db)"
    if db: "qdb_paired db" and ps: "list_all (\<lambda>p. fst p \<in> set (db_queues db) \<and> qr_error (fst p) \<noteq> 0
      \<and> qr_id (snd p) = qr_error (fst p)) ps" for now ws ps db
  proof -
    have "list_all (\<lambda>p. qr_id (fst p) mod 2 = 0 \<and> qr_id (snd p) = qr_id (fst p) - 1) ps"
      unfolding list_all_iff
    proof
      fix p assume "p \<in> set ps"
      then have p: "fst p \<in> set (db_queues db)" "qr_error (fst p) \<noteq> 0" "qr_id (snd p) = qr_error (fst p)"
        using ps by (auto simp: list_all_iff)
      show "qr_id (fst p) mod 2 = 0 \<and> qr_id (snd p) = qr_id (fst p) - 1"
        using db p paired_setD [OF _ in_pairs_of [OF p(1)]]
        by (cases "qr_id (fst p) mod 2 = 0") (auto simp: qdb_paired_def queues_paired_def)
    qed
    from qb_update_paired [OF this] show ?thesis using db by (simp add: act_spec_def)
  qed
qed (auto intro!: keeps_paired commit_ok rollback_ok restore_ok clear_ok remove_messages_ok reset_ok qb_enqueue_ok
    queues_as_messages)

lemma exact_counts:
  assumes "qdb_ok db" and "q \<in> set (db_queues db)"
  shows "qr_count q = int (length (filter (\<lambda>m. mr_queue m = qr_id q \<and> mr_state m \<noteq> Added) (db_messages db)))"
    "qr_size q = sum_list (map payload_size (filter (\<lambda>m. mr_queue m = qr_id q \<and> mr_state m \<noteq> Added) (db_messages db)))"
    "qr_uncommitted q = int (length (filter (\<lambda>m. mr_queue m = qr_id q \<and> mr_state m = Added) (db_messages db)))"
proof -
  have count: "shares Committed_count k ms = int (length (filter (\<lambda>m. mr_queue m = k \<and> mr_state m \<noteq> Added) ms))"
    and sizes: "shares Committed_size k ms = sum_list (map payload_size (filter (\<lambda>m. mr_queue m = k \<and> mr_state m \<noteq> Added) ms))"
    and uncommitted: "shares Uncommitted_count k ms = int (length (filter (\<lambda>m. mr_queue m = k \<and> mr_state m = Added) ms))"
    for k ms
    by (induction ms) (auto simp: share_def)
  have "shown d q = shares d (qr_id q) (db_messages db)" for d
    using qdb_okD(7) [OF assms(1)] assms(2) by (simp add: exact_def)
  from this [of Committed_count] this [of Committed_size] this [of Uncommitted_count]
  show "qr_count q = int (length (filter (\<lambda>m. mr_queue m = qr_id q \<and> mr_state m \<noteq> Added) (db_messages db)))"
    "qr_size q = sum_list (map payload_size (filter (\<lambda>m. mr_queue m = qr_id q \<and> mr_state m \<noteq> Added) (db_messages db)))"
    "qr_uncommitted q = int (length (filter (\<lambda>m. mr_queue m = qr_id q \<and> mr_state m = Added) (db_messages db)))"
    by (simp_all add: count sizes uncommitted)
qed

text \<open>What \<open>std::partition\<close> visits are elements of the range.\<close>

definition visits :: "group_env \<Rightarrow> bool" where
  "visits e \<longleftrightarrow> (\<forall>xs. set (ge_order e xs) \<subseteq> set xs)"

definition opens_consistent :: "group_env \<Rightarrow> bool" where
  "opens_consistent e \<longleftrightarrow> (\<forall>a b. case ge_open e a b of None \<Rightarrow> True | Some db \<Rightarrow> qdb_paired db)"

lemma opens_consistentD: "opens_consistent e \<Longrightarrow> ge_open e a b = Some db \<Longrightarrow> qdb_paired db"
  unfolding opens_consistent_def by (metis option.simps(5))

lemma empty_paired: "qdb_paired empty_qdb"
  by (simp add: qdb_paired_def qdb_ok_def empty_qdb_def positive_def foreign_key_def exact_def
      queues_paired_def pairs_of_def paired_set_def)

lemma run_counted:
  assumes "list_all (\<lambda>(e, m). visits e \<and> opens_consistent e) ms"
  shows "case qg_base (fold group_step ms initial_group) of None \<Rightarrow> True | Some db \<Rightarrow> qdb_paired db"
    and "qdb_paired (qg_saved (fold group_step ms initial_group))"
proof -
  have start: "counted.kept initial_group"
    using empty_paired by (simp add: counted.kept_def initial_group_def)
  have "counted.allowed e m" if "visits e" "opens_consistent e" for e m
    using that opens_consistentD by (cases m) (auto simp: counted.allowed_def visits_def)
  then have "list_all (\<lambda>(e, m). counted.allowed e m) ms" using assms by (auto simp: list_all_iff)
  then have "counted.kept (fold group_step ms initial_group)" by (rule counted.run_kept) (rule start)
  then show "case qg_base (fold group_step ms initial_group) of None \<Rightarrow> True | Some db \<Rightarrow> qdb_paired db"
    and "qdb_paired (qg_saved (fold group_step ms initial_group))"
    by (auto simp: counted.kept_def split: option.splits)
qed

text \<open>
  C5. Whatever sequence of messages a queue group handles, in any environment that opens a
  consistent queue-base, the counters of every queue, in memory and as committed, are the number
  and the total size of its committed messages (the dequeued ones that may come back included)
  and the number of its uncommitted ones; and a queue with an even id has the error queue with
  the id before, which the rollback relies on.
\<close>
theorem queue_counts_exact:
  assumes "list_all (\<lambda>(e, m). visits e \<and> opens_consistent e) ms"
    and "s = fold group_step ms initial_group" and "qg_base s = Some db \<or> qg_saved s = db"
    and "q \<in> set (db_queues db)"
  shows "qr_count q = int (length (filter (\<lambda>m. mr_queue m = qr_id q \<and> mr_state m \<noteq> Added) (db_messages db)))
    \<and> qr_size q = sum_list (map payload_size (filter (\<lambda>m. mr_queue m = qr_id q \<and> mr_state m \<noteq> Added) (db_messages db)))
    \<and> qr_uncommitted q = int (length (filter (\<lambda>m. mr_queue m = qr_id q \<and> mr_state m = Added) (db_messages db)))
    \<and> qr_error q = (if qr_id q mod 2 = 0 then qr_id q - 1 else 0)"
proof -
  have db: "qdb_paired db"
    using run_counted [OF assms(1)] assms(2,3) by auto
  then have "qdb_ok db" "qr_error q = (if qr_id q mod 2 = 0 then qr_id q - 1 else 0)"
    using paired_setD [OF _ in_pairs_of [OF assms(4)]] by (simp_all add: qdb_paired_def queues_paired_def)
  then show ?thesis using exact_counts [OF _ assms(4)] by blast
qed

lemma queue_env_ok [simp]: "visits (queue_env now)" "opens_consistent (queue_env now)"
  using empty_paired by (simp_all add: visits_def opens_consistent_def queue_env_def)

lemma demo_counted:
  shows "case qg_base (queue_demo ms) of None \<Rightarrow> True | Some db \<Rightarrow> qdb_paired db" and "qdb_paired (qg_saved (queue_demo ms))"
  unfolding queue_demo_def by (rule run_counted, auto simp: list_all_iff)+

lemma demo_base: "qg_base (queue_demo ms) = Some db \<Longrightarrow> qdb_paired db"
  using demo_counted(1) [of ms] by simp

definition demo_messages :: "(int \<times> group_message) list" where
  "demo_messages = [(1, configure [(''q'', 1, 0)]), (2, Enqueue_request (put_request 41 5 0)), (3, Commit_request (end_request 5)),
     (4, Inbound_idle), (5, Enqueue_request (put_request 42 6 0)), (6, Dequeue_request (get_request 1 7))]"

text \<open>The queue has one message that a transaction has dequeued and one that is uncommitted.\<close>

theorem queue_counts_exact_witness:
  "qr_count (db_queues (the (qg_base (queue_demo demo_messages))) ! 1) = int (length (filter
      (\<lambda>m. mr_queue m = qr_id (db_queues (the (qg_base (queue_demo demo_messages))) ! 1) \<and> mr_state m \<noteq> Added)
      (db_messages (the (qg_base (queue_demo demo_messages))))))
   \<and> qr_count (db_queues (the (qg_base (queue_demo demo_messages))) ! 1) = 1
   \<and> qr_uncommitted (db_queues (the (qg_base (queue_demo demo_messages))) ! 1) = 1"
proof -
  let ?db = "the (qg_base (queue_demo demo_messages))"
  have b: "qg_base (queue_demo demo_messages) \<noteq> None" "1 < length (db_queues ?db)"
    "qr_count (db_queues ?db ! 1) = 1" "qr_uncommitted (db_queues ?db ! 1) = 1"
    unfolding queue_demo_def demo_messages_def queue_demo_defs by code_simp+
  then have base: "qg_base (queue_demo demo_messages) = Some ?db" by auto
  have "list_all (\<lambda>(e, m). visits e \<and> opens_consistent e) (map (\<lambda>(now, m). (queue_env now, m)) demo_messages)"
    by (auto simp: list_all_iff)
  from queue_counts_exact [OF this queue_demo_def, of ?db "db_queues ?db ! 1"] base b show ?thesis by simp
qed

section \<open>A dequeued message\<close>

text \<open>The tables keep a row that the condition of a statement does not select.\<close>

definition has_taken :: "message_row \<Rightarrow> qdb \<Rightarrow> bool" where
  "has_taken m db \<longleftrightarrow> qdb_ok db \<and> mr_state m = Removed \<and> m \<in> set (db_messages db)"

lemma has_row_update: "\<not> p m \<Longrightarrow> sql_update tr p f db = Some (n, db') \<Longrightarrow> m \<in> set (db_messages db) \<Longrightarrow> m \<in> set (db_messages db')"
  by (force dest: update_messages)

lemma has_row_delete: "\<not> p m \<Longrightarrow> sql_delete p db = Some (n, db') \<Longrightarrow> m \<in> set (db_messages db) \<Longrightarrow> m \<in> set (db_messages db')"
  by (force dest: delete_messages)

definition in_messages :: "message_row \<Rightarrow> qdb \<Rightarrow> bool" where
  "in_messages m db \<longleftrightarrow> m \<in> set (db_messages db)"

lemma keeps_taken:
  "act_keeps qdb_ok f \<Longrightarrow> (mr_state m = Removed \<Longrightarrow> act_keeps (in_messages m) f) \<Longrightarrow> act_keeps (has_taken m) f"
  by (simp add: act_keeps_def has_taken_def in_messages_def)

lemma row_update: "\<not> p m \<Longrightarrow> stmt_keeps (in_messages m) (sql_update tr p f)"
  unfolding stmt_keeps_def in_messages_def by (blast intro: has_row_update)

lemma row_delete: "\<not> p m \<Longrightarrow> stmt_keeps (in_messages m) (sql_delete p)"
  unfolding stmt_keeps_def in_messages_def by (blast intro: has_row_delete)

definition messages_are :: "message_row list \<Rightarrow> qdb \<Rightarrow> bool" where
  "messages_are ms db \<longleftrightarrow> db_messages db = ms"

lemma qb_update_messages: "act_keeps (messages_are ms) (qb_update now ws ks)"
proof -
  have s: "stmt_keeps (messages_are ms) (sql_insert_queue name count delay err now)"
    "stmt_keeps (messages_are ms) (sql_update_queue k name count delay)"
    "stmt_keeps (messages_are ms) (sql_delete_queue k)" for name count delay err now k
    by (auto simp: stmt_keeps_def messages_are_def sql_insert_queue_def sql_update_queue_def sql_delete_queue_def
        Let_def split: if_splits)
  show ?thesis
    unfolding qb_update_def qb_remove_queue_def qb_update_queue_def qb_create_def qb_queue_def
    by (intro keeps_intros s)
qed

lemma qb_update_result_messages:
  assumes "act_post Q E (qb_update now ws ks db)"
  shows "act_post (\<lambda>x db'. Q x db' \<and> db_messages db' = db_messages db) E (qb_update now ws ks db)"
proof -
  have "db_messages (snd (qb_update now ws ks db)) = db_messages db"
    using qb_update_messages [of "db_messages db" now ws ks] by (simp add: act_keeps_def messages_are_def)
  then show ?thesis using assms by (cases "qb_update now ws ks db" rule: act_cases) auto
qed

lemma update_keeps_messages:
  assumes "qdb_ok db"
  shows "act_post (\<lambda>_ db'. qdb_ok db' \<and> db_messages db' = db_messages db) (\<lambda>_. True) (qb_update now ws ks db)"
  by (rule qb_update_result_messages, rule act_post_weaken [where Q = "\<lambda>_. qdb_ok" and E = qdb_ok])
    (use qb_update_ok [of now ws ks] assms in \<open>auto simp: act_keeps_spec act_spec_def\<close>)

definition delivers :: "nat \<Rightarrow> group_reply \<Rightarrow> bool" where
  "delivers i m = (case m of Dequeue_reply c ms \<Rightarrow> i \<in> set (map dm_id ms) | _ \<Rightarrow> False)"

lemma taken_messages:
  assumes t: "mr_state m = Removed"
  shows "act_keeps (in_messages m) (qb_enqueue now u r)" "h \<noteq> mr_gtrid m \<Longrightarrow> act_keeps (in_messages m) (qb_commit h)"
    "h \<noteq> mr_gtrid m \<Longrightarrow> act_keeps (in_messages m) (qb_rollback now h)" "act_keeps (in_messages m) (qb_restore k)"
    "act_keeps (in_messages m) (qb_clear k)" "act_keeps (in_messages m) (qb_remove_messages k is)"
    "act_keeps (in_messages m) (qb_metric_reset ks)"
proof -
  show "act_keeps (in_messages m) (qb_enqueue now u r)"
    unfolding qb_enqueue_def Let_def
    by (intro keeps_intros) (auto simp: stmt_keeps_def in_messages_def sql_enqueue_def Let_def split: if_splits)
  show "act_keeps (in_messages m) (qb_commit h)" if "h \<noteq> mr_gtrid m"
    unfolding qb_commit_def sql_commit1_def sql_commit2_def
    by (intro keeps_intros row_update row_delete) (use that t in \<open>auto\<close>)
  show "act_keeps (in_messages m) (qb_rollback now h)" if h: "h \<noteq> mr_gtrid m"
  proof -
    have "stmt_keeps (in_messages m) (sql_rollback1 h)"
      unfolding sql_rollback1_def by (rule row_delete) (use t in \<open>auto\<close>)
    moreover have "stmt_keeps (in_messages m) (sql_rollback2 now h)"
      unfolding stmt_keeps_def
    proof (intro allI impI)
      fix db n db'
      assume "in_messages m db" "sql_rollback2 now h db = Some (n, db')"
      then show "in_messages m db'"
        using h t by (force simp: in_messages_def dest: rollback2_messages)
    qed
    moreover have "stmt_keeps (in_messages m) (sql_rollback3 h)"
      unfolding stmt_keeps_def sql_rollback3_def in_messages_def
    proof (intro allI impI)
      fix db n db'
      assume m: "m \<in> set (db_messages db)" and run: "sql_update update_message_queue
         (\<lambda>m. mr_gtrid m = h \<and> exhausted (db_queues db) m)
         (\<lambda>m. m\<lparr>mr_redelivered := 0, mr_queue := mr_queue m - 1\<rparr>) db = Some (n, db')"
      show "m \<in> set (db_messages db')"
        by (rule has_row_update [OF _ run m]) (use h t in \<open>auto\<close>)
    qed
    ultimately show ?thesis unfolding qb_rollback_def by (intro keeps_intros)
  qed
  show "act_keeps (in_messages m) (qb_restore k)"
    unfolding qb_restore_def sql_restore_def by (intro keeps_intros row_update) (use t in \<open>auto\<close>)
  show "act_keeps (in_messages m) (qb_clear k)"
    unfolding qb_clear_def sql_clear_def by (intro keeps_intros row_delete) (use t in \<open>auto\<close>)
  show "act_keeps (in_messages m) (qb_remove_messages k is)"
    by (induction "is") (use t in \<open>auto simp: sql_message_remove_def intro!: keeps_intros row_delete\<close>)
  show "act_keeps (in_messages m) (qb_metric_reset ks)"
    unfolding qb_metric_reset_def
    by (intro keeps_intros) (auto simp: stmt_keeps_def in_messages_def sql_metric_reset_def)
qed

lemma taken_dequeue:
  shows "act_spec (has_taken m) (qb_dequeue now d)
    (\<lambda>ms db. has_taken m db \<and> \<not> delivers (mr_id m) (Dequeue_reply c ms)) (has_taken m)"
  unfolding act_spec_def
proof (intro allI impI)
  fix db assume row: "has_taken m db"
  then have ok: "qdb_ok db" and m: "m \<in> set (db_messages db)" and t: "mr_state m = Removed" by (simp_all add: has_taken_def)
  show "act_post (\<lambda>ms db. has_taken m db \<and> \<not> delivers (mr_id m) (Dequeue_reply c ms)) (has_taken m) (qb_dequeue now d db)"
  proof (cases "qb_fetch now d db")
    case None
    then show ?thesis using row by (simp add: qb_dequeue_def act_defs delivers_def)
  next
    case (Some x)
    then have x: "x \<in> set (db_messages db)" "mr_state x = Enqueued" using qb_fetch_in by (auto simp: dequeueable_def)
    then have "x \<noteq> m" using t by (auto simp:)
    then have other: "mr_id x \<noteq> mr_id m" "mr_rowid m \<noteq> mr_rowid x"
      using qdb_okD(3,4) [OF ok] x(1) m by (auto simp: distinct_map inj_on_def)
    have "has_taken m db'" if r: "qb_take (dr_trid d) (mr_rowid x) db = Some (n, db')" for n db'
    proof -
      have "m \<in> set (db_messages db')"
        using r m other(2)
        by (auto simp: qb_take_def sql_state_nullxid_def sql_state_xid_def dest: has_row_update has_row_delete
            split: if_splits)
      then show ?thesis using take_ok [OF ok x r] by (simp add: has_taken_def t)
    qed
    then show ?thesis
      using Some row other(1)
      by (auto simp: qb_dequeue_def act_defs sql_run_def delivers_def to_message_def split: option.splits)
  qed
qed

text \<open>The interface, with the row of the message as the predicate of the tables.\<close>

interpretation taken: base_kept "has_taken m" False "\<lambda>_. True" "\<lambda>_. True" "\<lambda>h. h \<noteq> mr_gtrid m"
    "\<lambda>r. \<not> delivers (mr_id m) r" "\<lambda>_. False" False sent
  for m sent
proof
  show "act_spec (has_taken m) (qb_dequeue now d)
      (\<lambda>ms db. has_taken m db \<and> \<not> delivers (mr_id m) (Dequeue_reply corr ms)) (has_taken m)" for now d corr
    by (rule taken_dequeue)
  show "act_post (\<lambda>_. has_taken m) (\<lambda>_. True) (qb_update now ws (pair_ids ps) db)" if "has_taken m db" for now ws ps db
    by (rule act_post_weaken [OF update_keeps_messages [of db now ws "pair_ids ps"]])
      (use that in \<open>auto simp: has_taken_def\<close>)
  show "\<not> delivers (mr_id m) r" if "\<And>c ms. r \<noteq> Dequeue_reply c ms" for r
    using that by (auto simp: delivers_def split: group_reply.splits)
qed (auto intro!: keeps_taken taken_messages commit_ok rollback_ok restore_ok clear_ok
    remove_messages_ok reset_ok qb_enqueue_ok)

definition no_end :: "bytes \<Rightarrow> group_message \<Rightarrow> bool" where
  "no_end g m = (case m of Commit_request r \<Rightarrow> gtrid (rq_trid r) \<noteq> g | Rollback_request r \<Rightarrow> gtrid (rq_trid r) \<noteq> g | _ \<Rightarrow> True)"

text \<open>
  C8. A message that a transaction has dequeued belongs to it: whatever the group handles until
  the commit or the rollback of the transaction - other transactions, dequeues by id or by
  properties, restore, clear, remove, a change of the configuration, a shutdown - the message stays
  as it is, and no reply to a dequeue delivers it again.
\<close>
theorem dequeued_is_exclusive:
  assumes "qg_base s = Some db" and "qdb_ok db" and "m \<in> set (db_messages db)" and "mr_state m = Removed"
    and "list_all (\<lambda>x. \<not> delivers (mr_id m) (snd x)) (qg_replies s)"
    and "list_all (\<lambda>(e, r). visits e \<and> no_end (mr_gtrid m) r) rs"
  shows "(case qg_base (fold group_step rs s) of None \<Rightarrow> False | Some db' \<Rightarrow> m \<in> set (db_messages db')) \<and>
    list_all (\<lambda>x. \<not> delivers (mr_id m) (snd x)) (drop (length (qg_outbox s)) (qg_outbox (fold group_step rs s)))"
proof -
  let ?n = "length (qg_outbox s)"
  have "taken.kept m ?n s"
    using assms by (simp add: taken.kept_def has_taken_def list_all_iff)
  moreover have "taken.allowed m e r" if "visits e" "no_end (mr_gtrid m) r" for e r
    using that by (cases r) (auto simp: taken.allowed_def visits_def no_end_def)
  then have "list_all (\<lambda>(e, r). taken.allowed m e r) rs" using assms(6) by (auto simp: list_all_iff)
  ultimately have k: "taken.kept m ?n (fold group_step rs s)" by (rule taken.run_kept [rotated])
  then have "case qg_base (fold group_step rs s) of None \<Rightarrow> False | Some db' \<Rightarrow> m \<in> set (db_messages db')"
    by (auto simp: taken.kept_def has_taken_def split: option.splits)
  then show ?thesis using k by (simp add: taken.kept_def)
qed

text \<open>While transaction 7 has the message, a dequeue by another transaction waits.\<close>

theorem dequeued_is_exclusive_witness:
  "list_all (\<lambda>x. \<not> delivers 41 (snd x)) (drop (length (qg_outbox (queue_demo demo_messages)))
     (qg_outbox (fold group_step [(queue_env 7, Dequeue_request (get_request 2 8)), (queue_env 8, Commit_request (end_request 6)),
        (queue_env 9, Inbound_idle)] (queue_demo demo_messages))))
   \<and> length (qg_outbox (fold group_step [(queue_env 7, Dequeue_request (get_request 2 8)), (queue_env 8, Commit_request (end_request 6)),
        (queue_env 9, Inbound_idle)] (queue_demo demo_messages))) = length (qg_outbox (queue_demo demo_messages)) + 3"
proof -
  let ?s = "queue_demo demo_messages" and ?db = "the (qg_base (queue_demo demo_messages))"
  let ?m = "db_messages ?db ! 0"
  let ?rs = "[(queue_env 7, Dequeue_request (get_request 2 8)), (queue_env 8, Commit_request (end_request 6)),
        (queue_env 9, Inbound_idle)]"
  have b: "qg_base ?s \<noteq> None" "0 < length (db_messages ?db)" "mr_state ?m = Removed" "mr_id ?m = 41"
    "mr_gtrid ?m = [7]" "qg_replies ?s = []"
    "length (qg_outbox (fold group_step ?rs ?s)) = length (qg_outbox ?s) + 3"
    unfolding queue_demo_def demo_messages_def queue_demo_defs by code_simp+
  then have base: "qg_base ?s = Some ?db" by auto
  then have ok: "qdb_ok ?db" using demo_base by (auto simp: qdb_paired_def)
  have rs: "list_all (\<lambda>(e, r). visits e \<and> no_end (mr_gtrid ?m) r) ?rs"
    by (simp add: no_end_def b(5) end_request_def queue_trid_def)
  have replies: "list_all (\<lambda>x. \<not> delivers (mr_id ?m) (snd x)) (qg_replies ?s)" by (simp add: b(6))
  have "?m \<in> set (db_messages ?db)" using b(2) by simp
  from dequeued_is_exclusive [OF base ok this b(3) replies rs] b(4,7) show ?thesis by simp
qed

section \<open>Commit\<close>

text \<open>Nothing of transaction \<open>g\<close> is open.\<close>

definition settled :: "bytes \<Rightarrow> qdb \<Rightarrow> bool" where
  "settled g db \<longleftrightarrow> list_all (\<lambda>m. mr_gtrid m = g \<longrightarrow> mr_state m = Enqueued) (db_messages db)"

lemma settled_update:
  assumes "\<And>m. p m \<Longrightarrow> mr_gtrid (f m) = g \<Longrightarrow> (mr_gtrid m = g \<longrightarrow> mr_state m = Enqueued) \<Longrightarrow> mr_state (f m) = Enqueued"
  shows "stmt_keeps (settled g) (sql_update tr p f)"
  unfolding stmt_keeps_def
proof (intro allI impI)
  fix db n db'
  assume s: "settled g db" and run: "sql_update tr p f db = Some (n, db')"
  show "settled g db'"
    unfolding settled_def update_messages [OF run] list.pred_map
    by (rule list.pred_mono_strong [OF s [unfolded settled_def]]) (use assms in auto)
qed

lemma settled_delete: "stmt_keeps (settled g) (sql_delete p)"
  by (auto simp: stmt_keeps_def settled_def list_all_iff dest: delete_messages)

lemma settled_rollback2: "stmt_keeps (settled g) (sql_rollback2 now h)"
  unfolding stmt_keeps_def
proof (intro allI impI)
  fix db n db'
  assume s: "settled g db" and run: "sql_rollback2 now h db = Some (n, db')"
  show "settled g db'"
    unfolding settled_def rollback2_messages [OF run] list.pred_map
    by (rule list.pred_mono_strong [OF s [unfolded settled_def]]) auto
qed

lemma settled_rollback3: "stmt_keeps (settled g) (sql_rollback3 h)"
  unfolding stmt_keeps_def sql_rollback3_def
proof (intro allI impI)
  fix db n db'
  assume s: "settled g db" and run: "sql_update update_message_queue
         (\<lambda>m. mr_gtrid m = h \<and> exhausted (db_queues db) m)
         (\<lambda>m. m\<lparr>mr_redelivered := 0, mr_queue := mr_queue m - 1\<rparr>) db = Some (n, db')"
  show "settled g db'"
    unfolding settled_def update_messages [OF run] list.pred_map
    by (rule list.pred_mono_strong [OF s [unfolded settled_def]]) auto
qed

definition other_transaction :: "bytes \<Rightarrow> trid \<Rightarrow> bool" where
  "other_transaction g t \<longleftrightarrow> trid_null t \<or> gtrid t \<noteq> g"

definition committed_reply :: "bytes \<Rightarrow> group_reply \<Rightarrow> bool" where
  "committed_reply g m = (case m of Resource_reply k c t i x \<Rightarrow> k = Commit_kind \<and> gtrid t = g \<and> x = Xa_ok | _ \<Rightarrow> False)"

interpretation settle: base_kept "settled g" False "other_transaction g" "other_transaction g" "\<lambda>_. True"
    "\<lambda>_. True" "committed_reply g" False sent
  for g sent
proof
  show "act_keeps (settled g) (qb_enqueue now u r)" if "other_transaction g (er_trid r)" for r now u
    unfolding qb_enqueue_def Let_def
    by (intro keeps_intros)
      (use that in \<open>auto simp: stmt_keeps_def settled_def other_transaction_def sql_enqueue_def Let_def enqueue_row_def
        split: if_splits\<close>)
  have take: "stmt_keeps (settled g) (qb_take t k)" if "other_transaction g t" for t k
    using that settled_delete by (auto simp: qb_take_def sql_state_nullxid_def sql_state_xid_def other_transaction_def
        intro!: settled_update)
  show "act_spec (settled g) (qb_dequeue now d) (\<lambda>ms db. settled g db \<and> True) (settled g)"
    if "other_transaction g (dr_trid d)" for now d
    using take [OF that] unfolding simp_thms act_keeps_spec [symmetric] qb_dequeue_def by (intro keeps_intros)
  show "act_keeps (settled g) (qb_commit h)" for h
    unfolding qb_commit_def sql_commit1_def sql_commit2_def
    by (intro keeps_intros settled_update settled_delete) simp
  show "act_keeps (settled g) (qb_rollback now h)" for now h
    unfolding qb_rollback_def sql_rollback1_def
    by (intro keeps_intros settled_delete settled_rollback2 settled_rollback3)
  show "act_keeps (settled g) (qb_restore k)" for k
    unfolding qb_restore_def sql_restore_def by (intro keeps_intros settled_update) simp
  show "act_keeps (settled g) (qb_clear k)" for k
    unfolding qb_clear_def sql_clear_def by (intro keeps_intros settled_delete)
  show "act_keeps (settled g) (qb_remove_messages k is)" for k "is"
    by (induction "is") (auto simp: sql_message_remove_def intro!: keeps_intros settled_delete)
  show "act_keeps (settled g) (qb_metric_reset ks)" for ks
    unfolding qb_metric_reset_def
    by (intro keeps_intros) (auto simp: stmt_keeps_def settled_def sql_metric_reset_def)
  show "act_post (\<lambda>_. settled g) (\<lambda>_. True) (qb_update now ws (pair_ids ps) db)" if "settled g db" for now ws ps db
    by (rule act_post_weaken [OF qb_update_result_messages [where Q = "\<lambda>_ _. True" and E = "\<lambda>_. True"]])
      (use that in \<open>auto simp: settled_def act_post_snd [where Q = "\<lambda>_. True", simplified]\<close>)
  show "\<exists>k c t i x. m = Resource_reply k c t i x \<and> k \<noteq> Prepare_kind" if "committed_reply g m" for m
    using that by (cases m) (auto simp: committed_reply_def)
qed auto

text \<open>A statement that changes the state of messages cannot fail, and a commit is its two statements.\<close>

lemma update_state_total:
  assumes "qdb_ok db" and "\<And>m. mr_queue (f m) = mr_queue m"
  shows "\<exists>n db'. sql_update update_message_state p f db = Some (n, db')"
proof -
  let ?qs = "fold (\<lambda>m. update_message_state m (f m)) (filter p (db_messages db)) (db_queues db)"
  have "frames (fold (\<lambda>m. update_message_state m (f m)) (filter p (db_messages db)))"
    by (rule frames_fold) simp
  then have "list_all2 same_queue (db_queues db) ?qs" by (simp add: frames_def)
  then have "map qr_id ?qs = map qr_id (db_queues db)" by (rule same_queue_ids)
  then have fk: "foreign_key ?qs ms = foreign_key (db_queues db) ms" for ms by (rule foreign_key_ids)
  have "foreign_key (db_queues db) (map (\<lambda>m. if p m then f m else m) (db_messages db))"
    unfolding foreign_key_def list.pred_map
    by (rule list.pred_mono_strong [OF qdb_okD(5) [OF assms(1), unfolded foreign_key_def]]) (simp add: assms(2))
  then show ?thesis by (simp add: sql_update_def Let_def fk)
qed

lemma commit_result:
  assumes ok: "qdb_ok db"
  obtains db' where "qb_commit g db = (Inr (), db')" "qdb_ok db'"
    "db_messages db' = filter (\<lambda>m. \<not> (mr_gtrid m = g \<and> mr_state m = Removed))
       (map (\<lambda>m. if mr_gtrid m = g \<and> mr_state m = Added then m\<lparr>mr_state := Enqueued\<rparr> else m) (db_messages db))"
proof -
  obtain n db1 where c1: "sql_commit1 g db = Some (n, db1)"
    using update_state_total [OF ok, of "\<lambda>m. m\<lparr>mr_state := Enqueued\<rparr>" "\<lambda>m. mr_gtrid m = g \<and> mr_state m = Added"]
    unfolding sql_commit1_def by auto
  obtain n2 db2 where c2: "sql_commit2 g db1 = Some (n2, db2)"
    by (simp add: sql_commit2_def sql_delete_def)
  have run: "qb_commit g db = (Inr (), db2)"
    using c1 c2 by (simp add: qb_commit_def act_defs sql_run_def)
  then have "qdb_ok db2" using ok commit_ok [of g] by (simp add: act_keeps_def) (metis snd_conv)
  with run show ?thesis
    using that c1 c2 unfolding sql_commit1_def sql_commit2_def
    by (auto dest!: update_messages delete_messages)
qed

definition leaves :: "bytes \<Rightarrow> group_message \<Rightarrow> bool" where
  "leaves g m = (case m of
      Enqueue_request r \<Rightarrow> other_transaction g (er_trid r)
    | Dequeue_request r \<Rightarrow> other_transaction g (dr_trid r)
    | _ \<Rightarrow> True)"

lemma commit_settles:
  assumes s: "qg_base s = Some db" "qdb_ok db" and e: "visits e" and g: "gtrid (rq_trid r) = g"
    and pending: "list_all (\<lambda>d. other_transaction g (dr_trid d)) (qg_dequeues s)"
  shows "settle.kept g (length (qg_outbox s)) (snd (group_commit_handler e r s))"
proof -
  obtain db' where c: "qb_commit g db = (Inr (), db')" "qdb_ok db'"
    "db_messages db' = filter (\<lambda>m. \<not> (mr_gtrid m = g \<and> mr_state m = Removed))
       (map (\<lambda>m. if mr_gtrid m = g \<and> mr_state m = Added then m\<lparr>mr_state := Enqueued\<rparr> else m) (db_messages db))"
    by (rule commit_result [OF s(2)])
  have "settled g db'"
    unfolding settled_def list_all_iff
  proof (intro ballI impI)
    fix m assume m: "m \<in> set (db_messages db')" "mr_gtrid m = g"
    have "list_all (\<lambda>m. \<not> (mr_gtrid m = g \<and> mr_state m = Added))
        (map (\<lambda>m. if mr_gtrid m = g \<and> mr_state m = Added then m\<lparr>mr_state := Enqueued\<rparr> else m) (db_messages db))"
      unfolding list.pred_map by (rule list.pred_True [THEN fun_cong, THEN iffD2, THEN list.pred_mono_strong]) auto
    then have "mr_state m \<noteq> Added" "mr_state m \<noteq> Removed"
      using m unfolding c(3) list_all_iff set_filter by blast+
    moreover have "mr_state m \<noteq> Dequeued" using qdb_okD(6) [OF c(2)] m by blast
    ultimately show "mr_state m = Enqueued" by (cases "mr_state m") auto
  qed
  then have "settle.kept g (length (qg_outbox s)) ((group_transaction_done (rq_trid r) s)\<lparr>qg_base := Some db'\<rparr>)"
    using pending by (simp add: settle.kept_def group_transaction_done_def list_all_iff)
  moreover have "base_code (qb_commit g) (group_transaction_done (rq_trid r) s) =
      (Inr Xa_ok, (group_transaction_done (rq_trid r) s)\<lparr>qg_base := Some db'\<rparr>)"
    using s(1) c(1) by (simp add: base_code_def act_catch_def act_then_def act_bind_def act_ret_def on_base_def
        group_transaction_done_def)
  then have "group_commit_handler e r s = persistent_reply e (rq_process r) (resource_reply Commit_kind r Xa_ok)
      ((group_transaction_done (rq_trid r) s)\<lparr>qg_base := Some db'\<rparr>)"
    by (simp add: group_commit_handler_def act_then_def act_bind_def act_upd_def g)
  moreover have "act_keeps (settle.kept g (length (qg_outbox s))) (persistent_reply e (rq_process r) (resource_reply Commit_kind r Xa_ok))"
    by (rule settle.keeps_persistent_reply) (use e in \<open>simp_all add: visits_def resource_reply_def\<close>)
  ultimately show ?thesis by (simp add: act_keeps_def)
qed

text \<open>
  C7. A commit is answered when it is on disk: when, at any time after the request of the
  transaction manager, a positive reply to a commit of the transaction has been sent, the committed
  tables hold none of its messages as uncommitted or as dequeued - if no request of the
  transaction comes after its commit.
\<close>
theorem commit_answered_when_durable:
  assumes "qg_base s = Some db" and "qdb_ok db" and "visits e" and "gtrid (rq_trid r) = g"
    and "list_all (\<lambda>d. other_transaction g (dr_trid d)) (qg_dequeues s)"
    and "list_all (\<lambda>(e, m). visits e \<and> leaves g m) ms"
    and "s' = fold group_step ((e, Commit_request r) # ms) s"
    and "list_ex (\<lambda>x. committed_reply g (snd x)) (drop (length (qg_outbox s)) (qg_outbox s'))"
  shows "list_all (\<lambda>m. mr_gtrid m = g \<longrightarrow> mr_state m = Enqueued) (db_messages (qg_saved s'))"
proof (cases "qg_ended s")
  case True
  then have "s' = s" using assms(7) by (induction ms arbitrary: s') (auto simp: group_step_def)
  then show ?thesis using assms(8) by simp
next
  case False
  let ?n = "length (qg_outbox s)"
  have allowed: "settle.allowed g e m" if "visits e" "leaves g m" for e m
    using that by (cases m) (auto simp: settle.allowed_def visits_def leaves_def)
  have h: "settle.kept g ?n (snd (group_commit_handler e r s))"
    by (rule commit_settles [OF assms(1,2,3,4,5)])
  have ends: "settle.kept g ?n (group_end s1)" if "settle.kept g ?n s1" for s1
    using settle.kept_persist [OF that] by (simp add: group_end_def settle.kept_def)
  have "act_keeps (settle.kept g ?n) (group_abort e)"
    unfolding group_abort_def
    by (intro keeps_then keeps_upd settle.keeps_shutdown) (use assms(3) in \<open>simp_all add: settle.kept_def visits_def\<close>)
  then have aborted: "settle.kept g ?n s1 \<Longrightarrow> settle.kept g ?n (snd (group_abort e s1))" for s1 by (simp add: act_keeps_def)
  have dead: "settle.kept g ?n (s1\<lparr>qg_ended := True\<rparr>) = settle.kept g ?n s1" for s1 by (simp add: settle.kept_def)
  have "settle.kept g ?n (group_step (e, Commit_request r) s)"
  proof (cases "group_commit_handler e r s" rule: act_cases)
    case (fault x s1)
    then have "settle.kept g ?n (snd (group_abort e s1))" using h aborted by simp
    then show ?thesis
      using fault False ends
      by (cases "group_abort e s1" rule: act_cases) (simp_all add: group_step_def group_handle_def dead)
  next
    case (result x s1)
    then show ?thesis using h ends False by (simp add: group_step_def group_handle_def)
  qed
  then have "settle.kept g ?n s'"
    unfolding assms(7) fold_Cons comp_def
    by (rule settle.run_kept [rotated]) (use assms(6) allowed in \<open>auto simp: list_all_iff\<close>)
  then show ?thesis using assms(8) by (simp add: settle.kept_def settled_def)
qed

text \<open>The reply to the commit of transaction 6 goes out with the persist, and its message is on disk.\<close>

theorem commit_answered_when_durable_witness:
  "list_all (\<lambda>m. mr_gtrid m = [6] \<longrightarrow> mr_state m = Enqueued) (db_messages (qg_saved
     (fold group_step [(queue_env 7, Commit_request (end_request 6)), (queue_env 8, Inbound_idle)] (queue_demo demo_messages))))"
proof -
  let ?s = "queue_demo demo_messages" and ?db = "the (qg_base (queue_demo demo_messages))"
  have b: "qg_base ?s \<noteq> None" "qg_dequeues ?s = []"
    "list_ex (\<lambda>x. committed_reply [6] (snd x)) (drop (length (qg_outbox ?s)) (qg_outbox
       (fold group_step ((queue_env 7, Commit_request (end_request 6)) # [(queue_env 8, Inbound_idle)]) ?s)))"
    unfolding queue_demo_def demo_messages_def queue_demo_defs by code_simp+
  then have base: "qg_base ?s = Some ?db" by auto
  then have ok: "qdb_ok ?db" using demo_base by (auto simp: qdb_paired_def)
  have g: "gtrid (rq_trid (end_request 6)) = [6]" by (simp add: end_request_def queue_trid_def)
  have d: "list_all (\<lambda>d. other_transaction [6] (dr_trid d)) (qg_dequeues ?s)" by (simp add: b(2))
  have ms: "list_all (\<lambda>(e, m). visits e \<and> leaves [6] m) [(queue_env 8, Inbound_idle)]" by (simp add: leaves_def)
  show ?thesis
    using commit_answered_when_durable [OF base ok queue_env_ok(1) g d ms refl b(3)] by simp
qed

section \<open>The order of dequeues\<close>

text \<open>Whoever serves requests one by one from the front of what is waiting serves any number of
  them in order.\<close>

locale served_in_order =
  fixes waiting :: "'s \<Rightarrow> 'm list"
    and serve :: "'r \<Rightarrow> ('s, 'm list) act"
    and invariant :: "'s \<Rightarrow> bool"
    and served :: "'r \<Rightarrow> bool"
  assumes serve_first: "invariant s \<Longrightarrow> served r \<Longrightarrow>
    \<exists>s'. serve r s = (Inr (take 1 (waiting s)), s') \<and> waiting s' = drop 1 (waiting s) \<and> invariant s'"
begin

lemma serve_all:
  "invariant s \<Longrightarrow> list_all served rs \<Longrightarrow>
     \<exists>out s'. act_each serve rs s = (Inr out, s') \<and> concat out = take (length rs) (waiting s)
       \<and> waiting s' = drop (length rs) (waiting s) \<and> invariant s'"
proof (induction rs arbitrary: s)
  case Nil
  then show ?case by (simp add: act_ret_def)
next
  case (Cons r rs)
  obtain s1 where s1: "serve r s = (Inr (take 1 (waiting s)), s1)" "waiting s1 = drop 1 (waiting s)" "invariant s1"
    using serve_first Cons.prems by fastforce
  obtain out s2 where s2: "act_each serve rs s1 = (Inr out, s2)" "concat out = take (length rs) (waiting s1)"
    "waiting s2 = drop (length rs) (waiting s1)" "invariant s2"
    using Cons.IH [OF s1(3)] Cons.prems by auto
  have "act_each serve (r # rs) s = (Inr (take 1 (waiting s) # out), s2)"
    by (simp add: act_bind_def act_ret_def s1(1) s2(1))
  moreover have "concat (take 1 (waiting s) # out) = take (length (r # rs)) (waiting s)"
    using s2(2) s1(2) by (cases "waiting s") simp_all
  moreover have "waiting s2 = drop (length (r # rs)) (waiting s)"
    using s2(3) s1(2) by (cases "waiting s") simp_all
  ultimately show ?case using s2(4) by blast
qed

end

definition fifo_order :: "message_row list \<Rightarrow> message_row list" where
  "fifo_order ms = sort_key (\<lambda>m. (mr_timestamp m, mr_available m)) ms"

definition fifo_request :: "int \<Rightarrow> dequeue_request \<Rightarrow> bool" where
  "fifo_request k r \<longleftrightarrow> dr_queue r = k \<and> dr_id r = None \<and> dr_properties r = []"

lemma sql_first_sorted:
  "sql_first_by row_before ms = (case fifo_order ms of [] \<Rightarrow> None | m # _ \<Rightarrow> Some m)"
proof (induction ms)
  case (Cons m ms)
  have "row_before y m \<longleftrightarrow> \<not> (mr_timestamp m, mr_available m) \<le> (mr_timestamp y, mr_available y)" for y
    by (auto simp: row_before_def less_eq_prod_def)
  with Cons show ?case by (cases "fifo_order ms") (simp_all add: fifo_order_def)
qed (simp add: fifo_order_def)

lemma filter_taken:
  "filter (dequeueable k now) (map (\<lambda>m. if mr_rowid m = j then m\<lparr>mr_gtrid := g, mr_state := Removed\<rparr> else m) ms)
     = filter (\<lambda>m. mr_rowid m \<noteq> j) (filter (dequeueable k now) ms)"
  by (induction ms) (auto simp: dequeueable_def)

lemma without_first:
  assumes "distinct (map mr_rowid ms)" and "fifo_order ms = m # rest"
  shows "fifo_order (filter (\<lambda>x. mr_rowid x \<noteq> mr_rowid m) ms) = rest"
proof -
  have "distinct (map mr_rowid (fifo_order ms))"
    using assms(1) by (simp add: fifo_order_def distinct_map)
  then have "distinct (map mr_rowid (m # rest))" by (simp only: assms(2))
  then have "filter (\<lambda>x. mr_rowid x \<noteq> mr_rowid m) (m # rest) = rest"
    by (simp add: filter_id_conv) (metis image_eqI)
  then show ?thesis using assms(2) by (simp only: fifo_order_def filter_sort [symmetric])
qed

lemma take_total:
  assumes "qdb_ok db"
  shows "\<exists>n db'. qb_take t j db = Some (n, db')"
proof (cases "trid_null t")
  case True
  then show ?thesis by (simp add: qb_take_def sql_state_nullxid_def sql_delete_def)
next
  case False
  then show ?thesis
    unfolding qb_take_def sql_state_xid_def by simp (rule update_state_total [OF assms], simp)
qed

lemma take_leaves:
  assumes "qb_take t j db = Some (n, db')"
  shows "filter (dequeueable k now) (db_messages db') =
    filter (\<lambda>x. mr_rowid x \<noteq> j) (filter (dequeueable k now) (db_messages db))"
proof (cases "trid_null t")
  case True
  then have "db_messages db' = filter (\<lambda>x. mr_rowid x \<noteq> j) (db_messages db)"
    using assms delete_messages by (simp add: qb_take_def sql_state_nullxid_def)
  then show ?thesis by (simp add: conj_commute)
next
  case False
  then have "db_messages db' = map (\<lambda>x. if mr_rowid x = j
      then x\<lparr>mr_gtrid := gtrid t, mr_state := Removed\<rparr> else x) (db_messages db)"
    using assms by (simp add: qb_take_def sql_state_xid_def update_messages)
  then show ?thesis by (simp only: filter_taken)
qed

interpretation fifo: served_in_order "\<lambda>db. map to_message (fifo_order (filter (dequeueable k now) (db_messages db)))"
    "qb_dequeue now" qdb_ok "fifo_request k"
  for k now
proof
  fix db :: qdb and r
  assume ok: "qdb_ok db" and r: "fifo_request k r"
  let ?waiting = "\<lambda>db. fifo_order (filter (dequeueable k now) (db_messages db))"
  have fetch: "qb_fetch now r db = (case ?waiting db of [] \<Rightarrow> None | m # _ \<Rightarrow> Some m)"
    using r by (simp add: qb_fetch_def sql_first_def fifo_request_def sql_first_sorted)
  show "\<exists>s'. qb_dequeue now r db = (Inr (take 1 (map to_message (?waiting db))), s')
      \<and> map to_message (?waiting s') = drop 1 (map to_message (?waiting db)) \<and> qdb_ok s'"
  proof (cases "?waiting db")
    case Nil
    then show ?thesis using fetch ok by (simp add: qb_dequeue_def act_defs)
  next
    case (Cons m rest)
    obtain n db' where take: "qb_take (dr_trid r) (mr_rowid m) db = Some (n, db')"
      using take_total [OF ok] by blast
    then have "qb_dequeue now r db = (Inr [to_message m], db')"
      using fetch Cons by (simp add: qb_dequeue_def act_defs sql_run_def)
    moreover have "qdb_ok db'"
      using take_ok [OF ok _ _ take] fetch Cons qb_fetch_in [of now r db m] by (simp add: dequeueable_def)
    moreover note left = take_leaves [OF take, of k now]
    moreover have "distinct (map mr_rowid (filter (dequeueable k now) (db_messages db)))"
      using qdb_okD(3) [OF ok] by (rule distinct_map_filter_subset)
    then have "?waiting db' = rest" unfolding left by (rule without_first) (rule Cons)
    ultimately show ?thesis using Cons by auto
  qed
qed

text \<open>
  C19. Dequeues without a selector, in any transactions, one after the other, are served in the
  order of the time of the enqueue, then of the time the message is available: together they
  return the first messages of the sorted list of the available ones, and leave its rest.
\<close>
theorem dequeues_as_sorted:
  assumes "qdb_ok db" and "list_all (fifo_request k) rs"
  shows "\<exists>out db'. act_each (qb_dequeue now) rs db = (Inr out, db')
    \<and> concat out = take (length rs) (map to_message (fifo_order (filter (dequeueable k now) (db_messages db))))
    \<and> map to_message (fifo_order (filter (dequeueable k now) (db_messages db')))
      = drop (length rs) (map to_message (fifo_order (filter (dequeueable k now) (db_messages db))))"
  using fifo.serve_all [OF assms] by blast

text \<open>Two dequeues get the two messages in the order they were enqueued.\<close>

theorem dequeues_as_sorted_witness:
  "map (map dm_id) (projr (fst (act_each (qb_dequeue 9) [get_request 1 7, get_request 2 8]
     (the (qg_base (queue_demo [(1, configure [(''q'', 1, 0)]), (2, Enqueue_request (put_request 42 0 1)),
        (3, Enqueue_request (put_request 41 0 0))])))))) = [[42], [41]]"
proof -
  let ?s = "queue_demo [(1, configure [(''q'', 1, 0)]), (2, Enqueue_request (put_request 42 0 1)),
        (3, Enqueue_request (put_request 41 0 0))]"
  let ?db = "the (qg_base ?s)"
  have b: "qg_base ?s \<noteq> None"
    "map dm_id (take 2 (map to_message (fifo_order (filter (dequeueable 2 9) (db_messages ?db))))) = [42, 41]"
    "map length (projr (fst (act_each (qb_dequeue 9) [get_request 1 7, get_request 2 8] ?db))) = [1, 1]"
    unfolding queue_demo_def queue_demo_defs by code_simp+
  then have ok: "qdb_ok ?db" using demo_base by (auto simp: qdb_paired_def)
  have rs: "list_all (fifo_request 2) [get_request 1 7, get_request 2 8]" by (simp add: fifo_request_def get_request_def)
  obtain out db' where out: "act_each (qb_dequeue 9) [get_request 1 7, get_request 2 8] ?db = (Inr out, db')"
    "concat out = take (length [get_request 1 7, get_request 2 8])
       (map to_message (fifo_order (filter (dequeueable 2 9) (db_messages ?db))))"
    using dequeues_as_sorted [OF ok rs, of 9] by blast
  have "length [get_request 1 7, get_request 2 8] = (2::nat)" by simp
  then have "map dm_id (concat out) = [42, 41]" using b(2) unfolding out(2) by (simp only:)
  moreover have "map length out = [1, 1]" using b(3) unfolding out(1) by simp
  ultimately have "map (map dm_id) out = [[42], [41]]" by (auto simp: map_eq_Cons_conv length_Suc_conv)
  then show ?thesis unfolding out(1) by (simp only: fst_conv sum.sel)
qed

end
