(* ===== verification/QueueDelivery.thy ===== *)
theory QueueDelivery
  imports QueueProperties
begin

text \<open>
  Rollback and delivery: what a rollback does to each message of its transaction, that it undoes an
  enqueue, that no request waits for a message that is available, and scenarios that show where a
  request is left without an answer.
\<close>

section \<open>Rollback\<close>

lemma map_if_same: "(\<And>m. h (f m) = h m) \<Longrightarrow> map h (map (\<lambda>m. if p m then f m else m) ms) = map h ms"
  by (induction ms) auto

lemma find_queue_exists:
  assumes "qdb_ok db" and "m \<in> set (db_messages db)"
  shows "\<exists>q. find_queue (mr_queue m) (db_queues db) = Some q \<and> q \<in> set (db_queues db) \<and> qr_id q = mr_queue m"
proof -
  have "mr_queue m \<in> set (map qr_id (db_queues db))"
    using foreign_keyD [OF qdb_okD(5) [OF assms(1)] assms(2)] .
  then show ?thesis
    using find_queue_None [of "mr_queue m" "db_queues db"] find_queue_in
    by (cases "find_queue (mr_queue m) (db_queues db)") blast+
qed

lemma find_queue_same:
  "list_all2 same_queue qs qs' \<Longrightarrow> find_queue k qs = Some q \<Longrightarrow> \<exists>q'. find_queue k qs' = Some q' \<and> same_queue q q'"
proof (induction rule: list_all2_induct)
  case (Cons x xs y ys)
  then show ?case
    by (cases "qr_id x = k") (auto simp: find_queue_def same_queue_def)
qed (simp add: find_queue_def)

lemma exhausted_same:
  assumes "list_all2 same_queue qs qs'" and "find_queue (mr_queue m) qs = Some q"
  shows "exhausted qs' m \<longleftrightarrow> mr_queue m mod 2 = 0 \<and> qr_retry_count q < mr_redelivered m"
  using find_queue_same [OF assms] by (auto simp: exhausted_def same_queue_def)

text \<open>The three statements of a rollback succeed; the message of the row is returned, and moved to
  the error queue when it has been returned too often.\<close>

definition returned :: "int \<Rightarrow> queue_row \<Rightarrow> message_row \<Rightarrow> message_row" where
  "returned sqlnow q m = m\<lparr>mr_state := Enqueued, mr_redelivered := mr_redelivered m + 1,
     mr_available := (if qr_retry_delay q = 0 then 0 else sqlnow + qr_retry_delay q)\<rparr>"

lemma rollback2_total:
  assumes "qdb_ok db"
  shows "\<exists>n db'. sql_rollback2 sqlnow g db = Some (n, db')"
proof -
  have "\<not> list_ex (\<lambda>m. (mr_gtrid m = g \<and> mr_state m = Removed)
      \<and> retry_available sqlnow (mr_queue m) (db_queues db) = None) (db_messages db)"
    using find_queue_exists [OF assms] by (fastforce simp: list_ex_iff retry_available_def)
  moreover have "\<exists>n db'. sql_update update_message_state (\<lambda>m. mr_gtrid m = g \<and> mr_state m = Removed)
           (\<lambda>m. m\<lparr>mr_state := Enqueued, mr_redelivered := mr_redelivered m + 1,
              mr_available := the (retry_available sqlnow (mr_queue m) (db_queues db))\<rparr>) db = Some (n, db')"
    by (rule update_state_total [OF assms]) simp
  ultimately show ?thesis by (simp add: sql_rollback2_def Let_def)
qed

lemma rollback3_total:
  assumes "qdb_paired db"
  shows "\<exists>n db'. sql_rollback3 g db = Some (n, db')"
proof -
  let ?p = "\<lambda>m. mr_gtrid m = g \<and> exhausted (db_queues db) m"
  let ?f = "\<lambda>m. m\<lparr>mr_redelivered := 0, mr_queue := mr_queue m - 1\<rparr>"
  let ?qs = "fold (\<lambda>m. update_message_queue m (?f m)) (filter ?p (db_messages db)) (db_queues db)"
  have ok: "qdb_ok db" and paired: "paired_set (pairs_of (db_queues db))"
    using assms by (simp_all add: qdb_paired_def queues_paired_def)
  have "frames (fold (\<lambda>m. update_message_queue m (?f m)) (filter ?p (db_messages db)))"
    by (rule frames_fold) simp
  then have "map qr_id ?qs = map qr_id (db_queues db)" by (auto simp: frames_def intro: same_queue_ids)
  then have fk: "foreign_key ?qs ms = foreign_key (db_queues db) ms" for ms by (rule foreign_key_ids)
  have "foreign_key (db_queues db) (map (\<lambda>m. if ?p m then ?f m else m) (db_messages db))"
  proof (rule foreign_keyI)
    fix m' assume "m' \<in> set (map (\<lambda>m. if ?p m then ?f m else m) (db_messages db))"
    then obtain m where m: "m \<in> set (db_messages db)" "m' = (if ?p m then ?f m else m)"
      unfolding set_map by (elim imageE)
    show "mr_queue m' \<in> set (map qr_id (db_queues db))"
    proof (cases "?p m")
      case True
      obtain q where q: "q \<in> set (db_queues db)" "qr_id q = mr_queue m" using find_queue_exists [OF ok m(1)] by blast
      have "mr_queue m mod 2 = 0" using True by (simp add: exhausted_def)
      then have "mr_queue m - 1 \<in> fst ` pairs_of (db_queues db)"
        using paired_setD(1) [OF paired in_pairs_of [OF q(1)]] q(2) by simp
      then show ?thesis using True m(2) by (simp add: ids_of_pairs)
    next
      case False
      then have "m' = m" using m(2) by (simp only: if_False)
      then show ?thesis using foreign_keyD [OF qdb_okD(5) [OF ok] m(1)] by simp
    qed
  qed
  then show ?thesis unfolding sql_rollback3_def sql_update_def Let_def by (simp add: fk)
qed

lemma stmt_keeps_paired:
  "stmt_keeps qdb_ok f \<Longrightarrow> (\<And>qs. stmt_keeps (queues_as qs) f) \<Longrightarrow> qdb_paired db \<Longrightarrow> f db = Some (n, db') \<Longrightarrow>
     qdb_paired db' \<and> list_all2 same_queue (db_queues db) (db_queues db')"
proof -
  assume a: "stmt_keeps qdb_ok f" "\<And>qs. stmt_keeps (queues_as qs) f" "qdb_paired db" "f db = Some (n, db')"
  have "queues_as (db_queues db) db" by (simp add: queues_as_def list.rel_refl)
  then have same: "list_all2 same_queue (db_queues db) (db_queues db')"
    using a(2) [of "db_queues db"] a(4) unfolding stmt_keeps_def queues_as_def by blast
  moreover have "qdb_ok db'" using a unfolding stmt_keeps_def qdb_paired_def by blast
  ultimately show ?thesis using a(3) paired_same by (simp add: qdb_paired_def)
qed

lemma rollback_result:
  assumes p: "qdb_paired db"
  obtains db1 db2 db3 :: qdb where "qb_rollback sqlnow g db = (Inr (), db3)" "qdb_ok db3"
    "db_messages db1 = filter (\<lambda>m. \<not> (mr_gtrid m = g \<and> mr_state m = Added)) (db_messages db)"
    "list_all2 same_queue (db_queues db) (db_queues db1)" "list_all2 same_queue (db_queues db) (db_queues db2)"
    "db_messages db2 = map (\<lambda>m. if mr_gtrid m = g \<and> mr_state m = Removed
              then m\<lparr>mr_state := Enqueued, mr_redelivered := mr_redelivered m + 1,
                mr_available := the (retry_available sqlnow (mr_queue m) (db_queues db1))\<rparr> else m) (db_messages db1)"
    "db_messages db3 = map (\<lambda>m. if mr_gtrid m = g \<and> exhausted (db_queues db2) m
              then m\<lparr>mr_redelivered := 0, mr_queue := mr_queue m - 1\<rparr> else m) (db_messages db2)"
proof -
  obtain n1 db1 where r1: "sql_rollback1 g db = Some (n1, db1)"
    by (simp add: sql_rollback1_def sql_delete_def)
  have p1: "qdb_paired db1 \<and> list_all2 same_queue (db_queues db) (db_queues db1)"
    by (rule stmt_keeps_paired [where f = "sql_rollback1 g" and n = n1])
      (simp_all add: p r1, simp_all add: sql_rollback1_def delete_ok queues_as_delete)
  obtain n2 db2 where r2: "sql_rollback2 sqlnow g db1 = Some (n2, db2)"
    using rollback2_total p1 unfolding qdb_paired_def by blast
  have p2: "qdb_paired db2 \<and> list_all2 same_queue (db_queues db1) (db_queues db2)"
    by (rule stmt_keeps_paired [OF rollback2_ok queues_as_rollback2 p1 [THEN conjunct1] r2])
  obtain n3 db3 where r3: "sql_rollback3 g db2 = Some (n3, db3)" using rollback3_total p2 by blast
  have run: "qb_rollback sqlnow g db = (Inr (), db3)"
    using r1 r2 r3 by (simp add: qb_rollback_def act_defs sql_run_def)
  have "qdb_ok (snd (qb_rollback sqlnow g db))" using rollback_ok [of sqlnow g] p by (simp add: act_keeps_def qdb_paired_def)
  then have ok3: "qdb_ok db3" by (simp add: run)
  have same2: "list_all2 same_queue (db_queues db) (db_queues db2)" using p1 p2 same_queues_trans by blast
  show ?thesis
    by (rule that [of db3 db1 db2]) (fact run ok3 p1 [THEN conjunct2] same2 rollback2_messages [OF r2]
      delete_messages [OF r1 [unfolded sql_rollback1_def]] update_messages [OF r3 [unfolded sql_rollback3_def]])+
qed

definition returned_twice :: "(int \<times> group_message) list" where
  "returned_twice = [(1, configure [(''q'', 1, 0)]), (2, Enqueue_request (put_request 41 0 0)),
     (3, Dequeue_request (get_request 1 7)), (4, Rollback_request (end_request 7)),
     (5, Dequeue_request (get_request 2 8))]"

text \<open>
  C16. A rollback removes what the transaction has enqueued and returns what it has dequeued: the
  message is committed again, counted as redelivered once more and available after the delay of
  its queue; once it has been redelivered as often as the queue allows, it moves to the error
  queue instead, with the count at zero - and stays there, because an error queue has none.
\<close>
theorem rollback_returns_messages:
  assumes "qdb_paired db" and "m \<in> set (db_messages db)" and "mr_gtrid m = g"
  shows "\<exists>db' q. qb_rollback sqlnow g db = (Inr (), db') \<and> q \<in> set (db_queues db) \<and> qr_id q = mr_queue m
    \<and> (case mr_state m of
         Added \<Rightarrow> mr_id m \<notin> set (map mr_id (db_messages db'))
       | Removed \<Rightarrow>
           (if qr_error q = 0 \<or> mr_redelivered m < qr_retry_count q then returned sqlnow q m
            else (returned sqlnow q m)\<lparr>mr_redelivered := 0, mr_queue := qr_error q\<rparr>) \<in> set (db_messages db')
       | _ \<Rightarrow> True)"
proof -
  have ok: "qdb_ok db" and paired: "paired_set (pairs_of (db_queues db))"
    using assms(1) by (simp_all add: qdb_paired_def queues_paired_def)
  obtain q where q: "find_queue (mr_queue m) (db_queues db) = Some q" "q \<in> set (db_queues db)" "qr_id q = mr_queue m"
    using find_queue_exists [OF ok assms(2)] by blast
  obtain db1 db2 db3 :: qdb where r: "qb_rollback sqlnow g db = (Inr (), db3)" "qdb_ok db3"
    and m1: "db_messages db1 = filter (\<lambda>m. \<not> (mr_gtrid m = g \<and> mr_state m = Added)) (db_messages db)"
    and same: "list_all2 same_queue (db_queues db) (db_queues db1)" "list_all2 same_queue (db_queues db) (db_queues db2)"
    and m2: "db_messages db2 = map (\<lambda>m. if mr_gtrid m = g \<and> mr_state m = Removed
              then m\<lparr>mr_state := Enqueued, mr_redelivered := mr_redelivered m + 1,
                mr_available := the (retry_available sqlnow (mr_queue m) (db_queues db1))\<rparr> else m) (db_messages db1)"
    and m3: "db_messages db3 = map (\<lambda>m. if mr_gtrid m = g \<and> exhausted (db_queues db2) m
              then m\<lparr>mr_redelivered := 0, mr_queue := mr_queue m - 1\<rparr> else m) (db_messages db2)"
    by (rule rollback_result [OF assms(1)])
  have "case mr_state m of
         Added \<Rightarrow> mr_id m \<notin> set (map mr_id (db_messages db3))
       | Removed \<Rightarrow>
           (if qr_error q = 0 \<or> mr_redelivered m < qr_retry_count q then returned sqlnow q m
            else (returned sqlnow q m)\<lparr>mr_redelivered := 0, mr_queue := qr_error q\<rparr>) \<in> set (db_messages db3)
       | _ \<Rightarrow> True"
  proof (cases "mr_state m")
    case Added
    have "map mr_id (db_messages db3) = map mr_id (db_messages db2)" unfolding m3 by (rule map_if_same) simp
    also have "\<dots> = map mr_id (db_messages db1)" unfolding m2 by (rule map_if_same) simp
    finally have "map mr_id (db_messages db3) = map mr_id (db_messages db1)" .
    moreover have "mr_id m \<notin> set (map mr_id (db_messages db1))"
    proof
      assume "mr_id m \<in> set (map mr_id (db_messages db1))"
      then obtain x where "x \<in> set (db_messages db)" "mr_id x = mr_id m" "\<not> (mr_gtrid x = g \<and> mr_state x = Added)"
        by (auto simp: m1)
      then show False using qdb_okD(4) [OF ok] assms(2,3) Added by (auto simp: distinct_map inj_on_def)
    qed
    ultimately show ?thesis using Added by simp
  next
    case Removed
    obtain q1 where q1: "find_queue (mr_queue m) (db_queues db1) = Some q1" "same_queue q q1"
      using find_queue_same [OF same(1) q(1)] by blast
    let ?m2 = "returned sqlnow q m"
    have "m \<in> set (db_messages db1)" using assms(2) Removed by (simp add: m1)
    then have "(if mr_gtrid m = g \<and> mr_state m = Removed
              then m\<lparr>mr_state := Enqueued, mr_redelivered := mr_redelivered m + 1,
                mr_available := the (retry_available sqlnow (mr_queue m) (db_queues db1))\<rparr> else m) \<in> set (db_messages db2)"
      unfolding m2 set_map by (rule imageI)
    moreover have "the (retry_available sqlnow (mr_queue m) (db_queues db1)) =
        (if qr_retry_delay q = 0 then 0 else sqlnow + qr_retry_delay q)"
      using q1 by (simp add: retry_available_def same_queue_def)
    ultimately have "?m2 \<in> set (db_messages db2)"
      by (simp only: returned_def Removed assms(3) simp_thms if_True)
    then have last: "(if mr_gtrid ?m2 = g \<and> exhausted (db_queues db2) ?m2
              then ?m2\<lparr>mr_redelivered := 0, mr_queue := mr_queue ?m2 - 1\<rparr> else ?m2) \<in> set (db_messages db3)"
      unfolding m3 set_map by (rule imageI)
    have "exhausted (db_queues db2) ?m2 \<longleftrightarrow> mr_queue m mod 2 = 0 \<and> qr_retry_count q < mr_redelivered m + 1"
      using exhausted_same [OF same(2), of ?m2 q] q(1) by (simp add: returned_def)
    moreover have "mr_queue m mod 2 = 0 \<Longrightarrow> qr_error q = mr_queue m - 1 \<and> 0 < qr_error q"
      "mr_queue m mod 2 \<noteq> 0 \<Longrightarrow> qr_error q = 0"
      using paired_setD [OF paired in_pairs_of [OF q(2)]] q(3) qdb_okD(2) [OF ok q(2)] by auto presburger?
    ultimately show ?thesis
      using last Removed assms(3) by (cases "mr_queue m mod 2 = 0") (auto simp: returned_def)
  qed simp_all
  then show ?thesis using r(1) q by blast
qed

text \<open>A message that is rolled back for the second time moves to the error queue.\<close>

theorem rollback_returns_messages_witness:
  "\<exists>db'. qb_rollback 20 [8] (the (qg_base (queue_demo returned_twice))) = (Inr (), db')
    \<and> (1, 0, Enqueued) \<in> (\<lambda>m. (mr_queue m, mr_redelivered m, mr_state m)) ` set (db_messages db')"
proof -
  let ?s = "queue_demo returned_twice"
  let ?db = "the (qg_base ?s)"
  let ?m = "db_messages ?db ! 0"
  have b: "qg_base ?s \<noteq> None" "length (db_messages ?db) = 1" "mr_state ?m = Removed" "mr_gtrid ?m = [8]" "mr_queue ?m = 2"
    "mr_redelivered ?m = 1" "map (\<lambda>q. (qr_id q, qr_error q, qr_retry_count q)) (db_queues ?db) = [(1, 0, 0), (2, 1, 1)]"
    unfolding queue_demo_def returned_twice_def queue_demo_defs by code_simp+
  then have paired: "qdb_paired ?db" using demo_base by auto
  have m: "?m \<in> set (db_messages ?db)" using b(2) by simp
  obtain db' q where r: "qb_rollback 20 [8] ?db = (Inr (), db')" "q \<in> set (db_queues ?db)" "qr_id q = 2"
    "if qr_error q = 0 \<or> mr_redelivered ?m < qr_retry_count q then returned 20 q ?m \<in> set (db_messages db')
      else (returned 20 q ?m)\<lparr>mr_redelivered := 0, mr_queue := qr_error q\<rparr> \<in> set (db_messages db')"
    using rollback_returns_messages [OF paired m b(4), of 20] b(3,5) by (auto split: if_splits)
  have "(qr_id q, qr_error q, qr_retry_count q) \<in> set (map (\<lambda>q. (qr_id q, qr_error q, qr_retry_count q)) (db_queues ?db))"
    using r(2) by simp
  then have "qr_error q = 1" "qr_retry_count q = 1" unfolding b(7) using r(3) by auto
  then have "(returned 20 q ?m)\<lparr>mr_redelivered := 0, mr_queue := 1\<rparr> \<in> set (db_messages db')" using r(4) b(6) by simp
  then show ?thesis using r(1) by (force simp: returned_def)
qed

section \<open>Enqueue and rollback\<close>

definition in_transaction :: "bytes \<Rightarrow> enqueue_request \<Rightarrow> bool" where
  "in_transaction g r \<longleftrightarrow> \<not> trid_null (er_trid r) \<and> gtrid (er_trid r) = g"

lemma enqueues_added:
  "list_all (in_transaction g) rs \<Longrightarrow> act_each (qb_enqueue now u) rs db = (Inr ids, db') \<Longrightarrow>
     \<exists>new. db_messages db' = db_messages db @ new \<and> list_all (\<lambda>m. mr_gtrid m = g \<and> mr_state m = Added) new"
proof (induction rs arbitrary: db ids)
  case Nil
  then show ?case by (simp add: act_ret_def)
next
  case (Cons r rs)
  obtain i db1 where e: "qb_enqueue now u r db = (Inr i, db1)"
    using Cons.prems(2) by (cases "qb_enqueue now u r db" rule: act_cases) (simp_all add: act_bind_def)
  obtain ids' where es: "act_each (qb_enqueue now u) rs db1 = (Inr ids', db')"
    using Cons.prems(2) e by (cases "act_each (qb_enqueue now u) rs db1" rule: act_cases) (simp_all add: act_bind_def act_ret_def)
  obtain m where m: "db_messages db1 = db_messages db @ [m]" "mr_gtrid m = g" "mr_state m = Added"
    using e Cons.prems(1)
    by (auto simp: qb_enqueue_def Let_def act_defs sql_run_def sql_enqueue_def enqueue_row_def in_transaction_def
        split: option.splits if_splits)
  obtain new where "db_messages db' = db_messages db1 @ new" "list_all (\<lambda>m. mr_gtrid m = g \<and> mr_state m = Added) new"
    using Cons.IH [OF _ es] Cons.prems(1) by auto
  then have "db_messages db' = db_messages db @ (m # new) \<and> list_all (\<lambda>m. mr_gtrid m = g \<and> mr_state m = Added) (m # new)"
    using m by simp
  then show ?case by blast
qed

lemma same_counters:
  assumes "qdb_ok db" and "qdb_ok db'" and "db_messages db' = db_messages db"
    and "list_all2 same_queue (db_queues db) (db_queues db')"
  shows "map (\<lambda>q. (qr_id q, qr_count q, qr_size q, qr_uncommitted q)) (db_queues db')
    = map (\<lambda>q. (qr_id q, qr_count q, qr_size q, qr_uncommitted q)) (db_queues db)"
proof (rule nth_equalityI)
  show len: "length (map (\<lambda>q. (qr_id q, qr_count q, qr_size q, qr_uncommitted q)) (db_queues db'))
      = length (map (\<lambda>q. (qr_id q, qr_count q, qr_size q, qr_uncommitted q)) (db_queues db))"
    using assms(4) by (simp add: list_all2_lengthD)
  fix i assume "i < length (map (\<lambda>q. (qr_id q, qr_count q, qr_size q, qr_uncommitted q)) (db_queues db'))"
  then have i: "i < length (db_queues db')" "i < length (db_queues db)" using len by simp_all
  let ?q = "db_queues db ! i" and ?q' = "db_queues db' ! i"
  have same: "qr_id ?q' = qr_id ?q" using assms(4) i by (simp add: list_all2_conv_all_nth same_queue_def)
  have "shown d ?q' = shown d ?q" for d
    using qdb_okD(7) [OF assms(1)] qdb_okD(7) [OF assms(2)] i same assms(3) by (simp add: exact_def)
  from this [of Committed_count] this [of Committed_size] this [of Uncommitted_count]
  show "map (\<lambda>q. (qr_id q, qr_count q, qr_size q, qr_uncommitted q)) (db_queues db') ! i
      = map (\<lambda>q. (qr_id q, qr_count q, qr_size q, qr_uncommitted q)) (db_queues db) ! i"
    using i same by simp
qed

text \<open>
  C17. Enqueues in a transaction that is rolled back leave no trace: after any number of them and the
  rollback, which succeeds, the messages of the queue-base are exactly those of before, in the same
  order, and every queue has the counters of before.
\<close>
theorem rollback_undoes_enqueues:
  assumes "qdb_paired db" and "list_all (\<lambda>m. mr_gtrid m \<noteq> g) (db_messages db)"
    and "list_all (in_transaction g) rs" and "act_each (qb_enqueue now u) rs db = (Inr ids, db1)"
  shows "\<exists>db2. qb_rollback sqlnow g db1 = (Inr (), db2) \<and> db_messages db2 = db_messages db
    \<and> map (\<lambda>q. (qr_id q, qr_count q, qr_size q, qr_uncommitted q)) (db_queues db2)
      = map (\<lambda>q. (qr_id q, qr_count q, qr_size q, qr_uncommitted q)) (db_queues db)"
proof -
  have ok: "qdb_ok db" using assms(1) by (simp add: qdb_paired_def)
  have "act_keeps qdb_paired (act_each (qb_enqueue now u) rs)"
    by (intro keeps_each keeps_paired qb_enqueue_ok queues_as_messages(1))
  then have "qdb_paired (snd (act_each (qb_enqueue now u) rs db))" using assms(1) by (simp add: act_keeps_def)
  then have p1: "qdb_paired db1" by (simp add: assms(4))
  obtain new where new: "db_messages db1 = db_messages db @ new"
    "list_all (\<lambda>m. mr_gtrid m = g \<and> mr_state m = Added) new"
    using enqueues_added [OF assms(3,4)] by blast
  obtain da db' db2 :: qdb where r: "qb_rollback sqlnow g db1 = (Inr (), db2)" "qdb_ok db2"
    and ma: "db_messages da = filter (\<lambda>m. \<not> (mr_gtrid m = g \<and> mr_state m = Added)) (db_messages db1)"
    and mb: "db_messages db' = map (\<lambda>m. if mr_gtrid m = g \<and> mr_state m = Removed
              then m\<lparr>mr_state := Enqueued, mr_redelivered := mr_redelivered m + 1,
                mr_available := the (retry_available sqlnow (mr_queue m) (db_queues da))\<rparr> else m) (db_messages da)"
    and mc: "db_messages db2 = map (\<lambda>m. if mr_gtrid m = g \<and> exhausted (db_queues db') m
              then m\<lparr>mr_redelivered := 0, mr_queue := mr_queue m - 1\<rparr> else m) (db_messages db')"
    by (rule rollback_result [OF p1])
  have others: "map (\<lambda>m. if mr_gtrid m = g \<and> p m then f m else m) (db_messages db) = db_messages db" for p f
    using assms(2) by (auto simp: list_all_iff intro!: map_idI)
  have "filter (\<lambda>m. \<not> (mr_gtrid m = g \<and> mr_state m = Added)) new = []"
    using new(2) by (auto simp: list_all_iff filter_empty_conv)
  then have "db_messages da = db_messages db"
    using assms(2) by (auto simp: ma new(1) list_all_iff filter_id_conv)
  then have messages: "db_messages db2 = db_messages db" unfolding mc mb by (simp only: others)
  have start: "queues_as (db_queues db) db" by (simp add: queues_as_def list.rel_refl)
  have "act_keeps (queues_as (db_queues db)) (act_each (qb_enqueue now u) rs)"
    by (intro keeps_each queues_as_messages(1))
  then have "queues_as (db_queues db) (snd (act_each (qb_enqueue now u) rs db))" using start by (simp add: act_keeps_def)
  then have "queues_as (db_queues db) (snd (qb_rollback sqlnow g db1))"
    using queues_as_messages(4) [of "db_queues db" sqlnow g] by (simp add: assms(4) act_keeps_def)
  then have "list_all2 same_queue (db_queues db) (db_queues db2)" by (simp add: r(1) queues_as_def)
  then show ?thesis using r messages same_counters [OF ok r(2) messages] by blast
qed

text \<open>Two messages are added to a queue that has two, and rolled back.\<close>

theorem rollback_undoes_enqueues_witness:
  "map mr_id (db_messages (snd (qb_rollback 20 [9] (snd (act_each (qb_enqueue 9 0) [put_request 51 9 0, put_request 52 9 0]
      (the (qg_base (queue_demo demo_messages)))))))) = [41, 42]
   \<and> length (db_messages (snd (act_each (qb_enqueue 9 0) [put_request 51 9 0, put_request 52 9 0]
      (the (qg_base (queue_demo demo_messages)))))) = 4"
proof -
  let ?db = "the (qg_base (queue_demo demo_messages))"
  let ?rs = "[put_request 51 9 0, put_request 52 9 0]"
  have b: "qg_base (queue_demo demo_messages) \<noteq> None" "list_all (\<lambda>m. mr_gtrid m \<noteq> [9]) (db_messages ?db)"
    "map mr_id (db_messages ?db) = [41, 42]" "fst (act_each (qb_enqueue 9 0) ?rs ?db) = Inr [51, 52]"
    "length (db_messages (snd (act_each (qb_enqueue 9 0) ?rs ?db))) = 4" "list_all (in_transaction [9]) ?rs"
    unfolding queue_demo_def demo_messages_def queue_demo_defs in_transaction_def by code_simp+
  then have paired: "qdb_paired ?db" using demo_base by auto
  have run: "act_each (qb_enqueue 9 0) ?rs ?db = (Inr [51, 52], snd (act_each (qb_enqueue 9 0) ?rs ?db))"
    using b(4) by (metis prod.collapse)
  from rollback_undoes_enqueues [OF paired b(2,6) run, of 20] b(3,5) show ?thesis by force
qed

section \<open>Requests that wait\<close>

definition deliverable :: "int \<Rightarrow> int \<Rightarrow> qdb \<Rightarrow> int" where
  "deliverable k now db = int (length (filter (dequeueable k now) (db_messages db)))"

text \<open>A request that is put among the pending ones knows its queue and blocks.\<close>

definition waiting :: "dequeue_request \<Rightarrow> bool" where
  "waiting r \<longleftrightarrow> dr_queue r \<noteq> 0 \<and> dr_block r"

text \<open>The messages a request asks for: of its queue, available, and with its id or its properties.\<close>

definition wanted :: "int \<Rightarrow> dequeue_request \<Rightarrow> message_row \<Rightarrow> bool" where
  "wanted now r m \<longleftrightarrow> dequeueable (dr_queue r) now m \<and>
     (case dr_id r of Some i \<Rightarrow> mr_id m = i | None \<Rightarrow> dr_properties r = [] \<or> mr_properties m = dr_properties r)"

definition in_vain :: "int \<Rightarrow> dequeue_request \<Rightarrow> qdb \<Rightarrow> bool" where
  "in_vain now r db \<longleftrightarrow> list_all (\<lambda>m. \<not> wanted now r m) (db_messages db)"

lemma fetch_none: "qb_fetch now r db = None \<Longrightarrow> in_vain now r db"
  by (auto simp: qb_fetch_def in_vain_def wanted_def sql_first_id_def sql_first_match_def sql_first_def sql_first_by_None
      find_None_iff list_all_iff filter_empty_conv split: option.splits if_splits)

lemma none_in_vain: "deliverable (dr_queue r) now db = 0 \<Longrightarrow> in_vain now r db"
  by (auto simp: deliverable_def in_vain_def wanted_def list_all_iff filter_empty_conv)

text \<open>No request that waits could be served.\<close>

definition none_waits :: "int \<Rightarrow> qgroup \<Rightarrow> bool" where
  "none_waits now s \<longleftrightarrow> (case qg_base s of None \<Rightarrow> False | Some db \<Rightarrow> qdb_ok db \<and>
     list_all (\<lambda>r. waiting r \<and> in_vain now r db) (qg_dequeues s))"

lemma deliverable_nonneg: "0 \<le> deliverable k now db"
  by (simp add: deliverable_def)

lemma length_without:
  "distinct (map f xs) \<Longrightarrow> x \<in> set xs \<Longrightarrow> int (length (filter (\<lambda>y. f y \<noteq> f x) xs)) = int (length xs) - 1"
proof (induction xs)
  case (Cons a xs)
  show ?case
  proof (cases "a = x")
    case True
    then have "\<forall>y\<in>set xs. f y \<noteq> f x" using Cons.prems(1) by (metis distinct.simps(2) image_eqI list.simps(9) set_map)
    then have "filter (\<lambda>y. f y \<noteq> f x) xs = xs" by (simp add: filter_id_conv)
    then show ?thesis using True by simp
  next
    case False
    then have "x \<in> set xs" "f a \<noteq> f x" using Cons.prems by auto
    then show ?thesis using Cons by simp
  qed
qed simp

text \<open>What can be dequeued is taken away, nothing else.\<close>

definition fewer :: "int \<Rightarrow> qdb \<Rightarrow> qdb \<Rightarrow> bool" where
  "fewer now db db' \<longleftrightarrow>
     (\<forall>k. \<exists>p. filter (dequeueable k now) (db_messages db') = filter p (filter (dequeueable k now) (db_messages db)))"

lemma fewer_deliverable: "fewer now db db' \<Longrightarrow> deliverable k now db' \<le> deliverable k now db"
  unfolding fewer_def deliverable_def by (metis length_filter_le of_nat_le_iff)

lemma fewer_in_vain:
  assumes "fewer now db db'" and "in_vain now r db"
  shows "in_vain now r db'"
proof -
  obtain p where p: "filter (dequeueable (dr_queue r) now) (db_messages db')
      = filter p (filter (dequeueable (dr_queue r) now) (db_messages db))"
    using assms(1) unfolding fewer_def by blast
  have "m \<in> set (db_messages db)" if "m \<in> set (db_messages db')" "wanted now r m" for m
  proof -
    have "m \<in> set (filter (dequeueable (dr_queue r) now) (db_messages db'))" using that by (simp add: wanted_def)
    then show ?thesis unfolding p by simp
  qed
  then show ?thesis using assms(2) by (auto simp: in_vain_def list_all_iff)
qed

lemma fewer_refl: "fewer now db db"
  unfolding fewer_def by (intro allI exI [where x = "\<lambda>_. True"]) simp

lemma fewer_trans: "fewer now a b \<Longrightarrow> fewer now b c \<Longrightarrow> fewer now a c"
  unfolding fewer_def by (metis filter_filter)

lemma dequeue_deliverable:
  assumes ok: "qdb_ok db"
  shows "\<exists>ms db'. qb_dequeue now r db = (Inr ms, db') \<and> qdb_ok db' \<and> fewer now db db'
    \<and> (if ms = [] then db' = db \<and> in_vain now r db
       else deliverable (dr_queue r) now db' = deliverable (dr_queue r) now db - 1)"
proof (cases "qb_fetch now r db")
  case None
  then show ?thesis using ok fetch_none fewer_refl by (simp add: qb_dequeue_def act_defs)
next
  case (Some m)
  then have m: "m \<in> set (db_messages db)" "dequeueable (dr_queue r) now m" using qb_fetch_in by blast+
  obtain n db' where take: "qb_take (dr_trid r) (mr_rowid m) db = Some (n, db')" using take_total [OF ok] by blast
  have ok': "qdb_ok db'" by (rule take_ok [OF ok m(1) _ take]) (use m(2) in \<open>simp add: dequeueable_def\<close>)
  note left = take_leaves [OF take]
  have less: "fewer now db db'" unfolding fewer_def left by blast
  let ?ms = "filter (dequeueable (dr_queue r) now) (db_messages db)"
  have "distinct (map mr_rowid ?ms)" using qdb_okD(3) [OF ok] by (rule distinct_map_filter_subset)
  moreover have "m \<in> set ?ms" using m by simp
  ultimately have one: "int (length (filter (\<lambda>x. mr_rowid x \<noteq> mr_rowid m) ?ms)) = int (length ?ms) - 1"
    by (rule length_without)
  have "deliverable (dr_queue r) now db' = deliverable (dr_queue r) now db - 1"
    by (simp only: deliverable_def left one)
  moreover have "qb_dequeue now r db = (Inr [to_message m], db')"
    using Some take by (simp add: qb_dequeue_def act_defs sql_run_def)
  ultimately show ?thesis using ok' less by simp
qed

definition shrinks :: "int \<Rightarrow> qgroup \<Rightarrow> qgroup \<Rightarrow> bool" where
  "shrinks now s s' \<longleftrightarrow> (case (qg_base s, qg_base s') of (Some db, Some db') \<Rightarrow> fewer now db db' | _ \<Rightarrow> False)"

lemma shrinks_trans: "shrinks now s s1 \<Longrightarrow> shrinks now s1 s2 \<Longrightarrow> shrinks now s s2"
  by (auto simp: shrinks_def split: option.splits intro: fewer_trans)

lemma none_waits_kept:
  assumes "none_waits now s" and "qg_dequeues s' = qg_dequeues s" and "qg_base s' = Some db'" and "qdb_ok db'"
    and "shrinks now s s'"
  shows "none_waits now s'"
proof -
  obtain db where db: "qg_base s = Some db" "fewer now db db'"
    using assms(3,5) by (auto simp: shrinks_def split: option.splits)
  then show ?thesis using assms fewer_in_vain [OF db(2)] by (auto simp: none_waits_def list_all_iff)
qed

definition left_in :: "int \<Rightarrow> int \<Rightarrow> qgroup \<Rightarrow> int" where
  "left_in now k s = (case qg_base s of None \<Rightarrow> 0 | Some db \<Rightarrow> deliverable k now db)"

lemma shrinks_left: "shrinks now s s' \<Longrightarrow> left_in now k s' \<le> left_in now k s"
  by (auto simp: shrinks_def left_in_def fewer_deliverable split: option.splits)

lemma left_nonneg: "0 \<le> left_in now k s"
  by (simp add: left_in_def deliverable_nonneg split: option.split)

lemma block_waits:
  assumes w: "none_waits now s" and r: "waiting r" and none: "qg_base s = Some db" "in_vain now r db"
  shows "\<exists>s'. dequeue_block e r s = (Inr (), s') \<and> none_waits now s' \<and> shrinks now s s'"
proof -
  note db = none(1)
  define s1 where "s1 = (case sql_available (dr_queue r) db of
               None \<Rightarrow> s
             | Some t \<Rightarrow>
                 let wanted = t - ge_now e
                 in case timer_left (ge_now e) s of
                      None \<Rightarrow> timer_set (ge_now e) wanted s
                    | Some current \<Rightarrow> if wanted < current then timer_set (ge_now e) wanted s else s)"
  have s1: "qg_base s1 = qg_base s" "qg_dequeues s1 = qg_dequeues s"
    by (auto simp: s1_def timer_set_def group_post_def Let_def split: option.splits)
  have "dequeue_block e r s = (Inr (), s1\<lparr>qg_dequeues := qg_dequeues s1 @ [r]\<rparr>)"
    unfolding dequeue_block_def act_bind_def on_base_get [OF db, of "sql_available (dr_queue r)"] s1_def
    by (simp add: act_upd_def Let_def)
  moreover have "none_waits now (s1\<lparr>qg_dequeues := qg_dequeues s1 @ [r]\<rparr>)"
    using w r none(2) db by (simp add: none_waits_def s1)
  moreover have "shrinks now s (s1\<lparr>qg_dequeues := qg_dequeues s1 @ [r]\<rparr>)" by (simp add: shrinks_def s1 db fewer_refl)
  ultimately show ?thesis by blast
qed

lemma request_served:
  assumes w: "none_waits (ge_now e) s" and r: "waiting r"
  shows "\<exists>b s'. dequeue_request_handler e r s = (Inr b, s') \<and> none_waits (ge_now e) s' \<and> shrinks (ge_now e) s s'
    \<and> (b \<longrightarrow> left_in (ge_now e) (dr_queue r) s' = left_in (ge_now e) (dr_queue r) s - 1)"
proof -
  let ?now = "ge_now e"
  obtain db where db: "qg_base s = Some db" "qdb_ok db" using w by (auto simp: none_waits_def split: option.splits)
  obtain ms db' where d: "qb_dequeue ?now r db = (Inr ms, db')" "qdb_ok db'" "fewer ?now db db'"
    "if ms = [] then db' = db \<and> in_vain ?now r db
     else deliverable (dr_queue r) ?now db' = deliverable (dr_queue r) ?now db - 1"
    using dequeue_deliverable [OF db(2), of ?now r] by blast
  let ?s = "s\<lparr>qg_base := Some db'\<rparr>"
  have "on_base (qb_message_id (dr_queue r) (dr_name r)) s = (Inr (dr_queue r), s)"
    using r db(1) by (cases s) (simp add: on_base_def qb_message_id_def act_ret_def waiting_def)
  then have run: "dequeue_request_handler e r s = act_catch (dequeue_handle e r) True s"
    by (simp add: dequeue_request_handler_def act_bind_def act_catch_def)
  have base: "on_base (qb_dequeue ?now r) s = (Inr ms, ?s)" using db(1) d(1) by (simp add: on_base_def)
  show ?thesis
  proof (cases "ms = []")
    case True
    then have ms: "ms = []" "?s = s" "in_vain ?now r db" using d(4) db(1) by simp_all
    obtain s' where s': "dequeue_block e r s = (Inr (), s')" "none_waits ?now s'" "shrinks ?now s s'"
      using block_waits [OF w r db(1) ms(3)] by blast
    have "dequeue_request_handler e r s = (Inr False, s')"
      unfolding run using base ms(1,2) s'(1) r
      by (simp add: act_catch_def dequeue_handle_def act_bind_def act_then_def act_ret_def waiting_def)
    then show ?thesis using s' by blast
  next
    case False
    then have ms: "ms \<noteq> []" and one: "deliverable (dr_queue r) ?now db' = deliverable (dr_queue r) ?now db - 1"
      using d(4) by simp_all
    define s' where "s' = snd (act_leave (act_then (if trid_null (dr_trid r) then act_ret () else group_involved e (dr_trid r))
        (act_ret True)) (group_send e (dr_process r) (Dequeue_reply (dr_corr r) ms)) ?s)"
    have s': "qg_base s' = Some db'" "qg_dequeues s' = qg_dequeues s"
      by (simp_all add: s'_def act_leave_def act_then_def act_bind_def act_ret_def group_involved_def group_send_def
          group_post_def)
    have "dequeue_request_handler e r s = (Inr True, s')"
      unfolding run s'_def using base ms
      by (simp add: act_catch_def dequeue_handle_def act_bind_def Let_def)
        (simp add: act_leave_def act_then_def act_bind_def act_ret_def group_involved_def)
    moreover have sh: "shrinks ?now s s'" using d(3) by (simp add: shrinks_def db(1) s'(1))
    moreover have "none_waits ?now s'" by (rule none_waits_kept [OF w s'(2,1) d(2) sh])
    ultimately show ?thesis using one db(1) s'(1) by (auto simp: left_in_def)
  qed
qed

lemma queue_served:
  "none_waits (ge_now e) s \<Longrightarrow> list_all (\<lambda>r. waiting r \<and> dr_queue r = k) rs \<Longrightarrow> left_in (ge_now e) k s \<le> n \<Longrightarrow>
     \<exists>left s'. serve_queue e n rs s = (Inr left, s') \<and> none_waits (ge_now e) s' \<and> shrinks (ge_now e) s s'
       \<and> list_all (\<lambda>r. waiting r \<and> dr_queue r = k) left \<and> (left \<noteq> [] \<longrightarrow> left_in (ge_now e) k s' = 0)"
proof (induction rs arbitrary: n s)
  case Nil
  then show ?case by (auto simp: act_ret_def shrinks_def none_waits_def fewer_refl split: option.splits)
next
  case (Cons r rs)
  let ?now = "ge_now e"
  have r: "waiting r" "dr_queue r = k" using Cons.prems(2) by simp_all
  show ?case
  proof (cases "n < 1")
    case True
    then have "left_in ?now k s = 0" using Cons.prems(3) left_nonneg [of ?now k s] by linarith
    moreover obtain left s' where s': "serve_queue e n rs s = (Inr left, s')" "none_waits ?now s'" "shrinks ?now s s'"
      "list_all (\<lambda>r. waiting r \<and> dr_queue r = k) left"
      using Cons.IH [OF Cons.prems(1) _ Cons.prems(3)] Cons.prems(2) by auto
    ultimately have "left_in ?now k s' = 0"
      using shrinks_left [OF s'(3), of k] left_nonneg [of ?now k s'] by linarith
    moreover have "serve_queue e n (r # rs) s = (Inr (r # left), s')"
      using True s'(1) by (simp add: act_bind_def act_ret_def)
    ultimately show ?thesis using s' r by auto
  next
    case False
    obtain b s1 where s1: "dequeue_request_handler e r s = (Inr b, s1)" "none_waits ?now s1" "shrinks ?now s s1"
      "b \<longrightarrow> left_in ?now k s1 = left_in ?now k s - 1"
      using request_served [OF Cons.prems(1) r(1)] r(2) by auto
    have few: "left_in ?now k s1 \<le> (if b then n - 1 else n)"
      using s1(4) shrinks_left [OF s1(3), of k] Cons.prems(3) by (auto split: if_splits)
    obtain left s' where s': "serve_queue e (if b then n - 1 else n) rs s1 = (Inr left, s')" "none_waits ?now s'"
      "shrinks ?now s1 s'" "list_all (\<lambda>r. waiting r \<and> dr_queue r = k) left"
      "left \<noteq> [] \<longrightarrow> left_in ?now k s' = 0"
      using Cons.IH [OF s1(2) _ few] Cons.prems(2) by auto
    have "serve_queue e n (r # rs) s = (Inr left, s')"
      using False s1(1) s'(1) by (simp add: act_bind_def)
    then show ?thesis using s' shrinks_trans [OF s1(3) s'(3)] by blast
  qed
qed

lemma queues_served:
  assumes "visits e"
  shows "none_waits (ge_now e) s \<Longrightarrow> list_all waiting rs \<Longrightarrow>
     list_all (\<lambda>a. left_in (ge_now e) (qa_queue a) s \<le> qa_count a) avs \<Longrightarrow>
     \<exists>s'. serve_queues e avs rs s = (Inr (), s') \<and> none_waits (ge_now e) s'"
proof (induction avs arbitrary: rs s)
  case Nil
  then show ?case by (simp add: act_ret_def)
next
  case (Cons a avs)
  let ?now = "ge_now e" and ?k = "qa_queue a"
  let ?mine = "ge_order e (filter (\<lambda>r. dr_queue r = ?k) rs)"
  have "set ?mine \<subseteq> set (filter (\<lambda>r. dr_queue r = ?k) rs)" using assms unfolding visits_def by blast
  then have mine: "list_all (\<lambda>r. waiting r \<and> dr_queue r = ?k) ?mine"
    using Cons.prems(2) by (auto simp: list_all_iff)
  obtain left s1 where s1: "serve_queue e (qa_count a) ?mine s = (Inr left, s1)" "none_waits ?now s1" "shrinks ?now s s1"
    "list_all (\<lambda>r. waiting r \<and> dr_queue r = ?k) left" "left \<noteq> [] \<longrightarrow> left_in ?now ?k s1 = 0"
    using queue_served [OF Cons.prems(1) mine, of "qa_count a"] Cons.prems(3) unfolding list.pred_inject by blast
  let ?s1 = "s1\<lparr>qg_dequeues := qg_dequeues s1 @ left\<rparr>"
  have "list_all (\<lambda>r. waiting r \<and> left_in ?now (dr_queue r) s1 = 0) left"
    using s1(4,5) by (cases "left = []") (auto simp: list_all_iff)
  then have w: "none_waits ?now ?s1"
    using s1(2) none_in_vain by (auto simp: none_waits_def left_in_def list_all_iff split: option.splits)
  have same: "left_in ?now k ?s1 = left_in ?now k s1" for k by (simp add: left_in_def)
  have "list_all (\<lambda>a. left_in ?now (qa_queue a) ?s1 \<le> qa_count a) avs"
    using Cons.prems(3) shrinks_left [OF s1(3)] unfolding same list_all_iff by (auto intro: order_trans)
  moreover have "list_all waiting (filter (\<lambda>r. dr_queue r \<noteq> ?k) rs)"
    using Cons.prems(2) by (auto simp: list_all_iff)
  ultimately obtain s' where "serve_queues e avs (filter (\<lambda>r. dr_queue r \<noteq> ?k) rs) ?s1 = (Inr (), s')" "none_waits ?now s'"
    using Cons.IH [OF w] by blast
  then show ?case using s1(1) by (simp add: act_bind_def act_then_def act_upd_def)
qed

text \<open>The count of a queue is at least the number of its messages that can be dequeued.\<close>

lemma count_covers:
  assumes ok: "qdb_ok db" and q: "q \<in> set (db_queues db)"
  shows "deliverable (qr_id q) now db \<le> qr_count q"
proof -
  have "length (filter (dequeueable (qr_id q) now) ms)
      \<le> length (filter (\<lambda>m. mr_queue m = qr_id q \<and> mr_state m \<noteq> Added) ms)" for ms
    by (induction ms) (auto simp: dequeueable_def)
  then show ?thesis using exact_counts(1) [OF ok q] by (simp add: deliverable_def)
qed

lemma fold_min_le: "fold min ts (t::int) \<le> t \<and> (\<forall>x\<in>set ts. fold min ts t \<le> x)"
proof (induction ts arbitrary: t)
  case (Cons a ts)
  have "fold min ts (min a t) \<le> min a t" "\<forall>x\<in>set ts. fold min ts (min a t) \<le> x"
    using Cons.IH [of "min a t"] by blast+
  then show ?case by auto
qed simp

lemma earliest_le:
  assumes "m \<in> set (db_messages db)" and "dequeueable k now m"
  shows "\<exists>t. sql_available k db = Some t \<and> t < now"
proof -
  let ?ts = "map mr_available (filter (\<lambda>m. mr_queue m = k \<and> mr_state m = Enqueued) (db_messages db))"
  have m: "mr_available m \<in> set ?ts" "mr_available m < now" using assms by (auto simp: dequeueable_def)
  then obtain t ts where ts: "?ts = t # ts" by (cases ?ts) auto
  then have "fold min ts t \<le> mr_available m" using m(1) fold_min_le [of ts t] by auto
  then show ?thesis using m(2) ts by (simp add: sql_available_def)
qed

lemma not_passed:
  assumes ok: "qdb_ok db" and k: "k \<in> set ks"
    and none: "k \<notin> set (map qa_queue (filter (\<lambda>a. qa_when a \<le> now) (qb_available ks db)))"
  shows "deliverable k now db = 0"
proof (rule ccontr)
  assume "deliverable k now db \<noteq> 0"
  then obtain m where m: "m \<in> set (db_messages db)" "dequeueable k now m"
    by (auto simp: deliverable_def filter_empty_conv)
  then obtain q where q: "q \<in> set (db_queues db)" "qr_id q = k"
    using find_queue_exists [OF ok m(1)] by (auto simp: dequeueable_def)
  have "deliverable k now db \<le> qr_count q" using count_covers [OF ok q(1), of now] q(2) by simp
  then have "0 < qr_count q"
    using \<open>deliverable k now db \<noteq> 0\<close> deliverable_nonneg [of k now db] by linarith
  then have "(k, qr_count q) \<in> set (filter (\<lambda>(k, n). k \<in> set ks) (sql_available_queues db))"
    using q k by (auto simp: sql_available_queues_def)
  moreover obtain t where "sql_available k db = Some t" "t < now" using earliest_le [OF m] by blast
  ultimately have "\<lparr>qa_queue = k, qa_count = qr_count q, qa_when = t\<rparr> \<in> set (filter (\<lambda>a. qa_when a \<le> now) (qb_available ks db))"
    by (force simp: qb_available_def)
  then show False using none by force
qed

lemma available_counts:
  assumes ok: "qdb_ok db"
  shows "list_all (\<lambda>a. deliverable (qa_queue a) now db \<le> qa_count a) (qb_available ks db)"
  using count_covers [OF ok] by (auto simp: list_all_iff qb_available_def sql_available_queues_def)

lemma bind_get: "act_bind (act_get f) g s = g (f s) s"
  by (simp add: act_bind_def act_get_def)

lemma bind_on_get: "qg_base s = Some db \<Longrightarrow> act_bind (on_base (act_get f)) g s = g (f db) s"
  by (simp add: act_bind_def on_base_get)

lemma dequeues_complete:
  assumes base: "qg_base s = Some db" "qdb_ok db" and e: "visits e"
    and waits: "list_all waiting (qg_dequeues s)"
  shows "\<exists>s'. pending_dequeues e s = (Inr (), s') \<and> none_waits (ge_now e) s'"
proof (cases "qg_dequeues s = []")
  case True
  then show ?thesis using base by (simp add: pending_dequeues_def act_bind_def act_get_def act_ret_def none_waits_def)
next
  case False
  let ?now = "ge_now e" and ?ks = "map dr_queue (qg_dequeues s)"
  let ?available = "qb_available ?ks db"
  let ?passed = "filter (\<lambda>a. qa_when a \<le> ?now) ?available"
  let ?requests = "filter (\<lambda>r. dr_queue r \<in> set (map qa_queue ?passed)) (qg_dequeues s)"
  let ?s = "s\<lparr>qg_dequeues := filter (\<lambda>r. dr_queue r \<notin> set (map qa_queue ?passed)) (qg_dequeues s)\<rparr>"
  have "none_waits ?now ?s"
    using base waits not_passed [OF base(2), of _ ?ks ?now] none_in_vain by (auto simp: none_waits_def list_all_iff)
  moreover have "list_all waiting ?requests" using waits by (auto simp: list_all_iff)
  moreover have "list_all (\<lambda>a. left_in ?now (qa_queue a) ?s \<le> qa_count a) ?passed"
    using available_counts [OF base(2), of ?now ?ks] base(1) by (auto simp: list_all_iff left_in_def)
  ultimately obtain s' where s': "serve_queues e ?passed ?requests ?s = (Inr (), s')" "none_waits ?now s'"
    using queues_served [OF e] by blast
  have run: "pending_dequeues e s = (Inr (), timer_future e (filter (\<lambda>a. \<not> qa_when a \<le> ?now) ?available) s')"
    using False s'(1) on_base_get [OF base(1), of "qb_available ?ks"]
    by (simp add: pending_dequeues_def bind_get bind_on_get [OF base(1)] Let_def)
      (simp add: act_bind_def act_state_def pending_extract_def act_then_def act_upd_def)
  have timer: "qg_base (timer_future e avs s') = qg_base s'" "qg_dequeues (timer_future e avs s') = qg_dequeues s'"
    for avs
    by (simp_all add: timer_future_def timer_set_def timer_unset_def group_post_def split: list.split)
  have "none_waits ?now (timer_future e avs s')" for avs
    using s'(2) unfolding none_waits_def timer .
  then show ?thesis unfolding run by blast
qed

text \<open>
  C18. No request waits for a message it could have: after a persist of the group with replies to
  send, so after every commit, rollback or enqueue outside of a transaction, whatever order the
  requests are looked at in, no message that is available is one that a pending request asks for
  (a message of its queue, with its id or its properties when it has a selector). The requests that
  are pending before know their queue and block, as all that are put there do.
\<close>
theorem no_available_message_waits:
  assumes "qg_base s = Some db" and "qdb_ok db" and "visits e" and "qg_replies s \<noteq> []"
    and "list_all waiting (qg_dequeues s)"
  shows "\<exists>s' db'. group_persist e s = (Inr (), s') \<and> qg_base s' = Some db' \<and>
    list_all (\<lambda>r. list_all (\<lambda>m. \<not> wanted (ge_now e) r m) (db_messages db')) (qg_dequeues s')"
proof -
  let ?s = "pending_send e (qg_replies s) ((base_persist s)\<lparr>qg_replies := []\<rparr>)"
  have send: "qg_base (pending_send e ms s1) = qg_base s1" "qg_dequeues (pending_send e ms s1) = qg_dequeues s1" for ms s1
    by (induction ms arbitrary: s1) (auto simp: pending_send_def group_send_def group_post_def)
  have "qg_base ?s = Some db" "qg_dequeues ?s = qg_dequeues s"
    using assms(1) by (simp_all add: send base_persist_def)
  then obtain s' where s': "pending_dequeues e ?s = (Inr (), s')" "none_waits (ge_now e) s'"
    using dequeues_complete [of ?s db e] assms(2,3,5) by auto
  have "group_persist e s = (Inr (), s')"
    using assms(4) s'(1) by (simp add: group_persist_def act_defs)
  then show ?thesis using s'(2) by (auto simp: none_waits_def in_vain_def list_all_iff split: option.splits)
qed

text \<open>Two requests wait when an enqueue outside of any transaction, answered as soon as the group is idle,
  makes a message available: the first one selects other properties and waits on, the second gets
  the message.\<close>

definition waiting_demo :: "(int \<times> group_message) list" where
  "waiting_demo = [(1, configure [(''q'', 1, 0), (''r'', 1, 0)]),
     (2, Dequeue_request ((get_request 1 7)\<lparr>dr_properties := ''x''\<rparr>)), (3, Dequeue_request (get_request 2 8)),
     (4, Enqueue_request (put_request 41 0 0))]"

theorem no_available_message_waits_witness:
  "\<exists>s' db'. group_persist (queue_env 5) (queue_demo waiting_demo) = (Inr (), s') \<and> qg_base s' = Some db'
    \<and> map dr_corr (qg_dequeues s') = [1] \<and> list_all (\<lambda>r. list_all (\<lambda>m. \<not> wanted 5 r m) (db_messages db')) (qg_dequeues s')"
proof -
  let ?s = "queue_demo waiting_demo"
  let ?db = "the (qg_base ?s)"
  have b: "qg_base ?s \<noteq> None" "length (qg_replies ?s) = 1" "list_all waiting (qg_dequeues ?s)"
    "map dr_corr (qg_dequeues (snd (group_persist (queue_env 5) ?s))) = [1]"
    unfolding queue_demo_def waiting_demo_def queue_demo_defs waiting_def by code_simp+
  then have base: "qg_base ?s = Some ?db" and ok: "qdb_ok ?db" using demo_base by (auto simp: qdb_paired_def)
  have "qg_replies ?s \<noteq> []" using b(2) by auto
  from no_available_message_waits [OF base ok queue_env_ok(1) this b(3), of 5]
  obtain s' db' where r: "group_persist (queue_env 5) ?s = (Inr (), s')" "qg_base s' = Some db'"
    "list_all (\<lambda>r. list_all (\<lambda>m. \<not> wanted (ge_now (queue_env 5)) r m) (db_messages db')) (qg_dequeues s')"
    by blast
  have "ge_now (queue_env 5) = 5" by (simp add: queue_env_def)
  then show ?thesis using r b(4) by (metis snd_conv)
qed

section \<open>Requests without an answer\<close>

text \<open>An enqueue that the tables refuse: an unknown queue, by id or by name, or an id in use.\<close>

definition refused :: "qdb \<Rightarrow> enqueue_request \<Rightarrow> bool" where
  "refused db r \<longleftrightarrow>
     (if er_queue r \<noteq> 0 then er_queue r \<notin> set (map qr_id (db_queues db))
      else er_name r \<notin> set (map qr_name (db_queues db)))
     \<or> (case em_id (er_message r) of None \<Rightarrow> False | Some i \<Rightarrow> i \<in> set (map mr_id (db_messages db)))"

lemma qb_id_absent: "er_name r \<notin> set (map qr_name (db_queues db)) \<Longrightarrow> \<exists>x. qb_id (er_name r) db = (Inl x, db)"
  by (auto simp: qb_id_def act_defs sql_id_def find_None_iff image_iff split: option.split)

text \<open>
  C20. An enqueue that fails - the queue is unknown, or a message with its id is in the queue-base -
  changes nothing and is not answered: neither the caller nor the transaction manager gets a
  message, now or when the group persists.
\<close>
theorem failed_enqueue_unanswered:
  assumes "qg_base s = Some db" and "refused db r"
  shows "enqueue_request_handler e r s = (Inr (), s)"
proof -
  have same: "s\<lparr>qg_base := Some db\<rparr> = s" using assms(1) by (cases s) simp
  have inserted: "\<exists>x. qb_enqueue now u (r\<lparr>er_queue := k\<rparr>) db = (Inl x, db)"
    if "k \<notin> set (map qr_id (db_queues db)) \<or> (\<exists>i. em_id (er_message r) = Some i \<and> i \<in> set (map mr_id (db_messages db)))"
    for now u k
    using that
    by (auto simp: qb_enqueue_def Let_def act_defs sql_run_def sql_enqueue_def enqueue_row_def split: option.split)
  have dup: "\<exists>i. em_id (er_message r) = Some i \<and> i \<in> set (map mr_id (db_messages db))"
    if "case em_id (er_message r) of None \<Rightarrow> False | Some i \<Rightarrow> i \<in> set (map mr_id (db_messages db))"
    using that by (cases "em_id (er_message r)") auto
  consider x where "qb_message_id (er_queue r) (er_name r) db = (Inl x, db)"
    | k where "qb_message_id (er_queue r) (er_name r) db = (Inr k, db)"
      "k \<notin> set (map qr_id (db_queues db)) \<or> (\<exists>i. em_id (er_message r) = Some i \<and> i \<in> set (map mr_id (db_messages db)))"
  proof (cases "er_queue r = 0")
    case True
    show ?thesis
    proof (cases "qb_id (er_name r) db")
      case (Pair x db')
      have "db' = db" using Pair by (auto simp: qb_id_def act_defs split: option.splits)
      then show ?thesis
        using that Pair True assms(2) qb_id_absent [of r db] dup
        by (cases x) (auto simp: refused_def qb_message_id_def)
    qed
  next
    case False
    then have "qb_message_id (er_queue r) (er_name r) db = (Inr (er_queue r), db)"
      by (simp add: qb_message_id_def act_ret_def)
    then show ?thesis using that(2) False assms(2) dup unfolding refused_def by (metis (full_types))
  qed
  then show ?thesis
  proof cases
    case 1
    then show ?thesis
      by (simp add: enqueue_request_handler_def act_catch_def act_bind_def on_base_def assms(1) same)
  next
    case (2 k)
    then obtain x where "qb_enqueue (ge_now e) (ge_uuid e) (r\<lparr>er_queue := k\<rparr>) db = (Inl x, db)"
      using inserted by blast
    then show ?thesis
      by (simp add: enqueue_request_handler_def act_catch_def act_bind_def on_base_def assms(1) same 2(1))
  qed
qed

text \<open>The id of the message is in use.\<close>

theorem failed_enqueue_unanswered_witness:
  "enqueue_request_handler (queue_env 9) (put_request 42 9 0) (queue_demo demo_messages)
     = (Inr (), queue_demo demo_messages)"
proof -
  have "qg_base (queue_demo demo_messages) \<noteq> None"
    "refused (the (qg_base (queue_demo demo_messages))) (put_request 42 9 0)"
    unfolding queue_demo_def demo_messages_def queue_demo_defs refused_def by code_simp+
  then show ?thesis using failed_enqueue_unanswered [of "queue_demo demo_messages"] by auto
qed

section \<open>Scenarios\<close>

text \<open>Two requests wait for a message that is available at time 100, and the timer is set. When
  another message serves the first of them, the second is put back, but the timer is unset: when
  the message is available nobody delivers it.\<close>

lemma blocked_dequeue_loses_timer:
  defines "s \<equiv> queue_demo [(1, configure [(''q'', 1, 0)]), (2, Enqueue_request (put_request 41 0 100)), (3, Inbound_idle),
     (4, Dequeue_request (get_request 1 7)), (5, Dequeue_request (get_request 2 8))]"
  defines "s' \<equiv> fold group_step [(queue_env 6, Enqueue_request (put_request 42 0 0)), (queue_env 7, Inbound_idle)] s"
  shows "qg_timer s = Some 100" "map dr_corr (qg_dequeues s) = [1, 2]"
    "map dr_corr (qg_dequeues s') = [2]" "qg_timer s' = None" "filter (\<lambda>x. snd x = Alarm_signal) (qg_outbox s') = []"
    "map mr_id (filter (dequeueable 2 101) (db_messages (the (qg_base s')))) = [41]"
  unfolding s'_def s_def queue_demo_def queue_demo_defs by code_simp+

text \<open>A queue that was removed with a message on it, and is configured again, is not advertised.\<close>

lemma readded_queue_not_advertised:
  "snd (last (qg_outbox (queue_demo [(1, configure [(''q'', 1, 0)]), (2, Enqueue_request (put_request 41 0 0)),
     (3, Inbound_idle), (4, configure []), (5, configure [(''q'', 1, 0)])]))) = Group_update_reply 1 ''g'' []"
  "map qr_name (db_queues (the (qg_base (queue_demo [(1, configure [(''q'', 1, 0)]), (2, Enqueue_request (put_request 41 0 0)),
     (3, Inbound_idle), (4, configure []), (5, configure [(''q'', 1, 0)])])))) = [''q.error'', ''q'']"
  unfolding queue_demo_def queue_demo_defs by code_simp+

text \<open>A queue counts as empty when its messages are not committed yet: to remove it violates the
  foreign key of the messages, and the group ends.\<close>

lemma uncommitted_message_ends_group:
  "qg_ended (queue_demo [(1, configure [(''q'', 1, 0)]), (2, Enqueue_request (put_request 41 5 0)), (3, configure [])])"
  unfolding queue_demo_def queue_demo_defs by code_simp

end
