(* ===== verification/CtxState.thy ===== *)
theory CtxState
  imports SvcState TxState
begin

text \<open>
  The transaction context of a process: \<open>common/transaction/transaction.{h,cpp}\<close>, the members of
  \<open>common/transaction/context.h\<close> and the calls to a resource manager of
  \<open>common/transaction/resource.cpp\<close>. What resource managers and the transaction manager answer
  is a function of everything that was sent before, so they may have any state. The log of
  these calls is part of the context.
\<close>

section \<open>Transactions\<close>

text \<open>The states of a transaction with the values of \<open>tx.h\<close>. \<open>Context::update\<close> casts the state of a
  message to this type, so a value outside of the enumeration can occur.\<close>

datatype trans_state = Trans_active | Trans_timeout | Trans_rollback | Trans_unnamed

fun trans_state_num :: "trans_state \<Rightarrow> nat" where
  "trans_state_num Trans_active = 0"
| "trans_state_num Trans_timeout = 1"
| "trans_state_num Trans_rollback = 2"
| "trans_state_num Trans_unnamed = 3"

text \<open>\<open>message::service::Transaction::State\<close>.\<close>

datatype reply_state = Reply_active | Reply_rollback | Reply_timeout | Reply_error

text \<open>The conversion of one to the other: in \<open>update\<close> by the value, in \<open>finalize\<close> by name.\<close>

fun cast_state :: "reply_state \<Rightarrow> trans_state" where
  "cast_state Reply_active = Trans_active"
| "cast_state Reply_rollback = Trans_timeout"
| "cast_state Reply_timeout = Trans_rollback"
| "cast_state Reply_error = Trans_unnamed"

fun transform_state :: "trans_state \<Rightarrow> reply_state" where
  "transform_state Trans_active = Reply_active"
| "transform_state Trans_rollback = Reply_rollback"
| "transform_state Trans_timeout = Reply_timeout"
| "transform_state Trans_unnamed = Reply_error"

record ctx_transaction =
  ct_trid :: trid
  ct_deadline :: "int option"
  ct_state :: trans_state
  ct_involved :: "int list"
  ct_pending :: "nat list"
  ct_dynamic :: "int list"
  ct_external :: bool
  ct_suspended :: bool

definition null_trid :: trid where
  "null_trid = \<lparr>gtrid = [], bqual = [], tformat = -1, towner = null_handle\<rparr>"

definition new_transaction :: "trid \<Rightarrow> ctx_transaction" where
  "new_transaction t = \<lparr>ct_trid = t, ct_deadline = None, ct_state = Trans_active, ct_involved = [], ct_pending = [],
     ct_dynamic = [], ct_external = False, ct_suspended = False\<rparr>"

text \<open>\<open>algorithm::append_unique_value\<close>: whether the value was appended.\<close>

definition append_unique_value :: "'a \<Rightarrow> 'a list \<Rightarrow> bool \<times> 'a list" where
  "append_unique_value x xs = (if x \<in> set xs then (False, xs) else (True, xs @ [x]))"

definition ct_involve :: "int list \<Rightarrow> ctx_transaction \<Rightarrow> ctx_transaction" where
  "ct_involve rms t = t\<lparr>ct_involved := fold (\<lambda>r xs. snd (append_unique_value r xs)) rms (ct_involved t)\<rparr>"

definition ct_associate_dynamic :: "int \<Rightarrow> ctx_transaction \<Rightarrow> bool \<times> ctx_transaction" where
  "ct_associate_dynamic rm t =
     (case append_unique_value rm (ct_dynamic t) of (fresh, rms) \<Rightarrow> (fresh, t\<lparr>ct_dynamic := rms\<rparr>))"

definition ct_disassociate_dynamic :: "int \<Rightarrow> ctx_transaction \<Rightarrow> bool \<times> ctx_transaction" where
  "ct_disassociate_dynamic rm t =
     (if rm \<in> set (ct_dynamic t) then (True, t\<lparr>ct_dynamic := remove1 rm (ct_dynamic t)\<rparr>) else (False, t))"

definition ct_associate :: "nat \<Rightarrow> ctx_transaction \<Rightarrow> ctx_transaction" where
  "ct_associate corr t = t\<lparr>ct_external := True, ct_pending := ct_pending t @ [corr]\<rparr>"

definition ct_replied :: "nat \<Rightarrow> ctx_transaction \<Rightarrow> ctx_transaction" where
  "ct_replied corr t = t\<lparr>ct_pending := filter (\<lambda>c. c \<noteq> corr) (ct_pending t)\<rparr>"

section \<open>Resource managers\<close>

record xa_resource =
  rs_id :: int
  rs_key :: string
  rs_dynamic :: bool
  rs_openinfo :: string
  rs_closeinfo :: string

datatype xa_op = Op_start | Op_end | Op_commit | Op_rollback

datatype xa_flag = Flag_join | Flag_resume | Flag_suspend | Flag_success | Flag_one_phase

text \<open>The messages of a process to resource managers and the transaction manager, a call of a
  resource manager with its answer.\<close>

datatype ctx_event =
    Xa_called int xa_op trid "xa_flag set" xa
  | Xa_opened int string xa
  | Xa_closed int string xa
  | Tm_involved trid "int list"
  | Tm_commit trid "int list"
  | Tm_rollback trid "int list"
  | Tm_alias "string list"
  | Second_reply trid          \<comment> \<open>the reply to the commit is waited for\<close>
  | Discarded nat              \<comment> \<open>the inbound device discards the correlation\<close>
  | Discarded_reply trid
  | Error_event

text \<open>The world of an operation. \<open>None\<close> stands for a manager that cannot be reached.\<close>

record ctx_env =
  ce_self :: handle
  ce_now :: int
  ce_gtrid :: bytes
  ce_bqual :: bytes
  ce_xa :: "ctx_event list \<Rightarrow> int \<Rightarrow> xa_op \<Rightarrow> trid \<Rightarrow> xa_flag set \<Rightarrow> xa"
  ce_open :: "ctx_event list \<Rightarrow> int \<Rightarrow> xa"
  ce_close :: "ctx_event list \<Rightarrow> int \<Rightarrow> xa"
  ce_involved :: "ctx_event list \<Rightarrow> trid \<Rightarrow> int list \<Rightarrow> int list option"
  ce_commit :: "ctx_event list \<Rightarrow> trid \<Rightarrow> int list \<Rightarrow> (reply_stage \<times> tx) option"
  ce_second :: "ctx_event list \<Rightarrow> trid \<Rightarrow> tx"
  ce_rollback :: "ctx_event list \<Rightarrow> trid \<Rightarrow> int list \<Rightarrow> tx option"
  ce_alias :: "ctx_event list \<Rightarrow> string list \<Rightarrow> conf_resource list option"

section \<open>The context\<close>

datatype tx_control = Unchained | Chained | Stacked

datatype commit_return = Return_completed | Return_logged

record ctx =
  cx_transactions :: "ctx_transaction list"
  cx_empty :: ctx_transaction
  cx_control :: tx_control
  cx_commit_return :: commit_return
  cx_all :: "xa_resource list"
  cx_dynamic :: "xa_resource list"
  cx_fixed :: "xa_resource list"
  cx_timeout :: int
  cx_caller :: trid
  cx_log :: "ctx_event list"
  cx_undefined :: bool         \<comment> \<open>\<open>pop_back\<close> of an empty vector\<close>

definition initial_ctx :: ctx where
  "initial_ctx = \<lparr>cx_transactions = [], cx_empty = new_transaction null_trid, cx_control = Unchained,
     cx_commit_return = Return_completed, cx_all = [], cx_dynamic = [], cx_fixed = [], cx_timeout = 0,
     cx_caller = null_trid, cx_log = [], cx_undefined = False\<rparr>"

definition cx_event :: "ctx_event \<Rightarrow> ctx \<Rightarrow> ctx" where
  "cx_event v s = s\<lparr>cx_log := cx_log s @ [v]\<rparr>"

text \<open>\<open>Context::current\<close>: the last transaction, the empty one when there is none or it is suspended.\<close>

definition in_transaction_mode :: "ctx \<Rightarrow> bool" where
  "in_transaction_mode s \<longleftrightarrow> cx_transactions s \<noteq> [] \<and> \<not> ct_suspended (last (cx_transactions s))"

definition cx_current :: "ctx \<Rightarrow> ctx_transaction" where
  "cx_current s = (if in_transaction_mode s then last (cx_transactions s) else cx_empty s)"

definition cx_last_set :: "ctx_transaction \<Rightarrow> ctx \<Rightarrow> ctx" where
  "cx_last_set t s = s\<lparr>cx_transactions := butlast (cx_transactions s) @ [t]\<rparr>"

definition cx_current_set :: "ctx_transaction \<Rightarrow> ctx \<Rightarrow> ctx" where
  "cx_current_set t s = (if in_transaction_mode s then cx_last_set t s else s\<lparr>cx_empty := t\<rparr>)"

definition cx_push :: "ctx_transaction \<Rightarrow> ctx \<Rightarrow> ctx" where
  "cx_push t s = s\<lparr>cx_transactions := cx_transactions s @ [t]\<rparr>"

definition cx_associated :: "nat \<Rightarrow> ctx \<Rightarrow> bool" where
  "cx_associated corr s \<longleftrightarrow>
     list_ex (\<lambda>t. ct_state t = Trans_active \<and> corr \<in> set (ct_pending t)) (cx_transactions s)"

text \<open>\<open>Context::pending\<close>: a transaction that this process owns.\<close>

definition cx_pending :: "handle \<Rightarrow> ctx \<Rightarrow> bool" where
  "cx_pending self s \<longleftrightarrow> list_ex (\<lambda>t. \<not> trid_null (ct_trid t) \<and> towner (ct_trid t) = self) (cx_transactions s)"

definition cx_resources :: "ctx \<Rightarrow> int list" where
  "cx_resources s = map rs_id (cx_all s)"

text \<open>\<open>Transaction::local\<close>: owned by this process and not shared with another.\<close>

definition ct_local :: "handle \<Rightarrow> ctx_transaction \<Rightarrow> bool" where
  "ct_local self t \<longleftrightarrow> hpid (towner (ct_trid t)) = hpid self \<and> \<not> ct_external t"

section \<open>Calls of a resource manager\<close>

definition xa_entry :: "ctx_env \<Rightarrow> xa_op \<Rightarrow> xa_resource \<Rightarrow> trid \<Rightarrow> xa_flag set \<Rightarrow> (ctx, xa) act" where
  "xa_entry e op r t flags =
     act_state (\<lambda>s. let code = ce_xa e (cx_log s) (rs_id r) op t flags
                    in (code, cx_event (Xa_called (rs_id r) op t flags code) s))"

definition rs_open :: "ctx_env \<Rightarrow> xa_resource \<Rightarrow> (ctx, xa) act" where
  "rs_open e r =
     act_state (\<lambda>s. let code = ce_open e (cx_log s) (rs_id r);
                        s1 = cx_event (Xa_opened (rs_id r) (rs_openinfo r) code) s
                    in (code, if code \<noteq> Xa_ok then cx_event Error_event s1 else s1))"

definition rs_close :: "ctx_env \<Rightarrow> xa_resource \<Rightarrow> (ctx, xa) act" where
  "rs_close e r =
     act_state (\<lambda>s. let code = ce_close e (cx_log s) (rs_id r)
                    in (code, cx_event (Xa_closed (rs_id r) (rs_closeinfo r) code) s))"

text \<open>A call that answers \<open>XAER_RMFAIL\<close> is repeated once when the resource can be reopened.\<close>

definition reopen_guard :: "ctx_env \<Rightarrow> xa_resource \<Rightarrow> (ctx, xa) act \<Rightarrow> (ctx, xa) act" where
  "reopen_guard e r f =
     act_bind f (\<lambda>code.
       if code \<noteq> Xa_resource_fail then act_ret code
       else act_then (rs_close e r) (act_bind (rs_open e r) (\<lambda>reopened.
              if reopened \<noteq> Xa_ok then act_ret code else f)))"

definition rs_start :: "ctx_env \<Rightarrow> xa_resource \<Rightarrow> trid \<Rightarrow> xa_flag set \<Rightarrow> (ctx, xa) act" where
  "rs_start e r t flags =
     act_bind (reopen_guard e r (xa_entry e Op_start r t flags)) (\<lambda>code.
       if code = Xa_duplicate_xid then xa_entry e Op_start r t (insert Flag_join flags) else act_ret code)"

definition rs_end :: "ctx_env \<Rightarrow> xa_resource \<Rightarrow> trid \<Rightarrow> xa_flag set \<Rightarrow> (ctx, xa) act" where
  "rs_end e r t flags = reopen_guard e r (xa_entry e Op_end r t flags)"

definition rs_commit :: "ctx_env \<Rightarrow> xa_resource \<Rightarrow> trid \<Rightarrow> xa_flag set \<Rightarrow> (ctx, xa) act" where
  "rs_commit e r t flags = reopen_guard e r (xa_entry e Op_commit r t flags)"

definition rs_rollback :: "ctx_env \<Rightarrow> xa_resource \<Rightarrow> trid \<Rightarrow> xa_flag set \<Rightarrow> (ctx, xa) act" where
  "rs_rollback e r t flags = reopen_guard e r (xa_entry e Op_rollback r t flags)"

end
