(* ===== verification/CtxHandle.thy ===== *)
theory CtxHandle
  imports CtxState
begin

text \<open>
  The operations of the transaction context, \<open>common/transaction/context.cpp\<close>: the TX interface, the
  registration of dynamic resources, and what a server does around a service
  (\<open>common/server/handle/policy.cpp\<close>); and the C functions of \<open>xatmi/source/tx.cpp\<close> and \<open>xa.cpp\<close>.
  Where \<open>std::partition\<close> leaves an order open, the order of the range is kept.
\<close>

section \<open>Resources of a transaction\<close>

text \<open>\<open>local::resource::involved\<close>: which of the resources the transaction manager knew already.\<close>

definition tm_involved :: "ctx_env \<Rightarrow> trid \<Rightarrow> int list \<Rightarrow> (ctx, int list) act" where
  "tm_involved e t rms =
     (if rms = [] then act_ret rms
      else act_bind (act_state (\<lambda>s. (ce_involved e (cx_log s) t rms, cx_event (Tm_involved t rms) s))) (\<lambda>reply.
             case reply of None \<Rightarrow> act_raise Comm_unavailable | Some known \<Rightarrow> act_ret known))"

definition join_flag :: "xa_flag set \<Rightarrow> int list \<Rightarrow> int \<Rightarrow> xa_flag set" where
  "join_flag flags known rm =
     (if Flag_resume \<notin> flags then (if rm \<notin> set known then flags else insert Flag_join flags) else flags)"

text \<open>\<open>check_results\<close>: when a resource did not start, the others are ended.\<close>

definition check_results :: "ctx_env \<Rightarrow> trid \<Rightarrow> (xa_resource \<times> xa) list \<Rightarrow> (ctx, unit) act" where
  "check_results e t results =
     (case filter (\<lambda>x. snd x \<noteq> Xa_ok) results of
        [] \<Rightarrow> act_ret ()
      | failed # _ \<Rightarrow>
          act_then (act_each (\<lambda>x. rs_end e (fst x) t {}) (filter (\<lambda>x. snd x = Xa_ok) results))
            (act_raise (Xa_raised (snd failed))))"

definition resources_start :: "ctx_env \<Rightarrow> ctx_transaction \<Rightarrow> xa_flag set \<Rightarrow> (ctx, ctx_transaction) act" where
  "resources_start e t flags =
     (if trid_null (ct_trid t) then act_ret t
      else act_bind (act_get cx_fixed) (\<lambda>fixed.
           act_bind (if ct_local (ce_self e) t then act_ret (ct_involved t)
                     else tm_involved e (ct_trid t) (map rs_id fixed)) (\<lambda>known.
           act_bind (act_each (\<lambda>r. act_bind (rs_start e r (ct_trid t) (join_flag flags known (rs_id r)))
                                     (\<lambda>code. act_ret (r, code))) fixed) (\<lambda>results.
           act_then (check_results e (ct_trid t) results)
             (act_ret (ct_involve (map rs_id fixed) t))))))"

definition resources_end :: "ctx_env \<Rightarrow> ctx_transaction \<Rightarrow> xa_flag set \<Rightarrow> (ctx, unit) act" where
  "resources_end e t flags =
     (if trid_null (ct_trid t) then act_ret ()
      else act_bind (act_get cx_fixed) (\<lambda>fixed. act_bind (act_get cx_dynamic) (\<lambda>dynamic.
           act_then (act_each (\<lambda>r. rs_end e r (ct_trid t) flags) fixed)
          (act_then (act_each (\<lambda>r. rs_end e r (ct_trid t) flags) (filter (\<lambda>r. rs_id r \<in> set (ct_dynamic t)) dynamic))
             (act_ret ())))))"

definition raise_if_not_ok :: "tx \<Rightarrow> (ctx, unit) act" where
  "raise_if_not_ok code = (if code \<noteq> Tx_ok then act_raise (Tx_raised code) else act_ret ())"

definition resource_commit :: "ctx_env \<Rightarrow> int \<Rightarrow> ctx_transaction \<Rightarrow> xa_flag set \<Rightarrow> (ctx, unit) act" where
  "resource_commit e rm t flags =
     act_bind (act_get (\<lambda>s. List.find (\<lambda>r. rs_id r = rm) (cx_all s))) (\<lambda>found.
       case found of
         None \<Rightarrow> act_raise (Tx_raised Tx_error)
       | Some r \<Rightarrow> act_bind (rs_commit e r (ct_trid t) flags) (\<lambda>code. raise_if_not_ok (to_tx code)))"

definition resource_rollback :: "ctx_env \<Rightarrow> int \<Rightarrow> ctx_transaction \<Rightarrow> (ctx, unit) act" where
  "resource_rollback e rm t =
     act_bind (act_get (\<lambda>s. List.find (\<lambda>r. rs_id r = rm) (cx_all s))) (\<lambda>found.
       case found of
         None \<Rightarrow> act_raise (Tx_raised Tx_error)
       | Some r \<Rightarrow> act_bind (rs_rollback e r (ct_trid t) {}) (\<lambda>code. raise_if_not_ok (to_tx code)))"

section \<open>Begin\<close>

text \<open>\<open>local::start::transaction\<close>: a transaction with a new id, owned by the process.\<close>

definition start_transaction :: "ctx_env \<Rightarrow> int \<Rightarrow> ctx_transaction" where
  "start_transaction e timeout =
     (new_transaction \<lparr>gtrid = ce_gtrid e, bqual = ce_bqual e, tformat = 42, towner = ce_self e\<rparr>)
       \<lparr>ct_state := Trans_active,
        ct_deadline := (if 0 < timeout then Some (ce_now e + timeout * 1000000) else None)\<rparr>"

text \<open>The resources start for a new transaction of \<open>begin\<close>; the range of fixed resources is partitioned.\<close>

definition begin_resources :: "ctx_env \<Rightarrow> trid \<Rightarrow> (ctx, unit) act" where
  "begin_resources e t =
     act_bind (act_get cx_fixed) (\<lambda>fixed.
     act_bind (act_each (\<lambda>r. act_bind (rs_start e r t {}) (\<lambda>code. act_ret (r, code \<in> {Xa_ok, Xa_read_only}))) fixed) (\<lambda>results.
       let good = map fst (filter snd results); failed = map fst (filter (\<lambda>x. \<not> snd x) results)
       in act_then (act_upd (\<lambda>s. s\<lparr>cx_fixed := good @ failed, cx_all := cx_dynamic s @ good @ failed\<rparr>))
            (if failed \<noteq> []
             then act_then (act_each (\<lambda>r. rs_end e r t {Flag_success}) good) (act_raise (Tx_raised Tx_error))
             else act_ret ())))"

definition cx_begin :: "ctx_env \<Rightarrow> (ctx, unit) act" where
  "cx_begin e =
     act_bind (act_get cx_current) (\<lambda>t. act_bind (act_get cx_control) (\<lambda>control.
     act_then
       (if \<not> trid_null (ct_trid t)
        then (if control \<noteq> Stacked then act_raise (Tx_raised Tx_protocol)
              else resources_end e t {Flag_suspend})
        else if ct_dynamic t \<noteq> [] then act_raise (Tx_raised Tx_outside)
        else act_ret ())
       (act_bind (act_get cx_timeout) (\<lambda>timeout.
          let new = start_transaction e timeout
          in act_then (begin_resources e (ct_trid new)) (act_upd (cx_push new))))))"

section \<open>Commit and rollback\<close>

definition pop_transaction :: "ctx_env \<Rightarrow> (ctx, unit) act" where
  "pop_transaction e =
     act_then (act_upd (\<lambda>s. if cx_transactions s = [] then s\<lparr>cx_undefined := True\<rparr>
                            else s\<lparr>cx_transactions := butlast (cx_transactions s)\<rparr>))
    (act_bind (act_get cx_control) (\<lambda>control.
       case control of
         Unchained \<Rightarrow> act_ret ()
       | Chained \<Rightarrow> cx_begin e
       | Stacked \<Rightarrow> act_bind (act_get cx_current) (\<lambda>t.
           if \<not> trid_null (ct_trid t) then resources_end e t {Flag_resume} else act_ret ())))"

text \<open>\<open>Context::commit( const Transaction&)\<close> and its last part, the commit by the transaction manager.\<close>

definition commit_distributed :: "ctx_env \<Rightarrow> ctx_transaction \<Rightarrow> (ctx, unit) act" where
  "commit_distributed e t =
     act_bind (act_state (\<lambda>s. (ce_commit e (cx_log s) (ct_trid t) (ct_involved t),
                               cx_event (Tm_commit (ct_trid t) (ct_involved t)) s))) (\<lambda>reply.
       case reply of
         None \<Rightarrow> act_raise Comm_unavailable
       | Some (Stage_prepare, code) \<Rightarrow>
           act_bind (act_get cx_commit_return) (\<lambda>directive.
             case directive of
               Return_logged \<Rightarrow> act_then (act_upd (cx_event (Discarded_reply (ct_trid t)))) (raise_if_not_ok code)
             | Return_completed \<Rightarrow>
                 act_bind (act_state (\<lambda>s. (ce_second e (cx_log s) (ct_trid t), cx_event (Second_reply (ct_trid t)) s)))
                   raise_if_not_ok)
       | Some (Stage_commit, code) \<Rightarrow> raise_if_not_ok code
       | Some (Stage_rollback, code) \<Rightarrow> act_then (pop_transaction e) (act_raise (Tx_raised Tx_rollback)))"

definition commit_transaction :: "ctx_env \<Rightarrow> ctx_transaction \<Rightarrow> (ctx, unit) act" where
  "commit_transaction e t =
     (if trid_null (ct_trid t) then act_raise (Tx_raised Tx_no_begin)
      else if towner (ct_trid t) \<noteq> ce_self e then act_raise (Tx_raised Tx_protocol)
      else if ct_state t \<noteq> Trans_active then act_raise (Tx_raised Tx_protocol)
      else if ct_pending t \<noteq> [] then act_raise (Tx_raised Tx_protocol)
      else act_then (resources_end e t {Flag_success})
          (act_bind (act_get cx_fixed) (\<lambda>fixed.
             if ct_local (ce_self e) t \<and> length (ct_involved t) + length fixed \<le> 1
             then (if ct_involved t \<noteq> [] then resource_commit e (hd (ct_involved t)) t {Flag_one_phase}
                   else if fixed \<noteq> [] then resource_commit e (rs_id (hd fixed)) t {Flag_one_phase}
                   else act_ret ())
             else commit_distributed e t)))"

definition cx_commit :: "ctx_env \<Rightarrow> (ctx, unit) act" where
  "cx_commit e = act_bind (act_get cx_current) (\<lambda>t. act_then (commit_transaction e t) (pop_transaction e))"

definition rollback_transaction :: "ctx_env \<Rightarrow> ctx_transaction \<Rightarrow> (ctx, unit) act" where
  "rollback_transaction e t =
     (if trid_null (ct_trid t) then act_raise (Tx_raised Tx_protocol)
      else if towner (ct_trid t) \<noteq> ce_self e then act_raise (Tx_raised Tx_protocol)
      else act_then (resources_end e t {Flag_success})
          (if ct_local (ce_self e) t
           then act_bind (act_get cx_fixed) (\<lambda>fixed.
                act_then (act_each (\<lambda>rm. resource_rollback e rm t)
                    (remdups_adj (sort (ct_involved t @ map rs_id fixed)))) (act_ret ()))
           else act_bind (act_state (\<lambda>s. (ce_rollback e (cx_log s) (ct_trid t) (ct_involved t),
                                          cx_event (Tm_rollback (ct_trid t) (ct_involved t)) s))) (\<lambda>reply.
                case reply of None \<Rightarrow> act_raise Comm_unavailable | Some code \<Rightarrow> raise_if_not_ok code)))"

definition cx_rollback :: "ctx_env \<Rightarrow> (ctx, unit) act" where
  "cx_rollback e = act_bind (act_get cx_current) (\<lambda>t. act_then (rollback_transaction e t) (pop_transaction e))"

section \<open>Suspend and resume\<close>

text \<open>The argument is \<open>None\<close> for a null pointer.\<close>

definition cx_suspend :: "ctx_env \<Rightarrow> bool \<Rightarrow> (ctx, trid) act" where
  "cx_suspend e pointer =
     (if \<not> pointer then act_raise (Tx_raised Tx_argument)
      else act_bind (act_get cx_current) (\<lambda>t.
           if trid_null (ct_trid t) then act_raise (Tx_raised Tx_protocol)
           else let t' = t\<lparr>ct_suspended := True\<rparr>
                in act_then (act_upd (cx_current_set t'))
                  (act_then (resources_end e t' {Flag_suspend}) (act_ret (ct_trid t)))))"

text \<open>\<open>algorithm::rotate\<close>: the element at the position becomes the last.\<close>

definition rotate_last :: "nat \<Rightarrow> 'a list \<Rightarrow> 'a list" where
  "rotate_last i xs = drop (Suc i) xs @ take (Suc i) xs"

definition cx_resume :: "ctx_env \<Rightarrow> trid option \<Rightarrow> (ctx, unit) act" where
  "cx_resume e xid =
     (case xid of
        None \<Rightarrow> act_raise (Tx_raised Tx_argument)
      | Some x \<Rightarrow>
          if trid_null x then act_raise (Tx_raised Tx_argument)
          else act_bind (act_get cx_current) (\<lambda>t.
            if \<not> trid_null (ct_trid t) \<and> \<not> ct_suspended t then act_raise (Tx_raised Tx_protocol)
            else if ct_dynamic t \<noteq> [] then act_raise (Tx_raised Tx_outside)
            else act_bind (act_get (\<lambda>s. (position (\<lambda>t. trid_eq (ct_trid t) x) (cx_transactions s), cx_transactions s))) (\<lambda>found.
              case found of
                (None, _) \<Rightarrow> act_raise (Tx_raised Tx_argument)
              | (Some i, ts) \<Rightarrow>
                  if \<not> ct_suspended (ts ! i) then act_raise (Tx_raised Tx_protocol)
                  else let t' = (ts ! i)\<lparr>ct_suspended := False\<rparr>
                       in act_then (act_upd (\<lambda>s. s\<lparr>cx_transactions := ts[i := t']\<rparr>))
                         (act_bind (resources_start e t' {Flag_resume}) (\<lambda>t''.
                            act_upd (\<lambda>s. s\<lparr>cx_transactions := rotate_last i (ts[i := t''])\<rparr>))))))"

section \<open>Registration of dynamic resources\<close>

definition resource_registration :: "ctx_env \<Rightarrow> int \<Rightarrow> (ctx, ax \<times> trid) act" where
  "resource_registration e rm =
     act_bind (act_get (\<lambda>s. list_ex (\<lambda>r. rs_id r = rm) (cx_dynamic s))) (\<lambda>known.
     if \<not> known then act_raise (Ax_raised Ax_argument)
     else act_bind (act_get cx_current) (\<lambda>t.
       case ct_associate_dynamic rm t of (fresh, t1) \<Rightarrow>
         if \<not> fresh then act_raise (Ax_raised Ax_resume)
         else if trid_null (ct_trid t) then act_then (act_upd (cx_current_set t1)) (act_ret (Ax_ok, ct_trid t))
         else if rm \<in> set (ct_involved t) then act_then (act_upd (cx_current_set t1)) (act_ret (Ax_join, ct_trid t))
         else act_then (act_upd (cx_current_set (ct_involve [rm] t1)))
             (if ct_local (ce_self e) t then act_ret (Ax_ok, ct_trid t)
              else act_bind (tm_involved e (ct_trid t) [rm]) (\<lambda>involved.
                   act_ret (if rm \<in> set involved then Ax_join else Ax_ok, ct_trid t)))))"

definition resource_unregistration :: "int \<Rightarrow> (ctx, unit) act" where
  "resource_unregistration rm =
     act_bind (act_get cx_current) (\<lambda>t.
       if \<not> trid_null (ct_trid t) then act_raise (Ax_raised Ax_protocol)
       else case ct_disassociate_dynamic rm t of (found, t1) \<Rightarrow>
         if \<not> found then act_raise (Ax_raised Ax_protocol) else act_upd (cx_current_set t1))"

section \<open>Attributes\<close>

definition set_commit_return :: "int \<Rightarrow> (ctx, unit) act" where
  "set_commit_return value =
     (if value = 0 then act_upd (\<lambda>s. s\<lparr>cx_commit_return := Return_completed\<rparr>)
      else if value = 1 then act_upd (\<lambda>s. s\<lparr>cx_commit_return := Return_logged\<rparr>)
      else act_raise (Tx_raised Tx_argument))"

definition set_transaction_control :: "int \<Rightarrow> (ctx, unit) act" where
  "set_transaction_control value =
     (if value = 0 then act_upd (\<lambda>s. s\<lparr>cx_control := Unchained\<rparr>)
      else if value = 1 then act_upd (\<lambda>s. s\<lparr>cx_control := Chained\<rparr>)
      else if value = 42 then act_upd (\<lambda>s. s\<lparr>cx_control := Stacked\<rparr>)
      else act_raise (Tx_raised Tx_argument))"

definition set_transaction_timeout :: "int \<Rightarrow> (ctx, unit) act" where
  "set_transaction_timeout value =
     (if value < 0 then act_raise (Tx_raised Tx_argument) else act_upd (\<lambda>s. s\<lparr>cx_timeout := value\<rparr>))"

text \<open>The fields of \<open>TXINFO\<close> that \<open>Context::info\<close> sets; \<open>when_return\<close> is not one of them.\<close>

record tx_info =
  ti_xid :: trid
  ti_state :: trans_state
  ti_timeout :: int
  ti_control :: tx_control

definition cx_info :: "ctx \<Rightarrow> bool \<times> tx_info" where
  "cx_info s = (\<not> trid_null (ct_trid (cx_current s)),
     \<lparr>ti_xid = ct_trid (cx_current s), ti_state = ct_state (cx_current s), ti_timeout = cx_timeout s,
      ti_control = cx_control s\<rparr>)"

section \<open>Open, close and configure\<close>

definition cx_open :: "ctx_env \<Rightarrow> (ctx, unit) act" where
  "cx_open e = act_bind (act_get cx_all) (\<lambda>rs. act_then (act_each (rs_open e) rs) (act_ret ()))"

definition cx_close :: "ctx_env \<Rightarrow> (ctx, unit) act" where
  "cx_close e = act_bind (act_get cx_all) (\<lambda>rs. act_then (act_each (rs_close e) rs) (act_ret ()))"

text \<open>A linked resource: key, name and whether its switch says that it registers dynamically.\<close>

record resource_link =
  ln_key :: string
  ln_name :: string
  ln_dynamic :: bool

text \<open>The links are turned into resources one after the other; one without configuration raises.\<close>

definition configure_link :: "(resource_link \<Rightarrow> conf_resource \<Rightarrow> bool) \<Rightarrow> conf_resource list \<Rightarrow> resource_link \<Rightarrow> (ctx, unit) act" where
  "configure_link matches conf l =
     (case List.find (matches l) conf of
        None \<Rightarrow> act_then (act_upd (cx_event Error_event)) (act_raise Invalid_configuration)
      | Some c \<Rightarrow> act_upd (\<lambda>s. s\<lparr>cx_all := cx_all s @
          [\<lparr>rs_id = cr_id c, rs_key = ln_key l, rs_dynamic = ln_dynamic l, rs_openinfo = cr_openinfo c,
            rs_closeinfo = cr_closeinfo c\<rparr>]\<rparr>))"

definition cx_configure :: "ctx_env \<Rightarrow> resource_link list \<Rightarrow> (ctx, unit) act" where
  "cx_configure e links =
     (if links = [] then act_ret ()
      else let named = filter (\<lambda>l. ln_name l \<noteq> []) links;
               unnamed = filter (\<lambda>l. ln_name l = []) links
           in act_bind (act_state (\<lambda>s. (ce_alias e (cx_log s) (map ln_name named),
                                        cx_event (Tm_alias (map ln_name named)) s))) (\<lambda>reply.
             case reply of
               None \<Rightarrow> act_raise Comm_unavailable
             | Some conf \<Rightarrow>
                 act_then (act_each (configure_link (\<lambda>l c. ln_name l = cr_name c) conf) named)
                (act_then (act_each (configure_link (\<lambda>l c. ln_key l = cr_key c) conf) unnamed)
                (act_then (act_upd (\<lambda>s. let dynamic = filter rs_dynamic (cx_all s);
                                            fixed = filter (\<lambda>r. \<not> rs_dynamic r) (cx_all s)
                                        in s\<lparr>cx_dynamic := dynamic, cx_fixed := fixed, cx_all := dynamic @ fixed\<rparr>))
                  (cx_open e)))))"

section \<open>Around a service\<close>

text \<open>\<open>join\<close>, \<open>start\<close> and \<open>branch\<close>: the reference they return is to the last transaction.\<close>

definition cx_join :: "ctx_env \<Rightarrow> trid \<Rightarrow> (ctx, unit) act" where
  "cx_join e t =
     (let new = new_transaction t
      in act_then (act_upd (cx_push new))
        (if trid_null t then act_ret () else act_bind (resources_start e new {}) (\<lambda>t'. act_upd (cx_last_set t'))))"

definition cx_start :: "ctx_env \<Rightarrow> (ctx, unit) act" where
  "cx_start e =
     act_bind (act_get cx_timeout) (\<lambda>timeout.
     act_bind (resources_start e (start_transaction e timeout) {}) (\<lambda>t. act_upd (cx_push t)))"

definition branched_id :: "ctx_env \<Rightarrow> trid \<Rightarrow> trid" where
  "branched_id e t = (if trid_null t then null_trid else t\<lparr>tformat := 43, bqual := ce_bqual e\<rparr>)"

definition cx_branch :: "ctx_env \<Rightarrow> trid \<Rightarrow> (ctx, unit) act" where
  "cx_branch e t = cx_join e (branched_id e t)"

text \<open>\<open>policy::call::Default::transaction\<close>: the transaction of a service, with its deadline.\<close>

definition set_deadline :: "int \<Rightarrow> int \<Rightarrow> ctx \<Rightarrow> ctx" where
  "set_deadline timeout now s =
     (if 0 < timeout then cx_last_set ((last (cx_transactions s))\<lparr>ct_deadline := Some (now + timeout)\<rparr>) s else s)"

definition policy_transaction :: "ctx_env \<Rightarrow> trid \<Rightarrow> tran_type \<Rightarrow> int \<Rightarrow> int \<Rightarrow> (ctx, unit) act" where
  "policy_transaction e t type timeout now =
     act_then (act_upd (\<lambda>s. s\<lparr>cx_caller := t\<rparr>))
       (let deadline = act_upd (set_deadline timeout now)
        in case type of
             Tran_automatic \<Rightarrow> act_then (if \<not> trid_null t then cx_join e t else cx_start e) deadline
           | Tran_branch \<Rightarrow> act_then (if \<not> trid_null t then cx_branch e t else cx_start e) deadline
           | Tran_join \<Rightarrow> act_then (cx_join e t) deadline
           | Tran_atomic \<Rightarrow> act_then (cx_start e) deadline
           | Tran_none \<Rightarrow> cx_join e (null_trid\<lparr>towner := ce_self e\<rparr>))"

text \<open>A call in the current transaction is associated with it.\<close>

definition cx_call :: "nat \<Rightarrow> ctx \<Rightarrow> ctx" where
  "cx_call corr s =
     (if trid_null (ct_trid (cx_current s)) then s else cx_current_set (ct_associate corr (cx_current s)) s)"

text \<open>\<open>update\<close>: the reply of a called service, with its transaction, its state and the correlation.\<close>

definition cx_update :: "trid \<Rightarrow> reply_state \<Rightarrow> nat \<Rightarrow> (ctx, unit) act" where
  "cx_update t state corr =
     (if \<not> trid_null t
      then act_bind (act_get (\<lambda>s. position (\<lambda>x. trid_eq (ct_trid x) t) (cx_transactions s))) (\<lambda>found.
           case found of
             None \<Rightarrow> act_raise (Xatmi_raised Tp_system)
           | Some i \<Rightarrow> act_upd (\<lambda>s.
               let x = cx_transactions s ! i;
                   x1 = (if trans_state_num (ct_state x) < trans_state_num (cast_state state)
                         then x\<lparr>ct_state := cast_state state\<rparr> else x)
               in s\<lparr>cx_transactions := (cx_transactions s)[i := ct_replied corr x1]\<rparr>))
      else act_upd (\<lambda>s. s\<lparr>cx_transactions := map (ct_replied corr) (cx_transactions s)\<rparr>))"

section \<open>The end of a service\<close>

text \<open>Replies that are not fetched: the transaction can only be rolled back, and they are discarded.\<close>

definition pending_check :: "ctx_transaction \<Rightarrow> ctx_transaction" where
  "pending_check t = (if ct_pending t \<noteq> [] \<and> \<not> trid_null (ct_trid t) then t\<lparr>ct_state := Trans_rollback\<rparr> else t)"

definition ends_with_pending :: "ctx_transaction list \<Rightarrow> bool" where
  "ends_with_pending ts \<longleftrightarrow> list_ex (\<lambda>t. ct_pending t \<noteq> [] \<and> \<not> trid_null (ct_trid t)) ts"

text \<open>The end of a transaction that the process owns: whether it went well.\<close>

definition finalize_owned :: "ctx_env \<Rightarrow> bool \<Rightarrow> ctx_transaction \<Rightarrow> (ctx, bool) act" where
  "finalize_owned e commit t s =
     (case (if commit \<and> ct_state t = Trans_active then commit_transaction e t else rollback_transaction e t) s of
        (Inl _, s') \<Rightarrow> (Inr False, s')
      | (Inr _, s') \<Rightarrow> (Inr True, s'))"

definition not_owner_state :: "bool \<Rightarrow> ctx_transaction \<Rightarrow> reply_state" where
  "not_owner_state commit t =
     (let state = transform_state (ct_state t)
      in if \<not> commit \<and> state = Reply_active then Reply_rollback else state)"

definition cx_finalize :: "ctx_env \<Rightarrow> bool \<Rightarrow> (ctx, trid \<times> reply_state) act" where
  "cx_finalize e commit =
     act_bind (act_state (\<lambda>s. ((cx_transactions s, cx_caller s),
                 s\<lparr>cx_transactions := [], cx_caller := (cx_caller s)\<lparr>tformat := -1\<rparr>\<rparr>))) (\<lambda>(transactions, caller).
     act_then (act_upd (fold (\<lambda>t s. fold (\<lambda>c. cx_event (Discarded c)) (ct_pending t) s) transactions))
       (let actual = filter (\<lambda>t. \<not> trid_null (ct_trid t)) (map pending_check transactions);
            owned = filter (\<lambda>t. towner (ct_trid t) = ce_self e) actual;
            others = filter (\<lambda>t. towner (ct_trid t) \<noteq> ce_self e) actual
        in act_bind (act_each (finalize_owned e commit) owned) (\<lambda>oks.
             if 1 < length others then act_raise Terminated
             else case others of
               [] \<Rightarrow> act_ret (caller, if ends_with_pending transactions \<or> \<not> list_all (\<lambda>ok. ok) oks
                                      then Reply_error else Reply_active)
             | t # _ \<Rightarrow> act_then (resources_end e t {Flag_success}) (act_ret (caller, not_owner_state commit t)))))"

section \<open>The C interface\<close>

text \<open>\<open>local::wrap\<close>: a code of the TX interface is returned, anything else is \<open>TX_ERROR\<close>.\<close>

definition tx_wrap :: "(ctx, 'a) act \<Rightarrow> ctx \<Rightarrow> tx \<times> ctx" where
  "tx_wrap f s =
     (case f s of
        (Inr _, s') \<Rightarrow> (Tx_ok, s')
      | (Inl (Tx_raised code), s') \<Rightarrow> (code, s')
      | (Inl _, s') \<Rightarrow> (Tx_error, s'))"

definition tx_begin :: "ctx_env \<Rightarrow> ctx \<Rightarrow> tx \<times> ctx" where "tx_begin e = tx_wrap (cx_begin e)"

definition tx_commit :: "ctx_env \<Rightarrow> ctx \<Rightarrow> tx \<times> ctx" where "tx_commit e = tx_wrap (cx_commit e)"

definition tx_rollback :: "ctx_env \<Rightarrow> ctx \<Rightarrow> tx \<times> ctx" where "tx_rollback e = tx_wrap (cx_rollback e)"

definition tx_suspend :: "ctx_env \<Rightarrow> ctx \<Rightarrow> tx \<times> ctx" where "tx_suspend e = tx_wrap (cx_suspend e True)"

definition tx_resume :: "ctx_env \<Rightarrow> trid \<Rightarrow> ctx \<Rightarrow> tx \<times> ctx" where "tx_resume e x = tx_wrap (cx_resume e (Some x))"

definition tx_set_commit_return :: "int \<Rightarrow> ctx \<Rightarrow> tx \<times> ctx" where
  "tx_set_commit_return v = tx_wrap (set_commit_return v)"

definition tx_set_transaction_control :: "int \<Rightarrow> ctx \<Rightarrow> tx \<times> ctx" where
  "tx_set_transaction_control v = tx_wrap (set_transaction_control v)"

definition tx_set_transaction_timeout :: "int \<Rightarrow> ctx \<Rightarrow> tx \<times> ctx" where
  "tx_set_transaction_timeout v = tx_wrap (set_transaction_timeout v)"

text \<open>\<open>ax_reg\<close> drops the code of the registration; \<open>local::handle\<close> returns the one of an exception.\<close>

definition ax_wrap :: "(ctx, 'a) act \<Rightarrow> ctx \<Rightarrow> ax \<times> ctx" where
  "ax_wrap f s =
     (case f s of
        (Inr _, s') \<Rightarrow> (Ax_ok, s')
      | (Inl (Ax_raised code), s') \<Rightarrow> (code, s')
      | (Inl _, s') \<Rightarrow> (Ax_error, s'))"

definition ax_reg :: "ctx_env \<Rightarrow> int \<Rightarrow> ctx \<Rightarrow> ax \<times> ctx" where "ax_reg e rm = ax_wrap (resource_registration e rm)"

definition ax_unreg :: "int \<Rightarrow> ctx \<Rightarrow> ax \<times> ctx" where "ax_unreg rm = ax_wrap (resource_unregistration rm)"

end
