(* ===== verification/CtxLegal.thy ===== *)
theory CtxLegal
  imports CtxHandle
begin

text \<open>
  What a resource manager may expect of its caller, as an automaton over the calls that reach it,
  and the invariant that ties it to the transactions of a context: the resource is associated with
  the current transaction, its association with every suspended one is suspended, and there is no
  other.
\<close>

section \<open>The interface of a resource manager\<close>

type_synonym xid = "int \<times> bytes \<times> bytes"

definition xid_of :: "trid \<Rightarrow> xid" where
  "xid_of t = (tformat t, gtrid t, bqual t)"

text \<open>
  The transaction the thread is associated with, the suspended associations, and the branch whose
  association was ended just before. A call that is out of place gives \<open>None\<close>: \<open>xa_start\<close> needs a
  thread without association and \<open>TMRESUME\<close> exactly for a suspended branch, not together with
  \<open>TMJOIN\<close>; \<open>xa_end\<close> needs an association and either \<open>TMSUCCESS\<close> or \<open>TMSUSPEND\<close>; \<open>xa_commit\<close> and
  \<open>xa_rollback\<close> follow the successful \<open>xa_end\<close> of the branch, once. Whether \<open>TMJOIN\<close> is right depends
  on what other processes have done with the branch and is left open.
\<close>

type_synonym xa_view = "xid option \<times> xid set \<times> xid option"

fun xa_accept :: "xa_op \<Rightarrow> xid \<Rightarrow> xa_flag set \<Rightarrow> xa \<Rightarrow> xa_view \<Rightarrow> xa_view option" where
  "xa_accept Op_start x flags code (a, S, b) =
     (if a \<noteq> None \<or> (Flag_resume \<in> flags) \<noteq> (x \<in> S) \<or> (Flag_resume \<in> flags \<and> Flag_join \<in> flags) then None
      else if code = Xa_ok then Some (Some x, S - {x}, None) else Some (a, S, b))"
| "xa_accept Op_end x flags code (a, S, b) =
     (if (Flag_success \<in> flags) = (Flag_suspend \<in> flags) then None
      else if a = Some x then (if Flag_suspend \<in> flags then Some (None, insert x S, None) else Some (None, S, Some x))
      else if x \<in> S \<and> Flag_success \<in> flags then Some (a, S - {x}, Some x)
      else None)"
| "xa_accept op x flags code (a, S, b) =
     (if b \<noteq> Some x \<or> a = Some x \<or> x \<in> S then None else Some (a, S, None))"

fun xa_step :: "int \<Rightarrow> ctx_event \<Rightarrow> xa_view option \<Rightarrow> xa_view option" where
  "xa_step rm (Xa_called r op t flags code) (Some v) =
     (if r = rm then xa_accept op (xid_of t) flags code v else Some v)"
| "xa_step rm _ v = v"

definition xa_run :: "int \<Rightarrow> ctx_event list \<Rightarrow> xa_view option" where
  "xa_run rm log = fold (xa_step rm) log (Some (None, {}, None))"

definition xa_associations :: "int \<Rightarrow> ctx_event list \<Rightarrow> (xid option \<times> xid set) option" where
  "xa_associations rm log = map_option (\<lambda>(a, S, b). (a, S)) (xa_run rm log)"

lemma xa_associations_Some: "xa_associations rm log = Some (a, S) \<longleftrightarrow> (\<exists>b. xa_run rm log = Some (a, S, b))"
  by (auto simp: xa_associations_def)

lemma xa_run_append: "xa_run rm (log @ evs) = fold (xa_step rm) evs (xa_run rm log)"
  by (simp add: xa_run_def)

lemma xa_step_None [simp]: "xa_step rm ev None = None"
  by (cases ev) auto

lemma xa_step_other [simp]: "r \<noteq> rm \<Longrightarrow> xa_step rm (Xa_called r op t flags code) v = v"
  by (cases v) auto

text \<open>A call that has its effect, on the view of every resource manager.\<close>

definition xa_do :: "xa_op \<Rightarrow> xid \<Rightarrow> xa_flag set \<Rightarrow> xa_view option \<Rightarrow> xa_view option" where
  "xa_do op x flags v = Option.bind v (xa_accept op x flags Xa_ok)"

lemma xa_accept_join: "Flag_resume \<notin> flags \<Longrightarrow> xa_accept Op_start x (insert Flag_join flags) c = xa_accept Op_start x flags c"
  by (auto simp: fun_eq_iff)

lemma xa_do_join: "Flag_resume \<notin> flags \<Longrightarrow> xa_do Op_start x (insert Flag_join flags) = xa_do Op_start x flags"
  by (simp add: xa_do_def fun_eq_iff xa_accept_join)

definition only_log :: "ctx \<Rightarrow> ctx \<Rightarrow> bool" where
  "only_log s s' \<longleftrightarrow> s' = s\<lparr>cx_log := cx_log s'\<rparr>"

lemma only_log_refl [simp]: "only_log s s"
  by (simp add: only_log_def)

lemma only_log_trans: "only_log s s1 \<Longrightarrow> only_log s1 s2 \<Longrightarrow> only_log s s2"
  unfolding only_log_def by (cases s, cases s1, cases s2) simp

lemma only_log_fields:
  assumes "only_log s s'"
  shows "cx_transactions s' = cx_transactions s" "cx_empty s' = cx_empty s" "cx_control s' = cx_control s"
    "cx_commit_return s' = cx_commit_return s" "cx_all s' = cx_all s" "cx_dynamic s' = cx_dynamic s"
    "cx_fixed s' = cx_fixed s" "cx_timeout s' = cx_timeout s" "cx_caller s' = cx_caller s"
    "cx_undefined s' = cx_undefined s"
proof -
  obtain l where "s' = s\<lparr>cx_log := l\<rparr>" using assms unfolding only_log_def by blast
  then show "cx_transactions s' = cx_transactions s" "cx_empty s' = cx_empty s" "cx_control s' = cx_control s"
    "cx_commit_return s' = cx_commit_return s" "cx_all s' = cx_all s" "cx_dynamic s' = cx_dynamic s"
    "cx_fixed s' = cx_fixed s" "cx_timeout s' = cx_timeout s" "cx_caller s' = cx_caller s"
    "cx_undefined s' = cx_undefined s"
    by simp_all
qed

lemma only_log_event [simp]: "only_log s (cx_event v s)"
  by (simp add: only_log_def cx_event_def)

definition calls :: "xa_op \<Rightarrow> xid \<Rightarrow> xa_flag set \<Rightarrow> (xa_resource \<Rightarrow> 'b \<Rightarrow> bool) \<Rightarrow> (xa_resource \<Rightarrow> (ctx, 'b) act) \<Rightarrow> bool" where
  "calls op x flags P f \<longleftrightarrow> (\<forall>r s. \<exists>y s'. f r s = (Inr y, s') \<and> P r y \<and> only_log s s' \<and>
     (\<forall>k. xa_run k (cx_log s') = (if rs_id r = k then xa_do op x flags (xa_run k (cx_log s)) else xa_run k (cx_log s))))"

lemma calls_each:
  assumes f: "calls op x flags P f" and "distinct (map rs_id rs)"
  shows "\<exists>ys s'. act_each f rs s = (Inr ys, s') \<and> list_all2 P rs ys \<and> only_log s s' \<and>
    (\<forall>k. xa_run k (cx_log s') =
      (if k \<in> set (map rs_id rs) then xa_do op x flags (xa_run k (cx_log s)) else xa_run k (cx_log s)))"
  using assms(2)
proof (induction rs arbitrary: s)
  case Nil
  then show ?case by (simp add: act_ret_def)
next
  case (Cons r rs)
  obtain y s1 where y: "f r s = (Inr y, s1)" "P r y" "only_log s s1"
    "\<forall>k. xa_run k (cx_log s1) = (if rs_id r = k then xa_do op x flags (xa_run k (cx_log s)) else xa_run k (cx_log s))"
    using f unfolding calls_def by blast
  obtain ys s' where ys: "act_each f rs s1 = (Inr ys, s')" "list_all2 P rs ys" "only_log s1 s'"
    "\<forall>k. xa_run k (cx_log s') =
      (if k \<in> set (map rs_id rs) then xa_do op x flags (xa_run k (cx_log s1)) else xa_run k (cx_log s1))"
    using Cons by fastforce
  have "act_each f (r # rs) s = (Inr (y # ys), s')" using y(1) ys(1) by (simp add: act_bind_def act_ret_def)
  moreover have "only_log s s'" using y(3) ys(3) by (rule only_log_trans)
  moreover have "xa_run k (cx_log s') = (if k \<in> set (map rs_id (r # rs))
      then xa_do op x flags (xa_run k (cx_log s)) else xa_run k (cx_log s))" for k
    using y(4) ys(4) Cons.prems by auto
  ultimately show ?case using y(2) ys(2) by (intro exI [where x = "y # ys"] exI [where x = s']) simp
qed

section \<open>A cooperative world\<close>

text \<open>
  Every manager can be reached and answers well: resources start, do not fail and commit, and the
  transaction manager answers \<open>TX_OK\<close> or that the transaction is rolled back.
\<close>

definition cooperative :: "ctx_env \<Rightarrow> bool" where
  "cooperative e \<longleftrightarrow>
     (\<forall>l rm t flags. ce_xa e l rm Op_start t flags = Xa_ok \<and> ce_xa e l rm Op_end t flags \<noteq> Xa_resource_fail
        \<and> to_tx (ce_xa e l rm Op_commit t flags) = Tx_ok \<and> to_tx (ce_xa e l rm Op_rollback t flags) = Tx_ok)
   \<and> (\<forall>l t rms. ce_involved e l t rms \<noteq> None \<and> ce_rollback e l t rms = Some Tx_ok
        \<and> (case ce_commit e l t rms of None \<Rightarrow> False | Some (stage, code) \<Rightarrow> stage = Stage_rollback \<or> code = Tx_ok))
   \<and> (\<forall>l t. ce_second e l t = Tx_ok)"

lemma not_failed: "to_tx c = Tx_ok \<Longrightarrow> c \<noteq> Xa_resource_fail"
  by auto

lemma entry_called:
  assumes "\<And>l rm. ce_xa e l rm op t flags \<noteq> Xa_resource_fail"
  shows "reopen_guard e r (xa_entry e op r t flags) s =
    (Inr (ce_xa e (cx_log s) (rs_id r) op t flags),
     cx_event (Xa_called (rs_id r) op t flags (ce_xa e (cx_log s) (rs_id r) op t flags)) s)"
  using assms by (simp add: reopen_guard_def xa_entry_def act_bind_def act_state_def act_ret_def Let_def)

lemma run_called:
  assumes "op \<noteq> Op_start \<or> c = Xa_ok"
  shows "xa_run k (cx_log (cx_event (Xa_called r op t flags c) s)) =
    (if r = k then xa_do op (xid_of t) flags (xa_run k (cx_log s)) else xa_run k (cx_log s))"
proof -
  have "xa_accept op x fl c = xa_accept op x fl Xa_ok" for x fl
    using assms by (cases op) (simp_all add: fun_eq_iff)
  then show ?thesis
    by (cases "xa_run k (cx_log s)") (simp_all add: cx_event_def xa_run_append xa_do_def)
qed

lemma end_calls:
  assumes "cooperative e"
  shows "calls Op_end (xid_of t) flags (\<lambda>_ _. True) (\<lambda>r. rs_end e r t flags)"
proof -
  have "ce_xa e l rm Op_end t flags \<noteq> Xa_resource_fail" for l rm using assms unfolding cooperative_def by blast
  then show ?thesis by (simp add: calls_def rs_end_def entry_called run_called)
qed

lemma start_calls:
  assumes "cooperative e" and "\<And>r. g r = flags \<or> Flag_resume \<notin> flags \<and> g r = insert Flag_join flags"
  shows "calls Op_start (xid_of t) flags (\<lambda>_ c. c = Xa_ok) (\<lambda>r. rs_start e r t (g r))"
proof -
  have "xa_do Op_start (xid_of t) (g r) = xa_do Op_start (xid_of t) flags" for r
    using assms(2) [of r] by (elim disjE conjE) (simp_all add: xa_do_join)
  then show ?thesis
    using assms(1)
    by (simp add: calls_def rs_start_def cooperative_def entry_called run_called act_bind_def act_ret_def)
qed

lemma commit_calls:
  assumes "cooperative e"
  shows "calls Op_commit (xid_of t) flags (\<lambda>_ c. to_tx c = Tx_ok) (\<lambda>r. rs_commit e r t flags)"
proof -
  have "ce_xa e l rm Op_commit t flags \<noteq> Xa_resource_fail" for l rm
    using assms not_failed unfolding cooperative_def by blast
  then show ?thesis
    using assms by (simp add: calls_def rs_commit_def cooperative_def entry_called run_called)
qed

lemma rollback_calls:
  assumes "cooperative e"
  shows "calls Op_rollback (xid_of t) flags (\<lambda>_ c. to_tx c = Tx_ok) (\<lambda>r. rs_rollback e r t flags)"
proof -
  have "ce_xa e l rm Op_rollback t flags \<noteq> Xa_resource_fail" for l rm
    using assms not_failed unfolding cooperative_def by blast
  then show ?thesis
    using assms by (simp add: calls_def rs_rollback_def cooperative_def entry_called run_called)
qed

section \<open>What the operations on resources do to the views\<close>

definition views :: "ctx \<Rightarrow> xid option \<Rightarrow> xid set \<Rightarrow> bool" where
  "views s a S \<longleftrightarrow> list_all (\<lambda>r. xa_associations (rs_id r) (cx_log s) = Some (a, S)) (cx_fixed s)"

text \<open>The same with the branch that was ended last.\<close>

definition viewed :: "ctx \<Rightarrow> xid option \<Rightarrow> xid set \<Rightarrow> xid option \<Rightarrow> bool" where
  "viewed s a S b \<longleftrightarrow> list_all (\<lambda>r. xa_run (rs_id r) (cx_log s) = Some (a, S, b)) (cx_fixed s)"

lemma viewed_views: "viewed s a S b \<Longrightarrow> views s a S"
  by (simp add: viewed_def views_def list_all_iff xa_associations_def)

definition resources_ok :: "ctx \<Rightarrow> bool" where
  "resources_ok s \<longleftrightarrow> cx_all s = cx_dynamic s @ cx_fixed s \<and> distinct (map rs_id (cx_all s))"

lemma resources_okD:
  assumes "resources_ok s"
  shows "distinct (map rs_id (cx_fixed s))" "distinct (map rs_id (filter p (cx_dynamic s)))"
    "r \<in> set (cx_fixed s) \<Longrightarrow> rs_id r \<notin> set (map rs_id (filter p (cx_dynamic s)))"
proof -
  have d: "distinct (map rs_id (cx_dynamic s) @ map rs_id (cx_fixed s))"
    using assms unfolding resources_ok_def by (metis map_append)
  then show "distinct (map rs_id (cx_fixed s))" "distinct (map rs_id (filter p (cx_dynamic s)))"
    by (simp_all add: distinct_map_filter)
  show "r \<in> set (cx_fixed s) \<Longrightarrow> rs_id r \<notin> set (map rs_id (filter p (cx_dynamic s)))"
    using d by (auto simp: distinct_append)
qed

lemma only_log_resources: "only_log s s' \<Longrightarrow> resources_ok s' = resources_ok s"
  by (simp add: resources_ok_def only_log_fields)

lemma views_event:
  "(\<And>k v. xa_step k ev v = v) \<Longrightarrow> views (cx_event ev s) a S = views s a S"
  by (simp add: views_def cx_event_def xa_run_append xa_associations_def)

lemma views_cong: "cx_log s' = cx_log s \<Longrightarrow> cx_fixed s' = cx_fixed s \<Longrightarrow> views s' a S = views s a S"
  by (simp add: views_def)

text \<open>One call of every fixed resource.\<close>

lemma views_each:
  assumes "calls op x flags P f" and ok: "resources_ok s" and v: "views s a S"
    and acc: "\<And>b. xa_accept op x flags Xa_ok (a, S, b) = Some (a', S', b')"
  shows "\<exists>ys s'. act_each f (cx_fixed s) s = (Inr ys, s') \<and> list_all2 P (cx_fixed s) ys \<and> only_log s s' \<and> viewed s' a' S' b'"
proof -
  obtain ys s' where r: "act_each f (cx_fixed s) s = (Inr ys, s')" "list_all2 P (cx_fixed s) ys" "only_log s s'"
    "\<forall>k. xa_run k (cx_log s') =
      (if k \<in> set (map rs_id (cx_fixed s)) then xa_do op x flags (xa_run k (cx_log s)) else xa_run k (cx_log s))"
    using calls_each [OF assms(1) resources_okD(1) [OF ok]] by blast
  have "viewed s' a' S' b'"
    using r(4) v acc
    by (auto simp: views_def viewed_def list_all_iff only_log_fields [OF r(3)] xa_do_def xa_associations_Some)
  then show ?thesis using r by blast
qed

lemma views_dynamic:
  assumes "calls op x flags P f" and ok: "resources_ok s" and v: "viewed s a S b"
  shows "\<exists>ys s'. act_each f (filter p (cx_dynamic s)) s = (Inr ys, s') \<and> only_log s s' \<and> viewed s' a S b"
proof -
  obtain ys s' where r: "act_each f (filter p (cx_dynamic s)) s = (Inr ys, s')" "only_log s s'"
    "\<forall>k. xa_run k (cx_log s') = (if k \<in> set (map rs_id (filter p (cx_dynamic s)))
       then xa_do op x flags (xa_run k (cx_log s)) else xa_run k (cx_log s))"
    using calls_each [OF assms(1) resources_okD(2) [OF ok]] by blast
  have "viewed s' a S b"
    using r(3) v resources_okD(3) [OF ok] by (auto simp: viewed_def list_all_iff only_log_fields [OF r(2)])
  then show ?thesis using r by blast
qed

lemma resources_end_viewed:
  assumes e: "cooperative e" and ok: "resources_ok s" and t: "\<not> trid_null (ct_trid t)" and v: "views s a S"
    and acc: "\<And>b. xa_accept Op_end (xid_of (ct_trid t)) flags Xa_ok (a, S, b) = Some (a', S', b')"
  shows "\<exists>s'. resources_end e t flags s = (Inr (), s') \<and> only_log s s' \<and> viewed s' a' S' b'"
proof -
  obtain ys s1 where s1: "act_each (\<lambda>r. rs_end e r (ct_trid t) flags) (cx_fixed s) s = (Inr ys, s1)"
    "only_log s s1" "viewed s1 a' S' b'"
    using views_each [OF end_calls [OF e] ok v acc] by blast
  then obtain zs s' where s': "act_each (\<lambda>r. rs_end e r (ct_trid t) flags)
      (filter (\<lambda>r. rs_id r \<in> set (ct_dynamic t)) (cx_dynamic s1)) s1 = (Inr zs, s')" "only_log s1 s'" "viewed s' a' S' b'"
    using views_dynamic [OF end_calls [OF e], of s1] ok only_log_resources [OF s1(2)] by blast
  have "resources_end e t flags s = (Inr (), s')"
    using t s1(1) s'(1) only_log_fields(6) [OF s1(2)]
    by (simp add: resources_end_def act_defs)
  then show ?thesis using only_log_trans [OF s1(2) s'(2)] s'(3) by blast
qed

lemma resources_end_views:
  assumes "cooperative e" and "resources_ok s" and "\<not> trid_null (ct_trid t)" and "views s a S"
    and "\<And>b. xa_accept Op_end (xid_of (ct_trid t)) flags Xa_ok (a, S, b) = Some (a', S', b')"
  shows "\<exists>s'. resources_end e t flags s = (Inr (), s') \<and> only_log s s' \<and> views s' a' S'"
  using resources_end_viewed [OF assms] viewed_views by blast

lemma tm_involved_views:
  assumes "cooperative e"
  shows "\<exists>known s'. tm_involved e t rms s = (Inr known, s') \<and> only_log s s' \<and> views s' a S = views s a S"
proof -
  obtain known where "ce_involved e (cx_log s) t rms = Some known"
    using assms unfolding cooperative_def by blast
  then show ?thesis
    by (cases "rms = []") (simp_all add: tm_involved_def act_defs act_state_def views_event)
qed

lemma start_results:
  "list_all2 (\<lambda>r y. y = (r, Xa_ok)) rs ys \<Longrightarrow> filter (\<lambda>x. snd x \<noteq> Xa_ok) ys = []"
  by (induction rule: list_all2_induct) auto

lemma calls_pair:
  "calls op x flags P f \<Longrightarrow> calls op x flags (\<lambda>r y. \<exists>c. y = h r c \<and> P r c) (\<lambda>r. act_bind (f r) (\<lambda>c. act_ret (h r c)))"
  unfolding calls_def
proof (intro allI)
  fix r s
  assume "\<forall>r s. \<exists>y s'. f r s = (Inr y, s') \<and> P r y \<and> only_log s s' \<and>
     (\<forall>k. xa_run k (cx_log s') = (if rs_id r = k then xa_do op x flags (xa_run k (cx_log s)) else xa_run k (cx_log s)))"
  then obtain y s' where "f r s = (Inr y, s')" "P r y" "only_log s s'"
    "\<forall>k. xa_run k (cx_log s') = (if rs_id r = k then xa_do op x flags (xa_run k (cx_log s)) else xa_run k (cx_log s))"
    by blast
  then show "\<exists>y s'. act_bind (f r) (\<lambda>c. act_ret (h r c)) s = (Inr y, s') \<and> (\<exists>c. y = h r c \<and> P r c) \<and> only_log s s' \<and>
     (\<forall>k. xa_run k (cx_log s') = (if rs_id r = k then xa_do op x flags (xa_run k (cx_log s)) else xa_run k (cx_log s)))"
    by (intro exI [where x = "h r y"] exI [where x = s']) (auto simp: act_bind_def act_ret_def)
qed

lemma resources_start_views:
  assumes e: "cooperative e" and ok: "resources_ok s" and t: "\<not> trid_null (ct_trid t)" and v: "views s None S"
    and mode: "Flag_resume \<in> flags \<longleftrightarrow> xid_of (ct_trid t) \<in> S" and join: "Flag_join \<notin> flags"
  shows "\<exists>s'. resources_start e t flags s = (Inr (ct_involve (map rs_id (cx_fixed s)) t), s') \<and> only_log s s'
    \<and> views s' (Some (xid_of (ct_trid t))) (S - {xid_of (ct_trid t)})"
proof -
  let ?known = "if ct_local (ce_self e) t then act_ret (ct_involved t) else tm_involved e (ct_trid t) (map rs_id (cx_fixed s))"
  obtain known s1 where k: "?known s = (Inr known, s1)" "only_log s s1" "views s1 None S"
  proof (cases "ct_local (ce_self e) t")
    case True
    then show ?thesis using that [of "ct_involved t" s] v by (simp add: act_ret_def)
  next
    case False
    then show ?thesis using tm_involved_views [OF e, of "ct_trid t" "map rs_id (cx_fixed s)" s None S] v that by auto
  qed
  let ?f = "\<lambda>r. act_bind (rs_start e r (ct_trid t) (join_flag flags known (rs_id r))) (\<lambda>code. act_ret (r, code))"
  have "calls Op_start (xid_of (ct_trid t)) flags (\<lambda>r y. \<exists>c. y = (r, c) \<and> c = Xa_ok) ?f"
    by (intro calls_pair start_calls [OF e]) (simp add: join_flag_def)
  moreover have "xa_accept Op_start (xid_of (ct_trid t)) flags Xa_ok (None, S, b)
      = Some (Some (xid_of (ct_trid t)), S - {xid_of (ct_trid t)}, None)" for b
    using mode join by simp
  ultimately obtain ys s' where r: "act_each ?f (cx_fixed s1) s1 = (Inr ys, s')"
    "list_all2 (\<lambda>r y. \<exists>c. y = (r, c) \<and> c = Xa_ok) (cx_fixed s1) ys" "only_log s1 s'"
    "viewed s' (Some (xid_of (ct_trid t))) (S - {xid_of (ct_trid t)}) None"
    using views_each [of _ _ flags _ ?f s1 None S] ok k(3) only_log_resources [OF k(2)] by blast
  have "filter (\<lambda>x. snd x \<noteq> Xa_ok) ys = []"
    by (rule start_results [of "cx_fixed s1"]) (use r(2) in simp)
  then have "resources_start e t flags s = (Inr (ct_involve (map rs_id (cx_fixed s)) t), s')"
    using t k(1) r(1) only_log_fields(7) [OF k(2)]
    by (simp add: resources_start_def check_results_def act_defs)
  then show ?thesis using only_log_trans [OF k(2) r(3)] viewed_views [OF r(4)] by blast
qed

lemma begin_results:
  assumes "list_all2 (\<lambda>r y. \<exists>c. y = (r, c \<in> {Xa_ok, Xa_read_only}) \<and> c = Xa_ok) rs ys"
  shows "map fst (filter snd ys) = rs" "filter (\<lambda>x. \<not> snd x) ys = []"
  using assms by (induction rule: list_all2_induct) auto

lemma begin_resources_views:
  assumes e: "cooperative e" and ok: "resources_ok s" and v: "views s None S" and x: "xid_of t \<notin> S"
  shows "\<exists>s'. begin_resources e t s = (Inr (), s') \<and> only_log s s' \<and> views s' (Some (xid_of t)) S"
proof -
  let ?f = "\<lambda>r. act_bind (rs_start e r t {}) (\<lambda>code. act_ret (r, code \<in> {Xa_ok, Xa_read_only}))"
  have "calls Op_start (xid_of t) {} (\<lambda>r y. \<exists>c. y = (r, c \<in> {Xa_ok, Xa_read_only}) \<and> c = Xa_ok) ?f"
    by (intro calls_pair start_calls [OF e]) simp
  moreover have "xa_accept Op_start (xid_of t) {} Xa_ok (None, S, b) = Some (Some (xid_of t), S, None)" for b
    using x by simp
  ultimately obtain ys s' where r: "act_each ?f (cx_fixed s) s = (Inr ys, s')"
    "list_all2 (\<lambda>r y. \<exists>c. y = (r, c \<in> {Xa_ok, Xa_read_only}) \<and> c = Xa_ok) (cx_fixed s) ys" "only_log s s'"
    "viewed s' (Some (xid_of t)) S None"
    using views_each [of _ _ "{}" _ ?f s None S] ok v by blast
  note parts = begin_results [OF r(2)]
  have "s'\<lparr>cx_fixed := cx_fixed s, cx_all := cx_dynamic s' @ cx_fixed s\<rparr> = s'"
    using ok only_log_fields [OF r(3)] by (cases s') (simp add: resources_ok_def)
  then have "begin_resources e t s = (Inr (), s')"
    using r(1) parts by (simp add: begin_resources_def act_defs Let_def)
  then show ?thesis using r(3) viewed_views [OF r(4)] by blast
qed

text \<open>The end of a branch, after which it can be committed or rolled back.\<close>

definition ended_branch :: "xa_op \<Rightarrow> xid \<Rightarrow> xid option \<Rightarrow> xid set \<Rightarrow> bool" where
  "ended_branch op x a S \<longleftrightarrow> op \<in> {Op_commit, Op_rollback} \<and> a \<noteq> Some x \<and> x \<notin> S"

lemma ended_branch_accept: "ended_branch op x a S \<Longrightarrow> xa_accept op x flags c (a, S, Some x) = Some (a, S, None)"
  by (auto simp: ended_branch_def)

lemma find_resource: "rm \<in> set (map rs_id rs) \<Longrightarrow> \<exists>r. List.find (\<lambda>r. rs_id r = rm) rs = Some r \<and> rs_id r = rm"
  by (induction rs) auto

lemma single_call_views:
  assumes c: "calls op x flags P f" and v: "views s a S" and x: "ended_branch op x a S"
    and b: "\<And>r'. r' \<in> set (cx_fixed s) \<Longrightarrow> rs_id r' = rs_id r \<Longrightarrow> xa_run (rs_id r) (cx_log s) = Some (a, S, Some x)"
  shows "\<exists>y s'. f r s = (Inr y, s') \<and> P r y \<and> only_log s s' \<and> views s' a S
    \<and> (\<forall>k. k \<noteq> rs_id r \<longrightarrow> xa_run k (cx_log s') = xa_run k (cx_log s))"
proof -
  obtain y s' where r: "f r s = (Inr y, s')" "P r y" "only_log s s'"
    "\<forall>k. xa_run k (cx_log s') = (if rs_id r = k then xa_do op x flags (xa_run k (cx_log s)) else xa_run k (cx_log s))"
    using c unfolding calls_def by blast
  have "xa_associations (rs_id q) (cx_log s') = Some (a, S)" if "q \<in> set (cx_fixed s)" for q
  proof (cases "rs_id r = rs_id q")
    case True
    then show ?thesis using r(4) b [OF that] ended_branch_accept [OF x] by (simp add: xa_associations_Some xa_do_def)
  next
    case False
    then show ?thesis using r(4) v that by (simp add: views_def list_all_iff xa_associations_def)
  qed
  then have "views s' a S" by (simp add: views_def list_all_iff only_log_fields [OF r(3)])
  then show ?thesis using r by (intro exI [where x = y] exI [where x = s']) simp
qed

lemma resource_commit_views:
  assumes e: "cooperative e" and v: "viewed s a S (Some (xid_of (ct_trid t)))" and rm: "rm \<in> set (map rs_id (cx_all s))"
    and x: "a \<noteq> Some (xid_of (ct_trid t))" "xid_of (ct_trid t) \<notin> S"
  shows "\<exists>s'. resource_commit e rm t flags s = (Inr (), s') \<and> only_log s s' \<and> views s' a S"
proof -
  obtain r where r: "List.find (\<lambda>r. rs_id r = rm) (cx_all s) = Some r" using find_resource [OF rm] by blast
  have "ended_branch Op_commit (xid_of (ct_trid t)) a S" using x by (simp add: ended_branch_def)
  moreover have "xa_run (rs_id r) (cx_log s) = Some (a, S, Some (xid_of (ct_trid t)))"
    if "r' \<in> set (cx_fixed s)" "rs_id r' = rs_id r" for r'
    using v that unfolding viewed_def list_all_iff by metis
  ultimately obtain c s' where "rs_commit e r (ct_trid t) flags s = (Inr c, s')" "to_tx c = Tx_ok" "only_log s s'" "views s' a S"
    using single_call_views [OF commit_calls [OF e] viewed_views [OF v]] by blast
  then show ?thesis using r by (simp add: resource_commit_def raise_if_not_ok_def act_defs)
qed

lemma resource_rollback_views:
  assumes e: "cooperative e" and v: "views s a S" and rm: "rm \<in> set (map rs_id (cx_all s))"
    and x: "a \<noteq> Some (xid_of (ct_trid t))" "xid_of (ct_trid t) \<notin> S"
    and b: "\<And>r. r \<in> set (cx_fixed s) \<Longrightarrow> rs_id r = rm \<Longrightarrow> xa_run rm (cx_log s) = Some (a, S, Some (xid_of (ct_trid t)))"
  shows "\<exists>s'. resource_rollback e rm t s = (Inr (), s') \<and> only_log s s' \<and> views s' a S
    \<and> (\<forall>k. k \<noteq> rm \<longrightarrow> xa_run k (cx_log s') = xa_run k (cx_log s))"
proof -
  obtain r where r: "List.find (\<lambda>r. rs_id r = rm) (cx_all s) = Some r" "rs_id r = rm" using find_resource [OF rm] by blast
  have "ended_branch Op_rollback (xid_of (ct_trid t)) a S" using x by (simp add: ended_branch_def)
  then obtain c s' where "rs_rollback e r (ct_trid t) {} s = (Inr c, s')" "to_tx c = Tx_ok" "only_log s s'" "views s' a S"
    "\<forall>k. k \<noteq> rs_id r \<longrightarrow> xa_run k (cx_log s') = xa_run k (cx_log s)"
    using single_call_views [OF rollback_calls [OF e] v, of "ct_trid t" r "{}"] b r(2) by blast
  then show ?thesis using r by (simp add: resource_rollback_def raise_if_not_ok_def act_defs)
qed

lemma resource_rollbacks_views:
  assumes e: "cooperative e" and x: "a \<noteq> Some (xid_of (ct_trid t))" "xid_of (ct_trid t) \<notin> S"
  shows "views s a S \<Longrightarrow> set rms \<subseteq> set (map rs_id (cx_all s)) \<Longrightarrow> distinct rms \<Longrightarrow>
    (\<And>r. r \<in> set (cx_fixed s) \<Longrightarrow> rs_id r \<in> set rms \<Longrightarrow> xa_run (rs_id r) (cx_log s) = Some (a, S, Some (xid_of (ct_trid t)))) \<Longrightarrow>
    \<exists>ys s'. act_each (\<lambda>rm. resource_rollback e rm t) rms s = (Inr ys, s') \<and> only_log s s' \<and> views s' a S"
proof (induction rms arbitrary: s)
  case Nil
  then show ?case by (simp add: act_ret_def)
next
  case (Cons rm rms)
  obtain s1 where s1: "resource_rollback e rm t s = (Inr (), s1)" "only_log s s1" "views s1 a S"
    "\<forall>k. k \<noteq> rm \<longrightarrow> xa_run k (cx_log s1) = xa_run k (cx_log s)"
  proof -
    have rm: "rm \<in> set (map rs_id (cx_all s))" using Cons.prems(2) by simp
    have "xa_run rm (cx_log s) = Some (a, S, Some (xid_of (ct_trid t)))" if "r \<in> set (cx_fixed s)" "rs_id r = rm" for r
      using Cons.prems(4) [OF that(1)] that(2) by simp
    then show ?thesis using that resource_rollback_views [OF e Cons.prems(1) rm x] by blast
  qed
  have "xa_run (rs_id r) (cx_log s1) = Some (a, S, Some (xid_of (ct_trid t)))"
    if "r \<in> set (cx_fixed s1)" "rs_id r \<in> set rms" for r
    using that s1(4) Cons.prems(3,4) only_log_fields(7) [OF s1(2)] by (metis distinct.simps(2) list.set_intros(2))
  then obtain ys s' where s': "act_each (\<lambda>rm. resource_rollback e rm t) rms s1 = (Inr ys, s')" "only_log s1 s'" "views s' a S"
    using Cons.IH [of s1] Cons.prems s1 only_log_fields(5) [OF s1(2)] by auto
  then show ?case
    using s1 only_log_trans [OF s1(2) s'(2)] by (auto simp: act_bind_def act_ret_def)
qed

section \<open>Commit and rollback of a transaction that holds the resources\<close>

text \<open>The transaction is the active or a suspended one of every fixed resource; then it is released.\<close>

definition holds :: "xid \<Rightarrow> xid option \<Rightarrow> xid set \<Rightarrow> bool" where
  "holds x a S \<longleftrightarrow> (a = Some x) \<noteq> (x \<in> S)"

definition freed :: "xid \<Rightarrow> xid option \<Rightarrow> xid option" where
  "freed x a = (if a = Some x then None else a)"

lemma end_frees: "holds x a S \<Longrightarrow> xa_accept Op_end x {Flag_success} Xa_ok (a, S, b) = Some (freed x a, S - {x}, Some x)"
  by (auto simp: holds_def freed_def)

lemma freed_not [simp]: "freed x a \<noteq> Some x"
  by (simp add: freed_def)

lemma commit_transaction_views:
  assumes e: "cooperative e" and ok: "resources_ok s" and v: "views s a S"
    and x: "holds (xid_of (ct_trid t)) a S" and inv: "set (ct_involved t) \<subseteq> set (map rs_id (cx_all s))"
  shows "((trid_null (ct_trid t) \<or> towner (ct_trid t) \<noteq> ce_self e \<or> ct_state t \<noteq> Trans_active \<or> ct_pending t \<noteq> [])
      \<and> (\<exists>c. commit_transaction e t s = (Inl c, s))) \<or>
    (\<exists>s'. only_log s s' \<and> views s' (freed (xid_of (ct_trid t)) a) (S - {xid_of (ct_trid t)}) \<and>
      (commit_transaction e t s = (Inr (), s')
       \<or> commit_transaction e t s = act_then (pop_transaction e) (act_raise (Tx_raised Tx_rollback)) s'))"
proof (cases "trid_null (ct_trid t) \<or> towner (ct_trid t) \<noteq> ce_self e \<or> ct_state t \<noteq> Trans_active \<or> ct_pending t \<noteq> []")
  case True
  then show ?thesis by (auto simp: commit_transaction_def act_raise_def)
next
  case False
  let ?x = "xid_of (ct_trid t)"
  obtain s1 where s1: "resources_end e t {Flag_success} s = (Inr (), s1)" "only_log s s1"
    "viewed s1 (freed ?x a) (S - {?x}) (Some ?x)"
    using resources_end_viewed [OF e ok _ v end_frees [OF x]] False by blast
  have ok1: "resources_ok s1" using ok only_log_resources [OF s1(2)] by simp
  have run: "commit_transaction e t s =
      (if ct_local (ce_self e) t \<and> length (ct_involved t) + length (cx_fixed s1) \<le> 1
       then (if ct_involved t \<noteq> [] then resource_commit e (hd (ct_involved t)) t {Flag_one_phase}
             else if cx_fixed s1 \<noteq> [] then resource_commit e (rs_id (hd (cx_fixed s1))) t {Flag_one_phase}
             else act_ret ())
       else commit_distributed e t) s1"
    using False s1(1) by (simp add: commit_transaction_def act_defs)
  have "\<exists>s'. only_log s1 s' \<and> views s' (freed ?x a) (S - {?x}) \<and>
      (commit_transaction e t s = (Inr (), s')
       \<or> commit_transaction e t s = act_then (pop_transaction e) (act_raise (Tx_raised Tx_rollback)) s')"
  proof (cases "ct_local (ce_self e) t \<and> length (ct_involved t) + length (cx_fixed s1) \<le> 1")
    case True
    have c: "\<exists>s'. resource_commit e rm t {Flag_one_phase} s1 = (Inr (), s') \<and> only_log s1 s' \<and> views s' (freed ?x a) (S - {?x})"
      if "rm \<in> set (map rs_id (cx_all s1))" for rm
      using resource_commit_views [OF e s1(3) that] by simp
    have "hd (ct_involved t) \<in> set (map rs_id (cx_all s1))" if "ct_involved t \<noteq> []"
      using that inv only_log_fields(5) [OF s1(2)] hd_in_set by fastforce
    moreover have "rs_id (hd (cx_fixed s1)) \<in> set (map rs_id (cx_all s1))" if "cx_fixed s1 \<noteq> []"
      using that ok1 by (auto simp: resources_ok_def)
    moreover have "\<exists>s'. act_ret () s1 = (Inr (), s') \<and> only_log s1 s' \<and> views s' (freed ?x a) (S - {?x})"
      using viewed_views [OF s1(3)] by (simp add: act_ret_def)
    ultimately have "\<exists>s'. commit_transaction e t s = (Inr (), s') \<and> only_log s1 s' \<and> views s' (freed ?x a) (S - {?x})"
      unfolding run if_P [OF True] using c by (cases "ct_involved t = []"; cases "cx_fixed s1 = []") simp_all
    then show ?thesis by blast
  next
    case False
    let ?s2 = "cx_event (Tm_commit (ct_trid t) (ct_involved t)) s1"
    have "case ce_commit e (cx_log s1) (ct_trid t) (ct_involved t) of None \<Rightarrow> False
        | Some (stage, code) \<Rightarrow> stage = Stage_rollback \<or> code = Tx_ok"
      using e unfolding cooperative_def by blast
    then obtain stage code where reply: "ce_commit e (cx_log s1) (ct_trid t) (ct_involved t) = Some (stage, code)"
      "stage = Stage_rollback \<or> code = Tx_ok"
      by (auto split: option.splits prod.splits)
    have v2: "views (cx_event (Tm_commit (ct_trid t) (ct_involved t)) s1) (freed ?x a) (S - {?x})"
      using viewed_views [OF s1(3)] by (simp add: views_event)
    have second: "ce_second e l t' = Tx_ok" for l t' using e by (simp add: cooperative_def)
    have "commit_distributed e t s1 = (Inr (), ?s2) \<or>
        commit_distributed e t s1 = (Inr (), cx_event (Discarded_reply (ct_trid t)) ?s2) \<or>
        commit_distributed e t s1 = (Inr (), cx_event (Second_reply (ct_trid t)) ?s2) \<or>
        commit_distributed e t s1 = act_then (pop_transaction e) (act_raise (Tx_raised Tx_rollback)) ?s2"
      using reply second
      by (cases stage)
        (auto simp: commit_distributed_def act_defs act_state_def raise_if_not_ok_def split: commit_return.split)
    moreover have "only_log s1 ?s2" "only_log s1 (cx_event ev ?s2)" for ev
      by simp (rule only_log_trans [of _ ?s2], simp_all)
    moreover have "views (cx_event (Discarded_reply (ct_trid t)) ?s2) (freed ?x a) (S - {?x})"
      "views (cx_event (Second_reply (ct_trid t)) ?s2) (freed ?x a) (S - {?x})"
      using v2 by (simp_all add: views_event)
    moreover have "commit_transaction e t s = commit_distributed e t s1" unfolding run if_not_P [OF False] ..
    ultimately show ?thesis using v2 by metis
  qed
  then show ?thesis using only_log_trans [OF s1(2)] by blast
qed

lemma sorted_adj_distinct: "sorted (xs :: int list) \<Longrightarrow> distinct (remdups_adj xs)"
  by (induction xs rule: remdups_adj.induct) (auto simp: order_le_less)

lemma rollback_transaction_views:
  assumes e: "cooperative e" and ok: "resources_ok s" and v: "views s a S"
    and x: "holds (xid_of (ct_trid t)) a S" and inv: "set (ct_involved t) \<subseteq> set (map rs_id (cx_all s))"
  shows "(\<exists>c. (trid_null (ct_trid t) \<or> towner (ct_trid t) \<noteq> ce_self e) \<and> rollback_transaction e t s = (Inl c, s)) \<or>
    (\<exists>s'. rollback_transaction e t s = (Inr (), s') \<and> only_log s s'
       \<and> views s' (freed (xid_of (ct_trid t)) a) (S - {xid_of (ct_trid t)}))"
proof (cases "trid_null (ct_trid t) \<or> towner (ct_trid t) \<noteq> ce_self e")
  case True
  then show ?thesis by (auto simp: rollback_transaction_def act_raise_def)
next
  case False
  let ?x = "xid_of (ct_trid t)" and ?rms = "remdups_adj (sort (ct_involved t @ map rs_id (cx_fixed s)))"
  obtain s1 where s1: "resources_end e t {Flag_success} s = (Inr (), s1)" "only_log s s1"
    "viewed s1 (freed ?x a) (S - {?x}) (Some ?x)"
    using resources_end_viewed [OF e ok _ v end_frees [OF x]] False by blast
  have ok1: "resources_ok s1" using ok only_log_resources [OF s1(2)] by simp
  show ?thesis
  proof (cases "ct_local (ce_self e) t")
    case True
    have distinct: "distinct ?rms" by (rule sorted_adj_distinct) simp
    have "set ?rms \<subseteq> set (map rs_id (cx_all s1))"
      using inv ok1 only_log_fields [OF s1(2)] by (auto simp: resources_ok_def)
    moreover have "xa_run (rs_id r) (cx_log s1) = Some (freed ?x a, S - {?x}, Some ?x)" if "r \<in> set (cx_fixed s1)" for r
      using s1(3) that by (simp add: viewed_def list_all_iff)
    ultimately obtain ys s' where "act_each (\<lambda>rm. resource_rollback e rm t) ?rms s1 = (Inr ys, s')" "only_log s1 s'"
      "views s' (freed ?x a) (S - {?x})"
      using resource_rollbacks_views [OF e freed_not _ viewed_views [OF s1(3)] _ distinct] by (metis Diff_iff insertI1)
    then show ?thesis
      using False True s1 only_log_fields [OF s1(2)] only_log_trans [OF s1(2)]
      by (auto simp: rollback_transaction_def act_defs)
  next
    case remote: False
    have "ce_rollback e (cx_log s1) (ct_trid t) (ct_involved t) = Some Tx_ok" using e by (simp add: cooperative_def)
    then have "rollback_transaction e t s = (Inr (), cx_event (Tm_rollback (ct_trid t) (ct_involved t)) s1)"
      using False remote s1(1) by (simp add: rollback_transaction_def act_defs act_state_def raise_if_not_ok_def)
    then show ?thesis using viewed_views [OF s1(3)] only_log_trans [OF s1(2)] by (auto simp: views_event)
  qed
qed

end
