(* ===== verification/CtxInvariant.thy ===== *)
theory CtxInvariant
  imports CtxLegal
begin

text \<open>
  The invariant of a transaction context in a cooperative world: every fixed resource is associated
  with the transaction that is active, its associations with the suspended ones are suspended, and
  it has no other. Every operation keeps it while the control is not \<open>TX_STACKED\<close>.
\<close>

section \<open>The invariant\<close>

definition live :: "ctx_transaction \<Rightarrow> bool" where
  "live t \<longleftrightarrow> \<not> trid_null (ct_trid t) \<and> \<not> ct_suspended t"

definition ct_xid :: "ctx_transaction \<Rightarrow> xid" where
  "ct_xid t = xid_of (ct_trid t)"

definition active_of :: "ctx_transaction list \<Rightarrow> xid option" where
  "active_of ts = (case filter live ts of [] \<Rightarrow> None | t # _ \<Rightarrow> Some (ct_xid t))"

definition suspended_of :: "ctx_transaction list \<Rightarrow> xid set" where
  "suspended_of ts = ct_xid ` set (filter ct_suspended ts)"

definition stack_ok :: "int set \<Rightarrow> ctx_transaction list \<Rightarrow> bool" where
  "stack_ok rms ts \<longleftrightarrow> list_all (\<lambda>t. \<not> live t) (butlast ts) \<and> list_all (\<lambda>t. ct_suspended t \<longrightarrow> \<not> trid_null (ct_trid t)) ts
     \<and> distinct (map ct_xid (filter (\<lambda>t. \<not> trid_null (ct_trid t)) ts)) \<and> list_all (\<lambda>t. set (ct_involved t) \<subseteq> rms) ts"

definition foreign :: "handle \<Rightarrow> ctx_transaction \<Rightarrow> bool" where
  "foreign self t \<longleftrightarrow> \<not> trid_null (ct_trid t) \<and> towner (ct_trid t) \<noteq> self"

definition ctx_ok :: "handle \<Rightarrow> ctx \<Rightarrow> bool" where
  "ctx_ok self s \<longleftrightarrow> resources_ok s \<and> trid_null (ct_trid (cx_empty s)) \<and> cx_control s \<noteq> Stacked
     \<and> stack_ok (rs_id ` set (cx_all s)) (cx_transactions s) \<and> length (filter (foreign self) (cx_transactions s)) \<le> 1
     \<and> views s (active_of (cx_transactions s)) (suspended_of (cx_transactions s))"

lemma ctx_okD:
  assumes "ctx_ok self s"
  shows "resources_ok s" "trid_null (ct_trid (cx_empty s))" "cx_control s \<noteq> Stacked"
    "stack_ok (rs_id ` set (cx_all s)) (cx_transactions s)" "length (filter (foreign self) (cx_transactions s)) \<le> 1"
    "views s (active_of (cx_transactions s)) (suspended_of (cx_transactions s))"
  using assms by (simp_all add: ctx_ok_def)

lemma xid_null: "xid_of t = xid_of u \<Longrightarrow> trid_null t = trid_null u"
  by (simp add: xid_of_def trid_null_def)

lemma resources_ok_cong:
  "cx_all s' = cx_all s \<Longrightarrow> cx_dynamic s' = cx_dynamic s \<Longrightarrow> cx_fixed s' = cx_fixed s \<Longrightarrow> resources_ok s' = resources_ok s"
  unfolding resources_ok_def by (rule arg_cong2 [where f = "(\<and>)"]) simp_all

text \<open>The last transaction and the ones below it.\<close>

lemma stack_last:
  assumes "stack_ok rms (us @ [t])"
  shows "stack_ok rms us" "active_of us = None" "active_of (us @ [t]) = (if live t then Some (ct_xid t) else None)"
    "suspended_of (us @ [t]) = suspended_of us \<union> (if ct_suspended t then {ct_xid t} else {})"
    "\<not> trid_null (ct_trid t) \<Longrightarrow> ct_xid t \<notin> suspended_of us" "set (ct_involved t) \<subseteq> rms"
proof -
  have none: "filter live us = []" using assms by (simp add: stack_ok_def filter_empty_conv list_all_iff)
  then show "active_of us = None" "active_of (us @ [t]) = (if live t then Some (ct_xid t) else None)"
    by (simp_all add: active_of_def)
  show "stack_ok rms us" using assms by (auto simp: stack_ok_def list_all_iff dest: in_set_butlastD)
  show "suspended_of (us @ [t]) = suspended_of us \<union> (if ct_suspended t then {ct_xid t} else {})"
    by (auto simp: suspended_of_def)
  show "set (ct_involved t) \<subseteq> rms" using assms by (simp add: stack_ok_def)
  assume "\<not> trid_null (ct_trid t)"
  then show "ct_xid t \<notin> suspended_of us"
    using assms by (auto simp: stack_ok_def suspended_of_def list_all_iff)
qed

lemma stack_push:
  assumes "stack_ok rms us" and "active_of us = None" and "set (ct_involved t) \<subseteq> rms"
    and "ct_suspended t \<Longrightarrow> \<not> trid_null (ct_trid t)"
    and "\<not> trid_null (ct_trid t) \<Longrightarrow> ct_xid t \<notin> ct_xid ` set us"
  shows "stack_ok rms (us @ [t])"
proof -
  have "filter live us = []" using assms(2) by (simp add: active_of_def split: list.splits)
  then show ?thesis using assms(1,3-5) by (auto simp: stack_ok_def list_all_iff filter_empty_conv)
qed

lemma current_cases:
  assumes "ctx_ok self s"
  obtains (null) "trid_null (ct_trid (cx_current s))" "active_of (cx_transactions s) = None"
  | (live) us t where "cx_transactions s = us @ [t]" "cx_current s = t" "live t" "in_transaction_mode s"
proof (cases "trid_null (ct_trid (cx_current s))")
  case True
  have "active_of (cx_transactions s) = None"
  proof (cases "cx_transactions s" rule: rev_cases)
    case (snoc us t)
    then have "\<not> live t" using True by (auto simp: cx_current_def in_transaction_mode_def live_def split: if_splits)
    then show ?thesis using stack_last(3) ctx_okD(4) [OF assms] snoc by simp
  qed (simp add: active_of_def)
  then show ?thesis using True null by blast
next
  case False
  then have m: "in_transaction_mode s" using ctx_okD(2) [OF assms] by (auto simp: cx_current_def split: if_splits)
  then obtain us t where "cx_transactions s = us @ [t]" unfolding in_transaction_mode_def by (metis append_butlast_last_id)
  then show ?thesis using False m live [of us t] by (simp add: cx_current_def live_def in_transaction_mode_def)
qed

text \<open>The invariant in the state without the last transaction, once its resources are released.\<close>

lemma ctx_ok_popped:
  assumes ok: "ctx_ok self s" and ts: "cx_transactions s = us @ [t]" and l: "only_log s s'"
    and v: "views s' None (suspended_of us)"
  shows "ctx_ok self (s'\<lparr>cx_transactions := us\<rparr>)"
proof -
  have stack: "stack_ok (rs_id ` set (cx_all s)) (us @ [t])" using ctx_okD(4) [OF ok] ts by simp
  note f = only_log_fields [OF l]
  have "resources_ok (s'\<lparr>cx_transactions := us\<rparr>)"
    using ctx_okD(1) [OF ok] resources_ok_cong [of "s'\<lparr>cx_transactions := us\<rparr>" s] by (simp add: f)
  moreover have "views (s'\<lparr>cx_transactions := us\<rparr>) None (suspended_of us)" using v by (simp add: views_def)
  moreover have "length (filter (foreign self) us) \<le> 1" using ctx_okD(5) [OF ok] ts by (auto split: if_splits)
  ultimately show ?thesis
    using ok stack_last(1,2) [OF stack] by (simp add: ctx_ok_def f)
qed

text \<open>A state with the same transactions, up to what the invariant does not look at.\<close>

lemma same_transactions:
  assumes "map (\<lambda>t. (ct_trid t, ct_suspended t)) ts' = map (\<lambda>t. (ct_trid t, ct_suspended t)) ts"
  shows "active_of ts' = active_of ts" "suspended_of ts' = suspended_of ts"
    "length (filter (foreign self) ts') = length (filter (foreign self) ts)"
    "list_all (\<lambda>t. set (ct_involved t) \<subseteq> rms) ts' \<Longrightarrow> stack_ok rms ts \<Longrightarrow> stack_ok rms ts'"
proof -
  have rel: "list_all2 (\<lambda>a b. ct_trid a = ct_trid b \<and> ct_suspended a = ct_suspended b) ts' ts"
    using assms [folded list.rel_eq] by (simp add: list.rel_map)
  show "active_of ts' = active_of ts"
    using rel unfolding active_of_def
    by (induction rule: list_all2_induct) (auto simp: live_def ct_xid_def split: list.splits)
  show "suspended_of ts' = suspended_of ts"
    using rel unfolding suspended_of_def by (induction rule: list_all2_induct) (auto simp: ct_xid_def)
  show "length (filter (foreign self) ts') = length (filter (foreign self) ts)"
    using rel by (induction rule: list_all2_induct) (auto simp: foreign_def)
  assume inv: "list_all (\<lambda>t. set (ct_involved t) \<subseteq> rms) ts'" and ok: "stack_ok rms ts"
  have "map ct_xid (filter (\<lambda>t. \<not> trid_null (ct_trid t)) ts') = map ct_xid (filter (\<lambda>t. \<not> trid_null (ct_trid t)) ts)"
    using rel by (induction rule: list_all2_induct) (auto simp: ct_xid_def)
  moreover have "list_all (\<lambda>t. ct_suspended t \<longrightarrow> \<not> trid_null (ct_trid t)) ts'"
    using rel ok by (auto simp: stack_ok_def list_all_length list_all2_conv_all_nth)
  moreover have "list_all (\<lambda>t. \<not> live t) (butlast ts')"
    using rel ok by (auto simp: stack_ok_def list_all_length list_all2_conv_all_nth live_def nth_butlast)
  ultimately show "stack_ok rms ts'" using inv ok by (simp add: stack_ok_def)
qed

lemma ctx_ok_same:
  assumes ok: "ctx_ok self s"
    and ts: "map (\<lambda>t. (ct_trid t, ct_suspended t)) (cx_transactions s') = map (\<lambda>t. (ct_trid t, ct_suspended t)) (cx_transactions s)"
    and inv: "list_all (\<lambda>t. set (ct_involved t) \<subseteq> rs_id ` set (cx_all s)) (cx_transactions s')"
    and f: "cx_all s' = cx_all s" "cx_dynamic s' = cx_dynamic s" "cx_fixed s' = cx_fixed s"
      "trid_null (ct_trid (cx_empty s'))" "cx_control s' \<noteq> Stacked"
    and log: "\<And>k. xa_run k (cx_log s') = xa_run k (cx_log s)"
  shows "ctx_ok self s'"
proof -
  have "views s' (active_of (cx_transactions s)) (suspended_of (cx_transactions s))"
    using ctx_okD(6) [OF ok] log f(3) by (simp add: views_def xa_associations_def)
  then show ?thesis
    using ok same_transactions [OF ts] inv resources_ok_cong [OF f(1-3)] f(4,5) unfolding ctx_ok_def f(1) by simp
qed

end
