(* ===== verification/CtxKeeps.thy ===== *)
theory CtxKeeps
  imports CtxInvariant
begin

text \<open>
  The operations of the transaction context keep its invariant in a cooperative world.
\<close>

section \<open>Begin, commit and rollback\<close>

text \<open>The new id is not one of the ids of the context's transactions.\<close>

definition fresh_id :: "ctx_env \<Rightarrow> ctx \<Rightarrow> bool" where
  "fresh_id e s \<longleftrightarrow> ce_gtrid e \<notin> gtrid ` ct_trid ` set (cx_transactions s)"

definition good_env :: "handle \<Rightarrow> ctx_env \<Rightarrow> bool" where
  "good_env self e \<longleftrightarrow> cooperative e \<and> ce_self e = self"

lemma start_transaction_fields [simp]:
  "\<not> trid_null (ct_trid (start_transaction e timeout))" "ct_suspended (start_transaction e timeout) = False"
  "ct_involved (start_transaction e timeout) = []" "live (start_transaction e timeout)"
  "towner (ct_trid (start_transaction e timeout)) = ce_self e"
  "ct_xid (start_transaction e timeout) = (42, ce_gtrid e, ce_bqual e)"
  "xid_of (ct_trid (start_transaction e timeout)) = (42, ce_gtrid e, ce_bqual e)"
  by (simp_all add: start_transaction_def new_transaction_def trid_null_def live_def ct_xid_def xid_of_def)

lemma fresh_xid: "fresh_id e s \<Longrightarrow> (f, ce_gtrid e, b) \<notin> ct_xid ` set (cx_transactions s)"
  by (auto simp: fresh_id_def ct_xid_def xid_of_def)

text \<open>A transaction is pushed whose resources have just started.\<close>

lemma ctx_ok_pushed:
  assumes ok: "ctx_ok self s" and none: "active_of (cx_transactions s) = None" and l: "only_log s s'"
    and t: "live t" "ct_xid t \<notin> ct_xid ` set (cx_transactions s)" "set (ct_involved t) \<subseteq> rs_id ` set (cx_all s)"
    and foreign: "foreign self t \<Longrightarrow> cx_transactions s = []"
    and v: "views s' (Some (ct_xid t)) (suspended_of (cx_transactions s))"
  shows "ctx_ok self (s'\<lparr>cx_transactions := cx_transactions s @ [t]\<rparr>)"
proof -
  note f = only_log_fields [OF l]
  let ?s = "s'\<lparr>cx_transactions := cx_transactions s @ [t]\<rparr>"
  have stack: "stack_ok (rs_id ` set (cx_all s)) (cx_transactions s @ [t])"
    by (rule stack_push [OF ctx_okD(4) [OF ok] none t(3)]) (use t(1,2) in \<open>auto simp: live_def\<close>)
  note last = stack_last(3,4) [OF stack]
  have "resources_ok ?s"
    using ctx_okD(1) [OF ok] resources_ok_cong [of ?s s] by (simp add: f)
  moreover have "length (filter (foreign self) (cx_transactions s @ [t])) \<le> 1"
    using ctx_okD(5) [OF ok] foreign by auto
  moreover have "views ?s (active_of (cx_transactions s @ [t])) (suspended_of (cx_transactions s @ [t]))"
    using v t(1) by (simp add: views_def last live_def)
  ultimately show ?thesis
    using ok stack by (simp add: ctx_ok_def f)
qed

lemma begin_ok:
  assumes ok: "ctx_ok self s" and e: "good_env self e" and fresh: "fresh_id e s"
  shows "ctx_ok self (snd (cx_begin e s))"
  using ok
proof (cases rule: current_cases)
  case null
  show ?thesis
  proof (cases "ct_dynamic (cx_current s) = []")
    case True
    let ?t = "start_transaction e (cx_timeout s)"
    have coop: "cooperative e" using e by (simp add: good_env_def)
    have x: "ct_xid ?t \<notin> ct_xid ` set (cx_transactions s)" using fresh_xid [OF fresh, of 42] by simp
    then have "xid_of (ct_trid ?t) \<notin> suspended_of (cx_transactions s)" by (auto simp: suspended_of_def ct_xid_def)
    then obtain s' where s': "begin_resources e (ct_trid ?t) s = (Inr (), s')" "only_log s s'"
      "views s' (Some (xid_of (ct_trid ?t))) (suspended_of (cx_transactions s))"
      using begin_resources_views [OF coop ctx_okD(1) [OF ok]] ctx_okD(6) [OF ok] null(2) by metis
    have "snd (cx_begin e s) = s'\<lparr>cx_transactions := cx_transactions s @ [?t]\<rparr>"
      using null(1) True s'(1) only_log_fields(1) [OF s'(2)]
      by (simp add: cx_begin_def act_defs Let_def cx_push_def)
    moreover have "ctx_ok self (s'\<lparr>cx_transactions := cx_transactions s @ [?t]\<rparr>)"
      by (rule ctx_ok_pushed [OF ok null(2) s'(2)]) (use x s'(3) e in \<open>simp_all add: foreign_def good_env_def\<close>)
    ultimately show ?thesis by simp
  next
    case False
    then have "snd (cx_begin e s) = s" using null(1) by (simp add: cx_begin_def act_defs)
    then show ?thesis using ok by simp
  qed
next
  case (live us t)
  then have "snd (cx_begin e s) = s"
    using ctx_okD(3) [OF ok] by (simp add: cx_begin_def act_defs live_def)
  then show ?thesis using ok by simp
qed

lemma pop_ok:
  assumes ok: "ctx_ok self (s\<lparr>cx_transactions := butlast (cx_transactions s)\<rparr>)" and "cx_transactions s \<noteq> []"
    and e: "good_env self e" and fresh: "fresh_id e s"
  shows "ctx_ok self (snd (pop_transaction e s))"
proof -
  let ?s = "s\<lparr>cx_transactions := butlast (cx_transactions s)\<rparr>"
  have "fresh_id e ?s" using fresh by (auto simp: fresh_id_def dest: in_set_butlastD)
  then have "ctx_ok self (snd (cx_begin e ?s))" by (rule begin_ok [OF ok e])
  then show ?thesis
    using assms(2) ok ctx_okD(3) [OF ok]
    by (simp add: pop_transaction_def act_defs split: tx_control.split)
qed

lemma pop_ok_last:
  assumes ok: "ctx_ok self s" and ts: "cx_transactions s = us @ [t]" and l: "only_log s s'" and v: "views s' None (suspended_of us)"
    and e: "good_env self e" and fresh: "fresh_id e s"
  shows "ctx_ok self (snd (pop_transaction e s'))"
proof (rule pop_ok [OF _ _ e])
  show "ctx_ok self (s'\<lparr>cx_transactions := butlast (cx_transactions s')\<rparr>)"
    using ctx_ok_popped [OF ok ts l v] by (simp add: only_log_fields [OF l] ts)
  show "cx_transactions s' \<noteq> []" using ts by (simp add: only_log_fields [OF l])
  show "fresh_id e s'" using fresh by (simp add: fresh_id_def only_log_fields [OF l])
qed

lemma live_holds:
  assumes "ctx_ok self s" and "cx_transactions s = us @ [t]" and "live t"
  shows "views s (Some (ct_xid t)) (suspended_of us)" "holds (ct_xid t) (Some (ct_xid t)) (suspended_of us)"
    "freed (ct_xid t) (Some (ct_xid t)) = None" "suspended_of us - {ct_xid t} = suspended_of us"
    "set (ct_involved t) \<subseteq> set (map rs_id (cx_all s))"
proof -
  have stack: "stack_ok (rs_id ` set (cx_all s)) (us @ [t])" using ctx_okD(4) [OF assms(1)] assms(2) by simp
  have x: "ct_xid t \<notin> suspended_of us" using stack_last(5) [OF stack] assms(3) by (simp add: live_def)
  show "views s (Some (ct_xid t)) (suspended_of us)"
    using ctx_okD(6) [OF assms(1)] assms(2,3) stack_last(3,4) [OF stack] by (simp add: live_def)
  show "holds (ct_xid t) (Some (ct_xid t)) (suspended_of us)" using x by (simp add: holds_def)
  show "freed (ct_xid t) (Some (ct_xid t)) = None" by (simp add: freed_def)
  show "suspended_of us - {ct_xid t} = suspended_of us" using x by blast
  show "set (ct_involved t) \<subseteq> set (map rs_id (cx_all s))" using stack_last(6) [OF stack] by simp
qed

lemma ctx_commit_ok:
  assumes ok: "ctx_ok self s" and e: "good_env self e" and fresh: "fresh_id e s"
  shows "ctx_ok self (snd (cx_commit e s))"
  using ok
proof (cases rule: current_cases)
  case null
  then have "snd (cx_commit e s) = s" by (simp add: cx_commit_def commit_transaction_def act_defs)
  then show ?thesis using ok by simp
next
  case (live us t)
  have coop: "cooperative e" using e by (simp add: good_env_def)
  note h = live_holds [OF ok live(1,3)]
  have run: "cx_commit e s = act_then (commit_transaction e t) (pop_transaction e) s"
    by (simp add: cx_commit_def act_defs live(2))
  from commit_transaction_views [folded ct_xid_def, OF coop ctx_okD(1) [OF ok] h(1,2,5)]
  consider c where "commit_transaction e t s = (Inl c, s)"
    | s' where "only_log s s'" "views s' None (suspended_of us)" "commit_transaction e t s = (Inr (), s')"
    | s' where "only_log s s'" "views s' None (suspended_of us)"
      "commit_transaction e t s = act_then (pop_transaction e) (act_raise (Tx_raised Tx_rollback)) s'"
    unfolding h(3,4) by blast
  then show ?thesis
  proof cases
    case 1
    then show ?thesis using ok run by (simp add: act_then_def act_bind_def)
  next
    case 2
    then show ?thesis using run pop_ok_last [OF ok live(1) 2(1,2) e fresh] by (simp add: act_then_def act_bind_def)
  next
    case 3
    have "snd (cx_commit e s) = snd (pop_transaction e s')"
      unfolding run using 3(3)
      by (cases "pop_transaction e s'" rule: act_cases) (simp_all add: act_then_def act_bind_def act_raise_def)
    then show ?thesis using pop_ok_last [OF ok live(1) 3(1,2) e fresh] by simp
  qed
qed

lemma ctx_rollback_ok:
  assumes ok: "ctx_ok self s" and e: "good_env self e" and fresh: "fresh_id e s"
  shows "ctx_ok self (snd (cx_rollback e s))"
  using ok
proof (cases rule: current_cases)
  case null
  then have "snd (cx_rollback e s) = s" by (simp add: cx_rollback_def rollback_transaction_def act_defs)
  then show ?thesis using ok by simp
next
  case (live us t)
  have coop: "cooperative e" using e by (simp add: good_env_def)
  note h = live_holds [OF ok live(1,3)]
  have run: "cx_rollback e s = act_then (rollback_transaction e t) (pop_transaction e) s"
    by (simp add: cx_rollback_def act_defs live(2))
  from rollback_transaction_views [folded ct_xid_def, OF coop ctx_okD(1) [OF ok] h(1,2,5)]
  consider c where "rollback_transaction e t s = (Inl c, s)"
    | s' where "rollback_transaction e t s = (Inr (), s')" "only_log s s'" "views s' None (suspended_of us)"
    unfolding h(3,4) by blast
  then show ?thesis
  proof cases
    case 1
    then show ?thesis using ok run by (simp add: act_then_def act_bind_def)
  next
    case 2
    then show ?thesis using run pop_ok_last [OF ok live(1) 2(2,3) e fresh] by (simp add: act_then_def act_bind_def)
  qed
qed

section \<open>Suspend and resume\<close>

lemma suspend_ok:
  assumes ok: "ctx_ok self s" and e: "good_env self e"
  shows "ctx_ok self (snd (cx_suspend e p s))"
  using ok
proof (cases rule: current_cases)
  case null
  then have "snd (cx_suspend e p s) = s" by (simp add: cx_suspend_def act_defs)
  then show ?thesis using ok by simp
next
  case (live us t)
  show ?thesis
  proof (cases p)
    case False
    then show ?thesis using ok by (simp add: cx_suspend_def act_defs)
  next
    case True
    let ?t = "t\<lparr>ct_suspended := True\<rparr>"
    let ?s = "s\<lparr>cx_transactions := us @ [?t]\<rparr>"
    have coop: "cooperative e" using e by (simp add: good_env_def)
    note h = live_holds [OF ok live(1,3)]
    have stack: "stack_ok (rs_id ` set (cx_all s)) (us @ [t])" using ctx_okD(4) [OF ok] live(1) by simp
    have ok1: "resources_ok ?s" using ctx_okD(1) [OF ok] resources_ok_cong [of ?s s] by simp
    have v1: "views ?s (Some (xid_of (ct_trid ?t))) (suspended_of us)" using h(1) by (simp add: views_def ct_xid_def)
    have acc: "xa_accept Op_end (xid_of (ct_trid ?t)) {Flag_suspend} Xa_ok (Some (xid_of (ct_trid ?t)), suspended_of us, b)
        = Some (None, insert (ct_xid t) (suspended_of us), None)" for b
      by (simp add: ct_xid_def)
    have t: "\<not> trid_null (ct_trid ?t)" using live(3) by (simp add: live_def)
    obtain s' where s': "resources_end e ?t {Flag_suspend} ?s = (Inr (), s')" "only_log ?s s'"
      "views s' None (insert (ct_xid t) (suspended_of us))"
      using resources_end_views [OF coop ok1 t v1 acc] by blast
    have set: "cx_current_set ?t s = ?s" using live(1,4) by (simp add: cx_current_set_def cx_last_set_def)
    have "snd (cx_suspend e p s) = s'"
      using True live(2,3) s'(1) by (simp add: cx_suspend_def act_defs live_def Let_def set)
    moreover have "ctx_ok self s'"
    proof -
      note f = only_log_fields [OF s'(2)]
      have stack': "stack_ok (rs_id ` set (cx_all s)) (us @ [?t])"
        using stack live(3) by (simp add: stack_ok_def live_def ct_xid_def split: if_splits)
      have "resources_ok s'" using ok1 only_log_resources [OF s'(2)] by simp
      moreover have "length (filter (foreign self) (us @ [?t])) \<le> 1"
        using ctx_okD(5) [OF ok] live(1) by (auto simp: foreign_def split: if_splits)
      moreover have "active_of (us @ [?t]) = None" "suspended_of (us @ [?t]) = insert (ct_xid t) (suspended_of us)"
        using stack_last(3,4) [OF stack'] by (simp_all add: live_def ct_xid_def)
      ultimately show ?thesis using ok stack' s'(3) by (simp add: ctx_ok_def f)
    qed
    ultimately show ?thesis by simp
  qed
qed

lemma position_Some:
  assumes "position p xs = Some i"
  shows "i < length xs" "p (xs ! i)"
proof -
  have i: "i = length (takeWhile (\<lambda>x. \<not> p x) xs)" "length (takeWhile (\<lambda>x. \<not> p x) xs) < length xs"
    using assms by (simp_all add: position_def split: if_splits)
  then show "i < length xs" by simp
  show "p (xs ! i)" using nth_length_takeWhile i by fastforce
qed

lemma rotate_last_update: "i < length xs \<Longrightarrow> rotate_last i (xs[i := y]) = (drop (Suc i) xs @ take i xs) @ [y]"
  by (simp add: rotate_last_def take_Suc_conv_app_nth take_update_cancel)

text \<open>The stack without one suspended transaction, in the order the rotation leaves.\<close>

lemma stack_without:
  assumes stack: "stack_ok rms ts" and i: "i < length ts" and susp: "ct_suspended (ts ! i)" and none: "active_of ts = None"
  shows "stack_ok rms (drop (Suc i) ts @ take i ts)" "active_of (drop (Suc i) ts @ take i ts) = None"
    "suspended_of (drop (Suc i) ts @ take i ts) = suspended_of ts - {ct_xid (ts ! i)}"
    "ct_xid (ts ! i) \<in> suspended_of ts"
    "ct_xid (ts ! i) \<notin> ct_xid ` set (drop (Suc i) ts @ take i ts)"
proof -
  let ?us = "drop (Suc i) ts @ take i ts" and ?t = "ts ! i"
  have split: "ts = take i ts @ ?t # drop (Suc i) ts" using i by (rule id_take_nth_drop)
  have nolive: "filter live ts = []" using none by (simp add: active_of_def split: list.splits)
  have sub: "set ?us \<subseteq> set ts" by (auto dest: in_set_takeD in_set_dropD)
  have nonnull: "\<not> trid_null (ct_trid ?t)" using stack i susp by (simp add: stack_ok_def list_all_length)
  have d: "distinct (map ct_xid (filter (\<lambda>t. \<not> trid_null (ct_trid t)) (take i ts @ ?t # drop (Suc i) ts)))"
    using stack split by (metis stack_ok_def)
  have all: "\<forall>t\<in>set ?us. \<not> live t" using nolive sub by (auto simp: filter_empty_conv)
  then have "filter live ?us = []" by (subst filter_empty_conv)
  then show "active_of ?us = None" by (simp only: active_of_def list.case)
  have "list_all (\<lambda>t. \<not> live t) (butlast ?us)"
    using all unfolding list_all_iff by (blast dest: in_set_butlastD)
  moreover have "distinct (map ct_xid (filter (\<lambda>t. \<not> trid_null (ct_trid t)) ?us))"
    using d nonnull by (auto simp: distinct_append)
  moreover have "list_all (\<lambda>t. ct_suspended t \<longrightarrow> \<not> trid_null (ct_trid t)) ?us" "list_all (\<lambda>t. set (ct_involved t) \<subseteq> rms) ?us"
    using stack sub unfolding stack_ok_def list_all_iff by blast+
  ultimately show "stack_ok rms ?us" by (simp add: stack_ok_def)
  have x: "ct_xid ?t \<notin> ct_xid ` set (filter (\<lambda>t. \<not> trid_null (ct_trid t)) ?us)"
    using d nonnull by (auto simp: distinct_append)
  moreover have "u \<in> set (filter (\<lambda>t. \<not> trid_null (ct_trid t)) ?us)" if "u \<in> set ?us" "ct_xid ?t = ct_xid u" for u
    using that nonnull xid_null [of "ct_trid ?t" "ct_trid u"] by (simp add: ct_xid_def)
  ultimately show "ct_xid ?t \<notin> ct_xid ` set ?us" by blast
  show "ct_xid ?t \<in> suspended_of ts" using i susp by (auto simp: suspended_of_def)
  have "set (filter ct_suspended ?us) \<subseteq> set (filter (\<lambda>t. \<not> trid_null (ct_trid t)) ?us)"
    using stack sub unfolding stack_ok_def list_all_iff by auto
  then have "ct_xid ?t \<notin> suspended_of ?us" using x unfolding suspended_of_def by blast
  moreover have "suspended_of ts = insert (ct_xid ?t) (suspended_of ?us)"
    unfolding suspended_of_def using susp by (subst split) auto
  ultimately show "suspended_of ?us = suspended_of ts - {ct_xid ?t}" by simp
qed

lemma ct_involve_fields [simp]:
  "ct_trid (ct_involve rms t) = ct_trid t" "ct_suspended (ct_involve rms t) = ct_suspended t"
  by (simp_all add: ct_involve_def)

lemma ct_involve_set: "set (ct_involved (ct_involve rms t)) = set (ct_involved t) \<union> set rms"
proof -
  have "set (fold (\<lambda>r xs. snd (append_unique_value r xs)) rms xs) = set xs \<union> set rms" for xs
    by (induction rms arbitrary: xs) (auto simp: append_unique_value_def)
  then show ?thesis by (simp add: ct_involve_def)
qed

lemma resume_ok:
  assumes ok: "ctx_ok self s" and e: "good_env self e"
  shows "ctx_ok self (snd (cx_resume e x s))"
proof (cases "\<exists>y i. x = Some y \<and> \<not> trid_null y \<and> trid_null (ct_trid (cx_current s)) \<and> ct_dynamic (cx_current s) = []
    \<and> position (\<lambda>t. trid_eq (ct_trid t) y) (cx_transactions s) = Some i \<and> ct_suspended (cx_transactions s ! i)")
  case False
  have "snd (cx_resume e x s) = s"
    using ok
  proof (cases rule: current_cases)
    case null
    then show ?thesis using False by (cases x) (auto simp: cx_resume_def act_defs split: option.split)
  next
    case (live us t)
    then show ?thesis by (cases x) (simp_all add: cx_resume_def act_defs live_def)
  qed
  then show ?thesis using ok by simp
next
  case True
  then obtain y i where y: "x = Some y" "\<not> trid_null y" "trid_null (ct_trid (cx_current s))" "ct_dynamic (cx_current s) = []"
    and p: "position (\<lambda>t. trid_eq (ct_trid t) y) (cx_transactions s) = Some i" and susp: "ct_suspended (cx_transactions s ! i)"
    by blast
  let ?ts = "cx_transactions s" and ?rms = "rs_id ` set (cx_all s)"
  let ?us = "drop (Suc i) ?ts @ take i ?ts" and ?t = "(?ts ! i)\<lparr>ct_suspended := False\<rparr>"
  let ?s = "s\<lparr>cx_transactions := ?ts[i := ?t]\<rparr>"
  have coop: "cooperative e" using e by (simp add: good_env_def)
  have i: "i < length ?ts" using position_Some [OF p] by simp
  have none: "active_of ?ts = None"
    using y(3) current_cases [OF ok] by (metis live_def)
  note w = stack_without [OF ctx_okD(4) [OF ok] i susp none]
  have nonnull: "\<not> trid_null (ct_trid ?t)"
    using ctx_okD(4) [OF ok] i susp by (simp add: stack_ok_def list_all_length)
  have x: "xid_of (ct_trid ?t) = ct_xid (?ts ! i)" by (simp add: ct_xid_def)
  have ok1: "resources_ok ?s" using ctx_okD(1) [OF ok] resources_ok_cong [of ?s s] by simp
  have v1: "views ?s None (suspended_of ?ts)" using ctx_okD(6) [OF ok] none by (simp add: views_def)
  obtain s' where s': "resources_start e ?t {Flag_resume} ?s = (Inr (ct_involve (map rs_id (cx_fixed s)) ?t), s')"
    "only_log ?s s'" "views s' (Some (ct_xid (?ts ! i))) (suspended_of ?ts - {ct_xid (?ts ! i)})"
    using resources_start_views [OF coop ok1 nonnull v1, of "{Flag_resume}"] w(4) unfolding x by auto
  let ?new = "ct_involve (map rs_id (cx_fixed s)) ?t"
  have run: "snd (cx_resume e x s) = s'\<lparr>cx_transactions := ?us @ [?new]\<rparr>"
    using y p susp i s'(1) by (simp add: cx_resume_def act_defs rotate_last_update Let_def)
  note f = only_log_fields [OF s'(2)]
  have fixed: "rs_id ` set (cx_fixed s) \<subseteq> ?rms" using ctx_okD(1) [OF ok] by (auto simp: resources_ok_def)
  have "set (ct_involved (?ts ! i)) \<subseteq> ?rms" using ctx_okD(4) [OF ok] i by (simp add: stack_ok_def list_all_length)
  then have inv: "set (ct_involved ?new) \<subseteq> ?rms" using fixed by (simp add: ct_involve_set)
  have xnew: "ct_xid ?new = ct_xid (?ts ! i)" by (simp add: ct_xid_def)
  have stack: "stack_ok ?rms (?us @ [?new])"
    by (rule stack_push [OF w(1,2) inv]) (use w(5) xnew in simp_all)
  have "length (filter (foreign self) ?ts) = length (filter (foreign self) (take i ?ts @ ?ts ! i # drop (Suc i) ?ts))"
    by (rule arg_cong [OF id_take_nth_drop [OF i]])
  then have "length (filter (foreign self) (?us @ [?new])) = length (filter (foreign self) ?ts)"
    by (simp add: foreign_def)
  moreover have "live ?new" using nonnull by (simp add: live_def)
  moreover have "resources_ok (s'\<lparr>cx_transactions := ?us @ [?new]\<rparr>)"
    using ctx_okD(1) [OF ok] resources_ok_cong [of "s'\<lparr>cx_transactions := ?us @ [?new]\<rparr>" s] by (simp add: f)
  moreover have "views (s'\<lparr>cx_transactions := ?us @ [?new]\<rparr>) (Some (ct_xid (?ts ! i))) (suspended_of ?ts - {ct_xid (?ts ! i)})"
    using s'(3) by (simp add: views_def)
  ultimately show ?thesis
    unfolding run using ok stack stack_last(3,4) [OF stack] w(3) xnew
    by (simp add: ctx_ok_def f del: append_assoc)
qed

end
