(* ===== verification/CtxService.thy ===== *)
theory CtxService
  imports CtxKeeps
begin

text \<open>
  What a server and the XATMI calls do with the transaction context keeps its invariant: the
  registration of dynamic resources, the transaction of a service, the calls it makes and their
  replies. The end of a service consumes every transaction and leaves every fixed resource without
  an association.
\<close>

section \<open>Operations that change no association\<close>

lemma involved_in:
  assumes "ctx_ok self s" and "t \<in> set (cx_transactions s)"
  shows "set (ct_involved t) \<subseteq> rs_id ` set (cx_all s)"
  using ctx_okD(4) [OF assms(1)] assms(2) by (simp add: stack_ok_def list_all_iff)

lemma current_set_ok:
  assumes ok: "ctx_ok self s" and t: "ct_trid t = ct_trid (cx_current s)" "ct_suspended t = ct_suspended (cx_current s)"
    and inv: "in_transaction_mode s \<Longrightarrow> set (ct_involved t) \<subseteq> rs_id ` set (cx_all s)"
  shows "ctx_ok self (cx_current_set t s)"
proof (cases "in_transaction_mode s")
  case True
  then obtain us u where ts: "cx_transactions s = us @ [u]"
    unfolding in_transaction_mode_def by (metis append_butlast_last_id)
  have "list_all (\<lambda>t. set (ct_involved t) \<subseteq> rs_id ` set (cx_all s)) (us @ [t])"
    using inv [OF True] involved_in [OF ok] ts by (auto simp: list_all_iff)
  then show ?thesis
    using True t ts ctx_okD(2,3) [OF ok]
    by (intro ctx_ok_same [OF ok]) (simp_all add: cx_current_set_def cx_last_set_def cx_current_def)
next
  case False
  then show ?thesis
    using t involved_in [OF ok] ctx_okD(2,3) [OF ok]
    by (intro ctx_ok_same [OF ok]) (simp_all add: cx_current_set_def cx_current_def list_all_iff)
qed

lemma log_ok:
  assumes ok: "ctx_ok self s" and l: "only_log s s'" and log: "\<And>k. xa_run k (cx_log s') = xa_run k (cx_log s)"
  shows "ctx_ok self s'"
  by (rule ctx_ok_same [OF ok])
    (use ok involved_in [OF ok] log in \<open>auto simp: only_log_fields [OF l] ctx_okD list_all_iff\<close>)

lemma associate_dynamic_fields:
  assumes "ct_associate_dynamic rm t = (b, t1)"
  shows "ct_trid t1 = ct_trid t" "ct_suspended t1 = ct_suspended t" "ct_involved t1 = ct_involved t"
  using assms by (auto simp: ct_associate_dynamic_def split: prod.splits)

lemma disassociate_dynamic_fields:
  assumes "ct_disassociate_dynamic rm t = (b, t1)"
  shows "ct_trid t1 = ct_trid t" "ct_suspended t1 = ct_suspended t" "ct_involved t1 = ct_involved t"
  using assms by (auto simp: ct_disassociate_dynamic_def split: if_splits)

lemma tm_involved_ok:
  assumes ok: "ctx_ok self s"
  shows "ctx_ok self (snd (tm_involved e t rms s))"
proof (cases "rms = []")
  case True
  then show ?thesis using ok by (simp add: tm_involved_def act_ret_def)
next
  case False
  then have "snd (tm_involved e t rms s) = cx_event (Tm_involved t rms) s"
    by (simp add: tm_involved_def act_defs act_state_def split: option.split)
  then show ?thesis using log_ok [OF ok] by (simp add: cx_event_def xa_run_append only_log_def)
qed

lemma current_involved:
  "ctx_ok self s \<Longrightarrow> in_transaction_mode s \<Longrightarrow> set (ct_involved (cx_current s)) \<subseteq> rs_id ` set (cx_all s)"
  using involved_in [of self s "last (cx_transactions s)"] by (auto simp: cx_current_def in_transaction_mode_def)

lemma registration_ok:
  assumes ok: "ctx_ok self s"
  shows "ctx_ok self (snd (resource_registration e rm s))"
proof -
  let ?t = "cx_current s"
  obtain fresh t1 where t1: "ct_associate_dynamic rm ?t = (fresh, t1)" by fastforce
  note f = associate_dynamic_fields [OF t1]
  have "ctx_ok self (cx_current_set t1 s)"
    using current_set_ok [OF ok f(1,2)] current_involved [OF ok] f(3) by simp
  moreover have "ctx_ok self (cx_current_set (ct_involve [rm] t1) s)" if "list_ex (\<lambda>r. rs_id r = rm) (cx_dynamic s)"
  proof (rule current_set_ok [OF ok])
    have "rm \<in> rs_id ` set (cx_all s)"
      using that ctx_okD(1) [OF ok] by (auto simp: resources_ok_def list_ex_iff)
    then show "set (ct_involved (ct_involve [rm] t1)) \<subseteq> rs_id ` set (cx_all s)" if "in_transaction_mode s"
      using current_involved [OF ok that] f(3) by (simp add: ct_involve_set)
  qed (simp_all add: f)
  ultimately show ?thesis
    using ok tm_involved_ok
    by (auto simp: resource_registration_def act_defs t1 split: prod.splits sum.splits)
      (metis snd_conv)+
qed

lemma unregistration_ok:
  assumes ok: "ctx_ok self s"
  shows "ctx_ok self (snd (resource_unregistration rm s))"
proof -
  obtain found t1 where t1: "ct_disassociate_dynamic rm (cx_current s) = (found, t1)" by fastforce
  note f = disassociate_dynamic_fields [OF t1]
  have "ctx_ok self (cx_current_set t1 s)"
    using current_set_ok [OF ok f(1,2)] current_involved [OF ok] f(3) by simp
  then show ?thesis using ok by (simp add: resource_unregistration_def act_defs t1)
qed

lemma attributes_ok:
  assumes ok: "ctx_ok self s"
  shows "ctx_ok self (snd (set_commit_return v s))" "v \<noteq> 42 \<Longrightarrow> ctx_ok self (snd (set_transaction_control v s))"
    "ctx_ok self (snd (set_transaction_timeout v s))"
proof -
  have same: "ctx_ok self s'"
    if "cx_transactions s' = cx_transactions s" "cx_all s' = cx_all s" "cx_dynamic s' = cx_dynamic s" "cx_fixed s' = cx_fixed s"
      "cx_empty s' = cx_empty s" "cx_control s' \<noteq> Stacked" "cx_log s' = cx_log s" for s'
    by (rule ctx_ok_same [OF ok]) (use that ok involved_in [OF ok] in \<open>auto simp: ctx_okD list_all_iff\<close>)
  show "ctx_ok self (snd (set_commit_return v s))" "ctx_ok self (snd (set_transaction_timeout v s))"
    using ok by (auto simp: set_commit_return_def set_transaction_timeout_def act_defs intro!: same simp: ctx_okD)
  show "v \<noteq> 42 \<Longrightarrow> ctx_ok self (snd (set_transaction_control v s))"
    using ok by (auto simp: set_transaction_control_def act_defs intro!: same simp: ctx_okD)
qed

text \<open>A call of another service in the current transaction, and the reply to one.\<close>

lemma call_ok: "ctx_ok self s \<Longrightarrow> ctx_ok self (cx_call corr s)"
  unfolding cx_call_def
  by (cases "trid_null (ct_trid (cx_current s))", simp)
    (simp, rule current_set_ok, use current_involved in \<open>simp_all add: ct_associate_def\<close>)

lemma map_update_same: "i < length xs \<Longrightarrow> f y = f (xs ! i) \<Longrightarrow> map f (xs[i := y]) = map f xs"
  by (metis list_update_id list_update_overwrite map_update)

lemma ctx_update_ok:
  assumes ok: "ctx_ok self s"
  shows "ctx_ok self (snd (cx_update t state corr s))"
proof (cases "trid_null t")
  case True
  then show ?thesis
    using ok involved_in [OF ok] by (auto simp: cx_update_def act_defs ct_replied_def list_all_iff ctx_okD intro!: ctx_ok_same [OF ok])
next
  case False
  show ?thesis
  proof (cases "position (\<lambda>x. trid_eq (ct_trid x) t) (cx_transactions s)")
    case None
    then show ?thesis using False ok by (simp add: cx_update_def act_defs)
  next
    case (Some i)
    note i = position_Some(1) [OF Some]
    let ?x = "cx_transactions s ! i"
    let ?y = "ct_replied corr (if trans_state_num (ct_state ?x) < trans_state_num (cast_state state)
      then ?x\<lparr>ct_state := cast_state state\<rparr> else ?x)"
    have run: "snd (cx_update t state corr s) = s\<lparr>cx_transactions := (cx_transactions s)[i := ?y]\<rparr>"
      using False Some by (simp add: cx_update_def act_defs Let_def)
    have y: "ct_trid ?y = ct_trid ?x" "ct_suspended ?y = ct_suspended ?x" "ct_involved ?y = ct_involved ?x"
      by (simp_all add: ct_replied_def)
    have inv: "list_all (\<lambda>t. set (ct_involved t) \<subseteq> rs_id ` set (cx_all s)) ((cx_transactions s)[i := ?y])"
    proof (unfold list_all_iff, intro ballI)
      fix u assume "u \<in> set ((cx_transactions s)[i := ?y])"
      then have "u \<in> set (cx_transactions s) \<or> u = ?y" using set_update_subset_insert by fastforce
      then show "set (ct_involved u) \<subseteq> rs_id ` set (cx_all s)"
        using involved_in [OF ok] y(3) nth_mem [OF i] by metis
    qed
    have "map (\<lambda>t. (ct_trid t, ct_suspended t)) ((cx_transactions s)[i := ?y])
        = map (\<lambda>t. (ct_trid t, ct_suspended t)) (cx_transactions s)"
      by (rule map_update_same [OF i]) (simp only: y)
    then show ?thesis
      unfolding run using inv ctx_okD(2,3) [OF ok] by (intro ctx_ok_same [OF ok]) simp_all
  qed
qed

end
