(* ===== verification/CtxFinal.thy ===== *)
theory CtxFinal
  imports CtxService
begin

text \<open>
  The begin and the end of a service in the transaction context: the transaction that the policy of
  the service asks for, and \<open>finalize\<close>.
\<close>

section \<open>The transaction of a service\<close>

lemma deadline_ok:
  assumes ok: "ctx_ok self s" and "cx_transactions s \<noteq> []"
  shows "ctx_ok self (set_deadline timeout now s)"
proof -
  obtain us u where ts: "cx_transactions s = us @ [u]" using assms(2) by (metis append_butlast_last_id)
  then show ?thesis
    using ok involved_in [OF ok]
    by (auto simp: set_deadline_def cx_last_set_def list_all_iff ctx_okD intro!: ctx_ok_same [OF ok])
qed

lemma new_transaction_fields [simp]:
  "ct_trid (new_transaction t) = t" "ct_suspended (new_transaction t) = False" "ct_involved (new_transaction t) = []"
  by (simp_all add: new_transaction_def)

text \<open>The first transaction of a context, associated with the resources that have just started.\<close>

lemma first_ok:
  assumes ok: "ctx_ok self s" and ts: "cx_transactions s = []" and l: "only_log s (s'\<lparr>cx_transactions := []\<rparr>)"
    and t: "live t" "set (ct_involved t) \<subseteq> rs_id ` set (cx_all s)" and v: "views s' (Some (ct_xid t)) {}"
  shows "ctx_ok self (s'\<lparr>cx_transactions := [t]\<rparr>)"
proof -
  have "ctx_ok self ((s'\<lparr>cx_transactions := []\<rparr>)\<lparr>cx_transactions := cx_transactions s @ [t]\<rparr>)"
    by (rule ctx_ok_pushed [OF ok _ l]) (use t v ts in \<open>simp_all add: active_of_def suspended_of_def views_def\<close>)
  then show ?thesis using ts by simp
qed

lemma no_transaction_views:
  assumes "ctx_ok self s" and "cx_transactions s = []"
  shows "views s None {}"
  using ctx_okD(6) [OF assms(1)] assms(2) by (simp add: active_of_def suspended_of_def)

lemma involve_fixed:
  assumes "ctx_ok self s" and "ct_involved t = []"
  shows "set (ct_involved (ct_involve (map rs_id (cx_fixed s)) t)) \<subseteq> rs_id ` set (cx_all s)"
  using ctx_okD(1) [OF assms(1)] assms(2) by (auto simp: ct_involve_set resources_ok_def)

lemma start_ok:
  assumes ok: "ctx_ok self s" and e: "good_env self e" and ts: "cx_transactions s = []"
  shows "\<exists>s'. cx_start e s = (Inr (), s') \<and> ctx_ok self s' \<and> cx_transactions s' \<noteq> []"
proof -
  let ?t = "start_transaction e (cx_timeout s)"
  let ?u = "ct_involve (map rs_id (cx_fixed s)) ?t"
  have coop: "cooperative e" using e by (simp add: good_env_def)
  obtain s' where s': "resources_start e ?t {} s = (Inr ?u, s')" "only_log s s'" "views s' (Some (ct_xid ?t)) {}"
    using resources_start_views [OF coop ctx_okD(1) [OF ok] _ no_transaction_views [OF ok ts], of ?t "{}"] by auto
  have "ctx_ok self (s'\<lparr>cx_transactions := [?u]\<rparr>)"
  proof (rule first_ok [OF ok ts])
    show "only_log s (s'\<lparr>cx_transactions := []\<rparr>)"
      using s'(2) ts only_log_fields(1) [OF s'(2)] by (simp add: only_log_def)
  qed (use s'(3) involve_fixed [OF ok, of ?t] in \<open>simp_all add: live_def ct_xid_def\<close>)
  moreover have "cx_start e s = (Inr (), s'\<lparr>cx_transactions := [?u]\<rparr>)"
    using s'(1) only_log_fields(1) [OF s'(2)] ts by (simp add: cx_start_def act_defs cx_push_def)
  ultimately show ?thesis by simp
qed

lemma join_ok:
  assumes ok: "ctx_ok self s" and e: "good_env self e" and ts: "cx_transactions s = []"
  shows "\<exists>s'. cx_join e t s = (Inr (), s') \<and> ctx_ok self s' \<and> cx_transactions s' \<noteq> []"
proof (cases "trid_null t")
  case True
  let ?s = "s\<lparr>cx_transactions := [new_transaction t]\<rparr>"
  have "stack_ok (rs_id ` set (cx_all s)) [new_transaction t]" by (simp add: stack_ok_def True)
  moreover have "active_of [new_transaction t] = None" "suspended_of [new_transaction t] = {}"
    by (simp_all add: active_of_def suspended_of_def live_def True)
  moreover have "views ?s None {}" using no_transaction_views [OF ok ts] by (simp add: views_def)
  moreover have "resources_ok ?s" using ctx_okD(1) [OF ok] resources_ok_cong [of ?s s] by simp
  ultimately have "ctx_ok self ?s" using ok by (simp add: ctx_ok_def foreign_def)
  moreover have "cx_join e t s = (Inr (), ?s)"
    using True ts by (simp add: cx_join_def act_defs cx_push_def Let_def)
  ultimately show ?thesis by simp
next
  case False
  let ?t = "new_transaction t" and ?s = "s\<lparr>cx_transactions := [new_transaction t]\<rparr>"
  let ?u = "ct_involve (map rs_id (cx_fixed s)) ?t"
  have coop: "cooperative e" using e by (simp add: good_env_def)
  have "views ?s None {}" using no_transaction_views [OF ok ts] by (simp add: views_def)
  moreover have "resources_ok ?s" using ctx_okD(1) [OF ok] resources_ok_cong [of ?s s] by simp
  ultimately obtain s' where s': "resources_start e ?t {} ?s = (Inr ?u, s')" "only_log ?s s'" "views s' (Some (ct_xid ?t)) {}"
    using resources_start_views [OF coop, of ?s ?t "{}" "{}"] False by (auto simp: ct_xid_def)
  have "ctx_ok self (s'\<lparr>cx_transactions := [?u]\<rparr>)"
  proof (rule first_ok [OF ok ts])
    have "s'\<lparr>cx_transactions := []\<rparr> = s\<lparr>cx_log := cx_log s'\<rparr>"
      using s'(2) ts unfolding only_log_def by (cases s, cases s') simp
    then show "only_log s (s'\<lparr>cx_transactions := []\<rparr>)" by (simp add: only_log_def)
  qed (use s'(3) False involve_fixed [OF ok, of ?t] in \<open>simp_all add: live_def ct_xid_def\<close>)
  moreover have "cx_join e t s = (Inr (), s'\<lparr>cx_transactions := [?u]\<rparr>)"
    using s'(1) only_log_fields(1) [OF s'(2)] ts False by (simp add: cx_join_def act_defs cx_push_def cx_last_set_def Let_def)
  ultimately show ?thesis by simp
qed

lemma policy_ok:
  assumes ok: "ctx_ok self s" and e: "good_env self e" and ts: "cx_transactions s = []"
  shows "\<exists>s'. policy_transaction e t type timeout now s = (Inr (), s') \<and> ctx_ok self s' \<and> cx_transactions s' \<noteq> []"
proof -
  let ?s = "s\<lparr>cx_caller := t\<rparr>"
  have ok1: "ctx_ok self ?s"
    by (rule ctx_ok_same [OF ok]) (use ok ts in \<open>auto simp: ctx_okD\<close>)
  have ts1: "cx_transactions ?s = []" using ts by simp
  obtain s1 where s1: "cx_start e ?s = (Inr (), s1)" "ctx_ok self s1" "cx_transactions s1 \<noteq> []"
    using start_ok [OF ok1 e ts1] by blast
  have join: "\<exists>s'. cx_join e u ?s = (Inr (), s') \<and> ctx_ok self s' \<and> cx_transactions s' \<noteq> []" for u
    by (rule join_ok [OF ok1 e ts1])
  have d: "ctx_ok self (set_deadline timeout now s')" "cx_transactions (set_deadline timeout now s') \<noteq> []"
    if "ctx_ok self s'" "cx_transactions s' \<noteq> []" for s'
    using deadline_ok [OF that] that(2) by (simp_all add: set_deadline_def cx_last_set_def)
  show ?thesis
    using join [of t] join [of "branched_id e t"] join [of "null_trid\<lparr>towner := ce_self e\<rparr>"] s1 d
    by (cases type) (auto simp: policy_transaction_def act_defs cx_branch_def Let_def)
qed

section \<open>The end of a service\<close>

text \<open>What was undefined stays so.\<close>

lemma undefined_event: "act_keeps cx_undefined (act_state (\<lambda>s. (f s, cx_event (v s) s)))"
  by (simp add: act_keeps_def act_state_def cx_event_def)

lemma undefined_entry [keeps_intros]: "act_keeps cx_undefined (xa_entry e op r t flags)"
  unfolding xa_entry_def Let_def by (rule undefined_event)

lemma undefined_open [keeps_intros]: "act_keeps cx_undefined (rs_open e r)" "act_keeps cx_undefined (rs_close e r)"
  by (simp_all add: act_keeps_def rs_open_def rs_close_def act_state_def cx_event_def Let_def)

lemma undefined_guard [keeps_intros]:
  "act_keeps cx_undefined f \<Longrightarrow> act_keeps cx_undefined (reopen_guard e r f)"
  unfolding reopen_guard_def by (intro keeps_intros)

lemma undefined_calls [keeps_intros]:
  "act_keeps cx_undefined (rs_start e r t flags)" "act_keeps cx_undefined (rs_end e r t flags)"
  "act_keeps cx_undefined (rs_commit e r t flags)" "act_keeps cx_undefined (rs_rollback e r t flags)"
  unfolding rs_start_def rs_end_def rs_commit_def rs_rollback_def by (intro keeps_intros)+

lemma undefined_resources [keeps_intros]:
  "act_keeps cx_undefined (resources_end e x flags)" "act_keeps cx_undefined (raise_if_not_ok code)"
  "act_keeps cx_undefined (resource_commit e rm x flags)" "act_keeps cx_undefined (resource_rollback e rm x)"
  "act_keeps cx_undefined (begin_resources e t)"
  unfolding resources_end_def raise_if_not_ok_def resource_commit_def resource_rollback_def begin_resources_def Let_def
  by (intro keeps_intros keeps_upd; simp)+

lemma undefined_pop [keeps_intros]: "act_keeps cx_undefined (pop_transaction e)" "act_keeps cx_undefined (cx_begin e)"
proof -
  show b: "act_keeps cx_undefined (cx_begin e)"
    unfolding cx_begin_def Let_def by (intro keeps_intros keeps_upd) (simp add: cx_push_def)
  have "act_keeps cx_undefined (case c of Unchained \<Rightarrow> act_ret () | Chained \<Rightarrow> cx_begin e
      | Stacked \<Rightarrow> act_bind (act_get cx_current) (\<lambda>t.
          if \<not> trid_null (ct_trid t) then resources_end e t {Flag_resume} else act_ret ()))" for c
    using b by (cases c) (simp_all add: keeps_intros)
  then show "act_keeps cx_undefined (pop_transaction e)"
    unfolding pop_transaction_def by (intro keeps_intros keeps_upd) simp
qed

lemma undefined_commit [keeps_intros]:
  "act_keeps cx_undefined (commit_distributed e x)" "act_keeps cx_undefined (commit_transaction e x)"
  "act_keeps cx_undefined (rollback_transaction e x)"
proof -
  have ev: "act_keeps cx_undefined (act_upd (cx_event v))" for v by (rule keeps_upd) (simp add: cx_event_def)
  have inner: "act_keeps cx_undefined (case d of
        Return_logged \<Rightarrow> act_then (act_upd (cx_event (Discarded_reply (ct_trid x)))) (raise_if_not_ok code)
      | Return_completed \<Rightarrow>
          act_bind (act_state (\<lambda>s. (ce_second e (cx_log s) (ct_trid x), cx_event (Second_reply (ct_trid x)) s)))
            raise_if_not_ok)" for d code
    by (cases d) (auto intro!: keeps_intros ev undefined_event)
  show d: "act_keeps cx_undefined (commit_distributed e x)"
    unfolding commit_distributed_def
  proof (rule keeps_bind [OF undefined_event])
    fix reply :: "(reply_stage \<times> tx) option"
    show "act_keeps cx_undefined (case reply of None \<Rightarrow> act_raise Comm_unavailable
       | Some (Stage_prepare, code) \<Rightarrow>
           act_bind (act_get cx_commit_return) (\<lambda>directive.
             case directive of
               Return_logged \<Rightarrow> act_then (act_upd (cx_event (Discarded_reply (ct_trid x)))) (raise_if_not_ok code)
             | Return_completed \<Rightarrow>
                 act_bind (act_state (\<lambda>s. (ce_second e (cx_log s) (ct_trid x), cx_event (Second_reply (ct_trid x)) s)))
                   raise_if_not_ok)
       | Some (Stage_commit, code) \<Rightarrow> raise_if_not_ok code
       | Some (Stage_rollback, code) \<Rightarrow> act_then (pop_transaction e) (act_raise (Tx_raised Tx_rollback)))"
      by (auto split: option.splits prod.splits reply_stage.splits intro!: keeps_intros inner)
  qed
  show "act_keeps cx_undefined (commit_transaction e x)"
    unfolding commit_transaction_def by (intro keeps_intros d)
  show "act_keeps cx_undefined (rollback_transaction e x)"
    unfolding rollback_transaction_def by (intro keeps_intros undefined_event)
qed

lemma undefined_owned [keeps_intros]: "act_keeps cx_undefined (finalize_owned e commit t)"
proof -
  have "cx_undefined (snd (finalize_owned e commit t s))" if "cx_undefined s" for s
  proof -
    let ?f = "if commit \<and> ct_state t = Trans_active then commit_transaction e t else rollback_transaction e t"
    have "act_keeps cx_undefined ?f" by (intro keeps_intros)
    then have "cx_undefined (snd (?f s))" using that unfolding act_keeps_def by blast
    then show ?thesis unfolding finalize_owned_def by (cases "?f s" rule: act_cases) simp_all
  qed
  then show ?thesis by (simp add: act_keeps_def)
qed

text \<open>Every transaction of a stack holds its resources.\<close>

lemma stack_holds:
  assumes stack: "stack_ok rms ts" and t: "t \<in> set ts" "\<not> trid_null (ct_trid t)"
  shows "holds (ct_xid t) (active_of ts) (suspended_of ts)"
proof (cases ts rule: rev_cases)
  case (snoc us u)
  note last = stack_last [OF stack [unfolded snoc]]
  show ?thesis
  proof (cases "t \<in> set us")
    case False
    then have "t = u" using t(1) snoc by simp
    then show ?thesis using last(3-5) t(2) by (auto simp: snoc holds_def live_def)
  next
    case True
    then have "\<not> live t" using stack snoc by (simp add: stack_ok_def list_all_iff)
    then have "ct_xid t \<in> suspended_of us" using True t(2) by (simp add: live_def suspended_of_def)
    then show ?thesis using last(3-5) by (auto simp: snoc holds_def live_def)
  qed
qed (use t in simp)

definition released :: "ctx_transaction list \<Rightarrow> xid option \<Rightarrow> xid option" where
  "released ts a = (if a \<in> Some ` ct_xid ` set ts then None else a)"

lemma released_simps [simp]: "released [] a = a" "released (t # ts) a = released ts (freed (ct_xid t) a)"
  by (auto simp: released_def freed_def)

definition endable :: "ctx_env \<Rightarrow> int set \<Rightarrow> ctx_transaction \<Rightarrow> bool" where
  "endable e rms t \<longleftrightarrow> \<not> trid_null (ct_trid t) \<and> towner (ct_trid t) = ce_self e \<and> set (ct_involved t) \<subseteq> rms
     \<and> (ct_pending t \<noteq> [] \<longrightarrow> ct_state t \<noteq> Trans_active)"

lemma pop_nothing: "cx_transactions s = [] \<Longrightarrow> cx_undefined (snd (pop_transaction e s))"
proof -
  assume "cx_transactions s = []"
  then have "pop_transaction e s = act_bind (act_get cx_control) (\<lambda>control.
       case control of
         Unchained \<Rightarrow> act_ret ()
       | Chained \<Rightarrow> cx_begin e
       | Stacked \<Rightarrow> act_bind (act_get cx_current) (\<lambda>t.
           if \<not> trid_null (ct_trid t) then resources_end e t {Flag_resume} else act_ret ())) (s\<lparr>cx_undefined := True\<rparr>)"
    by (simp add: pop_transaction_def act_then_def act_bind_def act_upd_def)
  moreover have "act_keeps cx_undefined (cx_begin e)" "act_keeps cx_undefined (resources_end e x f)" for x f
    by (intro keeps_intros)+
  ultimately show ?thesis
    by (auto simp: act_keeps_def act_bind_def act_get_def act_ret_def split: tx_control.split)
qed

lemma finalize_owned_views:
  assumes e: "cooperative e" and ok: "resources_ok s" and v: "views s a S" and ts: "cx_transactions s = []"
    and t: "endable e (rs_id ` set (cx_all s)) t" and h: "holds (ct_xid t) a S"
  shows "\<exists>b s'. finalize_owned e commit t s = (Inr b, s') \<and>
    (cx_undefined s' \<or> (b \<and> only_log s s' \<and> views s' (freed (ct_xid t) a) (S - {ct_xid t})))"
proof -
  have inv: "set (ct_involved t) \<subseteq> set (map rs_id (cx_all s))" using t by (simp add: endable_def)
  show ?thesis
  proof (cases "commit \<and> ct_state t = Trans_active")
    case True
    then consider s' where "only_log s s'" "views s' (freed (ct_xid t) a) (S - {ct_xid t})" "commit_transaction e t s = (Inr (), s')"
      | s' where "only_log s s'" "commit_transaction e t s = act_then (pop_transaction e) (act_raise (Tx_raised Tx_rollback)) s'"
      using commit_transaction_views [folded ct_xid_def, OF e ok v h inv] t by (auto simp: endable_def)
    then show ?thesis
    proof cases
      case 1
      then show ?thesis using True by (intro exI [where x = True]) (simp add: finalize_owned_def)
    next
      case 2
      have "cx_undefined (snd (pop_transaction e s'))"
        by (rule pop_nothing) (use ts only_log_fields(1) [OF 2(1)] in simp)
      then show ?thesis
        using True 2(2)
        by (intro exI [where x = False], cases "pop_transaction e s'" rule: act_cases)
          (simp_all add: finalize_owned_def act_then_def act_bind_def act_raise_def)
    qed
  next
    case False
    then obtain s' where "rollback_transaction e t s = (Inr (), s')" "only_log s s'" "views s' (freed (ct_xid t) a) (S - {ct_xid t})"
      using rollback_transaction_views [folded ct_xid_def, OF e ok v h inv] t by (auto simp: endable_def)
    then show ?thesis using False by (auto simp: finalize_owned_def)
  qed
qed

lemma each_owned:
  "\<exists>bs s'. act_each (finalize_owned e commit) ts s = (Inr bs, s') \<and> (cx_undefined s \<longrightarrow> cx_undefined s')"
proof (induction ts arbitrary: s)
  case Nil
  then show ?case by (simp add: act_ret_def)
next
  case (Cons t ts)
  obtain b s1 where s1: "finalize_owned e commit t s = (Inr b, s1)"
  proof (cases "(if commit \<and> ct_state t = Trans_active then commit_transaction e t else rollback_transaction e t) s"
      rule: act_cases)
    case (fault c s')
    then have "finalize_owned e commit t s = (Inr False, s')" by (simp add: finalize_owned_def)
    then show ?thesis by (rule that)
  next
    case (result x s')
    then have "finalize_owned e commit t s = (Inr True, s')" by (simp add: finalize_owned_def)
    then show ?thesis by (rule that)
  qed
  have "cx_undefined s \<longrightarrow> cx_undefined s1"
    using undefined_owned [of e commit t] s1 unfolding act_keeps_def by (metis snd_conv)
  then show ?case using Cons.IH [of s1] s1 by (auto simp: act_bind_def act_ret_def)
qed

lemma finalize_owned_all:
  assumes e: "cooperative e"
  shows "resources_ok s \<Longrightarrow> views s a S \<Longrightarrow> cx_transactions s = [] \<Longrightarrow> list_all (endable e (rs_id ` set (cx_all s))) ts \<Longrightarrow>
    \<forall>t\<in>set ts. holds (ct_xid t) a S \<Longrightarrow> distinct (map ct_xid ts) \<Longrightarrow>
    \<exists>bs s'. act_each (finalize_owned e commit) ts s = (Inr bs, s') \<and>
      (cx_undefined s' \<or> (list_all (\<lambda>b. b) bs \<and> only_log s s' \<and> views s' (released ts a) (S - ct_xid ` set ts)))"
proof (induction ts arbitrary: s a S)
  case Nil
  then show ?case by (simp add: act_ret_def)
next
  case (Cons t ts)
  obtain b s1 where s1: "finalize_owned e commit t s = (Inr b, s1)"
    "cx_undefined s1 \<or> (b \<and> only_log s s1 \<and> views s1 (freed (ct_xid t) a) (S - {ct_xid t}))"
    using finalize_owned_views [OF e Cons.prems(1-3), of t commit] Cons.prems(4,5) by auto
  show ?case
  proof (cases "cx_undefined s1")
    case True
    then show ?thesis
      using each_owned [of e commit ts s1] s1(1) by (auto simp: act_bind_def act_ret_def)
  next
    case False
    then have l: "b" "only_log s s1" "views s1 (freed (ct_xid t) a) (S - {ct_xid t})" using s1(2) by auto
    have "holds (ct_xid u) (freed (ct_xid t) a) (S - {ct_xid t})" if "u \<in> set ts" for u
    proof -
      have "ct_xid u \<noteq> ct_xid t" using Cons.prems(6) imageI [OF that, of ct_xid] by auto
      then show ?thesis using Cons.prems(5) that by (auto simp: holds_def freed_def)
    qed
    then obtain bs s' where s': "act_each (finalize_owned e commit) ts s1 = (Inr bs, s')"
      "cx_undefined s' \<or> (list_all (\<lambda>b. b) bs \<and> only_log s1 s'
        \<and> views s' (released ts (freed (ct_xid t) a)) (S - {ct_xid t} - ct_xid ` set ts))"
      using Cons.IH [of s1 "freed (ct_xid t) a" "S - {ct_xid t}"] Cons.prems l(3) only_log_resources [OF l(2)]
        only_log_fields(1,5) [OF l(2)] by auto
    moreover have "S - ct_xid ` set (t # ts) = S - {ct_xid t} - ct_xid ` set ts" by auto
    ultimately show ?thesis
      using s1(1) l(1) only_log_trans [OF l(2)] by (auto simp: act_bind_def act_ret_def)
  qed
qed

lemma pending_check_fields [simp]:
  "ct_trid (pending_check t) = ct_trid t" "ct_xid (pending_check t) = ct_xid t" "ct_involved (pending_check t) = ct_involved t"
  "ct_pending (pending_check t) = ct_pending t"
  by (simp_all add: pending_check_def ct_xid_def)

lemma discards_only_log:
  "only_log s (fold (\<lambda>t s. fold (\<lambda>c. cx_event (Discarded c)) (ct_pending t) s) ts s)
   \<and> (\<forall>k. xa_run k (cx_log (fold (\<lambda>t s. fold (\<lambda>c. cx_event (Discarded c)) (ct_pending t) s) ts s)) = xa_run k (cx_log s))"
proof -
  have one: "only_log s (fold (\<lambda>c. cx_event (Discarded c)) cs s)
      \<and> (\<forall>k. xa_run k (cx_log (fold (\<lambda>c. cx_event (Discarded c)) cs s)) = xa_run k (cx_log s))" for cs s
  proof (induction cs arbitrary: s)
    case (Cons c cs)
    have "only_log s (fold (\<lambda>c. cx_event (Discarded c)) cs (cx_event (Discarded c) s))"
      using Cons.IH only_log_event by (blast intro: only_log_trans)
    moreover have "xa_run k (cx_log (cx_event (Discarded c) s)) = xa_run k (cx_log s)" for k
      by (simp add: cx_event_def xa_run_append)
    ultimately show ?case using Cons.IH by simp
  qed simp
  show ?thesis
  proof (induction ts arbitrary: s)
    case (Cons t ts)
    let ?s = "fold (\<lambda>c. cx_event (Discarded c)) (ct_pending t) s"
    show ?case using Cons.IH [of ?s] one [of s "ct_pending t"] only_log_trans by auto
  qed simp
qed

end
