(* ===== verification/CtxRun.thy ===== *)
theory CtxRun
  imports CtxFinal
begin

text \<open>
  The end of a service keeps the invariant, and with it every sequence of the operations of a
  transaction context does.
\<close>

section \<open>\<open>finalize\<close>\<close>

text \<open>What \<open>finalize\<close> answers, when no commit is answered with the rollback stage.\<close>

definition finalize_state :: "handle \<Rightarrow> bool \<Rightarrow> ctx_transaction list \<Rightarrow> reply_state" where
  "finalize_state self commit ts =
     (case filter (foreign self) ts of
        [] \<Rightarrow> if ends_with_pending ts then Reply_error else Reply_active
      | t # _ \<Rightarrow> not_owner_state commit (pending_check t))"

lemma finalize_parts:
  fixes ts :: "ctx_transaction list"
  defines "actual \<equiv> filter (\<lambda>t. \<not> trid_null (ct_trid t)) (map pending_check ts)"
  shows "filter (\<lambda>t. towner (ct_trid t) \<noteq> self) actual = map pending_check (filter (foreign self) ts)"
    "filter (\<lambda>t. towner (ct_trid t) = self) actual
       = map pending_check (filter (\<lambda>t. \<not> trid_null (ct_trid t) \<and> towner (ct_trid t) = self) ts)"
  unfolding actual_def by (induction ts) (simp_all add: foreign_def)

definition ended :: "ctx \<Rightarrow> bool" where
  "ended s \<longleftrightarrow> cx_transactions s = [] \<and> views s None {}"

text \<open>All the associations belong to the transactions of the context.\<close>

lemma stack_released:
  assumes stack: "stack_ok rms ts" and "{t \<in> set ts. \<not> trid_null (ct_trid t)} \<subseteq> set us"
  shows "released us (active_of ts) = None" "suspended_of ts - ct_xid ` set us = {}"
proof -
  have "\<exists>t\<in>set ts. live t \<and> x = ct_xid t" if "active_of ts = Some x" for x
    using that by (auto simp: active_of_def filter_eq_Cons_iff split: list.splits)
  then show "released us (active_of ts) = None"
    using assms(2) unfolding released_def by (cases "active_of ts") (auto simp: live_def)
  have "\<forall>t\<in>set ts. ct_suspended t \<longrightarrow> \<not> trid_null (ct_trid t)" using stack by (simp add: stack_ok_def list_all_iff)
  then show "suspended_of ts - ct_xid ` set us = {}" using assms(2) by (auto simp: suspended_of_def)
qed

lemma released_snoc: "freed (ct_xid u) (released us a) = released (us @ [u]) a"
  by (auto simp: released_def freed_def)

lemma finalize_ends:
  assumes ok: "ctx_ok self s" and e: "good_env self e"
  shows "cx_undefined (snd (cx_finalize e commit s)) \<or>
    (\<exists>s'. cx_finalize e commit s = (Inr (cx_caller s, finalize_state self commit (cx_transactions s)), s')
       \<and> ctx_ok self s' \<and> ended s')"
proof -
  let ?ts = "cx_transactions s" and ?rms = "rs_id ` set (cx_all s)"
  let ?owned = "filter (\<lambda>t. \<not> trid_null (ct_trid t) \<and> towner (ct_trid t) = self) ?ts"
  let ?mine = "map pending_check ?owned" and ?foreign = "filter (foreign self) ?ts"
  let ?s0 = "s\<lparr>cx_transactions := [], cx_caller := (cx_caller s)\<lparr>tformat := -1\<rparr>\<rparr>"
  let ?s1 = "fold (\<lambda>t s. fold (\<lambda>c. cx_event (Discarded c)) (ct_pending t) s) ?ts ?s0"
  have coop: "cooperative e" and self: "ce_self e = self" using e by (simp_all add: good_env_def)
  have stack: "stack_ok ?rms ?ts" by (rule ctx_okD(4) [OF ok])
  have l1: "only_log ?s0 ?s1" "xa_run k (cx_log ?s1) = xa_run k (cx_log s)" for k
    using discards_only_log [of ?s0 ?ts] by simp_all
  note f1 = only_log_fields [OF l1(1)]
  have ok1: "resources_ok ?s1"
    using ctx_okD(1) [OF ok] resources_ok_cong [of ?s1 s] by (simp add: f1)
  have v1: "views ?s1 (active_of ?ts) (suspended_of ?ts)"
    using ctx_okD(6) [OF ok] l1(2) by (simp add: views_def xa_associations_def f1)
  have holds: "\<forall>t\<in>set ?ts. \<not> trid_null (ct_trid t) \<longrightarrow> holds (ct_xid t) (active_of ?ts) (suspended_of ?ts)"
    using stack_holds [OF stack] by blast
  have dist: "distinct (map ct_xid (filter (\<lambda>t. \<not> trid_null (ct_trid t)) ?ts))" using stack by (simp add: stack_ok_def)
  have mine: "list_all (endable e (rs_id ` set (cx_all ?s1))) ?mine"
  proof -
    have "endable e ?rms (pending_check t)" if "t \<in> set ?owned" for t
      using that involved_in [OF ok, of t] by (simp add: endable_def self) (simp add: pending_check_def)
    then show ?thesis by (auto simp: list_all_iff f1)
  qed
  have hm: "\<forall>t\<in>set ?mine. holds (ct_xid t) (active_of ?ts) (suspended_of ?ts)" using holds by auto
  have "distinct (map ct_xid ?owned)" using distinct_map_filter [OF dist, of "\<lambda>t. towner (ct_trid t) = self"] by simp
  moreover have "map ct_xid ?mine = map ct_xid ?owned" by simp
  ultimately have dm: "distinct (map ct_xid ?mine)" by (simp only:)
  have empty1: "cx_transactions ?s1 = []" by (simp add: f1)
  obtain bs s2 where s2: "act_each (finalize_owned e commit) ?mine ?s1 = (Inr bs, s2)"
    "cx_undefined s2 \<or> (list_all (\<lambda>b. b) bs \<and> only_log ?s1 s2
       \<and> views s2 (released ?mine (active_of ?ts)) (suspended_of ?ts - ct_xid ` set ?mine))"
    using finalize_owned_all [OF coop ok1 v1 empty1 mine hm dm] by blast
  have run: "cx_finalize e commit s = (case map pending_check ?foreign of
        [] \<Rightarrow> act_ret (cx_caller s, if ends_with_pending ?ts \<or> \<not> list_all (\<lambda>ok. ok) bs then Reply_error else Reply_active)
      | t # _ \<Rightarrow> act_then (resources_end e t {Flag_success}) (act_ret (cx_caller s, not_owner_state commit t))) s2"
    using s2(1) ctx_okD(5) [OF ok] by (simp add: cx_finalize_def Let_def self finalize_parts act_state_def act_then_def
        act_bind_def act_upd_def not_less del: filter_filter)
  show ?thesis
  proof (cases "cx_undefined s2")
    case True
    have "act_keeps cx_undefined (resources_end e t f)" for t f by (intro keeps_intros)
    then have "cx_undefined (snd (act_then (resources_end e t f) (act_ret y) s2))" for t f and y :: "trid \<times> reply_state"
      using True by (auto simp: act_keeps_def act_then_def act_bind_def act_ret_def split: prod.split sum.split) (metis snd_conv)+
    then show ?thesis using True run by (auto simp: act_ret_def split: list.split)
  next
    case False
    then have d: "list_all (\<lambda>b. b) bs" "only_log ?s1 s2"
      "views s2 (released ?mine (active_of ?ts)) (suspended_of ?ts - ct_xid ` set ?mine)" using s2(2) by auto
    have l2: "only_log ?s0 s2" by (rule only_log_trans [OF l1(1) d(2)])
    have final: "ctx_ok self s'" "ended s'" if l: "only_log ?s0 s'" and v: "views s' None {}" for s'
    proof -
      note f = only_log_fields [OF l]
      have "resources_ok s'" using ctx_okD(1) [OF ok] resources_ok_cong [of s' s] by (simp add: f)
      then show "ctx_ok self s'" "ended s'"
        using v ctx_okD(2,3) [OF ok]
        by (simp_all add: ended_def ctx_ok_def f stack_ok_def active_of_def suspended_of_def)
    qed
    have xids: "ct_xid ` set ?mine = ct_xid ` set ?owned" "released ?mine a = released ?owned a" for a
      by (auto simp: released_def image_image)
    show ?thesis
    proof (cases "?foreign")
      case Nil
      then have sub: "{t \<in> set ?ts. \<not> trid_null (ct_trid t)} \<subseteq> set ?owned" by (auto simp: foreign_def filter_empty_conv)
      have "views s2 None {}" using d(3) stack_released [OF stack sub] by (simp only: xids)
      then show ?thesis
        using run Nil d(1) final [OF l2] by (simp add: act_ret_def finalize_state_def)
    next
      case (Cons u us)
      then have fu: "?foreign = [u]" using ctx_okD(5) [OF ok] by simp
      then have "u \<in> set ?foreign" by (simp only: list.set_intros(1))
      then have u: "u \<in> set ?ts" "foreign self u" by simp_all
      have sub: "{t \<in> set ?ts. \<not> trid_null (ct_trid t)} \<subseteq> set (?owned @ [u])"
      proof
        fix t assume t: "t \<in> {t \<in> set ?ts. \<not> trid_null (ct_trid t)}"
        show "t \<in> set (?owned @ [u])"
        proof (cases "towner (ct_trid t) = self")
          case False
          then have "t \<in> set ?foreign" using t by (simp add: foreign_def)
          then show ?thesis by (simp only: fu) simp
        qed (use t in simp)
      qed
      have hu: "holds (ct_xid u) (active_of ?ts) (suspended_of ?ts)" using holds u by (auto simp: foreign_def)
      have "ct_xid u \<notin> ct_xid ` set ?owned"
      proof
        assume "ct_xid u \<in> ct_xid ` set ?owned"
        then obtain t where t: "t \<in> set ?owned" "ct_xid t = ct_xid u" by auto
        have "inj_on ct_xid (set (filter (\<lambda>t. \<not> trid_null (ct_trid t)) ?ts))" using dist by (simp add: distinct_map)
        then have "t = u" using t u by (auto simp: foreign_def dest: inj_onD)
        then show False using t u(2) by (simp add: foreign_def)
      qed
      then have hu2: "holds (xid_of (ct_trid (pending_check u))) (released ?owned (active_of ?ts)) (suspended_of ?ts - ct_xid ` set ?owned)"
        using hu unfolding holds_def released_def ct_xid_def by auto
      have ok2: "resources_ok s2" using ok1 only_log_resources [OF d(2)] by simp
      have nn: "\<not> trid_null (ct_trid (pending_check u))" using u(2) by (simp add: foreign_def)
      obtain s3 where s3: "resources_end e (pending_check u) {Flag_success} s2 = (Inr (), s3)" "only_log s2 s3"
        "views s3 (freed (xid_of (ct_trid (pending_check u))) (released ?owned (active_of ?ts)))
          (suspended_of ?ts - ct_xid ` set ?owned - {xid_of (ct_trid (pending_check u))})"
        using resources_end_views [OF coop ok2 nn d(3) [unfolded xids] end_frees [OF hu2]] by blast
      have x: "xid_of (ct_trid (pending_check u)) = ct_xid u" by (simp add: ct_xid_def)
      have "suspended_of ?ts - ct_xid ` set ?owned - {ct_xid u} = {}"
        using stack_released(2) [OF stack sub] by auto
      then have "views s3 None {}"
        using s3(3) stack_released(1) [OF stack sub] by (simp only: x released_snoc)
      then show ?thesis
        using run fu s3(1) final [OF only_log_trans [OF l2 s3(2)]]
        by (simp add: act_then_def act_bind_def act_ret_def finalize_state_def)
    qed
  qed
qed

section \<open>Sequences of operations\<close>

datatype ctx_op =
    Step_begin | Step_commit | Step_rollback | Step_suspend | Step_resume trid
  | Step_register int | Step_unregister int
  | Step_control int | Step_return int | Step_timeout int
  | Step_open | Step_close
  | Step_service trid tran_type int int   \<comment> \<open>a request arrives: transaction, semantics, timeout, now\<close>
  | Step_call nat                         \<comment> \<open>the service calls another one\<close>
  | Step_reply trid reply_state nat       \<comment> \<open>and gets the reply\<close>
  | Step_finalize bool                    \<comment> \<open>the service returns\<close>

fun ctx_step :: "ctx_env \<Rightarrow> ctx_op \<Rightarrow> ctx \<Rightarrow> ctx" where
  "ctx_step e Step_begin s = snd (cx_begin e s)"
| "ctx_step e Step_commit s = snd (cx_commit e s)"
| "ctx_step e Step_rollback s = snd (cx_rollback e s)"
| "ctx_step e Step_suspend s = snd (cx_suspend e True s)"
| "ctx_step e (Step_resume x) s = snd (cx_resume e (Some x) s)"
| "ctx_step e (Step_register rm) s = snd (resource_registration e rm s)"
| "ctx_step e (Step_unregister rm) s = snd (resource_unregistration rm s)"
| "ctx_step e (Step_control v) s = snd (set_transaction_control v s)"
| "ctx_step e (Step_return v) s = snd (set_commit_return v s)"
| "ctx_step e (Step_timeout v) s = snd (set_transaction_timeout v s)"
| "ctx_step e Step_open s = snd (cx_open e s)"
| "ctx_step e Step_close s = snd (cx_close e s)"
| "ctx_step e (Step_service t type timeout now) s = snd (policy_transaction e t type timeout now s)"
| "ctx_step e (Step_call corr) s = cx_call corr s"
| "ctx_step e (Step_reply t state corr) s = snd (cx_update t state corr s)"
| "ctx_step e (Step_finalize commit) s = snd (cx_finalize e commit s)"

text \<open>
  What the steps of a sequence ask of the world: it is cooperative and a new id is new. A request
  is handled when the previous one has ended, and the control is never \<open>TX_STACKED\<close>. Nothing is
  claimed after undefined behaviour.
\<close>

fun step_allowed :: "handle \<Rightarrow> ctx_env \<Rightarrow> ctx_op \<Rightarrow> ctx \<Rightarrow> bool" where
  "step_allowed self e (Step_control v) s \<longleftrightarrow> v \<noteq> 42"
| "step_allowed self e (Step_service t type timeout now) s \<longleftrightarrow> cx_transactions s = []"
| "step_allowed self e _ s \<longleftrightarrow> fresh_id e s"

fun ctx_run :: "(ctx_env \<times> ctx_op) list \<Rightarrow> ctx \<Rightarrow> ctx" where
  "ctx_run [] s = s"
| "ctx_run ((e, p) # ps) s = (if cx_undefined s then s else ctx_run ps (ctx_step e p s))"

fun run_allowed :: "handle \<Rightarrow> (ctx_env \<times> ctx_op) list \<Rightarrow> ctx \<Rightarrow> bool" where
  "run_allowed self [] s \<longleftrightarrow> True"
| "run_allowed self ((e, p) # ps) s \<longleftrightarrow> cx_undefined s \<or> step_allowed self e p s \<and> run_allowed self ps (ctx_step e p s)"

lemma open_close_ok:
  assumes "ctx_ok self s"
  shows "ctx_ok self (snd (cx_open e s))" "ctx_ok self (snd (cx_close e s))"
proof -
  have event: "ctx_ok self (cx_event v s)" if "ctx_ok self s" "\<And>k w. xa_step k v w = w" for v s
    using log_ok [OF that(1)] that(2) by (simp add: cx_event_def xa_run_append only_log_def)
  have each: "act_keeps (ctx_ok self) (rs_open e r)" "act_keeps (ctx_ok self) (rs_close e r)" for r
    by (simp_all add: act_keeps_def rs_open_def rs_close_def act_state_def Let_def event)
  have "act_keeps (ctx_ok self) (cx_open e)" "act_keeps (ctx_ok self) (cx_close e)"
    unfolding cx_open_def cx_close_def by (intro keeps_intros each)+
  then show "ctx_ok self (snd (cx_open e s))" "ctx_ok self (snd (cx_close e s))"
    using assms by (simp_all add: act_keeps_def)
qed

lemma step_ok:
  assumes ok: "ctx_ok self s" and e: "good_env self e" and a: "step_allowed self e p s"
  shows "cx_undefined (ctx_step e p s) \<or> ctx_ok self (ctx_step e p s)"
proof (cases p)
  case (Step_finalize commit)
  then show ?thesis using finalize_ends [OF ok e, of commit] by auto
next
  case (Step_service t type timeout now)
  then obtain s' where "policy_transaction e t type timeout now s = (Inr (), s')" "ctx_ok self s'"
    using a policy_ok [OF ok e, of t type timeout now] by auto
  then show ?thesis using Step_service by simp
qed (use a in \<open>simp_all add: begin_ok [OF ok e] ctx_commit_ok [OF ok e] ctx_rollback_ok [OF ok e] suspend_ok [OF ok e]
    resume_ok [OF ok e] registration_ok [OF ok] unregistration_ok [OF ok] attributes_ok [OF ok] call_ok [OF ok]
    ctx_update_ok [OF ok] open_close_ok [OF ok]\<close>)

lemma run_keeps:
  "ctx_ok self s \<Longrightarrow> list_all (\<lambda>(e, p). good_env self e) ps \<Longrightarrow> run_allowed self ps s \<Longrightarrow>
    cx_undefined (ctx_run ps s) \<or> ctx_ok self (ctx_run ps s)"
proof (induction ps arbitrary: s)
  case (Cons q ps)
  obtain e p where q: "q = (e, p)" by fastforce
  show ?case
  proof (cases "cx_undefined s \<or> cx_undefined (ctx_step e p s)")
    case True
    then show ?thesis by (cases ps) (auto simp: q)
  next
    case False
    then have "ctx_ok self (ctx_step e p s)" using step_ok [of self s e p] Cons.prems q by auto
    then show ?thesis using False Cons.IH Cons.prems q by auto
  qed
qed simp

section \<open>A configured context\<close>

text \<open>The context after \<open>configure\<close>: nothing was sent to a resource manager but the open.\<close>

definition configured :: "xa_resource list \<Rightarrow> xa_resource list \<Rightarrow> ctx" where
  "configured dynamic fixed =
     initial_ctx\<lparr>cx_dynamic := dynamic, cx_fixed := fixed, cx_all := dynamic @ fixed\<rparr>"

lemma configured_ok:
  assumes "distinct (map rs_id (dynamic @ fixed))"
  shows "ctx_ok self (configured dynamic fixed)"
  using assms
  by (simp add: ctx_ok_def resources_ok_def configured_def initial_ctx_def new_transaction_def null_trid_def trid_null_def
      stack_ok_def views_def active_of_def suspended_of_def xa_run_def xa_associations_def list_all_iff)

end
