(* ===== verification/CtxProperties.thy ===== *)
theory CtxProperties
  imports CtxRun
begin

text \<open>
  The properties of the transaction context, and how its commit meets the transaction manager.
\<close>

section \<open>A concrete world\<close>

text \<open>The world of the witnesses: every answer is the good one, the id is the argument.\<close>

definition calm_env :: "8 word \<Rightarrow> ctx_env" where
  "calm_env n = \<lparr>ce_self = \<lparr>hpid = 1, hipc = 1\<rparr>, ce_now = 0, ce_gtrid = [n], ce_bqual = [n],
     ce_xa = (\<lambda>_ _ _ _ _. Xa_ok), ce_open = (\<lambda>_ _. Xa_ok), ce_close = (\<lambda>_ _. Xa_ok),
     ce_involved = (\<lambda>_ _ _. Some []), ce_commit = (\<lambda>_ _ _. Some (Stage_commit, Tx_ok)),
     ce_second = (\<lambda>_ _. Tx_ok), ce_rollback = (\<lambda>_ _ _. Some Tx_ok), ce_alias = (\<lambda>_ _. Some [])\<rparr>"

lemma calm_good: "good_env \<lparr>hpid = 1, hipc = 1\<rparr> (calm_env n)"
  by (simp add: good_env_def cooperative_def calm_env_def)

text \<open>A manager that answers the rollback stage.\<close>

definition rollback_env :: ctx_env where
  "rollback_env = (calm_env 2)\<lparr>ce_commit := (\<lambda>_ _ _. Some (Stage_rollback, Tx_rollback))\<rparr>"

definition plain_resource :: "int \<Rightarrow> xa_resource" where
  "plain_resource n = \<lparr>rs_id = n, rs_key = [], rs_dynamic = False, rs_openinfo = [], rs_closeinfo = []\<rparr>"

section \<open>What a call may change\<close>

text \<open>Calls of resource managers return, and change nothing of the context but its log.\<close>

definition only_calls :: "(ctx, 'a) act \<Rightarrow> bool" where
  "only_calls f \<longleftrightarrow> (\<forall>s. \<exists>y s'. f s = (Inr y, s') \<and> only_log s s')"

lemma only_callsE:
  assumes "only_calls f"
  obtains y s' where "f s = (Inr y, s')" "only_log s s'"
  using assms unfolding only_calls_def by blast

lemma only_calls_ret [simp]: "only_calls (act_ret x)"
  by (simp add: only_calls_def act_ret_def)

lemma only_calls_bind: "only_calls f \<Longrightarrow> (\<And>x. only_calls (g x)) \<Longrightarrow> only_calls (act_bind f g)"
proof -
  assume f: "only_calls f" and g: "\<And>x. only_calls (g x)"
  have "\<exists>y s'. act_bind f g s = (Inr y, s') \<and> only_log s s'" for s
  proof -
    obtain x s1 where x: "f s = (Inr x, s1)" "only_log s s1" using f by (rule only_callsE)
    obtain y s' where "g x s1 = (Inr y, s')" "only_log s1 s'" using g by (rule only_callsE)
    then show ?thesis using x only_log_trans by (auto simp: act_bind_def)
  qed
  then show ?thesis by (simp add: only_calls_def)
qed

lemma only_calls_then: "only_calls f \<Longrightarrow> only_calls g \<Longrightarrow> only_calls (act_then f g)"
  unfolding act_then_def by (rule only_calls_bind)

lemma only_calls_each: "(\<And>x. only_calls (f x)) \<Longrightarrow> only_calls (act_each f xs)"
proof (induction xs)
  case (Cons x xs)
  then show ?case by (simp add: only_calls_bind)
qed (simp add: act_ret_def only_calls_def)

lemma only_log_events: "only_log s (cx_event v (cx_event w s))"
  by (rule only_log_trans [OF only_log_event only_log_event])

lemma only_calls_resource:
  "only_calls (xa_entry e op r t flags)" "only_calls (rs_open e r)" "only_calls (rs_close e r)"
  by (simp_all add: only_calls_def xa_entry_def rs_open_def rs_close_def act_state_def Let_def only_log_events)

lemma only_calls_guard: "only_calls f \<Longrightarrow> only_calls (reopen_guard e r f)"
  unfolding reopen_guard_def by (auto intro!: only_calls_bind only_calls_then only_calls_resource)

lemma only_calls_entries: "only_calls (rs_end e r t flags)" "only_calls (rs_commit e r t flags)" "only_calls (rs_rollback e r t flags)"
  unfolding rs_end_def rs_commit_def rs_rollback_def by (rule only_calls_guard [OF only_calls_resource(1)])+

lemma only_calls_ends: "only_calls (resources_end e t flags)"
proof -
  have "only_calls (act_get f)" for f :: "ctx \<Rightarrow> 'b" by (simp add: only_calls_def act_get_def)
  then show ?thesis unfolding resources_end_def
    by (auto intro!: only_calls_bind only_calls_then only_calls_each only_calls_entries)
qed

section \<open>Calls of resource managers\<close>

text \<open>
  C4. Take any sequence of operations on the transaction context with control \<open>TX_UNCHAINED\<close> or
  \<open>TX_CHAINED\<close>, in which a request is handled after the previous one has ended, new ids are new, and
  every manager can be reached and does not refuse (resources start and commit, the transaction
  manager answers \<open>TX_OK\<close> or the rollback stage). Then no call of a fixed resource manager is out of
  place: \<open>xa_start\<close> reaches it only while it has no active association, with \<open>TMRESUME\<close> exactly for
  a branch that is suspended and never together with \<open>TMJOIN\<close>; \<open>xa_end\<close> ends an association it has,
  with either \<open>TMSUCCESS\<close> or \<open>TMSUSPEND\<close>; \<open>xa_commit\<close> and \<open>xa_rollback\<close> come after the successful
  \<open>xa_end\<close> of their branch, at most once. At the end it is associated with the current transaction
  only, and its suspended associations are those of the suspended transactions. (Whether \<open>TMJOIN\<close> is
  right is not part of this; with \<open>TX_STACKED\<close> it does not hold, \<open>stacked_control_misplaced\<close>.)
\<close>

theorem xa_calls_legal:
  assumes "distinct (map rs_id (dynamic @ fixed))" and "list_all (\<lambda>(e, p). good_env self e) ps"
    and "run_allowed self ps (configured dynamic fixed)" and "s = ctx_run ps (configured dynamic fixed)"
    and "\<not> cx_undefined s" and "r \<in> set (cx_fixed s)"
  shows "xa_associations (rs_id r) (cx_log s) =
    Some (if trid_null (ct_trid (cx_current s)) then None else Some (xid_of (ct_trid (cx_current s))),
          xid_of ` ct_trid ` {t \<in> set (cx_transactions s). ct_suspended t})"
proof -
  have ok: "ctx_ok self s" using run_keeps [OF configured_ok [OF assms(1)] assms(2,3)] assms(4,5) by simp
  have a: "active_of (cx_transactions s) =
      (if trid_null (ct_trid (cx_current s)) then None else Some (xid_of (ct_trid (cx_current s))))"
    using ok
  proof (cases rule: current_cases)
    case (live us t)
    then show ?thesis
      using stack_last(3) [of _ us t] ctx_okD(4) [OF ok] by (simp add: live_def ct_xid_def)
  qed simp
  have "suspended_of (cx_transactions s) = xid_of ` ct_trid ` {t \<in> set (cx_transactions s). ct_suspended t}"
    by (auto simp: suspended_of_def ct_xid_def)
  then show ?thesis using ctx_okD(6) [OF ok] assms(6) a by (simp add: views_def list_all_iff)
qed

definition sample_steps :: "(ctx_env \<times> ctx_op) list" where
  "sample_steps = [(calm_env 1, Step_begin), (calm_env 2, Step_suspend), (calm_env 2, Step_begin), (calm_env 3, Step_commit),
     (calm_env 3, Step_begin)]"

lemmas ctx_eval = calm_env_def plain_resource_def configured_def initial_ctx_def new_transaction_def null_trid_def
  trid_null_def trid_eq_def cx_begin_def cx_commit_def cx_suspend_def cx_resume_def begin_resources_def resources_end_def
  resources_start_def start_transaction_def commit_transaction_def commit_distributed_def resource_commit_def raise_if_not_ok_def
  pop_transaction_def rs_start_def rs_end_def rs_commit_def reopen_guard_def xa_entry_def act_defs act_state_def
  cx_event_def cx_push_def cx_current_def in_transaction_mode_def cx_current_set_def cx_last_set_def ct_local_def
  fresh_id_def Let_def

theorem xa_calls_legal_witness:
  "let s = ctx_run sample_steps (configured [] [plain_resource 7])
   in cx_fixed s = [plain_resource 7] \<and> xa_associations 7 (cx_log s) = Some (Some (42, [3], [3]), {(42, [1], [1])})"
proof -
  let ?c = "configured [] [plain_resource 7]" and ?self = "\<lparr>hpid = 1, hipc = 1\<rparr> :: handle"
  let ?s = "ctx_run sample_steps ?c"
  have run: "run_allowed ?self sample_steps ?c"
    by (simp add: sample_steps_def ctx_eval)
  have v: "\<not> cx_undefined ?s" "cx_fixed ?s = [plain_resource 7]"
    "ct_trid (cx_current ?s) = \<lparr>gtrid = [3], bqual = [3], tformat = 42, towner = ?self\<rparr>"
    "map ct_trid (filter ct_suspended (cx_transactions ?s)) = [\<lparr>gtrid = [1], bqual = [1], tformat = 42, towner = ?self\<rparr>]"
    by (simp_all add: sample_steps_def ctx_eval)
  have set: "ct_trid ` {t \<in> set (cx_transactions ?s). ct_suspended t} = {\<lparr>gtrid = [1], bqual = [1], tformat = 42, towner = ?self\<rparr>}"
    using arg_cong [OF v(4), of set] by simp
  have "list_all (\<lambda>(e, p). good_env ?self e) sample_steps" using calm_good by (simp add: sample_steps_def)
  then have "xa_associations (rs_id (plain_resource 7)) (cx_log ?s) = Some (Some (42, [3], [3]), {(42, [1], [1])})"
    using xa_calls_legal [of "[]" "[plain_resource 7]" ?self sample_steps ?s "plain_resource 7", OF _ _ run refl v(1)]
    unfolding v(2,3) set by (simp add: trid_null_def xid_of_def)
  then have "xa_associations 7 (cx_log ?s) = Some (Some (42, [3], [3]), {(42, [1], [1])})" by (simp add: plain_resource_def)
  then show ?thesis using v(2) by (simp add: Let_def)
qed

text \<open>With \<open>TX_STACKED\<close> the end of the inner transaction sends an \<open>xa_end\<close> that is out of place.\<close>

theorem stacked_control_misplaced:
  "xa_associations 7 (cx_log (ctx_run [(calm_env 1, Step_begin), (calm_env 2, Step_control 42), (calm_env 2, Step_begin),
     (calm_env 3, Step_commit)] (configured [] [plain_resource 7]))) = None"
  by (simp add: ctx_eval set_transaction_control_def xa_associations_def xa_run_def xid_of_def)

section \<open>The end of a service\<close>

text \<open>When no commit is answered with the rollback stage, nothing pops the moved transactions.\<close>

lemma calls_keep_defined: "only_calls f \<Longrightarrow> act_keeps (\<lambda>s. \<not> cx_undefined s) f"
  unfolding act_keeps_def by (metis only_callsE only_log_fields(10) snd_conv)

lemma commit_keeps_defined:
  assumes "\<forall>l t rms code. ce_commit e l t rms \<noteq> Some (Stage_rollback, code)"
  shows "act_keeps (\<lambda>s. \<not> cx_undefined s) (commit_transaction e t)"
proof -
  let ?N = "\<lambda>s. \<not> cx_undefined s"
  have raise: "act_keeps ?N (raise_if_not_ok code)" for code unfolding raise_if_not_ok_def by (intro keeps_intros)
  have "act_keeps ?N (rs_commit e r t flags)" for r t flags by (rule calls_keep_defined [OF only_calls_entries(2)])
  then have one: "act_keeps ?N (resource_commit e rm t flags)" for rm flags
    unfolding resource_commit_def by (auto split: option.split intro!: keeps_intros raise)
  have "?N (snd (commit_distributed e t s))" if "?N s" for s
  proof (cases "ce_commit e (cx_log s) (ct_trid t) (ct_involved t)")
    case (Some reply)
    obtain stage code where reply: "reply = (stage, code)" by fastforce
    then have "stage \<noteq> Stage_rollback" using Some assms by blast
    then show ?thesis
      using that Some reply
      by (cases stage; cases "cx_commit_return s")
        (simp_all add: commit_distributed_def act_defs act_state_def raise_if_not_ok_def cx_event_def)
  qed (use that in \<open>simp add: commit_distributed_def act_defs act_state_def cx_event_def\<close>)
  then have "act_keeps ?N (commit_distributed e t)" by (simp add: act_keeps_def)
  then show ?thesis
    unfolding commit_transaction_def
    by (auto intro!: keeps_intros one calls_keep_defined [OF only_calls_ends])
qed

lemma finalize_defined:
  assumes e: "\<forall>l t rms code. ce_commit e l t rms \<noteq> Some (Stage_rollback, code)" and s: "\<not> cx_undefined s"
  shows "\<not> cx_undefined (snd (cx_finalize e commit s))"
proof -
  let ?N = "\<lambda>s. \<not> cx_undefined s"
  have raise: "act_keeps ?N (raise_if_not_ok code)" for code unfolding raise_if_not_ok_def by (intro keeps_intros)
  have "act_keeps ?N (rs_rollback e r t flags)" for r t flags by (rule calls_keep_defined [OF only_calls_entries(3)])
  then have one: "act_keeps ?N (resource_rollback e rm t)" for rm t
    unfolding resource_rollback_def by (auto split: option.split intro!: keeps_intros raise)
  have ask: "act_keeps ?N (act_state (\<lambda>s. (f s, cx_event (v s) s)))" for f :: "ctx \<Rightarrow> tx option" and v
    by (simp add: act_keeps_def act_state_def cx_event_def)
  have ends: "act_keeps ?N (resources_end e t flags)" for t flags by (rule calls_keep_defined [OF only_calls_ends])
  have roll: "act_keeps ?N (rollback_transaction e t)" for t
    unfolding rollback_transaction_def by (auto split: option.split intro!: keeps_intros one ends ask raise)
  have "?N (snd (finalize_owned e commit t s))" if "?N s" for t s
  proof -
    have "?N (snd ((if commit \<and> ct_state t = Trans_active then commit_transaction e t else rollback_transaction e t) s))"
      using that commit_keeps_defined [OF e, of t] roll [of t] by (simp add: act_keeps_def)
    then show ?thesis unfolding finalize_owned_def by (auto split: prod.split sum.split)
  qed
  then have owned: "act_keeps ?N (finalize_owned e commit t)" for t by (simp add: act_keeps_def)
  have discards: "?N (fold (\<lambda>t s. fold (\<lambda>c. cx_event (Discarded c)) (ct_pending t) s) ts s)" if "?N s" for ts s
    using that discards_only_log [of s ts] only_log_fields(10) by metis
  have taken: "act_keeps ?N (act_state (\<lambda>s. ((cx_transactions s, cx_caller s), s\<lparr>cx_transactions := [], cx_caller := f s\<rparr>)))" for f
    by (simp add: act_keeps_def act_state_def)
  have others: "act_keeps ?N (case ts of [] \<Rightarrow> act_ret x | t # _ \<Rightarrow> act_then (resources_end e t f) (act_ret (y t)))"
    for ts f x and y :: "ctx_transaction \<Rightarrow> trid \<times> reply_state"
    by (cases ts) (simp_all add: keeps_intros ends)
  have "act_keeps ?N (cx_finalize e commit)"
    unfolding cx_finalize_def Let_def
    by (intro keeps_intros taken keeps_upd discards owned others)
  then show ?thesis using s by (simp add: act_keeps_def)
qed

text \<open>
  C15. In a cooperative world, from a context in order, and when the transaction manager answers no
  commit with the rollback stage: \<open>finalize\<close> consumes every transaction of the process and leaves no
  fixed resource manager with an association, active or suspended; it answers with the transaction
  of the caller and the state that the transactions and the result of the service ask for. (With an
  answer of the rollback stage the empty vector of transactions is popped,
  \<open>finalize_pops_nothing\<close>.)
\<close>

theorem finalize_releases:
  assumes "ctx_ok self s" and "\<not> cx_undefined s" and "good_env self e"
    and "\<forall>l t rms code. ce_commit e l t rms \<noteq> Some (Stage_rollback, code)"
  shows "\<exists>s'. cx_finalize e commit s = (Inr (cx_caller s, finalize_state self commit (cx_transactions s)), s')
     \<and> \<not> cx_undefined s' \<and> cx_transactions s' = []
     \<and> (\<forall>r\<in>set (cx_fixed s'). xa_associations (rs_id r) (cx_log s') = Some (None, {}))"
  using finalize_ends [OF assms(1,3), of commit] finalize_defined [OF assms(4,2), of commit]
  by (auto simp: ended_def views_def list_all_iff)

definition foreign_trid :: trid where
  "foreign_trid = \<lparr>gtrid = [9], bqual = [9], tformat = 42, towner = \<lparr>hpid = 2, hipc = 2\<rparr>\<rparr>"

theorem finalize_releases_witness:
  "let s = snd (policy_transaction (calm_env 1) foreign_trid Tran_join 0 0 (configured [] [plain_resource 7]));
       (r, s') = cx_finalize (calm_env 1) False s
   in r = Inr (foreign_trid, Reply_rollback) \<and> cx_transactions s' = [] \<and> xa_associations 7 (cx_log s') = Some (None, {})"
proof -
  let ?self = "\<lparr>hpid = 1, hipc = 1\<rparr> :: handle" and ?c = "configured [] [plain_resource 7]"
  let ?s = "snd (policy_transaction (calm_env 1) foreign_trid Tran_join 0 0 ?c)"
  have e: "good_env ?self (calm_env 1)" by (rule calm_good)
  have c: "ctx_ok ?self ?c" by (rule configured_ok) simp
  have ok: "ctx_ok ?self ?s"
    using policy_ok [OF c e, of foreign_trid Tran_join 0 0] by (auto simp: configured_def initial_ctx_def)
  have v: "\<not> cx_undefined ?s" "cx_caller ?s = foreign_trid"
    "finalize_state ?self False (cx_transactions ?s) = Reply_rollback"
    "cx_fixed (snd (cx_finalize (calm_env 1) False ?s)) = [plain_resource 7]"
    by (simp_all add: policy_transaction_def cx_join_def set_deadline_def foreign_trid_def cx_finalize_def tm_involved_def
        check_results_def ct_involve_def append_unique_value_def join_flag_def finalize_state_def foreign_def pending_check_def
        not_owner_state_def ctx_eval)
  have never: "\<forall>l t rms code. ce_commit (calm_env 1) l t rms \<noteq> Some (Stage_rollback, code)" by (simp add: calm_env_def)
  from finalize_releases [OF ok v(1) e never, of False] v show ?thesis by (auto simp: Let_def plain_resource_def)
qed

text \<open>The service began a transaction over two resources, and its commit is answered by the rollback stage.\<close>

theorem finalize_pops_nothing:
  "let s = snd (policy_transaction (calm_env 1) null_trid Tran_atomic 0 0 (configured [] [plain_resource 7, plain_resource 8]))
   in \<not> cx_undefined s \<and> cx_undefined (snd (cx_finalize rollback_env True s))"
  by (simp add: policy_transaction_def cx_start_def set_deadline_def rollback_env_def cx_finalize_def finalize_owned_def
      check_results_def ct_involve_def append_unique_value_def join_flag_def pending_check_def ctx_eval)

section \<open>A begin that fails\<close>

lemma entry_constant:
  assumes "\<forall>l rm. ce_xa e l rm op t flags = code rm" and "\<forall>rm. code rm \<noteq> Xa_resource_fail"
  shows "reopen_guard e r (xa_entry e op r t flags) s =
    (Inr (code (rs_id r)), s\<lparr>cx_log := cx_log s @ [Xa_called (rs_id r) op t flags (code (rs_id r))]\<rparr>)"
  using entry_called [of e op t flags r s] assms by (simp add: cx_event_def)

lemma act_bind_result: "f s = (Inr x, s') \<Longrightarrow> act_bind f g s = g x s'"
  by (simp add: act_bind_def)

lemma starts_logged:
  assumes start: "\<forall>l rm. ce_xa e l rm Op_start t {} = start rm" and codes: "\<forall>rm. start rm \<notin> {Xa_resource_fail, Xa_duplicate_xid}"
  shows "act_each (\<lambda>r. act_bind (rs_start e r t {}) (\<lambda>code. act_ret (r, P code))) rs s =
    (Inr (map (\<lambda>r. (r, P (start (rs_id r)))) rs),
     s\<lparr>cx_log := cx_log s @ map (\<lambda>r. Xa_called (rs_id r) Op_start t {} (start (rs_id r))) rs\<rparr>)"
proof (induction rs arbitrary: s)
  case (Cons r rs)
  have "act_bind (rs_start e r t {}) (\<lambda>code. act_ret (r, P code)) s =
      (Inr (r, P (start (rs_id r))), s\<lparr>cx_log := cx_log s @ [Xa_called (rs_id r) Op_start t {} (start (rs_id r))]\<rparr>)"
    using entry_constant [OF start, of r s] codes by (simp add: rs_start_def act_bind_def act_ret_def)
  then show ?case by (simp add: act_bind_result [OF Cons.IH] act_bind_result) (simp add: act_ret_def)
qed (simp add: act_ret_def)

lemma ends_logged:
  assumes "\<forall>l rm. ce_xa e l rm Op_end t flags = fin rm" and "\<forall>rm. fin rm \<noteq> Xa_resource_fail"
  shows "act_each (\<lambda>r. rs_end e r t flags) rs s =
    (Inr (map (\<lambda>r. fin (rs_id r)) rs),
     s\<lparr>cx_log := cx_log s @ map (\<lambda>r. Xa_called (rs_id r) Op_end t flags (fin (rs_id r))) rs\<rparr>)"
proof (induction rs arbitrary: s)
  case (Cons r rs)
  then show ?case by (simp add: rs_end_def entry_constant [OF assms] act_bind_def act_ret_def)
qed (simp add: act_ret_def)

text \<open>
  C21. When a fixed resource manager refuses to start, \<open>tx_begin\<close> answers \<open>TX_ERROR\<close>, no transaction is
  added, and after the calls to start exactly the ones that did start are told to end.
\<close>

theorem begin_failure_ends_started:
  fixes e :: ctx_env and s :: ctx and start fin :: "int \<Rightarrow> xa"
  defines "t \<equiv> \<lparr>gtrid = ce_gtrid e, bqual = ce_bqual e, tformat = 42, towner = ce_self e\<rparr>"
    and "good \<equiv> filter (\<lambda>r. start (rs_id r) \<in> {Xa_ok, Xa_read_only}) (cx_fixed s)"
  assumes start: "\<forall>l rm. ce_xa e l rm Op_start t {} = start rm" "\<forall>rm. start rm \<notin> {Xa_resource_fail, Xa_duplicate_xid}"
    and fin: "\<forall>l rm. ce_xa e l rm Op_end t {Flag_success} = fin rm" "\<forall>rm. fin rm \<noteq> Xa_resource_fail"
    and outside: "trid_null (ct_trid (cx_current s))" "ct_dynamic (cx_current s) = []"
    and fails: "\<exists>r\<in>set (cx_fixed s). start (rs_id r) \<notin> {Xa_ok, Xa_read_only}"
  shows "\<exists>s'. tx_begin e s = (Tx_error, s') \<and> cx_transactions s' = cx_transactions s \<and> cx_empty s' = cx_empty s
    \<and> cx_log s' = cx_log s @ map (\<lambda>r. Xa_called (rs_id r) Op_start t {} (start (rs_id r))) (cx_fixed s)
                           @ map (\<lambda>r. Xa_called (rs_id r) Op_end t {Flag_success} (fin (rs_id r))) good"
proof -
  let ?P = "\<lambda>code. code \<in> {Xa_ok, Xa_read_only}"
  let ?ys = "map (\<lambda>r. (r, ?P (start (rs_id r)))) (cx_fixed s)"
  have parts: "map fst (filter snd (map (\<lambda>r. (r, Q r)) rs)) = filter Q rs"
    "map fst (filter (\<lambda>x. \<not> snd x) (map (\<lambda>r. (r, Q r)) rs)) = filter (\<lambda>r. \<not> Q r) rs"
    "filter (\<lambda>x. \<not> snd x) (map (\<lambda>r. (r, Q r)) rs) = [] \<longleftrightarrow> filter (\<lambda>r. \<not> Q r) rs = []" for Q and rs :: "xa_resource list"
    by (induction rs) auto
  have bad: "filter (\<lambda>r. \<not> ?P (start (rs_id r))) (cx_fixed s) \<noteq> []" using fails by (auto simp: filter_empty_conv)
  have t: "ct_trid (start_transaction e n) = t" for n by (simp add: start_transaction_def t_def)
  show ?thesis
    using outside bad
    by (simp add: tx_begin_def tx_wrap_def cx_begin_def begin_resources_def t Let_def act_defs starts_logged [OF start]
        ends_logged [OF fin] parts good_def [symmetric] del: insert_iff)
qed

definition refusing_env :: ctx_env where
  "refusing_env = (calm_env 1)\<lparr>ce_xa := (\<lambda>_ rm op _ _. if op = Op_start \<and> rm = 8 then Xa_resource_error else Xa_ok)\<rparr>"

theorem begin_failure_ends_started_witness:
  "fst (tx_begin refusing_env (configured [] [plain_resource 7, plain_resource 8])) = Tx_error"
proof -
  let ?start = "\<lambda>rm. if rm = 8 then Xa_resource_error else Xa_ok" and ?s = "configured [] [plain_resource 7, plain_resource 8]"
  have codes: "\<forall>l rm. ce_xa refusing_env l rm Op_start t {} = ?start rm" "\<forall>rm. ?start rm \<notin> {Xa_resource_fail, Xa_duplicate_xid}"
    "\<forall>l rm. ce_xa refusing_env l rm Op_end t {Flag_success} = Xa_ok" "\<forall>rm :: int. Xa_ok \<noteq> Xa_resource_fail" for t
    by (simp_all add: refusing_env_def)
  have "trid_null (ct_trid (cx_current ?s))" "ct_dynamic (cx_current ?s) = []"
    "\<exists>r\<in>set (cx_fixed ?s). ?start (rs_id r) \<notin> {Xa_ok, Xa_read_only}"
    by (simp_all add: ctx_eval)
  from begin_failure_ends_started [OF codes this] obtain s' where "tx_begin refusing_env ?s = (Tx_error, s')" by blast
  then show ?thesis by simp
qed

section \<open>Commit\<close>

text \<open>
  Who decides a commit and what: nobody without a resource, the one resource of a transaction that
  never left the process, the transaction manager otherwise. The second part says whether the
  transaction has ended.
\<close>

definition commit_answer :: "ctx_env \<Rightarrow> ctx_transaction \<Rightarrow> ctx \<Rightarrow> tx \<times> bool" where
  "commit_answer e t s =
     (let all_or_none = (\<lambda>code. (code, code = Tx_ok)); rms = ct_involved t @ map rs_id (cx_fixed s)
      in if ct_local (ce_self e) t \<and> length rms \<le> 1
         then (case rms of
             [] \<Rightarrow> (Tx_ok, True)
           | rm # _ \<Rightarrow> (case List.find (\<lambda>r. rs_id r = rm) (cx_all s) of
                 None \<Rightarrow> (Tx_error, False)
               | Some r \<Rightarrow> all_or_none (case rs_commit e r (ct_trid t) {Flag_one_phase} s of
                     (Inr code, _) \<Rightarrow> to_tx code
                   | (Inl _, _) \<Rightarrow> Tx_error)))
         else (let asked = cx_event (Tm_commit (ct_trid t) (ct_involved t)) s
           in case ce_commit e (cx_log s) (ct_trid t) (ct_involved t) of
             None \<Rightarrow> (Tx_error, False)
           | Some (Stage_prepare, code) \<Rightarrow>
               all_or_none (if cx_commit_return s = Return_logged then code else ce_second e (cx_log asked) (ct_trid t))
           | Some (Stage_commit, code) \<Rightarrow> all_or_none code
           | Some (Stage_rollback, _) \<Rightarrow> (Tx_rollback, True)))"

text \<open>The answer of a commit, and whether it takes the current transaction away.\<close>

definition answers :: "ctx_env \<Rightarrow> (ctx, unit) act \<Rightarrow> tx \<times> bool \<Rightarrow> ctx \<Rightarrow> bool" where
  "answers e f answer s \<longleftrightarrow> (\<exists>s'. tx_wrap (act_then f (pop_transaction e)) s = (fst answer, s')
     \<and> cx_transactions s' = (if snd answer then butlast (cx_transactions s) else cx_transactions s))"

lemma answers_ok:
  assumes "f s = (Inr (), s1)" and "only_log s s1" and "cx_control s = Unchained" and "cx_transactions s \<noteq> []"
  shows "answers e f (Tx_ok, True) s"
  using assms by (simp add: answers_def act_defs pop_transaction_def tx_wrap_def only_log_fields)

lemma answers_raised:
  assumes "f s = (Inl (Tx_raised code), s1)" and "only_log s s1"
  shows "answers e f (code, False) s"
  using assms by (simp add: answers_def act_defs tx_wrap_def only_log_fields)

lemma answers_checked:
  assumes "f s = raise_if_not_ok code s1" and "only_log s s1" and "cx_control s = Unchained" and "cx_transactions s \<noteq> []"
  shows "answers e f (code, code = Tx_ok) s"
  using assms answers_ok [OF _ assms(2-4)] answers_raised [OF _ assms(2)]
  by (cases "code = Tx_ok") (simp_all add: raise_if_not_ok_def act_ret_def act_raise_def)

lemma resource_commit_answers:
  assumes "cx_control s = Unchained" and "cx_transactions s \<noteq> []"
  shows "answers e (resource_commit e rm t flags)
    (case List.find (\<lambda>r. rs_id r = rm) (cx_all s) of
       None \<Rightarrow> (Tx_error, False)
     | Some r \<Rightarrow> let code = (case rs_commit e r (ct_trid t) flags s of (Inr code, _) \<Rightarrow> to_tx code | (Inl _, _) \<Rightarrow> Tx_error)
                 in (code, code = Tx_ok)) s"
proof (cases "List.find (\<lambda>r. rs_id r = rm) (cx_all s)")
  case None
  then have "resource_commit e rm t flags s = (Inl (Tx_raised Tx_error), s)" by (simp add: resource_commit_def act_defs)
  from answers_raised [where f = "resource_commit e rm t flags", OF this only_log_refl] show ?thesis using None by simp
next
  case (Some r)
  obtain c s1 where r: "rs_commit e r (ct_trid t) flags s = (Inr c, s1)" "only_log s s1"
    using only_calls_entries(2) by (rule only_callsE)
  have "resource_commit e rm t flags s = raise_if_not_ok (to_tx c) s1"
    using Some r(1) by (simp add: resource_commit_def act_defs)
  from answers_checked [where f = "resource_commit e rm t flags", OF this r(2) assms] show ?thesis using Some r(1) by (simp add: Let_def)
qed

lemma commit_distributed_answers:
  assumes "cx_control s = Unchained" and "cx_transactions s \<noteq> []"
  shows "answers e (commit_distributed e t)
    (case ce_commit e (cx_log s) (ct_trid t) (ct_involved t) of
       None \<Rightarrow> (Tx_error, False)
     | Some (Stage_prepare, code) \<Rightarrow>
         (let second = (if cx_commit_return s = Return_logged then code
                        else ce_second e (cx_log (cx_event (Tm_commit (ct_trid t) (ct_involved t)) s)) (ct_trid t))
          in (second, second = Tx_ok))
     | Some (Stage_commit, code) \<Rightarrow> (code, code = Tx_ok)
     | Some (Stage_rollback, _) \<Rightarrow> (Tx_rollback, True)) s"
proof (cases "ce_commit e (cx_log s) (ct_trid t) (ct_involved t)")
  case None
  then show ?thesis by (simp add: answers_def commit_distributed_def act_defs act_state_def tx_wrap_def cx_event_def)
next
  case (Some reply)
  let ?s = "cx_event (Tm_commit (ct_trid t) (ct_involved t)) s"
  obtain stage code where reply: "reply = (stage, code)" by fastforce
  note run = commit_distributed_def act_defs act_state_def
  show ?thesis
  proof (cases stage)
    case Stage_prepare
    show ?thesis
    proof (cases "cx_commit_return s")
      case Return_logged
      have "commit_distributed e t s = raise_if_not_ok code (cx_event (Discarded_reply (ct_trid t)) ?s)"
        using Some reply Stage_prepare Return_logged by (simp add: run cx_event_def)
      from answers_checked [where f = "commit_distributed e t", OF this _ assms] show ?thesis
        using Some reply Stage_prepare Return_logged by (simp add: Let_def only_log_events)
    next
      case Return_completed
      have "commit_distributed e t s = raise_if_not_ok (ce_second e (cx_log ?s) (ct_trid t)) (cx_event (Second_reply (ct_trid t)) ?s)"
        using Some reply Stage_prepare Return_completed by (simp add: run cx_event_def)
      from answers_checked [where f = "commit_distributed e t", OF this _ assms] show ?thesis
        using Some reply Stage_prepare Return_completed by (simp add: Let_def only_log_events)
    qed
  next
    case Stage_commit
    have "commit_distributed e t s = raise_if_not_ok code ?s" using Some reply Stage_commit by (simp add: run)
    from answers_checked [where f = "commit_distributed e t", OF this _ assms] show ?thesis using Some reply Stage_commit by simp
  next
    case Stage_rollback
    then show ?thesis
      using Some reply assms
      by (simp add: answers_def run pop_transaction_def tx_wrap_def cx_event_def)
  qed
qed

lemma commit_transaction_answers:
  assumes t: "\<not> (trid_null (ct_trid t) \<or> towner (ct_trid t) \<noteq> ce_self e \<or> ct_state t \<noteq> Trans_active \<or> ct_pending t \<noteq> [])"
    and s1: "resources_end e t {Flag_success} s = (Inr (), s1)" "only_log s s1"
    and s: "cx_control s = Unchained" "cx_transactions s \<noteq> []"
  shows "answers e (commit_transaction e t) (commit_answer e t s1) s"
proof -
  have pre: "cx_control s1 = Unchained" "cx_transactions s1 \<noteq> []" using s by (simp_all add: only_log_fields [OF s1(2)])
  have same: "answers e (commit_transaction e t) a s" if "commit_transaction e t s = f s1" "answers e f a s1" for f a
    using that(2) unfolding answers_def only_log_fields(1) [OF s1(2)] by (simp add: act_then_def act_bind_def tx_wrap_def that(1))
  have run: "commit_transaction e t s =
      (if ct_local (ce_self e) t \<and> length (ct_involved t) + length (cx_fixed s1) \<le> 1
       then (if ct_involved t \<noteq> [] then resource_commit e (hd (ct_involved t)) t {Flag_one_phase}
             else if cx_fixed s1 \<noteq> [] then resource_commit e (rs_id (hd (cx_fixed s1))) t {Flag_one_phase}
             else act_ret ())
       else commit_distributed e t) s1"
    using t s1(1) by (simp add: commit_transaction_def act_then_def act_bind_def act_get_def)
  have one: "answers e (resource_commit e rm t {Flag_one_phase}) (commit_answer e t s1) s1"
    if "ct_local (ce_self e) t" "length (ct_involved t) + length (cx_fixed s1) \<le> 1" "ct_involved t @ map rs_id (cx_fixed s1) = rm # x" for rm x
  proof -
    have "length (rm # x) \<le> 1" unfolding that(3) [symmetric] using that(2) by simp
    then have one: "ct_involved t @ map rs_id (cx_fixed s1) = [rm]" using that(3) by simp
    then have "length (ct_involved t @ map rs_id (cx_fixed s1)) \<le> 1" by simp
    then show ?thesis
      using resource_commit_answers [OF pre, of e rm t "{Flag_one_phase}"] that(1)
      unfolding commit_answer_def Let_def one by simp
  qed
  show ?thesis
  proof (cases "ct_local (ce_self e) t \<and> length (ct_involved t) + length (cx_fixed s1) \<le> 1")
    case distributed: False
    have d: "\<not> (ct_local (ce_self e) t \<and> length (ct_involved t @ map rs_id (cx_fixed s1)) \<le> 1)" using distributed by simp
    have "answers e (commit_distributed e t) (commit_answer e t s1) s1"
      using commit_distributed_answers [OF pre, of e t] unfolding commit_answer_def Let_def if_not_P [OF d] .
    moreover have "commit_transaction e t s = commit_distributed e t s1" unfolding run if_not_P [OF distributed] ..
    ultimately show ?thesis by (intro same [where f = "commit_distributed e t"])
  next
    case True
    consider (nobody) "ct_involved t = []" "cx_fixed s1 = []" | (involved) rm x where "ct_involved t = rm # x"
      | (fixed) r x where "ct_involved t = []" "cx_fixed s1 = r # x"
      by (metis neq_Nil_conv)
    then show ?thesis
    proof cases
      case nobody
      have "answers e (act_ret ()) (Tx_ok, True) s1" by (rule answers_ok [OF _ only_log_refl pre]) (simp add: act_ret_def)
      then have "answers e (act_ret ()) (commit_answer e t s1) s1" using True nobody by (simp add: commit_answer_def Let_def)
      moreover have "commit_transaction e t s = act_ret () s1" unfolding run if_P [OF True] using nobody by simp
      ultimately show ?thesis by (intro same [where f = "act_ret ()"])
    next
      case involved
      have "commit_transaction e t s = resource_commit e rm t {Flag_one_phase} s1" unfolding run if_P [OF True] using involved by simp
      then show ?thesis by (rule same [OF _ one [of rm x]]) (use True involved in simp_all)
    next
      case fixed
      have "commit_transaction e t s = resource_commit e (rs_id r) t {Flag_one_phase} s1" unfolding run if_P [OF True] using fixed by simp
      then show ?thesis by (rule same [OF _ one [of "rs_id r" "map rs_id x"]]) (use True fixed in simp_all)
    qed
  qed
qed

text \<open>
  C14. \<open>tx_commit\<close>, unchained, answers \<open>TX_NO_BEGIN\<close> without a transaction and
  \<open>TX_PROTOCOL_ERROR\<close> for one the process does not own, that can only be rolled back or has replies
  that are not fetched, and then changes nothing. Otherwise the resources are ended and the answer
  is the one of who decides: the only resource of a local transaction, the transaction manager in
  its reply (the second one when the first is of the prepare stage and \<open>tx_set_commit_return\<close> asks
  to wait for it), \<open>TX_ROLLBACK\<close> for a reply of the rollback stage and \<open>TX_ERROR\<close> when the manager
  cannot be reached. The transaction is taken away when the answer is \<open>TX_OK\<close> or the reply was of
  the rollback stage; after every other answer it is still the current one, with its resources ended.
\<close>

theorem tx_commit_answers:
  assumes "trid_null (ct_trid (cx_empty s))" and "cx_control s = Unchained"
  defines "t \<equiv> cx_current s"
  shows "if trid_null (ct_trid t) then tx_commit e s = (Tx_no_begin, s)
    else if towner (ct_trid t) \<noteq> ce_self e \<or> ct_state t \<noteq> Trans_active \<or> ct_pending t \<noteq> [] then tx_commit e s = (Tx_protocol, s)
    else \<exists>s1 s'. resources_end e t {Flag_success} s = (Inr (), s1)
      \<and> tx_commit e s = (fst (commit_answer e t s1), s')
      \<and> cx_transactions s = butlast (cx_transactions s) @ [t]
      \<and> cx_transactions s' = (if snd (commit_answer e t s1) then butlast (cx_transactions s) else cx_transactions s)"
proof (cases "trid_null (ct_trid t) \<or> towner (ct_trid t) \<noteq> ce_self e \<or> ct_state t \<noteq> Trans_active \<or> ct_pending t \<noteq> []")
  case True
  then show ?thesis
    by (auto simp: tx_commit_def tx_wrap_def cx_commit_def commit_transaction_def act_defs t_def)
next
  case False
  then have "in_transaction_mode s" using assms(1) unfolding t_def by (auto simp: cx_current_def split: if_splits)
  then have ts: "cx_transactions s \<noteq> []" "cx_transactions s = butlast (cx_transactions s) @ [t]"
    by (auto simp: in_transaction_mode_def cx_current_def t_def)
  obtain u s1 where s1: "resources_end e t {Flag_success} s = (Inr u, s1)" "only_log s s1"
    using only_calls_ends by (rule only_callsE)
  have "answers e (commit_transaction e t) (commit_answer e t s1) s"
    by (rule commit_transaction_answers [OF False]) (use s1 ts(1) assms(2) in simp_all)
  moreover have "tx_commit e s = tx_wrap (act_then (commit_transaction e t) (pop_transaction e)) s"
    by (simp add: tx_commit_def tx_wrap_def cx_commit_def act_bind_def act_get_def t_def)
  ultimately show ?thesis using False s1(1) ts(2) by (auto simp: answers_def)
qed

theorem tx_commit_answers_witness:
  "let s = snd (cx_begin (calm_env 1) (configured [] [plain_resource 7, plain_resource 8]))
   in length (cx_transactions s) = 1 \<and> (\<exists>s'. tx_commit rollback_env s = (Tx_rollback, s') \<and> cx_transactions s' = [])"
proof -
  let ?s = "snd (cx_begin (calm_env 1) (configured [] [plain_resource 7, plain_resource 8]))"
  have v: "cx_control ?s = Unchained" "trid_null (ct_trid (cx_empty ?s))" "\<not> trid_null (ct_trid (cx_current ?s))"
    "\<not> (towner (ct_trid (cx_current ?s)) \<noteq> ce_self rollback_env \<or> ct_state (cx_current ?s) \<noteq> Trans_active
        \<or> ct_pending (cx_current ?s) \<noteq> [])"
    and one: "length (cx_transactions ?s) = 1" and fixed: "cx_fixed ?s = [plain_resource 7, plain_resource 8]"
    by (simp_all add: rollback_env_def ctx_eval)
  obtain s1 s' where r: "resources_end rollback_env (cx_current ?s) {Flag_success} ?s = (Inr (), s1)"
      "tx_commit rollback_env ?s = (fst (commit_answer rollback_env (cx_current ?s) s1), s')"
      "cx_transactions s' = (if snd (commit_answer rollback_env (cx_current ?s) s1) then butlast (cx_transactions ?s)
        else cx_transactions ?s)"
    using tx_commit_answers [OF v(2,1), of rollback_env] unfolding if_not_P [OF v(3)] if_not_P [OF v(4)] by blast
  obtain u s2 where "resources_end rollback_env (cx_current ?s) {Flag_success} ?s = (Inr u, s2)" "only_log ?s s2"
    using only_calls_ends by (rule only_callsE)
  then have "cx_fixed s1 = [plain_resource 7, plain_resource 8]" using r(1) fixed only_log_fields(7) by auto
  then have "commit_answer rollback_env (cx_current ?s) s1 = (Tx_rollback, True)"
    by (simp add: commit_answer_def Let_def rollback_env_def)
  moreover have "butlast (cx_transactions ?s) = []" using one by (cases "cx_transactions ?s") simp_all
  ultimately show ?thesis using r(2,3) one by (simp add: Let_def)
qed

section \<open>Suspend and resume\<close>

lemma position_snoc: "\<not> list_ex p xs \<Longrightarrow> p x \<Longrightarrow> position p (xs @ [x]) = Some (length xs)"
  by (simp add: position_def takeWhile_append list_ex_iff)

lemma stack_position:
  assumes stack: "stack_ok rms (us @ [t])" and nn: "\<not> trid_null (ct_trid t)" and t': "ct_trid t' = ct_trid t"
  shows "position (\<lambda>x. trid_eq (ct_trid x) (ct_trid t)) (us @ [t']) = Some (length us)"
proof -
  have "\<not> trid_eq (ct_trid u) (ct_trid t)" if "u \<in> set us" for u
  proof
    assume eq: "trid_eq (ct_trid u) (ct_trid t)"
    then have "\<not> trid_null (ct_trid u)" "ct_xid u = ct_xid t"
      using nn by (auto simp: trid_eq_def trid_null_def ct_xid_def xid_of_def)
    moreover have "ct_xid t \<notin> ct_xid ` set (filter (\<lambda>t. \<not> trid_null (ct_trid t)) us)"
      using stack nn by (simp add: stack_ok_def)
    ultimately show False using that by (metis (mono_tags, lifting) filter_set image_eqI mem_Collect_eq set_filter)
  qed
  then show ?thesis using t' by (intro position_snoc) (simp_all add: list_ex_iff)
qed

text \<open>
  C24. A transaction that is suspended is not the current one, and \<open>tx_resume\<close> with the id that
  \<open>tx_suspend\<close> gave makes it the current one again; nothing has changed but that its fixed
  resources count as involved.
\<close>

theorem suspend_resume_returns:
  assumes "ctx_ok self s" and "good_env self e" and "\<not> trid_null (ct_trid (cx_current s))" and "ct_dynamic (cx_empty s) = []"
  shows "\<exists>s1 s2. cx_suspend e True s = (Inr (ct_trid (cx_current s)), s1) \<and> \<not> in_transaction_mode s1
    \<and> tx_commit e s1 = (Tx_no_begin, s1)
    \<and> tx_resume e (ct_trid (cx_current s)) s1 = (Tx_ok, s2)
    \<and> cx_transactions s2 = butlast (cx_transactions s) @ [ct_involve (map rs_id (cx_fixed s)) (cx_current s)]"
  using assms(1)
proof (cases rule: current_cases)
  case (live us t)
  let ?t = "t\<lparr>ct_suspended := True\<rparr>" and ?ts = "us @ [t\<lparr>ct_suspended := True\<rparr>]"
  have coop: "cooperative e" using assms(2) by (simp add: good_env_def)
  have nn: "\<not> trid_null (ct_trid t)" "\<not> ct_suspended t" using live(3) by (simp_all add: live_def)
  obtain s1 where s1: "cx_suspend e True s = (Inr (ct_trid t), s1)" "cx_transactions s1 = ?ts" "cx_empty s1 = cx_empty s"
      "cx_fixed s1 = cx_fixed s"
  proof -
    let ?s = "cx_current_set ?t s"
    have set: "?s = s\<lparr>cx_transactions := ?ts\<rparr>" using live(1,4) by (simp add: cx_current_set_def cx_last_set_def)
    note h = live_holds [OF assms(1) live(1,3)]
    have "resources_ok ?s" unfolding set using ctx_okD(1) [OF assms(1)] resources_ok_cong [of "s\<lparr>cx_transactions := ?ts\<rparr>" s] by simp
    moreover have "views ?s (Some (xid_of (ct_trid ?t))) (suspended_of us)" using h(1) by (simp add: set views_def ct_xid_def)
    ultimately obtain s1 where r: "resources_end e ?t {Flag_suspend} ?s = (Inr (), s1)" "only_log ?s s1"
      using resources_end_views [OF coop, of ?s ?t "Some (xid_of (ct_trid ?t))" "suspended_of us" "{Flag_suspend}"] nn(1)
      by auto
    show ?thesis
      by (rule that [of s1]) (use r nn(1) live(2) only_log_fields [OF r(2)] in \<open>simp_all add: cx_suspend_def act_defs Let_def set\<close>)
  qed
  have ok1: "ctx_ok self s1" using suspend_ok [OF assms(1,2), of True] s1(1) by simp
  have cur: "cx_current s1 = cx_empty s" "\<not> in_transaction_mode s1" using s1(2,3) by (simp_all add: cx_current_def in_transaction_mode_def)
  have null: "trid_null (ct_trid (cx_empty s))" by (rule ctx_okD(2) [OF assms(1)])
  have pos: "position (\<lambda>x. trid_eq (ct_trid x) (ct_trid t)) ?ts = Some (length us)"
    by (rule stack_position [OF ctx_okD(4) [OF assms(1), unfolded live(1)] nn(1)]) simp
  have same: "t\<lparr>ct_suspended := False\<rparr> = t" using nn(2) by (cases t) simp
  let ?s = "s1\<lparr>cx_transactions := us @ [t]\<rparr>"
  have w: "active_of ?ts = None" "ct_xid ?t \<in> suspended_of ?ts"
    using stack_last(3) [OF ctx_okD(4) [OF ok1, unfolded s1(2)]] by (simp_all add: live_def suspended_of_def)
  have "resources_ok ?s" using ctx_okD(1) [OF ok1] resources_ok_cong [of ?s s1] by simp
  moreover have "views ?s None (suspended_of ?ts)" using ctx_okD(6) [OF ok1] w(1) s1(2) by (simp add: views_def)
  ultimately obtain s2 where s2: "resources_start e t {Flag_resume} ?s = (Inr (ct_involve (map rs_id (cx_fixed s)) t), s2)"
      "only_log ?s s2"
    using resources_start_views [OF coop _ nn(1), of ?s "suspended_of ?ts" "{Flag_resume}"] w(2) s1(4) by (auto simp: ct_xid_def)
  have "tx_resume e (ct_trid t) s1 =
      (Tx_ok, s2\<lparr>cx_transactions := us @ [ct_involve (map rs_id (cx_fixed s)) t]\<rparr>)"
    using pos nn(1) null cur assms(4) s1(2) s2(1)
    by (simp add: tx_resume_def tx_wrap_def cx_resume_def act_defs Let_def same rotate_last_def)
  moreover have "tx_commit e s1 = (Tx_no_begin, s1)"
    using cur null by (simp add: tx_commit_def tx_wrap_def cx_commit_def commit_transaction_def act_defs)
  ultimately show ?thesis using s1(1) cur(2) live(1,2) by simp
qed (use assms(3) in simp)

theorem suspend_resume_returns_witness:
  "let s = snd (cx_begin (calm_env 1) (configured [] [plain_resource 7])); s1 = snd (cx_suspend (calm_env 2) True s);
       t = ct_trid (cx_current s)
   in tformat t = 42 \<and> fst (tx_commit (calm_env 2) s1) = Tx_no_begin \<and> fst (tx_resume (calm_env 2) t s1) = Tx_ok"
proof -
  let ?self = "\<lparr>hpid = 1, hipc = 1\<rparr> :: handle"
  let ?s = "snd (cx_begin (calm_env 1) (configured [] [plain_resource 7]))"
  have c: "ctx_ok ?self (configured [] [plain_resource 7])" by (rule configured_ok) simp
  have ok: "ctx_ok ?self ?s" by (rule begin_ok [OF c calm_good]) (simp add: ctx_eval)
  have v: "\<not> trid_null (ct_trid (cx_current ?s))" "ct_dynamic (cx_empty ?s) = []" "tformat (ct_trid (cx_current ?s)) = 42"
    by (simp_all add: ctx_eval)
  show ?thesis using suspend_resume_returns [OF ok calm_good [of 2] v(1,2)] v(3) by (auto simp: Let_def)
qed

section \<open>Registration of dynamic resources\<close>

lemma current_set_twice: "ct_suspended t = ct_suspended (cx_current s) \<Longrightarrow> ct_trid t = ct_trid (cx_current s) \<Longrightarrow>
    cx_current (cx_current_set t s) = t \<and> cx_current_set u (cx_current_set t s) = cx_current_set u s
    \<and> cx_current_set (cx_current s) s = s"
proof -
  assume t: "ct_suspended t = ct_suspended (cx_current s)" "ct_trid t = ct_trid (cx_current s)"
  show ?thesis
  proof (cases "in_transaction_mode s")
    case True
    then obtain us u where "cx_transactions s = us @ [u]" "\<not> ct_suspended u"
      unfolding in_transaction_mode_def by (metis append_butlast_last_id)
    then show ?thesis
      using True t by (simp add: cx_current_set_def cx_current_def cx_last_set_def in_transaction_mode_def)
  next
    case False
    have "in_transaction_mode (s\<lparr>cx_empty := x\<rparr>) = in_transaction_mode s" for x
      by (simp add: in_transaction_mode_def)
    then show ?thesis using False by (simp add: cx_current_set_def cx_current_def)
  qed
qed

text \<open>
  C25. Outside of a transaction a dynamic resource manager can register once: it gets the null id, a
  second \<open>ax_reg\<close> answers \<open>TM_RESUME\<close> and no transaction can begin until \<open>ax_unreg\<close>
  has brought the context back to where it was; then a second \<open>ax_unreg\<close> is a protocol error.
\<close>

theorem register_unregister_returns:
  assumes "\<exists>r\<in>set (cx_dynamic s). rs_id r = rm" and "trid_null (ct_trid (cx_current s))" and "rm \<notin> set (ct_dynamic (cx_current s))"
  shows "\<exists>s1. ax_reg e rm s = (Ax_ok, s1) \<and> ax_reg e rm s1 = (Ax_resume, s1)
    \<and> tx_begin e s1 = (Tx_outside, s1) \<and> ax_unreg rm s1 = (Ax_ok, s) \<and> ax_unreg rm s = (Ax_protocol, s)"
proof -
  let ?t = "cx_current s"
  let ?t1 = "?t\<lparr>ct_dynamic := ct_dynamic ?t @ [rm]\<rparr>"
  let ?s1 = "cx_current_set ?t1 s"
  have d: "cx_dynamic ?s1 = cx_dynamic s" by (simp add: cx_current_set_def cx_last_set_def)
  have cur: "cx_current ?s1 = ?t1" "cx_current_set u ?s1 = cx_current_set u s" "cx_current_set ?t s = s" for u
    using current_set_twice [of ?t1 s u] by simp_all
  have known: "list_ex (\<lambda>r. rs_id r = rm) (cx_dynamic s)" using assms(1) by (auto simp: list_ex_iff)
  have reg: "ct_associate_dynamic rm ?t = (True, ?t1)" "ct_associate_dynamic rm ?t1 = (False, ?t1)"
    "ct_disassociate_dynamic rm ?t1 = (True, ?t)" "ct_disassociate_dynamic rm ?t = (False, ?t)"
    using assms(3) by (simp_all add: ct_associate_dynamic_def ct_disassociate_dynamic_def append_unique_value_def remove1_append)
  have "ax_reg e rm s = (Ax_ok, ?s1)" "ax_reg e rm ?s1 = (Ax_resume, ?s1)"
    using known reg assms(2) by (simp_all add: ax_reg_def ax_wrap_def resource_registration_def act_defs cur d)
  moreover have "tx_begin e ?s1 = (Tx_outside, ?s1)"
    using assms(2) by (simp add: tx_begin_def tx_wrap_def cx_begin_def act_defs cur)
  moreover have "ax_unreg rm ?s1 = (Ax_ok, s)" "ax_unreg rm s = (Ax_protocol, s)"
    using reg assms(2) by (simp_all add: ax_unreg_def ax_wrap_def resource_unregistration_def act_defs cur)
  ultimately show ?thesis by blast
qed

theorem register_unregister_returns_witness:
  "fst (ax_reg (calm_env 1) 5 (configured [plain_resource 5] [])) = Ax_ok"
proof -
  have "\<exists>r\<in>set (cx_dynamic (configured [plain_resource 5] [])). rs_id r = 5"
    "trid_null (ct_trid (cx_current (configured [plain_resource 5] [])))"
    "5 \<notin> set (ct_dynamic (cx_current (configured [plain_resource 5] [])))"
    by (simp_all add: ctx_eval)
  from register_unregister_returns [OF this, of "calm_env 1"] show ?thesis by auto
qed

end
