(* ===== verification/TxHandle.thy ===== *)
theory TxHandle
  imports TxState
begin

text \<open>
  The handlers of the transaction manager: \<open>transaction/manager/handle.cpp\<close> and the scaling of
  \<open>action.cpp\<close>. Each handler is a function of the world it runs in, the message and the
  state. \<open>std::partition\<close> leaves the order within a part open; the model keeps the order.
  Execution ids, which the replies copy from the requests, are left out.
\<close>

section \<open>Sending\<close>

definition post :: "dest \<Rightarrow> out_msg \<Rightarrow> tm \<Rightarrow> tm" where
  "post d m s = s\<lparr>s_outbox := s_outbox s @ [(d, m)]\<rparr>"

text \<open>\<open>ipc::flush::send\<close> raises when the destination is gone, the optional one tells.\<close>

definition flush_send :: "env \<Rightarrow> nat \<Rightarrow> out_msg \<Rightarrow> (tm, unit) act" where
  "flush_send ev ipc m =
     (if ev_reach ev ipc then act_upd (post (To_ipc ipc) m) else act_raise Comm_unavailable)"

definition optional_send :: "env \<Rightarrow> nat \<Rightarrow> out_msg \<Rightarrow> (tm, bool) act" where
  "optional_send ev ipc m =
     (if ev_reach ev ipc then act_then (act_upd (post (To_ipc ipc) m)) (act_ret True)
      else act_ret False)"

definition fresh_corr :: "(tm, nat) act" where
  "fresh_corr = act_bind (act_get s_next_corr)
     (\<lambda>c. act_then (act_upd (\<lambda>s. s\<lparr>s_next_corr := c + 1\<rparr>)) (act_ret c))"

text \<open>\<open>persist::send\<close>: the log first, then the replies that can be sent at once, then the rest, which the
  pending-message process delivers. A reply to a process that is gone counts as sent. That the log
  was made durable is part of the outbox, so its order with the messages can be told.\<close>

definition send_direct :: "env \<Rightarrow> out_msg \<times> handle \<Rightarrow> tm \<Rightarrow> tm" where
  "send_direct ev r s =
     (if ev_reach ev (hipc (snd r)) \<and> ev_room ev (hipc (snd r)) then post (To_ipc (hipc (snd r))) (fst r) s else s)"

definition not_sent :: "env \<Rightarrow> out_msg \<times> handle \<Rightarrow> bool" where
  "not_sent ev r \<longleftrightarrow> ev_reach ev (hipc (snd r)) \<and> \<not> ev_room ev (hipc (snd r))"

definition send_pending :: "out_msg \<times> handle \<Rightarrow> tm \<Rightarrow> tm" where
  "send_pending r s = post (To_pending (snd r)) (fst r) s"

definition persist_send :: "env \<Rightarrow> (tm, unit) act" where
  "persist_send ev = act_upd (\<lambda>s.
     let s1 = post To_log (Log_persisted (length (l_rows (s_log s)))) (s\<lparr>s_log := log_persist (s_log s)\<rparr>);
         s2 = fold (send_direct ev) (s_replies s) (s1\<lparr>s_replies := []\<rparr>)
     in fold send_pending (filter (not_sent ev) (s_replies s)) s2)"

definition batch_persistence :: nat where "batch_persistence = 100"

definition batch_send :: "env \<Rightarrow> (tm, unit) act" where
  "batch_send ev = act_bind (act_get (\<lambda>s. length (s_replies s)))
     (\<lambda>n. if batch_persistence \<le> n then persist_send ev else act_ret ())"

definition persist_reply :: "env \<Rightarrow> out_msg \<Rightarrow> handle \<Rightarrow> (tm, unit) act" where
  "persist_reply ev m target =
     act_then (act_upd (\<lambda>s. s\<lparr>s_replies := s_replies s @ [(m, target)]\<rparr>)) (batch_send ev)"

text \<open>\<open>handle::persist::send\<close>, called when the input is idle.\<close>

definition persist_idle :: "env \<Rightarrow> (tm, unit) act" where
  "persist_idle ev = act_bind (act_get s_replies)
     (\<lambda>rs. if rs \<noteq> [] then persist_send ev else act_ret ())"

section \<open>Requests to resources\<close>

text \<open>\<open>send::resource::request\<close>: to an idle instance, or into the queue; external resources are
  always sent to. The result is the correlation of the request.\<close>

definition rm_request :: "env \<Rightarrow> rm_kind \<Rightarrow> trid \<Rightarrow> int \<Rightarrow> bool \<Rightarrow> (tm, nat) act" where
  "rm_request ev kind t rm one_phase =
     (if 0 < rm then
        act_bind (idle rm)
         (\<lambda>found. act_bind fresh_corr
           (\<lambda>c. case found of
                  Some i \<Rightarrow>
                    act_then (flush_send ev (hipc (i_process i)) (Rm_request kind c t rm one_phase))
                     (act_then (act_upd (upd_instance rm (\<lambda>x. i_state x = Idle)
                                  (\<lambda>x. (inst_set Busy x)\<lparr>i_metrics := (i_metrics x)\<lparr>x_requested := ev_now ev\<rparr>\<rparr>)))
                      (act_ret c))
                | None \<Rightarrow>
                    act_then (act_upd (\<lambda>s. s\<lparr>s_requests := s_requests s @ [(rm, Rm_request kind c t rm one_phase)]\<rparr>))
                     (act_ret c)))
      else
        act_bind (get_external rm)
         (\<lambda>e. act_bind fresh_corr
           (\<lambda>c. act_then (flush_send ev (hipc (e_process e)) (Rm_request kind c t rm one_phase))
                 (act_ret c))))"

text \<open>\<open>pending::branches\<close> and \<open>pending::replies\<close>.\<close>

definition pending_requests :: "env \<Rightarrow> rm_kind \<Rightarrow> bool \<Rightarrow> (trid \<times> int) list \<Rightarrow> (tm, int fan_pending list) act" where
  "pending_requests ev kind one_phase xs =
     act_each (\<lambda>(t, rm). act_bind (rm_request ev kind t rm one_phase) (\<lambda>c. act_ret (mk_pending c rm))) xs"

definition branch_targets :: "branch list \<Rightarrow> (trid \<times> int) list" where
  "branch_targets bs = concat (map (\<lambda>b. map (\<lambda>r. (b_trid b, br_id r)) (b_resources b)) bs)"

definition reply_targets :: "rm_reply list \<Rightarrow> (trid \<times> int) list" where
  "reply_targets rs = map (\<lambda>r. (rr_trid r, rr_resource r)) rs"

section \<open>Replies\<close>

text \<open>\<open>create::reply\<close>; only the commit reply has the stage given.\<close>

definition create_reply :: "reply_kind \<Rightarrow> trid \<Rightarrow> destination \<Rightarrow> xa \<Rightarrow> reply_stage \<Rightarrow> out_msg" where
  "create_reply kind t d code st =
     (case kind of
        R_commit \<Rightarrow> Commit_reply (d_corr d) t (to_tx (reply_code code)) st
      | R_rollback \<Rightarrow> Rollback_reply (d_corr d) t (to_tx (reply_code code))
      | R_rm k \<Rightarrow> Rm_reply k (d_corr d) t (d_resource d) (reply_code code) (0, 0))"

text \<open>\<open>remove::transaction\<close>.\<close>

definition remove_transaction :: "bytes \<Rightarrow> (tm, unit) act" where
  "remove_transaction g =
     act_upd (\<lambda>s. erase_transaction g (s\<lparr>s_log := log_remove g (s_log s)\<rparr>))"

text \<open>The callbacks of \<open>coordinate::commit\<close> and \<open>coordinate::rollback\<close>.\<close>

definition fired_phase2 :: "env \<Rightarrow> reply_stage \<Rightarrow> rm_fired \<Rightarrow> (tm, unit) act" where
  "fired_phase2 ev st fired =
     (case fired of (cb, replies, outcome) \<Rightarrow>
        let code = accumulate_code (map rr_state replies) outcome (cb_code cb);
            reply = create_reply (cb_kind cb) (cb_origin cb) (cb_dest cb) code st
        in act_then (optional_send ev (hipc (d_process (cb_dest cb))) reply)
             (remove_transaction (gtrid (cb_origin cb))))"

definition run_fired :: "(rm_fired \<Rightarrow> (tm, unit) act) \<Rightarrow> rm_fired option \<Rightarrow> (tm, unit) act" where
  "run_fired f fired = (case fired of None \<Rightarrow> act_ret () | Some x \<Rightarrow> f x)"

definition coordinate_commit :: "env \<Rightarrow> int fan_pending list \<Rightarrow> callback \<Rightarrow> (tm, unit) act" where
  "coordinate_commit ev pending cb =
     act_bind (act_get (\<lambda>s. fan_add pending cb (s_commit s)))
      (\<lambda>(fired, c). act_then (act_upd (\<lambda>s. s\<lparr>s_commit := c\<rparr>))
         (run_fired (fired_phase2 ev Stage_commit) fired))"

definition coordinate_rollback :: "env \<Rightarrow> int fan_pending list \<Rightarrow> callback \<Rightarrow> (tm, unit) act" where
  "coordinate_rollback ev pending cb =
     act_bind (act_get (\<lambda>s. fan_add pending cb (s_rollback s)))
      (\<lambda>(fired, c). act_then (act_upd (\<lambda>s. s\<lparr>s_rollback := c\<rparr>))
         (run_fired (fired_phase2 ev Stage_rollback) fired))"

text \<open>\<open>Log::prepare\<close>: a row per branch.\<close>

definition log_prepare_branch :: "transaction \<Rightarrow> branch \<Rightarrow> (tm, unit) act" where
  "log_prepare_branch t b =
     act_bind (act_get (\<lambda>s. log_insert \<lparr>lr_gtrid = gtrid (b_trid b), lr_bqual = bqual (b_trid b),
         lr_format = tformat (b_trid b), lr_pid = hpid (towner (b_trid b)),
         lr_started = t_started t, lr_deadline = t_deadline t\<rparr> (s_log s)))
      (\<lambda>l. case l of None \<Rightarrow> act_raise Sql_error | Some l' \<Rightarrow> act_upd (\<lambda>s. s\<lparr>s_log := l'\<rparr>))"

definition log_prepare :: "transaction \<Rightarrow> (tm, unit) act" where
  "log_prepare t = act_then (act_each (log_prepare_branch t) (t_branches t)) (act_ret ())"

text \<open>The callback of \<open>coordinate::prepare\<close>: the decision.\<close>

definition fired_prepare :: "env \<Rightarrow> rm_fired \<Rightarrow> (tm, unit) act" where
  "fired_prepare ev fired =
     (case fired of (cb, replies, outcome) \<Rightarrow>
        let g = gtrid (cb_origin cb);
            active = filter (\<lambda>r. rr_state r \<noteq> Xa_read_only) replies;
            read_only = filter (\<lambda>r. rr_state r = Xa_read_only) replies;
            code = accumulate_code (map rr_state active) outcome Xa_read_only
        in act_bind (act_get (find_transaction g))
            (\<lambda>t. case t of
               None \<Rightarrow> act_raise Terminated
             | Some t0 \<Rightarrow>
                 act_then (act_upd (upd_transaction g (purge_replies (map rr_resource read_only))))
                  (if code = Xa_read_only then
                     act_then (act_upd (erase_transaction g))
                      (act_then (optional_send ev (hipc (d_process (cb_dest cb)))
                                   (create_reply (cb_kind cb) (cb_origin cb) (cb_dest cb) code Stage_commit))
                        (act_ret ()))
                   else if code = Xa_ok then
                     act_then (log_prepare (purge_replies (map rr_resource read_only) t0))
                      (act_then (if cb_kind cb = R_commit
                                 then persist_reply ev (create_reply R_commit (cb_origin cb) (cb_dest cb) code Stage_prepare)
                                        (d_process (cb_dest cb))
                                 else act_ret ())
                       (act_bind (pending_requests ev Commit_kind False (reply_targets active))
                         (\<lambda>pending. coordinate_commit ev pending (cb\<lparr>cb_code := code\<rparr>))))
                   else
                     act_bind (pending_requests ev Rollback_kind False (reply_targets active))
                      (\<lambda>pending. coordinate_rollback ev pending (cb\<lparr>cb_code := code\<rparr>)))))"

definition coordinate_prepare :: "env \<Rightarrow> int fan_pending list \<Rightarrow> callback \<Rightarrow> (tm, unit) act" where
  "coordinate_prepare ev pending cb =
     act_bind (act_get (\<lambda>s. fan_add pending cb (s_prepare s)))
      (\<lambda>(fired, c). act_then (act_upd (\<lambda>s. s\<lparr>s_prepare := c\<rparr>)) (run_fired (fired_prepare ev) fired))"

section \<open>Finding or adding a transaction\<close>

definition add_missing :: "trid \<Rightarrow> tm \<Rightarrow> tm" where
  "add_missing t s =
     (case find_transaction (gtrid t) s of
        Some _ \<Rightarrow> s
      | None \<Rightarrow> s\<lparr>s_transactions := s_transactions s @ [mk_transaction t]\<rparr>)"

definition involve_in :: "trid \<Rightarrow> int list \<Rightarrow> transaction \<Rightarrow> transaction" where
  "involve_in t rms x =
     (if \<exists>b\<in>set (t_branches x). trid_eq (b_trid b) t
      then x\<lparr>t_branches := update_first (\<lambda>b. trid_eq (b_trid b) t) (branch_involve_all rms) (t_branches x)\<rparr>
      else x\<lparr>t_branches := t_branches x @ [branch_involve_all rms (mk_branch t)]\<rparr>)"

text \<open>\<open>branch::involved\<close> purges, \<open>find_or_add_and_involve\<close> does not.\<close>

definition branch_involved :: "trid \<Rightarrow> int list \<Rightarrow> tm \<Rightarrow> tm" where
  "branch_involved t rms s = upd_transaction (gtrid t) (\<lambda>x. purge (involve_in t rms x)) (add_missing t s)"

definition find_or_add_and_involve :: "trid \<Rightarrow> int list \<Rightarrow> tm \<Rightarrow> tm" where
  "find_or_add_and_involve t rms s = upd_transaction (gtrid t) (involve_in t rms) (add_missing t s)"

text \<open>\<open>branch::find_or_add\<close>, and the branch it returns.\<close>

definition find_or_add_branch :: "trid \<Rightarrow> tm \<Rightarrow> tm" where
  "find_or_add_branch t s = upd_transaction (gtrid t) (involve_in t []) (add_missing t s)"

definition branch_of :: "trid \<Rightarrow> tm \<Rightarrow> branch option" where
  "branch_of t s =
     (case find_transaction (gtrid t) s of
        None \<Rightarrow> None
      | Some x \<Rightarrow> List.find (\<lambda>b. trid_eq (b_trid b) t) (t_branches x))"

section \<open>Commit and rollback from the user\<close>

record tx_request =
  q_process :: handle
  q_corr :: nat
  q_trid :: trid
  q_involved :: "int list"

definition mk_callback :: "reply_kind \<Rightarrow> trid \<Rightarrow> handle \<Rightarrow> nat \<Rightarrow> int \<Rightarrow> callback" where
  "mk_callback kind t h corr rm =
     \<lparr>cb_kind = kind, cb_origin = t, cb_dest = \<lparr>d_process = h, d_corr = corr, d_resource = rm\<rparr>,
      cb_code = Xa_read_only\<rparr>"

text \<open>The part that \<open>commit::request\<close> and the external phase share: one resource, or several.\<close>

definition start_commit :: "env \<Rightarrow> bytes \<Rightarrow> callback \<Rightarrow> transaction \<Rightarrow> (tm, unit) act" where
  "start_commit ev g cb x =
     (if resource_count x = 1 then
        act_then (act_upd (upd_transaction g (\<lambda>t. t\<lparr>t_stage := machine_set Commit (t_stage t)\<rparr>)))
         (act_bind (pending_requests ev Commit_kind True (branch_targets (t_branches x)))
           (\<lambda>pending. coordinate_commit ev pending cb))
      else
        act_then (act_upd (upd_transaction g (\<lambda>t. t\<lparr>t_stage := machine_set Prepare (t_stage t)\<rparr>)))
         (act_bind (pending_requests ev Prepare_kind False (branch_targets (t_branches x)))
           (\<lambda>pending. coordinate_prepare ev pending cb)))"

definition with_transaction :: "bytes \<Rightarrow> (transaction \<Rightarrow> (tm, unit) act) \<Rightarrow> (tm, unit) act" where
  "with_transaction g f = act_bind (act_get (find_transaction g))
     (\<lambda>t. case t of None \<Rightarrow> act_raise Undefined_access | Some x \<Rightarrow> f x)"

definition commit_request :: "env \<Rightarrow> tx_request \<Rightarrow> (tm, unit) act" where
  "commit_request ev m =
     (let g = gtrid (q_trid m); ipc = hipc (q_process m)
      in act_then (act_upd (branch_involved (q_trid m) (q_involved m)))
          (with_transaction g (\<lambda>x.
             if t_stage x > Involved then
               act_then (optional_send ev ipc (Commit_reply (q_corr m) (q_trid m) Tx_protocol Stage_commit)) (act_ret ())
             else
               act_then (act_upd (upd_transaction g (\<lambda>t. t\<lparr>t_owner := q_process m\<rparr>)))
                (if resource_count x = 0 then
                   act_then (act_upd (erase_transaction g))
                    (act_then (optional_send ev ipc (Commit_reply (q_corr m) (q_trid m) Tx_ok Stage_commit)) (act_ret ()))
                 else start_commit ev g (mk_callback R_commit (q_trid m) (q_process m) (q_corr m) 0) x))))"

definition rollback_request :: "env \<Rightarrow> tx_request \<Rightarrow> (tm, unit) act" where
  "rollback_request ev m =
     (let g = gtrid (q_trid m)
      in act_then (act_upd (branch_involved (q_trid m) (q_involved m)))
          (with_transaction g (\<lambda>x.
             act_then (act_upd (upd_transaction g (\<lambda>t. t\<lparr>t_stage := machine_set Rollback (t_stage t), t_owner := q_process m\<rparr>)))
              (act_bind (pending_requests ev Rollback_kind False (branch_targets (t_branches x)))
                (\<lambda>pending. coordinate_rollback ev pending
                   (mk_callback R_rollback (q_trid m) (q_process m) (q_corr m) 0))))))"

section \<open>Resources\<close>

text \<open>\<open>instance::done\<close>: the instance is idle; the first queued request for its resource goes to
  it. (The code does not look whether the state took effect.)\<close>

definition instance_done :: "env \<Rightarrow> int \<Rightarrow> int \<Rightarrow> (tm, unit) act" where
  "instance_done ev rm pid =
     act_bind (get_instance rm pid)
      (\<lambda>i. act_then (act_upd (upd_instance rm (\<lambda>x. hpid (i_process x) = pid) (inst_set Idle)))
        (act_bind (act_get (\<lambda>s. List.find (\<lambda>(r, _). r = i_id i) (s_requests s)))
          (\<lambda>req. case req of
             None \<Rightarrow> act_ret ()
           | Some (r, msg) \<Rightarrow>
               act_bind (optional_send ev (hipc (i_process i)) msg)
                (\<lambda>sent. if sent then
                   act_then (act_upd (upd_instance rm (\<lambda>x. hpid (i_process x) = pid) (inst_set Busy)))
                    (act_upd (\<lambda>s. s\<lparr>s_requests := remove_first (\<lambda>(r, _). r = i_id i) (s_requests s)\<rparr>))
                 else act_ret ()))))"

text \<open>\<open>instance::replied\<close>.\<close>

definition instance_replied :: "env \<Rightarrow> rm_reply \<Rightarrow> (tm, unit) act" where
  "instance_replied ev m =
     (if 0 < rr_resource m then
        act_then (instance_done ev (rr_resource m) (hpid (rr_process m)))
         (act_upd (upd_instance (rr_resource m) (\<lambda>x. hpid (i_process x) = hpid (rr_process m))
            (\<lambda>x. x\<lparr>i_metrics := metrics_reply (ev_now ev) (rr_stats m) (i_metrics x)\<rparr>)))
      else act_ret ())"

definition involved_request :: "env \<Rightarrow> handle \<Rightarrow> nat \<Rightarrow> trid \<Rightarrow> int list \<Rightarrow> (tm, unit) act" where
  "involved_request ev h corr t involved =
     act_then (act_upd (find_or_add_branch t))
      (act_bind (act_get (branch_of t))
        (\<lambda>b. let had = (case b of None \<Rightarrow> [] | Some x \<Rightarrow> map br_id (b_resources x))
             in act_then (optional_send ev (hipc h) (Involved_reply corr had))
                 (act_upd (\<lambda>s.
                    let new = filter (\<lambda>rm. rm \<notin> set had) involved;
                        known = filter (\<lambda>rm. \<exists>p\<in>set (s_resources s). p_id p = rm) new
                    in upd_transaction (gtrid t) (involve_in t known) s))))"

definition prepare_reply :: "env \<Rightarrow> rm_reply \<Rightarrow> (tm, unit) act" where
  "prepare_reply ev m =
     act_then (instance_replied ev m)
      (act_bind (act_get (\<lambda>s. fan_message (rr_corr m) m (s_prepare s)))
        (\<lambda>(fired, c). act_then (act_upd (\<lambda>s. s\<lparr>s_prepare := c\<rparr>)) (run_fired (fired_prepare ev) fired)))"

definition commit_reply :: "env \<Rightarrow> rm_reply \<Rightarrow> (tm, unit) act" where
  "commit_reply ev m =
     act_then (instance_replied ev m)
      (act_bind (act_get (\<lambda>s. fan_message (rr_corr m) m (s_commit s)))
        (\<lambda>(fired, c). act_then (act_upd (\<lambda>s. s\<lparr>s_commit := c\<rparr>))
           (run_fired (fired_phase2 ev Stage_commit) fired)))"

definition rollback_reply :: "env \<Rightarrow> rm_reply \<Rightarrow> (tm, unit) act" where
  "rollback_reply ev m =
     act_then (instance_replied ev m)
      (act_bind (act_get (\<lambda>s. fan_message (rr_corr m) m (s_rollback s)))
        (\<lambda>(fired, c). act_then (act_upd (\<lambda>s. s\<lparr>s_rollback := c\<rparr>))
           (run_fired (fired_phase2 ev Stage_rollback) fired)))"

section \<open>External transaction managers\<close>

record rm_in =
  n_process :: handle
  n_corr :: nat
  n_trid :: trid
  n_resource :: int

definition external_reply :: "env \<Rightarrow> rm_kind \<Rightarrow> rm_in \<Rightarrow> int \<times> int \<Rightarrow> (tm, unit) act" where
  "external_reply ev kind m stat =
     act_then (optional_send ev (hipc (n_process m))
        (Rm_reply kind (n_corr m) (n_trid m) (n_resource m) Xa_read_only stat)) (act_ret ())"

definition external_involved :: "handle \<Rightarrow> trid \<Rightarrow> (tm, unit) act" where
  "external_involved h t =
     act_bind (external_id h) (\<lambda>rm. act_upd (find_or_add_and_involve t [rm]))"

text \<open>\<open>prepare::commit::phase\<close>. With no resource involved, the reply's start time is read through
  the iterator of the transaction that was just erased.\<close>

definition external_phase :: "env \<Rightarrow> rm_kind \<Rightarrow> rm_in \<Rightarrow> (tm, unit) act" where
  "external_phase ev kind m =
     (let g = gtrid (n_trid m)
      in act_bind (act_get (find_transaction g))
          (\<lambda>t. case t of
             None \<Rightarrow> external_reply ev kind m (ev_now ev, ev_now ev)
           | Some x \<Rightarrow>
               if t_stage x > Involved then external_reply ev kind m (ev_now ev, ev_now ev)
               else
                 act_then (act_upd (upd_transaction g (\<lambda>t. t\<lparr>t_owner := n_process m\<rparr>)))
                  (if resource_count x = 0 then
                     act_then (act_upd (erase_transaction g))
                      (external_reply ev kind m (ev_stale ev, ev_now ev))
                   else start_commit ev g
                          (mk_callback (R_rm kind) (n_trid m) (n_process m) (n_corr m) (n_resource m)) x)))"

definition external_rollback :: "env \<Rightarrow> rm_in \<Rightarrow> (tm, unit) act" where
  "external_rollback ev m =
     (let g = gtrid (n_trid m)
      in act_bind (act_get (find_transaction g))
          (\<lambda>t. case t of
             None \<Rightarrow> external_reply ev Rollback_kind m (ev_now ev, ev_now ev)
           | Some x \<Rightarrow>
               if t_stage x > Involved then external_reply ev Rollback_kind m (ev_now ev, ev_now ev)
               else
                 act_then (act_upd (upd_transaction g
                    (\<lambda>t. t\<lparr>t_stage := machine_set Rollback (t_stage t), t_owner := n_process m\<rparr>)))
                  (act_bind (pending_requests ev Rollback_kind False (branch_targets (t_branches x)))
                    (\<lambda>pending. coordinate_rollback ev pending
                       (mk_callback (R_rm Rollback_kind) (n_trid m) (n_process m) (n_corr m) (n_resource m))))))"

section \<open>Configuration, instances and processes\<close>

definition resource_configuration :: "env \<Rightarrow> handle \<Rightarrow> nat \<Rightarrow> int \<Rightarrow> (tm, unit) act" where
  "resource_configuration ev h corr rm =
     act_bind (get_resource rm)
      (\<lambda>p. act_then (optional_send ev (hipc h) (Resource_configuration_reply corr
              \<lparr>cr_id = rm, cr_name = [], cr_key = rc_key (p_conf p), cr_openinfo = rc_openinfo (p_conf p),
               cr_closeinfo = rc_closeinfo (p_conf p)\<rparr>)) (act_ret ()))"

definition resource_ready :: "env \<Rightarrow> handle \<Rightarrow> int \<Rightarrow> (tm, unit) act" where
  "resource_ready ev h rm =
     act_bind (get_instance rm (hpid h))
      (\<lambda>i. act_then (act_upd (upd_instance rm (\<lambda>x. hpid (i_process x) = hpid h) (\<lambda>x. x\<lparr>i_process := h\<rparr>)))
        (instance_done ev rm (hpid h)))"

definition alias_request :: "env \<Rightarrow> handle \<Rightarrow> nat \<Rightarrow> string list \<Rightarrow> string \<Rightarrow> (tm, unit) act" where
  "alias_request ev h corr names name_alias =
     act_bind (alias_configuration names name_alias)
      (\<lambda>rs. act_then (optional_send ev (hipc h) (Alias_reply corr rs)) (act_ret ()))"

definition configuration_request :: "env \<Rightarrow> handle \<Rightarrow> nat \<Rightarrow> (tm, unit) act" where
  "configuration_request ev h corr =
     act_bind (act_get model_configuration)
      (\<lambda>(rs, ms). act_then (optional_send ev (hipc h) (Configuration_reply corr rs ms)) (act_ret ()))"

text \<open>\<open>process::exit\<close>: an instance of a resource, or the owner of transactions, which are then
  rolled back in the name of the manager itself.\<close>

definition owned_trids :: "int \<Rightarrow> tm \<Rightarrow> trid list" where
  "owned_trids pid s =
     concat (map (\<lambda>t. if t_branches t \<noteq> [] \<and> hpid (towner (b_trid (last (t_branches t)))) = pid
                      then [b_trid (last (t_branches t))] else []) (s_transactions s))"

definition process_exit :: "env \<Rightarrow> int \<Rightarrow> (tm, unit) act" where
  "process_exit ev pid =
     act_bind (act_get (tm_remove_instance pid))
      (\<lambda>(removed, s'). if removed then
           act_then (act_upd (\<lambda>_. s')) (act_upd (post To_domain_manager (Process_exit pid)))
         else
           act_bind (act_get (owned_trids pid))
            (\<lambda>ts. act_then (act_each (\<lambda>t. rollback_request ev
                 \<lparr>q_process = ev_self ev, q_corr = 0, q_trid = t, q_involved = []\<rparr>) ts) (act_ret ())))"

text \<open>\<open>action::resource::scale::instances\<close>: spawn what is missing, or shut the last ones down.\<close>

fun spawn_instances :: "env \<Rightarrow> string \<Rightarrow> nat \<Rightarrow> proxy \<Rightarrow> proxy" where
  "spawn_instances ev server 0 p = p"
| "spawn_instances ev server (Suc n) p =
     (case ev_spawn ev server n of
        None \<Rightarrow> spawn_instances ev server n p
      | Some pid \<Rightarrow> spawn_instances ev server n (p\<lparr>p_instances := p_instances p @
          [\<lparr>i_id = p_id p, i_process = \<lparr>hpid = pid, hipc = 0\<rparr>, i_metrics = metrics_zero, i_state = Started\<rparr>]\<rparr>))"

definition shutdown_instance :: "env \<Rightarrow> int \<Rightarrow> instance_proxy \<Rightarrow> (tm, unit) act" where
  "shutdown_instance ev rm i =
     (let mark = act_upd (upd_instance rm (\<lambda>x. hpid (i_process x) = hpid (i_process i)) (inst_set Shutdown))
      in if i_state i \<in> {Absent, Started} then
           act_then (act_upd (post (To_process (hpid (i_process i))) Terminate_signal)) mark
         else if i_state i = Shutdown then act_ret ()
         else act_then mark (flush_send ev (hipc (i_process i)) Shutdown_request))"

definition scale_instances :: "env \<Rightarrow> int \<Rightarrow> (tm, unit) act" where
  "scale_instances ev rm =
     act_bind (get_resource rm)
      (\<lambda>p. let count = rc_instances (p_conf p) - int (length (p_instances p))
           in if 0 < count then
                act_upd (\<lambda>s. case map_of (s_system s) (rc_key (p_conf p)) of
                    None \<Rightarrow> s
                  | Some server \<Rightarrow> s\<lparr>s_resources := update_first (\<lambda>p. p_id p = rm)
                        (spawn_instances ev server (nat count)) (s_resources s)\<rparr>)
              else act_then (act_each (shutdown_instance ev rm)
                     (drop (nat (rc_instances (p_conf p))) (p_instances p))) (act_ret ()))"

section \<open>Dispatch\<close>

datatype tm_message =
    Commit_request tx_request
  | Rollback_request tx_request
  | Involved_request handle nat trid "int list"
  | Prepare_rm_reply rm_reply
  | Commit_rm_reply rm_reply
  | Rollback_rm_reply rm_reply
  | External_involved handle trid
  | External_prepare rm_in
  | External_commit rm_in
  | External_rollback rm_in
  | Resource_configuration handle nat int
  | Resource_ready handle int
  | Alias_request handle nat "string list" string
  | Configuration_request handle nat
  | Process_exited int
  | Persist_idle

fun tm_handle :: "env \<Rightarrow> tm_message \<Rightarrow> (tm, unit) act" where
  "tm_handle ev (Commit_request m) = commit_request ev m"
| "tm_handle ev (Rollback_request m) = rollback_request ev m"
| "tm_handle ev (Involved_request h c t rms) = involved_request ev h c t rms"
| "tm_handle ev (Prepare_rm_reply m) = prepare_reply ev m"
| "tm_handle ev (Commit_rm_reply m) = commit_reply ev m"
| "tm_handle ev (Rollback_rm_reply m) = rollback_reply ev m"
| "tm_handle ev (External_involved h t) = external_involved h t"
| "tm_handle ev (External_prepare m) = external_phase ev Prepare_kind m"
| "tm_handle ev (External_commit m) = external_phase ev Commit_kind m"
| "tm_handle ev (External_rollback m) = external_rollback ev m"
| "tm_handle ev (Resource_configuration h c rm) = resource_configuration ev h c rm"
| "tm_handle ev (Resource_ready h rm) = resource_ready ev h rm"
| "tm_handle ev (Alias_request h c names name_alias) = alias_request ev h c names name_alias"
| "tm_handle ev (Configuration_request h c) = configuration_request ev h c"
| "tm_handle ev (Process_exited pid) = process_exit ev pid"
| "tm_handle ev Persist_idle = persist_idle ev"

definition tm_step :: "env \<times> tm_message \<Rightarrow> tm \<Rightarrow> tm" where
  "tm_step m s = snd (tm_handle (fst m) (snd m) s)"

end
