(* ===== verification/TxInvariant.thy ===== *)
theory TxInvariant
  imports TxHandle
begin

text \<open>
  The invariant of the transaction manager's state, kept by every handler on every path,
  the ones that end in an exception included, and so by every sequence of messages.
\<close>

section \<open>Well-formed states\<close>

definition tx_ok :: "transaction \<Rightarrow> bool" where
  "tx_ok t \<longleftrightarrow> (\<forall>b\<in>set (t_branches t). gtrid (b_trid b) = t_global t \<and> distinct (map br_id (b_resources b)))
     \<and> sorted_wrt (\<lambda>a b. \<not> trid_eq (b_trid a) (b_trid b)) (t_branches t)"

definition txs_ok :: "transaction list \<Rightarrow> bool" where
  "txs_ok ts \<longleftrightarrow> distinct (map t_global ts) \<and> list_all tx_ok ts"

definition proxy_ok :: "proxy \<Rightarrow> bool" where
  "proxy_ok p \<longleftrightarrow> list_all (\<lambda>i. i_id i = p_id p) (p_instances p)"

definition log_ok :: "tx_log \<Rightarrow> bool" where
  "log_ok l \<longleftrightarrow> distinct (map (\<lambda>r. (lr_gtrid r, lr_bqual r)) (l_rows l))"

text \<open>The state but for the number of replies that wait, which the batch rule bounds.\<close>

definition tm_core :: "tm \<Rightarrow> bool" where
  "tm_core s \<longleftrightarrow> txs_ok (s_transactions s)
     \<and> fan_ok (s_next_corr s) (s_prepare s) \<and> fan_ok (s_next_corr s) (s_commit s)
     \<and> fan_ok (s_next_corr s) (s_rollback s)
     \<and> distinct (map p_id (s_resources s)) \<and> list_all proxy_ok (s_resources s)
     \<and> log_ok (s_log s)"

definition tm_ok :: "tm \<Rightarrow> bool" where
  "tm_ok s \<longleftrightarrow> tm_core s \<and> length (s_replies s) < batch_persistence"

text \<open>Requests just made: their correlations are used and belong to no coordination yet.\<close>

definition fresh_pending :: "int fan_pending list \<Rightarrow> tm \<Rightarrow> bool" where
  "fresh_pending ps s \<longleftrightarrow> distinct (map fan_corr ps)
     \<and> (\<forall>c\<in>set (map fan_corr ps). c < s_next_corr s \<and> c \<notin> set (fan_corrs (s_prepare s))
          \<and> c \<notin> set (fan_corrs (s_commit s)) \<and> c \<notin> set (fan_corrs (s_rollback s)))"

section \<open>Transactions\<close>

lemma txs_ok_update:
  assumes "txs_ok ts" and "\<And>t. tx_ok t \<Longrightarrow> P t \<Longrightarrow> tx_ok (f t)" and "\<And>t. P t \<Longrightarrow> t_global (f t) = t_global t"
  shows "txs_ok (update_first P f ts)"
  using assms list_all_update_first [of tx_ok ts P f] by (simp add: txs_ok_def map_update_first)

lemma txs_ok_remove: "txs_ok ts \<Longrightarrow> txs_ok (remove_first P ts)"
  by (simp add: txs_ok_def distinct_remove_first list_all_remove_first)

lemma tx_ok_fields [simp]:
  "tx_ok (t\<lparr>t_stage := x\<rparr>) = tx_ok t" "tx_ok (t\<lparr>t_owner := h\<rparr>) = tx_ok t"
  by (simp_all add: tx_ok_def)

lemma branch_involve_trid [simp]: "b_trid (branch_involve rm b) = b_trid b"
  by (simp add: branch_involve_def)

lemma branch_involve_all_trid [simp]: "b_trid (branch_involve_all rms b) = b_trid b"
  unfolding branch_involve_all_def by (induction rms arbitrary: b) auto

lemma branch_involve_distinct:
  "distinct (map br_id (b_resources b)) \<Longrightarrow> distinct (map br_id (b_resources (branch_involve_all rms b)))"
  unfolding branch_involve_all_def
  by (induction rms arbitrary: b) (auto simp: branch_involve_def)

lemma branch_involve_ids:
  "set (map br_id (b_resources (branch_involve_all rms b))) = set (map br_id (b_resources b)) \<union> set rms"
  unfolding branch_involve_all_def
proof (induction rms arbitrary: b)
  case (Cons rm rms)
  have "set (map br_id (b_resources (branch_involve rm b))) = insert rm (set (map br_id (b_resources b)))"
    by (auto simp: branch_involve_def)
  then show ?case using Cons.IH [of "branch_involve rm b"] by auto
qed simp

lemma sorted_wrt_filter_map:
  "sorted_wrt R xs \<Longrightarrow> (\<And>x. \<And>y. R x y \<Longrightarrow> R (f x) (f y)) \<Longrightarrow> sorted_wrt R (filter Q (map f xs))"
  by (induction xs) auto

lemma tx_ok_purge: "tx_ok t \<Longrightarrow> tx_ok (purge t)"
  by (auto simp: tx_ok_def purge_def sorted_wrt_filter)

lemma tx_ok_purge_replies: "tx_ok t \<Longrightarrow> tx_ok (purge_replies rms t)"
  unfolding purge_replies_def
  by (rule tx_ok_purge) (auto simp: tx_ok_def sorted_wrt_map intro: distinct_map_filter)

lemma purge_global [simp]: "t_global (purge t) = t_global t"
  by (simp add: purge_def)

lemma purge_replies_global [simp]: "t_global (purge_replies rms t) = t_global t"
  by (simp add: purge_replies_def)

lemma involve_in_global [simp]: "t_global (involve_in t rms x) = t_global x"
  by (simp add: involve_in_def)

lemma tx_ok_involve_in:
  assumes "tx_ok x" and "t_global x = gtrid t"
  shows "tx_ok (involve_in t rms x)"
proof (cases "\<exists>b\<in>set (t_branches x). trid_eq (b_trid b) t")
  case True
  let ?bs = "update_first (\<lambda>b. trid_eq (b_trid b) t) (branch_involve_all rms) (t_branches x)"
  have m: "map b_trid ?bs = map b_trid (t_branches x)" by (simp add: map_update_first)
  have "sorted_wrt (\<lambda>a b. \<not> trid_eq a b) (map b_trid ?bs)"
    unfolding m using assms(1) by (simp add: tx_ok_def sorted_wrt_map)
  moreover have "list_all (\<lambda>b. gtrid (b_trid b) = t_global x \<and> distinct (map br_id (b_resources b))) ?bs"
    by (rule list_all_update_first)
      (use assms(1) in \<open>auto simp: tx_ok_def list_all_iff intro: branch_involve_distinct\<close>)
  ultimately show ?thesis using True by (simp add: involve_in_def tx_ok_def sorted_wrt_map list_all_iff)
next
  case False
  have "distinct (map br_id (b_resources (branch_involve_all rms (mk_branch t))))"
    by (rule branch_involve_distinct) (simp add: mk_branch_def)
  then show ?thesis using False assms
    by (auto simp: involve_in_def tx_ok_def sorted_wrt_append mk_branch_def)
qed

lemma txs_ok_involve:
  assumes "txs_ok (s_transactions s)" and "\<And>x. tx_ok x \<Longrightarrow> t_global x = gtrid t \<Longrightarrow> tx_ok (f x)"
    and "\<And>x. t_global (f x) = t_global x"
  shows "txs_ok (s_transactions (upd_transaction (gtrid t) f (add_missing t s)))"
proof -
  have "txs_ok (s_transactions (add_missing t s))"
  proof (cases "find_transaction (gtrid t) s")
    case None
    have "tx_ok (mk_transaction t)" by (simp add: mk_transaction_def tx_ok_def mk_branch_def)
    moreover have "gtrid t \<notin> set (map t_global (s_transactions s))"
      using None by (auto simp: find_transaction_def find_None_iff_filter filter_empty_conv)
    ultimately show ?thesis using None assms(1)
      by (auto simp: add_missing_def txs_ok_def mk_transaction_def)
  qed (use assms(1) in \<open>simp add: add_missing_def\<close>)
  then show ?thesis unfolding upd_transaction_def by (auto intro!: txs_ok_update simp: assms(2,3))
qed

section \<open>State updates\<close>

lemma tm_ok_core: "tm_ok s \<Longrightarrow> tm_core s"
  by (simp add: tm_ok_def)

lemma keeps_ok: "(\<And>s. tm_ok s \<Longrightarrow> tm_core (f s) \<and> s_replies (f s) = s_replies s) \<Longrightarrow> act_keeps tm_ok (act_upd f)"
  by (rule keeps_upd) (simp add: tm_ok_def)

lemma post_fields [simp]:
  "s_transactions (post d m s) = s_transactions s" "s_resources (post d m s) = s_resources s"
  "s_prepare (post d m s) = s_prepare s" "s_commit (post d m s) = s_commit s"
  "s_rollback (post d m s) = s_rollback s" "s_replies (post d m s) = s_replies s"
  "s_log (post d m s) = s_log s" "s_next_corr (post d m s) = s_next_corr s"
  "s_requests (post d m s) = s_requests s" "s_externals (post d m s) = s_externals s"
  "s_outbox (post d m s) = s_outbox s @ [(d, m)]"
  by (simp_all add: post_def)

lemma core_post [simp]: "tm_core (post d m s) = tm_core s"
  by (simp add: tm_core_def)

lemma core_requests [simp]: "tm_core (s\<lparr>s_requests := r\<rparr>) = tm_core s"
  by (simp add: tm_core_def)

lemma core_externals [simp]: "tm_core (s\<lparr>s_externals := r\<rparr>) = tm_core s" "tm_core (s\<lparr>s_external_base := n\<rparr>) = tm_core s"
  by (simp_all add: tm_core_def)

lemma core_replies [simp]: "tm_core (s\<lparr>s_replies := r\<rparr>) = tm_core s"
  by (simp add: tm_core_def)

lemma core_corr: "tm_core s \<Longrightarrow> s_next_corr s \<le> n \<Longrightarrow> tm_core (s\<lparr>s_next_corr := n\<rparr>)"
  by (auto simp: tm_core_def intro: fan_ok_mono)

lemma core_transactions:
  "tm_core s \<Longrightarrow> txs_ok ts \<Longrightarrow> tm_core (s\<lparr>s_transactions := ts\<rparr>)"
  by (simp add: tm_core_def)

lemma core_upd_transaction:
  assumes "tm_core s" and "\<And>t. tx_ok t \<Longrightarrow> tx_ok (f t)" and "\<And>t. t_global (f t) = t_global t"
  shows "tm_core (upd_transaction g f s)"
  unfolding upd_transaction_def
  by (rule core_transactions) (use assms in \<open>auto simp: tm_core_def intro!: txs_ok_update\<close>)

lemma core_erase: "tm_core s \<Longrightarrow> tm_core (erase_transaction g s)"
  unfolding erase_transaction_def by (rule core_transactions) (auto simp: tm_core_def intro: txs_ok_remove)

lemma core_log: "tm_core s \<Longrightarrow> log_ok l \<Longrightarrow> tm_core (s\<lparr>s_log := l\<rparr>)"
  by (simp add: tm_core_def)

lemma log_ok_ops:
  "log_ok l \<Longrightarrow> log_ok (log_persist l)" "log_ok l \<Longrightarrow> log_ok (log_remove g l)"
  "log_ok l \<Longrightarrow> log_insert r l = Some l' \<Longrightarrow> log_ok l'"
  by (auto simp: log_ok_def log_persist_def log_remove_def distinct_map_filter)
    (fastforce simp: log_insert_def split: if_splits)

lemma core_resources:
  "tm_core s \<Longrightarrow> distinct (map p_id ps) \<Longrightarrow> list_all proxy_ok ps \<Longrightarrow> tm_core (s\<lparr>s_resources := ps\<rparr>)"
  by (simp add: tm_core_def)

lemma core_resources_update:
  assumes "tm_core s" and "\<And>p. p_id (f p) = p_id p" and "\<And>p. proxy_ok p \<Longrightarrow> Q p \<Longrightarrow> proxy_ok (f p)"
  shows "tm_core (s\<lparr>s_resources := update_first Q f (s_resources s)\<rparr>)"
  by (rule core_resources [OF assms(1)])
    (use assms in \<open>auto simp: tm_core_def map_update_first intro!: list_all_update_first\<close>)

lemma core_upd_instance:
  assumes "tm_core s" and "\<And>i. i_id (f i) = i_id i"
  shows "tm_core (upd_instance rm P f s)"
  unfolding upd_instance_def
  by (rule core_resources_update [OF assms(1)])
    (use assms(2) in \<open>auto simp: proxy_ok_def intro!: list_all_update_first\<close>)

lemma upd_instance_fields [simp]:
  "s_transactions (upd_instance rm P f s) = s_transactions s" "s_prepare (upd_instance rm P f s) = s_prepare s"
  "s_commit (upd_instance rm P f s) = s_commit s" "s_rollback (upd_instance rm P f s) = s_rollback s"
  "s_replies (upd_instance rm P f s) = s_replies s" "s_log (upd_instance rm P f s) = s_log s"
  "s_next_corr (upd_instance rm P f s) = s_next_corr s" "s_outbox (upd_instance rm P f s) = s_outbox s"
  "s_requests (upd_instance rm P f s) = s_requests s" "s_externals (upd_instance rm P f s) = s_externals s"
  by (simp_all add: upd_instance_def)

lemma upd_transaction_fields [simp]:
  "s_resources (upd_transaction g f s) = s_resources s" "s_prepare (upd_transaction g f s) = s_prepare s"
  "s_commit (upd_transaction g f s) = s_commit s" "s_rollback (upd_transaction g f s) = s_rollback s"
  "s_replies (upd_transaction g f s) = s_replies s" "s_log (upd_transaction g f s) = s_log s"
  "s_next_corr (upd_transaction g f s) = s_next_corr s" "s_outbox (upd_transaction g f s) = s_outbox s"
  "s_requests (upd_transaction g f s) = s_requests s" "s_externals (upd_transaction g f s) = s_externals s"
  by (simp_all add: upd_transaction_def)

lemma erase_transaction_fields [simp]:
  "s_resources (erase_transaction g s) = s_resources s" "s_prepare (erase_transaction g s) = s_prepare s"
  "s_commit (erase_transaction g s) = s_commit s" "s_rollback (erase_transaction g s) = s_rollback s"
  "s_replies (erase_transaction g s) = s_replies s" "s_log (erase_transaction g s) = s_log s"
  "s_next_corr (erase_transaction g s) = s_next_corr s" "s_outbox (erase_transaction g s) = s_outbox s"
  "s_requests (erase_transaction g s) = s_requests s" "s_externals (erase_transaction g s) = s_externals s"
  by (simp_all add: erase_transaction_def)

lemma inst_set_id [simp]: "i_id (inst_set st i) = i_id i" "i_process (inst_set st i) = i_process i"
  by (simp_all add: inst_set_def)

lemma add_missing_fields [simp]:
  "s_resources (add_missing t s) = s_resources s" "s_prepare (add_missing t s) = s_prepare s"
  "s_commit (add_missing t s) = s_commit s" "s_rollback (add_missing t s) = s_rollback s"
  "s_replies (add_missing t s) = s_replies s" "s_log (add_missing t s) = s_log s"
  "s_next_corr (add_missing t s) = s_next_corr s" "s_outbox (add_missing t s) = s_outbox s"
  "s_requests (add_missing t s) = s_requests s" "s_externals (add_missing t s) = s_externals s"
  by (simp_all add: add_missing_def split: option.splits)

lemma core_involve:
  assumes "tm_core s" and "\<And>x. tx_ok x \<Longrightarrow> t_global x = gtrid t \<Longrightarrow> tx_ok (f x)"
    and "\<And>x. t_global (f x) = t_global x"
  shows "tm_core (upd_transaction (gtrid t) f (add_missing t s))"
  using assms(1) txs_ok_involve [OF _ assms(2,3), of s] by (simp add: tm_core_def)

lemma core_branch_involved: "tm_core s \<Longrightarrow> tm_core (branch_involved t rms s)"
  unfolding branch_involved_def by (rule core_involve) (auto intro: tx_ok_purge tx_ok_involve_in)

lemma core_find_or_add: "tm_core s \<Longrightarrow> tm_core (find_or_add_and_involve t rms s)" "tm_core s \<Longrightarrow> tm_core (find_or_add_branch t s)"
  unfolding find_or_add_and_involve_def find_or_add_branch_def
  by (auto intro!: core_involve tx_ok_involve_in)

section \<open>The pieces of the handlers\<close>

lemma keeps_flush_send [keeps_intros]: "act_keeps tm_ok (flush_send ev ipc m)"
  by (auto simp: flush_send_def intro!: keeps_intros keeps_ok simp: tm_ok_core)

lemma keeps_optional_send [keeps_intros]: "act_keeps tm_ok (optional_send ev ipc m)"
  by (auto simp: optional_send_def intro!: keeps_intros keeps_ok simp: tm_ok_core)

text \<open>What \<open>persist::send\<close> puts out: the log, the replies sent at once, those that are left.\<close>

definition sent_now :: "env \<Rightarrow> out_msg \<times> handle \<Rightarrow> bool" where
  "sent_now ev r \<longleftrightarrow> ev_reach ev (hipc (snd r)) \<and> ev_room ev (hipc (snd r))"

definition persisted :: "env \<Rightarrow> nat \<Rightarrow> (out_msg \<times> handle) list \<Rightarrow> (dest \<times> out_msg) list" where
  "persisted ev n rs = (To_log, Log_persisted n)
     # map (\<lambda>r. (To_ipc (hipc (snd r)), fst r)) (filter (sent_now ev) rs)
     @ map (\<lambda>r. (To_pending (snd r), fst r)) (filter (not_sent ev) rs)"

lemma fold_send_direct:
  "fold (send_direct ev) rs s = s\<lparr>s_outbox := s_outbox s @ map (\<lambda>r. (To_ipc (hipc (snd r)), fst r)) (filter (sent_now ev) rs)\<rparr>"
  by (induction rs arbitrary: s) (simp_all add: send_direct_def post_def sent_now_def)

lemma fold_send_pending:
  "fold send_pending rs s = s\<lparr>s_outbox := s_outbox s @ map (\<lambda>r. (To_pending (snd r), fst r)) rs\<rparr>"
  by (induction rs arbitrary: s) (simp_all add: send_pending_def post_def)

lemma persist_send_eq:
  "persist_send ev s = (Inr (), s\<lparr>s_log := log_persist (s_log s), s_replies := [],
     s_outbox := s_outbox s @ persisted ev (length (l_rows (s_log s))) (s_replies s)\<rparr>)"
  by (simp add: persist_send_def act_upd_def Let_def fold_send_direct fold_send_pending persisted_def post_def)

lemma persist_send_ok:
  "tm_core s \<Longrightarrow> tm_ok (snd (persist_send ev s))"
  by (auto simp: persist_send_eq tm_ok_def batch_persistence_def tm_core_def intro: log_ok_ops)

lemma keeps_persist_reply [keeps_intros]: "act_keeps tm_ok (persist_reply ev m target)"
  unfolding act_keeps_def persist_reply_def act_then_def act_bind_def act_upd_def batch_send_def act_get_def
  by (auto simp: act_ret_def tm_ok_core persist_send_ok) (auto simp: tm_ok_def)

lemma keeps_persist_idle [keeps_intros]: "act_keeps tm_ok (persist_idle ev)"
  unfolding act_keeps_def persist_idle_def act_bind_def act_get_def
  by (auto simp: act_ret_def tm_ok_core persist_send_ok)

lemma keeps_get_resource [keeps_intros]: "act_keeps tm_ok (get_resource rm)"
  unfolding get_resource_def by (intro keeps_intros)

lemma keeps_get_instance [keeps_intros]: "act_keeps tm_ok (get_instance rm pid)"
  unfolding get_instance_def by (intro keeps_intros)

lemma keeps_get_external [keeps_intros]: "act_keeps tm_ok (get_external rm)"
  unfolding get_external_def by (intro keeps_intros)

lemma keeps_idle [keeps_intros]: "act_keeps tm_ok (idle rm)"
  unfolding idle_def by (intro keeps_intros)

lemma keeps_external_id [keeps_intros]: "act_keeps tm_ok (external_id h)"
  unfolding external_id_def by (intro keeps_intros keeps_ok) (simp_all add: tm_ok_core)

lemma keeps_instance_done [keeps_intros]: "act_keeps tm_ok (instance_done ev rm pid)"
  unfolding instance_done_def
  by (intro keeps_intros keeps_ok) (auto simp: tm_ok_core intro!: core_upd_instance)

lemma keeps_instance_replied [keeps_intros]: "act_keeps tm_ok (instance_replied ev m)"
  unfolding instance_replied_def
  by (intro keeps_intros keeps_ok) (auto simp: tm_ok_core intro!: core_upd_instance)

lemma keeps_upd_transaction:
  "(\<And>t. tx_ok t \<Longrightarrow> tx_ok (f t)) \<Longrightarrow> (\<And>t. t_global (f t) = t_global t) \<Longrightarrow> act_keeps tm_ok (act_upd (upd_transaction g f))"
  by (rule keeps_ok) (auto intro!: core_upd_transaction dest: tm_ok_core)

lemma keeps_erase [keeps_intros]: "act_keeps tm_ok (act_upd (erase_transaction g))"
  by (rule keeps_ok) (auto intro!: core_erase dest: tm_ok_core)

lemma keeps_remove_transaction [keeps_intros]: "act_keeps tm_ok (remove_transaction g)"
  unfolding remove_transaction_def
proof (rule keeps_ok)
  fix s assume "tm_ok s"
  then have "tm_core (s\<lparr>s_log := log_remove g (s_log s)\<rparr>)"
    by (simp add: tm_ok_def tm_core_def log_ok_ops)
  then show "tm_core (erase_transaction g (s\<lparr>s_log := log_remove g (s_log s)\<rparr>))
      \<and> s_replies (erase_transaction g (s\<lparr>s_log := log_remove g (s_log s)\<rparr>)) = s_replies s"
    by (auto intro: core_erase)
qed

lemma keeps_log_prepare [keeps_intros]: "act_keeps tm_ok (log_prepare t)"
proof -
  have "act_keeps tm_ok (log_prepare_branch t b)" for b
    by (auto simp: act_keeps_def log_prepare_branch_def act_bind_def act_get_def act_raise_def act_upd_def
        tm_ok_def tm_core_def dest: log_ok_ops(3) split: option.splits)
  then show ?thesis unfolding log_prepare_def by (intro keeps_intros)
qed

section \<open>Requests and coordinations\<close>

lemma act_spec_keep: "act_keeps P f \<Longrightarrow> act_spec P f (\<lambda>_. P) P"
  by (simp add: act_keeps_spec)

lemma fresh_pending_Nil [simp]: "fresh_pending [] s"
  by (simp add: fresh_pending_def)

lemma fresh_pending_same:
  "fresh_pending ps s \<Longrightarrow> s_prepare s' = s_prepare s \<Longrightarrow> s_commit s' = s_commit s \<Longrightarrow>
   s_rollback s' = s_rollback s \<Longrightarrow> s_next_corr s \<le> s_next_corr s' \<Longrightarrow> fresh_pending ps s'"
  by (auto simp: fresh_pending_def)

text \<open>A request takes the next correlation, whatever it does with the message.\<close>

definition corr_taken :: "tm \<Rightarrow> tm \<Rightarrow> bool" where
  "corr_taken s s' \<longleftrightarrow> tm_ok s' \<and> s_prepare s' = s_prepare s \<and> s_commit s' = s_commit s
     \<and> s_rollback s' = s_rollback s \<and> s_next_corr s' = Suc (s_next_corr s)"

lemma get_resource_state [simp]: "snd (get_resource rm s) = s"
  by (auto simp: get_resource_def act_bind_def act_get_def act_raise_def act_ret_def split: option.splits)

lemma idle_state [simp]: "snd (idle rm s) = s"
proof -
  obtain r s' where r: "get_resource rm s = (r, s')" by force
  then have "s' = s" using get_resource_state [of rm s] by simp
  then show ?thesis using r by (cases r) (auto simp: idle_def act_bind_def act_ret_def)
qed

lemma get_external_state [simp]: "snd (get_external rm s) = s"
  by (auto simp: get_external_def act_bind_def act_get_def act_raise_def act_ret_def split: option.splits)

lemma rm_request_taken:
  assumes "tm_ok s" and "rm_request ev kind t rm one s = (Inr c, s')"
  shows "c = s_next_corr s \<and> corr_taken s s'"
proof -
  have core: "tm_core (s\<lparr>s_next_corr := Suc (s_next_corr s)\<rparr>)"
    using assms(1) by (auto simp: tm_ok_def intro: core_corr)
  obtain r s1 where i: "idle rm s = (r, s1)" by force
  then have s1: "s1 = s" using idle_state [of rm s] by simp
  obtain q s2 where x: "get_external rm s = (q, s2)" by force
  then have s2: "s2 = s" using get_external_state [of rm s] by simp
  have "length (s_replies s) < batch_persistence" using assms(1) by (simp add: tm_ok_def)
  then show ?thesis using assms(2) i x s1 s2 core
    by (auto simp: rm_request_def act_bind_def act_then_def act_get_def act_upd_def act_ret_def fresh_corr_def
        flush_send_def act_raise_def corr_taken_def tm_ok_def intro!: core_upd_instance
        split: if_splits sum.splits option.splits)
qed

lemma keeps_fresh_corr [keeps_intros]: "act_keeps tm_ok fresh_corr"
  by (auto simp: act_keeps_def fresh_corr_def act_bind_def act_then_def act_get_def act_upd_def act_ret_def
      tm_ok_def intro: core_corr)

lemma keeps_rm_request [keeps_intros]: "act_keeps tm_ok (rm_request ev kind t rm one)"
  unfolding rm_request_def
  by (intro keeps_intros keeps_ok) (auto simp: tm_ok_core intro!: core_upd_instance)

lemma each_requests:
  assumes "tm_ok s" and "fresh_pending qs s"
    and "act_each (\<lambda>(t, rm). act_bind (rm_request ev kind t rm one) (\<lambda>c. act_ret (mk_pending c rm))) xs s = (Inr ps, s')"
  shows "tm_ok s' \<and> fresh_pending (qs @ ps) s'"
  using assms
proof (induction xs arbitrary: s qs ps)
  case Nil
  then show ?case by (simp add: act_ret_def)
next
  case (Cons x xs)
  obtain t rm where x: "x = (t, rm)" by force
  obtain r s1 where r: "rm_request ev kind t rm one s = (r, s1)" by force
  obtain c where c: "r = Inr c" using Cons.prems(3) r x by (cases r) (auto simp: act_bind_def)
  have tk: "c = s_next_corr s" "corr_taken s s1" using rm_request_taken [OF Cons.prems(1)] r c by blast+
  have fr: "fresh_pending (qs @ [mk_pending c rm]) s1"
  proof -
    have "fan_ok (s_next_corr s) (s_prepare s)" "fan_ok (s_next_corr s) (s_commit s)" "fan_ok (s_next_corr s) (s_rollback s)"
      using Cons.prems(1) by (auto simp: tm_ok_def tm_core_def)
    then show ?thesis using tk Cons.prems(2)
      by (auto simp: fresh_pending_def corr_taken_def mk_pending_def fan_ok_def less_Suc_eq)
  qed
  let ?F = "\<lambda>(t, rm). act_bind (rm_request ev kind t rm one) (\<lambda>c. act_ret (mk_pending c rm))"
  obtain r2 s2 where r2: "act_each ?F xs s1 = (r2, s2)" by force
  have "act_each ?F (x # xs) s = (case r2 of Inl e \<Rightarrow> (Inl e, s2) | Inr ps' \<Rightarrow> (Inr (mk_pending c rm # ps'), s2))"
    using r2 by (simp add: act_bind_def act_ret_def x r c split: sum.split)
  with Cons.prems(3) obtain ps' where ps': "r2 = Inr ps'" "ps = mk_pending c rm # ps'" "s' = s2"
    by (cases r2) auto
  have "tm_ok s' \<and> fresh_pending ((qs @ [mk_pending c rm]) @ ps') s'"
    by (rule Cons.IH [OF _ fr]) (use tk r2 ps' in \<open>auto simp: corr_taken_def\<close>)
  then show ?case using ps' by simp
qed

lemma keeps_pending_requests [keeps_intros]: "act_keeps tm_ok (pending_requests ev kind one xs)"
  unfolding pending_requests_def by (intro keeps_intros)

lemma spec_pending_requests:
  "act_spec tm_ok (pending_requests ev kind one xs) (\<lambda>ps s. tm_ok s \<and> fresh_pending ps s) tm_ok"
  unfolding act_spec_def
proof (intro allI impI)
  fix s assume ok: "tm_ok s"
  show "act_post (\<lambda>ps s. tm_ok s \<and> fresh_pending ps s) tm_ok (pending_requests ev kind one xs s)"
  proof (cases "pending_requests ev kind one xs s" rule: act_cases)
    case (fault e s')
    then show ?thesis using keeps_pending_requests ok
      by (metis act_keeps_def act_post.simps(1) snd_conv)
  next
    case (result ps s')
    then have "tm_ok s' \<and> fresh_pending ([] @ ps) s'"
      unfolding pending_requests_def by (intro each_requests [OF ok fresh_pending_Nil])
    then show ?thesis using result by simp
  qed
qed

lemma keeps_with_pending:
  assumes "\<And>ps. act_spec (\<lambda>s. tm_ok s \<and> fresh_pending ps s) (k ps) (\<lambda>_. tm_ok) tm_ok"
  shows "act_keeps tm_ok (act_bind (pending_requests ev kind one xs) k)"
  unfolding act_keeps_spec by (rule act_spec_bind [OF spec_pending_requests assms])

lemma fan_add_fresh:
  fixes es :: rm_fan
  assumes "fan_ok n es" and "distinct (map fan_corr ps)"
    and "\<forall>c\<in>set (map fan_corr ps). c < n \<and> c \<notin> set (fan_corrs es)"
  shows "fan_ok n (snd (fan_add ps cb es))"
proof (cases "fan_waiting \<lparr>fe_pending = ps, fe_received = ([]::rm_reply list), fe_callback = cb\<rparr>")
  case True
  then show ?thesis using assms by (auto simp: fan_add_waiting fan_ok_def)
next
  case False
  then show ?thesis using assms(1) by (simp add: fan_add_done)
qed

lemma keeps_fired_phase2 [keeps_intros]: "act_keeps tm_ok (fired_phase2 ev st fired)"
  unfolding fired_phase2_def Let_def by (intro keeps_intros)

lemma keeps_run_fired [keeps_intros]: "(\<And>x. act_keeps P (f x)) \<Longrightarrow> act_keeps P (run_fired f fired)"
  unfolding run_fired_def by (intro keeps_intros)

lemma spec_coordinate:
  fixes g :: "tm \<Rightarrow> rm_fired option \<times> rm_fan"
  assumes k: "\<And>x. act_keeps tm_ok (k x)"
    and upd: "\<And>s c. tm_core s \<Longrightarrow> fan_ok (s_next_corr s) c \<Longrightarrow> tm_core (u c s) \<and> s_replies (u c s) = s_replies s"
    and g: "\<And>s. P s \<Longrightarrow> tm_ok s \<and> fan_ok (s_next_corr s) (snd (g s))"
  shows "act_spec P (act_bind (act_get g) (\<lambda>(fired, c). act_then (act_upd (u c)) (run_fired k fired))) (\<lambda>_. tm_ok) tm_ok"
proof (rule act_spec_get_bind)
  fix x :: "rm_fired option \<times> rm_fan"
  obtain fired c where x: "x = (fired, c)" by force
  have "act_spec (\<lambda>s. P s \<and> g s = x) (act_then (act_upd (u c)) (run_fired k fired)) (\<lambda>_. tm_ok) tm_ok"
  proof (rule act_spec_upd_then [where R = tm_ok])
    fix s assume "P s \<and> g s = x"
    then have "tm_ok s" "fan_ok (s_next_corr s) c" using g [of s] x by auto
    then show "tm_ok (u c s)" using upd [of s c] by (simp add: tm_ok_def)
  next
    show "act_spec tm_ok (run_fired k fired) (\<lambda>_. tm_ok) tm_ok"
      by (intro act_spec_keep keeps_run_fired k)
  qed
  then show "act_spec (\<lambda>s. P s \<and> g s = x)
      (case x of (fired, c) \<Rightarrow> act_then (act_upd (u c)) (run_fired k fired)) (\<lambda>_. tm_ok) tm_ok"
    by (simp add: x)
qed

lemma spec_coordinate_commit:
  "act_spec (\<lambda>s. tm_ok s \<and> fresh_pending ps s) (coordinate_commit ev ps cb) (\<lambda>_. tm_ok) tm_ok"
  unfolding coordinate_commit_def
  by (rule spec_coordinate)
    (auto simp: tm_core_def tm_ok_def fresh_pending_def intro!: keeps_intros fan_add_fresh)

lemma spec_coordinate_rollback:
  "act_spec (\<lambda>s. tm_ok s \<and> fresh_pending ps s) (coordinate_rollback ev ps cb) (\<lambda>_. tm_ok) tm_ok"
  unfolding coordinate_rollback_def
  by (rule spec_coordinate)
    (auto simp: tm_core_def tm_ok_def fresh_pending_def intro!: keeps_intros fan_add_fresh)

lemma keeps_fired_prepare [keeps_intros]: "act_keeps tm_ok (fired_prepare ev fired)"
  unfolding fired_prepare_def Let_def
  by (intro keeps_intros keeps_upd_transaction keeps_with_pending spec_coordinate_commit spec_coordinate_rollback)
    (simp_all add: tx_ok_purge_replies)

lemma spec_coordinate_prepare:
  "act_spec (\<lambda>s. tm_ok s \<and> fresh_pending ps s) (coordinate_prepare ev ps cb) (\<lambda>_. tm_ok) tm_ok"
  unfolding coordinate_prepare_def
  by (rule spec_coordinate)
    (auto simp: tm_core_def tm_ok_def fresh_pending_def intro!: keeps_fired_prepare fan_add_fresh)

section \<open>The handlers\<close>

lemma keeps_start_commit [keeps_intros]: "act_keeps tm_ok (start_commit ev g cb x)"
  unfolding start_commit_def
  by (intro keeps_intros keeps_upd_transaction keeps_with_pending spec_coordinate_commit spec_coordinate_prepare) simp_all

lemma keeps_with_transaction [keeps_intros]:
  "(\<And>x. act_keeps tm_ok (f x)) \<Longrightarrow> act_keeps tm_ok (with_transaction g f)"
  unfolding with_transaction_def by (intro keeps_intros)

lemma branch_involved_replies [simp]: "s_replies (branch_involved t rms s) = s_replies s"
  by (simp add: branch_involved_def)

lemma find_or_add_replies [simp]:
  "s_replies (find_or_add_and_involve t rms s) = s_replies s" "s_replies (find_or_add_branch t s) = s_replies s"
  by (simp_all add: find_or_add_and_involve_def find_or_add_branch_def)

lemma keeps_find_or_add [keeps_intros]:
  "act_keeps tm_ok (act_upd (branch_involved t rms))" "act_keeps tm_ok (act_upd (find_or_add_and_involve t rms))"
  "act_keeps tm_ok (act_upd (find_or_add_branch t))"
  by (rule keeps_ok; simp add: core_branch_involved core_find_or_add tm_ok_core)+

lemma keeps_commit_request [keeps_intros]: "act_keeps tm_ok (commit_request ev m)"
  unfolding commit_request_def Let_def by (intro keeps_intros keeps_upd_transaction) simp_all

lemma keeps_rollback_request [keeps_intros]: "act_keeps tm_ok (rollback_request ev m)"
  unfolding rollback_request_def Let_def
  by (intro keeps_intros keeps_upd_transaction keeps_with_pending spec_coordinate_rollback) simp_all

lemma keeps_reply:
  assumes "\<And>x. act_keeps tm_ok (k x)"
    and "\<And>s c. tm_core s \<Longrightarrow> fan_ok (s_next_corr s) c \<Longrightarrow> tm_core (u c s) \<and> s_replies (u c s) = s_replies s"
    and "\<And>s. tm_ok s \<Longrightarrow> fan_ok (s_next_corr s) (g s)"
  shows "act_keeps tm_ok (act_then (instance_replied ev m)
     (act_bind (act_get (\<lambda>s. fan_message (rr_corr m) m (g s)))
        (\<lambda>(fired, c). act_then (act_upd (u c)) (run_fired k fired))))"
  by (rule keeps_then [OF keeps_instance_replied], unfold act_keeps_spec, rule spec_coordinate)
    (use assms in \<open>auto intro!: fan_message_ok\<close>)

lemma keeps_replies [keeps_intros]:
  "act_keeps tm_ok (prepare_reply ev m)" "act_keeps tm_ok (commit_reply ev m)" "act_keeps tm_ok (rollback_reply ev m)"
  unfolding prepare_reply_def commit_reply_def rollback_reply_def
  by (rule keeps_reply; auto simp: tm_core_def tm_ok_def intro!: keeps_fired_prepare keeps_fired_phase2)+

lemma core_involve_in: "tm_core s \<Longrightarrow> tm_core (upd_transaction (gtrid t) (involve_in t rms) s)"
  unfolding upd_transaction_def
  by (rule core_transactions) (auto simp: tm_core_def intro!: txs_ok_update tx_ok_involve_in)

lemma keeps_involved_request [keeps_intros]: "act_keeps tm_ok (involved_request ev h c t rms)"
  unfolding involved_request_def Let_def
  by (intro keeps_intros keeps_ok) (simp add: core_involve_in tm_ok_core)

lemma keeps_external [keeps_intros]:
  "act_keeps tm_ok (external_reply ev kind m stat)" "act_keeps tm_ok (external_involved h t)"
  by (simp_all only: external_reply_def external_involved_def) (intro keeps_intros)+

lemma keeps_external_phase [keeps_intros]: "act_keeps tm_ok (external_phase ev kind n)"
  unfolding external_phase_def Let_def by (intro keeps_intros keeps_upd_transaction) simp_all

lemma keeps_external_rollback [keeps_intros]: "act_keeps tm_ok (external_rollback ev n)"
  unfolding external_rollback_def Let_def
  by (intro keeps_intros keeps_upd_transaction keeps_with_pending spec_coordinate_rollback) simp_all

lemma keeps_configuration [keeps_intros]:
  "act_keeps tm_ok (resource_configuration ev h c rm)" "act_keeps tm_ok (alias_request ev h c names a)"
  "act_keeps tm_ok (configuration_request ev h c)"
  by (simp_all only: resource_configuration_def alias_request_def alias_configuration_def configuration_request_def)
    (intro keeps_intros)+

lemma keeps_resource_ready [keeps_intros]: "act_keeps tm_ok (resource_ready ev h rm)"
  unfolding resource_ready_def
  by (intro keeps_intros keeps_ok) (auto simp: tm_ok_core intro!: core_upd_instance)

lemma remove_from_proxies_ok:
  "list_all proxy_ok ps \<Longrightarrow> list_all proxy_ok (snd (remove_from_proxies pid ps))
     \<and> map p_id (snd (remove_from_proxies pid ps)) = map p_id ps"
  by (induction ps)
    (auto simp: proxy_remove_instance_def proxy_ok_def list_all_remove_first split: prod.splits option.splits bool.splits)

lemma tm_remove_instance_ok: "tm_core s \<Longrightarrow> tm_core (snd (tm_remove_instance pid s))"
  using remove_from_proxies_ok [of "s_resources s" pid]
  by (auto simp: tm_remove_instance_def tm_core_def split: prod.splits)

lemma keeps_process_exit [keeps_intros]: "act_keeps tm_ok (process_exit ev pid)"
proof -
  have rest: "act_keeps tm_ok (act_bind (act_get (owned_trids pid))
      (\<lambda>ts. act_then (act_each (\<lambda>t. rollback_request ev
        \<lparr>q_process = ev_self ev, q_corr = 0, q_trid = t, q_involved = []\<rparr>) ts) (act_ret ())))"
    by (intro keeps_intros)
  show ?thesis unfolding act_keeps_def
  proof (intro allI impI)
    fix s assume ok: "tm_ok s"
    obtain removed s' where r: "tm_remove_instance pid s = (removed, s')" by force
    have "tm_ok s'" using tm_remove_instance_ok [of s pid] ok r
      by (auto simp: tm_ok_def tm_remove_instance_def split: prod.splits)
    then show "tm_ok (snd (process_exit ev pid s))"
      using rest ok r by (auto simp: process_exit_def act_defs act_keeps_def tm_ok_def)
  qed
qed

lemma keeps_tm_handle: "act_keeps tm_ok (tm_handle ev m)"
  by (cases m) (simp_all add: keeps_commit_request keeps_rollback_request keeps_involved_request keeps_replies
      keeps_external keeps_external_phase keeps_external_rollback keeps_configuration keeps_resource_ready
      keeps_process_exit keeps_persist_idle)

interpretation tm: dispatcher tm_step tm_ok
  using keeps_tm_handle by unfold_locales (auto simp: tm_step_def act_keeps_def)

lemma spawn_instances_ok:
  "proxy_ok p \<Longrightarrow> proxy_ok (spawn_instances ev server n p) \<and> p_id (spawn_instances ev server n p) = p_id p"
  by (induction ev server n p rule: spawn_instances.induct) (auto simp: proxy_ok_def split: option.splits)

lemma spawn_instances_id [simp]: "p_id (spawn_instances ev server n p) = p_id p"
  by (induction ev server n p rule: spawn_instances.induct) (auto split: option.splits)

lemma keeps_scale_instances [keeps_intros]: "act_keeps tm_ok (scale_instances ev rm)"
  unfolding scale_instances_def Let_def shutdown_instance_def
  by (intro keeps_intros keeps_ok)
    (auto simp: tm_ok_core spawn_instances_ok intro!: core_upd_instance core_resources_update split: option.splits)

end
