(* ===== verification/TxQueue.thy ===== *)
theory TxQueue
  imports TxInvariant
begin

text \<open>
  The queue of requests that no instance could take: while an instance of a resource is
  idle, no request for the resource waits. The predicate is about the resources and the queue
  alone, so the handlers that touch neither keep it by their fields.
\<close>

definition no_idle_wait :: "tm \<Rightarrow> bool" where
  "no_idle_wait s \<longleftrightarrow> list_all (\<lambda>p. list_ex (\<lambda>i. i_state i = Idle) (p_instances p) \<longrightarrow>
      list_all (\<lambda>r. fst r \<noteq> p_id p) (s_requests s)) (s_resources s)"

definition queue_ok :: "tm \<Rightarrow> bool" where
  "queue_ok s \<longleftrightarrow> distinct (map p_id (s_resources s)) \<and> list_all proxy_ok (s_resources s) \<and> no_idle_wait s"

lemma keeps_same:
  "(\<And>s. s_resources (f s) = s_resources s \<and> s_requests (f s) = s_requests s) \<Longrightarrow> act_keeps queue_ok (act_upd f)"
  by (rule keeps_upd) (simp add: queue_ok_def no_idle_wait_def)

section \<open>Where the instances stand\<close>

lemma resource_split:
  assumes "List.find (\<lambda>p. p_id p = rm) (s_resources s) = Some p" and "distinct (map p_id (s_resources s))"
  obtains xs ys where "s_resources s = xs @ p # ys" and "p_id p = rm"
    and "\<forall>q\<in>set (xs @ ys). p_id q \<noteq> rm"
    and "\<And>f. update_first (\<lambda>p. p_id p = rm) f (s_resources s) = xs @ f p # ys"
proof -
  obtain xs ys where sp: "s_resources s = xs @ p # ys" "p_id p = rm" "\<forall>q\<in>set xs. p_id q \<noteq> rm"
    using find_Some_split [OF assms(1)] by blast
  have "\<forall>q\<in>set (xs @ ys). p_id q \<noteq> rm" using assms(2) sp by (auto simp: image_iff)
  then show ?thesis using sp update_first_split [of xs "\<lambda>p. p_id p = rm" p] that by simp
qed

lemma queue_ok_instances:
  assumes ok: "queue_ok s" and rs: "s_resources s = xs @ p # ys"
    and p': "p_id p' = p_id p" "proxy_ok p'"
    and idle: "list_ex (\<lambda>i. i_state i = Idle) (p_instances p') \<Longrightarrow> list_all (\<lambda>r. fst r \<noteq> p_id p) q"
    and others: "\<And>r. r \<in> set q \<Longrightarrow> fst r = p_id p \<or> r \<in> set (s_requests s)"
    and res: "s_resources s' = xs @ p' # ys" and req: "s_requests s' = q"
  shows "queue_ok s'"
proof -
  have d: "distinct (map p_id (xs @ p # ys))" using ok rs by (simp add: queue_ok_def)
  have "list_all (\<lambda>r. fst r \<noteq> p_id x) q" if x: "x \<in> set (xs @ ys)" and ex: "list_ex (\<lambda>i. i_state i = Idle) (p_instances x)" for x
  proof -
    have "list_all (\<lambda>r. fst r \<noteq> p_id x) (s_requests s)"
      using ok x ex rs by (auto simp: queue_ok_def no_idle_wait_def list_all_iff list_ex_iff)
    moreover have "p_id x \<noteq> p_id p" using d x by (auto simp: image_iff)
    ultimately show ?thesis using others by (fastforce simp: list_all_iff)
  qed
  then have "no_idle_wait s'" unfolding no_idle_wait_def res req using idle p'(1) by (auto simp: list_all_iff)
  moreover have "distinct (map p_id (s_resources s')) \<and> list_all proxy_ok (s_resources s')"
    using ok d p' by (auto simp: queue_ok_def rs res)
  ultimately show ?thesis by (simp add: queue_ok_def)
qed

lemma idle_update_first:
  "list_ex (\<lambda>i. i_state i = Idle) (update_first P f is) \<Longrightarrow> (\<And>i. P i \<Longrightarrow> i_state (f i) \<noteq> Idle) \<Longrightarrow>
   list_ex (\<lambda>i. i_state i = Idle) is"
  by (induction "is") (auto split: if_splits)

lemma proxy_ok_update:
  "proxy_ok p \<Longrightarrow> (\<And>i. i_id (f i) = i_id i) \<Longrightarrow> proxy_ok (p\<lparr>p_instances := update_first P f (p_instances p)\<rparr>)"
  by (auto simp: proxy_ok_def intro!: list_all_update_first)

section \<open>Requests\<close>

lemma keeps_queue_flush_send [keeps_intros]: "act_keeps queue_ok (flush_send ev ipc m)"
  unfolding flush_send_def by (intro keeps_intros keeps_same) simp

lemma keeps_queue_optional_send [keeps_intros]: "act_keeps queue_ok (optional_send ev ipc m)"
  unfolding optional_send_def by (intro keeps_intros keeps_same) simp

lemma idle_result:
  assumes "idle rm s = (Inr r, s')"
  obtains p where "List.find (\<lambda>p. p_id p = rm) (s_resources s) = Some p"
    and "r = List.find (\<lambda>i. i_state i = Idle) (p_instances p)" and "s' = s"
  using assms by (auto simp: idle_def get_resource_def act_bind_def act_get_def act_raise_def act_ret_def
      split: option.splits)

lemma queue_ok_enqueue:
  assumes "queue_ok s" and "List.find (\<lambda>p. p_id p = rm) (s_resources s) = Some p"
    and "List.find (\<lambda>i. i_state i = Idle) (p_instances p) = None"
    and "s_resources s' = s_resources s" and "s_requests s' = s_requests s @ [(rm, m)]"
  shows "queue_ok s'"
proof -
  have d: "distinct (map p_id (s_resources s))" "list_all proxy_ok (s_resources s)" using assms(1) by (auto simp: queue_ok_def)
  obtain xs ys where sp: "s_resources s = xs @ p # ys" "p_id p = rm"
    by (rule resource_split [OF assms(2) d(1)]) blast
  have "\<not> list_ex (\<lambda>i. i_state i = Idle) (p_instances p)"
    using assms(3) by (auto simp: find_None_iff_filter filter_empty_conv list_ex_iff)
  then show ?thesis
    by (intro queue_ok_instances [OF assms(1) sp(1) refl, of "s_requests s @ [(rm, m)]" s'])
      (use assms(4,5) sp d in auto)
qed

lemma queue_ok_busy:
  assumes "queue_ok s" and "List.find (\<lambda>p. p_id p = rm) (s_resources s) = Some p"
    and "\<And>i. P i \<Longrightarrow> i_state (f i) \<noteq> Idle" and "\<And>i. i_id (f i) = i_id i"
  shows "queue_ok (upd_instance rm P f s)"
proof -
  have d: "distinct (map p_id (s_resources s))" "list_all proxy_ok (s_resources s)" "no_idle_wait s"
    using assms(1) by (auto simp: queue_ok_def)
  obtain xs ys where sp: "s_resources s = xs @ p # ys" "p_id p = rm"
    "\<And>f. update_first (\<lambda>p. p_id p = rm) f (s_resources s) = xs @ f p # ys"
    by (rule resource_split [OF assms(2) d(1)]) blast
  let ?p' = "p\<lparr>p_instances := update_first P f (p_instances p)\<rparr>"
  have "list_all (\<lambda>r. fst r \<noteq> p_id p) (s_requests s)" if "list_ex (\<lambda>i. i_state i = Idle) (p_instances ?p')"
    using d(3) idle_update_first [of P f "p_instances p"] that assms(3) sp(1) by (auto simp: no_idle_wait_def)
  moreover have "proxy_ok ?p'" by (rule proxy_ok_update) (use d sp assms(4) in auto)
  ultimately show ?thesis
    using queue_ok_instances [OF assms(1) sp(1), of ?p' "s_requests s" "upd_instance rm P f s"] sp(3)
    by (simp add: upd_instance_def)
qed

lemma keeps_queue_rm_request [keeps_intros]: "act_keeps queue_ok (rm_request ev kind t rm one)"
  unfolding act_keeps_def
proof (intro allI impI)
  fix s assume ok: "queue_ok s"
  show "queue_ok (snd (rm_request ev kind t rm one s))"
  proof (cases "0 < rm")
    case True
    show ?thesis
    proof (cases "idle rm s" rule: act_cases)
      case (fault e s')
      then show ?thesis using ok True idle_state [of rm s] by (simp add: rm_request_def act_bind_def)
    next
      case (result r s')
      obtain p where p: "List.find (\<lambda>p. p_id p = rm) (s_resources s) = Some p"
        "r = List.find (\<lambda>i. i_state i = Idle) (p_instances p)" "s' = s"
        by (rule idle_result [OF result]) blast
      have ok1: "queue_ok (s\<lparr>s_next_corr := n\<rparr>)" for n using ok by (simp add: queue_ok_def no_idle_wait_def)
      then have ok2: "queue_ok (post d m (s\<lparr>s_next_corr := n\<rparr>))" for d m n
        by (simp add: queue_ok_def no_idle_wait_def)
      show ?thesis
      proof (cases r)
        case None
        then show ?thesis using True result p(3) queue_ok_enqueue [OF ok p(1) p(2) [symmetric, THEN trans, OF None]]
          by (simp add: rm_request_def act_defs fresh_corr_def)
      next
        case (Some i)
        then show ?thesis using True result p(1,3) ok1
          by (auto simp: rm_request_def act_defs fresh_corr_def flush_send_def inst_set_def
              intro!: queue_ok_busy [OF ok2])
      qed
    qed
  next
    case False
    obtain r s' where "get_external rm s = (r, s')" by force
    moreover from this have "s' = s" using get_external_state [of rm s] by simp
    ultimately show ?thesis using ok False
      by (cases r) (auto simp: rm_request_def act_defs fresh_corr_def flush_send_def queue_ok_def no_idle_wait_def)
  qed
qed

section \<open>An instance is done\<close>

definition all_reach :: "env \<Rightarrow> bool" where
  "all_reach ev \<longleftrightarrow> (\<forall>ipc. ev_reach ev ipc)"

lemma get_instance_result:
  assumes "get_instance rm pid s = (Inr i, s')"
  obtains p where "List.find (\<lambda>p. p_id p = rm) (s_resources s) = Some p"
    and "List.find (\<lambda>i. hpid (i_process i) = pid) (p_instances p) = Some i" and "s' = s"
  using assms by (auto simp: get_instance_def get_resource_def act_bind_def act_get_def act_raise_def act_ret_def
      split: option.splits)

lemma get_instance_state [simp]: "snd (get_instance rm pid s) = s"
proof -
  obtain r s' where r: "get_resource rm s = (r, s')" by force
  then have "s' = s" using get_resource_state [of rm s] by simp
  then show ?thesis using r
    by (cases r) (auto simp: get_instance_def act_bind_def act_ret_def act_raise_def split: option.splits)
qed

lemma upd_instance_twice:
  assumes "\<And>i. P (f i) = P i"
  shows "upd_instance rm P g (upd_instance rm P f s) = upd_instance rm P (\<lambda>i. g (f i)) s"
proof -
  have i: "update_first P g (update_first P f is) = update_first P (\<lambda>i. g (f i)) is" for "is"
    by (induction "is") (auto simp: assms)
  have "update_first (\<lambda>p. p_id p = rm) (\<lambda>p. p\<lparr>p_instances := update_first P g (p_instances p)\<rparr>)
      (update_first (\<lambda>p. p_id p = rm) (\<lambda>p. p\<lparr>p_instances := update_first P f (p_instances p)\<rparr>) ps)
    = update_first (\<lambda>p. p_id p = rm) (\<lambda>p. p\<lparr>p_instances := update_first P (\<lambda>i. g (f i)) (p_instances p)\<rparr>) ps" for ps
    by (induction ps) (auto simp: i)
  from this [of "s_resources s"] show ?thesis by (simp add: upd_instance_def)
qed

lemma queue_ok_drop:
  assumes "queue_ok s" and "s_resources s' = s_resources s" and "s_requests s' = remove_first P (s_requests s)"
  shows "queue_ok s'"
  using assms list_all_remove_first by (fastforce simp: queue_ok_def no_idle_wait_def list_all_iff)

lemma keeps_queue_instance_done:
  assumes "all_reach ev"
  shows "act_keeps queue_ok (instance_done ev rm pid)"
  unfolding act_keeps_def
proof (intro allI impI)
  fix s assume ok: "queue_ok s"
  show "queue_ok (snd (instance_done ev rm pid s))"
  proof (cases "get_instance rm pid s" rule: act_cases)
    case (fault e s')
    then show ?thesis using ok get_instance_state [of rm pid s] by (simp add: instance_done_def act_bind_def)
  next
    case (result i s')
    obtain p where p: "List.find (\<lambda>p. p_id p = rm) (s_resources s) = Some p"
      "List.find (\<lambda>i. hpid (i_process i) = pid) (p_instances p) = Some i" "s' = s"
      by (rule get_instance_result [OF result]) blast
    let ?P = "\<lambda>x. hpid (i_process x) = pid"
    have d: "distinct (map p_id (s_resources s))" "list_all proxy_ok (s_resources s)" "no_idle_wait s"
      using ok by (auto simp: queue_ok_def)
    obtain xs ys where sp: "s_resources s = xs @ p # ys" "p_id p = rm"
      "\<And>f. update_first (\<lambda>p. p_id p = rm) f (s_resources s) = xs @ f p # ys"
      by (rule resource_split [OF p(1) d(1)]) blast
    have id: "i_id i = p_id p" using d(2) sp find_Some_in [OF p(2)] by (auto simp: proxy_ok_def list_all_iff)
    show ?thesis
    proof (cases "List.find (\<lambda>(r, _). r = i_id i) (s_requests s)")
      case None
      then have none: "list_all (\<lambda>r. fst r \<noteq> p_id p) (s_requests s)"
        using id by (auto simp: find_None_iff_filter filter_empty_conv list_all_iff)
      have "proxy_ok (p\<lparr>p_instances := update_first ?P (inst_set Idle) (p_instances p)\<rparr>)"
        by (rule proxy_ok_update) (use d sp in auto)
      then have "queue_ok (upd_instance rm ?P (inst_set Idle) s)"
        by (intro queue_ok_instances [OF ok sp(1), of "p\<lparr>p_instances := update_first ?P (inst_set Idle) (p_instances p)\<rparr>" "s_requests s"])
          (use none sp in \<open>auto simp: upd_instance_def\<close>)
      then show ?thesis using result p(3) None by (simp add: instance_done_def act_defs)
    next
      case (Some q)
      obtain r m where q: "q = (r, m)" by force
      have sent: "ev_reach ev ipc" for ipc using assms by (simp add: all_reach_def)
      have "queue_ok (upd_instance rm ?P (\<lambda>i. inst_set Busy (inst_set Idle i)) s)"
        by (rule queue_ok_busy [OF ok p(1)]) (auto simp: inst_set_def)
      then have busy: "queue_ok (upd_instance rm ?P (inst_set Busy) (upd_instance rm ?P (inst_set Idle) s))"
        by (simp add: upd_instance_twice)
      have "queue_ok (snd (instance_done ev rm pid s))"
        by (rule queue_ok_drop [OF busy])
          (use result p(3) Some q sent in \<open>auto simp: instance_done_def act_defs optional_send_def upd_instance_def post_def\<close>)
      then show ?thesis .
    qed
  qed
qed

section \<open>The other handlers\<close>

lemma keeps_queue_state_same:
  assumes "\<And>i. i_state (f i) = i_state i" and "\<And>i. i_id (f i) = i_id i"
  shows "act_keeps queue_ok (act_upd (upd_instance rm P f))"
proof (rule keeps_upd)
  fix s assume ok: "queue_ok s"
  have ex: "list_ex (\<lambda>i. i_state i = Idle) (update_first P f is) = list_ex (\<lambda>i. i_state i = Idle) is" for "is"
    by (induction "is") (auto simp: assms)
  have "no_idle_wait (upd_instance rm P f s)"
    using ok unfolding queue_ok_def no_idle_wait_def upd_instance_def
    by (auto intro!: list_all_update_first simp: ex)
  moreover have "list_all proxy_ok (s_resources (upd_instance rm P f s))"
    using ok assms(2) by (auto simp: queue_ok_def upd_instance_def intro!: list_all_update_first proxy_ok_update)
  ultimately show "queue_ok (upd_instance rm P f s)"
    using ok by (simp add: queue_ok_def upd_instance_def map_update_first)
qed

lemma keeps_queue_instance_replied: "all_reach ev \<Longrightarrow> act_keeps queue_ok (instance_replied ev m)"
  unfolding instance_replied_def
  by (intro keeps_intros keeps_queue_instance_done keeps_queue_state_same) simp_all

lemma keeps_queue_get [keeps_intros]: "act_keeps queue_ok (get_resource rm)" "act_keeps queue_ok (get_instance rm pid)"
  by (simp_all add: act_keeps_def)

lemma keeps_queue_pending [keeps_intros]: "act_keeps queue_ok (pending_requests ev kind one xs)"
  unfolding pending_requests_def by (intro keeps_intros)

lemma keeps_queue_persist [keeps_intros]:
  "act_keeps queue_ok (persist_send ev)" "act_keeps queue_ok (batch_send ev)"
  "act_keeps queue_ok (persist_reply ev m h)" "act_keeps queue_ok (persist_idle ev)"
proof -
  show p: "act_keeps queue_ok (persist_send ev)"
    unfolding persist_send_def Let_def by (rule keeps_same) (simp add: fold_send_direct fold_send_pending post_def)
  then show b: "act_keeps queue_ok (batch_send ev)"
    unfolding batch_send_def by (intro keeps_intros)
  show "act_keeps queue_ok (persist_reply ev m h)"
    unfolding persist_reply_def by (intro keeps_intros keeps_same b) simp
  show "act_keeps queue_ok (persist_idle ev)"
    unfolding persist_idle_def by (intro keeps_intros p)
qed

lemma keeps_queue_phase2 [keeps_intros]: "act_keeps queue_ok (fired_phase2 ev st fired)"
  unfolding fired_phase2_def remove_transaction_def Let_def
  by (intro keeps_intros keeps_same) simp

lemma keeps_queue_coordinate [keeps_intros]:
  "act_keeps queue_ok (coordinate_commit ev ps cb)" "act_keeps queue_ok (coordinate_rollback ev ps cb)"
  by (simp_all only: coordinate_commit_def coordinate_rollback_def) (intro keeps_intros keeps_same, simp)+

lemma keeps_queue_log_prepare [keeps_intros]: "act_keeps queue_ok (log_prepare t)"
  unfolding log_prepare_def log_prepare_branch_def by (intro keeps_intros keeps_same) simp

lemma keeps_queue_fired_prepare [keeps_intros]: "act_keeps queue_ok (fired_prepare ev fired)"
  unfolding fired_prepare_def Let_def by (intro keeps_intros keeps_same) simp_all

lemma keeps_queue_prepare [keeps_intros]: "act_keeps queue_ok (coordinate_prepare ev ps cb)"
  unfolding coordinate_prepare_def by (intro keeps_intros keeps_same) simp

lemma keeps_queue_start_commit [keeps_intros]: "act_keeps queue_ok (start_commit ev g cb x)"
  unfolding start_commit_def by (intro keeps_intros keeps_same) simp_all

lemma involve_fields [simp]:
  "s_resources (branch_involved t rms s) = s_resources s" "s_requests (branch_involved t rms s) = s_requests s"
  "s_resources (find_or_add_and_involve t rms s) = s_resources s"
  "s_requests (find_or_add_and_involve t rms s) = s_requests s"
  "s_resources (find_or_add_branch t s) = s_resources s" "s_requests (find_or_add_branch t s) = s_requests s"
  by (simp_all add: branch_involved_def find_or_add_and_involve_def find_or_add_branch_def)

lemma keeps_queue_requests [keeps_intros]:
  "act_keeps queue_ok (commit_request ev m)" "act_keeps queue_ok (rollback_request ev m)"
  unfolding commit_request_def rollback_request_def with_transaction_def Let_def
  by (intro keeps_intros keeps_same; simp)+

lemma keeps_queue_involved [keeps_intros]: "act_keeps queue_ok (involved_request ev h c t rms)"
  unfolding involved_request_def Let_def by (intro keeps_intros keeps_same) simp_all

lemma keeps_queue_reply:
  assumes "all_reach ev"
  shows "act_keeps queue_ok (prepare_reply ev r)" "act_keeps queue_ok (commit_reply ev r)"
    "act_keeps queue_ok (rollback_reply ev r)"
  unfolding prepare_reply_def commit_reply_def rollback_reply_def
  by (intro keeps_intros keeps_same keeps_queue_instance_replied [OF assms]; simp)+

lemma keeps_queue_external [keeps_intros]:
  "act_keeps queue_ok (external_reply ev kind n stat)" "act_keeps queue_ok (external_involved h t)"
  "act_keeps queue_ok (external_phase ev kind n)" "act_keeps queue_ok (external_rollback ev n)"
proof -
  show r: "act_keeps queue_ok (external_reply ev kind n stat)" for kind stat
    unfolding external_reply_def by (intro keeps_intros)
  show "act_keeps queue_ok (external_involved h t)"
    unfolding external_involved_def external_id_def by (intro keeps_intros keeps_same) simp_all
  show "act_keeps queue_ok (external_phase ev kind n)" "act_keeps queue_ok (external_rollback ev n)"
    unfolding external_phase_def external_rollback_def Let_def
    by (intro keeps_intros keeps_same r; simp)+
qed

lemma keeps_queue_configuration [keeps_intros]:
  "act_keeps queue_ok (resource_configuration ev h c rm)" "act_keeps queue_ok (alias_request ev h c names a)"
  "act_keeps queue_ok (configuration_request ev h c)"
  by (simp_all only: resource_configuration_def alias_request_def alias_configuration_def configuration_request_def)
    (intro keeps_intros)+

lemma keeps_queue_ready: "all_reach ev \<Longrightarrow> act_keeps queue_ok (resource_ready ev h rm)"
  unfolding resource_ready_def
  by (intro keeps_intros keeps_queue_instance_done keeps_queue_state_same) simp_all

lemma remove_from_proxies_idle:
  assumes "list_all (\<lambda>p. list_ex (\<lambda>i. i_state i = Idle) (p_instances p) \<longrightarrow> Q (p_id p)) ps"
  shows "list_all (\<lambda>p. list_ex (\<lambda>i. i_state i = Idle) (p_instances p) \<longrightarrow> Q (p_id p)) (snd (remove_from_proxies pid ps))"
  using assms
proof (induction ps)
  case (Cons p ps)
  have "list_ex (\<lambda>i. i_state i = Idle) (p_instances p)"
    if "list_ex (\<lambda>i. i_state i = Idle) (remove_first P (p_instances p))" for P
    using that set_remove_first by (fastforce simp: list_ex_iff)
  then show ?case using Cons by (auto simp: proxy_remove_instance_def split: prod.splits option.splits bool.splits)
qed simp

lemma keeps_queue_process_exit [keeps_intros]: "act_keeps queue_ok (process_exit ev pid)"
proof -
  have rest: "act_keeps queue_ok (act_bind (act_get (owned_trids pid))
      (\<lambda>ts. act_then (act_each (\<lambda>t. rollback_request ev
        \<lparr>q_process = ev_self ev, q_corr = 0, q_trid = t, q_involved = []\<rparr>) ts) (act_ret ())))"
    by (intro keeps_intros)
  show ?thesis unfolding act_keeps_def
  proof (intro allI impI)
    fix s assume ok: "queue_ok s"
    obtain removed s' where r: "tm_remove_instance pid s = (removed, s')" by force
    have "queue_ok s'"
      using ok r remove_from_proxies_ok [of "s_resources s" pid]
        remove_from_proxies_idle [of "\<lambda>i. list_all (\<lambda>r. fst r \<noteq> i) (s_requests s)" "s_resources s" pid]
      by (auto simp: tm_remove_instance_def queue_ok_def no_idle_wait_def split: prod.splits)
    then show "queue_ok (snd (process_exit ev pid s))"
      using rest ok r by (auto simp: process_exit_def act_defs act_keeps_def queue_ok_def no_idle_wait_def)
  qed
qed

lemma keeps_queue_tm_handle: "all_reach ev \<Longrightarrow> act_keeps queue_ok (tm_handle ev m)"
  by (cases m) (simp_all add: keeps_queue_requests keeps_queue_involved keeps_queue_reply
      keeps_queue_external keeps_queue_configuration keeps_queue_ready keeps_queue_process_exit keeps_queue_persist)

lemma queue_ok_run:
  "queue_ok s \<Longrightarrow> list_all (\<lambda>m. all_reach (fst m)) ms \<Longrightarrow> queue_ok (fold tm_step ms s)"
proof (induction ms arbitrary: s)
  case (Cons m ms)
  have "queue_ok (tm_step m s)"
    using Cons.prems keeps_queue_tm_handle [of "fst m" "snd m"] by (simp add: act_keeps_def tm_step_def)
  then show ?case using Cons by simp
qed simp

end
