(* ===== verification/TxRequests.thy ===== *)
theory TxRequests
  imports TxQueue "HOL-Library.Multiset"
begin

text \<open>
  What the requests to resources amount to: each target gets exactly one message, sent to
  an idle instance or queued, and the coordination waits for exactly these.
\<close>

definition known_rm :: "tm \<Rightarrow> int \<Rightarrow> bool" where
  "known_rm s rm \<longleftrightarrow> (if 0 < rm then list_ex (\<lambda>p. p_id p = rm) (s_resources s)
                      else list_ex (\<lambda>e. e_id e = rm) (s_externals s))"

definition rm_messages :: "rm_kind \<Rightarrow> bool \<Rightarrow> nat \<Rightarrow> (trid \<times> int) list \<Rightarrow> out_msg list" where
  "rm_messages kind one c xs = map2 (\<lambda>c (t, rm). Rm_request kind c t rm one) [c..<c + length xs] xs"

definition rm_pending :: "nat \<Rightarrow> (trid \<times> int) list \<Rightarrow> int fan_pending list" where
  "rm_pending c xs = map2 (\<lambda>c (t, rm). mk_pending c rm) [c..<c + length xs] xs"

text \<open>Between two states exactly the given requests were made: sent, or put in the queue.\<close>

definition requested :: "out_msg list \<Rightarrow> tm \<Rightarrow> tm \<Rightarrow> bool" where
  "requested ms s s' \<longleftrightarrow> (\<exists>sent queued. s_outbox s' = s_outbox s @ sent \<and> s_requests s' = s_requests s @ queued
     \<and> mset (map snd sent @ map snd queued) = mset ms)"

lemma requested_Nil: "requested [] s s' \<longleftrightarrow> s_outbox s' = s_outbox s \<and> s_requests s' = s_requests s"
  by (auto simp: requested_def)

lemma requested_trans: "requested ms s s1 \<Longrightarrow> requested ns s1 s2 \<Longrightarrow> requested (ms @ ns) s s2"
proof -
  assume "requested ms s s1" "requested ns s1 s2"
  then obtain a b c d where
    1: "s_outbox s1 = s_outbox s @ a" "s_requests s1 = s_requests s @ b" "mset (map snd a @ map snd b) = mset ms" and
    2: "s_outbox s2 = s_outbox s1 @ c" "s_requests s2 = s_requests s1 @ d" "mset (map snd c @ map snd d) = mset ns"
    by (auto simp: requested_def)
  have "mset (map snd (a @ c) @ map snd (b @ d)) = mset (ms @ ns)"
    using 1(3) 2(3) by (simp add: ac_simps)
  then show ?thesis unfolding requested_def using 1(1,2) 2(1,2) by (intro exI [of _ "a @ c"] exI [of _ "b @ d"]) simp
qed

lemma requested_member:
  "requested ms s s' \<Longrightarrow> m \<in> set ms \<Longrightarrow> m \<in> snd ` set (s_outbox s') \<or> m \<in> snd ` set (s_requests s')"
proof -
  assume "requested ms s s'" "m \<in> set ms"
  then obtain sent queued where r: "s_outbox s' = s_outbox s @ sent" "s_requests s' = s_requests s @ queued"
    "mset (map snd sent @ map snd queued) = mset ms" by (auto simp: requested_def)
  have "m \<in># mset (map snd sent @ map snd queued)" unfolding r(3) using \<open>m \<in> set ms\<close> by simp
  then show ?thesis unfolding r(1,2) by auto
qed

text \<open>All that a request leaves as it was.\<close>

definition same_tx :: "tm \<Rightarrow> tm \<Rightarrow> bool" where
  "same_tx s s' \<longleftrightarrow> s_transactions s' = s_transactions s \<and> s_prepare s' = s_prepare s
     \<and> s_commit s' = s_commit s \<and> s_rollback s' = s_rollback s \<and> s_replies s' = s_replies s
     \<and> s_log s' = s_log s \<and> s_externals s' = s_externals s
     \<and> map p_id (s_resources s') = map p_id (s_resources s)"

lemma same_tx_trans: "same_tx s s1 \<Longrightarrow> same_tx s1 s2 \<Longrightarrow> same_tx s s2"
  by (auto simp: same_tx_def)

lemma same_tx_known: "same_tx s s' \<Longrightarrow> known_rm s' = known_rm s"
proof -
  assume "same_tx s s'"
  then have "s_externals s' = s_externals s" "set (map p_id (s_resources s')) = set (map p_id (s_resources s))"
    by (simp_all add: same_tx_def del: set_map)
  then show ?thesis by (auto simp: known_rm_def fun_eq_iff list_ex_iff image_iff set_eq_iff) metis+
qed

lemma upd_instance_ids: "map p_id (s_resources (upd_instance rm P f s)) = map p_id (s_resources s)"
  by (simp add: upd_instance_def map_update_first)

lemma find_some_ex: "(\<exists>x\<in>set xs. P x) \<Longrightarrow> \<exists>x. List.find P xs = Some x"
  by (cases "List.find P xs") (auto simp: find_None_iff_filter filter_empty_conv)

lemma rm_request_made:
  assumes "all_reach ev" and "known_rm s rm"
  shows "\<exists>s'. rm_request ev kind t rm one s = (Inr (s_next_corr s), s')
     \<and> requested [Rm_request kind (s_next_corr s) t rm one] s s' \<and> same_tx s s'
     \<and> s_next_corr s' = Suc (s_next_corr s)"
proof (cases "0 < rm")
  case True
  have sent: "ev_reach ev ipc" for ipc using assms(1) by (simp add: all_reach_def)
  obtain p where p: "List.find (\<lambda>p. p_id p = rm) (s_resources s) = Some p"
    using assms(2) True find_some_ex [of "s_resources s" "\<lambda>p. p_id p = rm"] by (auto simp: known_rm_def list_ex_iff)
  have i: "idle rm s = (Inr (List.find (\<lambda>i. i_state i = Idle) (p_instances p)), s)"
    using p by (simp add: idle_def get_resource_def act_defs)
  show ?thesis
  proof (cases "List.find (\<lambda>i. i_state i = Idle) (p_instances p)")
    case None
    then show ?thesis using True i
      by (simp add: rm_request_def act_defs fresh_corr_def requested_def same_tx_def)
  next
    case (Some x)
    then show ?thesis using True i sent
      by (auto simp: rm_request_def act_defs fresh_corr_def flush_send_def requested_def same_tx_def upd_instance_ids)
  qed
next
  case False
  obtain e where e: "List.find (\<lambda>e. e_id e = rm) (s_externals s) = Some e"
    using assms(2) False find_some_ex [of "s_externals s" "\<lambda>e. e_id e = rm"] by (auto simp: known_rm_def list_ex_iff)
  then show ?thesis using False assms(1)
    by (auto simp: rm_request_def act_defs fresh_corr_def flush_send_def requested_def same_tx_def
        get_external_def all_reach_def)
qed

lemma rm_messages_Cons [simp]:
  "rm_messages kind one c ((t, rm) # xs) = Rm_request kind c t rm one # rm_messages kind one (Suc c) xs"
  by (simp add: rm_messages_def upt_conv_Cons del: upt_Suc)

lemma rm_pending_Cons [simp]: "rm_pending c ((t, rm) # xs) = mk_pending c rm # rm_pending (Suc c) xs"
  by (simp add: rm_pending_def upt_conv_Cons del: upt_Suc)

lemma rm_Nil [simp]: "rm_messages kind one c [] = []" "rm_pending c [] = []"
  by (simp_all add: rm_messages_def rm_pending_def)

lemma rm_pending_states: "\<forall>p\<in>set (rm_pending c xs). fan_state p = Fan_pending"
  by (induction xs arbitrary: c) (auto simp: mk_pending_def)

lemma length_rm_pending [simp]: "length (rm_pending c xs) = length xs"
  by (simp add: rm_pending_def)

lemma pending_requests_made:
  assumes "all_reach ev" and "\<forall>(t, rm)\<in>set xs. known_rm s rm"
  shows "\<exists>s'. pending_requests ev kind one xs s = (Inr (rm_pending (s_next_corr s) xs), s')
     \<and> requested (rm_messages kind one (s_next_corr s) xs) s s' \<and> same_tx s s'
     \<and> s_next_corr s' = s_next_corr s + length xs"
  using assms(2)
proof (induction xs arbitrary: s)
  case Nil
  then show ?case by (simp add: pending_requests_def act_ret_def requested_Nil same_tx_def)
next
  case (Cons x xs)
  obtain t rm where x: "x = (t, rm)" by force
  obtain s1 where s1: "rm_request ev kind t rm one s = (Inr (s_next_corr s), s1)"
    "requested [Rm_request kind (s_next_corr s) t rm one] s s1" "same_tx s s1" "s_next_corr s1 = Suc (s_next_corr s)"
    using rm_request_made [OF assms(1), of s rm kind t one] Cons.prems x by auto
  have "\<forall>(t, rm)\<in>set xs. known_rm s1 rm" using Cons.prems same_tx_known [OF s1(3)] by auto
  then obtain s2 where s2: "pending_requests ev kind one xs s1 = (Inr (rm_pending (Suc (s_next_corr s)) xs), s2)"
    "requested (rm_messages kind one (Suc (s_next_corr s)) xs) s1 s2" "same_tx s1 s2"
    "s_next_corr s2 = Suc (s_next_corr s) + length xs"
    using Cons.IH [of s1] s1(4) by auto
  have "pending_requests ev kind one (x # xs) s = (Inr (rm_pending (s_next_corr s) (x # xs)), s2)"
    using s1(1) s2(1) by (simp add: x pending_requests_def act_bind_def act_ret_def)
  then show ?case
    using requested_trans [OF s1(2) s2(2)] same_tx_trans [OF s1(3) s2(3)] s2(4) by (simp add: x)
qed

lemma resource_count_targets: "resource_count t = length (branch_targets (t_branches t))"
proof -
  have "fold (\<lambda>b n. n + length (b_resources b)) bs k = k + length (branch_targets bs)" for bs k
    by (induction bs arbitrary: k) (auto simp: branch_targets_def)
  then show ?thesis by (simp add: resource_count_def)
qed

lemma fan_add_pending:
  "xs \<noteq> [] \<Longrightarrow> fan_add (rm_pending c xs) cb (es :: rm_fan)
     = (None, es @ [\<lparr>fe_pending = rm_pending c xs, fe_received = [], fe_callback = cb\<rparr>])"
  by (rule fan_add_waiting) (cases xs; auto simp: fan_waiting_def mk_pending_def)

lemma fan_add_nothing: "fan_add [] cb (es :: rm_fan) = (Some (cb, [], []), es)"
  by (simp add: fan_add_def fan_done_def Let_def)

section \<open>Looking up a transaction\<close>

lemma find_update_first:
  "(\<And>x. P (f x) = P x) \<Longrightarrow> List.find P (update_first P f xs) = map_option f (List.find P xs)"
  by (induction xs) auto

lemma find_upd_transaction:
  "(\<And>t. t_global (f t) = t_global t) \<Longrightarrow>
     find_transaction g (upd_transaction g f s) = map_option f (find_transaction g s)"
  by (simp add: find_transaction_def upd_transaction_def find_update_first)

lemma find_erase_txs:
  assumes "txs_ok (s_transactions s)"
  shows "find_transaction g (erase_transaction g s) = None"
proof -
  have "List.find (\<lambda>t. t_global t = g) (remove_first (\<lambda>t. t_global t = g) ts) = None"
    if "distinct (map t_global ts)" for ts
    using that by (induction ts) (auto simp: find_None_iff_filter filter_empty_conv image_iff)
  from this [of "s_transactions s"] show ?thesis
    using assms by (simp add: find_transaction_def erase_transaction_def txs_ok_def)
qed

lemma find_erase_transaction: "tm_core s \<Longrightarrow> find_transaction g (erase_transaction g s) = None"
  by (rule find_erase_txs) (simp add: tm_core_def)

lemma find_same_tx: "same_tx s s' \<Longrightarrow> find_transaction g s' = find_transaction g s"
  by (simp add: find_transaction_def same_tx_def)

lemma find_post [simp]: "find_transaction g (post d m s) = find_transaction g s"
  by (simp add: find_transaction_def)

lemma known_upd [simp]: "known_rm (upd_transaction g f s) = known_rm s" "known_rm (branch_involved t rms s) = known_rm s"
  by (simp_all add: known_rm_def branch_involved_def fun_eq_iff)

lemma branch_involved_same [simp]:
  "s_prepare (branch_involved t rms s) = s_prepare s" "s_commit (branch_involved t rms s) = s_commit s"
  "s_rollback (branch_involved t rms s) = s_rollback s" "s_next_corr (branch_involved t rms s) = s_next_corr s"
  "s_outbox (branch_involved t rms s) = s_outbox s" "s_log (branch_involved t rms s) = s_log s"
  by (simp_all add: branch_involved_def)

lemma requested_frame:
  "requested ms s s' \<Longrightarrow> s_outbox r = s_outbox s \<Longrightarrow> s_requests r = s_requests s \<Longrightarrow>
   s_outbox r' = s_outbox s' \<Longrightarrow> s_requests r' = s_requests s' \<Longrightarrow> requested ms r r'"
  by (simp add: requested_def)

text \<open>The commit phase starts: one resource commits in one phase, several prepare.\<close>

definition waiting_entry :: "int fan_pending list \<Rightarrow> callback \<Rightarrow> (rm_reply, int, callback) fan_entry" where
  "waiting_entry ps cb = \<lparr>fe_pending = ps, fe_received = [], fe_callback = cb\<rparr>"

lemma with_pending:
  "pending_requests ev kind one xs s = (Inr ps, s') \<Longrightarrow> act_bind (pending_requests ev kind one xs) k s = k ps s'"
  by (simp add: act_bind_def)

lemma coordinate_waits:
  assumes "xs \<noteq> []"
  shows "coordinate_commit ev (rm_pending c xs) cb s
       = (Inr (), s\<lparr>s_commit := s_commit s @ [waiting_entry (rm_pending c xs) cb]\<rparr>)"
    and "coordinate_rollback ev (rm_pending c xs) cb s
       = (Inr (), s\<lparr>s_rollback := s_rollback s @ [waiting_entry (rm_pending c xs) cb]\<rparr>)"
    and "coordinate_prepare ev (rm_pending c xs) cb s
       = (Inr (), s\<lparr>s_prepare := s_prepare s @ [waiting_entry (rm_pending c xs) cb]\<rparr>)"
  using fan_add_pending [OF assms, of c cb]
  by (simp_all add: coordinate_commit_def coordinate_rollback_def coordinate_prepare_def act_defs run_fired_def
      waiting_entry_def)

lemma start_commit_one:
  assumes "all_reach ev" and "branch_targets (t_branches x) = [target]" and "known_rm s (snd target)"
    and "find_transaction g s = Some y"
  shows "\<exists>s'. start_commit ev g cb x s = (Inr (), s')
     \<and> requested (rm_messages Commit_kind True (s_next_corr s) [target]) s s'
     \<and> s_commit s' = s_commit s @ [waiting_entry (rm_pending (s_next_corr s) [target]) cb]
     \<and> s_prepare s' = s_prepare s
     \<and> find_transaction g s' = Some (y\<lparr>t_stage := machine_set Commit (t_stage y)\<rparr>)"
proof -
  let ?f = "\<lambda>t. t\<lparr>t_stage := machine_set Commit (t_stage t)\<rparr>"
  let ?s = "upd_transaction g ?f s"
  obtain s1 where s1: "pending_requests ev Commit_kind True [target] ?s = (Inr (rm_pending (s_next_corr s) [target]), s1)"
    "requested (rm_messages Commit_kind True (s_next_corr s) [target]) ?s s1" "same_tx ?s s1"
    using pending_requests_made [OF assms(1), of "[target]" ?s Commit_kind True] assms(3) by (cases target) auto
  have "start_commit ev g cb x s = coordinate_commit ev (rm_pending (s_next_corr s) [target]) cb s1"
    using assms(2) with_pending [OF s1(1)] by (simp add: start_commit_def resource_count_targets act_then_def act_bind_def act_upd_def)
  moreover have "find_transaction g s1 = Some (?f y)"
    using find_same_tx [OF s1(3)] assms(4) by (simp add: find_upd_transaction)
  moreover have "requested (rm_messages Commit_kind True (s_next_corr s) [target]) s
      (s1\<lparr>s_commit := s_commit s @ [waiting_entry (rm_pending (s_next_corr s) [target]) cb]\<rparr>)"
    by (rule requested_frame [OF s1(2)]) simp_all
  ultimately show ?thesis using s1(3)
    by (simp add: coordinate_waits find_transaction_def same_tx_def)
qed

lemma start_commit_many:
  assumes "all_reach ev" and "1 < length (branch_targets (t_branches x))"
    and "\<forall>(t, rm)\<in>set (branch_targets (t_branches x)). known_rm s rm"
    and "find_transaction g s = Some y"
  shows "\<exists>s'. start_commit ev g cb x s = (Inr (), s')
     \<and> requested (rm_messages Prepare_kind False (s_next_corr s) (branch_targets (t_branches x))) s s'
     \<and> s_prepare s' = s_prepare s @ [waiting_entry (rm_pending (s_next_corr s) (branch_targets (t_branches x))) cb]
     \<and> s_commit s' = s_commit s
     \<and> find_transaction g s' = Some (y\<lparr>t_stage := machine_set Prepare (t_stage y)\<rparr>)"
proof -
  let ?xs = "branch_targets (t_branches x)"
  let ?f = "\<lambda>t. t\<lparr>t_stage := machine_set Prepare (t_stage t)\<rparr>"
  let ?s = "upd_transaction g ?f s"
  have ne: "?xs \<noteq> []" using assms(2) by auto
  obtain s1 where s1: "pending_requests ev Prepare_kind False ?xs ?s = (Inr (rm_pending (s_next_corr s) ?xs), s1)"
    "requested (rm_messages Prepare_kind False (s_next_corr s) ?xs) ?s s1" "same_tx ?s s1"
    using pending_requests_made [OF assms(1), of ?xs ?s Prepare_kind False] assms(3) by auto
  have "start_commit ev g cb x s = coordinate_prepare ev (rm_pending (s_next_corr s) ?xs) cb s1"
    using assms(2) with_pending [OF s1(1)] by (simp add: start_commit_def resource_count_targets act_then_def act_bind_def act_upd_def)
  moreover have "find_transaction g s1 = Some (?f y)"
    using find_same_tx [OF s1(3)] assms(4) by (simp add: find_upd_transaction)
  moreover have "requested (rm_messages Prepare_kind False (s_next_corr s) ?xs) s
      (s1\<lparr>s_prepare := s_prepare s @ [waiting_entry (rm_pending (s_next_corr s) ?xs) cb]\<rparr>)"
    by (rule requested_frame [OF s1(2)]) simp_all
  ultimately show ?thesis using s1(3) ne
    by (simp add: coordinate_waits find_transaction_def same_tx_def)
qed

end
