(* ===== verification/TxProperties.thy ===== *)
theory TxProperties
  imports TxRequests
begin

text \<open>
  The properties of the transaction manager: the invariant over any sequence of messages, the
  decisions of the two phases, durability before the reply, completion, and what the handlers
  do where a resource or a client is gone.
\<close>

section \<open>A small world\<close>

text \<open>A manager with two external resource managers, used by the concrete runs.\<close>

definition tm_start :: tm where
  "tm_start = \<lparr>s_transactions = [], s_resources = [],
     s_externals = [\<lparr>e_process = \<lparr>hpid = 71, hipc = 71\<rparr>, e_id = -1\<rparr>, \<lparr>e_process = \<lparr>hpid = 72, hipc = 72\<rparr>, e_id = -2\<rparr>],
     s_prepare = [], s_commit = [], s_rollback = [], s_replies = [],
     s_log = \<lparr>l_rows = [], l_durable = [], l_prepares = 0, l_removes = 0, l_writes = 0\<rparr>,
     s_requests = [], s_system = [], s_alias = [], s_external_base = -2, s_next_corr = 100, s_outbox = []\<rparr>"

definition calm :: env where
  "calm = \<lparr>ev_reach = (\<lambda>_. True), ev_room = (\<lambda>_. True), ev_now = 0, ev_self = \<lparr>hpid = 1, hipc = 1\<rparr>,
     ev_spawn = (\<lambda>_ _. None), ev_stale = 0\<rparr>"

definition client :: handle where "client = \<lparr>hpid = 50, hipc = 50\<rparr>"

definition trid1 :: trid where
  "trid1 = \<lparr>gtrid = [1], bqual = [2], tformat = 42, towner = client\<rparr>"

definition request1 :: tx_request where
  "request1 = \<lparr>q_process = client, q_corr = 7, q_trid = trid1, q_involved = [-1, -2]\<rparr>"

definition reply1 :: "nat \<Rightarrow> int \<Rightarrow> xa \<Rightarrow> rm_reply" where
  "reply1 corr rm code = \<lparr>rr_process = \<lparr>hpid = 71, hipc = 71\<rparr>, rr_corr = corr, rr_trid = trid1,
     rr_resource = rm, rr_state = code, rr_stats = (0, 0)\<rparr>"

section \<open>The invariant\<close>

text \<open>
  C12. Whatever messages arrive, in whatever order, and whether handlers raise or not, the
  state stays well formed: no global transaction twice, the branches of a transaction distinct
  and of its global id, no resource twice in a branch, the correlations of the coordinations
  distinct and already used and every coordination still waiting for someone, no row twice in
  the log, and never as many replies held back as the batch limit.
\<close>

theorem tm_invariant_run: "tm_ok s \<Longrightarrow> tm_ok (fold tm_step ms s)"
  by (rule tm.run_invariant)

lemma tm_start_ok: "tm_ok tm_start"
  by (simp add: tm_ok_def tm_core_def tm_start_def txs_ok_def log_ok_def batch_persistence_def)

theorem tm_invariant_run_witness: "tm_ok (fold tm_step [(calm, Commit_request request1), (calm, Process_exited 50)] tm_start)"
  using tm_invariant_run [OF tm_start_ok] .

text \<open>
  C36. No request waits for nothing: as long as the processes spoken to exist, there is never
  an idle instance of a resource and a request for the resource in the queue.
\<close>

theorem tm_no_idle_wait:
  assumes "queue_ok s" and "list_all (\<lambda>m. all_reach (fst m)) ms"
    and "p \<in> set (s_resources (fold tm_step ms s))" and "i \<in> set (p_instances p)" and "i_state i = Idle"
  shows "\<forall>r\<in>set (s_requests (fold tm_step ms s)). fst r \<noteq> p_id p"
  using queue_ok_run [OF assms(1,2)] assms(3-5)
  by (auto simp: queue_ok_def no_idle_wait_def list_all_iff list_ex_iff)

definition tm_local :: tm where
  "tm_local = tm_start\<lparr>s_resources := [\<lparr>p_id = 1,
     p_instances = [\<lparr>i_id = 1, i_process = \<lparr>hpid = 81, hipc = 81\<rparr>, i_metrics = metrics_zero, i_state = Idle\<rparr>],
     p_conf = \<lparr>rc_name = ''rm'', rc_key = ''db'', rc_instances = 1, rc_openinfo = [], rc_closeinfo = []\<rparr>,
     p_metrics = metrics_zero\<rparr>]\<rparr>"

definition reply_local :: "nat \<Rightarrow> rm_reply" where
  "reply_local corr = \<lparr>rr_process = \<lparr>hpid = 81, hipc = 81\<rparr>, rr_corr = corr, rr_trid = trid1,
     rr_resource = 1, rr_state = Xa_ok, rr_stats = (0, 0)\<rparr>"

definition local_run :: "(env \<times> tm_message) list" where
  "local_run = [(calm, Commit_request (request1\<lparr>q_involved := [1]\<rparr>)), (calm, Commit_rm_reply (reply_local 100))]"

theorem tm_no_idle_wait_witness: "list_all (\<lambda>r. fst r \<noteq> 1) (s_requests (fold tm_step local_run tm_local))"
proof -
  have q: "queue_ok tm_local"
    by (simp add: queue_ok_def no_idle_wait_def tm_local_def tm_start_def proxy_ok_def)
  have r: "list_all (\<lambda>m. all_reach (fst m)) local_run"
    by (simp add: local_run_def calm_def all_reach_def)
  have e: "list_ex (\<lambda>p. p_id p = 1 \<and> list_ex (\<lambda>i. i_state i = Idle) (p_instances p)) (s_resources (fold tm_step local_run tm_local))"
    by code_simp
  then obtain p i where "p \<in> set (s_resources (fold tm_step local_run tm_local))" "p_id p = 1"
    "i \<in> set (p_instances p)" "i_state i = Idle" by (auto simp: list_ex_iff)
  then show ?thesis using tm_no_idle_wait [OF q r, of p i] by (simp add: list_all_iff)
qed

section \<open>The commit request\<close>

text \<open>
  C3. What a commit request does. A transaction past the involved stage gets a protocol error
  and nothing changes; with no resource involved the reply is ok and the transaction is gone;
  with one, exactly one one-phase commit is requested and the commit is coordinated; with
  several, exactly one prepare request per resource and branch, and the commit waits for the
  replies of all of them.
\<close>

theorem commit_request_decides:
  assumes ok: "tm_ok s" and reach: "all_reach ev"
    and x: "find_transaction (gtrid (q_trid m)) (branch_involved (q_trid m) (q_involved m) s) = Some x"
    and known: "\<forall>(t, rm)\<in>set (branch_targets (t_branches x)). known_rm s rm"
  shows "\<exists>s'. commit_request ev m s = (Inr (), s') \<and>
    (let g = gtrid (q_trid m); ipc = hipc (q_process m); targets = branch_targets (t_branches x);
         cb = mk_callback R_commit (q_trid m) (q_process m) (q_corr m) 0
     in if t_stage x \<noteq> Involved then
          s' = post (To_ipc ipc) (Commit_reply (q_corr m) (q_trid m) Tx_protocol Stage_commit)
                 (branch_involved (q_trid m) (q_involved m) s)
        else if targets = [] then
          s_outbox s' = s_outbox s @ [(To_ipc ipc, Commit_reply (q_corr m) (q_trid m) Tx_ok Stage_commit)]
          \<and> s_requests s' = s_requests s \<and> find_transaction g s' = None
        else if length targets = 1 then
          requested (rm_messages Commit_kind True (s_next_corr s) targets) s s'
          \<and> s_commit s' = s_commit s @ [waiting_entry (rm_pending (s_next_corr s) targets) cb]
          \<and> s_prepare s' = s_prepare s
          \<and> find_transaction g s' = Some (x\<lparr>t_stage := Commit, t_owner := q_process m\<rparr>)
        else
          requested (rm_messages Prepare_kind False (s_next_corr s) targets) s s'
          \<and> s_prepare s' = s_prepare s @ [waiting_entry (rm_pending (s_next_corr s) targets) cb]
          \<and> s_commit s' = s_commit s
          \<and> find_transaction g s' = Some (x\<lparr>t_stage := Prepare, t_owner := q_process m\<rparr>))"
proof -
  let ?g = "gtrid (q_trid m)"
  let ?b = "branch_involved (q_trid m) (q_involved m) s"
  let ?o = "upd_transaction ?g (\<lambda>t. t\<lparr>t_owner := q_process m\<rparr>) ?b"
  let ?xs = "branch_targets (t_branches x)"
  let ?cb = "mk_callback R_commit (q_trid m) (q_process m) (q_corr m) 0"
  have st: "t_stage x > Involved \<longleftrightarrow> t_stage x \<noteq> Involved"
    by (cases "t_stage x") (simp_all add: less_stage_def)
  have sent: "ev_reach ev ipc" for ipc using reach by (simp add: all_reach_def)
  have o: "find_transaction ?g ?o = Some (x\<lparr>t_owner := q_process m\<rparr>)" using x by (simp add: find_upd_transaction)
  have core: "tm_core ?o" using ok by (auto simp: tm_ok_def intro!: core_upd_transaction core_branch_involved)
  show ?thesis
  proof (cases "t_stage x = Involved")
    case False
    then show ?thesis using x st sent
      by (simp add: commit_request_def Let_def with_transaction_def act_defs optional_send_def)
  next
    case True
    consider (none) "?xs = []" | (one) "length ?xs = 1" | (many) "1 < length ?xs"
      by (cases "length ?xs") auto
    then show ?thesis
    proof cases
      case none
      then show ?thesis using x st sent True find_erase_transaction [OF core, of ?g]
        by (simp add: commit_request_def Let_def with_transaction_def act_defs optional_send_def resource_count_targets)
    next
      case one
      then obtain t where t: "?xs = [t]" by (cases ?xs) auto
      have eq: "commit_request ev m s = start_commit ev ?g ?cb x ?o"
        using x st True one by (simp add: commit_request_def Let_def with_transaction_def act_defs resource_count_targets)
      obtain s' where s': "start_commit ev ?g ?cb x ?o = (Inr (), s')"
        "requested (rm_messages Commit_kind True (s_next_corr s) [t]) ?o s'"
        "s_commit s' = s_commit s @ [waiting_entry (rm_pending (s_next_corr s) [t]) ?cb]"
        "s_prepare s' = s_prepare s" "find_transaction ?g s' = Some (x\<lparr>t_owner := q_process m, t_stage := Commit\<rparr>)"
        using start_commit_one [OF reach t _ o, of ?cb] known t True by (auto simp: machine_set_def less_stage_def)
      have "requested (rm_messages Commit_kind True (s_next_corr s) [t]) s s'"
        by (rule requested_frame [OF s'(2)]) simp_all
      then show ?thesis using eq s' t True by (simp add: Let_def)
    next
      case many
      then have ne: "?xs \<noteq> []" "length ?xs \<noteq> 1" by auto
      have eq: "commit_request ev m s = start_commit ev ?g ?cb x ?o"
        using x st True many ne by (simp add: commit_request_def Let_def with_transaction_def act_defs resource_count_targets)
      obtain s' where s': "start_commit ev ?g ?cb x ?o = (Inr (), s')"
        "requested (rm_messages Prepare_kind False (s_next_corr s) ?xs) ?o s'"
        "s_prepare s' = s_prepare s @ [waiting_entry (rm_pending (s_next_corr s) ?xs) ?cb]"
        "s_commit s' = s_commit s" "find_transaction ?g s' = Some (x\<lparr>t_owner := q_process m, t_stage := Prepare\<rparr>)"
        using start_commit_many [OF reach many _ o, of ?cb] known True by (auto simp: machine_set_def less_stage_def)
      have "requested (rm_messages Prepare_kind False (s_next_corr s) ?xs) s s'"
        by (rule requested_frame [OF s'(2)]) simp_all
      then show ?thesis using eq s' ne True by (simp add: Let_def)
    qed
  qed
qed

theorem commit_request_decides_witness:
  "\<exists>s'. commit_request calm request1 tm_start = (Inr (), s') \<and> length (s_prepare s') = 1"
  using commit_request_decides [OF tm_start_ok, of calm request1
      "\<lparr>t_stage = Involved, t_global = [1], t_branches = [\<lparr>b_trid = trid1, b_resources =
         [\<lparr>br_id = -1, br_code = Xa_ok\<rparr>, \<lparr>br_id = -2, br_code = Xa_ok\<rparr>]\<rparr>],
         t_owner = null_handle, t_started = 0, t_deadline = 0\<rparr>"]
  by (auto simp: Let_def all_reach_def calm_def request1_def trid1_def branch_involved_def upd_transaction_def
      add_missing_def find_transaction_def tm_start_def mk_transaction_def mk_branch_def involve_in_def purge_def
      branch_involve_all_def branch_involve_def branch_targets_def known_rm_def)

section \<open>The decision after prepare\<close>

definition branch_row :: "transaction \<Rightarrow> branch \<Rightarrow> log_row" where
  "branch_row t b = \<lparr>lr_gtrid = gtrid (b_trid b), lr_bqual = bqual (b_trid b),
     lr_format = tformat (b_trid b), lr_pid = hpid (towner (b_trid b)),
     lr_started = t_started t, lr_deadline = t_deadline t\<rparr>"

definition logged :: "log_row list \<Rightarrow> tm \<Rightarrow> tm" where
  "logged rows s = s\<lparr>s_log := (s_log s)\<lparr>l_rows := l_rows (s_log s) @ rows,
     l_prepares := l_prepares (s_log s) + int (length rows)\<rparr>\<rparr>"

lemma log_prepare_rows:
  assumes "distinct (map (\<lambda>b. bqual (b_trid b)) bs)" and "\<forall>b\<in>set bs. gtrid (b_trid b) = g"
    and "\<forall>b\<in>set bs. \<forall>r\<in>set (l_rows (s_log s)). lr_gtrid r = g \<longrightarrow> lr_bqual r \<noteq> bqual (b_trid b)"
  shows "act_each (log_prepare_branch t) bs s = (Inr (replicate (length bs) ()), logged (map (branch_row t) bs) s)"
  using assms
proof (induction bs arbitrary: s)
  case Nil
  then show ?case by (simp add: act_ret_def logged_def)
next
  case (Cons b bs)
  have one: "log_prepare_branch t b s = (Inr (), logged [branch_row t b] s)"
    using Cons.prems(2,3) by (auto simp: log_prepare_branch_def act_defs log_insert_def logged_def branch_row_def)
  have "act_each (log_prepare_branch t) bs (logged [branch_row t b] s)
      = (Inr (replicate (length bs) ()), logged (map (branch_row t) bs) (logged [branch_row t b] s))"
    by (rule Cons.IH) (use Cons.prems in \<open>auto simp: logged_def branch_row_def\<close>)
  then show ?case using one by (simp add: act_bind_def act_ret_def logged_def)
qed

lemma log_prepare_ok:
  assumes "tx_ok t" and "distinct (map (\<lambda>b. bqual (b_trid b)) (t_branches t))"
    and "\<forall>r\<in>set (l_rows (s_log s)). lr_gtrid r \<noteq> t_global t"
  shows "log_prepare (purge_replies rms t) s
     = (Inr (), logged (map (branch_row (purge_replies rms t)) (t_branches (purge_replies rms t))) s)"
proof -
  let ?p = "purge_replies rms t"
  have "distinct (map (\<lambda>b. bqual (b_trid b)) (t_branches ?p))"
    unfolding purge_replies_def purge_def using assms(2)
    by (auto intro!: distinct_map_filter simp: comp_def)
  moreover have "\<forall>b\<in>set (t_branches ?p). gtrid (b_trid b) = t_global t"
    using tx_ok_purge_replies [OF assms(1)] by (auto simp: tx_ok_def)
  ultimately show ?thesis
    using log_prepare_rows [of "t_branches ?p" "t_global t" s ?p] assms(3)
    by (auto simp: log_prepare_def act_then_def act_bind_def act_ret_def)
qed

lemma persist_reply_total: "\<exists>s'. persist_reply ev m h s = (Inr (), s')"
  by (simp add: persist_reply_def batch_send_def persist_send_eq act_defs)

lemma persist_reply_frame:
  "persist_reply ev m h s = (Inr (), s') \<Longrightarrow> s_resources s' = s_resources s \<and> s_externals s' = s_externals s
     \<and> s_next_corr s' = s_next_corr s \<and> s_commit s' = s_commit s \<and> s_transactions s' = s_transactions s
     \<and> s_prepare s' = s_prepare s \<and> s_rollback s' = s_rollback s \<and> s_requests s' = s_requests s
     \<and> l_rows (s_log s') = l_rows (s_log s)"
  by (auto simp: persist_reply_def batch_send_def persist_send_eq act_defs log_persist_def split: if_splits)

definition is_read_only :: "rm_reply \<Rightarrow> bool" where
  "is_read_only r \<longleftrightarrow> rr_state r = Xa_read_only"

definition active_replies :: "rm_reply list \<Rightarrow> rm_reply list" where
  "active_replies rs = filter (\<lambda>r. \<not> is_read_only r) rs"

lemma accumulate_active:
  assumes "\<forall>p\<in>set outcome. fan_state p \<noteq> Fan_failed"
  shows "accumulate_code (map rr_state (active_replies rs)) outcome Xa_read_only = Xa_read_only \<longleftrightarrow> active_replies rs = []"
    and "accumulate_code (map rr_state (active_replies rs)) outcome Xa_read_only = Xa_ok
      \<longleftrightarrow> active_replies rs \<noteq> [] \<and> list_all (\<lambda>r. rr_state r = Xa_ok) (active_replies rs)"
proof -
  have no: "Xa_read_only \<notin> set (map rr_state (active_replies rs))"
    by (auto simp: active_replies_def is_read_only_def)
  show "accumulate_code (map rr_state (active_replies rs)) outcome Xa_read_only = Xa_read_only \<longleftrightarrow> active_replies rs = []"
    unfolding accumulate_read_only_iff [OF assms] using no by (cases "active_replies rs") auto
  show "accumulate_code (map rr_state (active_replies rs)) outcome Xa_read_only = Xa_ok
      \<longleftrightarrow> active_replies rs \<noteq> [] \<and> list_all (\<lambda>r. rr_state r = Xa_ok) (active_replies rs)"
  proof -
    have "Xa_ok \<in> set cs \<and> set cs \<subseteq> {Xa_ok, Xa_read_only} \<longleftrightarrow> cs \<noteq> [] \<and> (\<forall>c\<in>set cs. c = Xa_ok)"
      if "Xa_read_only \<notin> set cs" for cs
      using that by (cases cs) auto
    from this [OF no] show ?thesis unfolding accumulate_ok_iff [OF assms] by (simp add: list_all_iff)
  qed
qed

lemma fired_prepare_cases:
  assumes "find_transaction (gtrid (cb_origin cb)) s = Some t" and "\<forall>p\<in>set outcome. fan_state p \<noteq> Fan_failed"
  shows "fired_prepare ev (cb, replies, outcome) s =
    (let g = gtrid (cb_origin cb); ro = map rr_resource (filter is_read_only replies);
         active = active_replies replies; ipc = hipc (d_process (cb_dest cb));
         code = accumulate_code (map rr_state active) outcome Xa_read_only;
         s1 = upd_transaction g (purge_replies ro) s
     in if active = [] then
          act_then (optional_send ev ipc (create_reply (cb_kind cb) (cb_origin cb) (cb_dest cb) Xa_read_only Stage_commit))
            (act_ret ()) (erase_transaction g s1)
        else if list_all (\<lambda>r. rr_state r = Xa_ok) active then
          act_then (log_prepare (purge_replies ro t))
            (act_then (if cb_kind cb = R_commit
                       then persist_reply ev (create_reply R_commit (cb_origin cb) (cb_dest cb) Xa_ok Stage_prepare)
                              (d_process (cb_dest cb))
                       else act_ret ())
              (act_bind (pending_requests ev Commit_kind False (reply_targets active))
                 (\<lambda>pending. coordinate_commit ev pending (cb\<lparr>cb_code := Xa_ok\<rparr>)))) s1
        else
          act_bind (pending_requests ev Rollback_kind False (reply_targets active))
            (\<lambda>pending. coordinate_rollback ev pending (cb\<lparr>cb_code := code\<rparr>)) s1)"
proof -
  let ?code = "accumulate_code (map rr_state (active_replies replies)) outcome Xa_read_only"
  have f: "filter (\<lambda>r. rr_state r \<noteq> Xa_read_only) replies = active_replies replies"
    "filter (\<lambda>r. rr_state r = Xa_read_only) replies = filter is_read_only replies"
    by (simp_all add: active_replies_def is_read_only_def [abs_def])
  note a = accumulate_active [OF assms(2), of replies]
  have u: "fired_prepare ev (cb, replies, outcome) s =
      (let g = gtrid (cb_origin cb); ro = map rr_resource (filter is_read_only replies);
           active = active_replies replies; s1 = upd_transaction g (purge_replies ro) s
       in (if ?code = Xa_read_only then
                     act_then (act_upd (erase_transaction g))
                      (act_then (optional_send ev (hipc (d_process (cb_dest cb)))
                                   (create_reply (cb_kind cb) (cb_origin cb) (cb_dest cb) ?code Stage_commit))
                        (act_ret ()))
                   else if ?code = Xa_ok then
                     act_then (log_prepare (purge_replies ro t))
                      (act_then (if cb_kind cb = R_commit
                                 then persist_reply ev (create_reply R_commit (cb_origin cb) (cb_dest cb) ?code Stage_prepare)
                                        (d_process (cb_dest cb))
                                 else act_ret ())
                       (act_bind (pending_requests ev Commit_kind False (reply_targets active))
                         (\<lambda>pending. coordinate_commit ev pending (cb\<lparr>cb_code := ?code\<rparr>))))
                   else
                     act_bind (pending_requests ev Rollback_kind False (reply_targets active))
                      (\<lambda>pending. coordinate_rollback ev pending (cb\<lparr>cb_code := ?code\<rparr>))) s1)"
    unfolding fired_prepare_def prod.case f Let_def using assms(1)
    by (simp add: act_bind_def [of "act_get _"] act_get_def act_then_def [of "act_upd (upd_transaction _ _)"]
        act_bind_def [of "act_upd (upd_transaction _ _)"] act_upd_def [of "upd_transaction _ _"])
  consider (ro) "active_replies replies = []" | (good) "active_replies replies \<noteq> []" "list_all (\<lambda>r. rr_state r = Xa_ok) (active_replies replies)"
    | (bad) "active_replies replies \<noteq> []" "\<not> list_all (\<lambda>r. rr_state r = Xa_ok) (active_replies replies)" by blast
  then show ?thesis
  proof cases
    case ro
    then have "?code = Xa_read_only" using a(1) by simp
    then show ?thesis unfolding u using ro by (simp add: Let_def act_then_def [of "act_upd _"] act_bind_def [of "act_upd _"] act_upd_def)
  next
    case good
    then have "?code = Xa_ok" using a(2) by simp
    then show ?thesis unfolding u using good by (simp add: Let_def)
  next
    case bad
    then have "?code \<noteq> Xa_ok" "?code \<noteq> Xa_read_only" using a by simp_all
    then show ?thesis unfolding u using bad by (simp add: Let_def)
  qed
qed

lemma logged_fields [simp]:
  "s_transactions (logged rows s) = s_transactions s" "s_resources (logged rows s) = s_resources s"
  "s_externals (logged rows s) = s_externals s" "s_prepare (logged rows s) = s_prepare s"
  "s_commit (logged rows s) = s_commit s" "s_rollback (logged rows s) = s_rollback s"
  "s_replies (logged rows s) = s_replies s" "s_next_corr (logged rows s) = s_next_corr s"
  "s_outbox (logged rows s) = s_outbox s" "s_requests (logged rows s) = s_requests s"
  by (simp_all add: logged_def)

lemma reply_targets_Nil [simp]: "reply_targets rs = [] \<longleftrightarrow> rs = []"
  by (simp add: reply_targets_def)

lemma pending_then_coordinate:
  assumes "all_reach ev" and "xs \<noteq> []" and "\<forall>(t, rm)\<in>set xs. known_rm s rm"
  shows "\<exists>s1. requested (rm_messages kind False (s_next_corr s) xs) s s1 \<and> same_tx s s1
     \<and> act_bind (pending_requests ev kind False xs) k s = k (rm_pending (s_next_corr s) xs) s1"
  using pending_requests_made [OF assms(1,3), of kind False] by (auto simp: with_pending)

lemma prepare_commits:
  assumes t: "find_transaction (gtrid (cb_origin cb)) s = Some t" "tx_ok t"
    and nofail: "\<forall>p\<in>set outcome. fan_state p \<noteq> Fan_failed" and reach: "all_reach ev"
    and known: "\<forall>(t, rm)\<in>set (reply_targets (active_replies replies)). known_rm s rm"
    and rows: "distinct (map (\<lambda>b. bqual (b_trid b)) (t_branches t))" "\<forall>r\<in>set (l_rows (s_log s)). lr_gtrid r \<noteq> t_global t"
    and good: "active_replies replies \<noteq> []" "list_all (\<lambda>r. rr_state r = Xa_ok) (active_replies replies)"
    and s0: "s0 = logged (map (branch_row p) (t_branches p))
          (upd_transaction (gtrid (cb_origin cb)) (purge_replies (map rr_resource (filter is_read_only replies))) s)"
    and p: "p = purge_replies (map rr_resource (filter is_read_only replies)) t"
    and xs: "xs = reply_targets (active_replies replies)"
  shows "\<exists>s1 s'. fired_prepare ev (cb, replies, outcome) s = (Inr (), s')
    \<and> (if cb_kind cb = R_commit
        then persist_reply ev (create_reply R_commit (cb_origin cb) (cb_dest cb) Xa_ok Stage_prepare) (d_process (cb_dest cb)) s0
          = (Inr (), s1)
        else s1 = s0)
    \<and> requested (rm_messages Commit_kind False (s_next_corr s) xs) s1 s'
    \<and> s_commit s' = s_commit s @ [waiting_entry (rm_pending (s_next_corr s) xs) (cb\<lparr>cb_code := Xa_ok\<rparr>)]
    \<and> s_rollback s' = s_rollback s \<and> s_log s' = s_log s1"
proof -
  let ?ro = "map rr_resource (filter is_read_only replies)"
  let ?cb = "cb\<lparr>cb_code := Xa_ok\<rparr>"
  let ?reply = "if cb_kind cb = R_commit
     then persist_reply ev (create_reply R_commit (cb_origin cb) (cb_dest cb) Xa_ok Stage_prepare) (d_process (cb_dest cb))
     else act_ret ()"
  have lg: "log_prepare p (upd_transaction (gtrid (cb_origin cb)) (purge_replies ?ro) s) = (Inr (), s0)"
    unfolding p s0 by (rule log_prepare_ok) (use t rows in simp_all)
  obtain s2 where s2: "?reply s0 = (Inr (), s2)"
    using persist_reply_total [of ev _ _ s0] by (cases "cb_kind cb = R_commit") (auto simp: act_ret_def)
  have f: "s_resources s2 = s_resources s \<and> s_externals s2 = s_externals s \<and> s_next_corr s2 = s_next_corr s
      \<and> s_commit s2 = s_commit s \<and> s_rollback s2 = s_rollback s"
    using s2 persist_reply_frame unfolding s0 by (fastforce simp: act_ret_def split: if_splits)
  then have "known_rm s2 = known_rm s" by (simp add: known_rm_def fun_eq_iff)
  then have k: "\<forall>(t, rm)\<in>set xs. known_rm s2 rm" using known xs by simp
  have ne: "xs \<noteq> []" using good(1) xs by simp
  from pending_then_coordinate [OF reach ne k, of Commit_kind "\<lambda>pending. coordinate_commit ev pending ?cb"] f
  obtain s3 where s3: "requested (rm_messages Commit_kind False (s_next_corr s) xs) s2 s3" "same_tx s2 s3"
    "act_bind (pending_requests ev Commit_kind False xs) (\<lambda>pending. coordinate_commit ev pending ?cb) s2
       = coordinate_commit ev (rm_pending (s_next_corr s) xs) ?cb s3" by auto
  let ?s' = "s3\<lparr>s_commit := s_commit s @ [waiting_entry (rm_pending (s_next_corr s) xs) ?cb]\<rparr>"
  have "fired_prepare ev (cb, replies, outcome) s = (Inr (), ?s')"
    using good lg s2 s3 f ne unfolding fired_prepare_cases [OF t(1) nofail] Let_def p [symmetric] xs [symmetric]
    by (simp add: act_then_def act_bind_def [of "log_prepare _"] act_bind_def [of ?reply] coordinate_waits same_tx_def)
  moreover have "requested (rm_messages Commit_kind False (s_next_corr s) xs) s2 ?s'"
    by (rule requested_frame [OF s3(1)]) simp_all
  ultimately show ?thesis using s2 s3(2) f
    by (intro exI [of _ s2] exI [of _ ?s']) (simp add: same_tx_def act_ret_def split: if_splits)
qed

lemma prepare_rolls_back:
  assumes t: "find_transaction (gtrid (cb_origin cb)) s = Some t"
    and nofail: "\<forall>p\<in>set outcome. fan_state p \<noteq> Fan_failed" and reach: "all_reach ev"
    and known: "\<forall>(t, rm)\<in>set (reply_targets (active_replies replies)). known_rm s rm"
    and bad: "active_replies replies \<noteq> []" "\<not> list_all (\<lambda>r. rr_state r = Xa_ok) (active_replies replies)"
    and c: "c = accumulate_code (map rr_state (active_replies replies)) outcome Xa_read_only"
    and xs: "xs = reply_targets (active_replies replies)"
  shows "\<exists>s'. fired_prepare ev (cb, replies, outcome) s = (Inr (), s')
    \<and> requested (rm_messages Rollback_kind False (s_next_corr s) xs) s s'
    \<and> s_rollback s' = s_rollback s @ [waiting_entry (rm_pending (s_next_corr s) xs) (cb\<lparr>cb_code := c\<rparr>)]
    \<and> s_commit s' = s_commit s \<and> s_replies s' = s_replies s \<and> s_log s' = s_log s"
proof -
  let ?s1 = "upd_transaction (gtrid (cb_origin cb)) (purge_replies (map rr_resource (filter is_read_only replies))) s"
  let ?cb = "cb\<lparr>cb_code := c\<rparr>"
  have k: "\<forall>(t, rm)\<in>set xs. known_rm ?s1 rm" using known xs by simp
  have ne: "xs \<noteq> []" using bad(1) xs by simp
  from pending_then_coordinate [OF reach ne k, of Rollback_kind "\<lambda>pending. coordinate_rollback ev pending ?cb"]
  obtain s3 where s3: "requested (rm_messages Rollback_kind False (s_next_corr s) xs) ?s1 s3" "same_tx ?s1 s3"
    "act_bind (pending_requests ev Rollback_kind False xs) (\<lambda>pending. coordinate_rollback ev pending ?cb) ?s1
       = coordinate_rollback ev (rm_pending (s_next_corr s) xs) ?cb s3" by auto
  let ?s' = "s3\<lparr>s_rollback := s_rollback s @ [waiting_entry (rm_pending (s_next_corr s) xs) ?cb]\<rparr>"
  have "fired_prepare ev (cb, replies, outcome) s = (Inr (), ?s')"
    using bad s3 ne unfolding fired_prepare_cases [OF t nofail] Let_def c [symmetric] xs [symmetric]
    by (simp add: coordinate_waits same_tx_def)
  moreover have "requested (rm_messages Rollback_kind False (s_next_corr s) xs) s ?s'"
    by (rule requested_frame [OF s3(1)]) simp_all
  ultimately show ?thesis using s3(2) by (simp add: same_tx_def)
qed

text \<open>The rows that are written: one for each branch in which a resource answered read-only.\<close>

definition rows_written :: "rm_reply list \<Rightarrow> transaction \<Rightarrow> log_row list" where
  "rows_written replies t = map (branch_row t)
     (filter (\<lambda>b. \<exists>r\<in>set (b_resources b). br_id r \<in> rr_resource ` {a \<in> set replies. is_read_only a}) (t_branches t))"

lemma purged_rows:
  "map (branch_row (purge_replies (map rr_resource (filter is_read_only replies)) t))
     (t_branches (purge_replies (map rr_resource (filter is_read_only replies)) t)) = rows_written replies t"
proof -
  have "map (branch_row (purge_replies ro t)) (t_branches (purge_replies ro t))
      = map (branch_row t) (filter (\<lambda>b. \<exists>r\<in>set (b_resources b). br_id r \<in> set ro) (t_branches t))" for ro
    by (auto simp: purge_replies_def purge_def filter_map comp_def branch_row_def filter_empty_conv)
  then show ?thesis by (simp add: rows_written_def)
qed

text \<open>
  C1. The decision when every resource has answered prepare. If all were read-only, the reply is
  ok, the transaction is gone and nobody is asked anything more. If the rest all said ok, the
  resources that were not read-only, and no others, are asked to commit and the commit waits for
  these; before that the reply of the prepare stage is put behind the log, and before that rows are
  written to the log, but only for branches in which some resource answered read-only: when none
  did, the log gets no row of the transaction. (The comments of the code want the opposite, the
  read-only resources purged and the others logged.) In every other case exactly the active
  resources are asked to roll back, and neither the log nor the replies change.
\<close>

theorem prepare_decides:
  assumes t: "find_transaction (gtrid (cb_origin cb)) s = Some t" "tx_ok t"
    and nofail: "\<forall>p\<in>set outcome. fan_state p \<noteq> Fan_failed" and reach: "all_reach ev" and core: "tm_core s"
    and known: "\<forall>(t, rm)\<in>set (reply_targets replies). known_rm s rm"
    and rows: "distinct (map (\<lambda>b. bqual (b_trid b)) (t_branches t))" "\<forall>r\<in>set (l_rows (s_log s)). lr_gtrid r \<noteq> t_global t"
  shows "\<exists>s'. fired_prepare ev (cb, replies, outcome) s = (Inr (), s') \<and>
    (let g = gtrid (cb_origin cb); active = active_replies replies; targets = reply_targets active;
         rows = rows_written replies t; ipc = hipc (d_process (cb_dest cb))
     in (filter is_read_only replies = [] \<longrightarrow> rows = []) \<and>
        (if active = [] then
          s_outbox s' = s_outbox s @ [(To_ipc ipc, create_reply (cb_kind cb) (cb_origin cb) (cb_dest cb) Xa_read_only Stage_commit)]
          \<and> s_requests s' = s_requests s \<and> s_log s' = s_log s \<and> find_transaction g s' = None
        else if list_all (\<lambda>r. rr_state r = Xa_ok) active then
          (\<exists>s0 s1. s0 = logged rows (upd_transaction g (purge_replies (map rr_resource (filter is_read_only replies))) s)
             \<and> (if cb_kind cb = R_commit
                 then persist_reply ev (create_reply R_commit (cb_origin cb) (cb_dest cb) Xa_ok Stage_prepare)
                        (d_process (cb_dest cb)) s0 = (Inr (), s1)
                 else s1 = s0)
             \<and> requested (rm_messages Commit_kind False (s_next_corr s) targets) s1 s'
             \<and> s_commit s' = s_commit s @ [waiting_entry (rm_pending (s_next_corr s) targets) (cb\<lparr>cb_code := Xa_ok\<rparr>)]
             \<and> s_rollback s' = s_rollback s)
        else
          requested (rm_messages Rollback_kind False (s_next_corr s) targets) s s'
          \<and> s_rollback s' = s_rollback s @ [waiting_entry (rm_pending (s_next_corr s) targets)
               (cb\<lparr>cb_code := accumulate_code (map rr_state active) outcome Xa_read_only\<rparr>)]
          \<and> s_commit s' = s_commit s \<and> s_replies s' = s_replies s \<and> s_log s' = s_log s))"
proof -
  let ?a = "active_replies replies"
  let ?ro = "map rr_resource (filter is_read_only replies)"
  have none: "filter is_read_only replies = [] \<longrightarrow> rows_written replies t = []"
    by (auto simp: rows_written_def filter_empty_conv)
  have ka: "\<forall>(t, rm)\<in>set (reply_targets ?a). known_rm s rm" using known by (auto simp: reply_targets_def active_replies_def)
  consider (ro) "?a = []" | (good) "?a \<noteq> []" "list_all (\<lambda>r. rr_state r = Xa_ok) ?a"
    | (bad) "?a \<noteq> []" "\<not> list_all (\<lambda>r. rr_state r = Xa_ok) ?a" by blast
  then show ?thesis
  proof cases
    case ro
    have "tm_core (upd_transaction (gtrid (cb_origin cb)) (purge_replies (map rr_resource (filter is_read_only replies))) s)"
      using core by (auto intro!: core_upd_transaction tx_ok_purge_replies)
    then show ?thesis using ro reach find_erase_transaction unfolding fired_prepare_cases [OF t(1) nofail] all_reach_def
      by (simp add: Let_def act_defs optional_send_def none)
  next
    case good
    obtain s1 s' where h: "fired_prepare ev (cb, replies, outcome) s = (Inr (), s')"
      "if cb_kind cb = R_commit
       then persist_reply ev (create_reply R_commit (cb_origin cb) (cb_dest cb) Xa_ok Stage_prepare) (d_process (cb_dest cb))
          (logged (rows_written replies t) (upd_transaction (gtrid (cb_origin cb)) (purge_replies ?ro) s)) = (Inr (), s1)
       else s1 = logged (rows_written replies t) (upd_transaction (gtrid (cb_origin cb)) (purge_replies ?ro) s)"
      "requested (rm_messages Commit_kind False (s_next_corr s) (reply_targets ?a)) s1 s'"
      "s_commit s' = s_commit s @ [waiting_entry (rm_pending (s_next_corr s) (reply_targets ?a)) (cb\<lparr>cb_code := Xa_ok\<rparr>)]"
      "s_rollback s' = s_rollback s"
      using prepare_commits [OF t nofail reach ka rows good refl refl refl] unfolding purged_rows by blast
    show ?thesis unfolding Let_def if_P [OF good(2)] if_not_P [OF good(1)]
      by (rule exI [of _ s'], rule conjI [OF h(1)], rule conjI [OF none], (rule exI)+, intro conjI, rule refl) (rule h)+
  next
    case bad
    show ?thesis
      using prepare_rolls_back [OF t(1) nofail reach ka bad refl refl] bad none by (simp add: Let_def)
  qed
qed

definition transaction1 :: transaction where
  "transaction1 = \<lparr>t_stage = Prepare, t_global = [1], t_branches = [\<lparr>b_trid = trid1, b_resources =
     [\<lparr>br_id = -1, br_code = Xa_ok\<rparr>, \<lparr>br_id = -2, br_code = Xa_ok\<rparr>]\<rparr>],
     t_owner = client, t_started = 0, t_deadline = 0\<rparr>"

definition tm_preparing :: tm where
  "tm_preparing = tm_start\<lparr>s_transactions := [transaction1]\<rparr>"

definition callback1 :: callback where
  "callback1 = mk_callback R_commit trid1 client 7 0"

lemma tm_preparing_facts:
  "find_transaction (gtrid (cb_origin callback1)) tm_preparing = Some transaction1"
  "tx_ok transaction1" "all_reach calm" "tm_core tm_preparing"
  "distinct (map (\<lambda>b. bqual (b_trid b)) (t_branches transaction1))"
  "\<forall>r\<in>set (l_rows (s_log tm_preparing)). lr_gtrid r \<noteq> t_global transaction1"
  "\<forall>(t, rm)\<in>set (reply_targets [reply1 100 (-1) a, reply1 101 (-2) b]). known_rm tm_preparing rm"
  by (simp_all add: find_transaction_def tm_preparing_def transaction1_def callback1_def mk_callback_def trid1_def
      tx_ok_def all_reach_def calm_def tm_core_def tm_start_def txs_ok_def log_ok_def reply_targets_def
      reply1_def known_rm_def)

theorem prepare_decides_witness:
  "\<exists>s'. fired_prepare calm (callback1, [reply1 100 (-1) Xa_ok, reply1 101 (-2) Xa_rollback_other], []) tm_preparing = (Inr (), s')
     \<and> requested (rm_messages Rollback_kind False 100 [(trid1, -1), (trid1, -2)]) tm_preparing s'"
proof -
  have a: "active_replies [reply1 100 (-1) Xa_ok, reply1 101 (-2) Xa_rollback_other]
      = [reply1 100 (-1) Xa_ok, reply1 101 (-2) Xa_rollback_other]"
    by (simp add: active_replies_def is_read_only_def reply1_def)
  show ?thesis
    using prepare_decides [OF tm_preparing_facts(1,2) _ tm_preparing_facts(3,4,7,5,6), of "[]" Xa_ok Xa_rollback_other, unfolded a]
    by (auto simp: Let_def reply1_def reply_targets_def tm_preparing_def tm_start_def)
qed

text \<open>
  C2. What the log holds when the decision is commit: a branch is written only if one of its
  resources answered read-only. When every resource has prepared and answered ok, the case the
  log is for, no row is written for the transaction, yet the reply of the prepare stage goes out
  and the commit requests are sent.
\<close>

theorem prepare_ok_logs_nothing:
  assumes "find_transaction (gtrid (cb_origin cb)) s = Some t" "tx_ok t"
    and "\<forall>p\<in>set outcome. fan_state p \<noteq> Fan_failed" and "all_reach ev"
    and "\<forall>(t, rm)\<in>set (reply_targets replies). known_rm s rm"
    and "distinct (map (\<lambda>b. bqual (b_trid b)) (t_branches t))" "\<forall>r\<in>set (l_rows (s_log s)). lr_gtrid r \<noteq> t_global t"
    and "replies \<noteq> []" and "list_all (\<lambda>r. rr_state r = Xa_ok) replies"
  shows "\<exists>s'. fired_prepare ev (cb, replies, outcome) s = (Inr (), s')
     \<and> l_rows (s_log s') = l_rows (s_log s)
     \<and> (\<exists>s1. requested (rm_messages Commit_kind False (s_next_corr s) (reply_targets replies)) s1 s')"
proof -
  have a: "active_replies replies = replies" and r: "filter is_read_only replies = []"
    using assms(9) by (auto simp: active_replies_def is_read_only_def list_all_iff filter_empty_conv)
  have p: "t_branches (purge_replies [] t) = []" by (simp add: purge_replies_def purge_def)
  obtain s1 s' where h: "fired_prepare ev (cb, replies, outcome) s = (Inr (), s')"
    "if cb_kind cb = R_commit
     then persist_reply ev (create_reply R_commit (cb_origin cb) (cb_dest cb) Xa_ok Stage_prepare) (d_process (cb_dest cb))
        (logged [] (upd_transaction (gtrid (cb_origin cb)) (purge_replies []) s)) = (Inr (), s1)
     else s1 = logged [] (upd_transaction (gtrid (cb_origin cb)) (purge_replies []) s)"
    "requested (rm_messages Commit_kind False (s_next_corr s) (reply_targets replies)) s1 s'" "s_log s' = s_log s1"
    using prepare_commits [OF assms(1-4), of replies, unfolded a r, OF assms(5-9) refl refl refl, unfolded list.map p]
    by blast
  have "l_rows (s_log s1) = l_rows (s_log s)"
    using h(2) persist_reply_frame by (fastforce simp: logged_def split: if_splits)
  then show ?thesis using h by metis
qed

theorem prepare_ok_logs_nothing_witness:
  "\<exists>s'. fired_prepare calm (callback1, [reply1 100 (-1) Xa_ok, reply1 101 (-2) Xa_ok], []) tm_preparing = (Inr (), s')
     \<and> l_rows (s_log s') = []"
  using prepare_ok_logs_nothing [OF tm_preparing_facts(1,2) _ tm_preparing_facts(3,7,5,6), of "[]" Xa_ok Xa_ok]
  by (auto simp: reply1_def tm_preparing_def tm_start_def)

section \<open>Durable before the reply\<close>

text \<open>
  C13. A reply that promises a commit is held back until the log is durable: below the batch limit
  nothing is put out and the log is not touched; at the limit the first thing put out is the log
  with all its rows, then every reply that its process can take at once, in the order they were held
  back, then those it has no room for, in that order, to the pending-message process. Only replies
  to processes that are gone are missing.
\<close>

theorem persist_reply_durable:
  "\<exists>s'. persist_reply ev m h s = (Inr (), s') \<and>
    (let held = s_replies s @ [(m, h)]; ipc = \<lambda>r. hipc (snd r)
     in if length held < batch_persistence
        then s_outbox s' = s_outbox s \<and> s_replies s' = held \<and> s_log s' = s_log s
        else s_replies s' = [] \<and> l_durable (s_log s') = l_rows (s_log s) \<and> l_rows (s_log s') = l_rows (s_log s)
          \<and> s_outbox s' = s_outbox s @ (To_log, Log_persisted (length (l_rows (s_log s))))
              # [(To_ipc (ipc r), fst r). r \<leftarrow> held, ev_reach ev (ipc r) \<and> ev_room ev (ipc r)]
              @ [(To_pending (snd r), fst r). r \<leftarrow> held, ev_reach ev (ipc r) \<and> \<not> ev_room ev (ipc r)])"
proof -
  have cut: "concat (map (\<lambda>r. if P r then [f r] else []) rs) = map f (filter P rs)" for P f and rs :: "(out_msg \<times> handle) list"
    by (induction rs) simp_all
  show ?thesis
    by (simp add: persist_reply_def batch_send_def persist_send_eq act_defs log_persist_def Let_def cut persisted_def
        sent_now_def [abs_def] not_sent_def [abs_def])
qed

end
