(* ===== verification/TxCompletion.thy ===== *)
theory TxCompletion
  imports TxProperties
begin

text \<open>
  The second phase: the answers of the resources come in, in any order, and the last one
  completes the transaction. Then what happens where a resource or a client goes away.
\<close>

section \<open>Completion\<close>

definition has_instance :: "tm \<Rightarrow> int \<Rightarrow> int \<Rightarrow> bool" where
  "has_instance s rm pid \<longleftrightarrow> fst (get_instance rm pid s) \<in> range Inr"

definition replier_known :: "tm \<Rightarrow> rm_reply \<Rightarrow> bool" where
  "replier_known s m \<longleftrightarrow> (0 < rr_resource m \<longrightarrow> has_instance s (rr_resource m) (hpid (rr_process m)))"

text \<open>What an answer of an instance leaves alone: all but its instance and the queue.\<close>

definition same_coord :: "tm \<Rightarrow> tm \<Rightarrow> bool" where
  "same_coord s s' \<longleftrightarrow> s_transactions s' = s_transactions s \<and> s_prepare s' = s_prepare s
     \<and> s_commit s' = s_commit s \<and> s_rollback s' = s_rollback s \<and> s_log s' = s_log s
     \<and> map (\<lambda>p. (p_id p, map (\<lambda>i. hpid (i_process i)) (p_instances p))) (s_resources s')
       = map (\<lambda>p. (p_id p, map (\<lambda>i. hpid (i_process i)) (p_instances p))) (s_resources s)
     \<and> set (s_requests s') \<subseteq> set (s_requests s)
     \<and> (\<exists>sent. s_outbox s' = s_outbox s @ sent \<and> snd ` set sent \<subseteq> snd ` set (s_requests s))"

lemma same_coord_refl [simp]: "same_coord s s"
  by (simp add: same_coord_def)

lemma same_coord_trans: "same_coord s s1 \<Longrightarrow> same_coord s1 s2 \<Longrightarrow> same_coord s s2"
proof -
  assume a: "same_coord s s1" and b: "same_coord s1 s2"
  obtain x y where x: "s_outbox s1 = s_outbox s @ x" "snd ` set x \<subseteq> snd ` set (s_requests s)"
    and y: "s_outbox s2 = s_outbox s1 @ y" "snd ` set y \<subseteq> snd ` set (s_requests s1)"
    using a b unfolding same_coord_def by blast
  have q: "set (s_requests s1) \<subseteq> set (s_requests s)" using a by (simp add: same_coord_def)
  then have "snd ` set (x @ y) \<subseteq> snd ` set (s_requests s)" 
    using x(2) order_trans [OF y(2) image_mono [OF q]] by (simp add: image_Un)
  then have "\<exists>sent. s_outbox s2 = s_outbox s @ sent \<and> snd ` set sent \<subseteq> snd ` set (s_requests s)"
    using x(1) y(1) by (intro exI [of _ "x @ y"]) simp
  then show ?thesis using a b q unfolding same_coord_def by (metis (no_types, lifting) subset_trans)
qed

lemma find_map_iff:
  "(\<exists>x. List.find (\<lambda>x. f x = a) xs = Some x) \<longleftrightarrow> a \<in> set (map f xs)"
  by (induction xs) auto

lemma get_instance_known:
  "fst (get_instance rm pid s) \<in> range Inr \<longleftrightarrow>
     (case map_of (map (\<lambda>p. (p_id p, map (\<lambda>i. hpid (i_process i)) (p_instances p))) (s_resources s)) rm of
        None \<Rightarrow> False | Some pids \<Rightarrow> pid \<in> set pids)"
proof -
  have m: "map_of (map (\<lambda>p. (p_id p, f p)) ps) rm = map_option f (List.find (\<lambda>p. p_id p = rm) ps)" for f :: "proxy \<Rightarrow> int list" and ps
    by (induction ps) auto
  show ?thesis
  proof (cases "List.find (\<lambda>p. p_id p = rm) (s_resources s)")
    case None
    then show ?thesis by (auto simp: m get_instance_def get_resource_def act_defs)
  next
    case (Some p)
    show ?thesis
    proof (cases "List.find (\<lambda>i. hpid (i_process i) = pid) (p_instances p)")
      case None
      then have "pid \<notin> set (map (\<lambda>i. hpid (i_process i)) (p_instances p))"
        using find_map_iff [of "\<lambda>i. hpid (i_process i)" pid "p_instances p"] by (simp del: set_map)
      then show ?thesis using Some None by (auto simp: m get_instance_def get_resource_def act_defs)
    next
      case (Some i)
      then have "pid \<in> set (map (\<lambda>i. hpid (i_process i)) (p_instances p))"
        using find_map_iff [of "\<lambda>i. hpid (i_process i)" pid "p_instances p"] by (simp del: set_map)
      then show ?thesis using Some \<open>List.find _ (s_resources s) = Some p\<close>
        by (auto simp: m get_instance_def get_resource_def act_defs)
    qed
  qed
qed

lemma same_coord_instances: "same_coord s s' \<Longrightarrow> replier_known s' m = replier_known s m"
  unfolding replier_known_def has_instance_def get_instance_known same_coord_def by simp

lemma upd_instance_pids:
  assumes "\<And>i. hpid (i_process (f i)) = hpid (i_process i)"
  shows "map (\<lambda>p. (p_id p, map (\<lambda>i. hpid (i_process i)) (p_instances p))) (s_resources (upd_instance rm P f s))
     = map (\<lambda>p. (p_id p, map (\<lambda>i. hpid (i_process i)) (p_instances p))) (s_resources s)"
  unfolding upd_instance_def by (simp add: map_update_first assms)

lemma instance_done_frame:
  assumes "all_reach ev" and "has_instance s rm pid"
  shows "\<exists>s'. instance_done ev rm pid s = (Inr (), s') \<and> same_coord s s'"
proof -
  obtain i where i: "get_instance rm pid s = (Inr i, s)"
    using assms(2) get_instance_state [of rm pid s] by (cases "get_instance rm pid s") (auto simp: has_instance_def)
  show ?thesis
  proof (cases "List.find (\<lambda>(r, _). r = i_id i) (s_requests s)")
    case None
    then show ?thesis using i by (simp add: instance_done_def act_defs same_coord_def upd_instance_pids)
  next
    case (Some q)
    obtain r m where q: "q = (r, m)" by force
    have "(r, m) \<in> set (s_requests s)" using find_Some_in [OF Some] unfolding q by blast
    then have "m \<in> snd ` set (s_requests s)" by force
    then show ?thesis using i Some q assms(1) set_remove_first
      by (simp add: instance_done_def act_defs optional_send_def all_reach_def same_coord_def upd_instance_pids)
  qed
qed

lemma instance_replied_frame:
  assumes "all_reach ev" and "replier_known s m"
  shows "\<exists>s'. instance_replied ev m s = (Inr (), s') \<and> same_coord s s'"
proof (cases "0 < rr_resource m")
  case True
  then obtain s' where s': "instance_done ev (rr_resource m) (hpid (rr_process m)) s = (Inr (), s')" "same_coord s s'"
    using instance_done_frame [OF assms(1), of s "rr_resource m" "hpid (rr_process m)"] assms(2)
    by (auto simp: replier_known_def)
  let ?s = "upd_instance (rr_resource m) (\<lambda>x. hpid (i_process x) = hpid (rr_process m))
      (\<lambda>x. x\<lparr>i_metrics := metrics_reply (ev_now ev) (rr_stats m) (i_metrics x)\<rparr>) s'"
  have "same_coord s' ?s" by (simp add: same_coord_def upd_instance_pids)
  then show ?thesis using s' True same_coord_trans [OF s'(2)]
    by (simp add: instance_replied_def act_then_def act_bind_def act_upd_def)
qed (simp add: instance_replied_def act_ret_def)

lemma commit_reply_step:
  assumes "all_reach ev" and "replier_known s m"
  shows "\<exists>s1. same_coord s s1 \<and> commit_reply ev m s =
     (case fan_message (rr_corr m) m (s_commit s) of (fired, c) \<Rightarrow>
        run_fired (fired_phase2 ev Stage_commit) fired (s1\<lparr>s_commit := c\<rparr>))"
proof -
  obtain s1 where s1: "instance_replied ev m s = (Inr (), s1)" "same_coord s s1"
    using instance_replied_frame [OF assms] by blast
  then have "s_commit s1 = s_commit s" by (simp add: same_coord_def)
  then show ?thesis using s1 by (auto simp: commit_reply_def act_defs split: prod.split)
qed

text \<open>Replies that complete nothing.\<close>

lemma commit_replies_wait:
  assumes reach: "all_reach ev" and known: "\<forall>m\<in>set ms. replier_known s m"
    and none: "\<forall>f\<in>set (fst (fan_messages (map (\<lambda>m. (rr_corr m, m)) ms) (s_commit s))). f = None"
  shows "\<exists>s1. same_coord s s1 \<and> fold (\<lambda>m. tm_step (ev, Commit_rm_reply m)) ms s
     = s1\<lparr>s_commit := snd (fan_messages (map (\<lambda>m. (rr_corr m, m)) ms) (s_commit s))\<rparr>"
  using known none
proof (induction ms arbitrary: s)
  case Nil
  then show ?case by (intro exI [of _ s]) simp
next
  case (Cons m ms)
  obtain f c where f: "fan_message (rr_corr m) m (s_commit s) = (f, c)" by force
  have fn: "f = None" using Cons.prems(2) f by (auto split: prod.splits)
  obtain s1 where s1: "same_coord s s1" "commit_reply ev m s = run_fired (fired_phase2 ev Stage_commit) f (s1\<lparr>s_commit := c\<rparr>)"
    using commit_reply_step [OF reach, of s m] Cons.prems(1) f by auto
  let ?s = "s1\<lparr>s_commit := c\<rparr>"
  have st: "tm_step (ev, Commit_rm_reply m) s = ?s"
    using s1(2) fn by (simp add: tm_step_def run_fired_def act_ret_def)
  have "\<forall>m\<in>set ms. replier_known ?s m"
    using Cons.prems(1) same_coord_instances [OF s1(1)]
    by (auto simp: replier_known_def has_instance_def get_instance_known)
  moreover have "\<forall>f\<in>set (fst (fan_messages (map (\<lambda>m. (rr_corr m, m)) ms) (s_commit ?s))). f = None"
    using Cons.prems(2) f by (auto split: prod.splits)
  ultimately obtain s2 where s2: "same_coord ?s s2" "fold (\<lambda>m. tm_step (ev, Commit_rm_reply m)) ms ?s
     = s2\<lparr>s_commit := snd (fan_messages (map (\<lambda>m. (rr_corr m, m)) ms) c)\<rparr>"
    using Cons.IH [of ?s] by auto
  have "same_coord s1 (s2\<lparr>s_commit := s_commit s\<rparr>)" using s1(1) s2(1) by (simp add: same_coord_def)
  then have "same_coord s (s2\<lparr>s_commit := s_commit s\<rparr>)" by (rule same_coord_trans [OF s1(1)])
  then show ?case using s2(2) st f by (intro exI [of _ "s2\<lparr>s_commit := s_commit s\<rparr>"]) (simp split: prod.split)
qed

lemma accumulate_none_failed:
  "\<forall>p\<in>set outcome. fan_state p \<noteq> Fan_failed \<Longrightarrow>
     accumulate_code codes outcome code = accumulate_code codes ([] :: int fan_pending list) code"
  by (auto simp: accumulate_code_def)

lemma fired_phase2_effect:
  assumes "all_reach ev" and "txs_ok (s_transactions s)"
  shows "\<exists>s'. fired_phase2 ev st (cb, replies, outcome) s = (Inr (), s')
     \<and> s_outbox s' = s_outbox s @ [(To_ipc (hipc (d_process (cb_dest cb))),
          create_reply (cb_kind cb) (cb_origin cb) (cb_dest cb) (accumulate_code (map rr_state replies) outcome (cb_code cb)) st)]
     \<and> find_transaction (gtrid (cb_origin cb)) s' = None
     \<and> (\<forall>r\<in>set (l_rows (s_log s')). lr_gtrid r \<noteq> gtrid (cb_origin cb))
     \<and> s_commit s' = s_commit s \<and> s_rollback s' = s_rollback s \<and> s_prepare s' = s_prepare s"
proof -
  let ?g = "gtrid (cb_origin cb)"
  let ?s = "post (To_ipc (hipc (d_process (cb_dest cb)))) (create_reply (cb_kind cb) (cb_origin cb) (cb_dest cb)
      (accumulate_code (map rr_state replies) outcome (cb_code cb)) st) s"
  have "txs_ok (s_transactions (?s\<lparr>s_log := log_remove ?g (s_log s)\<rparr>))" using assms(2) by simp
  note n = find_erase_txs [OF this, of ?g]
  show ?thesis using assms(1) n
    by (simp add: fired_phase2_def Let_def remove_transaction_def act_defs optional_send_def all_reach_def log_remove_def)
qed

text \<open>
  C11. The commit phase completes: when the answers to all the commit requests of a transaction
  have come in, in any order, the client has got exactly one reply, with the most severe of the
  codes, and it is the last message sent; the coordination, the transaction and its log rows are
  gone. What else was sent are requests that were waiting for the instances that answered.
\<close>

theorem commit_phase_completes:
  assumes ok: "tm_ok s" and reach: "all_reach ev" and s: "s_commit s = es @ [waiting_entry ps cb]"
    and ps: "ps \<noteq> []" "\<forall>p\<in>set ps. fan_state p = Fan_pending"
    and ms: "distinct (map rr_corr ms)" "set (map rr_corr ms) = set (map fan_corr ps)"
    and known: "\<forall>m\<in>set ms. replier_known s m"
    and s': "s' = fold (\<lambda>m. tm_step (ev, Commit_rm_reply m)) ms s"
  shows "s_commit s' = es \<and> find_transaction (gtrid (cb_origin cb)) s' = None
    \<and> (\<forall>r\<in>set (l_rows (s_log s')). lr_gtrid r \<noteq> gtrid (cb_origin cb))
    \<and> (\<exists>sent. s_outbox s' = s_outbox s @ sent @ [(To_ipc (hipc (d_process (cb_dest cb))),
          create_reply (cb_kind cb) (cb_origin cb) (cb_dest cb)
            (accumulate_code (map rr_state ms) ([] :: int fan_pending list) (cb_code cb)) Stage_commit)]
        \<and> snd ` set sent \<subseteq> snd ` set (s_requests s))"
proof -
  let ?cm = "\<lambda>m. (rr_corr m, m)"
  have fan: "fan_ok (s_next_corr s) (s_commit s)" using ok by (simp add: tm_ok_def tm_core_def)
  have d: "distinct (map fan_corr ps)" using fan by (simp add: s fan_ok_def waiting_entry_def)
  have other: "\<forall>x\<in>set es. \<forall>c\<in>set (map fan_corr ps). \<not> fan_has c x"
    using fan by (fastforce simp: s fan_ok_def waiting_entry_def fan_corrs_def fan_has_def)
  have "ms \<noteq> []" using ms(2) ps(1) by auto
  then obtain bs l where bl: "ms = bs @ [l]" by (metis rev_exhaust)
  let ?out = "received_from (set (map fan_corr ps)) ps"
  have r0: "received_from {} ps = ps" by (simp add: received_from_def)
  have "fan_messages (map ?cm ms) (s_commit s) = (replicate (length bs) None @ [Some (cb, ms, ?out)], es)"
    using fan_messages_all [OF d ps(2) other, of "map ?cm ms" "{}" "[]" cb] \<open>ms \<noteq> []\<close> ms r0
    by (simp add: s waiting_entry_def comp_def bl)
  then have split: "fst (fan_messages (map ?cm bs) (s_commit s)) = replicate (length bs) None"
    "fan_message (rr_corr l) l (snd (fan_messages (map ?cm bs) (s_commit s))) = (Some (cb, ms, ?out), es)"
    by (auto simp: bl fan_messages_append append_eq_append_conv split: prod.splits)
  obtain s1 where s1: "same_coord s s1" "fold (\<lambda>m. tm_step (ev, Commit_rm_reply m)) bs s
     = s1\<lparr>s_commit := snd (fan_messages (map ?cm bs) (s_commit s))\<rparr>"
    using commit_replies_wait [OF reach, of bs s] known bl split(1) by auto
  let ?s1 = "s1\<lparr>s_commit := snd (fan_messages (map ?cm bs) (s_commit s))\<rparr>"
  have "replier_known ?s1 l" using known bl same_coord_instances [OF s1(1)]
    by (simp add: replier_known_def has_instance_def get_instance_known)
  then obtain s2 where s2: "same_coord ?s1 s2"
    "commit_reply ev l ?s1 = fired_phase2 ev Stage_commit (cb, ms, ?out) (s2\<lparr>s_commit := es\<rparr>)"
    using commit_reply_step [OF reach, of ?s1 l] split(2) by (auto simp: run_fired_def)
  have "txs_ok (s_transactions (s2\<lparr>s_commit := es\<rparr>))"
    using ok s1(1) s2(1) by (simp add: same_coord_def tm_ok_def tm_core_def)
  note e = fired_phase2_effect [OF reach this, of Stage_commit cb ms ?out]
  have "s' = snd (commit_reply ev l ?s1)" using s1(2) by (simp add: s' bl tm_step_def)
  moreover have "accumulate_code (map rr_state ms) ?out (cb_code cb) = accumulate_code (map rr_state ms) ([] :: int fan_pending list) (cb_code cb)"
    by (rule accumulate_none_failed) (use ps(2) in \<open>auto simp: received_from_def\<close>)
  moreover have "same_coord s1 (s2\<lparr>s_commit := s_commit s1\<rparr>)" using s2(1) by (simp add: same_coord_def)
  then have "same_coord s (s2\<lparr>s_commit := s_commit s1\<rparr>)" by (rule same_coord_trans [OF s1(1)])
  then obtain sent where "s_outbox s2 = s_outbox s @ sent" "snd ` set sent \<subseteq> snd ` set (s_requests s)"
    by (auto simp: same_coord_def)
  ultimately show ?thesis using e s2(2) by auto
qed

definition tm_committing :: tm where
  "tm_committing = tm_preparing\<lparr>s_commit := [waiting_entry [mk_pending 90 (-1), mk_pending 91 (-2)] callback1]\<rparr>"

lemma tm_committing_ok: "tm_ok tm_committing"
  by (simp add: tm_ok_def tm_core_def tm_committing_def tm_preparing_def tm_start_def txs_ok_def log_ok_def
      batch_persistence_def waiting_entry_def mk_pending_def fan_ok_def fan_waiting_def transaction1_def tx_ok_def trid1_def)

theorem commit_phase_completes_witness:
  "s_commit (fold (\<lambda>m. tm_step (calm, Commit_rm_reply m)) [reply1 91 (-2) Xa_ok, reply1 90 (-1) Xa_ok] tm_committing) = []"
  using commit_phase_completes [OF tm_committing_ok tm_preparing_facts(3), of "[]"
      "[mk_pending 90 (-1), mk_pending 91 (-2)]" callback1 "[reply1 91 (-2) Xa_ok, reply1 90 (-1) Xa_ok]"]
  by (simp add: tm_committing_def mk_pending_def reply1_def replier_known_def insert_commute)

section \<open>Rollback\<close>

text \<open>
  C35. What a rollback request does, whatever stage the transaction is in: the stage never goes
  down, with no resource involved the client gets its reply at once and the transaction is gone,
  otherwise exactly one rollback request per resource and branch is made and the rollback waits
  for the answers.
\<close>

theorem rollback_request_decides:
  assumes ok: "tm_ok s" and reach: "all_reach ev"
    and x: "find_transaction (gtrid (q_trid m)) (branch_involved (q_trid m) (q_involved m) s) = Some x"
    and known: "\<forall>(t, rm)\<in>set (branch_targets (t_branches x)). known_rm s rm"
  shows "\<exists>s'. rollback_request ev m s = (Inr (), s') \<and>
    (let g = gtrid (q_trid m); targets = branch_targets (t_branches x);
         cb = mk_callback R_rollback (q_trid m) (q_process m) (q_corr m) 0
     in if targets = [] then
          s_outbox s' = s_outbox s @ [(To_ipc (hipc (q_process m)), Rollback_reply (q_corr m) (q_trid m) Tx_ok)]
          \<and> find_transaction g s' = None \<and> s_rollback s' = s_rollback s
        else
          requested (rm_messages Rollback_kind False (s_next_corr s) targets) s s'
          \<and> s_rollback s' = s_rollback s @ [waiting_entry (rm_pending (s_next_corr s) targets) cb]
          \<and> find_transaction g s' = Some (x\<lparr>t_stage := max (t_stage x) Rollback, t_owner := q_process m\<rparr>))"
proof -
  let ?g = "gtrid (q_trid m)"
  let ?xs = "branch_targets (t_branches x)"
  let ?cb = "mk_callback R_rollback (q_trid m) (q_process m) (q_corr m) 0"
  let ?f = "\<lambda>t. t\<lparr>t_stage := machine_set Rollback (t_stage t), t_owner := q_process m\<rparr>"
  let ?s = "upd_transaction ?g ?f (branch_involved (q_trid m) (q_involved m) s)"
  have core: "tm_core ?s" using ok by (auto simp: tm_ok_def intro!: core_upd_transaction core_branch_involved)
  have fx: "find_transaction ?g ?s = Some (?f x)" using x by (simp add: find_upd_transaction)
  obtain s1 where s1: "pending_requests ev Rollback_kind False ?xs ?s = (Inr (rm_pending (s_next_corr s) ?xs), s1)"
    "requested (rm_messages Rollback_kind False (s_next_corr s) ?xs) ?s s1" "same_tx ?s s1"
    using pending_requests_made [OF reach, of ?xs ?s Rollback_kind False] known by auto
  have eq: "rollback_request ev m s = coordinate_rollback ev (rm_pending (s_next_corr s) ?xs) ?cb s1"
    using x with_pending [OF s1(1)]
    by (simp add: rollback_request_def Let_def with_transaction_def act_then_def act_bind_def act_upd_def act_get_def)
  show ?thesis
  proof (cases "?xs = []")
    case True
    have s1': "s_outbox s1 = s_outbox s" using s1(2) True by (simp add: requested_Nil)
    have "txs_ok (s_transactions s1)" using core s1(3) by (simp add: same_tx_def tm_core_def)
    note e = fired_phase2_effect [OF reach, OF this, of Stage_rollback ?cb "[]" "[]"]
    have "rollback_request ev m s = fired_phase2 ev Stage_rollback (?cb, [], []) s1"
      using eq True by (simp add: coordinate_rollback_def fan_add_nothing act_defs run_fired_def)
    then show ?thesis using e True s1' s1(3)
      by (auto simp: mk_callback_def create_reply_def accumulate_code_def reply_code_def same_tx_def)
  next
    case False
    let ?s' = "s1\<lparr>s_rollback := s_rollback s @ [waiting_entry (rm_pending (s_next_corr s) ?xs) ?cb]\<rparr>"
    have "rollback_request ev m s = (Inr (), ?s')" using eq False s1(3) by (simp add: coordinate_waits same_tx_def)
    moreover have "requested (rm_messages Rollback_kind False (s_next_corr s) ?xs) s ?s'"
      by (rule requested_frame [OF s1(2)]) simp_all
    moreover have "find_transaction ?g ?s' = Some (?f x)" using fx s1(3) by (simp add: find_transaction_def same_tx_def)
    ultimately show ?thesis using False by (simp add: Let_def machine_set_max)
  qed
qed

theorem rollback_request_decides_witness:
  "\<exists>s'. rollback_request calm request1 tm_preparing = (Inr (), s') \<and> length (s_rollback s') = 1"
proof -
  have ok: "tm_ok tm_preparing" using tm_preparing_facts(4)
    by (simp add: tm_ok_def batch_persistence_def tm_preparing_def tm_start_def)
  show ?thesis using rollback_request_decides [OF ok tm_preparing_facts(3), of request1 transaction1]
    by (auto simp: Let_def request1_def trid1_def branch_involved_def upd_transaction_def add_missing_def
        find_transaction_def tm_preparing_def tm_start_def transaction1_def involve_in_def purge_def
        branch_involve_all_def branch_involve_def branch_targets_def known_rm_def)
qed

text \<open>
  Prepare and rollback can cross. When the client exits while its commit is in the prepare
  stage, the manager rolls the transaction back, and then, with all resources answering prepare
  with ok, asks the same resources to commit it. If the answers to the rollback come before the
  answers to prepare, the last of these finds no transaction and stops the manager.
\<close>

theorem exit_during_prepare_mixes:
  "(let s = fold tm_step [(calm, Commit_request request1), (calm, Process_exited 50),
        (calm, Prepare_rm_reply (reply1 100 (-1) Xa_ok)), (calm, Prepare_rm_reply (reply1 101 (-2) Xa_ok))] tm_start
    in list_ex (\<lambda>(_, m). m = Rm_request Rollback_kind 102 trid1 (-1) False) (s_outbox s)
     \<and> list_ex (\<lambda>(_, m). m = Rm_request Commit_kind 104 trid1 (-1) False) (s_outbox s)
     \<and> list_ex (\<lambda>(_, m). m = Rm_request Rollback_kind 103 trid1 (-2) False) (s_outbox s)
     \<and> list_ex (\<lambda>(_, m). m = Rm_request Commit_kind 105 trid1 (-2) False) (s_outbox s))
   \<and> fst (tm_handle calm (Prepare_rm_reply (reply1 101 (-2) Xa_ok))
       (fold tm_step [(calm, Commit_request request1), (calm, Process_exited 50),
          (calm, Rollback_rm_reply (reply1 102 (-1) Xa_ok)), (calm, Rollback_rm_reply (reply1 103 (-2) Xa_ok)),
          (calm, Prepare_rm_reply (reply1 100 (-1) Xa_ok))] tm_start)) = Inl Terminated"
  by code_simp

end
