(* ===== verification/TxInstances.thy ===== *)
theory TxInstances
  imports TxCompletion
begin

text \<open>
  Instances of resources: how many there are after scaling, what an exit leaves, and what an
  instance gets that has been told to shut down.
\<close>

section \<open>One proxy among the resources\<close>

lemma upd_instance_split:
  assumes "s_resources s = xs @ p # ys" and "p_id p = rm" and "\<forall>q\<in>set xs. p_id q \<noteq> rm"
    and "p_instances p = is @ i # js" and "\<forall>j\<in>set is. \<not> P j" and "P i"
  shows "upd_instance rm P f s = s\<lparr>s_resources := xs @ p\<lparr>p_instances := is @ f i # js\<rparr> # ys\<rparr>"
  using assms update_first_split [of xs "\<lambda>p. p_id p = rm" p "\<lambda>p. p\<lparr>p_instances := update_first P f (p_instances p)\<rparr>" ys]
    update_first_split [of "is" P i f js]
  by (simp add: upd_instance_def)

definition shutdown_messages :: "instance_proxy \<Rightarrow> (dest \<times> out_msg) list" where
  "shutdown_messages i =
     (if i_state i \<in> {Absent, Started} then [(To_process (hpid (i_process i)), Terminate_signal)]
      else if i_state i = Shutdown then []
      else [(To_ipc (hipc (i_process i)), Shutdown_request)])"

lemma shutdown_instances:
  assumes "all_reach ev" and "p_id p = rm" and "\<forall>q\<in>set xs. p_id q \<noteq> rm"
    and "distinct (map (\<lambda>i. hpid (i_process i)) (js @ is))"
  shows "s_resources s = xs @ p\<lparr>p_instances := js @ is\<rparr> # ys \<Longrightarrow>
    act_each (shutdown_instance ev rm) is s = (Inr (replicate (length is) ()),
      s\<lparr>s_resources := xs @ p\<lparr>p_instances := js @ map (inst_set Shutdown) is\<rparr> # ys,
        s_outbox := s_outbox s @ concat (map shutdown_messages is)\<rparr>)"
  using assms(4)
proof (induction "is" arbitrary: s js)
  case Nil
  then show ?case by (simp add: act_ret_def)
next
  case (Cons i "is")
  let ?P = "\<lambda>x. hpid (i_process x) = hpid (i_process i)"
  have no: "\<forall>j\<in>set js. \<not> ?P j" using Cons.prems(2) by (auto simp: image_iff)
  let ?s = "s\<lparr>s_resources := xs @ p\<lparr>p_instances := (js @ [inst_set Shutdown i]) @ is\<rparr> # ys,
        s_outbox := s_outbox s @ shutdown_messages i\<rparr>"
  have "upd_instance rm ?P (inst_set Shutdown) r
      = r\<lparr>s_resources := xs @ p\<lparr>p_instances := js @ inst_set Shutdown i # is\<rparr> # ys\<rparr>"
    if "s_resources r = s_resources s" for r
    using upd_instance_split [of r xs "p\<lparr>p_instances := js @ i # is\<rparr>" ys rm js i "is" ?P] that Cons.prems(1) assms(2,3) no
    by simp
  then have one: "shutdown_instance ev rm i s = (Inr (), ?s)"
    using assms(1) Cons.prems(1)
    by (auto simp: shutdown_instance_def act_defs shutdown_messages_def flush_send_def all_reach_def post_def inst_set_def)
  have "act_each (shutdown_instance ev rm) is ?s = (Inr (replicate (length is) ()),
      ?s\<lparr>s_resources := xs @ p\<lparr>p_instances := (js @ [inst_set Shutdown i]) @ map (inst_set Shutdown) is\<rparr> # ys,
        s_outbox := s_outbox ?s @ concat (map shutdown_messages is)\<rparr>)"
    by (rule Cons.IH) (use Cons.prems(2) in auto)
  then show ?case using one by (simp add: act_bind_def act_ret_def)
qed

lemma spawn_instances_all:
  assumes "\<forall>k. ev_spawn ev server k \<noteq> None"
  shows "\<exists>new. length new = n \<and> spawn_instances ev server n p = p\<lparr>p_instances := p_instances p @ new\<rparr>
     \<and> list_all (\<lambda>i. i_state i = Started \<and> i_id i = p_id p) new"
proof (induction n arbitrary: p)
  case (Suc n)
  obtain pid where pid: "ev_spawn ev server n = Some pid" using assms by blast
  let ?i = "\<lparr>i_id = p_id p, i_process = \<lparr>hpid = pid, hipc = 0\<rparr>, i_metrics = metrics_zero, i_state = Started\<rparr>"
  obtain new where "length new = n" "list_all (\<lambda>i. i_state i = Started \<and> i_id i = p_id p) new"
    "spawn_instances ev server n (p\<lparr>p_instances := p_instances p @ [?i]\<rparr>) = p\<lparr>p_instances := (p_instances p @ [?i]) @ new\<rparr>"
    using Suc.IH [of "p\<lparr>p_instances := p_instances p @ [?i]\<rparr>"] by auto
  then show ?case using pid by (intro exI [of _ "?i # new"]) simp
qed simp

text \<open>
  Scaling a resource: with too few instances the missing ones are started and the existing
  ones stay as they are; otherwise the first ones stay and every one too many is marked for
  shutdown, and told so once: by a signal if it never registered, by a message else, and not at
  all if it was told before.
\<close>

theorem scale_instances_reaches:
  assumes "s_resources s = xs @ p # ys" and "\<forall>q\<in>set xs. p_id q \<noteq> p_id p"
    and "distinct (map (\<lambda>i. hpid (i_process i)) (p_instances p))" and "all_reach ev"
    and "map_of (s_system s) (rc_key (p_conf p)) = Some server" and "\<forall>k. ev_spawn ev server k \<noteq> None"
    and "0 \<le> rc_instances (p_conf p)"
  shows "\<exists>new s'. scale_instances ev (p_id p) s = (Inr (), s') \<and>
    (let n = nat (rc_instances (p_conf p))
     in s_resources s' = xs @ p\<lparr>p_instances := take n (p_instances p) @ map (inst_set Shutdown) (drop n (p_instances p)) @ new\<rparr> # ys
      \<and> length new = n - length (p_instances p) \<and> list_all (\<lambda>i. i_state i = Started \<and> i_id i = p_id p) new
      \<and> s_outbox s' = s_outbox s @ concat (map shutdown_messages (drop n (p_instances p))))"
proof -
  let ?n = "nat (rc_instances (p_conf p))"
  have "List.find (\<lambda>q. p_id q = p_id p) (s_resources s) = Some p" using assms(2) unfolding assms(1) by (induction xs) auto
  then have g: "get_resource (p_id p) s = (Inr p, s)" by (simp add: get_resource_def act_defs)
  have u: "update_first (\<lambda>q. p_id q = p_id p) f (s_resources s) = xs @ f p # ys" for f
    using update_first_split [of xs "\<lambda>q. p_id q = p_id p" p f ys] assms(1,2) by simp
  show ?thesis
  proof (cases "length (p_instances p) < ?n")
    case True
    then have lt: "int (length (p_instances p)) < rc_instances (p_conf p)" by linarith
    obtain new where new: "length new = nat (rc_instances (p_conf p) - int (length (p_instances p)))"
      "list_all (\<lambda>i. i_state i = Started \<and> i_id i = p_id p) new"
      "spawn_instances ev server (nat (rc_instances (p_conf p) - int (length (p_instances p)))) p
         = p\<lparr>p_instances := p_instances p @ new\<rparr>"
      using spawn_instances_all [OF assms(6)] by blast
    have "scale_instances ev (p_id p) s = (Inr (), s\<lparr>s_resources := xs @ p\<lparr>p_instances := p_instances p @ new\<rparr> # ys\<rparr>)"
      using lt g assms(5) new(3) u by (simp add: scale_instances_def act_defs Let_def)
    then show ?thesis using new(1,2) True
      by (intro exI [of _ new] exI [of _ "s\<lparr>s_resources := xs @ p\<lparr>p_instances := p_instances p @ new\<rparr> # ys\<rparr>"]) auto
  next
    case False
    let ?j = "take ?n (p_instances p)" and ?i = "drop ?n (p_instances p)"
    have "s_resources s = xs @ p\<lparr>p_instances := ?j @ ?i\<rparr> # ys" using assms(1) by simp
    from shutdown_instances [OF assms(4) refl assms(2) _ this] assms(3)
    have "scale_instances ev (p_id p) s = (Inr (), s\<lparr>s_resources := xs @ p\<lparr>p_instances := ?j @ map (inst_set Shutdown) ?i\<rparr> # ys,
        s_outbox := s_outbox s @ concat (map shutdown_messages ?i)\<rparr>)"
      using False g assms(7) by (simp add: scale_instances_def act_defs Let_def)
    then show ?thesis using False
      by (intro exI [of _ "[]"] exI [of _ "s\<lparr>s_resources := xs @ p\<lparr>p_instances := ?j @ map (inst_set Shutdown) ?i\<rparr> # ys,
        s_outbox := s_outbox s @ concat (map shutdown_messages ?i)\<rparr>"]) simp
  qed
qed

definition tm_scaled :: tm where
  "tm_scaled = tm_local\<lparr>s_resources := map (\<lambda>p. p\<lparr>p_conf := (p_conf p)\<lparr>rc_instances := 0\<rparr>\<rparr>) (s_resources tm_local),
     s_system := [(''db'', ''rm-proxy'')]\<rparr>"

definition spawning :: env where
  "spawning = calm\<lparr>ev_spawn := \<lambda>_ k. Some (200 + int k)\<rparr>"

theorem scale_instances_reaches_witness:
  "\<exists>s'. scale_instances spawning 1 tm_scaled = (Inr (), s') \<and> s_outbox s' = [(To_ipc 81, Shutdown_request)]"
proof -
  obtain p where p: "s_resources tm_scaled = [] @ p # []" "p_id p = 1" "rc_instances (p_conf p) = 0" "rc_key (p_conf p) = ''db''"
    "p_instances p = [\<lparr>i_id = 1, i_process = \<lparr>hpid = 81, hipc = 81\<rparr>, i_metrics = metrics_zero, i_state = Idle\<rparr>]"
    by (simp add: tm_scaled_def tm_local_def)
  have "all_reach spawning" "\<forall>k. ev_spawn spawning ''rm-proxy'' k \<noteq> None"
    by (simp_all add: spawning_def calm_def all_reach_def)
  moreover have "map_of (s_system tm_scaled) (rc_key (p_conf p)) = Some ''rm-proxy''" using p(4) by (simp add: tm_scaled_def)
  ultimately show ?thesis
    using scale_instances_reaches [OF p(1), of spawning "''rm-proxy''"] p
    by (auto simp: Let_def shutdown_messages_def tm_scaled_def tm_local_def tm_start_def)
qed

section \<open>An instance exits\<close>

lemma map_remove_first: "map f (remove_first (\<lambda>x. f x = a) xs) = remove1 a (map f xs)"
  by (induction xs) auto

lemma remove_from_proxies_pids:
  "fst (remove_from_proxies pid ps) = (pid \<in> set (concat (map (\<lambda>p. map (\<lambda>i. hpid (i_process i)) (p_instances p)) ps)))
   \<and> concat (map (\<lambda>p. map (\<lambda>i. hpid (i_process i)) (p_instances p)) (snd (remove_from_proxies pid ps)))
     = remove1 pid (concat (map (\<lambda>p. map (\<lambda>i. hpid (i_process i)) (p_instances p)) ps))"
proof (induction ps)
  case (Cons p ps)
  let ?f = "\<lambda>i. hpid (i_process i)"
  show ?case
  proof (cases "List.find (\<lambda>i. ?f i = pid) (p_instances p)")
    case None
    then have "pid \<notin> set (map ?f (p_instances p))"
      using find_map_iff [of ?f pid "p_instances p"] by (simp del: set_map)
    then show ?thesis using None Cons
      by (auto simp: proxy_remove_instance_def remove1_append split: prod.splits)
  next
    case (Some i)
    then have "pid \<in> set (map ?f (p_instances p))"
      using find_map_iff [of ?f pid "p_instances p"] by (simp del: set_map)
    then show ?thesis using Some
      by (auto simp: proxy_remove_instance_def remove1_append map_remove_first)
  qed
qed simp

text \<open>
  The exit of a resource instance: the instance is forgotten and the domain manager is told,
  nothing else changes. In particular no coordination is told: one that waits for the answer of
  the instance keeps waiting, and so does the client.
\<close>

theorem instance_exit_keeps_waiting:
  assumes "pid \<in> set (tm_processes s)"
  shows "\<exists>s'. process_exit ev pid s = (Inr (), s')
     \<and> tm_processes s' = remove1 pid (tm_processes s)
     \<and> s_outbox s' = s_outbox s @ [(To_domain_manager, Process_exit pid)]
     \<and> s_transactions s' = s_transactions s \<and> s_requests s' = s_requests s
     \<and> s_prepare s' = s_prepare s \<and> s_commit s' = s_commit s \<and> s_rollback s' = s_rollback s"
proof -
  obtain r ps where rp: "remove_from_proxies pid (s_resources s) = (r, ps)" by force
  then show ?thesis using assms remove_from_proxies_pids [of pid "s_resources s"]
    by (simp add: process_exit_def tm_remove_instance_def tm_processes_def act_defs)
qed

theorem instance_exit_keeps_waiting_witness:
  "\<exists>s'. process_exit calm 81 (fold tm_step (take 1 local_run) tm_local) = (Inr (), s')
     \<and> length (s_commit (fold tm_step (take 1 local_run) tm_local)) = 1
     \<and> s_commit s' = s_commit (fold tm_step (take 1 local_run) tm_local)"
proof -
  have "81 \<in> set (tm_processes (fold tm_step (take 1 local_run) tm_local))"
    "length (s_commit (fold tm_step (take 1 local_run) tm_local)) = 1" by code_simp+
  then show ?thesis using instance_exit_keeps_waiting [of 81 "fold tm_step (take 1 local_run) tm_local" calm] by blast
qed

section \<open>After the shutdown request\<close>

text \<open>
  An instance that has been told to shut down and then answers its last request still gets
  the next one from the queue: the request leaves the queue, goes behind the shutdown request
  that is on its way to the instance, and the instance stays marked for shutdown.
\<close>

theorem shutdown_instance_gets_request:
  assumes "get_instance rm pid s = (Inr i, s)" and "i_state i = Shutdown" and "all_reach ev"
    and "List.find (\<lambda>(r, _). r = i_id i) (s_requests s) = Some (i_id i, m)"
  shows "\<exists>s'. instance_done ev rm pid s = (Inr (), s')
     \<and> s_outbox s' = s_outbox s @ [(To_ipc (hipc (i_process i)), m)]
     \<and> s_requests s' = remove_first (\<lambda>(r, _). r = i_id i) (s_requests s)
     \<and> get_instance rm pid s' = (Inr i, s')"
proof -
  let ?P = "\<lambda>x. hpid (i_process x) = pid"
  obtain p where p: "List.find (\<lambda>p. p_id p = rm) (s_resources s) = Some p" "List.find ?P (p_instances p) = Some i"
    by (rule get_instance_result [OF assms(1)]) blast
  have id: "inst_set st i = i" for st using assms(2) by (simp add: inst_set_def)
  have g: "get_instance rm pid s' = (Inr i, s')"
    if "s_resources s' = update_first (\<lambda>p. p_id p = rm) (\<lambda>p. p\<lparr>p_instances := update_first ?P (\<lambda>i. inst_set Busy (inst_set Idle i)) (p_instances p)\<rparr>) (s_resources s)"
    for s'
  proof -
    have "List.find (\<lambda>p. p_id p = rm) (s_resources s')
        = Some (p\<lparr>p_instances := update_first ?P (\<lambda>i. inst_set Busy (inst_set Idle i)) (p_instances p)\<rparr>)"
      unfolding that by (subst find_update_first) (simp_all add: p)
    moreover have "List.find ?P (update_first ?P (\<lambda>i. inst_set Busy (inst_set Idle i)) (p_instances p)) = Some i"
      by (subst find_update_first) (simp_all add: p id)
    ultimately show ?thesis by (simp add: get_instance_def get_resource_def act_defs)
  qed
  let ?s = "upd_instance rm ?P (inst_set Busy) (post (To_ipc (hipc (i_process i))) m (upd_instance rm ?P (inst_set Idle) s))"
  have two: "upd_instance rm ?P (inst_set Busy) (upd_instance rm ?P (inst_set Idle) s)
      = upd_instance rm ?P (\<lambda>i. inst_set Busy (inst_set Idle i)) s"
    by (rule upd_instance_twice) simp
  have "s_resources ?s = s_resources (upd_instance rm ?P (inst_set Busy) (upd_instance rm ?P (inst_set Idle) s))"
    by (simp add: upd_instance_def)
  then have r: "s_resources ?s = s_resources (upd_instance rm ?P (\<lambda>i. inst_set Busy (inst_set Idle i)) s)"
    unfolding two .
  let ?s' = "?s\<lparr>s_requests := remove_first (\<lambda>(r, _). r = i_id i) (s_requests s)\<rparr>"
  have "instance_done ev rm pid s = (Inr (), ?s')"
    using assms by (simp add: instance_done_def act_defs optional_send_def all_reach_def)
  moreover have "get_instance rm pid ?s' = (Inr i, ?s')"
    by (rule g) (use r in \<open>simp add: upd_instance_def\<close>)
  ultimately show ?thesis by simp
qed

definition tm_shutting :: tm where
  "tm_shutting = tm_local\<lparr>s_resources := map (\<lambda>p. p\<lparr>p_instances := map (\<lambda>i. i\<lparr>i_state := Shutdown\<rparr>) (p_instances p)\<rparr>) (s_resources tm_local),
     s_requests := [(1, Rm_request Commit_kind 90 trid1 1 False)]\<rparr>"

theorem shutdown_instance_gets_request_witness:
  "\<exists>s'. instance_done calm 1 81 tm_shutting = (Inr (), s')
     \<and> s_outbox s' = [(To_ipc 81, Rm_request Commit_kind 90 trid1 1 False)] \<and> s_requests s' = []"
proof -
  let ?i = "\<lparr>i_id = 1, i_process = \<lparr>hpid = 81, hipc = 81\<rparr>, i_metrics = metrics_zero, i_state = Shutdown\<rparr>"
  have "get_instance 1 81 tm_shutting = (Inr ?i, tm_shutting)"
    by (simp add: get_instance_def get_resource_def act_defs tm_shutting_def tm_local_def)
  from shutdown_instance_gets_request [OF this _ tm_preparing_facts(3), of "Rm_request Commit_kind 90 trid1 1 False"]
  show ?thesis by (auto simp: tm_shutting_def tm_local_def tm_start_def)
qed

end
