(* ===== verification/CtxCompose.thy ===== *)
theory CtxCompose
  imports CtxProperties TxInstances
begin

text \<open>
  The commit of a transaction context against the model of the transaction manager: what the
  manager answers to the request that \<open>Context::commit\<close> sends.
\<close>

section \<open>The answer of the transaction manager\<close>

text \<open>The request of the context and the reply to it in the outbox of the manager.\<close>

definition tm_commit_answer :: "env \<Rightarrow> tm \<Rightarrow> handle \<Rightarrow> trid \<Rightarrow> int list \<Rightarrow> (reply_stage \<times> tx) option" where
  "tm_commit_answer ev s self t rms =
     (let s' = snd (commit_request ev \<lparr>q_process = self, q_corr = s_next_corr s, q_trid = t, q_involved = rms\<rparr> s)
      in case filter (\<lambda>(d, _). d = To_ipc (hipc self)) (drop (length (s_outbox s)) (s_outbox s')) of
           (_, Commit_reply _ _ code stage) # _ \<Rightarrow> Some (stage, code)
         | _ \<Rightarrow> None)"

lemma update_first_snoc: "\<not> list_ex p xs \<Longrightarrow> p x \<Longrightarrow> update_first p f (xs @ [x]) = xs @ [f x]"
  by (induction xs) auto

lemma remove_first_snoc: "\<not> list_ex p xs \<Longrightarrow> p x \<Longrightarrow> remove_first p (xs @ [x]) = xs"
  by (induction xs) auto

lemma find_appended: "\<not> list_ex p xs \<Longrightarrow> p x \<Longrightarrow> List.find p (xs @ [x]) = Some x"
  by (induction xs) auto

text \<open>A transaction that the manager has not heard of and no resource: \<open>TX_OK\<close>, and nobody is asked.\<close>

lemma unknown_transaction_commits:
  assumes "find_transaction (gtrid (q_trid m)) s = None" and "q_involved m = []" and "ev_reach ev (hipc (q_process m))"
  shows "commit_request ev m s =
    (Inr (), post (To_ipc (hipc (q_process m))) (Commit_reply (q_corr m) (q_trid m) Tx_ok Stage_commit) s)"
proof -
  let ?g = "gtrid (q_trid m)"
  let ?x = "(mk_transaction (q_trid m))\<lparr>t_branches := []\<rparr>"
  have none: "\<not> list_ex (\<lambda>t. t_global t = ?g) (s_transactions s)"
    using assms(1) by (auto simp: find_transaction_def list_ex_iff find_None_iff)
  have g: "t_global (mk_transaction (q_trid m)) = ?g" by (simp add: mk_transaction_def)
  have "purge (involve_in (q_trid m) [] (mk_transaction (q_trid m))) = ?x"
    by (simp add: purge_def involve_in_def mk_transaction_def mk_branch_def branch_involve_all_def)
  then have "branch_involved (q_trid m) [] s = s\<lparr>s_transactions := s_transactions s @ [?x]\<rparr>"
    using assms(1) none g by (simp add: branch_involved_def add_missing_def upd_transaction_def update_first_snoc)
  moreover have "find_transaction ?g (s\<lparr>s_transactions := s_transactions s @ [?x]\<rparr>) = Some ?x"
    using none g by (simp add: find_transaction_def find_appended)
  moreover have "erase_transaction ?g (upd_transaction ?g f (s\<lparr>s_transactions := s_transactions s @ [?x]\<rparr>)) = s"
    if "\<And>x. t_global (f x) = t_global x" for f
    using none g that by (simp add: erase_transaction_def upd_transaction_def update_first_snoc remove_first_snoc)
  moreover have "t_stage ?x = Involved" "resource_count ?x = 0" by (simp_all add: mk_transaction_def resource_count_def)
  ultimately show ?thesis
    using assms(2,3) by (simp add: commit_request_def with_transaction_def Let_def act_defs optional_send_def)
qed

lemma unknown_transaction_answer:
  assumes "find_transaction (gtrid t) s = None" and "ev_reach ev (hipc self)"
  shows "tm_commit_answer ev s self t [] = Some (Stage_commit, Tx_ok)"
proof -
  let ?m = "\<lparr>q_process = self, q_corr = s_next_corr s, q_trid = t, q_involved = []\<rparr>"
  have "commit_request ev ?m s = (Inr (), post (To_ipc (hipc self)) (Commit_reply (s_next_corr s) t Tx_ok Stage_commit) s)"
    using unknown_transaction_commits [of ?m s ev] assms by simp
  then show ?thesis by (simp add: tm_commit_answer_def Let_def post_def)
qed

section \<open>A transaction with several fixed resources\<close>

text \<open>
  C26. \<open>begin\<close> starts the fixed resources and does not involve them, and \<open>commit\<close> sends only what is
  involved: with two or more fixed resource managers and a manager as modelled, \<open>tx_begin\<close> and
  \<open>tx_commit\<close> both answer \<open>TX_OK\<close>, while every resource manager was started and ended and none was
  told to commit, by the process or by the transaction manager, whose state does not change.
\<close>

theorem static_resources_not_committed:
  fixes e :: ctx_env and s :: ctx and m :: tm and ev :: env
  defines "t \<equiv> \<lparr>gtrid = ce_gtrid e, bqual = ce_bqual e, tformat = 42, towner = ce_self e\<rparr>"
  assumes xa: "\<forall>l rm op t fl. ce_xa e l rm op t fl = Xa_ok"
    and tm: "\<forall>l t rms. ce_commit e l t rms = tm_commit_answer ev m (ce_self e) t rms"
      "find_transaction (ce_gtrid e) m = None" "ev_reach ev (hipc (ce_self e))"
    and s: "cx_transactions s = []" "trid_null (ct_trid (cx_empty s))" "ct_dynamic (cx_empty s) = []" "cx_control s = Unchained"
    and two: "2 \<le> length (cx_fixed s)"
  shows "\<exists>s1 s2. tx_begin e s = (Tx_ok, s1) \<and> tx_commit e s1 = (Tx_ok, s2) \<and> cx_transactions s2 = []
    \<and> cx_log s2 = cx_log s @ map (\<lambda>r. Xa_called (rs_id r) Op_start t {} Xa_ok) (cx_fixed s)
        @ map (\<lambda>r. Xa_called (rs_id r) Op_end t {Flag_success} Xa_ok) (cx_fixed s) @ [Tm_commit t []]
    \<and> commit_request ev \<lparr>q_process = ce_self e, q_corr = c, q_trid = t, q_involved = []\<rparr> m
        = (Inr (), post (To_ipc (hipc (ce_self e))) (Commit_reply c t Tx_ok Stage_commit) m)"
proof -
  let ?x = "start_transaction e (cx_timeout s)"
  have x: "ct_trid ?x = t" "ct_dynamic ?x = []" "ct_state ?x = Trans_active" "ct_pending ?x = []" "ct_external ?x = False"
    by (simp_all add: start_transaction_def new_transaction_def t_def)
  have tn: "\<not> trid_null t" "towner t = ce_self e" "gtrid t = ce_gtrid e" by (simp_all add: t_def trid_null_def)
  have codes: "\<forall>l rm. ce_xa e l rm op t fl = (\<lambda>_. Xa_ok) rm" for op fl using xa by simp
  have parts: "map fst (filter snd (map (\<lambda>r. (r, True)) rs)) = rs" "filter (\<lambda>x. \<not> snd x) (map (\<lambda>r. (r, True)) rs) = []"
    "map (fst \<circ> (\<lambda>r. (r, True))) rs = rs"
    for rs :: "xa_resource list" by (induction rs) auto
  let ?starts = "map (\<lambda>r. Xa_called (rs_id r) Op_start t {} Xa_ok) (cx_fixed s)"
  let ?s1 = "s\<lparr>cx_log := cx_log s @ ?starts, cx_fixed := cx_fixed s, cx_all := cx_dynamic s @ cx_fixed s, cx_transactions := [?x]\<rparr>"
  have cur: "cx_current s = cx_empty s" using s(1) by (simp add: cx_current_def in_transaction_mode_def)
  have b: "tx_begin e s = (Tx_ok, ?s1)"
    using starts_logged [OF codes, where rs = "cx_fixed s" and s = s and P = "\<lambda>code. code \<in> {Xa_ok, Xa_read_only}"] s
    by (simp add: tx_begin_def tx_wrap_def cx_begin_def begin_resources_def cur x(1) Let_def act_defs parts cx_push_def)
  let ?s2 = "?s1\<lparr>cx_log := cx_log s @ ?starts @ map (\<lambda>r. Xa_called (rs_id r) Op_end t {Flag_success} Xa_ok) (cx_fixed s)\<rparr>"
  let ?s3 = "(cx_event (Tm_commit t []) ?s2)\<lparr>cx_transactions := []\<rparr>"
  have en: "resources_end e ?x {Flag_success} ?s1 = (Inr (), ?s2)"
    using ends_logged [OF codes, where rs = "cx_fixed s" and s = ?s1] tn(1)
    by (simp add: resources_end_def x act_defs)
  have answer: "ce_commit e l t [] = Some (Stage_commit, Tx_ok)" for l
    using tm unknown_transaction_answer [of t m ev "ce_self e"] tn(3) by simp
  have "commit_distributed e ?x ?s2 = (Inr (), cx_event (Tm_commit t []) ?s2)"
    by (simp add: commit_distributed_def act_defs act_state_def x answer raise_if_not_ok_def)
  moreover have "\<not> length (cx_fixed s) \<le> 1" using two by simp
  moreover have "cx_current ?s1 = ?x" by (simp add: cx_current_def in_transaction_mode_def)
  ultimately have "tx_commit e ?s1 = (Tx_ok, ?s3)"
    using en tn s(4)
    by (simp add: tx_commit_def tx_wrap_def cx_commit_def commit_transaction_def x act_defs pop_transaction_def cx_event_def)
  then show ?thesis
    using b unknown_transaction_commits [of "\<lparr>q_process = ce_self e, q_corr = c, q_trid = t, q_involved = []\<rparr>" m ev] tm(2,3) tn(3)
    by (auto simp: cx_event_def)
qed

definition tm_env :: ctx_env where
  "tm_env = (calm_env 1)\<lparr>ce_commit := (\<lambda>_ t rms. tm_commit_answer calm tm_start (ce_self (calm_env 1)) t rms)\<rparr>"

theorem static_resources_not_committed_witness:
  "let s = configured [] [plain_resource 7, plain_resource 8]; s1 = snd (tx_begin tm_env s)
   in fst (tx_begin tm_env s) = Tx_ok \<and> fst (tx_commit tm_env s1) = Tx_ok"
proof -
  let ?s = "configured [] [plain_resource 7, plain_resource 8]"
  have xa: "\<forall>l rm op t fl. ce_xa tm_env l rm op t fl = Xa_ok"
    and com: "\<forall>l t rms. ce_commit tm_env l t rms = tm_commit_answer calm tm_start (ce_self tm_env) t rms"
    and find: "find_transaction (ce_gtrid tm_env) tm_start = None" and reach: "ev_reach calm (hipc (ce_self tm_env))"
    by (simp_all add: tm_env_def calm_env_def find_transaction_def tm_start_def calm_def)
  have s: "cx_transactions ?s = []" "trid_null (ct_trid (cx_empty ?s))" "ct_dynamic (cx_empty ?s) = []"
    "cx_control ?s = Unchained" "2 \<le> length (cx_fixed ?s)"
    by (simp_all add: ctx_eval)
  obtain s1 s2 where "tx_begin tm_env ?s = (Tx_ok, s1)" "tx_commit tm_env s1 = (Tx_ok, s2)"
    using static_resources_not_committed [OF xa com find reach s, of 0] by blast
  then show ?thesis by (simp add: Let_def)
qed

end
