(* ===== verification/CallState.thy ===== *)
theory CallState
  imports CtxHandle
begin

text \<open>
  The calls a process makes: the descriptors of \<open>common/service/call/state.cpp\<close>, the lookup of a
  service (\<open>common/service/lookup.cpp\<close>) and \<open>common/service/call/context.cpp\<close>. The transaction context
  of the process is part of the state, as calls are associated with its current transaction. What
  the service manager and the called service answer is part of the environment.
\<close>

section \<open>Descriptors\<close>

record descriptor =
  ds_descriptor :: int
  ds_active :: bool
  ds_correlation :: nat

definition call_descriptor :: "int \<Rightarrow> bool \<Rightarrow> descriptor" where
  "call_descriptor d active = \<lparr>ds_descriptor = d, ds_active = active, ds_correlation = 0\<rparr>"

text \<open>What a call sends.\<close>

datatype look_context = Lookup_regular | Lookup_forward

record call_request =
  cr_target :: handle
  cr_service :: string
  cr_correlation :: nat
  cr_trid :: trid
  cr_wants_reply :: bool

datatype call_event =
    Lookup_sent string look_context "int option"
  | Lookup_dropped nat                   \<comment> \<open>a pending lookup is taken back\<close>
  | Call_sent call_request
  | Reply_discarded nat

record call_state =
  cl_descriptors :: "descriptor list"
  cl_ctx :: ctx
  cl_log :: "call_event list"

definition initial_calls :: "ctx \<Rightarrow> call_state" where
  "initial_calls c = \<lparr>cl_descriptors = map (\<lambda>d. call_descriptor d False) [1, 2, 3, 4, 5, 6, 7, 8],
     cl_ctx = c, cl_log = []\<rparr>"

definition cl_event :: "call_event \<Rightarrow> call_state \<Rightarrow> call_state" where
  "cl_event v s = s\<lparr>cl_log := cl_log s @ [v]\<rparr>"

text \<open>\<open>Pending::reserve\<close>: the first descriptor that is free, or a new one. The descriptor that is
  reserved is returned.\<close>

definition reserve_descriptor :: "nat \<Rightarrow> descriptor list \<Rightarrow> int \<times> descriptor list" where
  "reserve_descriptor corr ds =
     (case List.find (\<lambda>d. \<not> ds_active d) ds of
        Some found \<Rightarrow>
          (ds_descriptor found,
           update_first (\<lambda>d. \<not> ds_active d) (\<lambda>d. d\<lparr>ds_active := True, ds_correlation := corr\<rparr>) ds)
      | None \<Rightarrow>
          (ds_descriptor (last ds) + 1,
           ds @ [(call_descriptor (ds_descriptor (last ds) + 1) True)\<lparr>ds_correlation := corr\<rparr>]))"

definition call_unreserve :: "int \<Rightarrow> (call_state, unit) act" where
  "call_unreserve d =
     act_bind (act_get (\<lambda>s. List.find (\<lambda>x. ds_descriptor x = d) (cl_descriptors s))) (\<lambda>found.
       case found of
         None \<Rightarrow> act_raise (Xatmi_raised Tp_descriptor)
       | Some _ \<Rightarrow> act_upd (\<lambda>s. s\<lparr>cl_descriptors :=
           update_first (\<lambda>x. ds_descriptor x = d) (\<lambda>x. x\<lparr>ds_active := False\<rparr>) (cl_descriptors s)\<rparr>))"

definition descriptor_active :: "int \<Rightarrow> call_state \<Rightarrow> bool" where
  "descriptor_active d s =
     (case List.find (\<lambda>x. ds_descriptor x = d) (cl_descriptors s) of None \<Rightarrow> False | Some x \<Rightarrow> ds_active x)"

definition pending_get :: "int \<Rightarrow> (call_state, descriptor) act" where
  "pending_get d =
     act_bind (act_get (\<lambda>s. List.find (\<lambda>x. ds_descriptor x = d) (cl_descriptors s))) (\<lambda>found.
       case found of
         Some x \<Rightarrow> if ds_active x then act_ret x else act_raise (Xatmi_raised Tp_descriptor)
       | None \<Rightarrow> act_raise (Xatmi_raised Tp_descriptor))"

definition pending_find :: "nat \<Rightarrow> (call_state, descriptor) act" where
  "pending_find corr =
     act_bind (act_get (\<lambda>s. List.find (\<lambda>x. ds_correlation x = corr) (cl_descriptors s))) (\<lambda>found.
       case found of
         Some x \<Rightarrow> if ds_active x then act_ret x else act_raise (Xatmi_raised Tp_descriptor)
       | None \<Rightarrow> act_raise (Xatmi_raised Tp_descriptor))"

text \<open>\<open>Pending::discard\<close>, \<open>Context::cancel\<close>.\<close>

definition call_cancel :: "int \<Rightarrow> (call_state, unit) act" where
  "call_cancel d =
     act_bind (pending_get d) (\<lambda>x.
     act_bind (act_get (\<lambda>s. cx_associated (ds_correlation x) (cl_ctx s))) (\<lambda>associated.
       if associated then act_raise (Xatmi_raised Tp_transaction)
       else act_then (act_upd (cl_event (Reply_discarded (ds_correlation x)))) (call_unreserve d)))"

definition calls_idle :: "call_state \<Rightarrow> bool" where
  "calls_idle s \<longleftrightarrow> list_all (\<lambda>d. \<not> ds_active d) (cl_descriptors s)"

definition call_pending :: "call_state \<Rightarrow> bool" where
  "call_pending s \<longleftrightarrow> \<not> calls_idle s"

section \<open>The lookup of a service\<close>

datatype look_state = Look_idle | Look_busy | Look_absent

record look_reply =
  lk_state :: look_state
  lk_service :: string
  lk_process :: handle

datatype call_flag = No_transaction | No_reply | No_block | Any_reply

text \<open>
  The world of a call: the correlation of the lookup, whether the service manager can be reached,
  its answers (the second one when the service was busy), whether the instance can be reached, and
  what the service manager says when a pending lookup is taken back: whether it had replied, or
  \<open>None\<close> when it cannot be reached.
\<close>

record call_env =
  la_correlation :: nat
  la_manager :: bool
  la_first :: look_reply
  la_second :: look_reply
  la_instance :: "handle \<Rightarrow> bool"
  la_dropped :: "bool option"

text \<open>\<open>local::prepare::lookup\<close>: the lookup is sent, with the deadline of the current transaction.\<close>

definition lookup_send :: "call_env \<Rightarrow> string \<Rightarrow> look_context \<Rightarrow> int option \<Rightarrow> (call_state, unit) act" where
  "lookup_send e service context deadline =
     (if la_manager e then act_upd (cl_event (Lookup_sent service context deadline))
      else act_raise Comm_unavailable)"

definition prepare_lookup :: "call_env \<Rightarrow> string \<Rightarrow> call_flag set \<Rightarrow> (call_state, unit) act" where
  "prepare_lookup e service flags =
     act_bind (act_get (\<lambda>s. cx_current (cl_ctx s))) (\<lambda>t.
       let context = (if No_reply \<in> flags then Lookup_forward else Lookup_regular)
       in if \<not> trid_null (ct_trid t) \<and> No_transaction \<notin> flags
          then (if No_reply \<in> flags then act_raise (Xatmi_raised Tp_argument)
                else lookup_send e service context (ct_deadline t))
          else lookup_send e service context None)"

text \<open>\<open>Lookup::operator()\<close> on one answer: whether the lookup is done.\<close>

definition lookup_update :: "look_reply \<Rightarrow> (call_state, look_reply) act" where
  "lookup_update r = (if lk_state r = Look_absent then act_raise (Xatmi_raised Tp_no_entry) else act_ret r)"

text \<open>\<open>~Lookup\<close>: a lookup that is pending is taken back; exceptions are logged.\<close>

definition lookup_drop :: "call_env \<Rightarrow> call_state \<Rightarrow> call_state" where
  "lookup_drop e s =
     (let s1 = cl_event (Lookup_dropped (la_correlation e)) s
      in if la_dropped e = Some True then cl_event (Reply_discarded (la_correlation e)) s1 else s1)"

section \<open>Calls\<close>

text \<open>\<open>local::prepare::message\<close>: the descriptor (0 without a reply) and the transaction.\<close>

definition prepare_message :: "call_env \<Rightarrow> call_flag set \<Rightarrow> (call_state, int \<times> trid) act" where
  "prepare_message e flags =
     (if No_reply \<in> flags then act_ret (0, null_trid)
      else act_bind (act_state (\<lambda>s. case reserve_descriptor (la_correlation e) (cl_descriptors s) of
                       (d, ds) \<Rightarrow> (d, s\<lparr>cl_descriptors := ds\<rparr>))) (\<lambda>d.
           act_bind (act_get (\<lambda>s. cx_current (cl_ctx s))) (\<lambda>t.
             if No_transaction \<notin> flags \<and> \<not> trid_null (ct_trid t)
             then act_then (act_upd (\<lambda>s. s\<lparr>cl_ctx := cx_call (la_correlation e) (cl_ctx s)\<rparr>)) (act_ret (d, ct_trid t))
             else act_ret (d, null_trid))))"

text \<open>A scope that unreserves the descriptor when the rest raises, and logs what that raises.\<close>

definition unreserve_on_fault :: "int \<Rightarrow> (call_state, 'a) act \<Rightarrow> (call_state, 'a) act" where
  "unreserve_on_fault d f s =
     (case f s of
        (Inr x, s') \<Rightarrow> (Inr x, s')
      | (Inl c, s') \<Rightarrow> (Inl c, snd (call_unreserve d s')))"

definition call_send :: "call_env \<Rightarrow> look_reply \<Rightarrow> trid \<Rightarrow> call_flag set \<Rightarrow> (call_state, unit) act" where
  "call_send e target t flags =
     (if la_instance e (lk_process target)
      then act_upd (cl_event (Call_sent \<lparr>cr_target = lk_process target, cr_service = lk_service target,
             cr_correlation = la_correlation e, cr_trid = t, cr_wants_reply = (No_reply \<notin> flags)\<rparr>))
      else act_raise Comm_unavailable)"

text \<open>\<open>Context::async\<close> after the lookup is sent. The lookup is pending until an answer other than
  busy has come.\<close>

definition async_prepared :: "call_env \<Rightarrow> call_flag set \<Rightarrow> int \<Rightarrow> trid \<Rightarrow> (call_state, unit) act" where
  "async_prepared e flags d t =
     unreserve_on_fault d
       (act_bind (if lk_state (la_first e) = Look_busy then lookup_update (la_second e) else act_ret (la_first e))
         (\<lambda>target. call_send e target t flags))"

definition lookup_answers :: "call_env \<Rightarrow> look_state list" where
  "lookup_answers e =
     (if lk_state (la_first e) = Look_busy then [Look_busy, lk_state (la_second e)] else [lk_state (la_first e)])"

definition call_async :: "call_env \<Rightarrow> string \<Rightarrow> call_flag set \<Rightarrow> (call_state, int) act" where
  "call_async e service flags =
     act_then (prepare_lookup e service flags)
       (\<lambda>s. case act_then (lookup_update (la_first e))
                  (act_bind (prepare_message e flags) (\<lambda>(d, t).
                     act_then (async_prepared e flags d t) (act_ret d))) s of
              (r, s') \<Rightarrow> (r, if last (lookup_answers e) = Look_busy then lookup_drop e s' else s'))"

section \<open>Replies\<close>

record call_reply =
  rp_correlation :: nat
  rp_trid :: trid
  rp_state :: reply_state
  rp_code :: xatmi
  rp_user :: int
  rp_buffer :: bytes

text \<open>\<open>reply::Result\<close>; the flag tells the exception \<open>call::Fail\<close>, which carries it too.\<close>

record call_result =
  ro_descriptor :: int
  ro_user :: int
  ro_buffer :: bytes
  ro_failed :: bool

text \<open>The reply in the inbound device for a correlation, or any; \<open>None\<close> when there is none and the
  receive does not block.\<close>

type_synonym inbound = "nat option \<Rightarrow> call_reply option"

definition receive_reply :: "inbound \<Rightarrow> nat option \<Rightarrow> (call_state, call_reply) act" where
  "receive_reply inbound corr =
     (case inbound corr of None \<Rightarrow> act_raise (Xatmi_raised Tp_no_message) | Some r \<Rightarrow> act_ret r)"

definition get_reply :: "inbound \<Rightarrow> int \<Rightarrow> call_flag set \<Rightarrow> (call_state, call_reply \<times> int) act" where
  "get_reply inbound d flags =
     (if Any_reply \<in> flags
      then act_bind (receive_reply inbound None) (\<lambda>r.
           act_bind (pending_find (rp_correlation r)) (\<lambda>x. act_ret (r, ds_descriptor x)))
      else act_bind (pending_get d) (\<lambda>x.
           act_bind (receive_reply inbound (Some (ds_correlation x))) (\<lambda>r. act_ret (r, ds_descriptor x))))"

definition in_ctx :: "(ctx, 'a) act \<Rightarrow> (call_state, 'a) act" where
  "in_ctx f s = (case f (cl_ctx s) of (r, c) \<Rightarrow> (r, s\<lparr>cl_ctx := c\<rparr>))"

text \<open>The descriptor is unreserved at the end, whatever the outcome.\<close>

definition finally_unreserve :: "int \<Rightarrow> (call_state, 'a) act \<Rightarrow> (call_state, 'a) act" where
  "finally_unreserve d f s = (case f s of (r, s') \<Rightarrow> (r, snd (call_unreserve d s')))"

definition call_fetch :: "inbound \<Rightarrow> int \<Rightarrow> call_flag set \<Rightarrow> (call_state, call_result) act" where
  "call_fetch inbound d flags =
     act_bind (get_reply inbound d flags) (\<lambda>(r, found).
       finally_unreserve found
         (act_then (in_ctx (cx_update (rp_trid r) (rp_state r) (rp_correlation r)))
           (if rp_code r = Tp_ok \<or> rp_code r = Tp_service_fail
            then act_ret \<lparr>ro_descriptor = found, ro_user = rp_user r, ro_buffer = rp_buffer r,
                          ro_failed = (rp_code r = Tp_service_fail)\<rparr>
            else act_raise (Xatmi_raised (rp_code r)))))"

text \<open>\<open>Context::sync\<close>.\<close>

definition call_sync :: "call_env \<Rightarrow> inbound \<Rightarrow> string \<Rightarrow> call_flag set \<Rightarrow> (call_state, call_result) act" where
  "call_sync e inbound service flags =
     act_bind (call_async e service (flags - {No_block})) (\<lambda>d. call_fetch inbound d (flags - {No_block}))"

end
