(* ===== verification/CallProperties.thy ===== *)
theory CallProperties
  imports CallState CtxProperties
begin

text \<open>
  The descriptors of calls, and how calls and their replies meet the transaction of the caller.
\<close>

section \<open>Descriptors\<close>

text \<open>The descriptors are 1, 2, ... in order, so none is there twice.\<close>

definition descriptors_ok :: "descriptor list \<Rightarrow> bool" where
  "descriptors_ok ds \<longleftrightarrow> ds \<noteq> [] \<and> map ds_descriptor ds = map int [1..<Suc (length ds)]"

definition calls_ok :: "call_state \<Rightarrow> bool" where
  "calls_ok s \<longleftrightarrow> descriptors_ok (cl_descriptors s)"

definition active_descriptors :: "call_state \<Rightarrow> int set" where
  "active_descriptors s = ds_descriptor ` {d \<in> set (cl_descriptors s). ds_active d}"

lemma descriptors_distinct: "descriptors_ok ds \<Longrightarrow> distinct (map ds_descriptor ds)"
  by (simp add: descriptors_ok_def distinct_map)

lemma initial_calls_ok: "calls_ok (initial_calls c)"
  by (simp add: calls_ok_def initial_calls_def descriptors_ok_def call_descriptor_def upt_conv_Cons)

lemma update_first_same:
  "(\<And>x. P x \<Longrightarrow> g (f x) = g x) \<Longrightarrow> descriptors_ok ds \<Longrightarrow> g = ds_descriptor \<Longrightarrow> descriptors_ok (update_first P f ds)"
  by (cases ds) (auto simp: descriptors_ok_def map_update_first simp del: upt_Suc)

lemma find_split:
  assumes "List.find P xs = Some x"
  obtains us vs where "xs = us @ x # vs" "\<forall>u\<in>set us. \<not> P u" "P x"
proof -
  from assms obtain i where i: "i < length xs" "P (xs ! i)" "x = xs ! i" "\<forall>j<i. \<not> P (xs ! j)"
    by (auto simp: find_Some_iff)
  have "xs = take i xs @ x # drop (Suc i) xs" using i(1,3) by (simp add: id_take_nth_drop)
  moreover have "\<forall>u\<in>set (take i xs). \<not> P u" using i(1,4) by (auto simp: in_set_conv_nth)
  ultimately show ?thesis using that i(2,3) by blast
qed

text \<open>A reservation gives a descriptor that was not active.\<close>

lemma reserve_spec:
  assumes ok: "descriptors_ok ds" and r: "reserve_descriptor corr ds = (d, ds')"
  shows "descriptors_ok ds'" "\<exists>us x vs. ds' = us @ x # vs \<and> ds_descriptor x = d \<and> ds_active x \<and> ds_correlation x = corr
      \<and> (\<forall>y\<in>set (us @ vs). ds_descriptor y \<noteq> d)
      \<and> (ds = us @ vs \<or> (\<exists>c. ds = us @ \<lparr>ds_descriptor = d, ds_active = False, ds_correlation = c\<rparr> # vs))"
proof -
  show ok': "descriptors_ok ds'"
  proof (cases "List.find (\<lambda>d. \<not> ds_active d) ds")
    case (Some x)
    then have "ds' = update_first (\<lambda>d. \<not> ds_active d) (\<lambda>d. d\<lparr>ds_active := True, ds_correlation := corr\<rparr>) ds"
      using r by (simp add: reserve_descriptor_def)
    then show ?thesis using update_first_same [OF _ ok refl] by simp
  next
    case None
    have l: "ds_descriptor (last ds) = int (length ds)"
    proof -
      have ne: "ds \<noteq> []" and m: "map ds_descriptor ds = map int [1..<Suc (length ds)]" using ok by (simp_all add: descriptors_ok_def)
      have "ds_descriptor (last ds) = last (map ds_descriptor ds)" using ne by (simp add: last_map)
      also have "\<dots> = int (last [1..<Suc (length ds)])" unfolding m using ne by (simp add: last_map Suc_le_eq)
      also have "\<dots> = int (length ds)" using ne by (simp add: Suc_le_eq)
      finally show ?thesis .
    qed
    then show ?thesis using None r ok by (auto simp: reserve_descriptor_def descriptors_ok_def call_descriptor_def)
  qed
  show "\<exists>us x vs. ds' = us @ x # vs \<and> ds_descriptor x = d \<and> ds_active x \<and> ds_correlation x = corr
      \<and> (\<forall>y\<in>set (us @ vs). ds_descriptor y \<noteq> d)
      \<and> (ds = us @ vs \<or> (\<exists>c. ds = us @ \<lparr>ds_descriptor = d, ds_active = False, ds_correlation = c\<rparr> # vs))"
  proof (cases "List.find (\<lambda>d. \<not> ds_active d) ds")
    case (Some x)
    then obtain us vs where s: "ds = us @ x # vs" "\<forall>u\<in>set us. \<not> \<not> ds_active u" "\<not> ds_active x"
      by (rule find_split)
    have d: "d = ds_descriptor x" "ds' = us @ x\<lparr>ds_active := True, ds_correlation := corr\<rparr> # vs"
      using r Some s by (auto simp: reserve_descriptor_def update_first_split)
    have "\<forall>y\<in>set (us @ vs). ds_descriptor y \<noteq> d"
      using descriptors_distinct [OF ok] s(1) d(1) by (auto simp: image_iff)
    moreover have "x = \<lparr>ds_descriptor = d, ds_active = False, ds_correlation = ds_correlation x\<rparr>" using s(3) d(1) by (cases x) simp
    ultimately show ?thesis using s(1) d(2) d(1)
      by (intro exI [of _ us] exI [of _ "x\<lparr>ds_active := True, ds_correlation := corr\<rparr>"] exI [of _ vs]) auto
  next
    case None
    then have n: "d = ds_descriptor (last ds) + 1" "ds' = ds @ [(call_descriptor d True)\<lparr>ds_correlation := corr\<rparr>]"
      using r by (auto simp: reserve_descriptor_def)
    have "\<forall>y\<in>set ds. ds_descriptor y \<noteq> d"
      using descriptors_distinct [OF ok'] n(2) by (auto simp: call_descriptor_def image_iff)
    then show ?thesis using n(2) by (intro exI [of _ ds] exI [of _ "(call_descriptor d True)\<lparr>ds_correlation := corr\<rparr>"] exI [of _ "[]"])
        (simp add: call_descriptor_def)
  qed
qed

lemma unreserve_split:
  assumes "cl_descriptors s = us @ x # vs" and "ds_descriptor x = d" and "\<forall>y\<in>set us. ds_descriptor y \<noteq> d"
  shows "call_unreserve d s = (Inr (), s\<lparr>cl_descriptors := us @ x\<lparr>ds_active := False\<rparr> # vs\<rparr>)"
proof -
  have "List.find (\<lambda>x. ds_descriptor x = d) (us @ x # vs) = Some x"
    using assms(2,3) by (induction us) auto
  then show ?thesis using assms by (simp add: call_unreserve_def act_defs update_first_split)
qed

lemma unreserve_unknown: "\<forall>y\<in>set (cl_descriptors s). ds_descriptor y \<noteq> d \<Longrightarrow> snd (call_unreserve d s) = s"
  by (cases "List.find (\<lambda>x. ds_descriptor x = d) (cl_descriptors s)") (auto simp: call_unreserve_def act_defs find_Some_iff)

section \<open>A call that fails\<close>

lemma lookup_drop_fields [simp]:
  "cl_descriptors (lookup_drop e s) = cl_descriptors s" "cl_ctx (lookup_drop e s) = cl_ctx s"
  by (simp_all add: lookup_drop_def cl_event_def Let_def)

lemma event_fields [simp]: "cl_descriptors (cl_event v s) = cl_descriptors s" "cl_ctx (cl_event v s) = cl_ctx s"
  by (simp_all add: cl_event_def)

lemma prepare_lookup_fields:
  assumes "prepare_lookup e service flags s = (r, s')"
  shows "cl_descriptors s' = cl_descriptors s" "cl_ctx s' = cl_ctx s"
  using assms by (auto simp: prepare_lookup_def lookup_send_def act_defs Let_def split: if_splits)

definition async_rest :: "call_env \<Rightarrow> call_flag set \<Rightarrow> trid \<Rightarrow> (call_state, unit) act" where
  "async_rest e flags t =
     act_bind (if lk_state (la_first e) = Look_busy then lookup_update (la_second e) else act_ret (la_first e))
         (\<lambda>target. call_send e target t flags)"

lemma async_rest_fields:
  "async_rest e flags t s = (r, s') \<Longrightarrow> cl_descriptors s' = cl_descriptors s \<and> cl_ctx s' = cl_ctx s"
  by (auto simp: async_rest_def lookup_update_def call_send_def act_defs split: if_splits)

lemma prepare_message_result:
  assumes "No_reply \<notin> flags"
  shows "\<exists>d t s1. prepare_message e flags s = (Inr (d, t), s1)"
proof -
  obtain d ds where "reserve_descriptor (la_correlation e) (cl_descriptors s) = (d, ds)" by fastforce
  then show ?thesis using assms by (simp add: prepare_message_def act_defs act_state_def)
qed

lemma prepare_message_fields:
  assumes ok: "calls_ok s" and "prepare_message e flags s = (Inr (d, t), s')" and "No_reply \<notin> flags"
  shows "calls_ok s'" "\<exists>us x vs. cl_descriptors s' = us @ x # vs \<and> ds_descriptor x = d \<and> ds_active x
      \<and> ds_correlation x = la_correlation e \<and> (\<forall>y\<in>set (us @ vs). ds_descriptor y \<noteq> d)
      \<and> (cl_descriptors s = us @ vs
         \<or> (\<exists>c. cl_descriptors s = us @ \<lparr>ds_descriptor = d, ds_active = False, ds_correlation = c\<rparr> # vs))"
    "t = (if No_transaction \<in> flags \<or> trid_null (ct_trid (cx_current (cl_ctx s))) then null_trid else ct_trid (cx_current (cl_ctx s)))"
    "cl_ctx s' = (if No_transaction \<in> flags then cl_ctx s else cx_call (la_correlation e) (cl_ctx s))"
proof -
  obtain d' ds where r: "reserve_descriptor (la_correlation e) (cl_descriptors s) = (d', ds)" by fastforce
  have f: "d' = d \<and> cl_descriptors s' = ds \<and>
      t = (if No_transaction \<in> flags \<or> trid_null (ct_trid (cx_current (cl_ctx s))) then null_trid else ct_trid (cx_current (cl_ctx s))) \<and>
      cl_ctx s' = (if No_transaction \<in> flags then cl_ctx s else cx_call (la_correlation e) (cl_ctx s))"
    using assms(2,3) r by (auto simp: prepare_message_def act_defs act_state_def cx_call_def split: if_splits)
  then show "t = (if No_transaction \<in> flags \<or> trid_null (ct_trid (cx_current (cl_ctx s))) then null_trid else ct_trid (cx_current (cl_ctx s)))"
    "cl_ctx s' = (if No_transaction \<in> flags then cl_ctx s else cx_call (la_correlation e) (cl_ctx s))" by simp_all
  show "calls_ok s'" using reserve_spec(1) [OF _ r] ok f by (simp add: calls_ok_def)
  show "\<exists>us x vs. cl_descriptors s' = us @ x # vs \<and> ds_descriptor x = d \<and> ds_active x
      \<and> ds_correlation x = la_correlation e \<and> (\<forall>y\<in>set (us @ vs). ds_descriptor y \<noteq> d)
      \<and> (cl_descriptors s = us @ vs
         \<or> (\<exists>c. cl_descriptors s = us @ \<lparr>ds_descriptor = d, ds_active = False, ds_correlation = c\<rparr> # vs))"
    using reserve_spec(2) [OF _ r] ok f by (simp add: calls_ok_def)
qed

text \<open>What is left of a call that fails, and of one that is made.\<close>

definition async_left :: "call_env \<Rightarrow> call_flag set \<Rightarrow> call_state \<Rightarrow> fault + int \<Rightarrow> call_state \<Rightarrow> bool" where
  "async_left e flags s r s' \<longleftrightarrow> calls_ok s' \<and> (case r of
      Inl c \<Rightarrow> active_descriptors s' = active_descriptors s
    | Inr d \<Rightarrow> No_reply \<notin> flags \<longrightarrow> d \<notin> active_descriptors s \<and> active_descriptors s' = insert d (active_descriptors s)
        \<and> (\<exists>us x vs. cl_descriptors s' = us @ x # vs \<and> ds_descriptor x = d \<and> ds_active x
             \<and> ds_correlation x = la_correlation e \<and> (\<forall>y\<in>set (us @ vs). ds_descriptor y \<noteq> d))
        \<and> cl_ctx s' = (if No_transaction \<in> flags then cl_ctx s else cx_call (la_correlation e) (cl_ctx s)))"

lemma async_left_cong:
  assumes "cl_descriptors s1 = cl_descriptors s" "cl_ctx s1 = cl_ctx s" "cl_descriptors s2 = cl_descriptors s'" "cl_ctx s2 = cl_ctx s'"
  shows "async_left e flags s1 r s2 = async_left e flags s r s'"
  unfolding async_left_def calls_ok_def active_descriptors_def assms ..

lemma known_descriptors: "calls_ok s \<Longrightarrow> y \<in> set (cl_descriptors s) \<Longrightarrow> 0 < ds_descriptor y"
proof -
  assume "calls_ok s" "y \<in> set (cl_descriptors s)"
  then have "ds_descriptor y \<in> set (map int [1..<Suc (length (cl_descriptors s))])"
    by (metis calls_ok_def descriptors_ok_def image_eqI set_map)
  then show "0 < ds_descriptor y" by auto
qed

lemma async_body:
  assumes ok: "calls_ok s"
    and run: "act_bind (prepare_message e flags) (\<lambda>(d, t). act_then (async_prepared e flags d t) (act_ret d)) s = (r, s')"
  shows "async_left e flags s r s'"
proof (cases "No_reply \<in> flags")
  case True
  then have m: "prepare_message e flags s = (Inr (0, null_trid), s)" by (simp add: prepare_message_def act_ret_def)
  have zero: "snd (call_unreserve 0 s1) = s1" if "cl_descriptors s1 = cl_descriptors s" for s1
    by (rule unreserve_unknown) (use known_descriptors [OF ok] that in force)
  obtain q s1 where q: "async_rest e flags null_trid s = (q, s1)" by fastforce
  note f = async_rest_fields [OF q]
  have "s' = s1"
    using run m q zero [of s1] f
    by (cases q) (auto simp: async_prepared_def unreserve_on_fault_def async_rest_def [symmetric] act_then_def act_bind_def act_ret_def)
  then show ?thesis
    using f ok True by (auto simp: async_left_def calls_ok_def active_descriptors_def split: sum.split)
next
  case False
  obtain d t s1 where m: "prepare_message e flags s = (Inr (d, t), s1)"
    using prepare_message_result [OF False] by blast
  note pm = prepare_message_fields [OF ok m False]
  from pm(2) obtain us x vs where x: "cl_descriptors s1 = us @ x # vs" "ds_descriptor x = d" "ds_active x"
    "ds_correlation x = la_correlation e" "\<forall>y\<in>set (us @ vs). ds_descriptor y \<noteq> d"
    "cl_descriptors s = us @ vs \<or> (\<exists>c. cl_descriptors s = us @ \<lparr>ds_descriptor = d, ds_active = False, ds_correlation = c\<rparr> # vs)"
    by blast
  let ?others = "ds_descriptor ` {y \<in> set (us @ vs). ds_active y}"
  have before: "active_descriptors s = ?others" using x(6) by (auto simp: active_descriptors_def)
  have fresh: "d \<notin> ?others" using x(5) by auto
  obtain q s2 where q: "async_rest e flags t s1 = (q, s2)" by fastforce
  note f = async_rest_fields [OF q]
  show ?thesis
  proof (cases q)
    case (Inr u)
    then have "r = Inr d" "s' = s2"
      using run m q by (auto simp: async_prepared_def unreserve_on_fault_def async_rest_def [symmetric] act_then_def act_bind_def act_ret_def)
    moreover have "active_descriptors s2 = insert d ?others" using f x(1-3) by (auto simp: active_descriptors_def)
    moreover have "calls_ok s2" using pm(1) f by (simp add: calls_ok_def)
    ultimately show ?thesis
      using before fresh pm(4) f x by (auto simp: async_left_def)
  next
    case (Inl c)
    have un: "call_unreserve d s2 = (Inr (), s2\<lparr>cl_descriptors := us @ x\<lparr>ds_active := False\<rparr> # vs\<rparr>)"
      by (rule unreserve_split) (use f x in auto)
    have "r = Inl c" "s' = s2\<lparr>cl_descriptors := us @ x\<lparr>ds_active := False\<rparr> # vs\<rparr>"
      using run m q Inl un by (auto simp: async_prepared_def unreserve_on_fault_def async_rest_def [symmetric] act_then_def act_bind_def)
    moreover have "descriptors_ok (us @ x\<lparr>ds_active := False\<rparr> # vs)"
      using pm(1) x(1) by (simp add: calls_ok_def descriptors_ok_def)
    ultimately show ?thesis
      using before x(2) by (auto simp: async_left_def calls_ok_def active_descriptors_def)
  qed
qed

lemma async_outcome:
  assumes ok: "calls_ok s" and run: "call_async e service flags s = (r, s')"
  shows "async_left e flags s r s'"
proof -
  obtain p s1 where p: "prepare_lookup e service flags s = (p, s1)" by fastforce
  note pf = prepare_lookup_fields [OF p]
  have ok1: "calls_ok s1" using ok pf by (simp add: calls_ok_def)
  show ?thesis
  proof (cases p)
    case (Inl c)
    then have "r = Inl c" "s' = s1" using run p by (auto simp: call_async_def act_then_def act_bind_def)
    then show ?thesis using ok pf by (simp add: async_left_def calls_ok_def active_descriptors_def)
  next
    case (Inr u)
    let ?body = "act_bind (prepare_message e flags) (\<lambda>(d, t). act_then (async_prepared e flags d t) (act_ret d))"
    obtain q s2 where q: "act_then (lookup_update (la_first e)) ?body s1 = (q, s2)" by fastforce
    have s': "r = q" "s' = (if last (lookup_answers e) = Look_busy then lookup_drop e s2 else s2)"
      using run p Inr q by (auto simp: call_async_def act_then_def act_bind_def)
    have "async_left e flags s1 q s2"
    proof (cases "lk_state (la_first e) = Look_absent")
      case True
      then have "q = Inl (Xatmi_raised Tp_no_entry)" "s2 = s1"
        using q by (auto simp: lookup_update_def act_then_def act_bind_def act_raise_def)
      then show ?thesis using ok1 by (simp add: async_left_def)
    next
      case False
      then have "?body s1 = (q, s2)" using q by (simp add: lookup_update_def act_then_def act_bind_def act_ret_def)
      then show ?thesis by (rule async_body [OF ok1])
    qed
    then show ?thesis unfolding s'(1) using async_left_cong [of s1 s s2 s' e flags q] pf s'(2) by simp
  qed
qed

section \<open>Calls and the transaction of the caller\<close>

lemma current_called:
  assumes "\<not> trid_null (ct_trid (cx_current c))"
  shows "cx_current (cx_call corr c) = ct_associate corr (cx_current c)"
  using current_set_twice [of "ct_associate corr (cx_current c)" c] assms by (simp add: cx_call_def ct_associate_def)

text \<open>
  C22. A call in a transaction whose instance is gone raises and releases its descriptor, but the
  transaction still waits for the reply: from then on \<open>tx_commit\<close> answers \<open>TX_PROTOCOL_ERROR\<close>, while
  there is no active descriptor left to fetch or cancel.
\<close>

theorem failed_call_blocks_commit:
  assumes ok: "calls_ok s" and none: "active_descriptors s = {}"
    and lookup: "la_manager e" "lk_state (la_first e) = Look_idle" "\<not> la_instance e (lk_process (la_first e))"
    and flags: "No_reply \<notin> flags" "No_transaction \<notin> flags"
    and t: "\<not> trid_null (ct_trid (cx_current (cl_ctx s)))"
  shows "\<exists>s'. call_async e service flags s = (Inl Comm_unavailable, s') \<and> active_descriptors s' = {}
    \<and> la_correlation e \<in> set (ct_pending (cx_current (cl_ctx s')))
    \<and> tx_commit ce (cl_ctx s') = (Tx_protocol, cl_ctx s')
    \<and> call_cancel d s' = (Inl (Xatmi_raised Tp_descriptor), s') \<and> fst (call_fetch inbound d {} s') = Inl (Xatmi_raised Tp_descriptor)"
proof -
  obtain r s' where run: "call_async e service flags s = (r, s')" by fastforce
  obtain s1 where p: "prepare_lookup e service flags s = (Inr (), s1)"
    using lookup(1) flags t by (auto simp: prepare_lookup_def lookup_send_def act_defs Let_def)
  note pf = prepare_lookup_fields [OF p]
  obtain i u s2 where m: "prepare_message e flags s1 = (Inr (i, u), s2)" using prepare_message_result [OF flags(1)] by blast
  have ok1: "calls_ok s1" using ok pf by (simp add: calls_ok_def)
  note pm = prepare_message_fields [OF ok1 m flags(1)]
  have fail: "call_send e (la_first e) u flags s2 = (Inl Comm_unavailable, s2)"
    using lookup(3) by (simp add: call_send_def act_defs)
  have "call_async e service flags s = (Inl Comm_unavailable, snd (call_unreserve i s2))"
    using p m fail lookup(2)
    by (simp add: call_async_def lookup_update_def async_prepared_def unreserve_on_fault_def lookup_answers_def act_defs)
  then have r: "r = Inl Comm_unavailable" "s' = snd (call_unreserve i s2)" using run by simp_all
  have "cl_ctx s' = cl_ctx s2"
    using r(2) by (simp add: call_unreserve_def act_defs split: option.split)
  then have c: "cl_ctx s' = cx_call (la_correlation e) (cl_ctx s)" using pm(4) pf flags(2) by simp
  have cur: "cx_current (cl_ctx s') = ct_associate (la_correlation e) (cx_current (cl_ctx s))"
    unfolding c by (rule current_called [OF t])
  have none': "active_descriptors s' = {}"
    using async_outcome [OF ok run] none by (simp add: r(1) async_left_def)
  have inactive: "\<not> ds_active x" if "List.find (\<lambda>x. ds_descriptor x = d) (cl_descriptors s') = Some x" for x
    using none' that by (auto simp: active_descriptors_def find_Some_iff)
  have get: "pending_get d s' = (Inl (Xatmi_raised Tp_descriptor), s')"
    using inactive by (auto simp: pending_get_def act_defs split: option.split)
  have pend: "ct_pending (cx_current (cl_ctx s')) \<noteq> []" "ct_trid (cx_current (cl_ctx s')) = ct_trid (cx_current (cl_ctx s))"
    unfolding cur by (simp_all add: ct_associate_def)
  have "tx_commit ce (cl_ctx s') = (Tx_protocol, cl_ctx s')"
    using pend t by (simp add: tx_commit_def tx_wrap_def cx_commit_def commit_transaction_def act_defs)
  moreover have "la_correlation e \<in> set (ct_pending (cx_current (cl_ctx s')))" unfolding cur by (simp add: ct_associate_def)
  ultimately show ?thesis
    using run r(1) none' get by (simp add: call_cancel_def call_fetch_def get_reply_def act_bind_def)
qed

definition gone_env :: call_env where
  "gone_env = \<lparr>la_correlation = 4, la_manager = True,
     la_first = \<lparr>lk_state = Look_idle, lk_service = ''a'', lk_process = \<lparr>hpid = 2, hipc = 2\<rparr>\<rparr>,
     la_second = \<lparr>lk_state = Look_idle, lk_service = ''a'', lk_process = \<lparr>hpid = 2, hipc = 2\<rparr>\<rparr>,
     la_instance = (\<lambda>_. False), la_dropped = None\<rparr>"

definition sample_calls :: call_state where
  "sample_calls = initial_calls (snd (cx_begin (calm_env 1) (configured [] [plain_resource 7])))"

lemma sample_calls_facts:
  "calls_ok sample_calls" "active_descriptors sample_calls = {}" "\<not> trid_null (ct_trid (cx_current (cl_ctx sample_calls)))"
  by (simp add: sample_calls_def initial_calls_ok)
    (auto simp: active_descriptors_def sample_calls_def initial_calls_def call_descriptor_def ctx_eval)

theorem failed_call_blocks_commit_witness:
  "\<exists>s'. call_async gone_env ''a'' {} sample_calls = (Inl Comm_unavailable, s') \<and> fst (tx_commit (calm_env 2) (cl_ctx s')) = Tx_protocol"
proof -
  have e: "la_manager gone_env" "lk_state (la_first gone_env) = Look_idle"
    "\<not> la_instance gone_env (lk_process (la_first gone_env))" by (simp_all add: gone_env_def)
  have flags: "No_reply \<notin> {}" "No_transaction \<notin> {}" by simp_all
  from failed_call_blocks_commit [OF sample_calls_facts(1,2) e flags sample_calls_facts(3), of "''a''" "calm_env 2"]
  show ?thesis by fastforce
qed

text \<open>
  C23. A call in a transaction and the reply to it: the descriptor is one that was free, and after the
  reply is fetched it is free again, the transaction waits for what it waited for before and stays
  active; it counts as distributed from then on.
\<close>

theorem call_roundtrip:
  assumes ok: "calls_ok s" and ctx: "ctx_ok self (cl_ctx s)" and run: "call_async e service flags s = (Inr d, s1)"
    and flags: "No_reply \<notin> flags" "No_transaction \<notin> flags"
    and t: "\<not> trid_null (ct_trid (cx_current (cl_ctx s)))" "la_correlation e \<notin> set (ct_pending (cx_current (cl_ctx s)))"
    and reply: "inbound (Some (la_correlation e)) = Some r" "rp_correlation r = la_correlation e"
      "rp_trid r = ct_trid (cx_current (cl_ctx s))" "rp_state r = Reply_active" "rp_code r = Tp_ok"
  shows "\<exists>s2. d \<notin> active_descriptors s \<and> active_descriptors s1 = insert d (active_descriptors s)
    \<and> call_fetch inbound d {} s1 = (Inr \<lparr>ro_descriptor = d, ro_user = rp_user r, ro_buffer = rp_buffer r, ro_failed = False\<rparr>, s2)
    \<and> active_descriptors s2 = active_descriptors s
    \<and> cx_current (cl_ctx s2) = (cx_current (cl_ctx s))\<lparr>ct_external := True\<rparr>"
proof -
  let ?c = "cl_ctx s" and ?corr = "la_correlation e"
  have left: "async_left e flags s (Inr d) s1" by (rule async_outcome [OF ok run])
  then have a: "d \<notin> active_descriptors s" "active_descriptors s1 = insert d (active_descriptors s)"
    "cl_ctx s1 = cx_call ?corr ?c" "calls_ok s1"
    using flags by (simp_all add: async_left_def)
  from left flags obtain us x vs where x: "cl_descriptors s1 = us @ x # vs" "ds_descriptor x = d" "ds_active x"
    "ds_correlation x = ?corr" "\<forall>y\<in>set (us @ vs). ds_descriptor y \<noteq> d"
    by (auto simp: async_left_def)
  have find: "List.find (\<lambda>y. ds_descriptor y = d) (us @ x # vs) = Some x"
    using x(2,5) by (induction us) auto
  obtain ts u where live: "cx_transactions ?c = ts @ [u]" "cx_current ?c = u" "in_transaction_mode ?c"
    using ctx t(1) by (cases rule: current_cases) auto
  let ?u1 = "ct_associate ?corr u"
  have ctx1: "cl_ctx s1 = ?c\<lparr>cx_transactions := ts @ [?u1]\<rparr>"
    using a(3) t(1) live by (simp add: cx_call_def cx_current_set_def cx_last_set_def)
  have nn: "\<not> trid_null (ct_trid u)" using t(1) live(2) by simp
  have pos: "position (\<lambda>x. trid_eq (ct_trid x) (ct_trid u)) (ts @ [?u1]) = Some (length ts)"
    by (rule stack_position [OF ctx_okD(4) [OF ctx, unfolded live(1)] nn]) (simp add: ct_associate_def)
  have keep: "filter (\<lambda>c. c \<noteq> ?corr) (ct_pending u) = ct_pending u"
    using t(2) live(2) by (metis (mono_tags, lifting) filter_True)
  have same: "ct_replied ?corr ?u1 = u\<lparr>ct_external := True\<rparr>"
    using keep by (cases u) (simp add: ct_replied_def ct_associate_def)
  let ?c2 = "?c\<lparr>cx_transactions := ts @ [u\<lparr>ct_external := True\<rparr>]\<rparr>"
  have upd: "cx_update (rp_trid r) (rp_state r) ?corr (cl_ctx s1) = (Inr (), ?c2)"
    using reply(3,4) nn pos live(2) same by (simp add: cx_update_def act_defs ctx1 Let_def)
  let ?s = "s1\<lparr>cl_ctx := ?c2\<rparr>"
  let ?s2 = "?s\<lparr>cl_descriptors := us @ x\<lparr>ds_active := False\<rparr> # vs\<rparr>"
  have un: "call_unreserve d ?s = (Inr (), ?s2)" by (rule unreserve_split) (use x in auto)
  have "call_fetch inbound d {} s1 = (Inr \<lparr>ro_descriptor = d, ro_user = rp_user r, ro_buffer = rp_buffer r, ro_failed = False\<rparr>, ?s2)"
    using x find reply upd un
    by (simp add: call_fetch_def get_reply_def pending_get_def receive_reply_def finally_unreserve_def in_ctx_def act_defs)
  moreover have "active_descriptors ?s2 = active_descriptors s1 - {d}"
    using x by (auto simp: active_descriptors_def)
  then have "active_descriptors ?s2 = active_descriptors s" using a(1,2) by simp
  moreover have "cx_current ?c2 = u\<lparr>ct_external := True\<rparr>"
    using live by (simp add: cx_current_def in_transaction_mode_def)
  ultimately show ?thesis using a live(2) by (intro exI [where x = ?s2]) simp
qed

definition there_env :: call_env where
  "there_env = gone_env\<lparr>la_instance := (\<lambda>_. True)\<rparr>"

definition sample_reply :: call_reply where
  "sample_reply = \<lparr>rp_correlation = 4, rp_trid = ct_trid (cx_current (cl_ctx sample_calls)), rp_state = Reply_active,
     rp_code = Tp_ok, rp_user = 3, rp_buffer = []\<rparr>"

theorem call_roundtrip_witness:
  "let (r, s1) = call_async there_env ''a'' {} sample_calls; (q, s2) = call_fetch (\<lambda>_. Some sample_reply) 1 {} s1
   in r = Inr 1 \<and> q = Inr \<lparr>ro_descriptor = 1, ro_user = 3, ro_buffer = [], ro_failed = False\<rparr> \<and> active_descriptors s2 = {}"
proof -
  let ?self = "\<lparr>hpid = 1, hipc = 1\<rparr> :: handle"
  have c: "ctx_ok ?self (configured [] [plain_resource 7])" by (rule configured_ok) simp
  have ctx: "ctx_ok ?self (cl_ctx sample_calls)"
    unfolding sample_calls_def initial_calls_def call_state.simps by (rule begin_ok [OF c calm_good]) (simp add: ctx_eval)
  have "fst (call_async there_env ''a'' {} sample_calls) = Inr 1"
    by (simp add: call_async_def prepare_lookup_def lookup_send_def lookup_update_def prepare_message_def reserve_descriptor_def
        async_prepared_def unreserve_on_fault_def call_send_def lookup_answers_def there_env_def gone_env_def
        sample_calls_def initial_calls_def call_descriptor_def cl_event_def ctx_eval)
  then obtain s1 where run: "call_async there_env ''a'' {} sample_calls = (Inr 1, s1)" by (metis prod.collapse)
  have flags: "No_reply \<notin> {}" "No_transaction \<notin> {}" by simp_all
  have t: "la_correlation there_env \<notin> set (ct_pending (cx_current (cl_ctx sample_calls)))"
    by (simp add: sample_calls_def initial_calls_def ctx_eval)
  have r: "rp_correlation sample_reply = la_correlation there_env" "rp_trid sample_reply = ct_trid (cx_current (cl_ctx sample_calls))"
    "rp_state sample_reply = Reply_active" "rp_code sample_reply = Tp_ok"
    by (simp_all add: sample_reply_def there_env_def gone_env_def)
  have "(\<lambda>_. Some sample_reply) (Some (la_correlation there_env)) = Some sample_reply" by simp
  from call_roundtrip [OF sample_calls_facts(1) ctx run flags sample_calls_facts(3) t this r]
  obtain s2 where "call_fetch (\<lambda>_. Some sample_reply) 1 {} s1
      = (Inr \<lparr>ro_descriptor = 1, ro_user = rp_user sample_reply, ro_buffer = rp_buffer sample_reply, ro_failed = False\<rparr>, s2)"
    "active_descriptors s2 = active_descriptors sample_calls" by blast
  then show ?thesis using run sample_calls_facts(2) by (simp add: sample_reply_def)
qed

end
