(* ===== verification/Spec2Isabelle.thy ===== *)
theory Spec2Isabelle
  imports FieldProperties Allocator SvcProperties QueueDelivery CtxCompose CallProperties
begin

text \<open>
  casual is a middleware for distributed transactions: an implementation of the XATMI and TX
  specifications of X/Open. The code is under \<open>src/middleware\<close>. A domain is a set of processes that
  exchange messages over their inbound devices. The service manager knows the services and the
  instances that provide them, the transaction manager coordinates two-phase commit between
  resources, queue groups hold persistent messages and take part in transactions as resources. A
  server links the XATMI library, whose buffers carry typed data, and keeps a transaction context,
  which talks to the resource managers linked in and to the transaction manager.

  This development models these parts at the level of the state and the operations of the source:
  data as records and datatypes with the source's members, every handler as a function of the
  message, the world it runs in and the state. Every definition evaluates.

  \<^bold>\<open>Shared.\<close> \<open>Prelude\<close> has the sequences and ordered maps of the standard library as the code uses
  them, with the contract of a map as a locale. \<open>Handler\<close> is the vocabulary of the handlers: an
  operation returns a value or raises, and what it did before stays done; a handler that keeps a
  predicate on every path; the locale of a dispatcher that handles one message after the other.
  \<open>ProcessMetric\<close> has process handles and metrics (\<open>common/process.h\<close>, \<open>common/metric.h\<close>).

  \<^bold>\<open>Buffers.\<close> \<open>ByteOrder\<close> (\<open>common/network/byteorder\<close>) converts built-in types to network byte order
  and back. \<open>BufferPool\<close> (\<open>common/buffer/pool.h\<close>, \<open>type.cpp\<close>) owns buffers and finds them by address; an
  address is a number that is never used twice, a block has its capacity. \<open>Allocator\<close> states what
  the registered pools promise as a locale and interprets it for each of them. \<open>FieldBuffer\<close>,
  \<open>FieldApi\<close>, \<open>FieldEdit\<close>, \<open>FieldWalk\<close> and \<open>FieldNames\<close> are \<open>buffer/source/field.cpp\<close>: a block of memory with
  an index; \<open>FieldLaws\<close> and \<open>FieldProperties\<close> show that each C function refines the operation on the
  list of fields, that values, travel and iteration round trip, and which codes errors give.
  \<open>OrderBuffer\<close> is \<open>order.cpp\<close>, \<open>TextBuffers\<close> are \<open>string.cpp\<close> and \<open>octet.cpp\<close>; what lies behind the content in
  memory is an argument, and a read beyond it is undefined.

  \<^bold>\<open>Transaction manager.\<close> \<open>Coordinate\<close> is \<open>common/message/coordinate.h\<close>, the template that gathers
  replies and fires once. \<open>TxCode\<close> has the codes of XA and TX and their ranking, \<open>TxState\<close> the state
  (\<open>transaction/manager/state.h\<close>), the log as rows with the part that is on disk, ids and stages,
  \<open>TxHandle\<close> the handlers (\<open>manager/handle.cpp\<close>, \<open>action.cpp\<close>). \<open>TxInvariant\<close> and \<open>TxQueue\<close> show invariants
  that every message keeps, \<open>TxRequests\<close> that each target of a phase gets one request and the
  coordination waits for exactly these. \<open>TxProperties\<close>, \<open>TxCompletion\<close> and \<open>TxInstances\<close> hold the
  properties: decisions of prepare, commit and rollback, durability before the reply, completion
  once the last answer is there, instances and scaling.

  \<^bold>\<open>Service manager.\<close> \<open>SvcState\<close> (\<open>service/manager/state.h\<close>), \<open>SvcHandle\<close> (\<open>state.cpp\<close>, \<open>handle.cpp\<close>),
  \<open>SvcConfig\<close> (configuration and the dispatch of messages). \<open>SvcKeeps\<close> is the interface between the
  handlers and an invariant: a locale of the primitive changes; \<open>SvcInvariant\<close> and \<open>SvcLinked\<close> interpret
  it. \<open>SvcViews\<close> has the views the statements use, \<open>SvcReconfigure\<close> the updates of the configuration that
  keep the invariant (those that leave routes alone), \<open>SvcProperties\<close> the answers to lookups,
  reservations, deadlines, acknowledgements, and what other updates break.

  \<^bold>\<open>Queue group.\<close> \<open>QueueBase\<close> has the tables, triggers and statements of \<open>queue/group/queuebase\<close>, \<open>QueueOps\<close>
  the operations, \<open>QueueGroup\<close> the handlers and the commit of the database between messages
  (\<open>queue/source/group\<close>). \<open>QueueTally\<close> and \<open>QueueInvariant\<close> show that the counters the triggers keep are
  the sums over the messages, \<open>QueuePairs\<close> that queues and error queues stay paired, \<open>QueueKept\<close> what
  operations leave alone; \<open>QueueProperties\<close> and \<open>QueueDelivery\<close> hold the properties: a dequeued message
  belongs to one transaction, an answer to a commit is durable, the order of dequeues, retries,
  and that no pending request waits for an available message it asks for.

  \<^bold>\<open>Transaction context.\<close> \<open>CtxState\<close> (\<open>common/transaction/transaction.cpp\<close>, \<open>resource.cpp\<close>), \<open>CtxHandle\<close>
  (\<open>context.cpp\<close>, the policy of a server and the C functions of \<open>xatmi/source/tx.cpp\<close>, \<open>xa.cpp\<close>). \<open>CtxLegal\<close>
  has the XA interface as an automaton and what each operation does to it, \<open>CtxInvariant\<close>, \<open>CtxKeeps\<close>,
  \<open>CtxService\<close>, \<open>CtxFinal\<close> and \<open>CtxRun\<close> that every sequence of operations keeps to it while the managers
  answer well and the control is not \<open>TX_STACKED\<close>, \<open>CtxProperties\<close> the properties, and where they end, \<open>CtxCompose\<close> a commit of the context against the model of the transaction manager.

  \<^bold>\<open>Calls.\<close> \<open>CallState\<close> is the client side of a call (\<open>common/service/call\<close>, \<open>service/lookup.cpp\<close>):
  descriptors, the lookup, the request and the reply; it holds the transaction context, with which calls
  are associated. \<open>CallProperties\<close> shows what a call leaves when it is made, when it fails and once its
  reply is fetched.

  \<^bold>\<open>Modelling choices.\<close> A handler reads the clock once, also where the code reads it again
  a moment later. A send appends to an outbox or raises, as the
  environment says which destinations can be reached. Where \<open>std::partition\<close>, an unordered map or
  SQL leaves an order open, the model keeps the order of the range, of insertion or of the row id.
  The clock of the database is an integer of microseconds. An exception that leaves the handler of
  a queue group ends the process. What resource managers and the transaction manager answer to a
  context is a function of all that was sent before. Undefined behaviour is a value of its own
  (\<open>Undefined\<close>, \<open>None\<close>, or a flag of the state), after which nothing is claimed. The service manager is
  the exception: its references are keys, so one that an update of the configuration has left
  dangling leads nowhere; the properties of runs exclude such updates. Fuel is used
  nowhere: loops are structural, or recursive with a measure, or \<open>None\<close> where they do not end.

  \<^bold>\<open>Not modelled.\<close> The text output, matching and conversion of fielded buffers (iostreams, regular
  expressions); the serialization archives, the configuration files and the command lines, which
  are bindings of parsers and options; sockets, processes, signals, environment and logging, which
  are system calls; the gateway, the domain manager and discovery, the queue manager and forwards;
  HTTP; the tools. They are parameters of the environment where a modelled part calls them.
\<close>

end
